(* ===== verification/APF_Prelude.thy ===== *)
theory APF_Prelude
  imports Main "HOL-Library.Word"
begin

text \<open>
  Shared vocabulary of the development: the error codes and result types of
  \<^verbatim>\<open>include/apf/result.hpp\<close>, the machine integers, the ordered map that models
  \<^verbatim>\<open>std::map\<close> (sorted association lists, iterated in key order), the generic loops over
  such maps, and the generic theory of reachable states and invariants.

  An \<^verbatim>\<open>Error\<close> is represented by its \<^verbatim>\<open>ErrorCode\<close>. The diagnostic text that accompanies a
  code (message and detail), and all other free text that is written and never read by a
  decision, is not modelled.
\<close>

named_theorems apf_lookup "what a lookup returns after an update of an ordered map"
named_theorems apf_wf "well-formedness facts of the value types"
named_theorems apf_inv "preservation of the runtime invariants"

section \<open>Machine integers\<close>

type_synonym u8 = "8 word"
type_synonym u16 = "16 word"
type_synonym u32 = "32 word"
type_synonym u64 = "64 word"

abbreviation UINT64_MAX :: u64 where
  "UINT64_MAX \<equiv> 0xFFFFFFFFFFFFFFFF"

lemma UINT64_MAX_eq: "UINT64_MAX = - 1"
  by simp

lemma unat_UINT64_MAX [simp]: "unat UINT64_MAX = 2 ^ 64 - 1"
  by simp

lemma u64_le_max [simp]: "(x::u64) \<le> UINT64_MAX"
  unfolding UINT64_MAX_eq by simp

lemma unat_u64_bound: "unat (x::u64) \<le> 2 ^ 64 - 1"
  using unsigned_less [of x, where ?'a = nat] by simp

lemma word_neq_max_iff: "(x::u64) \<noteq> UINT64_MAX \<longleftrightarrow> unat x < 2 ^ 64 - 1"
proof -
  have "x = UINT64_MAX \<longleftrightarrow> unat x = 2 ^ 64 - 1"
    by (metis unat_UINT64_MAX word_unat_eq_iff)
  then show ?thesis
    using unat_u64_bound [of x] by linarith
qed

lemma unat_succ_u64: "(x::u64) \<noteq> UINT64_MAX \<Longrightarrow> unat (x + 1) = Suc (unat x)"
  by (simp add: word_neq_max_iff unat_word_ariths)

lemma succ_u64_nonzero: "(x::u64) \<noteq> UINT64_MAX \<Longrightarrow> x + 1 \<noteq> 0"
  using unat_succ_u64 [of x] by (metis nat.distinct(1) unat_0)

lemma succ_u64_greater: "(x::u64) \<noteq> UINT64_MAX \<Longrightarrow> x < x + 1"
  by (simp add: word_less_nat_alt unat_succ_u64)

text \<open>The overflow guard used throughout the code: \<^verbatim>\<open>a > UINT64_MAX - b\<close>.\<close>

lemma add_guard_u64: "(a::u64) > UINT64_MAX - b \<longleftrightarrow> 2 ^ 64 \<le> unat a + unat b"
proof -
  have "unat (UINT64_MAX - b) = 2 ^ 64 - 1 - unat b"
    by (subst unat_sub) (simp_all add: unat_UINT64_MAX)
  then show ?thesis
    using unat_u64_bound [of b] by (simp add: word_less_nat_alt) linarith
qed

lemma unat_add_no_guard: "\<not> (a::u64) > UINT64_MAX - b \<Longrightarrow> unat (a + b) = unat a + unat b"
  by (simp add: add_guard_u64 unat_word_ariths del: not_less)

lemma u64_of_nat_eq: "n < 2 ^ 64 \<Longrightarrow> of_nat n = (x::u64) \<longleftrightarrow> n = unat x"
  by (auto simp: word_unat_eq_iff unsigned_of_nat take_bit_nat_eq_self)

lemma unat_sub_u64: "(b::u64) \<le> a \<Longrightarrow> unat (a - b) = unat a - unat b"
  by (rule unat_sub)

section \<open>Error codes and results\<close>

datatype error_code =
    E_Ok | E_InvalidRequest | E_InvalidArgument | E_NotFound | E_AlreadyExists
  | E_UnsupportedCapability | E_UnknownCapability | E_StaleGeneration | E_StalePlan
  | E_StaleReservation | E_StaleWorker | E_StaleCoordinatorEpoch | E_StaleEvidence
  | E_StalePartitionGeneration | E_InvalidTransition | E_InsufficientCapacity | E_Fragmented
  | E_IsolationMismatch | E_ReconfigurationRequired | E_DrainRequired | E_PolicyRejected
  | E_ReservationConflict | E_DeviceUnavailable | E_BackendFailure | E_PersistenceCorruption
  | E_ProtocolViolation | E_AmbiguousCompletion | E_ReconciliationRequired
  | E_RevalidationRequired | E_Overflow | E_Underflow | E_LimitExceeded | E_Closed | E_Busy
  | E_Cancelled | E_CapabilityChanged | E_PolicyChanged | E_GenerationRegression
  | E_CorruptState | E_Fenced | E_Internal

text \<open>\<^verbatim>\<open>Result<T>\<close> is a value or an error; \<^verbatim>\<open>Status\<close> is \<^verbatim>\<open>Result<void>\<close>.\<close>

type_synonym 'a result = "error_code + 'a"
type_synonym status = "unit result"

abbreviation success :: status where
  "success \<equiv> Inr ()"

abbreviation failure :: "error_code \<Rightarrow> 'a result" where
  "failure c \<equiv> Inl c"

definition result_ok :: "'a result \<Rightarrow> bool" where
  "result_ok r = (case r of Inl _ \<Rightarrow> False | Inr _ \<Rightarrow> True)"

lemma result_ok_simps [simp]: "result_ok (Inr x) = True" "result_ok (Inl e) = False"
  by (simp_all add: result_ok_def)

lemma status_cases: "(st::status) = success \<or> (\<exists>e. st = Inl e)"
  by (cases st) auto

section \<open>Ordered maps\<close>

text \<open>
  \<^verbatim>\<open>std::map<K, V>\<close> as an association list in strictly increasing key order.
  \<open>om_find\<close> is \<^verbatim>\<open>find\<close>, \<open>om_set\<close> is \<^verbatim>\<open>m[k] = v\<close>, \<open>om_erase\<close> is \<^verbatim>\<open>erase(k)\<close>, and
  \<open>om_modify\<close> is an assignment through a pointer or reference to a mapped value.
\<close>

type_synonym ('k, 'v) omap = "('k \<times> 'v) list"

definition om_find :: "'k \<Rightarrow> ('k, 'v) omap \<Rightarrow> 'v option" where
  "om_find k m = map_of m k"

fun om_set :: "'k::linorder \<Rightarrow> 'v \<Rightarrow> ('k, 'v) omap \<Rightarrow> ('k, 'v) omap" where
  "om_set k v [] = [(k, v)]"
| "om_set k v ((k', v') # m) =
     (if k < k' then (k, v) # (k', v') # m
      else if k = k' then (k, v) # m
      else (k', v') # om_set k v m)"

definition om_erase :: "'k \<Rightarrow> ('k, 'v) omap \<Rightarrow> ('k, 'v) omap" where
  "om_erase k m = filter (\<lambda>e. fst e \<noteq> k) m"

definition om_modify :: "'k \<Rightarrow> ('v \<Rightarrow> 'v) \<Rightarrow> ('k, 'v) omap \<Rightarrow> ('k, 'v) omap" where
  "om_modify k f m = map (\<lambda>e. if fst e = k then (fst e, f (snd e)) else e) m"

definition om_map :: "('v \<Rightarrow> 'v) \<Rightarrow> ('k, 'v) omap \<Rightarrow> ('k, 'v) omap" where
  "om_map f m = map (\<lambda>e. (fst e, f (snd e))) m"

definition om_keys :: "('k, 'v) omap \<Rightarrow> 'k list" where
  "om_keys m = map fst m"

definition om_values :: "('k, 'v) omap \<Rightarrow> 'v list" where
  "om_values m = map snd m"

definition om_sorted :: "('k::linorder, 'v) omap \<Rightarrow> bool" where
  "om_sorted m = sorted_wrt (<) (map fst m)"

lemma om_find_Nil [simp]: "om_find k [] = None"
  by (simp add: om_find_def)

lemma om_find_Cons: "om_find k ((k', v) # m) = (if k = k' then Some v else om_find k m)"
  by (simp add: om_find_def)

lemma om_find_set [apf_lookup]: "om_find k (om_set k' v m) = (if k = k' then Some v else om_find k m)"
  by (induction m) (auto simp: om_find_Cons)

lemma om_find_erase [apf_lookup]: "om_find k (om_erase k' m) = (if k = k' then None else om_find k m)"
  by (induction m) (auto simp: om_find_Cons om_erase_def)

lemma om_find_modify [apf_lookup]:
  "om_find k (om_modify k' f m) = (if k = k' then map_option f (om_find k m) else om_find k m)"
  by (induction m) (auto simp: om_find_Cons om_modify_def)

lemma om_find_map [apf_lookup]: "om_find k (om_map f m) = map_option f (om_find k m)"
  by (induction m) (auto simp: om_find_Cons om_map_def)

lemma om_keys_modify [simp]: "om_keys (om_modify k f m) = om_keys m"
  by (induction m) (auto simp: om_keys_def om_modify_def)

lemma om_keys_map [simp]: "om_keys (om_map f m) = om_keys m"
  by (induction m) (auto simp: om_keys_def om_map_def)

lemma set_om_keys_set [simp]: "set (om_keys (om_set k v m)) = insert k (set (om_keys m))"
  by (induction k v m rule: om_set.induct) (auto simp add: om_keys_def simp del: set_map list.set_map)

lemma om_find_eq_None: "om_find k m = None \<longleftrightarrow> k \<notin> set (om_keys m)"
  by (auto simp: om_find_def om_keys_def map_of_eq_None_iff image_iff)

lemma om_find_in_keys: "om_find k m = Some v \<Longrightarrow> k \<in> set (om_keys m)"
  using om_find_eq_None [of k m] by auto

lemma om_find_in_set: "om_find k m = Some v \<Longrightarrow> (k, v) \<in> set m"
  by (simp add: om_find_def map_of_SomeD)

lemma om_find_in_values: "om_find k m = Some v \<Longrightarrow> v \<in> set (om_values m)"
  by (force simp: om_values_def dest: om_find_in_set)

lemma om_sorted_distinct: "om_sorted m \<Longrightarrow> distinct (om_keys m)"
  by (simp add: om_sorted_def om_keys_def strict_sorted_iff)

lemma om_sorted_find_iff: "om_sorted m \<Longrightarrow> om_find k m = Some v \<longleftrightarrow> (k, v) \<in> set m"
  by (simp add: om_find_def om_sorted_def strict_sorted_iff map_of_eq_Some_iff)

lemma om_sorted_set: "om_sorted m \<Longrightarrow> om_sorted (om_set k v m)"
proof (induction m)
  case Nil
  show ?case by (simp add: om_sorted_def)
next
  case (Cons e m)
  obtain k' v' where e: "e = (k', v')" by (cases e)
  have gt: "\<forall>x\<in>set (om_keys m). k' < x" and srt: "om_sorted m"
    using Cons.prems by (auto simp: e om_sorted_def om_keys_def)
  have "om_sorted (om_set k v m)" by (rule Cons.IH [OF srt])
  moreover have "\<forall>x\<in>set (om_keys (om_set k v m)). k' < x" if "k' < k"
    using gt that by simp
  ultimately show ?case
    using gt srt by (force simp: e om_sorted_def om_keys_def)
qed

lemma om_sorted_erase: "om_sorted m \<Longrightarrow> om_sorted (om_erase k m)"
  by (induction m) (auto simp: om_sorted_def om_erase_def)

lemma om_sorted_modify: "om_sorted m \<Longrightarrow> om_sorted (om_modify k f m)"
  using om_keys_modify [of k f m] by (simp add: om_sorted_def om_keys_def)

lemma length_om_modify [simp]: "length (om_modify k f m) = length m"
  by (simp add: om_modify_def)

lemma length_om_map [simp]: "length (om_map f m) = length m"
  by (simp add: om_map_def)

lemma length_om_set: "om_find k m = None \<Longrightarrow> length (om_set k v m) = Suc (length m)"
  by (induction m) (auto simp: om_find_Cons split: if_splits)

lemma om_values_modify: "set (om_values (om_modify k f m)) \<subseteq> set (om_values m) \<union> f ` set (om_values m)"
  by (force simp: om_values_def om_modify_def)

subsection \<open>The contract of a keyed store\<close>

text \<open>
  What the rest of the runtime relies on when it treats a registry as a \<^verbatim>\<open>std::map\<close>: the
  lookup laws, and that a reference assignment never adds or removes a key. The loops of the
  code are proved against this interface only.
\<close>

locale keyed_store =
  fixes find :: "'k \<Rightarrow> 'm \<Rightarrow> 'v option"
    and set_at :: "'k \<Rightarrow> 'v \<Rightarrow> 'm \<Rightarrow> 'm"
    and erase :: "'k \<Rightarrow> 'm \<Rightarrow> 'm"
    and modify :: "'k \<Rightarrow> ('v \<Rightarrow> 'v) \<Rightarrow> 'm \<Rightarrow> 'm"
    and keys :: "'m \<Rightarrow> 'k list"
  assumes find_set_at: "find k (set_at k' v m) = (if k = k' then Some v else find k m)"
    and find_erase: "find k (erase k' m) = (if k = k' then None else find k m)"
    and find_modify: "find k (modify k' f m) = (if k = k' then map_option f (find k m) else find k m)"
    and keys_modify: "keys (modify k f m) = keys m"
    and find_keys: "find k m = None \<longleftrightarrow> k \<notin> set (keys m)"
begin

lemma set_at_idem: "find k (set_at k v (set_at k w m)) = Some v"
  by (simp add: find_set_at)

lemma erase_set_at: "find k' (erase k (set_at k v m)) = find k' (erase k m)"
  by (simp add: find_set_at find_erase)

lemma modify_commute:
  "k \<noteq> k' \<Longrightarrow> find j (modify k f (modify k' g m)) = find j (modify k' g (modify k f m))"
  by (simp add: find_modify)

lemma fold_modify_other:
  "k \<notin> set ks \<Longrightarrow> find k (fold (\<lambda>k. modify k (f k)) ks m) = find k m"
  by (induction ks arbitrary: m) (simp_all add: find_modify)

lemma fold_modify_listed:
  "distinct ks \<Longrightarrow> k \<in> set ks \<Longrightarrow>
     find k (fold (\<lambda>k. modify k (f k)) ks m) = map_option (f k) (find k m)"
proof (induction ks arbitrary: m)
  case Nil
  then show ?case by simp
next
  case (Cons a ks)
  show ?case
  proof (cases "k = a")
    case True
    with Cons.prems show ?thesis
      by (simp add: fold_modify_other find_modify)
  next
    case False
    with Cons.prems have "k \<in> set ks" by simp
    with Cons.prems(1) False show ?thesis
      by (simp add: Cons.IH find_modify)
  qed
qed

end

interpretation omap: keyed_store om_find om_set om_erase om_modify om_keys
  by unfold_locales (auto simp: apf_lookup om_find_eq_None)

section \<open>Reachable states and invariants\<close>

inductive reachable_from :: "('s \<Rightarrow> bool) \<Rightarrow> ('s \<Rightarrow> 's \<Rightarrow> bool) \<Rightarrow> 's \<Rightarrow> bool"
  for init :: "'s \<Rightarrow> bool" and step :: "'s \<Rightarrow> 's \<Rightarrow> bool" where
  reach_start: "init s \<Longrightarrow> reachable_from init step s"
| reach_next: "reachable_from init step s \<Longrightarrow> step s t \<Longrightarrow> reachable_from init step t"

locale inductive_invariant =
  fixes init :: "'s \<Rightarrow> bool" and step :: "'s \<Rightarrow> 's \<Rightarrow> bool" and invar :: "'s \<Rightarrow> bool"
  assumes invar_init: "init s \<Longrightarrow> invar s"
    and invar_step: "invar s \<Longrightarrow> step s t \<Longrightarrow> invar t"
begin

lemma invar_reachable: "reachable_from init step s \<Longrightarrow> invar s"
  by (induction rule: reachable_from.induct) (auto intro: invar_init invar_step)

lemma invar_run: "invar s \<Longrightarrow> step\<^sup>*\<^sup>* s t \<Longrightarrow> invar t"
  by (rotate_tac, induction rule: rtranclp_induct) (auto intro: invar_step)

end

text \<open>A component all of whose steps move a reading forwards in a preorder never moves it back.\<close>

locale monotone_system =
  fixes step :: "'s \<Rightarrow> 's \<Rightarrow> bool" and reading :: "'s \<Rightarrow> 'r::preorder"
  assumes reading_step: "step s t \<Longrightarrow> reading s \<le> reading t"
begin

lemma reading_run: "step\<^sup>*\<^sup>* s t \<Longrightarrow> reading s \<le> reading t"
  by (induction rule: rtranclp_induct) (auto intro: order_trans reading_step)

end

section \<open>Loops over the entries of a map\<close>

text \<open>
  \<^verbatim>\<open>for (auto& entry : state.xs) { ... }\<close> where the body changes the state but neither inserts
  into nor erases from \<^verbatim>\<open>xs\<close>: the keys are visited in order, and the body runs in the state
  the earlier entries left.
\<close>

fun for_keys :: "'k list \<Rightarrow> ('k \<Rightarrow> 's \<Rightarrow> 's) \<Rightarrow> 's \<Rightarrow> 's" where
  "for_keys [] body s = s"
| "for_keys (k # ks) body s = for_keys ks body (body k s)"

lemma for_keys_invariant:
  assumes "P s" and "\<And>k s. k \<in> set ks \<Longrightarrow> P s \<Longrightarrow> P (body k s)"
  shows "P (for_keys ks body s)"
  using assms by (induction ks arbitrary: s) auto

lemma for_keys_frame:
  assumes "\<And>k s. g (body k s) = g s"
  shows "g (for_keys ks body s) = g s"
  by (induction ks arbitrary: s) (auto simp: assms)

lemma for_keys_append: "for_keys (ks @ ks') body s = for_keys ks' body (for_keys ks body s)"
  by (induction ks arbitrary: s) auto

text \<open>A property of one entry, established when the loop visits it and kept by every later visit.\<close>

lemma for_keys_establish:
  assumes "k \<in> set ks"
    and est: "\<And>s. I s \<Longrightarrow> Q (body k s)"
    and keep: "\<And>k' s. k' \<in> set ks \<Longrightarrow> I s \<Longrightarrow> Q s \<Longrightarrow> Q (body k' s)"
    and inv: "\<And>k' s. k' \<in> set ks \<Longrightarrow> I s \<Longrightarrow> I (body k' s)"
    and "I s"
  shows "Q (for_keys ks body s)"
proof -
  obtain as bs where ks: "ks = as @ k # bs" using assms(1) by (meson split_list)
  have "I (for_keys as body s)"
    using \<open>I s\<close> by (rule for_keys_invariant) (simp add: inv ks)
  then have "I (body k (for_keys as body s)) \<and> Q (body k (for_keys as body s))"
    using est inv [of k] ks by simp
  then have "I (for_keys bs body (body k (for_keys as body s))) \<and>
             Q (for_keys bs body (body k (for_keys as body s)))"
    by (rule for_keys_invariant) (simp add: inv keep ks)
  then show ?thesis by (simp add: ks for_keys_append)
qed

text \<open>A loop that stops at the first error.\<close>

fun try_keys :: "'k list \<Rightarrow> ('k \<Rightarrow> 's \<Rightarrow> 's \<times> status) \<Rightarrow> 's \<Rightarrow> 's \<times> status" where
  "try_keys [] body s = (s, success)"
| "try_keys (k # ks) body s =
     (case body k s of (s', Inl e) \<Rightarrow> (s', Inl e) | (s', Inr _) \<Rightarrow> try_keys ks body s')"

lemma try_keys_invariant:
  assumes "P s" and "\<And>k s. k \<in> set ks \<Longrightarrow> P s \<Longrightarrow> P (fst (body k s))"
  shows "P (fst (try_keys ks body s))"
  using assms
proof (induction ks arbitrary: s)
  case Nil
  then show ?case by simp
next
  case (Cons k ks)
  obtain s' r where b: "body k s = (s', r)" by (cases "body k s")
  have "P s'" using Cons.prems(1) Cons.prems(2) [of k s] b by simp
  then show ?case
    using Cons.IH [of s'] Cons.prems(2) b by (cases r) auto
qed

lemma try_keys_frame:
  assumes "\<And>k s. g (fst (body k s)) = g s"
  shows "g (fst (try_keys ks body s)) = g s"
  by (rule try_keys_invariant [where P = "\<lambda>t. g t = g s"]) (simp_all add: assms)

end
