(* ===== verification/APF_Ids.thy ===== *)
theory APF_Ids
  imports APF_Prelude
begin

unbundle bit_operations_syntax

text \<open>
  \<^verbatim>\<open>include/apf/id.hpp\<close>: strong identities, boot identities, generation counters and the
  identity allocator. The C++ tag parameter makes identities of different kinds distinct
  types; the model gives each kind its own type synonym over the 64-bit representation.
\<close>

section \<open>Identities and generations\<close>

type_synonym strong_id = u64
type_synonym boot_id = u64
type_synonym generation = u64

type_synonym accelerator_id = strong_id
type_synonym partition_id = strong_id
type_synonym profile_id = strong_id
type_synonym plan_id = strong_id
type_synonym reservation_id = strong_id
type_synonym assignment_id = strong_id
type_synonym attempt_id = strong_id
type_synonym worker_id = strong_id

definition id_valid :: "strong_id \<Rightarrow> bool" where
  "id_valid v \<longleftrightarrow> v \<noteq> 0"

definition boot_valid :: "boot_id \<Rightarrow> bool" where
  "boot_valid v \<longleftrightarrow> v \<noteq> 0"

definition gen_unknown :: generation where
  "gen_unknown = 0"

definition gen_first :: generation where
  "gen_first = 1"

definition gen_known :: "generation \<Rightarrow> bool" where
  "gen_known v \<longleftrightarrow> v \<noteq> 0"

definition gen_next :: "generation \<Rightarrow> generation result" where
  "gen_next v = (if v = UINT64_MAX then failure E_Overflow else Inr (v + 1))"

lemma gen_first_known [simp]: "gen_known gen_first"
  by (simp add: gen_known_def gen_first_def)

lemma gen_next_Inr: "gen_next g = Inr g' \<longleftrightarrow> g \<noteq> UINT64_MAX \<and> g' = g + 1"
  by (auto simp: gen_next_def)

lemma gen_next_greater: "gen_next g = Inr g' \<Longrightarrow> g < g'"
  by (auto simp: gen_next_Inr succ_u64_greater)

lemma gen_next_known: "gen_next g = Inr g' \<Longrightarrow> gen_known g'"
  by (auto simp: gen_next_Inr gen_known_def succ_u64_nonzero)

lemma gen_next_unat: "gen_next g = Inr g' \<Longrightarrow> unat g' = Suc (unat g)"
  by (auto simp: gen_next_Inr unat_succ_u64)

text \<open>
  The contract of a checked counter: the successor is strictly larger or the counter is
  exhausted. No sequence of successors ever revisits a value, which is what keeps fenced
  authority fenced.
\<close>

locale checked_counter =
  fixes next_of :: "'g::linorder \<Rightarrow> 'g result"
  assumes next_greater: "next_of g = Inr g' \<Longrightarrow> g < g'"
begin

inductive advances :: "'g \<Rightarrow> 'g \<Rightarrow> bool" where
  adv_one: "next_of g = Inr g' \<Longrightarrow> advances g g'"
| adv_more: "advances g g' \<Longrightarrow> next_of g' = Inr g'' \<Longrightarrow> advances g g''"

lemma advances_greater: "advances g g' \<Longrightarrow> g < g'"
  by (induction rule: advances.induct) (auto dest: next_greater)

lemma advances_no_return: "\<not> advances g g"
  by (auto dest: advances_greater)

end

interpretation gen: checked_counter gen_next
  by unfold_locales (rule gen_next_greater)

section \<open>The identity allocator\<close>

record id_allocator =
  ida_next :: u64

definition id_allocator_init :: id_allocator where
  "id_allocator_init = \<lparr>ida_next = 1\<rparr>"

definition allocate :: "id_allocator \<Rightarrow> id_allocator \<times> strong_id result" where
  "allocate a = (if ida_next a = UINT64_MAX then (a, failure E_Overflow)
                 else (a\<lparr>ida_next := ida_next a + 1\<rparr>, Inr (ida_next a)))"

definition restore_floor :: "u64 \<Rightarrow> id_allocator \<Rightarrow> id_allocator \<times> status" where
  "restore_floor persisted a =
     (if persisted < ida_next a then (a, failure E_GenerationRegression)
      else (a\<lparr>ida_next := persisted\<rparr>, success))"

lemma allocate_Inr:
  "allocate a = (a', Inr i) \<longleftrightarrow>
     ida_next a \<noteq> UINT64_MAX \<and> a' = a\<lparr>ida_next := ida_next a + 1\<rparr> \<and> i = ida_next a"
  by (auto simp: allocate_def)

lemma allocate_Inl: "allocate a = (a', Inl e) \<longleftrightarrow> ida_next a = UINT64_MAX \<and> a' = a \<and> e = E_Overflow"
  by (auto simp: allocate_def)

lemma allocate_monotone: "ida_next a \<le> ida_next (fst (allocate a))"
  by (auto simp: allocate_def less_imp_le succ_u64_greater)

lemma allocate_below: "allocate a = (a', Inr i) \<Longrightarrow> i < ida_next a'"
  by (auto simp: allocate_Inr succ_u64_greater)

lemma restore_floor_monotone: "ida_next a \<le> ida_next (fst (restore_floor p a))"
  by (auto simp: restore_floor_def)

text \<open>A run of the allocator: the identities handed out by consecutive allocations.\<close>

fun allocate_many :: "nat \<Rightarrow> id_allocator \<Rightarrow> id_allocator \<times> strong_id list" where
  "allocate_many 0 a = (a, [])"
| "allocate_many (Suc n) a =
     (case allocate a of
        (a', Inl _) \<Rightarrow> (a', [])
      | (a', Inr i) \<Rightarrow> (let (a'', is) = allocate_many n a' in (a'', i # is)))"

lemma allocate_many_above:
  "i \<in> set (snd (allocate_many n a)) \<Longrightarrow> ida_next a \<le> i"
proof (induction n arbitrary: a)
  case 0
  then show ?case by simp
next
  case (Suc n)
  show ?case
  proof (cases "ida_next a = UINT64_MAX")
    case True
    with Suc.prems show ?thesis by (simp add: allocate_def)
  next
    case False
    let ?a = "a\<lparr>ida_next := ida_next a + 1\<rparr>"
    have "i = ida_next a \<or> i \<in> set (snd (allocate_many n ?a))"
      using Suc.prems False by (auto simp: allocate_def split: prod.splits)
    then show ?thesis
      using Suc.IH [of ?a] succ_u64_greater [OF False] by auto
  qed
qed

lemma allocate_many_sorted: "sorted_wrt (<) (snd (allocate_many n a))"
proof (induction n arbitrary: a)
  case 0
  show ?case by simp
next
  case (Suc n)
  show ?case
  proof (cases "ida_next a = UINT64_MAX")
    case True
    then show ?thesis by (simp add: allocate_def)
  next
    case False
    let ?a = "a\<lparr>ida_next := ida_next a + 1\<rparr>"
    have "ida_next a < i" if "i \<in> set (snd (allocate_many n ?a))" for i
      using allocate_many_above [OF that] succ_u64_greater [OF False] by simp
    with False Suc.IH [of ?a] show ?thesis
      by (cases "allocate_many n ?a") (simp add: allocate_def)
  qed
qed

section \<open>Boot identities\<close>

text \<open>\<^verbatim>\<open>BootId::derive\<close>: a 64-bit finaliser, with the value 0 replaced.\<close>

definition boot_mix :: "u64 \<Rightarrow> u64" where
  "boot_mix entropy =
     (let mixed = entropy + 0x9E3779B97F4A7C15;
          mixed = (mixed XOR drop_bit 30 mixed) * 0xBF58476D1CE4E5B9;
          mixed = (mixed XOR drop_bit 27 mixed) * 0x94D049BB133111EB
      in mixed XOR drop_bit 31 mixed)"

definition boot_derive :: "u64 \<Rightarrow> boot_id" where
  "boot_derive entropy =
     (let mixed = boot_mix entropy in if mixed = 0 then 0xA5A5A5A5A5A5A5A5 else mixed)"

definition hex_digits :: string where
  "hex_digits = ''0123456789abcdef''"

text \<open>\<^verbatim>\<open>BootId::hex\<close>: the loop fills positions 15 down to 0 from the low nibble up.\<close>

fun hex_loop :: "nat \<Rightarrow> u64 \<Rightarrow> string \<Rightarrow> string" where
  "hex_loop 0 remaining acc = acc"
| "hex_loop (Suc n) remaining acc =
     hex_loop n (drop_bit 4 remaining) (hex_digits ! unat (remaining AND 0xF) # acc)"

definition boot_hex :: "boot_id \<Rightarrow> string" where
  "boot_hex v = hex_loop 16 v []"

definition hex_value :: "char \<Rightarrow> u64 option" where
  "hex_value ch =
     (let c = of_char ch :: nat in
      if 48 \<le> c \<and> c \<le> 57 then Some (of_nat (c - 48))
      else if 97 \<le> c \<and> c \<le> 102 then Some (of_nat (c - 97 + 10))
      else if 65 \<le> c \<and> c \<le> 70 then Some (of_nat (c - 65 + 10))
      else None)"

fun parse_hex_loop :: "string \<Rightarrow> u64 \<Rightarrow> boot_id result" where
  "parse_hex_loop [] out = Inr out"
| "parse_hex_loop (ch # text) out =
     (case hex_value ch of
        None \<Rightarrow> failure E_InvalidArgument
      | Some d \<Rightarrow> parse_hex_loop text (push_bit 4 out OR d))"

definition parse_hex :: "string \<Rightarrow> boot_id result" where
  "parse_hex text = (if length text \<noteq> 16 then failure E_InvalidArgument else parse_hex_loop text 0)"

lemma hex_value_digit: "n < 16 \<Longrightarrow> hex_value (hex_digits ! n) = Some (of_nat n)"
proof -
  have all: "list_all (\<lambda>n. hex_value (hex_digits ! n) = Some (of_nat n)) [0..<16]"
    by code_simp
  assume "n < 16"
  with all show ?thesis by (simp add: list_all_iff)
qed

lemma nibble_take_bit: "(v::u64) AND 0xF = take_bit 4 v"
  by (simp add: take_bit_eq_mask mask_eq_exp_minus_1)

lemma nibble_bound: "unat ((v::u64) AND 0xF) < 16"
proof -
  have "unat (take_bit 4 v) = take_bit 4 (unat v)"
    by (simp add: unsigned_take_bit_eq)
  also have "\<dots> < 2 ^ 4" by (rule take_bit_nat_less_exp)
  finally show ?thesis by (simp add: nibble_take_bit)
qed

lemma nibble_shift:
  "push_bit 4 (push_bit m out OR take_bit m (drop_bit 4 v)) OR take_bit 4 v
   = push_bit (m + 4) out OR take_bit (m + 4) (v::u64)"
  by (rule bit_eqI) (auto simp: bit_simps add.commute [of 4 m])

lemma parse_hex_loop_hex_loop:
  "parse_hex_loop (hex_loop n v acc) out =
     parse_hex_loop acc (push_bit (4 * n) out OR take_bit (4 * n) v)"
proof (induction n arbitrary: v acc)
  case 0
  show ?case by simp
next
  case (Suc n)
  have "hex_value (hex_digits ! unat (v AND 0xF)) = Some (v AND 0xF)"
    using hex_value_digit [OF nibble_bound [of v]] by simp
  then show ?case
    using nibble_shift [of "4 * n" out v]
    by (simp add: Suc.IH nibble_take_bit add.commute)
qed

lemma length_hex_loop: "length (hex_loop n v acc) = n + length acc"
  by (induction n arbitrary: v acc) simp_all

lemma parse_hex_boot_hex: "parse_hex (boot_hex v) = Inr v"
  by (simp add: parse_hex_def boot_hex_def length_hex_loop parse_hex_loop_hex_loop take_bit_word_eq_self)

lemma boot_hex_inj: "boot_hex v = boot_hex w \<longleftrightarrow> v = w"
  by (metis parse_hex_boot_hex sum.inject(2))

section \<open>Decimal identity text\<close>

text \<open>
  \<^verbatim>\<open>StrongId::str\<close> is \<^verbatim>\<open>std::to_string\<close>. \<^verbatim>\<open>StrongId::parse\<close> is \<^verbatim>\<open>std::from_chars\<close> on an
  unsigned integer: it reads the longest prefix of decimal digits, fails on an empty prefix
  or a value out of range, and the caller then demands that nothing is left over.
\<close>

definition dec_digit :: "nat \<Rightarrow> char" where
  "dec_digit n = char_of (48 + n)"

definition is_dec_digit :: "char \<Rightarrow> bool" where
  "is_dec_digit c \<longleftrightarrow> (48::nat) \<le> of_char c \<and> of_char c \<le> (57::nat)"

definition dec_value :: "char \<Rightarrow> nat" where
  "dec_value c = of_char c - 48"

fun dec_str :: "nat \<Rightarrow> string" where
  "dec_str n = (if n < 10 then [dec_digit n] else dec_str (n div 10) @ [dec_digit (n mod 10)])"

declare dec_str.simps [simp del]

definition id_str :: "strong_id \<Rightarrow> string" where
  "id_str v = dec_str (unat v)"

definition dec_read :: "string \<Rightarrow> nat" where
  "dec_read = foldl (\<lambda>acc c. acc * 10 + dec_value c) 0"

definition id_parse :: "string \<Rightarrow> strong_id result" where
  "id_parse text =
     (if text = [] then failure E_InvalidArgument
      else
        (let ds = takeWhile is_dec_digit text in
         if ds = [] \<or> 2 ^ 64 - 1 < dec_read ds \<or> ds \<noteq> text then failure E_InvalidArgument
         else Inr (of_nat (dec_read ds))))"

lemma of_char_dec_digit: "n < 10 \<Longrightarrow> of_char (dec_digit n) = (48 + n :: nat)"
  by (simp add: dec_digit_def)

lemma is_dec_digit_dec_digit: "n < 10 \<Longrightarrow> is_dec_digit (dec_digit n)"
  by (simp add: is_dec_digit_def of_char_dec_digit)

lemma dec_str_digits: "list_all is_dec_digit (dec_str n) \<and> dec_str n \<noteq> []"
proof (induction n rule: dec_str.induct)
  case (1 n)
  then show ?case
    by (subst (1 2) dec_str.simps) (auto simp: is_dec_digit_dec_digit)
qed

lemma dec_read_dec_str: "dec_read (dec_str n) = n"
proof (induction n rule: dec_str.induct)
  case (1 n)
  show ?case
  proof (cases "n < 10")
    case True
    then show ?thesis
      by (subst dec_str.simps) (simp add: dec_read_def dec_value_def of_char_dec_digit)
  next
    case False
    with "1.IH" show ?thesis
      by (subst dec_str.simps) (simp add: dec_read_def dec_value_def of_char_dec_digit)
  qed
qed

lemma id_parse_id_str: "id_parse (id_str v) = Inr v"
proof -
  have tw: "takeWhile is_dec_digit (dec_str (unat v)) = dec_str (unat v)"
    using dec_str_digits [of "unat v"] by (simp add: takeWhile_eq_all_conv list_all_iff)
  show ?thesis
    using dec_str_digits [of "unat v"] unat_u64_bound [of v]
    unfolding id_parse_def id_str_def Let_def tw dec_read_dec_str by simp
qed

end
