(* ===== verification/APF_Resource.thy ===== *)
theory APF_Resource
  imports APF_Ids
begin

unbundle bit_operations_syntax

text \<open>
  \<^verbatim>\<open>include/apf/resource.hpp\<close> and \<^verbatim>\<open>src/resource.cpp\<close>: the capacity dimensions and the sparse
  resource vector, an array of eight 64-bit values with a 32-bit presence mask. Every loop
  of the code over the dimension indices is a recursive function over the index list.
\<close>

section \<open>Dimensions\<close>

datatype resource_dimension =
    ComputeShare | MemoryBytes | MemoryBandwidthShare | ExecutionEngineShare
  | CopyEngineShare | MediaEngineShare | CacheShare | DmaShare | Dimension_Count

fun dim_index :: "resource_dimension \<Rightarrow> nat" where
  "dim_index ComputeShare = 0"
| "dim_index MemoryBytes = 1"
| "dim_index MemoryBandwidthShare = 2"
| "dim_index ExecutionEngineShare = 3"
| "dim_index CopyEngineShare = 4"
| "dim_index MediaEngineShare = 5"
| "dim_index CacheShare = 6"
| "dim_index DmaShare = 7"
| "dim_index Dimension_Count = 8"

abbreviation kResourceDimensionCount :: nat where
  "kResourceDimensionCount \<equiv> 8"

abbreviation kShareScale :: u64 where
  "kShareScale \<equiv> 1000000"

definition all_dimensions :: "resource_dimension list" where
  "all_dimensions = [ComputeShare, MemoryBytes, MemoryBandwidthShare, ExecutionEngineShare,
                     CopyEngineShare, MediaEngineShare, CacheShare, DmaShare]"

text \<open>\<^verbatim>\<open>static_cast<ResourceDimension>(index)\<close>; the code only casts indices below the count.\<close>

definition dim_of_index :: "nat \<Rightarrow> resource_dimension" where
  "dim_of_index i = (if i < kResourceDimensionCount then all_dimensions ! i else Dimension_Count)"

definition kDimensionNames :: "string list" where
  "kDimensionNames = [''compute_share'', ''memory_bytes'', ''memory_bandwidth_share'',
     ''execution_engine_share'', ''copy_engine_share'', ''media_engine_share'', ''cache_share'',
     ''dma_share'']"

definition dim_to_string :: "resource_dimension \<Rightarrow> string" where
  "dim_to_string d = (if kResourceDimensionCount \<le> dim_index d then ''unknown''
                      else kDimensionNames ! dim_index d)"

fun dim_search :: "nat list \<Rightarrow> string \<Rightarrow> resource_dimension result" where
  "dim_search [] name = failure E_InvalidArgument"
| "dim_search (i # is) name =
     (if name = kDimensionNames ! i then Inr (dim_of_index i) else dim_search is name)"

definition resource_dimension_from_string :: "string \<Rightarrow> resource_dimension result" where
  "resource_dimension_from_string name = dim_search [0..<kResourceDimensionCount] name"

definition is_share_index :: "nat \<Rightarrow> bool" where
  "is_share_index i \<longleftrightarrow> i \<noteq> 1"

definition is_share_dimension :: "resource_dimension \<Rightarrow> bool" where
  "is_share_dimension d =
     (if kResourceDimensionCount \<le> dim_index d then False else is_share_index (dim_index d))"

lemma index_less_8_cases:
  "i < (8::nat) \<Longrightarrow> i = 0 \<or> i = 1 \<or> i = 2 \<or> i = 3 \<or> i = 4 \<or> i = 5 \<or> i = 6 \<or> i = 7"
  by arith

lemma dim_index_of_index [simp]: "i < 8 \<Longrightarrow> dim_index (dim_of_index i) = i"
  using index_less_8_cases [of i] by (auto simp: dim_of_index_def all_dimensions_def)

lemma dim_of_index_index: "dim_of_index (dim_index d) = d"
  by (cases d) (simp_all add: dim_of_index_def all_dimensions_def)

lemma dim_index_inj: "dim_index d = dim_index e \<longleftrightarrow> d = e"
  by (metis dim_of_index_index)

lemma dim_index_less: "dim_index d < 8 \<longleftrightarrow> d \<noteq> Dimension_Count"
  by (cases d) simp_all

lemma dim_index_le_8: "dim_index d \<le> 8"
  by (cases d) simp_all

lemma dim_from_string_to_string:
  "d \<noteq> Dimension_Count \<Longrightarrow> resource_dimension_from_string (dim_to_string d) = Inr d"
proof -
  have "list_all (\<lambda>d. resource_dimension_from_string (dim_to_string d) = Inr d) all_dimensions"
    by code_simp
  moreover assume "d \<noteq> Dimension_Count"
  then have "d \<in> set all_dimensions" by (cases d) (simp_all add: all_dimensions_def)
  ultimately show ?thesis by (simp add: list_all_iff)
qed

section \<open>The vector\<close>

record resource_vector =
  rv_values :: "u64 list"
  rv_mask :: u32

definition rv_zeros :: resource_vector where
  "rv_zeros = \<lparr>rv_values = replicate 8 0, rv_mask = 0\<rparr>"

text \<open>\<^verbatim>\<open>1u << index\<close>\<close>

definition index_bit :: "nat \<Rightarrow> u32" where
  "index_bit i = push_bit i 1"

definition mask_has :: "u32 \<Rightarrow> nat \<Rightarrow> bool" where
  "mask_has m i \<longleftrightarrow> m AND index_bit i \<noteq> 0"

definition rv_has :: "resource_vector \<Rightarrow> resource_dimension \<Rightarrow> bool" where
  "rv_has v d = mask_has (rv_mask v) (dim_index d)"

definition rv_get :: "resource_vector \<Rightarrow> resource_dimension \<Rightarrow> u64" where
  "rv_get v d = (if rv_has v d then rv_values v ! dim_index d else 0)"

definition rv_try_get :: "resource_vector \<Rightarrow> resource_dimension \<Rightarrow> u64 option" where
  "rv_try_get v d = (if \<not> rv_has v d then None else Some (rv_values v ! dim_index d))"

definition rv_empty :: "resource_vector \<Rightarrow> bool" where
  "rv_empty v \<longleftrightarrow> rv_mask v = 0"

definition rv_set :: "resource_dimension \<Rightarrow> u64 \<Rightarrow> resource_vector \<Rightarrow> resource_vector \<times> status" where
  "rv_set d value v =
     (let i = dim_index d in
      if kResourceDimensionCount \<le> i then (v, failure E_InvalidArgument)
      else if is_share_dimension d \<and> value > kShareScale then (v, failure E_InvalidArgument)
      else (v\<lparr>rv_values := (rv_values v)[i := value], rv_mask := rv_mask v OR index_bit i\<rparr>, success))"

definition rv_clear :: "resource_dimension \<Rightarrow> resource_vector \<Rightarrow> resource_vector" where
  "rv_clear d v =
     (let i = dim_index d in
      if kResourceDimensionCount \<le> i then v
      else v\<lparr>rv_values := (rv_values v)[i := 0], rv_mask := rv_mask v AND NOT (index_bit i)\<rparr>)"

definition rv_set_if_absent :: "resource_dimension \<Rightarrow> u64 \<Rightarrow> resource_vector \<Rightarrow> resource_vector" where
  "rv_set_if_absent d value v = (if \<not> rv_has v d then fst (rv_set d value v) else v)"

fun count_loop :: "nat list \<Rightarrow> u32 \<Rightarrow> nat \<Rightarrow> nat" where
  "count_loop [] m n = n"
| "count_loop (i # is) m n = count_loop is m (if mask_has m i then Suc n else n)"

definition rv_dimension_count :: "resource_vector \<Rightarrow> nat" where
  "rv_dimension_count v = count_loop [0..<kResourceDimensionCount] (rv_mask v) 0"

fun subset_loop :: "nat list \<Rightarrow> resource_vector \<Rightarrow> resource_vector \<Rightarrow> bool" where
  "subset_loop [] v other = True"
| "subset_loop (i # is) v other =
     (if \<not> mask_has (rv_mask v) i then subset_loop is v other
      else if \<not> mask_has (rv_mask other) i then False
      else if rv_values v ! i > rv_values other ! i then False
      else subset_loop is v other)"

definition is_subset_of :: "resource_vector \<Rightarrow> resource_vector \<Rightarrow> bool" where
  "is_subset_of v other = subset_loop [0..<kResourceDimensionCount] v other"

definition same_dimensions :: "resource_vector \<Rightarrow> resource_vector \<Rightarrow> bool" where
  "same_dimensions v other \<longleftrightarrow> rv_mask v = rv_mask other"

definition rv_add :: "resource_dimension \<Rightarrow> u64 \<Rightarrow> resource_vector \<Rightarrow> resource_vector \<times> status" where
  "rv_add d amount v =
     (let i = dim_index d in
      if kResourceDimensionCount \<le> i then (v, failure E_InvalidArgument)
      else if \<not> mask_has (rv_mask v) i then (v, failure E_InvalidArgument)
      else if rv_values v ! i > UINT64_MAX - amount then (v, failure E_Overflow)
      else
        (let sum = rv_values v ! i + amount in
         if is_share_dimension d \<and> sum > kShareScale then (v, failure E_Overflow)
         else (v\<lparr>rv_values := (rv_values v)[i := sum]\<rparr>, success)))"

definition rv_sub :: "resource_dimension \<Rightarrow> u64 \<Rightarrow> resource_vector \<Rightarrow> resource_vector \<times> status" where
  "rv_sub d amount v =
     (let i = dim_index d in
      if kResourceDimensionCount \<le> i then (v, failure E_InvalidArgument)
      else if \<not> mask_has (rv_mask v) i then (v, failure E_InvalidArgument)
      else if rv_values v ! i < amount then (v, failure E_Underflow)
      else (v\<lparr>rv_values := (rv_values v)[i := rv_values v ! i - amount]\<rparr>, success))"

text \<open>
  \<^verbatim>\<open>add_assign\<close> and \<^verbatim>\<open>sub_assign\<close> share one loop: apply the per-dimension operation to every
  dimension present in the other vector and return at the first failure.
\<close>

fun checked_loop ::
  "(resource_dimension \<Rightarrow> u64 \<Rightarrow> resource_vector \<Rightarrow> resource_vector \<times> status) \<Rightarrow>
   nat list \<Rightarrow> resource_vector \<Rightarrow> resource_vector \<Rightarrow> resource_vector \<times> status" where
  "checked_loop oper [] other v = (v, success)"
| "checked_loop oper (i # is) other v =
     (if \<not> mask_has (rv_mask other) i then checked_loop oper is other v
      else case oper (dim_of_index i) (rv_values other ! i) v of
             (v', Inl e) \<Rightarrow> (v', Inl e)
           | (v', Inr _) \<Rightarrow> checked_loop oper is other v')"

definition rv_add_assign :: "resource_vector \<Rightarrow> resource_vector \<Rightarrow> resource_vector \<times> status" where
  "rv_add_assign v other =
     (if rv_mask other AND NOT (rv_mask v) \<noteq> 0 then (v, failure E_InvalidArgument)
      else checked_loop rv_add [0..<kResourceDimensionCount] other v)"

definition rv_sub_assign :: "resource_vector \<Rightarrow> resource_vector \<Rightarrow> resource_vector \<times> status" where
  "rv_sub_assign v other =
     (if rv_mask other AND NOT (rv_mask v) \<noteq> 0 then (v, failure E_InvalidArgument)
      else checked_loop rv_sub [0..<kResourceDimensionCount] other v)"

fun pointwise_loop ::
  "(nat \<Rightarrow> u64) \<Rightarrow> nat list \<Rightarrow> resource_vector \<Rightarrow> resource_vector \<Rightarrow> resource_vector" where
  "pointwise_loop f [] v out = out"
| "pointwise_loop f (i # is) v out =
     (if \<not> mask_has (rv_mask v) i then pointwise_loop f is v out
      else pointwise_loop f is v
             (out\<lparr>rv_values := (rv_values out)[i := f i], rv_mask := rv_mask out OR index_bit i\<rparr>))"

definition rv_min_with :: "resource_vector \<Rightarrow> resource_vector \<Rightarrow> resource_vector" where
  "rv_min_with v other =
     pointwise_loop
       (\<lambda>i. min (rv_values v ! i)
              (if mask_has (rv_mask other) i then rv_values other ! i else rv_values v ! i))
       [0..<kResourceDimensionCount] v rv_zeros"

definition rv_saturating_sub :: "resource_vector \<Rightarrow> resource_vector \<Rightarrow> resource_vector" where
  "rv_saturating_sub v other =
     pointwise_loop
       (\<lambda>i. let o_value = (if mask_has (rv_mask other) i then rv_values other ! i else 0)
            in if rv_values v ! i > o_value then rv_values v ! i - o_value else 0)
       [0..<kResourceDimensionCount] v rv_zeros"

fun share_loop :: "nat list \<Rightarrow> resource_vector \<Rightarrow> status" where
  "share_loop [] v = success"
| "share_loop (i # is) v =
     (if \<not> mask_has (rv_mask v) i then share_loop is v
      else if is_share_index i \<and> rv_values v ! i > kShareScale then failure E_InvalidArgument
      else share_loop is v)"

definition validate_dimensions :: "resource_vector \<Rightarrow> status" where
  "validate_dimensions v =
     (let valid_mask = index_bit kResourceDimensionCount - 1 in
      if rv_mask v AND NOT valid_mask \<noteq> 0 then failure E_InvalidArgument
      else share_loop [0..<kResourceDimensionCount] v)"

definition rv_magnitude :: "resource_vector \<Rightarrow> resource_dimension \<Rightarrow> u64" where
  "rv_magnitude v weighting = rv_get v weighting"

fun eq_loop :: "nat list \<Rightarrow> resource_vector \<Rightarrow> resource_vector \<Rightarrow> bool" where
  "eq_loop [] l r = True"
| "eq_loop (i # is) l r =
     (if \<not> mask_has (rv_mask l) i then eq_loop is l r
      else if rv_values l ! i \<noteq> rv_values r ! i then False
      else eq_loop is l r)"

definition rv_eq :: "resource_vector \<Rightarrow> resource_vector \<Rightarrow> bool" where
  "rv_eq l r = (if rv_mask l \<noteq> rv_mask r then False else eq_loop [0..<kResourceDimensionCount] l r)"

fun less_loop :: "nat list \<Rightarrow> resource_vector \<Rightarrow> resource_vector \<Rightarrow> bool" where
  "less_loop [] l r = False"
| "less_loop (i # is) l r =
     (if \<not> mask_has (rv_mask l) i then less_loop is l r
      else if rv_values l ! i \<noteq> rv_values r ! i then rv_values l ! i < rv_values r ! i
      else less_loop is l r)"

definition rv_less :: "resource_vector \<Rightarrow> resource_vector \<Rightarrow> bool" where
  "rv_less l r = (if rv_mask l \<noteq> rv_mask r then rv_mask l < rv_mask r
                  else less_loop [0..<kResourceDimensionCount] l r)"

fun make_loop :: "(resource_dimension \<times> u64) list \<Rightarrow> resource_vector \<Rightarrow> resource_vector result" where
  "make_loop [] v = Inr v"
| "make_loop (e # es) v =
     (if rv_has v (fst e) then failure E_AlreadyExists
      else case rv_set (fst e) (snd e) v of
             (v', Inl err) \<Rightarrow> Inl err
           | (v', Inr _) \<Rightarrow> make_loop es v')"

definition make_resource_vector :: "(resource_dimension \<times> u64) list \<Rightarrow> resource_vector result" where
  "make_resource_vector values = make_loop values rv_zeros"

definition mib :: "u64 \<Rightarrow> u64" where
  "mib count = push_bit 20 count"

definition gib :: "u64 \<Rightarrow> u64" where
  "gib count = push_bit 30 count"

section \<open>Masks and values\<close>

lemma mask_has_bit: "i < 32 \<Longrightarrow> mask_has m i \<longleftrightarrow> bit m i"
proof -
  assume i: "i < 32"
  have "m AND index_bit i = 0 \<longleftrightarrow> \<not> bit m i"
    using i by (auto simp: index_bit_def and_exp_eq_0_iff_not_bit push_bit_eq_mult)
  then show ?thesis by (simp add: mask_has_def)
qed

lemma mask_subset_iff: "(m::u32) AND NOT n = 0 \<longleftrightarrow> (\<forall>i<32. bit m i \<longrightarrow> bit n i)"
  by (auto simp: bit_eq_iff bit_simps)

definition rv_wf :: "resource_vector \<Rightarrow> bool" where
  "rv_wf v \<longleftrightarrow> length (rv_values v) = 8"

text \<open>
  The abstract reading of a vector: the quantity of dimension \<open>i\<close>, a natural number, and 0
  for a dimension that is not present.
\<close>

definition rv_val :: "resource_vector \<Rightarrow> nat \<Rightarrow> nat" where
  "rv_val v i = (if bit (rv_mask v) i then unat (rv_values v ! i) else 0)"

text \<open>The largest quantity a dimension may hold.\<close>

definition dim_cap :: "nat \<Rightarrow> nat" where
  "dim_cap i = (if is_share_index i then 1000000 else 2 ^ 64 - 1)"

lemma rv_get_val: "d \<noteq> Dimension_Count \<Longrightarrow> unat (rv_get v d) = rv_val v (dim_index d)"
proof -
  assume "d \<noteq> Dimension_Count"
  then have "dim_index d < 32" using dim_index_less [of d] by simp
  then show ?thesis by (simp add: rv_get_def rv_val_def rv_has_def mask_has_bit)
qed

lemma rv_has_bit: "rv_has v d \<longleftrightarrow> bit (rv_mask v) (dim_index d)"
  using dim_index_le_8 [of d] by (simp add: rv_has_def mask_has_bit)

lemma is_share_dimension_of_index: "i < 8 \<Longrightarrow> is_share_dimension (dim_of_index i) = is_share_index i"
  by (simp add: is_share_dimension_def)

lemma rv_wf_zeros [apf_wf]: "rv_wf rv_zeros"
  by (simp add: rv_wf_def rv_zeros_def)

lemma rv_val_zeros [simp]: "rv_val rv_zeros i = 0"
  by (simp add: rv_val_def rv_zeros_def)

lemma rv_empty_zeros [simp]: "rv_empty rv_zeros"
  by (simp add: rv_empty_def rv_zeros_def)

section \<open>Inclusion and equality\<close>

lemma subset_loop_iff:
  "set is \<subseteq> {..<8} \<Longrightarrow> subset_loop is v w \<longleftrightarrow>
     (\<forall>i\<in>set is. bit (rv_mask v) i \<longrightarrow> bit (rv_mask w) i \<and> rv_values v ! i \<le> rv_values w ! i)"
  by (induction "is") (auto simp: mask_has_bit not_less)

lemma is_subset_of_iff:
  "is_subset_of v w \<longleftrightarrow>
     (\<forall>i<8. bit (rv_mask v) i \<longrightarrow> bit (rv_mask w) i \<and> rv_val v i \<le> rv_val w i)"
  unfolding is_subset_of_def
  by (subst subset_loop_iff) (auto simp: rv_val_def word_le_nat_alt)

lemma eq_loop_iff:
  "set is \<subseteq> {..<8} \<Longrightarrow> eq_loop is v w \<longleftrightarrow>
     (\<forall>i\<in>set is. bit (rv_mask v) i \<longrightarrow> rv_values v ! i = rv_values w ! i)"
  by (induction "is") (auto simp: mask_has_bit)

lemma rv_eq_iff: "rv_eq v w \<longleftrightarrow> rv_mask v = rv_mask w \<and> (\<forall>i<8. rv_val v i = rv_val w i)"
proof (cases "rv_mask v = rv_mask w")
  case True
  then show ?thesis
    unfolding rv_eq_def
    by (subst eq_loop_iff) (auto simp: rv_val_def intro: word_unat_eq_iff [THEN iffD2])
qed (simp add: rv_eq_def)

lemma is_subset_of_refl: "is_subset_of v v"
  by (simp add: is_subset_of_iff)

lemma is_subset_of_trans: "is_subset_of u v \<Longrightarrow> is_subset_of v w \<Longrightarrow> is_subset_of u w"
  by (auto simp: is_subset_of_iff intro: order_trans)

lemma rv_eq_equivp: "equivp rv_eq"
  by (rule equivpI) (auto simp: reflp_def symp_def transp_def rv_eq_iff)

section \<open>Checked arithmetic\<close>

lemma rv_add_index:
  assumes "i < 8"
  shows "rv_add (dim_of_index i) a v =
     (if \<not> bit (rv_mask v) i then (v, Inl E_InvalidArgument)
      else if dim_cap i < unat (rv_values v ! i) + unat a then (v, Inl E_Overflow)
      else (v\<lparr>rv_values := (rv_values v)[i := rv_values v ! i + a]\<rparr>, success))"
proof (cases "rv_values v ! i > UINT64_MAX - a")
  case True
  then have "dim_cap i < unat (rv_values v ! i) + unat a"
    by (simp add: add_guard_u64 dim_cap_def)
  with True assms show ?thesis
    by (simp add: rv_add_def Let_def mask_has_bit)
next
  case False
  then have "unat (rv_values v ! i + a) = unat (rv_values v ! i) + unat a"
    by (rule unat_add_no_guard)
  moreover have "unat (rv_values v ! i) + unat a < 2 ^ 64"
    using False by (simp add: add_guard_u64)
  ultimately have "(is_share_index i \<and> rv_values v ! i + a > kShareScale) \<longleftrightarrow>
      dim_cap i < unat (rv_values v ! i) + unat a"
    by (simp add: dim_cap_def word_less_nat_alt)
  with False assms show ?thesis
    by (simp add: rv_add_def Let_def mask_has_bit is_share_dimension_of_index)
qed

lemma rv_sub_index:
  assumes "i < 8"
  shows "rv_sub (dim_of_index i) a v =
     (if \<not> bit (rv_mask v) i then (v, Inl E_InvalidArgument)
      else if unat (rv_values v ! i) < unat a then (v, Inl E_Underflow)
      else (v\<lparr>rv_values := (rv_values v)[i := rv_values v ! i - a]\<rparr>, success))"
  using assms by (simp add: rv_sub_def Let_def mask_has_bit word_less_nat_alt)

text \<open>
  What the shared loop relies on: the operation on a present dimension either stores the
  combination of the two values, exactly, or leaves the vector alone and reports one error.
\<close>

locale checked_dimension_op =
  fixes oper :: "resource_dimension \<Rightarrow> u64 \<Rightarrow> resource_vector \<Rightarrow> resource_vector \<times> status"
    and combine :: "u64 \<Rightarrow> u64 \<Rightarrow> u64"
    and guard :: "nat \<Rightarrow> nat \<Rightarrow> nat \<Rightarrow> bool"
    and exact :: "nat \<Rightarrow> nat \<Rightarrow> nat"
    and err :: error_code
  assumes oper_present:
      "i < 8 \<Longrightarrow> bit (rv_mask v) i \<Longrightarrow> oper (dim_of_index i) a v =
        (if guard i (unat (rv_values v ! i)) (unat a)
         then (v\<lparr>rv_values := (rv_values v)[i := combine (rv_values v ! i) a]\<rparr>, success)
         else (v, Inl err))"
    and combine_exact: "i < 8 \<Longrightarrow> guard i (unat x) (unat a) \<Longrightarrow> unat (combine x a) = exact (unat x) (unat a)"
begin

definition loop_guard :: "nat list \<Rightarrow> resource_vector \<Rightarrow> resource_vector \<Rightarrow> bool" where
  "loop_guard is other v \<longleftrightarrow>
     (\<forall>i\<in>set is. bit (rv_mask other) i \<longrightarrow>
        guard i (unat (rv_values v ! i)) (unat (rv_values other ! i)))"

definition loop_result :: "nat list \<Rightarrow> resource_vector \<Rightarrow> resource_vector \<Rightarrow> resource_vector \<Rightarrow> bool" where
  "loop_result is other v v' \<longleftrightarrow> rv_wf v' \<and> rv_mask v' = rv_mask v \<and>
     (\<forall>i<8. unat (rv_values v' ! i) =
        (if i \<in> set is \<and> bit (rv_mask other) i
         then exact (unat (rv_values v ! i)) (unat (rv_values other ! i))
         else unat (rv_values v ! i)))"

lemma loop_step:
  assumes "i < 8" "bit (rv_mask other) i" "bit (rv_mask v) i" "rv_wf v" "i \<notin> set is"
    and "guard i (unat (rv_values v ! i)) (unat (rv_values other ! i))"
    and v2: "v2 = v\<lparr>rv_values := (rv_values v)[i := combine (rv_values v ! i) (rv_values other ! i)]\<rparr>"
  shows "loop_guard (i # is) other v \<longleftrightarrow> loop_guard is other v2"
    and "loop_result (i # is) other v v' \<longleftrightarrow> loop_result is other v2 v'"
proof -
  have len: "length (rv_values v) = 8" using assms by (simp add: rv_wf_def)
  have other: "rv_values v2 ! j = rv_values v ! j" if "j \<noteq> i" for j
    using that by (simp add: v2)
  have at_i: "unat (rv_values v2 ! i) = exact (unat (rv_values v ! i)) (unat (rv_values other ! i))"
    using assms len by (simp add: v2 combine_exact)
  show "loop_guard (i # is) other v \<longleftrightarrow> loop_guard is other v2"
  proof -
    have "\<forall>j\<in>set is. rv_values v2 ! j = rv_values v ! j"
      using other assms(5) by metis
    with assms(2,6) show ?thesis by (simp add: loop_guard_def)
  qed
  have eq: "(if j \<in> set (i # is) \<and> bit (rv_mask other) j
         then exact (unat (rv_values v ! j)) (unat (rv_values other ! j))
         else unat (rv_values v ! j)) =
     (if j \<in> set is \<and> bit (rv_mask other) j
         then exact (unat (rv_values v2 ! j)) (unat (rv_values other ! j))
         else unat (rv_values v2 ! j))" for j
    using assms(2,5) at_i other by (cases "j = i") auto
  show "loop_result (i # is) other v v' \<longleftrightarrow> loop_result is other v2 v'"
    unfolding loop_result_def eq by (simp add: v2)
qed

lemma loop_correct:
  assumes "distinct is" "set is \<subseteq> {..<8}" "rv_wf v"
    and "\<forall>i\<in>set is. bit (rv_mask other) i \<longrightarrow> bit (rv_mask v) i"
  shows "if loop_guard is other v
         then \<exists>v'. checked_loop oper is other v = (v', success) \<and> loop_result is other v v'
         else \<exists>v'. checked_loop oper is other v = (v', Inl err)"
  using assms
proof (induction "is" arbitrary: v)
  case Nil
  then show ?case by (simp add: loop_guard_def loop_result_def)
next
  case (Cons i "is")
  have i: "i < 8" "i \<notin> set is" using Cons.prems by auto
  consider (absent) "\<not> bit (rv_mask other) i"
    | (fails) "bit (rv_mask other) i" "\<not> guard i (unat (rv_values v ! i)) (unat (rv_values other ! i))"
    | (works) "bit (rv_mask other) i" "guard i (unat (rv_values v ! i)) (unat (rv_values other ! i))"
    by blast
  then show ?case
  proof cases
    case absent
    then have "loop_guard (i # is) other v = loop_guard is other v"
      by (simp add: loop_guard_def)
    moreover have "(j \<in> set (i # is) \<and> bit (rv_mask other) j) = (j \<in> set is \<and> bit (rv_mask other) j)" for j
      using absent by auto
    then have "loop_result (i # is) other v v' = loop_result is other v v'" for v'
      by (simp only: loop_result_def)
    moreover have "checked_loop oper (i # is) other v = checked_loop oper is other v"
      using absent i by (simp add: mask_has_bit)
    ultimately show ?thesis using Cons.IH [of v] Cons.prems by simp
  next
    case fails
    with i Cons.prems show ?thesis
      by (auto simp: mask_has_bit oper_present loop_guard_def)
  next
    case works
    let ?v = "v\<lparr>rv_values := (rv_values v)[i := combine (rv_values v ! i) (rv_values other ! i)]\<rparr>"
    have bi: "bit (rv_mask v) i" using works Cons.prems by simp
    have "if loop_guard is other ?v
         then \<exists>v'. checked_loop oper is other ?v = (v', success) \<and> loop_result is other ?v v'
         else \<exists>v'. checked_loop oper is other ?v = (v', Inl err)"
      using Cons.prems by (intro Cons.IH) (auto simp: rv_wf_def)
    moreover have "checked_loop oper (i # is) other v = checked_loop oper is other ?v"
      using works i bi by (simp add: mask_has_bit oper_present)
    ultimately show ?thesis
      unfolding loop_step [OF i(1) works(1) bi Cons.prems(3) i(2) works(2) refl] by simp
  qed
qed

end

interpretation rvadd: checked_dimension_op rv_add "(+)" "\<lambda>i x y. x + y \<le> dim_cap i" "(+)" E_Overflow
proof
  fix i :: nat and x a :: u64
  assume "unat x + unat a \<le> dim_cap i"
  then show "unat (x + a) = unat x + unat a"
    by (intro unat_add_no_guard) (auto simp: add_guard_u64 dim_cap_def split: if_splits)
qed (simp add: rv_add_index not_le)

interpretation rvsub: checked_dimension_op rv_sub "(-)" "\<lambda>i x y. y \<le> x" "(-)" E_Underflow
  by unfold_locales (simp_all add: rv_sub_index not_less unat_sub_u64 word_le_nat_alt)

lemma mask_subset_bits: "(m::u32) AND NOT n = 0 \<longleftrightarrow> (\<forall>i. bit m i \<longrightarrow> bit n i)"
  using bit_imp_le_length [of m] by (auto simp: mask_subset_iff)

definition dims_within :: "resource_vector \<Rightarrow> resource_vector \<Rightarrow> bool" where
  "dims_within w v \<longleftrightarrow> (\<forall>i. bit (rv_mask w) i \<longrightarrow> bit (rv_mask v) i)"

lemma loop_indices: "set [0..<8] \<subseteq> {..<8::nat}" "distinct [0..<8::nat]"
  by auto

lemma rv_add_assign_incompatible: "\<not> dims_within w v \<Longrightarrow> rv_add_assign v w = (v, Inl E_InvalidArgument)"
  by (simp add: rv_add_assign_def mask_subset_bits dims_within_def)

lemma rv_sub_assign_incompatible: "\<not> dims_within w v \<Longrightarrow> rv_sub_assign v w = (v, Inl E_InvalidArgument)"
  by (simp add: rv_sub_assign_def mask_subset_bits dims_within_def)

lemma rv_add_assign_spec:
  assumes "rv_wf v" "dims_within w v"
  shows "if \<forall>i<8. bit (rv_mask w) i \<longrightarrow> rv_val v i + rv_val w i \<le> dim_cap i
         then \<exists>v'. rv_add_assign v w = (v', success) \<and> rv_wf v' \<and> rv_mask v' = rv_mask v \<and>
                   (\<forall>i<8. rv_val v' i = rv_val v i + rv_val w i)
         else \<exists>v'. rv_add_assign v w = (v', Inl E_Overflow)"
proof -
  have bits: "\<forall>i\<in>set [0..<8]. bit (rv_mask w) i \<longrightarrow> bit (rv_mask v) i"
    using assms(2) by (simp add: dims_within_def)
  have guard: "rvadd.loop_guard [0..<8] w v \<longleftrightarrow>
               (\<forall>i<8. bit (rv_mask w) i \<longrightarrow> rv_val v i + rv_val w i \<le> dim_cap i)"
    using bits by (auto simp: rvadd.loop_guard_def rv_val_def)
  have eq: "rv_add_assign v w = checked_loop rv_add [0..<8] w v"
    using assms(2) by (simp add: rv_add_assign_def mask_subset_bits dims_within_def)
  have "rvadd.loop_result [0..<8] w v v' \<Longrightarrow> rv_wf v' \<and> rv_mask v' = rv_mask v \<and>
           (\<forall>i<8. rv_val v' i = rv_val v i + rv_val w i)" for v'
    using bits by (auto simp: rvadd.loop_result_def rv_val_def)
  then show ?thesis
    using rvadd.loop_correct [OF loop_indices(2,1) assms(1) bits]
    unfolding guard eq by (meson)
qed

lemma rv_sub_assign_spec:
  assumes "rv_wf v" "dims_within w v"
  shows "if \<forall>i<8. rv_val w i \<le> rv_val v i
         then \<exists>v'. rv_sub_assign v w = (v', success) \<and> rv_wf v' \<and> rv_mask v' = rv_mask v \<and>
                   (\<forall>i<8. rv_val v' i = rv_val v i - rv_val w i)
         else \<exists>v'. rv_sub_assign v w = (v', Inl E_Underflow)"
proof -
  have bits: "\<forall>i\<in>set [0..<8]. bit (rv_mask w) i \<longrightarrow> bit (rv_mask v) i"
    using assms(2) by (simp add: dims_within_def)
  have guard: "rvsub.loop_guard [0..<8] w v \<longleftrightarrow> (\<forall>i<8. rv_val w i \<le> rv_val v i)"
    using bits by (auto simp: rvsub.loop_guard_def rv_val_def)
  have eq: "rv_sub_assign v w = checked_loop rv_sub [0..<8] w v"
    using assms(2) by (simp add: rv_sub_assign_def mask_subset_bits dims_within_def)
  have "rvsub.loop_result [0..<8] w v v' \<Longrightarrow> rv_wf v' \<and> rv_mask v' = rv_mask v \<and>
           (\<forall>i<8. rv_val v' i = rv_val v i - rv_val w i)" for v'
    using bits by (auto simp: rvsub.loop_result_def rv_val_def)
  then show ?thesis
    using rvsub.loop_correct [OF loop_indices(2,1) assms(1) bits]
    unfolding guard eq by (meson)
qed

text \<open>Subtracting what was added restores every quantity.\<close>

lemma rv_add_sub_roundtrip:
  assumes "rv_wf v" "dims_within w v" "rv_add_assign v w = (v', success)"
  shows "\<exists>v''. rv_sub_assign v' w = (v'', success) \<and> rv_eq v'' v"
proof -
  have v': "rv_wf v'" "rv_mask v' = rv_mask v" "\<forall>i<8. rv_val v' i = rv_val v i + rv_val w i"
    using rv_add_assign_spec [OF assms(1,2)] assms(3) by (auto split: if_splits)
  then have "dims_within w v'" using assms(2) by (simp add: dims_within_def)
  then show ?thesis
    using rv_sub_assign_spec [of v' w] v' by (auto simp: rv_eq_iff)
qed

section \<open>Pointwise operations and validation\<close>

lemma pointwise_loop_spec:
  assumes "distinct is" "set is \<subseteq> {..<8}" "rv_wf out"
  shows "rv_wf (pointwise_loop f is v out) \<and>
    (\<forall>i<8. bit (rv_mask (pointwise_loop f is v out)) i \<longleftrightarrow>
        bit (rv_mask out) i \<or> (i \<in> set is \<and> bit (rv_mask v) i)) \<and>
    (\<forall>i<8. rv_values (pointwise_loop f is v out) ! i =
        (if i \<in> set is \<and> bit (rv_mask v) i then f i else rv_values out ! i))"
  using assms
proof (induction "is" arbitrary: out)
  case Nil
  then show ?case by simp
next
  case (Cons j "is")
  let ?out = "if bit (rv_mask v) j
    then out\<lparr>rv_values := (rv_values out)[j := f j], rv_mask := rv_mask out OR index_bit j\<rparr> else out"
  have j: "j < 8" "j \<notin> set is" and wf: "rv_wf ?out"
    using Cons.prems by (auto simp: rv_wf_def)
  have step: "pointwise_loop f (j # is) v out = pointwise_loop f is v ?out"
    using j by (simp add: mask_has_bit)
  have bits: "bit (rv_mask ?out) i \<longleftrightarrow> bit (rv_mask out) i \<or> (i = j \<and> bit (rv_mask v) j)"
    if "i < 8" for i
    using that j by (auto simp: index_bit_def bit_simps)
  have vals: "rv_values ?out ! i = (if i = j \<and> bit (rv_mask v) j then f j else rv_values out ! i)"
    if "i < 8" for i
    using that j Cons.prems(3) by (auto simp: rv_wf_def nth_list_update)
  have "distinct is" "set is \<subseteq> {..<8}" using Cons.prems by auto
  from Cons.IH [OF this wf] show ?case
    unfolding step using bits vals j(2) by auto
qed

lemma rv_min_with_spec:
  "rv_wf (rv_min_with v w)"
  "i < 8 \<Longrightarrow> bit (rv_mask (rv_min_with v w)) i = bit (rv_mask v) i"
  "i < 8 \<Longrightarrow> rv_val (rv_min_with v w) i =
     (if bit (rv_mask w) i then min (rv_val v i) (rv_val w i) else rv_val v i)"
  using pointwise_loop_spec [OF loop_indices(2,1) rv_wf_zeros,
      of "\<lambda>i. min (rv_values v ! i)
              (if mask_has (rv_mask w) i then rv_values w ! i else rv_values v ! i)" v]
  by (auto simp: rv_min_with_def rv_val_def mask_has_bit rv_zeros_def min_def word_le_nat_alt)

lemma rv_saturating_sub_spec:
  "rv_wf (rv_saturating_sub v w)"
  "i < 8 \<Longrightarrow> bit (rv_mask (rv_saturating_sub v w)) i = bit (rv_mask v) i"
  "i < 8 \<Longrightarrow> rv_val (rv_saturating_sub v w) i = rv_val v i - rv_val w i"
  using pointwise_loop_spec [OF loop_indices(2,1) rv_wf_zeros,
      of "\<lambda>i. let o_value = (if mask_has (rv_mask w) i then rv_values w ! i else 0)
            in if rv_values v ! i > o_value then rv_values v ! i - o_value else 0" v]
  by (auto simp: rv_saturating_sub_def rv_val_def mask_has_bit rv_zeros_def Let_def
      word_less_nat_alt unat_sub_u64 word_le_nat_alt not_less)

lemma share_loop_iff:
  "set is \<subseteq> {..<8} \<Longrightarrow> share_loop is v = success \<longleftrightarrow> (\<forall>i\<in>set is. rv_val v i \<le> dim_cap i)"
proof (induction "is")
  case Nil
  then show ?case by simp
next
  case (Cons i "is")
  have "unat (rv_values v ! i) \<le> 2 ^ 64 - 1" by (rule unat_u64_bound)
  with Cons show ?case
    by (auto simp: mask_has_bit rv_val_def dim_cap_def word_less_nat_alt not_less)
qed

definition rv_mask_ok :: "resource_vector \<Rightarrow> bool" where
  "rv_mask_ok v \<longleftrightarrow> (\<forall>i. bit (rv_mask v) i \<longrightarrow> i < 8)"

lemma validate_dimensions_iff:
  "validate_dimensions v = success \<longleftrightarrow> rv_mask_ok v \<and> (\<forall>i<8. rv_val v i \<le> dim_cap i)"
proof -
  have "bit (index_bit 8 - 1 :: u32) i \<longleftrightarrow> i < 8" for i
    using bit_mask_iff [of 8 i, where ?'a = u32] by (auto simp: index_bit_def mask_eq_decr_exp)
  then have "rv_mask v AND NOT (index_bit 8 - 1) = 0 \<longleftrightarrow> rv_mask_ok v"
    by (simp add: mask_subset_bits rv_mask_ok_def)
  then show ?thesis
    using share_loop_iff [OF loop_indices(1), of v] by (auto simp: validate_dimensions_def Let_def)
qed

lemma rv_set_spec:
  assumes "rv_set d x v = (v', success)" "rv_wf v"
  shows "rv_wf v' \<and> dim_index d < 8 \<and> unat x \<le> dim_cap (dim_index d) \<and>
    (\<forall>i. bit (rv_mask v') i \<longleftrightarrow> i = dim_index d \<or> bit (rv_mask v) i) \<and>
    (\<forall>i. rv_val v' i = (if i = dim_index d then unat x else rv_val v i))"
proof -
  have d: "dim_index d < 8" and share: "is_share_index (dim_index d) \<Longrightarrow> unat x \<le> 1000000"
    and v': "v' = v\<lparr>rv_values := (rv_values v)[dim_index d := x],
                   rv_mask := rv_mask v OR index_bit (dim_index d)\<rparr>"
    using assms(1)
    by (auto simp: rv_set_def Let_def is_share_dimension_def word_less_nat_alt not_less split: if_splits)
  have b: "bit (rv_mask v') i \<longleftrightarrow> i = dim_index d \<or> bit (rv_mask v) i" for i
    using d by (auto simp: v' index_bit_def bit_simps)
  show ?thesis
    using d share b assms(2) unat_u64_bound [of x]
    by (auto simp: v' rv_val_def dim_cap_def rv_wf_def nth_list_update)
qed

section \<open>The total order\<close>

text \<open>
  \<^verbatim>\<open>operator<\<close> is a strict total order up to \<^verbatim>\<open>operator==\<close>, which ignores the array slots of
  absent dimensions.
\<close>

lemma less_loop_cases:
  "rv_mask l = rv_mask r \<Longrightarrow>
     (less_loop is l r \<and> \<not> eq_loop is l r \<and> \<not> less_loop is r l) \<or>
     (\<not> less_loop is l r \<and> eq_loop is l r \<and> \<not> less_loop is r l) \<or>
     (\<not> less_loop is l r \<and> \<not> eq_loop is l r \<and> less_loop is r l)"
  by (induction "is") auto

lemma less_loop_trans:
  "rv_mask a = rv_mask b \<Longrightarrow> rv_mask b = rv_mask c \<Longrightarrow>
     less_loop is a b \<Longrightarrow> less_loop is b c \<Longrightarrow> less_loop is a c"
proof (induction "is")
  case Nil
  then show ?case by simp
next
  case (Cons i "is")
  then show ?case
    by (cases "rv_values a ! i = rv_values b ! i"; cases "rv_values b ! i = rv_values c ! i")
      (auto split: if_splits)
qed

lemma eq_loop_sym: "rv_mask a = rv_mask b \<Longrightarrow> eq_loop is a b = eq_loop is b a"
  by (induction "is") auto

lemma rv_less_trichotomy:
  "(rv_less l r \<and> \<not> rv_eq l r \<and> \<not> rv_less r l) \<or>
   (\<not> rv_less l r \<and> rv_eq l r \<and> \<not> rv_less r l) \<or>
   (\<not> rv_less l r \<and> \<not> rv_eq l r \<and> rv_less r l)"
proof (cases "rv_mask l = rv_mask r")
  case True
  then show ?thesis
    using less_loop_cases [OF True, of "[0..<8]"] by (simp add: rv_less_def rv_eq_def)
next
  case False
  then show ?thesis by (simp add: rv_less_def rv_eq_def) auto
qed

lemma rv_less_trans: "rv_less a b \<Longrightarrow> rv_less b c \<Longrightarrow> rv_less a c"
  using less_loop_trans [of a b c "[0..<8]"]
  by (auto simp: rv_less_def split: if_splits)

end
