(* ===== verification/APF_Accounting.thy ===== *)
theory APF_Accounting
  imports APF_Resource
begin

unbundle bit_operations_syntax

text \<open>
  \<^verbatim>\<open>include/apf/accounting.hpp\<close> and \<^verbatim>\<open>src/accounting.cpp\<close>: the capacity ledger of one
  accelerator, six buckets over the physical totals, and the transactional moves between
  buckets. The closure identity "physical total = sum of the buckets" is the invariant
  \<open>ledger_closed\<close>; every operation keeps it and \<open>ledger_validate\<close> decides it.
\<close>

section \<open>Buckets and the ledger\<close>

datatype capacity_bucket =
    Bucket_Unavailable | Bucket_Free | Bucket_Reserved | Bucket_Active | Bucket_Draining
  | Bucket_ReconfigurationHeld | Bucket_Count

fun bucket_index :: "capacity_bucket \<Rightarrow> nat" where
  "bucket_index Bucket_Unavailable = 0"
| "bucket_index Bucket_Free = 1"
| "bucket_index Bucket_Reserved = 2"
| "bucket_index Bucket_Active = 3"
| "bucket_index Bucket_Draining = 4"
| "bucket_index Bucket_ReconfigurationHeld = 5"
| "bucket_index Bucket_Count = 6"

abbreviation kCapacityBucketCount :: nat where
  "kCapacityBucketCount \<equiv> 6"

lemma bucket_index_inj: "bucket_index b = bucket_index c \<longleftrightarrow> b = c"
  by (cases b; cases c) simp_all

lemma bucket_index_less: "bucket_index b < 6 \<longleftrightarrow> b \<noteq> Bucket_Count"
  by (cases b) simp_all

record capacity_ledger =
  cl_buckets :: "resource_vector list"
  cl_total :: resource_vector

text \<open>A default-constructed ledger: six empty buckets and no totals.\<close>

definition ledger_empty :: capacity_ledger where
  "ledger_empty = \<lparr>cl_buckets = replicate 6 rv_zeros, cl_total = rv_zeros\<rparr>"

definition ledger_bucket :: "capacity_ledger \<Rightarrow> capacity_bucket \<Rightarrow> resource_vector" where
  "ledger_bucket l b =
     (if kCapacityBucketCount \<le> bucket_index b then rv_zeros else cl_buckets l ! bucket_index b)"

section \<open>Moving capacity\<close>

text \<open>
  \<^verbatim>\<open>move_capacity\<close>: both sides are computed on copies and stored only when the whole
  transaction succeeded. The result carries the updated source and destination.
\<close>

definition move_capacity ::
  "resource_vector \<Rightarrow> resource_vector \<Rightarrow> resource_vector \<Rightarrow> (resource_vector \<times> resource_vector) result" where
  "move_capacity source dest amount =
     (if \<not> is_subset_of amount source then failure E_InsufficientCapacity
      else case rv_sub_assign source amount of
             (updated_from, Inl e) \<Rightarrow> Inl e
           | (updated_from, Inr _) \<Rightarrow>
               (case rv_add_assign dest amount of
                  (updated_to, Inl e) \<Rightarrow> Inl e
                | (updated_to, Inr _) \<Rightarrow> Inr (updated_from, updated_to)))"

definition ledger_move ::
  "capacity_bucket \<Rightarrow> capacity_bucket \<Rightarrow> resource_vector \<Rightarrow> capacity_ledger \<Rightarrow> capacity_ledger \<times> status" where
  "ledger_move source dest amount l =
     (case move_capacity (cl_buckets l ! bucket_index source) (cl_buckets l ! bucket_index dest) amount of
        Inl e \<Rightarrow> (l, Inl e)
      | Inr (f, t) \<Rightarrow>
          (l\<lparr>cl_buckets := (cl_buckets l)[bucket_index source := f, bucket_index dest := t]\<rparr>, success))"

definition ledger_reserve :: "resource_vector \<Rightarrow> capacity_ledger \<Rightarrow> capacity_ledger \<times> status" where
  "ledger_reserve amount l =
     (if rv_empty amount then (l, failure E_InvalidArgument)
      else ledger_move Bucket_Free Bucket_Reserved amount l)"

definition ledger_reserve_from_reconfiguration_held ::
  "resource_vector \<Rightarrow> capacity_ledger \<Rightarrow> capacity_ledger \<times> status" where
  "ledger_reserve_from_reconfiguration_held = ledger_move Bucket_ReconfigurationHeld Bucket_Reserved"

definition ledger_commit_reserved ::
  "resource_vector \<Rightarrow> bool \<Rightarrow> capacity_ledger \<Rightarrow> capacity_ledger \<times> status" where
  "ledger_commit_reserved amount draining =
     ledger_move Bucket_Reserved (if draining then Bucket_Draining else Bucket_Active) amount"

definition ledger_release_reserved ::
  "resource_vector \<Rightarrow> capacity_ledger \<Rightarrow> capacity_ledger \<times> status" where
  "ledger_release_reserved = ledger_move Bucket_Reserved Bucket_Free"

definition ledger_release_committed ::
  "resource_vector \<Rightarrow> bool \<Rightarrow> capacity_ledger \<Rightarrow> capacity_ledger \<times> status" where
  "ledger_release_committed amount was_draining =
     ledger_move (if was_draining then Bucket_Draining else Bucket_Active) Bucket_Free amount"

definition ledger_begin_drain :: "resource_vector \<Rightarrow> capacity_ledger \<Rightarrow> capacity_ledger \<times> status" where
  "ledger_begin_drain = ledger_move Bucket_Active Bucket_Draining"

definition ledger_cancel_drain :: "resource_vector \<Rightarrow> capacity_ledger \<Rightarrow> capacity_ledger \<times> status" where
  "ledger_cancel_drain = ledger_move Bucket_Draining Bucket_Active"

definition ledger_hold_for_reconfiguration ::
  "resource_vector \<Rightarrow> capacity_ledger \<Rightarrow> capacity_ledger \<times> status" where
  "ledger_hold_for_reconfiguration = ledger_move Bucket_Free Bucket_ReconfigurationHeld"

definition ledger_release_reconfiguration_hold ::
  "resource_vector \<Rightarrow> capacity_ledger \<Rightarrow> capacity_ledger \<times> status" where
  "ledger_release_reconfiguration_hold = ledger_move Bucket_ReconfigurationHeld Bucket_Free"

definition ledger_mark_unavailable :: "resource_vector \<Rightarrow> capacity_ledger \<Rightarrow> capacity_ledger \<times> status" where
  "ledger_mark_unavailable = ledger_move Bucket_Free Bucket_Unavailable"

definition move_between ::
  "capacity_bucket \<Rightarrow> capacity_bucket \<Rightarrow> resource_vector \<Rightarrow> capacity_ledger \<Rightarrow> capacity_ledger \<times> status" where
  "move_between source dest amount l =
     (if kCapacityBucketCount \<le> bucket_index source \<or> kCapacityBucketCount \<le> bucket_index dest
      then (l, failure E_InvalidArgument)
      else if bucket_index source = bucket_index dest then (l, success)
      else ledger_move source dest amount l)"

section \<open>Validation and initialisation\<close>

fun bucket_sum_loop ::
  "resource_vector list \<Rightarrow> resource_dimension \<Rightarrow> u64 \<Rightarrow> bool \<Rightarrow> (u64 \<times> bool) result" where
  "bucket_sum_loop [] d acc present = Inr (acc, present)"
| "bucket_sum_loop (v # vs) d acc present =
     (if \<not> rv_has v d then bucket_sum_loop vs d acc present
      else
        (let value = rv_get v d in
         if acc > UINT64_MAX - value then failure E_Overflow
         else bucket_sum_loop vs d (acc + value) True))"

fun validate_loop :: "nat list \<Rightarrow> capacity_ledger \<Rightarrow> status" where
  "validate_loop [] l = success"
| "validate_loop (i # is) l =
     (case bucket_sum_loop (cl_buckets l) (dim_of_index i) 0 False of
        Inl e \<Rightarrow> Inl e
      | Inr (acc, present) \<Rightarrow>
          (if \<not> present then validate_loop is l
           else if \<not> rv_has (cl_total l) (dim_of_index i) then failure E_CorruptState
           else if acc \<noteq> rv_get (cl_total l) (dim_of_index i) then failure E_CorruptState
           else validate_loop is l))"

definition ledger_validate :: "capacity_ledger \<Rightarrow> status" where
  "ledger_validate l =
     (if rv_empty (cl_total l) then failure E_CorruptState
      else validate_loop [0..<kResourceDimensionCount] l)"

fun init_bucket_loop ::
  "resource_vector list \<Rightarrow> resource_dimension \<Rightarrow> resource_vector list \<times> status" where
  "init_bucket_loop [] d = ([], success)"
| "init_bucket_loop (v # vs) d =
     (case rv_set d 0 v of
        (v', Inl e) \<Rightarrow> (v' # vs, Inl e)
      | (v', Inr _) \<Rightarrow> (case init_bucket_loop vs d of (vs', r) \<Rightarrow> (v' # vs', r)))"

fun init_loop :: "nat list \<Rightarrow> resource_vector \<Rightarrow> capacity_ledger \<Rightarrow> capacity_ledger \<times> status" where
  "init_loop [] totals l = (l, success)"
| "init_loop (i # is) totals l =
     (if \<not> rv_has totals (dim_of_index i) then init_loop is totals l
      else case init_bucket_loop (cl_buckets l) (dim_of_index i) of
             (bs, Inl e) \<Rightarrow> (l\<lparr>cl_buckets := bs\<rparr>, Inl e)
           | (bs, Inr _) \<Rightarrow>
               (case rv_set (dim_of_index i) (rv_get totals (dim_of_index i))
                       (bs ! bucket_index Bucket_Free) of
                  (v, Inl e) \<Rightarrow> (l\<lparr>cl_buckets := bs[bucket_index Bucket_Free := v]\<rparr>, Inl e)
                | (v, Inr _) \<Rightarrow>
                    init_loop is totals (l\<lparr>cl_buckets := bs[bucket_index Bucket_Free := v]\<rparr>)))"

definition initialize_totals :: "resource_vector \<Rightarrow> capacity_ledger \<Rightarrow> capacity_ledger \<times> status" where
  "initialize_totals totals l =
     (case validate_dimensions totals of
        Inl e \<Rightarrow> (l, Inl e)
      | Inr _ \<Rightarrow>
          (if rv_empty totals then (l, failure E_InvalidArgument)
           else
             (case init_loop [0..<kResourceDimensionCount] totals
                     \<lparr>cl_buckets = replicate kCapacityBucketCount rv_zeros, cl_total = totals\<rparr> of
                (l', Inl e) \<Rightarrow> (l', Inl e)
              | (l', Inr _) \<Rightarrow> (l', ledger_validate l'))))"

section \<open>The closure invariant\<close>

definition bucket_total :: "capacity_ledger \<Rightarrow> nat \<Rightarrow> nat" where
  "bucket_total l i = (\<Sum>v\<leftarrow>cl_buckets l. rv_val v i)"

definition ledger_wf :: "capacity_ledger \<Rightarrow> bool" where
  "ledger_wf l \<longleftrightarrow> length (cl_buckets l) = 6 \<and> rv_wf (cl_total l) \<and> rv_mask_ok (cl_total l) \<and>
     (\<forall>i<8. rv_val (cl_total l) i \<le> dim_cap i) \<and>
     (\<forall>v\<in>set (cl_buckets l). rv_wf v \<and> rv_mask v = rv_mask (cl_total l))"

definition ledger_balanced :: "capacity_ledger \<Rightarrow> bool" where
  "ledger_balanced l \<longleftrightarrow> ledger_wf l \<and> (\<forall>i<8. bucket_total l i = rv_val (cl_total l) i)"

text \<open>A closed ledger is balanced and belongs to a device that publishes some capacity.\<close>

definition ledger_closed :: "capacity_ledger \<Rightarrow> bool" where
  "ledger_closed l \<longleftrightarrow> ledger_balanced l \<and> \<not> rv_empty (cl_total l)"

lemma sum_list_member_le: "x \<in> set xs \<Longrightarrow> f x \<le> (\<Sum>y\<leftarrow>xs. f y)" for f :: "'a \<Rightarrow> nat"
  by (induction xs) auto

lemma sum_list_update2:
  fixes f :: "'a \<Rightarrow> nat"
  assumes "i < length xs" "j < length xs" "i \<noteq> j" "f a + f b = f (xs ! i) + f (xs ! j)"
  shows "(\<Sum>y\<leftarrow>xs[i := a, j := b]. f y) = (\<Sum>y\<leftarrow>xs. f y)"
proof -
  have upd: "(\<Sum>y\<leftarrow>ys[k := c]. f y) + f (ys ! k) = (\<Sum>y\<leftarrow>ys. f y) + f c" if "k < length ys" for ys k c
    using that
  proof (induction ys arbitrary: k)
    case (Cons y ys)
    then show ?case by (cases k) (simp_all add: add.assoc add.left_commute)
  qed simp
  show ?thesis
    using upd [of i xs a] upd [of j "xs[i := a]" b] assms by simp
qed

lemma sum_list_pair_le:
  fixes f :: "'a \<Rightarrow> nat"
  assumes "i < length xs" "j < length xs" "i \<noteq> j"
  shows "f (xs ! i) + f (xs ! j) \<le> (\<Sum>y\<leftarrow>xs. f y)"
proof -
  have "(\<Sum>k\<in>{i, j}. f (xs ! k)) \<le> (\<Sum>k\<in>{0..<length xs}. f (xs ! k))"
    using assms by (intro sum_mono2) auto
  then show ?thesis
    using assms by (simp add: sum_list_sum_nth)
qed

lemma ledger_wf_bucket:
  "ledger_wf l \<Longrightarrow> b < 6 \<Longrightarrow> rv_wf (cl_buckets l ! b) \<and> rv_mask (cl_buckets l ! b) = rv_mask (cl_total l)"
  by (simp add: ledger_wf_def)

lemma subset_dims_within: "is_subset_of v w \<Longrightarrow> rv_mask_ok v \<Longrightarrow> dims_within v w"
  by (auto simp: is_subset_of_iff rv_mask_ok_def dims_within_def)

lemma subset_val_le: "is_subset_of v w \<Longrightarrow> i < 8 \<Longrightarrow> rv_val v i \<le> rv_val w i"
  by (cases "bit (rv_mask v) i") (auto simp: is_subset_of_iff rv_val_def)

text \<open>
  In a closed ledger a move can only fail because the source bucket is short (or because the
  amount names an undefined dimension): the destination never overflows, since what it holds
  together with the source is bounded by the physical total.
\<close>

lemma move_capacity_closed:
  assumes wf: "rv_wf f" "rv_wf t" "rv_mask t = rv_mask f"
    and cap: "\<forall>i<8. rv_val f i + rv_val t i \<le> dim_cap i"
    and sub: "is_subset_of amount f" and dims: "dims_within amount f"
  shows "\<exists>f' t'. move_capacity f t amount = Inr (f', t') \<and> rv_wf f' \<and> rv_wf t' \<and>
    rv_mask f' = rv_mask f \<and> rv_mask t' = rv_mask t \<and>
    (\<forall>i<8. rv_val f' i = rv_val f i - rv_val amount i \<and> rv_val t' i = rv_val t i + rv_val amount i)"
proof -
  have le: "\<forall>i<8. rv_val amount i \<le> rv_val f i"
    using sub by (simp add: subset_val_le)
  then obtain f' where f': "rv_sub_assign f amount = (f', success)" "rv_wf f'" "rv_mask f' = rv_mask f"
      "\<forall>i<8. rv_val f' i = rv_val f i - rv_val amount i"
    using rv_sub_assign_spec [OF wf(1) dims] by auto
  have "dims_within amount t" using dims wf(3) by (simp add: dims_within_def)
  moreover have "\<forall>i<8. bit (rv_mask amount) i \<longrightarrow> rv_val t i + rv_val amount i \<le> dim_cap i"
    using le cap by (metis add.commute add_le_mono le_trans order_refl)
  ultimately obtain t' where t': "rv_add_assign t amount = (t', success)" "rv_wf t'"
      "rv_mask t' = rv_mask t" "\<forall>i<8. rv_val t' i = rv_val t i + rv_val amount i"
    using rv_add_assign_spec [OF wf(2)] by (metis (no_types, lifting))
  show ?thesis using f' t' sub by (simp add: move_capacity_def)
qed

lemma move_capacity_short: "\<not> is_subset_of amount f \<Longrightarrow> move_capacity f t amount = Inl E_InsufficientCapacity"
  by (simp add: move_capacity_def)

lemma move_capacity_undefined:
  "is_subset_of amount f \<Longrightarrow> \<not> dims_within amount f \<Longrightarrow> move_capacity f t amount = Inl E_InvalidArgument"
  by (simp add: move_capacity_def rv_sub_assign_incompatible)

lemma ledger_balanced_pair_cap:
  assumes "ledger_balanced l" "b < 6" "c < 6" "b \<noteq> c" "i < 8"
  shows "rv_val (cl_buckets l ! b) i + rv_val (cl_buckets l ! c) i \<le> dim_cap i"
proof -
  have "rv_val (cl_buckets l ! b) i + rv_val (cl_buckets l ! c) i \<le> bucket_total l i"
    using assms unfolding bucket_total_def
    by (intro sum_list_pair_le) (auto simp: ledger_balanced_def ledger_wf_def)
  also have "\<dots> \<le> dim_cap i"
    using assms by (simp add: ledger_balanced_def ledger_wf_def)
  finally show ?thesis .
qed

lemma ledger_move_ok:
  assumes cl: "ledger_balanced l" and b: "bucket_index s < 6" "bucket_index d < 6" "s \<noteq> d"
    and sub: "is_subset_of amount (cl_buckets l ! bucket_index s)" "rv_mask_ok amount"
  shows "\<exists>l'. ledger_move s d amount l = (l', success) \<and> ledger_balanced l' \<and>
    cl_total l' = cl_total l \<and>
    (\<forall>i<8. \<forall>c<6. rv_val (cl_buckets l' ! c) i =
       (if c = bucket_index s then rv_val (cl_buckets l ! c) i - rv_val amount i
        else if c = bucket_index d then rv_val (cl_buckets l ! c) i + rv_val amount i
        else rv_val (cl_buckets l ! c) i))"
proof -
  let ?s = "bucket_index s" and ?d = "bucket_index d"
  let ?bs = "cl_buckets l"
  have ne: "?s \<noteq> ?d" using b(3) by (simp add: bucket_index_inj)
  have wf: "ledger_wf l" and len: "length ?bs = 6"
    using cl by (auto simp: ledger_balanced_def ledger_wf_def)
  note ws = ledger_wf_bucket [OF wf b(1)] and wd = ledger_wf_bucket [OF wf b(2)]
  obtain f t where ft: "move_capacity (?bs ! ?s) (?bs ! ?d) amount = Inr (f, t)"
      "rv_wf f" "rv_wf t" "rv_mask f = rv_mask (?bs ! ?s)" "rv_mask t = rv_mask (?bs ! ?d)"
      "\<forall>i<8. rv_val f i = rv_val (?bs ! ?s) i - rv_val amount i \<and>
            rv_val t i = rv_val (?bs ! ?d) i + rv_val amount i"
    using move_capacity_closed [of "?bs ! ?s" "?bs ! ?d" amount] ws wd
      ledger_balanced_pair_cap [OF cl b(1,2) ne] sub subset_dims_within by metis
  let ?l = "l\<lparr>cl_buckets := ?bs[?s := f, ?d := t]\<rparr>"
  have le: "rv_val amount i \<le> rv_val (?bs ! ?s) i" if "i < 8" for i
    using sub(1) that by (rule subset_val_le)
  have total: "bucket_total ?l i = bucket_total l i" if "i < 8" for i
  proof -
    have "(\<Sum>v\<leftarrow>?bs[?s := f, ?d := t]. rv_val v i) = (\<Sum>v\<leftarrow>?bs. rv_val v i)"
      using that ft(6) le [OF that] ne b len by (intro sum_list_update2) auto
    then show ?thesis by (simp add: bucket_total_def)
  qed
  have "set (?bs[?s := f, ?d := t]) \<subseteq> insert t (insert f (set ?bs))"
    using set_update_subset_insert [of ?bs ?s f]
      set_update_subset_insert [of "?bs[?s := f]" ?d t] by blast
  moreover have "rv_wf v \<and> rv_mask v = rv_mask (cl_total l)" if "v \<in> insert t (insert f (set ?bs))" for v
    using that wf ft(2-5) ws wd by (auto simp: ledger_wf_def)
  ultimately have "\<forall>v\<in>set (?bs[?s := f, ?d := t]). rv_wf v \<and> rv_mask v = rv_mask (cl_total l)"
    by blast
  then have "ledger_balanced ?l"
    using cl total len by (simp add: ledger_balanced_def ledger_wf_def)
  moreover have "rv_val (cl_buckets ?l ! c) i =
       (if c = ?s then rv_val (?bs ! c) i - rv_val amount i
        else if c = ?d then rv_val (?bs ! c) i + rv_val amount i
        else rv_val (?bs ! c) i)" if "i < 8" "c < 6" for i c
    using that ft(6) ne len b by (auto simp: nth_list_update)
  ultimately show ?thesis using ft(1) by (simp add: ledger_move_def)
qed

lemma ledger_move_error: "ledger_move s d amount l = (l', Inl e) \<Longrightarrow> l' = l"
  by (auto simp: ledger_move_def split: sum.splits prod.splits)

lemma ledger_move_total: "cl_total (fst (ledger_move s d amount l)) = cl_total l"
  by (auto simp: ledger_move_def split: sum.splits prod.splits)

lemma ledger_move_short:
  "\<not> is_subset_of amount (cl_buckets l ! bucket_index s) \<Longrightarrow>
     ledger_move s d amount l = (l, Inl E_InsufficientCapacity)"
  by (simp add: ledger_move_def move_capacity_short)

lemma ledger_move_undefined:
  assumes "ledger_balanced l" "bucket_index s < 6"
    and "is_subset_of amount (cl_buckets l ! bucket_index s)" "\<not> rv_mask_ok amount"
  shows "ledger_move s d amount l = (l, Inl E_InvalidArgument)"
proof -
  have "rv_mask_ok (cl_buckets l ! bucket_index s)"
    using assms ledger_wf_bucket [of l "bucket_index s"]
    by (simp add: ledger_balanced_def ledger_wf_def rv_mask_ok_def)
  with assms have "\<not> dims_within amount (cl_buckets l ! bucket_index s)"
    by (auto simp: rv_mask_ok_def dims_within_def)
  with assms show ?thesis by (simp add: ledger_move_def move_capacity_undefined)
qed

lemma ledger_move_balanced:
  assumes "ledger_balanced l" "bucket_index s < 6" "bucket_index d < 6" "s \<noteq> d"
  shows "ledger_balanced (fst (ledger_move s d amount l))"
proof (cases "is_subset_of amount (cl_buckets l ! bucket_index s) \<and> rv_mask_ok amount")
  case True
  then show ?thesis using ledger_move_ok [OF assms] by force
next
  case False
  then show ?thesis
    using assms ledger_move_short [of amount l s d] ledger_move_undefined [OF assms(1,2)] by fastforce
qed

lemma move_between_balanced [apf_inv]: "ledger_balanced l \<Longrightarrow> ledger_balanced (fst (move_between s d amount l))"
  by (simp add: move_between_def ledger_move_balanced bucket_index_inj not_le)

lemma ledger_reserve_balanced [apf_inv]: "ledger_balanced l \<Longrightarrow> ledger_balanced (fst (ledger_reserve amount l))"
  by (simp add: ledger_reserve_def ledger_move_balanced)

lemma ledger_release_reserved_balanced [apf_inv]:
  "ledger_balanced l \<Longrightarrow> ledger_balanced (fst (ledger_release_reserved amount l))"
  by (simp add: ledger_release_reserved_def ledger_move_balanced)

lemma move_between_error: "move_between s d amount l = (l', Inl e) \<Longrightarrow> l' = l"
  by (auto simp: move_between_def split: if_splits dest: ledger_move_error)

lemma move_between_total: "cl_total (fst (move_between s d amount l)) = cl_total l"
  by (simp add: move_between_def ledger_move_total)

section \<open>Validation decides closure\<close>

lemma bucket_sum_loop_spec:
  assumes "d \<noteq> Dimension_Count"
  shows "bucket_sum_loop vs d a p =
    (if unat a + (\<Sum>v\<leftarrow>vs. rv_val v (dim_index d)) < 2 ^ 64
     then Inr (of_nat (unat a + (\<Sum>v\<leftarrow>vs. rv_val v (dim_index d))),
               p \<or> (\<exists>v\<in>set vs. rv_has v d))
     else Inl E_Overflow)"
proof (induction vs arbitrary: a p)
  case Nil
  have "unat a < 2 ^ 64" using unat_u64_bound [of a] by simp
  then show ?case by simp
next
  case (Cons v vs)
  have val: "unat (rv_get v d) = rv_val v (dim_index d)" by (rule rv_get_val [OF assms])
  show ?case
  proof (cases "rv_has v d")
    case False
    then have "rv_val v (dim_index d) = 0" by (simp add: rv_val_def rv_has_bit)
    with False show ?thesis by (simp add: Cons.IH)
  next
    case True
    show ?thesis
    proof (cases "a > UINT64_MAX - rv_get v d")
      case over: True
      then have "2 ^ 64 \<le> unat a + rv_val v (dim_index d)" by (simp add: add_guard_u64 val)
      with True over show ?thesis by simp
    next
      case False
      then have "unat (a + rv_get v d) = unat a + rv_val v (dim_index d)"
        by (simp add: unat_add_no_guard val del: not_less)
      with True False show ?thesis
        by (simp add: Cons.IH Let_def add.assoc del: not_less of_nat_add)
    qed
  qed
qed

definition dimension_closes :: "capacity_ledger \<Rightarrow> nat \<Rightarrow> bool" where
  "dimension_closes l i \<longleftrightarrow>
     ((\<exists>v\<in>set (cl_buckets l). bit (rv_mask v) i) \<longrightarrow>
        bit (rv_mask (cl_total l)) i \<and> bucket_total l i = rv_val (cl_total l) i)"

lemma validate_loop_iff:
  "set is \<subseteq> {..<8} \<Longrightarrow> validate_loop is l = success \<longleftrightarrow> (\<forall>i\<in>set is. dimension_closes l i)"
proof (induction "is")
  case Nil
  then show ?case by simp
next
  case (Cons i "is")
  have i: "i < 8" and d: "dim_of_index i \<noteq> Dimension_Count"
    using Cons.prems dim_index_less [of "dim_of_index i"] by auto
  let ?sum = "bucket_total l i"
  have tot: "unat (rv_get (cl_total l) (dim_of_index i)) = rv_val (cl_total l) i"
    using rv_get_val [OF d] i by simp
  have bound: "rv_val (cl_total l) i < 2 ^ 64"
    using unat_u64_bound [of "rv_get (cl_total l) (dim_of_index i)"] tot by simp
  have loop: "bucket_sum_loop (cl_buckets l) (dim_of_index i) 0 False =
      (if ?sum < 2 ^ 64 then Inr (of_nat ?sum, \<exists>v\<in>set (cl_buckets l). bit (rv_mask v) i) else Inl E_Overflow)"
    using bucket_sum_loop_spec [OF d, of "cl_buckets l" 0 False] i
    by (simp add: bucket_total_def rv_has_bit)
  have zero: "?sum = 0" if "\<not> (\<exists>v\<in>set (cl_buckets l). bit (rv_mask v) i)"
    using that by (auto simp: bucket_total_def rv_val_def sum_list_eq_0_iff)
  show ?case
  proof (cases "?sum < 2 ^ 64")
    case True
    then have "(of_nat ?sum \<noteq> rv_get (cl_total l) (dim_of_index i)) = (?sum \<noteq> rv_val (cl_total l) i)"
      using u64_of_nat_eq [of ?sum] tot by simp
    with True Cons i show ?thesis
      by (auto simp: loop dimension_closes_def rv_has_bit)
  next
    case False
    with zero bound show ?thesis
      by (auto simp: loop dimension_closes_def)
  qed
qed

theorem ledger_validate_iff:
  "ledger_validate l = success \<longleftrightarrow> \<not> rv_empty (cl_total l) \<and> (\<forall>i<8. dimension_closes l i)"
  using validate_loop_iff [OF loop_indices(1), of l] by (auto simp: ledger_validate_def)

lemma ledger_closed_validate: "ledger_closed l \<Longrightarrow> ledger_validate l = success"
  by (auto simp: ledger_validate_iff dimension_closes_def ledger_closed_def ledger_balanced_def ledger_wf_def)

section \<open>Initialisation establishes closure\<close>

lemma rv_set_ok:
  "dim_index d < 8 \<Longrightarrow> unat x \<le> dim_cap (dim_index d) \<Longrightarrow> \<exists>v'. rv_set d x v = (v', success)"
  by (auto simp: rv_set_def Let_def is_share_dimension_def dim_cap_def word_less_nat_alt)

lemma init_bucket_loop_eq:
  "dim_index d < 8 \<Longrightarrow> init_bucket_loop vs d = (map (\<lambda>v. fst (rv_set d 0 v)) vs, success)"
proof (induction vs)
  case (Cons v vs)
  obtain v' where "rv_set d 0 v = (v', success)"
    using rv_set_ok [of d 0 v] Cons.prems by auto
  with Cons show ?case by simp
qed simp

definition init_state :: "nat set \<Rightarrow> resource_vector \<Rightarrow> resource_vector list \<Rightarrow> bool" where
  "init_state seen totals bs \<longleftrightarrow> length bs = 6 \<and>
     (\<forall>b<6. rv_wf (bs ! b) \<and>
        (\<forall>i. bit (rv_mask (bs ! b)) i \<longleftrightarrow> i \<in> seen \<and> bit (rv_mask totals) i) \<and>
        (\<forall>i. rv_val (bs ! b) i = (if b = 1 \<and> i \<in> seen then rv_val totals i else 0)))"

lemma init_state_absent:
  "init_state seen totals bs \<Longrightarrow> \<not> bit (rv_mask totals) i \<Longrightarrow> init_state (insert i seen) totals bs"
proof -
  assume "init_state seen totals bs" and absent: "\<not> bit (rv_mask totals) i"
  moreover have "rv_val totals i = 0" using absent by (simp add: rv_val_def)
  ultimately show ?thesis by (auto simp: init_state_def)
qed

lemma init_state_present:
  assumes "init_state seen totals bs" "i < 8" "bit (rv_mask totals) i"
    and bs': "bs' = map (\<lambda>v. fst (rv_set (dim_of_index i) 0 v)) bs"
    and free: "rv_set (dim_of_index i) (rv_get totals (dim_of_index i)) (bs' ! 1) = (v, success)"
  shows "init_state (insert i seen) totals (bs'[1 := v])"
proof -
  have len: "length bs = 6" using assms(1) by (simp add: init_state_def)
  have zero: "rv_wf (bs' ! b) \<and> (\<forall>j. bit (rv_mask (bs' ! b)) j \<longleftrightarrow> j = i \<or> bit (rv_mask (bs ! b)) j) \<and>
      (\<forall>j. rv_val (bs' ! b) j = (if j = i then 0 else rv_val (bs ! b) j))" if "b < 6" for b
  proof -
    obtain w where w: "rv_set (dim_of_index i) 0 (bs ! b) = (w, success)"
      using rv_set_ok [of "dim_of_index i" 0] assms(2) by auto
    then have "bs' ! b = w" using that len by (simp add: bs')
    moreover have "rv_wf (bs ! b)" using assms(1) that by (simp add: init_state_def)
    ultimately show ?thesis using rv_set_spec [OF w] assms(2) by simp
  qed
  have tot: "unat (rv_get totals (dim_of_index i)) = rv_val totals i"
    using rv_get_val [of "dim_of_index i" totals] assms(2) dim_index_less [of "dim_of_index i"] by simp
  have v: "rv_wf v \<and> (\<forall>j. bit (rv_mask v) j \<longleftrightarrow> j = i \<or> bit (rv_mask (bs' ! 1)) j) \<and>
      (\<forall>j. rv_val v j = (if j = i then rv_val totals i else rv_val (bs' ! 1) j))"
    using rv_set_spec [OF free] zero [of 1] assms(2) tot by simp
  show ?thesis
    using assms(1,3) zero v len by (auto simp: init_state_def bs' nth_list_update)
qed

lemma init_loop_spec:
  assumes "set is \<subseteq> {..<8}" "\<forall>i<8. rv_val totals i \<le> dim_cap i" "init_state seen totals (cl_buckets l)"
  shows "\<exists>l'. init_loop is totals l = (l', success) \<and> cl_total l' = cl_total l \<and>
              init_state (seen \<union> set is) totals (cl_buckets l')"
  using assms
proof (induction "is" arbitrary: l seen)
  case Nil
  then show ?case by simp
next
  case (Cons i "is")
  have i: "i < 8" and "is": "set is \<subseteq> {..<8}" using Cons.prems(1) by auto
  show ?case
  proof (cases "bit (rv_mask totals) i")
    case False
    then have "init_state (insert i seen) totals (cl_buckets l)"
      using Cons.prems(3) by (simp add: init_state_absent)
    from Cons.IH [OF "is" Cons.prems(2) this] False i show ?thesis
      by (simp add: rv_has_bit)
  next
    case True
    let ?d = "dim_of_index i"
    let ?bs = "map (\<lambda>v. fst (rv_set ?d 0 v)) (cl_buckets l)"
    have "unat (rv_get totals ?d) \<le> dim_cap i"
      using rv_get_val [of ?d totals] i Cons.prems(2) dim_index_less [of ?d] by simp
    then obtain v where v: "rv_set ?d (rv_get totals ?d) (?bs ! 1) = (v, success)"
      using rv_set_ok [of ?d] i by auto
    have "init_state (insert i seen) totals (?bs[1 := v])"
      using init_state_present [OF Cons.prems(3) i True refl v] .
    then have "init_state (insert i seen) totals (cl_buckets (l\<lparr>cl_buckets := ?bs[1 := v]\<rparr>))"
      by simp
    from Cons.IH [OF "is" Cons.prems(2) this] True i v show ?thesis
      by (simp add: rv_has_bit init_bucket_loop_eq)
  qed
qed

theorem initialize_totals_closed:
  assumes "rv_wf totals" "validate_dimensions totals = success" "\<not> rv_empty totals"
  shows "\<exists>l'. initialize_totals totals l = (l', success) \<and> ledger_closed l' \<and> cl_total l' = totals \<and>
              rv_eq (ledger_bucket l' Bucket_Free) totals"
proof -
  let ?l = "\<lparr>cl_buckets = replicate kCapacityBucketCount rv_zeros, cl_total = totals\<rparr>"
  have dims: "rv_mask_ok totals" "\<forall>i<8. rv_val totals i \<le> dim_cap i"
    using assms(2) by (auto simp: validate_dimensions_iff)
  have "init_state {} totals (cl_buckets ?l)"
    by (auto simp: init_state_def rv_wf_def rv_zeros_def rv_val_def)
  from init_loop_spec [OF loop_indices(1) dims(2) this] obtain l' where
    l': "init_loop [0..<8] totals ?l = (l', success)" "cl_total l' = totals"
        "init_state {0..<8} totals (cl_buckets l')" by auto
  let ?bs = "cl_buckets l'"
  have len: "length ?bs = 6" using l'(3) by (simp add: init_state_def)
  have masks: "rv_mask (?bs ! b) = rv_mask totals" if "b < 6" for b
    using l'(3) that dims(1) by (intro bit_eqI) (auto simp: init_state_def rv_mask_ok_def)
  have total: "bucket_total l' i = rv_val totals i" if "i < 8" for i
  proof -
    have "bucket_total l' i = (\<Sum>b\<in>{0..<6}. rv_val (?bs ! b) i)"
      using len by (simp add: bucket_total_def sum_list_sum_nth)
    also have "\<dots> = (\<Sum>b\<in>{0..<6::nat}. if b = 1 then rv_val totals i else 0)"
      using l'(3) that by (intro sum.cong) (auto simp: init_state_def)
    finally show ?thesis by simp
  qed
  have "\<forall>v\<in>set ?bs. rv_wf v \<and> rv_mask v = rv_mask totals"
    using l'(3) masks len by (auto simp: init_state_def in_set_conv_nth)
  then have cl: "ledger_closed l'"
    using assms dims total l'(2) len by (simp add: ledger_closed_def ledger_balanced_def ledger_wf_def)
  moreover have "rv_eq (ledger_bucket l' Bucket_Free) totals"
    using l'(3) masks [of 1] by (simp add: rv_eq_iff ledger_bucket_def init_state_def)
  ultimately show ?thesis
    using l' assms(2,3) ledger_closed_validate [OF cl] by (simp add: initialize_totals_def)
qed

lemma share_loop_error: "share_loop is v = Inl e \<Longrightarrow> e = E_InvalidArgument"
  by (induction "is") (auto split: if_splits)

lemma initialize_totals_error:
  assumes "rv_wf totals" "initialize_totals totals l = (l', Inl e)"
  shows "l' = l \<and> e = E_InvalidArgument"
proof (cases "validate_dimensions totals")
  case (Inl e')
  then have "e' = E_InvalidArgument"
    by (auto simp: validate_dimensions_def Let_def split: if_splits dest: share_loop_error)
  with Inl assms(2) show ?thesis by (simp add: initialize_totals_def)
next
  case (Inr u)
  then show ?thesis
    using assms initialize_totals_closed [OF assms(1), of l]
    by (cases "rv_empty totals") (auto simp: initialize_totals_def)
qed

section \<open>The contract of a ledger operation\<close>

text \<open>
  What every transaction on the ledger promises to its callers: it keeps the ledger balanced
  and never touches the physical totals, and a refused transaction leaves the ledger as it
  was.
\<close>

locale ledger_operation =
  fixes op :: "resource_vector \<Rightarrow> capacity_ledger \<Rightarrow> capacity_ledger \<times> status"
  assumes op_balanced: "ledger_balanced l \<Longrightarrow> ledger_balanced (fst (op v l))"
    and op_total: "cl_total (fst (op v l)) = cl_total l"
    and op_error: "op v l = (l', Inl e) \<Longrightarrow> l' = l"
begin

lemma op_closed: "ledger_closed l \<Longrightarrow> ledger_closed (fst (op v l))"
  by (simp add: ledger_closed_def op_balanced op_total)

lemma op_validate: "ledger_closed l \<Longrightarrow> ledger_validate (fst (op v l)) = success"
  by (simp add: op_closed ledger_closed_validate)

lemma op_sequence: "ledger_closed l \<Longrightarrow> ledger_closed (fold (\<lambda>v l. fst (op v l)) vs l)"
  by (induction vs arbitrary: l) (simp_all add: op_closed)

end

lemma ledger_move_operation:
  "bucket_index s < 6 \<Longrightarrow> bucket_index d < 6 \<Longrightarrow> s \<noteq> d \<Longrightarrow> ledger_operation (ledger_move s d)"
  by unfold_locales (auto simp: ledger_move_balanced ledger_move_total dest: ledger_move_error)

lemma ledger_reserve_total: "cl_total (fst (ledger_reserve v l)) = cl_total l"
  by (simp add: ledger_reserve_def ledger_move_total)

lemma ledger_reserve_error: "ledger_reserve v l = (l', Inl e) \<Longrightarrow> l' = l"
  by (auto simp: ledger_reserve_def split: if_splits dest: ledger_move_error)

interpretation reserve_op: ledger_operation ledger_reserve
  by unfold_locales (auto simp: ledger_reserve_balanced ledger_reserve_total dest: ledger_reserve_error)

interpretation release_op: ledger_operation ledger_release_reserved
  unfolding ledger_release_reserved_def by (rule ledger_move_operation) simp_all

interpretation commit_op: ledger_operation "\<lambda>v. ledger_commit_reserved v draining" for draining
  unfolding ledger_commit_reserved_def by (rule ledger_move_operation) simp_all

interpretation uncommit_op: ledger_operation "\<lambda>v. ledger_release_committed v was_draining" for was_draining
  unfolding ledger_release_committed_def by (rule ledger_move_operation) simp_all

interpretation drain_op: ledger_operation ledger_begin_drain
  unfolding ledger_begin_drain_def by (rule ledger_move_operation) simp_all

interpretation undrain_op: ledger_operation ledger_cancel_drain
  unfolding ledger_cancel_drain_def by (rule ledger_move_operation) simp_all

interpretation hold_op: ledger_operation ledger_hold_for_reconfiguration
  unfolding ledger_hold_for_reconfiguration_def by (rule ledger_move_operation) simp_all

interpretation unhold_op: ledger_operation ledger_release_reconfiguration_hold
  unfolding ledger_release_reconfiguration_hold_def by (rule ledger_move_operation) simp_all

interpretation rehold_op: ledger_operation ledger_reserve_from_reconfiguration_held
  unfolding ledger_reserve_from_reconfiguration_held_def by (rule ledger_move_operation) simp_all

interpretation unavailable_op: ledger_operation ledger_mark_unavailable
  unfolding ledger_mark_unavailable_def by (rule ledger_move_operation) simp_all

interpretation between_op: ledger_operation "move_between source dest" for source dest
  by unfold_locales (auto simp: move_between_balanced move_between_total dest: move_between_error)

lemma ledger_empty_balanced [apf_inv]: "ledger_balanced ledger_empty"
  by (simp add: ledger_balanced_def ledger_wf_def ledger_empty_def bucket_total_def rv_wf_zeros
      rv_mask_ok_def sum_list_replicate) (simp add: rv_zeros_def)

end
