(* ===== verification/APF_Text.thy ===== *)
theory APF_Text
  imports APF_Prelude
begin

unbundle bit_operations_syntax

text \<open>
  Text that reaches authoritative state: \<^verbatim>\<open>is_valid_utf8\<close> of \<^verbatim>\<open>src/codec.cpp\<close> and the
  \<^verbatim>\<open>check_text\<close> helper of \<^verbatim>\<open>src/profile.cpp\<close> and \<^verbatim>\<open>src/request.cpp\<close>. A \<^verbatim>\<open>std::string\<close> is
  a byte string, here a list of characters. The main result is that the validator accepts
  exactly the concatenations of UTF-8 encodings of Unicode scalar values.
\<close>

section \<open>The validator\<close>

abbreviation byte_of :: "char \<Rightarrow> u8" where
  "byte_of c \<equiv> of_char c"

definition is_continuation :: "u8 \<Rightarrow> bool" where
  "is_continuation b \<longleftrightarrow> b AND 0xC0 = 0x80"

text \<open>The leading byte gives the number of continuation bytes and the first bits.\<close>

definition utf8_lead :: "u8 \<Rightarrow> (nat \<times> u32) option" where
  "utf8_lead b =
     (if b AND 0xE0 = 0xC0
      then (if (ucast (b AND 0x1F) :: u32) = 0 then None else Some (1, ucast (b AND 0x1F)))
      else if b AND 0xF0 = 0xE0 then Some (2, ucast (b AND 0x0F))
      else if b AND 0xF8 = 0xF0 then Some (3, ucast (b AND 0x07))
      else None)"

text \<open>The inner loop: \<^verbatim>\<open>code_point = (code_point << 6) | (next & 0x3F)\<close>.\<close>

fun utf8_tail :: "nat \<Rightarrow> u32 \<Rightarrow> string \<Rightarrow> u32 option" where
  "utf8_tail 0 cp cs = Some cp"
| "utf8_tail (Suc n) cp [] = None"
| "utf8_tail (Suc n) cp (c # cs) =
     (if \<not> is_continuation (byte_of c) then None
      else utf8_tail n (push_bit 6 cp OR ucast (byte_of c AND 0x3F)) cs)"

definition utf8_range_ok :: "nat \<Rightarrow> u32 \<Rightarrow> bool" where
  "utf8_range_ok extra cp \<longleftrightarrow>
     \<not> (extra = 1 \<and> cp < 0x80) \<and> \<not> (extra = 2 \<and> cp < 0x800) \<and> \<not> (extra = 3 \<and> cp < 0x10000) \<and>
     \<not> cp > 0x10FFFF \<and> \<not> (cp \<ge> 0xD800 \<and> cp \<le> 0xDFFF)"

text \<open>
  The outer loop works on the unread suffix instead of an index; \<^verbatim>\<open>index + extra >= size\<close>
  says that fewer than \<^verbatim>\<open>extra\<close> bytes follow the leading one.
\<close>

fun is_valid_utf8 :: "string \<Rightarrow> bool" where
  "is_valid_utf8 [] = True"
| "is_valid_utf8 (c # cs) =
     (if byte_of c < 0x80 then is_valid_utf8 cs
      else
        (case utf8_lead (byte_of c) of
           None \<Rightarrow> False
         | Some (extra, cp) \<Rightarrow>
             if length cs < extra then False
             else
               (case utf8_tail extra cp cs of
                  None \<Rightarrow> False
                | Some cp' \<Rightarrow> if \<not> utf8_range_ok extra cp' then False
                               else is_valid_utf8 (drop extra cs))))"

definition check_text :: "string \<Rightarrow> nat \<Rightarrow> status" where
  "check_text value max_bytes =
     (if value = [] then success
      else if length value > max_bytes then failure E_LimitExceeded
      else if \<not> is_valid_utf8 value then failure E_InvalidArgument
      else success)"

lemma check_text_iff:
  "check_text s n = success \<longleftrightarrow> s = [] \<or> length s \<le> n \<and> is_valid_utf8 s"
  by (auto simp: check_text_def)

section \<open>The encoding it accepts\<close>

definition unicode_scalar :: "nat \<Rightarrow> bool" where
  "unicode_scalar n \<longleftrightarrow> n \<le> 0x10FFFF \<and> \<not> (0xD800 \<le> n \<and> n \<le> 0xDFFF)"

definition char_at :: "nat \<Rightarrow> char" where
  "char_at n = char_of n"

definition utf8_encode :: "nat \<Rightarrow> string" where
  "utf8_encode n =
     (if n < 0x80 then [char_at n]
      else if n < 0x800 then [char_at (0xC0 + n div 64), char_at (0x80 + n mod 64)]
      else if n < 0x10000
      then [char_at (0xE0 + n div 4096), char_at (0x80 + n div 64 mod 64), char_at (0x80 + n mod 64)]
      else [char_at (0xF0 + n div 262144), char_at (0x80 + n div 4096 mod 64),
            char_at (0x80 + n div 64 mod 64), char_at (0x80 + n mod 64)])"

subsection \<open>The byte tests as ranges\<close>

abbreviation byte_val :: "char \<Rightarrow> nat" where
  "byte_val c \<equiv> of_char c"

lemma byte_val_bound: "byte_val c < 256"
  by simp

lemma byte_of_val: "byte_of c = word_of_nat (byte_val c)"
  by (simp add: of_nat_of_char)

lemma byte_cases: "(\<forall>n\<in>set [0..<256]. P n) \<Longrightarrow> P (byte_val c)"
  using byte_val_bound [of c] by simp

lemma is_continuation_val: "is_continuation (byte_of c) \<longleftrightarrow> 128 \<le> byte_val c \<and> byte_val c < 192"
  unfolding byte_of_val by (rule byte_cases [where P = "\<lambda>n. is_continuation (word_of_nat n) = (128 \<le> n \<and> n < 192)"]) code_simp

lemma utf8_lead_val:
  "utf8_lead (byte_of c) =
   (if 192 < byte_val c \<and> byte_val c < 224 then Some (1, word_of_nat (byte_val c - 192))
    else if 224 \<le> byte_val c \<and> byte_val c < 240 then Some (2, word_of_nat (byte_val c - 224))
    else if 240 \<le> byte_val c \<and> byte_val c < 248 then Some (3, word_of_nat (byte_val c - 240)) else None)"
  unfolding byte_of_val
  by (rule byte_cases [where P = "\<lambda>n. utf8_lead (word_of_nat n) =
   (if 192 < n \<and> n < 224 then Some (1, word_of_nat (n - 192))
    else if 224 \<le> n \<and> n < 240 then Some (2, word_of_nat (n - 224))
    else if 240 \<le> n \<and> n < 248 then Some (3, word_of_nat (n - 240)) else None)"]) code_simp

lemma low_bits_val: "(ucast (byte_of c AND 0x3F) :: u32) = word_of_nat (byte_val c mod 64)"
  unfolding byte_of_val
  by (rule byte_cases [where P = "\<lambda>n. (ucast ((word_of_nat n :: u8) AND 0x3F) :: u32) = word_of_nat (n mod 64)"]) code_simp

lemma ascii_val: "byte_of c < 0x80 \<longleftrightarrow> byte_val c < 128"
  unfolding byte_of_val
  by (rule byte_cases [where P = "\<lambda>n. ((word_of_nat n :: u8) < 0x80) = (n < 128)"]) code_simp

lemma unat_small: "n < 2 ^ 32 \<Longrightarrow> unat (word_of_nat n :: u32) = n"
  by (simp add: unsigned_of_nat take_bit_nat_eq_self)

lemma nat_append_bits: "a * 64 OR n mod 64 = a * 64 + n mod (64::nat)"
proof -
  have "a * 64 = push_bit 6 a" "n mod 64 = take_bit 6 n"
    by (simp_all add: push_bit_eq_mult take_bit_eq_mod)
  moreover have "push_bit 6 a OR take_bit 6 n = push_bit 6 a + take_bit 6 n"
    by (rule disjunctive_add_eq_or [symmetric]) (auto simp: bit_eq_iff bit_simps)
  ultimately show ?thesis by simp
qed

lemma append_bits:
  "push_bit 6 (word_of_nat a) OR word_of_nat (n mod 64) = (word_of_nat (a * 64 + n mod 64) :: u32)"
proof -
  have "push_bit 6 (word_of_nat a :: u32) = word_of_nat (a * 64)"
    by (simp add: push_bit_eq_mult)
  then show ?thesis by (metis nat_append_bits of_nat_or_eq)
qed

lemma utf8_range_val:
  "n < 2 ^ 32 \<Longrightarrow> utf8_range_ok extra (word_of_nat n) \<longleftrightarrow>
     unicode_scalar n \<and> (extra = 1 \<longrightarrow> 0x80 \<le> n) \<and> (extra = 2 \<longrightarrow> 0x800 \<le> n) \<and>
     (extra = 3 \<longrightarrow> 0x10000 \<le> n)"
  by (auto simp: utf8_range_ok_def unicode_scalar_def word_less_nat_alt word_le_nat_alt unat_small)

definition cont :: "char \<Rightarrow> bool" where
  "cont c \<longleftrightarrow> 128 \<le> byte_val c \<and> byte_val c < 192"

definition gather :: "nat \<Rightarrow> string \<Rightarrow> nat" where
  "gather a cs = foldl (\<lambda>a c. a * 64 + byte_val c mod 64) a cs"

lemma gather_simps [simp]: "gather a [] = a" "gather a (c # cs) = gather (a * 64 + byte_val c mod 64) cs"
  by (simp_all add: gather_def)

lemma gather_bound: "gather a cs < (a + 1) * 64 ^ length cs"
proof (induction cs arbitrary: a)
  case (Cons c cs)
  have "gather a (c # cs) < (a * 64 + byte_val c mod 64 + 1) * 64 ^ length cs"
    using Cons.IH [of "a * 64 + byte_val c mod 64"] by simp
  also have "\<dots> \<le> ((a + 1) * 64) * 64 ^ length cs"
  proof (rule mult_le_mono1)
    have "x < 64 \<Longrightarrow> a * 64 + x + 1 \<le> (a + 1) * 64" for x by simp
    then show "a * 64 + byte_val c mod 64 + 1 \<le> (a + 1) * 64" by simp
  qed
  finally show ?case by (simp add: algebra_simps)
qed simp

lemma utf8_tail_val:
  "utf8_tail k (word_of_nat a) cs =
     (if k \<le> length cs \<and> (\<forall>c\<in>set (take k cs). cont c) then Some (word_of_nat (gather a (take k cs))) else None)"
proof (induction k "word_of_nat a :: u32" cs arbitrary: a rule: utf8_tail.induct)
  case (3 n c cs)
  then show ?case
    by (simp add: cont_def is_continuation_val low_bits_val append_bits
        del: of_nat_add of_nat_mult byte_of_val)
qed auto

lemma is_valid_utf8_lead:
  assumes "utf8_lead (byte_of c) = Some (k, word_of_nat a)" "a < 32" "0 < k" "k \<le> 3" "128 \<le> byte_val c"
  shows "is_valid_utf8 (c # cs) \<longleftrightarrow> k \<le> length cs \<and> (\<forall>c\<in>set (take k cs). cont c) \<and>
     unicode_scalar (gather a (take k cs)) \<and> 2 ^ (if k = 1 then 7 else 5 * k + 1) \<le> gather a (take k cs) \<and>
     is_valid_utf8 (drop k cs)"
proof -
  have "gather a (take k cs) < 2 ^ 32" if "k \<le> length cs"
  proof -
    have "gather a (take k cs) < (a + 1) * 64 ^ k"
      using gather_bound [of a "take k cs"] that by simp
    also have "\<dots> \<le> 32 * 64 ^ 3"
      using assms(2,4) by (intro mult_le_mono power_increasing) auto
    finally show ?thesis by simp
  qed
  moreover have "k = 1 \<or> k = 2 \<or> k = 3" using assms(3,4) by auto
  ultimately show ?thesis
    using assms(5)
    by (auto simp: ascii_val assms(1) utf8_tail_val utf8_range_val simp del: byte_of_val)
qed

lemma cont_char: "cont c \<Longrightarrow> char_at (128 + byte_val c mod 64) = c"
proof -
  assume "cont c"
  then have "128 + byte_val c mod 64 = byte_val c" by (auto simp: cont_def mod_if)
  then show ?thesis by (simp add: char_at_def)
qed

lemma char_at_byte: "char_at (byte_val c) = c"
  by (simp add: char_at_def)

lemma byte_val_char_at: "n < 256 \<Longrightarrow> byte_val (char_at n) = n"
  by (simp add: char_at_def)

lemma sextet: "(a * 64 + b mod 64) div 64 = a" "(a * 64 + b mod 64) mod 64 = b mod (64::nat)"
  by simp_all

lemma sextets_div: "n div 4096 = n div 64 div 64" "n div 262144 = n div 64 div 64 div (64::nat)"
  by (simp_all add: div_mult2_eq [symmetric])

lemma encode_gather:
  assumes "\<forall>c\<in>set ts. cont c"
  shows "length ts = 1 \<Longrightarrow> a < 32 \<Longrightarrow> 0x80 \<le> gather a ts \<Longrightarrow> utf8_encode (gather a ts) = char_at (0xC0 + a) # ts"
    and "length ts = 2 \<Longrightarrow> a < 16 \<Longrightarrow> 0x800 \<le> gather a ts \<Longrightarrow> utf8_encode (gather a ts) = char_at (0xE0 + a) # ts"
    and "length ts = 3 \<Longrightarrow> a < 8 \<Longrightarrow> 0x10000 \<le> gather a ts \<Longrightarrow> utf8_encode (gather a ts) = char_at (0xF0 + a) # ts"
proof -
  have m: "byte_val c mod 64 < 64" for c by simp
  show "utf8_encode (gather a ts) = char_at (0xC0 + a) # ts" if h: "length ts = 1" "a < 32" "0x80 \<le> gather a ts"
  proof -
    obtain c1 where ts: "ts = [c1]" using h(1) by (cases ts) auto
    let ?n = "gather a ts"
    have "?n div 64 = a" "?n mod 64 = byte_val c1 mod 64" "?n < 0x800"
      using h m [of c1] by (auto simp: ts)
    then show ?thesis using h assms by (simp add: utf8_encode_def ts cont_char del: gather_simps)
  qed
  show "utf8_encode (gather a ts) = char_at (0xE0 + a) # ts" if h: "length ts = 2" "a < 16" "0x800 \<le> gather a ts"
  proof -
    obtain c1 c2 where ts: "ts = [c1, c2]" using h(1) by (auto simp: length_Suc_conv eval_nat_numeral)
    let ?n = "gather a ts"
    have "?n div 4096 = a" "?n div 64 mod 64 = byte_val c1 mod 64" "?n mod 64 = byte_val c2 mod 64" "?n < 0x10000"
      using h(2) m [of c1] m [of c2] by (simp_all only: ts gather_simps sextets_div sextet) simp
    then show ?thesis using h assms by (simp add: utf8_encode_def ts cont_char del: gather_simps)
  qed
  show "utf8_encode (gather a ts) = char_at (0xF0 + a) # ts" if h: "length ts = 3" "a < 8" "0x10000 \<le> gather a ts"
  proof -
    obtain c1 c2 c3 where ts: "ts = [c1, c2, c3]" using h(1) by (auto simp: length_Suc_conv eval_nat_numeral)
    let ?n = "gather a ts"
    have "?n div 262144 = a" "?n div 4096 mod 64 = byte_val c1 mod 64" "?n div 64 mod 64 = byte_val c2 mod 64"
      "?n mod 64 = byte_val c3 mod 64"
      by (simp_all only: ts gather_simps sextets_div sextet)
    then show ?thesis using h assms by (simp add: utf8_encode_def ts cont_char del: gather_simps)
  qed
qed


lemma is_valid_utf8_encode:
  assumes "unicode_scalar n"
  shows "is_valid_utf8 (utf8_encode n @ rest) = is_valid_utf8 rest"
proof -
  have c: "cont (char_at (0x80 + m mod 64))" "byte_val (char_at (0x80 + m mod 64)) mod 64 = m mod 64" for m
  proof -
    have "m mod 64 < 64" by simp
    then have "byte_val (char_at (0x80 + m mod 64)) = 0x80 + m mod 64" by (intro byte_val_char_at) linarith
    moreover have "(0x80 + m mod 64) mod 64 = m mod 64" using mod_mult_self3 [of 2 64 "m mod 64"] by simp
    ultimately show "cont (char_at (0x80 + m mod 64))" "byte_val (char_at (0x80 + m mod 64)) mod 64 = m mod 64"
      by (auto simp: cont_def)
  qed
  consider "n < 0x80" | "0x80 \<le> n" "n < 0x800" | "0x800 \<le> n" "n < 0x10000" | "0x10000 \<le> n" "n \<le> 0x10FFFF"
    using assms unfolding unicode_scalar_def by linarith
  then show ?thesis
  proof cases
    case 1
    then have "byte_val (char_at n) < 128" by (simp add: byte_val_char_at)
    then show ?thesis using 1 by (simp add: utf8_encode_def ascii_val del: byte_of_val)
  next
    case 2
    let ?c = "char_at (0xC0 + n div 64)"
    have b: "byte_val ?c = 0xC0 + n div 64" "0 < n div 64" "n div 64 < 32"
      using 2 by (auto simp: byte_val_char_at)
    then have lead: "utf8_lead (byte_of ?c) = Some (1, word_of_nat (n div 64))"
      by (simp add: utf8_lead_val del: byte_of_val)
    have "n div 64 * 64 + n mod 64 = n" by simp
    with 2 b c assms show ?thesis
      by (simp add: is_valid_utf8_lead [OF lead] utf8_encode_def del: is_valid_utf8.simps)
  next
    case 3
    let ?c = "char_at (0xE0 + n div 4096)"
    have b: "byte_val ?c = 0xE0 + n div 4096" "n div 4096 < 16"
      using 3 by (auto simp: byte_val_char_at)
    then have lead: "utf8_lead (byte_of ?c) = Some (2, word_of_nat (n div 4096))"
      by (simp add: utf8_lead_val del: byte_of_val)
    have "(n div 4096 * 64 + n div 64 mod 64) * 64 + n mod 64 = n"
      by (simp only: sextets_div div_mult_mod_eq)
    with 3 b c assms show ?thesis
      by (simp add: is_valid_utf8_lead [OF lead] utf8_encode_def del: is_valid_utf8.simps)
  next
    case 4
    let ?c = "char_at (0xF0 + n div 262144)"
    have b: "byte_val ?c = 0xF0 + n div 262144" "n div 262144 < 8"
      using 4 by (auto simp: byte_val_char_at)
    then have lead: "utf8_lead (byte_of ?c) = Some (3, word_of_nat (n div 262144))"
      by (simp add: utf8_lead_val del: byte_of_val)
    have "((n div 262144 * 64 + n div 4096 mod 64) * 64 + n div 64 mod 64) * 64 + n mod 64 = n"
      by (simp only: sextets_div div_mult_mod_eq)
    with 4 b c assms show ?thesis
      by (simp add: is_valid_utf8_lead [OF lead] utf8_encode_def del: is_valid_utf8.simps)
  qed
qed

lemma is_valid_utf8_split_lead:
  assumes v: "is_valid_utf8 (c # cs)"
    and lead: "utf8_lead (byte_of c) = Some (k, word_of_nat a)" "a < 32" "0 < k" "k \<le> 3" "128 \<le> byte_val c"
    and enc: "\<And>ts. \<forall>c\<in>set ts. cont c \<Longrightarrow> length ts = k \<Longrightarrow>
       2 ^ (if k = 1 then 7 else 5 * k + 1) \<le> gather a ts \<Longrightarrow> utf8_encode (gather a ts) = c # ts"
  shows "\<exists>n rest. unicode_scalar n \<and> c # cs = utf8_encode n @ rest \<and> is_valid_utf8 rest"
proof -
  let ?n = "gather a (take k cs)"
  have w: "k \<le> length cs" "\<forall>c\<in>set (take k cs). cont c" "unicode_scalar ?n"
      "2 ^ (if k = 1 then 7 else 5 * k + 1) \<le> ?n" "is_valid_utf8 (drop k cs)"
    using v unfolding is_valid_utf8_lead [OF lead] by blast+
  then have "c # cs = utf8_encode ?n @ drop k cs"
    using enc [of "take k cs"] by simp
  with w show ?thesis by blast
qed

lemma is_valid_utf8_split:
  assumes "is_valid_utf8 (c # cs)"
  shows "\<exists>n rest. unicode_scalar n \<and> c # cs = utf8_encode n @ rest \<and> is_valid_utf8 rest"
proof -
  let ?b = "byte_val c"
  note split = is_valid_utf8_split_lead [OF assms]
  consider "?b < 128" | "192 < ?b" "?b < 224" | "224 \<le> ?b" "?b < 240" | "240 \<le> ?b" "?b < 248"
    | "128 \<le> ?b" "utf8_lead (byte_of c) = None"
    unfolding utf8_lead_val by fastforce
  then show ?thesis
  proof cases
    case 1
    with assms show ?thesis
      by (intro exI [of _ ?b] exI [of _ cs])
        (simp add: ascii_val unicode_scalar_def utf8_encode_def char_at_byte del: byte_of_val)
  next
    case 2
    then show ?thesis
      by (intro split [of 1 "?b - 192"])
        (simp_all add: utf8_lead_val encode_gather(1) char_at_byte del: byte_of_val)
  next
    case 3
    then show ?thesis
      by (intro split [of 2 "?b - 224"])
        (simp_all add: utf8_lead_val encode_gather(2) char_at_byte del: byte_of_val)
  next
    case 4
    then show ?thesis
      by (intro split [of 3 "?b - 240"])
        (simp_all add: utf8_lead_val encode_gather(3) char_at_byte del: byte_of_val)
  next
    case 5
    with assms show ?thesis by (simp add: ascii_val del: byte_of_val)
  qed
qed

theorem is_valid_utf8_sound_complete:
  "is_valid_utf8 s \<longleftrightarrow> (\<exists>ns. (\<forall>n\<in>set ns. unicode_scalar n) \<and> s = concat (map utf8_encode ns))"
proof
  assume "is_valid_utf8 s"
  then show "\<exists>ns. (\<forall>n\<in>set ns. unicode_scalar n) \<and> s = concat (map utf8_encode ns)"
  proof (induction "length s" arbitrary: s rule: less_induct)
    case less
    show ?case
    proof (cases s)
      case Nil
      then show ?thesis by (intro exI [of _ "[]"]) simp
    next
      case (Cons c cs)
      then obtain n rest where n: "unicode_scalar n" "s = utf8_encode n @ rest" "is_valid_utf8 rest"
        using is_valid_utf8_split less.prems by blast
      have "utf8_encode n \<noteq> []" by (simp add: utf8_encode_def)
      then have "length rest < length s" using n(2) by simp
      from less.hyps [OF this n(3)] obtain ns where
        "\<forall>n\<in>set ns. unicode_scalar n" "rest = concat (map utf8_encode ns)" by blast
      with n show ?thesis by (intro exI [of _ "n # ns"]) simp
    qed
  qed
next
  assume "\<exists>ns. (\<forall>n\<in>set ns. unicode_scalar n) \<and> s = concat (map utf8_encode ns)"
  then obtain ns where "\<forall>n\<in>set ns. unicode_scalar n" "s = concat (map utf8_encode ns)" by blast
  then show "is_valid_utf8 s"
    by (induction ns arbitrary: s) (auto simp: is_valid_utf8_encode)
qed

end
