(* ===== verification/APF_Lifecycle.thy ===== *)
theory APF_Lifecycle
  imports APF_Prelude "HOL-Library.Word"
begin

unbundle bit_operations_syntax

text \<open>
  \<^verbatim>\<open>include/apf/lifecycle.hpp\<close> and \<^verbatim>\<open>src/lifecycle.cpp\<close>: the partition lifecycle, its
  transition matrix (one 32-bit row per state, a bit per target) and the state predicates.
  The lemmas characterise \<open>validate_transition\<close> on every pair of states and the classes of
  states the rest of the runtime relies on. \<^verbatim>\<open>describe_state\<close> is diagnostic text.
\<close>

section \<open>States\<close>

datatype partition_state =
    PS_Discovered | PS_Unpartitioned | PS_PlanPending | PS_Reserved
  | PS_Creating | PS_Active | PS_Draining | PS_ReconfigurationRequired
  | PS_Destroying | PS_RevalidationRequired | PS_Degraded | PS_Offline
  | PS_Retired | PS_Failed | PS_Count

fun ps_index :: "partition_state \<Rightarrow> nat" where
  "ps_index PS_Discovered = 0"
| "ps_index PS_Unpartitioned = 1"
| "ps_index PS_PlanPending = 2"
| "ps_index PS_Reserved = 3"
| "ps_index PS_Creating = 4"
| "ps_index PS_Active = 5"
| "ps_index PS_Draining = 6"
| "ps_index PS_ReconfigurationRequired = 7"
| "ps_index PS_Destroying = 8"
| "ps_index PS_RevalidationRequired = 9"
| "ps_index PS_Degraded = 10"
| "ps_index PS_Offline = 11"
| "ps_index PS_Retired = 12"
| "ps_index PS_Failed = 13"
| "ps_index PS_Count = 14"

abbreviation kPartitionStateCount :: nat where
  "kPartitionStateCount \<equiv> 14"

definition partition_states :: "partition_state list" where
  "partition_states =
     [PS_Discovered, PS_Unpartitioned, PS_PlanPending, PS_Reserved, PS_Creating,
      PS_Active, PS_Draining, PS_ReconfigurationRequired, PS_Destroying,
      PS_RevalidationRequired, PS_Degraded, PS_Offline, PS_Retired, PS_Failed]"

text \<open>The comparison operators of the scoped enumeration are those of its underlying values.\<close>

lemma ps_index_inj: "ps_index a = ps_index b \<longleftrightarrow> a = b"
  by (cases a; cases b) simp_all

instantiation partition_state :: linorder
begin

definition less_eq_partition_state :: "partition_state \<Rightarrow> partition_state \<Rightarrow> bool" where
  "less_eq_partition_state a b \<longleftrightarrow> ps_index a \<le> ps_index b"

definition less_partition_state :: "partition_state \<Rightarrow> partition_state \<Rightarrow> bool" where
  "less_partition_state a b \<longleftrightarrow> ps_index a < ps_index b"

instance
  by standard (auto simp: less_eq_partition_state_def less_partition_state_def ps_index_inj)

end

definition kStateNames :: "string list" where
  "kStateNames =
     [''DISCOVERED'', ''UNPARTITIONED'', ''PLAN_PENDING'', ''RESERVED'', ''CREATING'',
      ''ACTIVE'', ''DRAINING'', ''RECONFIGURATION_REQUIRED'', ''DESTROYING'',
      ''REVALIDATION_REQUIRED'', ''DEGRADED'', ''OFFLINE'', ''RETIRED'', ''FAILED'']"

definition ps_to_string :: "partition_state \<Rightarrow> string" where
  "ps_to_string s =
     (if kPartitionStateCount \<le> ps_index s then ''UNKNOWN'' else kStateNames ! ps_index s)"

fun ps_name_loop :: "string \<Rightarrow> partition_state list \<Rightarrow> partition_state result" where
  "ps_name_loop name [] = failure E_InvalidArgument"
| "ps_name_loop name (s # ss) =
     (if name = kStateNames ! ps_index s then Inr s else ps_name_loop name ss)"

definition partition_state_from_string :: "string \<Rightarrow> partition_state result" where
  "partition_state_from_string name = ps_name_loop name partition_states"

section \<open>The transition matrix\<close>

definition allowed_transitions :: "(partition_state \<times> partition_state) list" where
  "allowed_transitions =
     [(PS_Discovered, PS_Discovered), (PS_Discovered, PS_Unpartitioned), (PS_Discovered, PS_PlanPending),
      (PS_Discovered, PS_RevalidationRequired), (PS_Discovered, PS_Offline), (PS_Discovered, PS_Retired),
      (PS_Discovered, PS_Failed),
      (PS_Unpartitioned, PS_Unpartitioned), (PS_Unpartitioned, PS_Discovered), (PS_Unpartitioned, PS_PlanPending),
      (PS_Unpartitioned, PS_Reserved), (PS_Unpartitioned, PS_RevalidationRequired), (PS_Unpartitioned, PS_Offline),
      (PS_Unpartitioned, PS_Degraded), (PS_Unpartitioned, PS_Retired), (PS_Unpartitioned, PS_Failed),
      (PS_PlanPending, PS_PlanPending), (PS_PlanPending, PS_Reserved), (PS_PlanPending, PS_Unpartitioned),
      (PS_PlanPending, PS_RevalidationRequired), (PS_PlanPending, PS_Failed), (PS_PlanPending, PS_Offline),
      (PS_PlanPending, PS_Retired),
      (PS_Reserved, PS_Reserved), (PS_Reserved, PS_Creating), (PS_Reserved, PS_Active),
      (PS_Reserved, PS_Unpartitioned), (PS_Reserved, PS_RevalidationRequired), (PS_Reserved, PS_Destroying),
      (PS_Reserved, PS_Failed), (PS_Reserved, PS_Offline), (PS_Reserved, PS_Retired),
      (PS_Creating, PS_Active), (PS_Creating, PS_Reserved), (PS_Creating, PS_Failed),
      (PS_Creating, PS_RevalidationRequired), (PS_Creating, PS_Offline), (PS_Creating, PS_Retired),
      (PS_Creating, PS_Destroying),
      (PS_Active, PS_Active), (PS_Active, PS_Draining), (PS_Active, PS_Destroying),
      (PS_Active, PS_ReconfigurationRequired), (PS_Active, PS_Degraded), (PS_Active, PS_Offline),
      (PS_Active, PS_Failed), (PS_Active, PS_Retired), (PS_Active, PS_RevalidationRequired),
      (PS_Draining, PS_Draining), (PS_Draining, PS_Active), (PS_Draining, PS_Destroying),
      (PS_Draining, PS_ReconfigurationRequired), (PS_Draining, PS_Degraded), (PS_Draining, PS_Offline),
      (PS_Draining, PS_Failed), (PS_Draining, PS_Retired), (PS_Draining, PS_RevalidationRequired),
      (PS_ReconfigurationRequired, PS_ReconfigurationRequired), (PS_ReconfigurationRequired, PS_Draining), (PS_ReconfigurationRequired, PS_Active),
      (PS_ReconfigurationRequired, PS_Destroying), (PS_ReconfigurationRequired, PS_RevalidationRequired), (PS_ReconfigurationRequired, PS_Offline),
      (PS_ReconfigurationRequired, PS_Failed), (PS_ReconfigurationRequired, PS_Retired),
      (PS_Destroying, PS_Retired), (PS_Destroying, PS_Failed), (PS_Destroying, PS_RevalidationRequired),
      (PS_Destroying, PS_Offline),
      (PS_RevalidationRequired, PS_RevalidationRequired), (PS_RevalidationRequired, PS_Active), (PS_RevalidationRequired, PS_Unpartitioned),
      (PS_RevalidationRequired, PS_Degraded), (PS_RevalidationRequired, PS_Draining), (PS_RevalidationRequired, PS_ReconfigurationRequired),
      (PS_RevalidationRequired, PS_Destroying), (PS_RevalidationRequired, PS_Offline), (PS_RevalidationRequired, PS_Failed),
      (PS_RevalidationRequired, PS_Retired),
      (PS_Degraded, PS_Degraded), (PS_Degraded, PS_Active), (PS_Degraded, PS_Draining),
      (PS_Degraded, PS_Destroying), (PS_Degraded, PS_RevalidationRequired), (PS_Degraded, PS_Offline),
      (PS_Degraded, PS_Failed), (PS_Degraded, PS_Retired),
      (PS_Offline, PS_Offline), (PS_Offline, PS_RevalidationRequired), (PS_Offline, PS_Retired),
      (PS_Offline, PS_Failed),
      (PS_Failed, PS_Retired)]"

text \<open>\<^verbatim>\<open>allow(from, to)\<close>: \<^verbatim>\<open>table[from] |= 1u << to\<close>.\<close>

definition table_allow :: "partition_state \<times> partition_state \<Rightarrow> u32 list \<Rightarrow> u32 list" where
  "table_allow p table =
     table[ps_index (fst p) := table ! ps_index (fst p) OR push_bit (ps_index (snd p)) 1]"

definition transition_table :: "u32 list" where
  "transition_table = fold table_allow allowed_transitions (replicate kPartitionStateCount 0)"

section \<open>State predicates\<close>

definition is_terminal_state :: "partition_state \<Rightarrow> bool" where
  "is_terminal_state s \<longleftrightarrow> s = PS_Retired \<or> s = PS_Failed"

definition is_transient_state :: "partition_state \<Rightarrow> bool" where
  "is_transient_state s \<longleftrightarrow> s \<in> {PS_PlanPending, PS_Reserved, PS_Creating, PS_Destroying}"

definition holds_capacity :: "partition_state \<Rightarrow> bool" where
  "holds_capacity s \<longleftrightarrow>
     s \<in> {PS_Reserved, PS_Creating, PS_Active, PS_Draining, PS_ReconfigurationRequired, PS_Degraded,
          PS_RevalidationRequired, PS_Destroying, PS_Offline}"

definition holds_reservation :: "partition_state \<Rightarrow> bool" where
  "holds_reservation s \<longleftrightarrow> s \<in> {PS_Reserved, PS_Creating}"

definition allows_new_assignment :: "partition_state \<Rightarrow> bool" where
  "allows_new_assignment s \<longleftrightarrow> s = PS_Active"

definition is_live_state :: "partition_state \<Rightarrow> bool" where
  "is_live_state s \<longleftrightarrow>
     s \<in> {PS_Active, PS_Draining, PS_Degraded, PS_ReconfigurationRequired, PS_RevalidationRequired}"

definition requires_revalidation_after_restart :: "partition_state \<Rightarrow> bool" where
  "requires_revalidation_after_restart s \<longleftrightarrow> holds_capacity s \<or> is_live_state s"

definition is_idempotent_transition :: "partition_state \<Rightarrow> partition_state \<Rightarrow> bool" where
  "is_idempotent_transition from to \<longleftrightarrow> (if from \<noteq> to then False else \<not> is_transient_state from)"

definition validate_transition :: "partition_state \<Rightarrow> partition_state \<Rightarrow> status" where
  "validate_transition from to =
     (if kPartitionStateCount \<le> ps_index from \<or> kPartitionStateCount \<le> ps_index to
      then failure E_InvalidArgument
      else if from = to
      then (if is_idempotent_transition from to then success else failure E_InvalidTransition)
      else if is_terminal_state from \<and> from \<noteq> PS_Failed then failure E_InvalidTransition
      else if transition_table ! ps_index from AND push_bit (ps_index to) 1 = 0
      then failure E_InvalidTransition
      else success)"

section \<open>What the matrix says\<close>

lemma ps_index_less: "ps_index s < 14 \<longleftrightarrow> s \<noteq> PS_Count"
  by (cases s) simp_all

lemma set_partition_states: "set partition_states = {s. s \<noteq> PS_Count}"
proof -
  have "s \<in> set partition_states \<longleftrightarrow> s \<noteq> PS_Count" for s
    by (cases s) (simp_all add: partition_states_def)
  then show ?thesis by blast
qed

lemma length_fold_allow [simp]: "length (fold table_allow ps t) = length t"
  by (induction ps arbitrary: t) (simp_all add: table_allow_def)

lemma bit_fold_allow:
  assumes "\<forall>p\<in>set ps. ps_index (fst p) < length t" "i < length t" "j < 32"
  shows "bit (fold table_allow ps t ! i) j \<longleftrightarrow>
           bit (t ! i) j \<or> (\<exists>p\<in>set ps. ps_index (fst p) = i \<and> ps_index (snd p) = j)"
  using assms
proof (induction ps arbitrary: t)
  case Nil
  then show ?case by simp
next
  case (Cons p ps)
  let ?t = "table_allow p t"
  have len: "length ?t = length t" by (simp add: table_allow_def)
  have "bit (?t ! i) j \<longleftrightarrow> bit (t ! i) j \<or> ps_index (fst p) = i \<and> ps_index (snd p) = j"
    using Cons.prems by (auto simp: table_allow_def nth_list_update bit_simps)
  with Cons.IH [of ?t] Cons.prems len show ?case by auto
qed

lemma allowed_from_range: "p \<in> set allowed_transitions \<Longrightarrow> ps_index (fst p) < 14 \<and> ps_index (snd p) < 14"
  by (auto simp: allowed_transitions_def)

lemma transition_table_bit:
  assumes "s \<noteq> PS_Count" "t \<noteq> PS_Count"
  shows "transition_table ! ps_index s AND push_bit (ps_index t) 1 \<noteq> 0 \<longleftrightarrow> (s, t) \<in> set allowed_transitions"
proof -
  have range: "ps_index s < 14" "ps_index t < 14" using assms by (simp_all add: ps_index_less)
  have "w AND push_bit n 1 \<noteq> 0 \<longleftrightarrow> bit w n" if "n < 32" for w :: u32 and n
  proof -
    have "w AND push_bit n 1 = 0 \<longleftrightarrow> \<not> bit w n"
      by (simp add: push_bit_eq_mult and_exp_eq_0_iff_not_bit)
    then show ?thesis by simp
  qed
  then have "transition_table ! ps_index s AND push_bit (ps_index t) 1 \<noteq> 0 \<longleftrightarrow>
      bit (transition_table ! ps_index s) (ps_index t)"
    using range by simp
  also have "\<dots> \<longleftrightarrow> (\<exists>p\<in>set allowed_transitions. ps_index (fst p) = ps_index s \<and> ps_index (snd p) = ps_index t)"
    unfolding transition_table_def using range allowed_from_range
    by (subst bit_fold_allow) auto
  also have "\<dots> \<longleftrightarrow> (s, t) \<in> set allowed_transitions"
    by (force simp: ps_index_inj)
  finally show ?thesis .
qed

lemma ps_index_ge: "14 \<le> ps_index s \<longleftrightarrow> s = PS_Count"
  by (cases s) simp_all

lemma retired_row: "(PS_Retired, t) \<notin> set allowed_transitions"
  by (simp add: allowed_transitions_def)

lemma validate_transition_cases:
  "validate_transition s t =
     (if s = PS_Count \<or> t = PS_Count then Inl E_InvalidArgument
      else if s = t then (if is_transient_state s then Inl E_InvalidTransition else success)
      else if (s, t) \<in> set allowed_transitions then success else Inl E_InvalidTransition)"
proof (cases "s = PS_Count \<or> t = PS_Count \<or> s = t")
  case True
  then show ?thesis
    by (auto simp: validate_transition_def ps_index_ge is_idempotent_transition_def)
next
  case False
  then have row: "transition_table ! ps_index s AND push_bit (ps_index t) 1 = 0 \<longleftrightarrow>
      (s, t) \<notin> set allowed_transitions"
    using transition_table_bit [of s t] by blast
  show ?thesis
    using False unfolding validate_transition_def row ps_index_ge
    by (auto simp: is_terminal_state_def retired_row)
qed

theorem validate_transition_iff:
  "validate_transition s t = success \<longleftrightarrow>
     s \<noteq> PS_Count \<and> t \<noteq> PS_Count \<and>
     (if s = t then \<not> is_transient_state s else (s, t) \<in> set allowed_transitions)"
  by (simp add: validate_transition_cases)

section \<open>Authority over the lifecycle\<close>

text \<open>One accepted change of state, and the states a partition can ever get to.\<close>

inductive lifecycle_step :: "partition_state \<Rightarrow> partition_state \<Rightarrow> bool" where
  "validate_transition s t = success \<Longrightarrow> lifecycle_step s t"

inductive_simps lifecycle_step_iff: "lifecycle_step s t"
inductive_cases lifecycle_stepE [elim]: "lifecycle_step s t"

lemma retired_stays: "lifecycle_step PS_Retired t \<Longrightarrow> t = PS_Retired"
  by (auto simp: validate_transition_iff retired_row split: if_splits)

lemma retired_terminal: "lifecycle_step\<^sup>*\<^sup>* PS_Retired t \<Longrightarrow> t = PS_Retired"
  by (induction rule: rtranclp_induct) (auto dest: retired_stays simp del: lifecycle_step_iff)

lemma failed_only_retires: "lifecycle_step PS_Failed t \<Longrightarrow> t = PS_Failed \<or> t = PS_Retired"
  by (auto simp: validate_transition_iff allowed_transitions_def split: if_splits)

text \<open>Authority is never lost for good: every state can still be retired.\<close>

lemma retirement_step:
  "s \<noteq> PS_Count \<Longrightarrow> s \<noteq> PS_Retired \<Longrightarrow> lifecycle_step s PS_Retired"
  by (cases s) (simp_all add: lifecycle_step_iff validate_transition_iff allowed_transitions_def)

text \<open>
  Capacity is taken on entry to a capacity-holding state. Such a state is entered from a
  state without capacity only by reserving, or by losing track of the device.
\<close>

lemma capacity_entry:
  assumes "lifecycle_step s t" "\<not> holds_capacity s" "holds_capacity t"
  shows "t = PS_Reserved \<or> t = PS_RevalidationRequired \<or> t = PS_Offline \<or> t = PS_Degraded"
  using assms
  by (auto simp: validate_transition_iff allowed_transitions_def holds_capacity_def
      split: if_splits)

text \<open>A partition becomes assignable only after a mutation, a revalidation or a cancelled drain.\<close>

lemma active_entry:
  assumes "lifecycle_step s PS_Active"
  shows "s \<in> {PS_Reserved, PS_Creating, PS_Active, PS_Draining, PS_ReconfigurationRequired,
              PS_RevalidationRequired, PS_Degraded}"
  using assms
  by (auto simp: validate_transition_iff allowed_transitions_def split: if_splits)

lemma assignable_is_live: "allows_new_assignment s \<Longrightarrow> is_live_state s \<and> holds_capacity s"
  by (simp add: allows_new_assignment_def is_live_state_def holds_capacity_def)

lemma live_holds_capacity: "is_live_state s \<Longrightarrow> holds_capacity s"
  by (auto simp: is_live_state_def holds_capacity_def)

lemma revalidation_is_capacity: "requires_revalidation_after_restart s \<longleftrightarrow> holds_capacity s"
  by (auto simp: requires_revalidation_after_restart_def live_holds_capacity)

section \<open>Names\<close>

lemma ps_name_loop_hit:
  assumes "distinct kStateNames" "s \<in> set ss" "\<forall>t\<in>set ss. ps_index t < 14"
  shows "ps_name_loop (kStateNames ! ps_index s) ss = Inr s"
  using assms
proof (induction ss)
  case (Cons t ss)
  have len: "length kStateNames = 14" by (simp add: kStateNames_def)
  have "kStateNames ! ps_index s = kStateNames ! ps_index t \<longleftrightarrow> s = t"
    using Cons.prems len by (auto simp: nth_eq_iff_index_eq ps_index_inj)
  then show ?case using Cons by auto
qed simp

lemma ps_from_to_string:
  "s \<noteq> PS_Count \<Longrightarrow> partition_state_from_string (ps_to_string s) = Inr s"
  unfolding partition_state_from_string_def ps_to_string_def
  using ps_name_loop_hit [of s partition_states]
  by (auto simp: set_partition_states ps_index_less ps_index_ge kStateNames_def)

end
