(* ===== verification/APF_Model.thy ===== *)
theory APF_Model
  imports APF_Ids APF_Resource APF_Text APF_Lifecycle
begin

unbundle bit_operations_syntax

text \<open>
  The value types of the runtime: evidence stamps, isolation sets, limits, the planning
  policy, partition profiles, capabilities and accelerator records, from
  \<^verbatim>\<open>include/apf/{evidence,isolation,limits,policy,profile,capability,accelerator}.hpp\<close> and the
  corresponding files of \<^verbatim>\<open>src/\<close>, with their validators.
  A \<^verbatim>\<open>std::size_t\<close> bound is a natural number: bounds are only compared with sizes.
\<close>

section \<open>Evidence\<close>

datatype evidence_provenance =
  Provenance_Unknown | Provenance_Real | Provenance_Synthetic | Provenance_Unsupported

datatype evidence_freshness =
  Freshness_Unknown | Freshness_Fresh | Freshness_Stale | Freshness_Expired

definition evidence_provenance_to_string :: "evidence_provenance \<Rightarrow> string" where
  "evidence_provenance_to_string p =
     (case p of Provenance_Unknown \<Rightarrow> ''unknown'' | Provenance_Real \<Rightarrow> ''real''
      | Provenance_Synthetic \<Rightarrow> ''synthetic'' | Provenance_Unsupported \<Rightarrow> ''unsupported'')"

definition evidence_provenance_from_string :: "string \<Rightarrow> evidence_provenance" where
  "evidence_provenance_from_string name =
     (if name = ''real'' then Provenance_Real
      else if name = ''synthetic'' then Provenance_Synthetic
      else if name = ''unsupported'' then Provenance_Unsupported
      else Provenance_Unknown)"

record evidence_stamp =
  es_generation :: generation
  es_provenance :: evidence_provenance
  es_observed_at_ms :: u64
  es_ttl_ms :: u64
  es_source :: string
  es_observed :: bool

definition evidence_unknown :: evidence_stamp where
  "evidence_unknown =
     \<lparr>es_generation = 0, es_provenance = Provenance_Unknown, es_observed_at_ms = 0, es_ttl_ms = 0,
      es_source = [], es_observed = False\<rparr>"

definition is_observed :: "evidence_stamp \<Rightarrow> bool" where
  "is_observed e \<longleftrightarrow> es_observed e \<and> gen_known (es_generation e)"

definition freshness_at :: "evidence_stamp \<Rightarrow> u64 \<Rightarrow> evidence_freshness" where
  "freshness_at e now_ms =
     (if \<not> is_observed e then Freshness_Unknown
      else if es_ttl_ms e = 0 then Freshness_Unknown
      else if now_ms \<le> es_observed_at_ms e then Freshness_Fresh
      else
        (let age = now_ms - es_observed_at_ms e in
         if age \<le> es_ttl_ms e then Freshness_Fresh
         else if es_ttl_ms e \<le> UINT64_MAX div 4 \<and> age \<le> es_ttl_ms e * 4 then Freshness_Stale
         else Freshness_Expired))"

definition is_fresh_at :: "evidence_stamp \<Rightarrow> u64 \<Rightarrow> bool" where
  "is_fresh_at e now_ms \<longleftrightarrow> freshness_at e now_ms = Freshness_Fresh"

datatype health_state =
  Health_Unknown | Health_Healthy | Health_Degraded | Health_Unhealthy | Health_Recovering

definition health_state_to_string :: "health_state \<Rightarrow> string" where
  "health_state_to_string s =
     (case s of Health_Unknown \<Rightarrow> ''unknown'' | Health_Healthy \<Rightarrow> ''healthy''
      | Health_Degraded \<Rightarrow> ''degraded'' | Health_Unhealthy \<Rightarrow> ''unhealthy''
      | Health_Recovering \<Rightarrow> ''recovering'')"

definition health_state_from_string :: "string \<Rightarrow> health_state" where
  "health_state_from_string name =
     (if name = ''healthy'' then Health_Healthy
      else if name = ''degraded'' then Health_Degraded
      else if name = ''unhealthy'' then Health_Unhealthy
      else if name = ''recovering'' then Health_Recovering
      else Health_Unknown)"

record health_evidence =
  he_state :: health_state
  he_stamp :: evidence_stamp
  he_source :: string

definition health_usable_at :: "health_evidence \<Rightarrow> u64 \<Rightarrow> bool" where
  "health_usable_at h now_ms \<longleftrightarrow> is_fresh_at (he_stamp h) now_ms"

section \<open>Isolation\<close>

datatype isolation_property =
    Isolation_LogicalSeparation | Isolation_MemoryIsolation | Isolation_FaultIsolation
  | Isolation_PerformanceIsolation | Isolation_EngineIsolation | Isolation_AddressSpaceIsolation
  | Isolation_DmaIsolation | Isolation_TenantIsolation | Isolation_Count

fun isolation_index :: "isolation_property \<Rightarrow> nat" where
  "isolation_index Isolation_LogicalSeparation = 0"
| "isolation_index Isolation_MemoryIsolation = 1"
| "isolation_index Isolation_FaultIsolation = 2"
| "isolation_index Isolation_PerformanceIsolation = 3"
| "isolation_index Isolation_EngineIsolation = 4"
| "isolation_index Isolation_AddressSpaceIsolation = 5"
| "isolation_index Isolation_DmaIsolation = 6"
| "isolation_index Isolation_TenantIsolation = 7"
| "isolation_index Isolation_Count = 8"

definition is_security_relevant :: "isolation_property \<Rightarrow> bool" where
  "is_security_relevant p \<longleftrightarrow>
     p \<in> {Isolation_MemoryIsolation, Isolation_FaultIsolation, Isolation_AddressSpaceIsolation,
          Isolation_DmaIsolation, Isolation_TenantIsolation}"

text \<open>\<^verbatim>\<open>IsolationSet\<close> is its 32-bit mask.\<close>

type_synonym isolation_set = u32

definition isolation_bit :: "isolation_property \<Rightarrow> u32" where
  "isolation_bit p = push_bit (isolation_index p) 1"

definition isolation_has :: "isolation_set \<Rightarrow> isolation_property \<Rightarrow> bool" where
  "isolation_has m p \<longleftrightarrow> m AND isolation_bit p \<noteq> 0"

definition isolation_add :: "isolation_property \<Rightarrow> isolation_set \<Rightarrow> isolation_set" where
  "isolation_add p m = m OR isolation_bit p"

definition isolation_remove :: "isolation_property \<Rightarrow> isolation_set \<Rightarrow> isolation_set" where
  "isolation_remove p m = m AND NOT (isolation_bit p)"

definition isolation_all :: isolation_set where
  "isolation_all = push_bit 8 1 - 1"

definition isolation_subset :: "isolation_set \<Rightarrow> isolation_set \<Rightarrow> bool" where
  "isolation_subset m other \<longleftrightarrow> m AND NOT other = 0"

definition isolation_count :: "isolation_set \<Rightarrow> nat" where
  "isolation_count m = length (filter (\<lambda>i. m AND push_bit i 1 \<noteq> 0) [0..<8])"

record isolation_requirement =
  ir_required :: isolation_set
  ir_policy :: strong_id
  ir_policy_generation :: generation

definition satisfied_by :: "isolation_requirement \<Rightarrow> isolation_set \<Rightarrow> bool" where
  "satisfied_by r available \<longleftrightarrow> isolation_subset (ir_required r) available"

record isolation_domain =
  id_name :: string
  id_guarantees :: isolation_set
  id_backend_defined :: bool

section \<open>Limits\<close>

record limits =
  max_accelerators :: nat
  max_profiles :: nat
  max_partitions_per_accelerator :: nat
  max_partitions :: nat
  max_assignments :: nat
  max_reservations :: nat
  max_active_reservations :: nat
  max_pending_plans :: nat
  max_plan_steps :: nat
  max_pending_attempts :: nat
  max_attempt_history :: nat
  max_snapshot_retention :: nat
  max_events :: nat
  max_explanations :: nat
  max_reconciliation_findings :: nat
  max_metadata_bytes :: nat
  max_native_id_bytes :: nat
  max_name_bytes :: nat
  max_workers :: nat
  max_frame_bytes :: nat
  max_message_queue :: nat
  max_synthetic_devices :: nat
  max_synthetic_partitions :: nat
  max_persisted_records :: nat
  max_profile_exclusions :: nat
  max_retry_state :: nat

definition default_limits :: limits where
  "default_limits =
     \<lparr>max_accelerators = 256, max_profiles = 512, max_partitions_per_accelerator = 128,
      max_partitions = 4096, max_assignments = 16384, max_reservations = 4096,
      max_active_reservations = 256, max_pending_plans = 1024, max_plan_steps = 512,
      max_pending_attempts = 64, max_attempt_history = 4096, max_snapshot_retention = 64,
      max_events = 8192, max_explanations = 128, max_reconciliation_findings = 1024,
      max_metadata_bytes = 4096, max_native_id_bytes = 256, max_name_bytes = 256,
      max_workers = 64, max_frame_bytes = 1048576, max_message_queue = 4096,
      max_synthetic_devices = 64, max_synthetic_partitions = 512, max_persisted_records = 65536,
      max_profile_exclusions = 64, max_retry_state = 16\<rparr>"

definition limits_validate :: "limits \<Rightarrow> status" where
  "limits_validate l =
     (if max_accelerators l = 0 \<or> max_profiles l = 0 \<or> max_partitions l = 0
      then failure E_InvalidArgument
      else if max_partitions_per_accelerator l > max_partitions l then failure E_InvalidArgument
      else if max_frame_bytes l < 64 \<or> max_frame_bytes l > 64 * 2 ^ 20 then failure E_InvalidArgument
      else if max_metadata_bytes l = 0 \<or> max_metadata_bytes l > 2 ^ 20 then failure E_InvalidArgument
      else if max_native_id_bytes l = 0 \<or> max_native_id_bytes l > max_metadata_bytes l
      then failure E_InvalidArgument
      else if max_name_bytes l = 0 \<or> max_name_bytes l > max_metadata_bytes l
      then failure E_InvalidArgument
      else if max_pending_attempts l = 0 \<or> max_pending_attempts l > max_attempt_history l
      then failure E_InvalidArgument
      else if max_plan_steps l = 0 \<or> max_explanations l = 0 \<or> max_events l = 0
      then failure E_InvalidArgument
      else if max_synthetic_devices l = 0 \<or> max_synthetic_partitions l = 0
      then failure E_InvalidArgument
      else if max_workers l = 0 \<or> max_message_queue l = 0 then failure E_InvalidArgument
      else if max_persisted_records l < 16 then failure E_InvalidArgument
      else success)"

section \<open>Policy\<close>

record planning_weights =
  pw_fragmentation :: int
  pw_capacity_waste :: int
  pw_destructive_reconfiguration :: int
  pw_drain :: int
  pw_mutation_count :: int
  pw_health :: int
  pw_locality :: int
  pw_future_optionality :: int
  pw_contiguity_preservation :: int
  pw_reconfiguration_cost :: int
  pw_live_reconfiguration_bonus :: int

definition default_weights :: planning_weights where
  "default_weights =
     \<lparr>pw_fragmentation = 100, pw_capacity_waste = 10, pw_destructive_reconfiguration = 1000,
      pw_drain = 200, pw_mutation_count = 50, pw_health = 500, pw_locality = 25,
      pw_future_optionality = 75, pw_contiguity_preservation = 40, pw_reconfiguration_cost = 100,
      pw_live_reconfiguration_bonus = - 50\<rparr>"

record planning_policy =
  pp_generation :: generation
  pp_name :: string
  pp_weights :: planning_weights
  pp_allow_destructive_reconfiguration :: bool
  pp_allow_drain :: bool
  pp_max_reconfiguration_downtime_ms :: u64
  pp_require_fresh_evidence :: bool
  pp_max_evidence_age_ms :: u64
  pp_require_healthy_device :: bool
  pp_allow_degraded_device :: bool
  pp_allow_external_adoption :: bool
  pp_exclusive_by_default :: bool
  pp_max_partition_mutations_per_plan :: u32
  pp_prefer_live_reconfiguration :: bool
  pp_minimum_isolation :: isolation_requirement
  pp_protected_dimensions :: "resource_dimension list"
  pp_max_instances_per_profile :: u32

definition make_default_policy :: "generation \<Rightarrow> planning_policy" where
  "make_default_policy g =
     \<lparr>pp_generation = g, pp_name = ''default'', pp_weights = default_weights,
      pp_allow_destructive_reconfiguration = False, pp_allow_drain = True,
      pp_max_reconfiguration_downtime_ms = 0, pp_require_fresh_evidence = True,
      pp_max_evidence_age_ms = 30000, pp_require_healthy_device = False,
      pp_allow_degraded_device = False, pp_allow_external_adoption = False,
      pp_exclusive_by_default = False, pp_max_partition_mutations_per_plan = 4,
      pp_prefer_live_reconfiguration = True,
      pp_minimum_isolation = \<lparr>ir_required = 0, ir_policy = 0, ir_policy_generation = 0\<rparr>,
      pp_protected_dimensions = [], pp_max_instances_per_profile = 0\<rparr>"

text \<open>The quadratic duplicate scan \<^verbatim>\<open>for index, for other = index + 1\<close> that several validators share.\<close>

fun has_duplicate :: "'a list \<Rightarrow> bool" where
  "has_duplicate [] \<longleftrightarrow> False"
| "has_duplicate (x # xs) \<longleftrightarrow> (\<exists>y\<in>set xs. x = y) \<or> has_duplicate xs"

lemma has_duplicate_iff: "has_duplicate xs \<longleftrightarrow> \<not> distinct xs"
  by (induction xs) auto

definition policy_validate :: "planning_policy \<Rightarrow> status" where
  "policy_validate p =
     (if pp_name p = [] then failure E_InvalidArgument
      else if pp_max_partition_mutations_per_plan p = 0 then failure E_InvalidArgument
      else if pp_require_fresh_evidence p \<and> pp_max_evidence_age_ms p = 0
      then failure E_InvalidArgument
      else if pw_destructive_reconfiguration (pp_weights p) < 0 then failure E_InvalidArgument
      else if pw_fragmentation (pp_weights p) < 0 \<or> pw_capacity_waste (pp_weights p) < 0 \<or>
              pw_mutation_count (pp_weights p) < 0 \<or> pw_health (pp_weights p) < 0 \<or>
              pw_future_optionality (pp_weights p) < 0
      then failure E_InvalidArgument
      else if length (pp_protected_dimensions p) > kResourceDimensionCount
      then failure E_LimitExceeded
      else if has_duplicate (pp_protected_dimensions p) then failure E_AlreadyExists
      else if pp_allow_degraded_device p \<and> pp_require_healthy_device p
      then failure E_InvalidArgument
      else success)"

section \<open>Profiles\<close>

datatype partition_mechanism =
    Mechanism_None | Mechanism_Mig | Mechanism_SrIov | Mechanism_MediatedDevice
  | Mechanism_VendorSlice | Mechanism_Synthetic | Mechanism_Count

definition mechanism_is_physical :: "partition_mechanism \<Rightarrow> bool" where
  "mechanism_is_physical m \<longleftrightarrow>
     m \<in> {Mechanism_Mig, Mechanism_SrIov, Mechanism_MediatedDevice, Mechanism_VendorSlice}"

definition partition_mechanism_to_string :: "partition_mechanism \<Rightarrow> string" where
  "partition_mechanism_to_string m =
     (case m of Mechanism_None \<Rightarrow> ''none'' | Mechanism_Mig \<Rightarrow> ''mig'' | Mechanism_SrIov \<Rightarrow> ''sriov''
      | Mechanism_MediatedDevice \<Rightarrow> ''mediated_device'' | Mechanism_VendorSlice \<Rightarrow> ''vendor_slice''
      | Mechanism_Synthetic \<Rightarrow> ''synthetic'' | Mechanism_Count \<Rightarrow> ''count'')"

definition partition_mechanism_from_string :: "string \<Rightarrow> partition_mechanism result" where
  "partition_mechanism_from_string name =
     (if name = ''none'' then Inr Mechanism_None
      else if name = ''mig'' then Inr Mechanism_Mig
      else if name = ''sriov'' then Inr Mechanism_SrIov
      else if name = ''mediated_device'' then Inr Mechanism_MediatedDevice
      else if name = ''vendor_slice'' then Inr Mechanism_VendorSlice
      else if name = ''synthetic'' then Inr Mechanism_Synthetic
      else failure E_InvalidArgument)"

datatype engine_grouping = Grouping_None | Grouping_Shared | Grouping_Dedicated | Grouping_Count

record profile_alignment =
  pa_compute_slice_multiple :: u32
  pa_memory_slice_multiple :: u32
  pa_requires_contiguous_slices :: bool
  pa_requires_atomic_slice :: bool

record partition_profile =
  pf_id :: profile_id
  pf_generation :: generation
  pf_name :: string
  pf_vendor_native :: string
  pf_backend :: string
  pf_mechanism :: partition_mechanism
  pf_resources :: resource_vector
  pf_compute_slice_count :: u32
  pf_memory_slice_count :: u32
  pf_engine_grouping :: engine_grouping
  pf_max_multiplicity :: u32
  pf_alignment :: profile_alignment
  pf_mutually_exclusive_with :: "profile_id list"
  pf_requires_full_device_reconfiguration :: bool
  pf_live_repartitioning_supported :: bool
  pf_backend_requirements :: "string list"
  pf_description :: string

text \<open>A profile that excludes itself is reported before a later duplicate, as the loop meets them.\<close>

fun exclusions_check :: "profile_id \<Rightarrow> profile_id list \<Rightarrow> status" where
  "exclusions_check self [] = success"
| "exclusions_check self (x # xs) =
     (if x = self then failure E_InvalidArgument
      else if \<exists>y\<in>set xs. x = y then failure E_AlreadyExists
      else exclusions_check self xs)"

definition profile_validate :: "partition_profile \<Rightarrow> limits \<Rightarrow> status" where
  "profile_validate p l =
     (if \<not> id_valid (pf_id p) then failure E_InvalidArgument
      else if \<not> gen_known (pf_generation p) then failure E_InvalidArgument
      else if pf_name p = [] \<or> length (pf_name p) > max_name_bytes l then failure E_InvalidArgument
      else case check_text (pf_name p) (max_name_bytes l) of Inl e \<Rightarrow> Inl e | Inr _ \<Rightarrow>
        (case check_text (pf_vendor_native p) (max_metadata_bytes l) of Inl e \<Rightarrow> Inl e | Inr _ \<Rightarrow>
        (case check_text (pf_backend p) (max_metadata_bytes l) of Inl e \<Rightarrow> Inl e | Inr _ \<Rightarrow>
        (case check_text (pf_description p) (max_metadata_bytes l) of Inl e \<Rightarrow> Inl e | Inr _ \<Rightarrow>
          if pf_backend p = [] then failure E_InvalidArgument
          else if length (pf_vendor_native p) > max_metadata_bytes l then failure E_LimitExceeded
          else if pf_mechanism p = Mechanism_None \<or> pf_mechanism p = Mechanism_Count
          then failure E_InvalidArgument
          else if rv_empty (pf_resources p) then failure E_InvalidArgument
          else case validate_dimensions (pf_resources p) of Inl e \<Rightarrow> Inl e | Inr _ \<Rightarrow>
            if pf_compute_slice_count p = 0 \<and> pf_memory_slice_count p = 0
            then failure E_InvalidArgument
            else if pa_compute_slice_multiple (pf_alignment p) = 0 \<or>
                    pa_memory_slice_multiple (pf_alignment p) = 0
            then failure E_InvalidArgument
            else if length (pf_mutually_exclusive_with p) > max_profile_exclusions l
            then failure E_LimitExceeded
            else case exclusions_check (pf_id p) (pf_mutually_exclusive_with p) of
                Inl e \<Rightarrow> Inl e
              | Inr _ \<Rightarrow>
                  if \<exists>r\<in>set (pf_backend_requirements p). length r > max_metadata_bytes l
                  then failure E_LimitExceeded
                  else success))))"

definition conflicts_with :: "partition_profile \<Rightarrow> partition_profile \<Rightarrow> bool" where
  "conflicts_with p other =
     (if pf_id other = pf_id p then False
      else
        (let forward = pf_id other \<in> set (pf_mutually_exclusive_with p);
             backward = pf_id p \<in> set (pf_mutually_exclusive_with other)
         in forward \<or> backward))"

definition profile_dominates :: "partition_profile \<Rightarrow> partition_profile \<Rightarrow> bool" where
  "profile_dominates p other =
     (if rv_empty (pf_resources other) \<or> rv_empty (pf_resources p) then False
      else is_subset_of (pf_resources other) (pf_resources p))"

record combination_rule =
  cr_profile :: profile_id
  cr_max_instances :: u32
  cr_incompatible_with :: "profile_id list"
  cr_requires_exclusive_device :: bool

section \<open>Capabilities\<close>

datatype partition_support_state =
  Support_Unknown | Support_Supported | Support_Unsupported | Support_Unavailable

definition support_to_string :: "partition_support_state \<Rightarrow> string" where
  "support_to_string s =
     (case s of Support_Unknown \<Rightarrow> ''unknown'' | Support_Supported \<Rightarrow> ''supported''
      | Support_Unsupported \<Rightarrow> ''unsupported'' | Support_Unavailable \<Rightarrow> ''unavailable'')"

definition support_from_string :: "string \<Rightarrow> partition_support_state" where
  "support_from_string name =
     (if name = ''supported'' then Support_Supported
      else if name = ''unsupported'' then Support_Unsupported
      else if name = ''unavailable'' then Support_Unavailable
      else Support_Unknown)"

record partition_capability =
  cap_accelerator :: accelerator_id
  cap_device_generation :: generation
  cap_generation :: generation
  cap_topology_generation :: generation
  cap_support :: partition_support_state
  cap_mechanism :: partition_mechanism
  cap_mechanism_name :: string
  cap_supported_profiles :: "profile_id list"
  cap_combination_rules :: "combination_rule list"
  cap_max_partition_count :: u32
  cap_requires_reset_for_reconfiguration :: bool
  cap_live_reconfiguration_supported :: bool
  cap_isolation :: isolation_set
  cap_exposed_dimensions :: "resource_dimension list"
  cap_minimum_allocation :: resource_vector
  cap_slice_granularity :: u32
  cap_total_compute_slices :: u32
  cap_total_memory_slices :: u32
  cap_drain_estimate_ms :: u64
  cap_reconfiguration_estimate_ms :: u64
  cap_backend_name :: string
  cap_backend_version :: string
  cap_driver_version :: string
  cap_tooling_requirement :: string
  cap_evidence :: evidence_stamp
  cap_unsupported_reason :: string

definition capability_default :: partition_capability where
  "capability_default =
     \<lparr>cap_accelerator = 0, cap_device_generation = 0, cap_generation = 0,
      cap_topology_generation = 0, cap_support = Support_Unknown, cap_mechanism = Mechanism_None,
      cap_mechanism_name = [], cap_supported_profiles = [], cap_combination_rules = [],
      cap_max_partition_count = 0, cap_requires_reset_for_reconfiguration = False,
      cap_live_reconfiguration_supported = False, cap_isolation = 0, cap_exposed_dimensions = [],
      cap_minimum_allocation = rv_zeros, cap_slice_granularity = 0, cap_total_compute_slices = 0,
      cap_total_memory_slices = 0, cap_drain_estimate_ms = 0, cap_reconfiguration_estimate_ms = 0,
      cap_backend_name = [], cap_backend_version = [], cap_driver_version = [],
      cap_tooling_requirement = [], cap_evidence = evidence_unknown, cap_unsupported_reason = []\<rparr>"

fun supported_profiles_check :: "profile_id list \<Rightarrow> status" where
  "supported_profiles_check [] = success"
| "supported_profiles_check (x # xs) =
     (if \<not> id_valid x then failure E_InvalidArgument
      else if \<exists>y\<in>set xs. x = y then failure E_AlreadyExists
      else supported_profiles_check xs)"

definition capability_validate :: "partition_capability \<Rightarrow> limits \<Rightarrow> bool \<Rightarrow> status" where
  "capability_validate c l require_accelerator =
     (if require_accelerator \<and> \<not> id_valid (cap_accelerator c) then failure E_InvalidArgument
      else if \<not> gen_known (cap_generation c) then failure E_InvalidArgument
      else if require_accelerator \<and> \<not> gen_known (cap_device_generation c)
      then failure E_InvalidArgument
      else if length (cap_mechanism_name c) > max_metadata_bytes l \<or>
              length (cap_backend_name c) > max_metadata_bytes l \<or>
              length (cap_backend_version c) > max_metadata_bytes l \<or>
              length (cap_driver_version c) > max_metadata_bytes l \<or>
              length (cap_tooling_requirement c) > max_metadata_bytes l \<or>
              length (cap_unsupported_reason c) > max_metadata_bytes l
      then failure E_LimitExceeded
      else if length (cap_supported_profiles c) > max_profiles l then failure E_LimitExceeded
      else if length (cap_combination_rules c) > max_profiles l then failure E_LimitExceeded
      else case supported_profiles_check (cap_supported_profiles c) of Inl e \<Rightarrow> Inl e | Inr _ \<Rightarrow>
        if cap_support c = Support_Supported \<and> cap_supported_profiles c = []
        then failure E_InvalidArgument
        else if cap_support c = Support_Supported \<and> cap_max_partition_count c = 0
        then failure E_InvalidArgument
        else if cap_support c = Support_Supported \<and> cap_mechanism c = Mechanism_None
        then failure E_InvalidArgument
        else if cap_support c = Support_Supported \<and> cap_exposed_dimensions c = []
        then failure E_InvalidArgument
        else if cap_support c = Support_Unsupported \<and> cap_unsupported_reason c = []
        then failure E_InvalidArgument
        else if cap_support c = Support_Supported \<and> cap_mechanism c = Mechanism_Synthetic \<and>
                es_provenance (cap_evidence c) \<noteq> Provenance_Synthetic
        then failure E_InvalidArgument
        else if cap_support c = Support_Supported \<and> mechanism_is_physical (cap_mechanism c) \<and>
                es_provenance (cap_evidence c) = Provenance_Synthetic
        then failure E_InvalidArgument
        else success)"

definition declares_supported :: "partition_capability \<Rightarrow> bool" where
  "declares_supported c \<longleftrightarrow> cap_support c = Support_Supported"

definition supports_profile :: "partition_capability \<Rightarrow> profile_id \<Rightarrow> bool" where
  "supports_profile c p \<longleftrightarrow> p \<in> set (cap_supported_profiles c)"

definition find_rule :: "partition_capability \<Rightarrow> profile_id \<Rightarrow> combination_rule option" where
  "find_rule c p = List.find (\<lambda>r. cr_profile r = p) (cap_combination_rules c)"

section \<open>Accelerators\<close>

record device_identifiers =
  di_vendor :: string
  di_model :: string
  di_uuid :: string
  di_pci_bus_id :: string
  di_hardware_id :: string
  di_firmware_version :: string
  di_driver_version :: string
  di_serial :: string
  di_compute_capability :: string

record locality_domain =
  ld_name :: string
  ld_numa_node :: int

record accelerator_record =
  ac_id :: accelerator_id
  ac_generation :: generation
  ac_boot_id :: boot_id
  ac_backend :: string
  ac_identifiers :: device_identifiers
  ac_physical_totals :: resource_vector
  ac_capability :: partition_capability
  ac_topology_generation :: generation
  ac_locality :: locality_domain
  ac_health :: health_evidence
  ac_evidence :: evidence_stamp
  ac_provenance :: evidence_provenance
  ac_unsupported_reason :: string
  ac_registered_at_ms :: u64
  ac_updated_at_ms :: u64

definition identifiers_too_long :: "device_identifiers \<Rightarrow> nat \<Rightarrow> bool" where
  "identifiers_too_long i n \<longleftrightarrow>
     length (di_vendor i) > n \<or> length (di_model i) > n \<or> length (di_uuid i) > n \<or>
     length (di_pci_bus_id i) > n \<or> length (di_hardware_id i) > n \<or>
     length (di_firmware_version i) > n \<or> length (di_driver_version i) > n \<or>
     length (di_serial i) > n \<or> length (di_compute_capability i) > n"

definition accelerator_validate :: "accelerator_record \<Rightarrow> limits \<Rightarrow> status" where
  "accelerator_validate a l =
     (if \<not> id_valid (ac_id a) then failure E_InvalidArgument
      else if \<not> gen_known (ac_generation a) then failure E_InvalidArgument
      else if ac_backend a = [] then failure E_InvalidArgument
      else if length (ac_backend a) > max_metadata_bytes l then failure E_LimitExceeded
      else if rv_empty (ac_physical_totals a) then failure E_InvalidArgument
      else if identifiers_too_long (ac_identifiers a) (max_metadata_bytes l) \<or>
              length (ld_name (ac_locality a)) > max_metadata_bytes l
      then failure E_LimitExceeded
      else if length (ac_unsupported_reason a) > max_metadata_bytes l then failure E_LimitExceeded
      else if id_valid (cap_accelerator (ac_capability a)) \<and> cap_accelerator (ac_capability a) \<noteq> ac_id a
      then failure E_InvalidArgument
      else if gen_known (cap_generation (ac_capability a))
      then (case capability_validate (ac_capability a) l True of
              Inl e \<Rightarrow> Inl e
            | Inr _ \<Rightarrow>
                if cap_device_generation (ac_capability a) \<noteq> ac_generation a
                then failure E_StaleGeneration else success)
      else success)"

definition is_governable_at :: "accelerator_record \<Rightarrow> u64 \<Rightarrow> bool \<Rightarrow> bool" where
  "is_governable_at a now_ms require_fresh =
     (if \<not> id_valid (ac_id a) \<or> \<not> gen_known (ac_generation a) \<or> rv_empty (ac_physical_totals a)
      then False
      else if \<not> is_observed (ac_evidence a) then False
      else if require_fresh \<and> \<not> is_fresh_at (ac_evidence a) now_ms then False
      else if is_observed (he_stamp (ac_health a)) \<and> health_usable_at (ac_health a) now_ms
      then he_state (ac_health a) \<noteq> Health_Unhealthy
      else True)"

section \<open>Facts about the value types\<close>

text \<open>
  Freshness in the mathematical sense: the unsigned age never wraps, and the
  \<^verbatim>\<open>ttl_ms * 4\<close> window is only used where the product is exact.
\<close>

lemma unat_age: "\<not> (now::u64) \<le> obs \<Longrightarrow> unat (now - obs) = unat now - unat obs"
  by (simp add: unat_sub)

lemma is_fresh_at_iff:
  "is_fresh_at e now \<longleftrightarrow> es_observed e \<and> es_generation e \<noteq> 0 \<and> es_ttl_ms e \<noteq> 0 \<and>
     unat now \<le> unat (es_observed_at_ms e) + unat (es_ttl_ms e)"
proof (cases "now \<le> es_observed_at_ms e")
  case True
  then have "unat now \<le> unat (es_observed_at_ms e)" by (simp add: word_le_nat_alt)
  then show ?thesis
    using True by (auto simp: is_fresh_at_def freshness_at_def is_observed_def gen_known_def)
next
  case False
  have "now - es_observed_at_ms e \<le> es_ttl_ms e \<longleftrightarrow>
      unat now \<le> unat (es_observed_at_ms e) + unat (es_ttl_ms e)"
    using False by (auto simp: word_le_nat_alt unat_age)
  then show ?thesis
    using False by (auto simp: is_fresh_at_def freshness_at_def is_observed_def gen_known_def Let_def)
qed

lemma freshness_decays:
  "is_fresh_at e later \<Longrightarrow> now \<le> later \<Longrightarrow> is_fresh_at e now"
  by (auto simp: is_fresh_at_iff word_le_nat_alt)

lemma quarter_bound: "(x::u64) \<le> UINT64_MAX div 4 \<longleftrightarrow> 4 * unat x < 2 ^ 64"
proof -
  have "unat (UINT64_MAX div 4) = (2 ^ 64 - 1) div 4" by (simp add: unat_div)
  then show ?thesis by (simp add: word_le_nat_alt) linarith
qed

lemma freshness_expired_iff:
  assumes "es_observed e" "es_generation e \<noteq> 0" "es_ttl_ms e \<noteq> 0" "4 * unat (es_ttl_ms e) < 2 ^ 64"
  shows "freshness_at e now = Freshness_Expired \<longleftrightarrow>
           unat (es_observed_at_ms e) + 4 * unat (es_ttl_ms e) < unat now"
proof (cases "now \<le> es_observed_at_ms e")
  case True
  then have "unat now \<le> unat (es_observed_at_ms e)" by (simp add: word_le_nat_alt)
  then show ?thesis
    using True assms by (simp add: freshness_at_def is_observed_def gen_known_def)
next
  case False
  have "unat (es_ttl_ms e * 4) = 4 * unat (es_ttl_ms e)"
    using assms(4) by (simp add: unat_word_ariths)
  moreover have "es_ttl_ms e \<le> UINT64_MAX div 4" using assms(4) by (simp only: quarter_bound)
  ultimately show ?thesis
    using False assms
    by (auto simp: freshness_at_def is_observed_def gen_known_def Let_def word_le_nat_alt unat_age)
qed

lemma isolation_subset_iff: "isolation_subset a b \<longleftrightarrow> (\<forall>i. bit a i \<longrightarrow> bit b i)"
proof -
  have "i < 32" if "bit a i" for i
    using bit_imp_le_length [OF that] by simp
  then show ?thesis by (auto simp: isolation_subset_def bit_eq_iff bit_simps)
qed

lemma isolation_subset_refl [simp]: "isolation_subset a a"
  by (simp add: isolation_subset_iff)

lemma isolation_subset_trans: "isolation_subset a b \<Longrightarrow> isolation_subset b c \<Longrightarrow> isolation_subset a c"
  by (auto simp: isolation_subset_iff)

lemma isolation_index_less: "isolation_index p < 9"
  by (cases p) simp_all

lemma isolation_has_bit: "isolation_has m p \<longleftrightarrow> bit m (isolation_index p)"
proof -
  have "m AND push_bit n 1 = 0 \<longleftrightarrow> \<not> bit m n" for n
    by (simp add: push_bit_eq_mult and_exp_eq_0_iff_not_bit)
  then show ?thesis by (simp add: isolation_has_def isolation_bit_def)
qed

lemma satisfied_by_has:
  "satisfied_by r available \<Longrightarrow> isolation_has (ir_required r) p \<Longrightarrow> isolation_has available p"
  by (simp add: satisfied_by_def isolation_subset_iff isolation_has_bit)

lemma conflicts_with_sym: "conflicts_with p q = conflicts_with q p"
  by (auto simp: conflicts_with_def Let_def)

lemma exclusions_check_ok:
  "exclusions_check x xs = success \<longleftrightarrow> x \<notin> set xs \<and> distinct xs"
  by (induction xs) auto

lemma supported_profiles_check_ok:
  "supported_profiles_check xs = success \<longleftrightarrow> distinct xs \<and> (\<forall>x\<in>set xs. id_valid x)"
  by (induction xs) auto

lemma profile_validate_resources:
  "profile_validate p l = success \<Longrightarrow>
     \<not> rv_empty (pf_resources p) \<and> validate_dimensions (pf_resources p) = success \<and>
     id_valid (pf_id p) \<and> gen_known (pf_generation p)"
  by (auto simp: profile_validate_def split: if_splits sum.splits)

text \<open>A synthetic observation never supports a physical mechanism, and conversely.\<close>

lemma capability_validate_provenance:
  assumes "capability_validate c l r = success" "declares_supported c"
  shows "(cap_mechanism c = Mechanism_Synthetic \<longrightarrow> es_provenance (cap_evidence c) = Provenance_Synthetic) \<and>
         (mechanism_is_physical (cap_mechanism c) \<longrightarrow> es_provenance (cap_evidence c) \<noteq> Provenance_Synthetic)"
  using assms
  by (auto simp: capability_validate_def declares_supported_def split: if_splits sum.splits)

lemma default_limits_valid: "limits_validate default_limits = success"
  by (simp add: limits_validate_def default_limits_def)

lemma default_policy_valid: "policy_validate (make_default_policy g) = success"
  by (simp add: policy_validate_def make_default_policy_def default_weights_def)

lemma provenance_from_to_string: "evidence_provenance_from_string (evidence_provenance_to_string p) = p"
  by (cases p) (simp_all add: evidence_provenance_from_string_def evidence_provenance_to_string_def)

lemma health_from_to_string: "health_state_from_string (health_state_to_string h) = h"
  by (cases h) (simp_all add: health_state_from_string_def health_state_to_string_def)

lemma support_from_to_string: "support_from_string (support_to_string s) = s"
  by (cases s) (simp_all add: support_from_string_def support_to_string_def)

lemma mechanism_from_to_string:
  "m \<noteq> Mechanism_Count \<Longrightarrow> partition_mechanism_from_string (partition_mechanism_to_string m) = Inr m"
  by (cases m) (simp_all add: partition_mechanism_from_string_def partition_mechanism_to_string_def)

end
