(* ===== verification/APF_Partition.thy ===== *)
theory APF_Partition
  imports APF_Accounting APF_Model
begin

unbundle bit_operations_syntax

text \<open>
  The authority records of the runtime and their validators: partitions, assignments,
  reservations, mutation attempts, plans and requests, from
  \<^verbatim>\<open>include/apf/{partition,reservation,plan,request,backend}.hpp\<close> and the corresponding files
  of \<^verbatim>\<open>src/\<close>. Diagnostic text fields (reasons, details) are not modelled; of a plan the
  step list, the candidate evaluations and the explanation, which no operation of the
  registry reads, are not modelled either.
\<close>

section \<open>Partitions\<close>

record native_identity =
  ni_backend :: string
  ni_native_id :: string
  ni_parent_native_id :: string
  ni_instance_uuid :: string

definition native_empty :: "native_identity \<Rightarrow> bool" where
  "native_empty n \<longleftrightarrow> ni_native_id n = []"

definition native_none :: native_identity where
  "native_none = \<lparr>ni_backend = [], ni_native_id = [], ni_parent_native_id = [], ni_instance_uuid = []\<rparr>"

datatype assignment_state =
  AS_Unassigned | AS_Reserved | AS_Assigned | AS_Releasing | AS_Count

datatype drain_state =
  DS_NotDraining | DS_Draining | DS_DrainComplete | DS_DrainBlocked | DS_Count

record drain_progress =
  dp_state :: drain_state
  dp_outstanding_assignments :: u32
  dp_total_assignments :: u32
  dp_started_at_ms :: u64
  dp_completed_at_ms :: u64

definition drain_none :: drain_progress where
  "drain_none =
     \<lparr>dp_state = DS_NotDraining, dp_outstanding_assignments = 0, dp_total_assignments = 0,
      dp_started_at_ms = 0, dp_completed_at_ms = 0\<rparr>"

definition destructive_safe :: "drain_progress \<Rightarrow> bool" where
  "destructive_safe d \<longleftrightarrow> dp_state d = DS_DrainComplete \<and> dp_outstanding_assignments d = 0"

record partition_record =
  pr_id :: partition_id
  pr_generation :: generation
  pr_profile :: profile_id
  pr_profile_generation :: generation
  pr_mechanism :: partition_mechanism
  pr_accelerator :: accelerator_id
  pr_accelerator_generation :: generation
  pr_accelerator_boot :: boot_id
  pr_resources :: resource_vector
  pr_state :: partition_state
  pr_native_identity :: native_identity
  pr_isolation :: isolation_domain
  pr_held_bucket :: "capacity_bucket option"
  pr_assignment_state :: assignment_state
  pr_drain :: drain_progress
  pr_reservation :: reservation_id
  pr_last_attempt :: attempt_id
  pr_superseded_generations :: "generation list"
  pr_evidence :: evidence_stamp
  pr_provenance :: evidence_provenance
  pr_created_at_ms :: u64
  pr_last_transition_at_ms :: u64
  pr_externally_observed :: bool

definition partition_default :: partition_record where
  "partition_default =
     \<lparr>pr_id = 0, pr_generation = 0, pr_profile = 0, pr_profile_generation = 0,
      pr_mechanism = Mechanism_None, pr_accelerator = 0, pr_accelerator_generation = 0,
      pr_accelerator_boot = 0, pr_resources = rv_zeros, pr_state = PS_Discovered,
      pr_native_identity = native_none,
      pr_isolation = \<lparr>id_name = [], id_guarantees = 0, id_backend_defined = False\<rparr>,
      pr_held_bucket = None, pr_assignment_state = AS_Unassigned, pr_drain = drain_none,
      pr_reservation = 0, pr_last_attempt = 0, pr_superseded_generations = [],
      pr_evidence = evidence_unknown, pr_provenance = Provenance_Unknown, pr_created_at_ms = 0,
      pr_last_transition_at_ms = 0, pr_externally_observed = False\<rparr>"

definition authoritative :: "partition_record \<Rightarrow> bool" where
  "authoritative r \<longleftrightarrow> pr_state r = PS_Active"

definition supersedes :: "partition_record \<Rightarrow> generation \<Rightarrow> bool" where
  "supersedes r other \<longleftrightarrow> other \<in> set (pr_superseded_generations r)"

definition held_bucket_check :: "partition_record \<Rightarrow> status" where
  "held_bucket_check r =
     (case pr_held_bucket r of
        Some b \<Rightarrow>
          (if kCapacityBucketCount \<le> bucket_index b \<or> b = Bucket_Unavailable \<or> b = Bucket_Free
           then failure E_CorruptState
           else if \<not> holds_capacity (pr_state r) then failure E_CorruptState
           else success)
      | None \<Rightarrow>
          (if holds_capacity (pr_state r) \<and> pr_state r \<noteq> PS_RevalidationRequired
           then failure E_CorruptState else success))"

definition drain_check :: "partition_record \<Rightarrow> status" where
  "drain_check r =
     (if dp_state (pr_drain r) = DS_Draining \<and> pr_state r \<noteq> PS_Draining then failure E_CorruptState
      else if dp_state (pr_drain r) = DS_DrainComplete \<and> dp_completed_at_ms (pr_drain r) = 0
      then failure E_CorruptState
      else if dp_outstanding_assignments (pr_drain r) > dp_total_assignments (pr_drain r)
      then failure E_CorruptState
      else if dp_state (pr_drain r) = DS_DrainComplete \<and> dp_outstanding_assignments (pr_drain r) \<noteq> 0
      then failure E_CorruptState
      else if dp_outstanding_assignments (pr_drain r) > 0 \<and> pr_state r \<noteq> PS_Draining \<and>
              \<not> allows_new_assignment (pr_state r)
      then failure E_CorruptState
      else success)"

definition partition_validate :: "partition_record \<Rightarrow> status" where
  "partition_validate r =
     (if \<not> id_valid (pr_id r) then failure E_InvalidArgument
      else if \<not> gen_known (pr_generation r) then failure E_InvalidArgument
      else if \<not> id_valid (pr_accelerator r) then failure E_InvalidArgument
      else if \<not> gen_known (pr_accelerator_generation r) then failure E_InvalidArgument
      else if \<not> id_valid (pr_profile r) then failure E_InvalidArgument
      else if rv_empty (pr_resources r) then failure E_InvalidArgument
      else if kPartitionStateCount \<le> ps_index (pr_state r) then failure E_CorruptState
      else if \<exists>g\<in>set (pr_superseded_generations r). \<not> gen_known g \<or> g \<ge> pr_generation r
      then failure E_CorruptState
      else if has_duplicate (pr_superseded_generations r) then failure E_CorruptState
      else case held_bucket_check r of
          Inl e \<Rightarrow> Inl e
        | Inr _ \<Rightarrow> drain_check r)"

record partition_assignment =
  as_id :: assignment_id
  as_partition :: partition_id
  as_partition_generation :: generation
  as_accelerator :: accelerator_id
  as_accelerator_generation :: generation
  as_workload_id :: string
  as_tenant_id :: string
  as_isolation :: isolation_requirement
  as_policy_generation :: generation
  as_coordinator_epoch :: generation
  as_evidence_generation :: generation
  as_exclusive :: bool
  as_bound_at_ms :: u64
  as_last_validated_at_ms :: u64

definition assignment_validate :: "partition_assignment \<Rightarrow> status" where
  "assignment_validate a =
     (if \<not> id_valid (as_id a) then failure E_InvalidArgument
      else if \<not> id_valid (as_partition a) \<or> \<not> gen_known (as_partition_generation a)
      then failure E_InvalidArgument
      else if \<not> id_valid (as_accelerator a) \<or> \<not> gen_known (as_accelerator_generation a)
      then failure E_InvalidArgument
      else if as_workload_id a = [] then failure E_InvalidArgument
      else success)"

section \<open>Requests\<close>

record device_selector =
  ds_backend :: string
  ds_vendor :: string
  ds_device_family :: string
  ds_locality_domain :: string
  ds_allowed :: "accelerator_id list"
  ds_excluded :: "accelerator_id list"

definition selector_admits :: "device_selector \<Rightarrow> accelerator_id \<Rightarrow> bool" where
  "selector_admits d i =
     (if ds_allowed d \<noteq> [] \<and> i \<notin> set (ds_allowed d) then False
      else if i \<in> set (ds_excluded d) then False
      else True)"

record partition_request =
  rq_profile :: profile_id
  rq_count :: u32
  rq_minimum_resources :: resource_vector
  rq_isolation :: isolation_requirement
  rq_exclusive :: bool
  rq_allow_drain :: bool
  rq_allow_destructive_reconfiguration :: bool
  rq_allow_degraded_device :: bool
  rq_allow_shared_device :: bool
  rq_selector :: device_selector
  rq_policy_class :: string
  rq_max_evidence_age_ms :: u64
  rq_requester :: string
  rq_all_or_nothing :: bool
  rq_request_tag :: string

definition request_validate :: "partition_request \<Rightarrow> limits \<Rightarrow> status" where
  "request_validate r l =
     (if \<not> id_valid (rq_profile r) then failure E_InvalidRequest
      else if rq_count r = 0 then failure E_InvalidRequest
      else if unat (rq_count r) > max_partitions_per_accelerator l then failure E_LimitExceeded
      else if unat (rq_count r) > max_partitions l then failure E_LimitExceeded
      else case check_text (rq_requester r) (max_name_bytes l) of Inl e \<Rightarrow> Inl e | Inr _ \<Rightarrow>
        (case check_text (rq_request_tag r) (max_metadata_bytes l) of Inl e \<Rightarrow> Inl e | Inr _ \<Rightarrow>
        (case check_text (rq_policy_class r) (max_name_bytes l) of Inl e \<Rightarrow> Inl e | Inr _ \<Rightarrow>
          if length (rq_request_tag r) > max_metadata_bytes l then failure E_LimitExceeded
          else if length (rq_policy_class r) > max_name_bytes l then failure E_LimitExceeded
          else if length (ds_backend (rq_selector r)) > max_metadata_bytes l \<or>
                  length (ds_vendor (rq_selector r)) > max_metadata_bytes l \<or>
                  length (ds_device_family (rq_selector r)) > max_metadata_bytes l \<or>
                  length (ds_locality_domain (rq_selector r)) > max_metadata_bytes l
          then failure E_LimitExceeded
          else if rq_exclusive r \<and> \<not> rq_all_or_nothing r then failure E_InvalidRequest
          else success)))"

record workload_requirement =
  wr_workload_id :: string
  wr_tenant_id :: string
  wr_required_profile :: profile_id
  wr_minimum_resources :: resource_vector
  wr_isolation :: isolation_requirement
  wr_exclusive :: bool
  wr_allow_reconfiguration :: bool
  wr_allow_drain :: bool
  wr_backend :: string
  wr_device_family :: string
  wr_locality_domain :: string
  wr_required_freshness_ms :: u64
  wr_policy_class :: string
  wr_requested_partition_count :: u32

definition requirement_validate :: "workload_requirement \<Rightarrow> limits \<Rightarrow> status" where
  "requirement_validate r l =
     (if wr_workload_id r = [] then failure E_InvalidRequest
      else case check_text (wr_workload_id r) (max_name_bytes l) of Inl e \<Rightarrow> Inl e | Inr _ \<Rightarrow>
        (case check_text (wr_tenant_id r) (max_name_bytes l) of Inl e \<Rightarrow> Inl e | Inr _ \<Rightarrow>
          if wr_requested_partition_count r = 0 then failure E_InvalidRequest
          else if rv_empty (wr_minimum_resources r) \<and> \<not> id_valid (wr_required_profile r)
          then failure E_InvalidRequest
          else success))"

datatype admission_outcome =
    Admitted | RejectedNoCandidatePartition | RejectedInsufficientResources | RejectedIsolation
  | RejectedStaleAuthority | RejectedPolicy | RejectedProfile | RejectedDraining
  | RejectedCapability | RejectedExclusiveConflict | RejectedRevalidationRequired
  | RejectedDeviceUnavailable | RejectedLimit | RejectedInvalidRequest | Admission_Count

definition admission_admitted :: "admission_outcome \<Rightarrow> bool" where
  "admission_admitted r \<longleftrightarrow> r = Admitted"

section \<open>Plans\<close>

datatype plan_outcome =
    PO_FeasibleNow | PO_FeasibleAfterDrain | PO_FeasibleAfterReconfiguration
  | PO_PhysicallyImpossible | PO_CapabilityUnsupported | PO_CapabilityUnknown
  | PO_InsufficientCapacity | PO_Fragmented | PO_PolicyRejected | PO_StaleEvidence
  | PO_RevalidationRequired | PO_NoEligibleAccelerator | PO_MaxPartitionCountReached
  | PO_IsolationUnsatisfied | PO_InvalidRequest | PO_LimitExceeded | PO_DuplicateRequest | PO_Count

definition plan_outcome_feasible :: "plan_outcome \<Rightarrow> bool" where
  "plan_outcome_feasible r \<longleftrightarrow>
     r \<in> {PO_FeasibleNow, PO_FeasibleAfterDrain, PO_FeasibleAfterReconfiguration}"

definition plan_outcome_requires_mutation :: "plan_outcome \<Rightarrow> bool" where
  "plan_outcome_requires_mutation r \<longleftrightarrow>
     r \<in> {PO_FeasibleNow, PO_FeasibleAfterDrain, PO_FeasibleAfterReconfiguration}"

definition plan_outcome_destructive :: "plan_outcome \<Rightarrow> bool" where
  "plan_outcome_destructive r \<longleftrightarrow> r = PO_FeasibleAfterReconfiguration"

record planned_partition =
  pn_profile :: profile_id
  pn_profile_generation :: generation
  pn_resources :: resource_vector
  pn_ordinal :: u32
  pn_vendor_native_profile :: string

record plan_binding =
  pb_accelerator :: accelerator_id
  pb_accelerator_generation :: generation
  pb_accelerator_boot :: boot_id
  pb_capability_generation :: generation
  pb_topology_generation :: generation
  pb_policy_generation :: generation
  pb_coordinator_epoch :: generation
  pb_state_generation :: generation
  pb_evidence_generation :: generation
  pb_planned_at_ms :: u64
  pb_valid_until_ms :: u64
  pb_layout :: "(partition_id \<times> generation) list"

definition expired_at :: "plan_binding \<Rightarrow> u64 \<Rightarrow> bool" where
  "expired_at b now_ms \<longleftrightarrow> pb_valid_until_ms b \<noteq> 0 \<and> now_ms > pb_valid_until_ms b"

record partition_plan =
  pl_id :: plan_id
  pl_generation :: generation
  pl_request :: partition_request
  pl_outcome :: plan_outcome
  pl_binding :: plan_binding
  pl_planned_partitions :: "planned_partition list"
  pl_created_at_ms :: u64
  pl_request_digest :: u64
  pl_terminal :: bool

definition plan_feasible :: "partition_plan \<Rightarrow> bool" where
  "plan_feasible p \<longleftrightarrow> plan_outcome_feasible (pl_outcome p)"

section \<open>Request digests\<close>

definition mix_byte :: "u8 \<Rightarrow> u64 \<Rightarrow> u64" where
  "mix_byte b hash = (hash XOR ucast b) * 1099511628211"

definition mix_bytes :: "u8 list \<Rightarrow> u64 \<Rightarrow> u64" where
  "mix_bytes bs hash = fold mix_byte bs hash"

definition mix_u64 :: "u64 \<Rightarrow> u64 \<Rightarrow> u64" where
  "mix_u64 value hash =
     mix_bytes (map (\<lambda>i. ucast (drop_bit (i * 8) value AND 0xFF)) [0..<8]) hash"

definition mix_text :: "string \<Rightarrow> u64 \<Rightarrow> u64" where
  "mix_text value hash =
     (let h = mix_bytes (map of_char value) (mix_u64 (of_nat (length value)) hash)
      in (h XOR 0x1F) * 1099511628211)"

definition mix_vector :: "resource_vector \<Rightarrow> u64 \<Rightarrow> u64" where
  "mix_vector v hash = fold mix_u64 (rv_values v) (mix_u64 (ucast (rv_mask v)) hash)"

definition mix_flag :: "bool \<Rightarrow> u64 \<Rightarrow> u64" where
  "mix_flag b = mix_u64 (if b then 1 else 0)"

definition request_digest :: "partition_request \<Rightarrow> u64" where
  "request_digest r =
     (let h = mix_u64 (rq_profile r) 1469598103934665603;
          h = mix_u64 (ucast (rq_count r)) h;
          h = mix_vector (rq_minimum_resources r) h;
          h = mix_u64 (ucast (ir_required (rq_isolation r))) h;
          h = mix_u64 (ir_policy (rq_isolation r)) h;
          h = mix_u64 (ir_policy_generation (rq_isolation r)) h;
          h = mix_flag (rq_exclusive r) h;
          h = mix_flag (rq_allow_drain r) h;
          h = mix_flag (rq_allow_destructive_reconfiguration r) h;
          h = mix_flag (rq_allow_degraded_device r) h;
          h = mix_flag (rq_allow_shared_device r) h;
          h = mix_flag (rq_all_or_nothing r) h;
          h = mix_u64 (rq_max_evidence_age_ms r) h;
          h = mix_text (ds_backend (rq_selector r)) h;
          h = mix_text (ds_vendor (rq_selector r)) h;
          h = mix_text (ds_device_family (rq_selector r)) h;
          h = mix_text (ds_locality_domain (rq_selector r)) h;
          h = fold mix_u64 (ds_allowed (rq_selector r)) h;
          h = (h XOR 0xAA) * 1099511628211;
          h = fold mix_u64 (ds_excluded (rq_selector r)) h
      in mix_text (rq_policy_class r) h)"

section \<open>Reservations\<close>

datatype reservation_lifecycle =
    RL_Pending | RL_Active | RL_Committed | RL_Released | RL_RolledBack | RL_Expired | RL_Fenced
  | RL_Failed | RL_Count

definition reservation_holds_capacity :: "reservation_lifecycle \<Rightarrow> bool" where
  "reservation_holds_capacity v \<longleftrightarrow> v = RL_Pending \<or> v = RL_Active"

definition reservation_is_terminal :: "reservation_lifecycle \<Rightarrow> bool" where
  "reservation_is_terminal v \<longleftrightarrow>
     v \<in> {RL_Committed, RL_Released, RL_RolledBack, RL_Expired, RL_Fenced, RL_Failed}"

record partition_reservation =
  rs_id :: reservation_id
  rs_plan :: plan_id
  rs_plan_generation :: generation
  rs_accelerator :: accelerator_id
  rs_accelerator_generation :: generation
  rs_accelerator_boot :: boot_id
  rs_capability_generation :: generation
  rs_topology_generation :: generation
  rs_policy_generation :: generation
  rs_coordinator_epoch :: generation
  rs_worker :: worker_id
  rs_worker_boot :: boot_id
  rs_lifecycle :: reservation_lifecycle
  rs_partitions :: "partition_id list"
  rs_partition_generations :: "generation list"
  rs_resources :: resource_vector
  rs_attempt :: attempt_id
  rs_planned_mutations :: u32
  rs_destructive :: bool
  rs_created_at_ms :: u64
  rs_updated_at_ms :: u64
  rs_expires_at_ms :: u64
  rs_rollback_count :: u32

definition reservation_default :: partition_reservation where
  "reservation_default =
     \<lparr>rs_id = 0, rs_plan = 0, rs_plan_generation = 0, rs_accelerator = 0,
      rs_accelerator_generation = 0, rs_accelerator_boot = 0, rs_capability_generation = 0,
      rs_topology_generation = 0, rs_policy_generation = 0, rs_coordinator_epoch = 0,
      rs_worker = 0, rs_worker_boot = 0, rs_lifecycle = RL_Pending, rs_partitions = [],
      rs_partition_generations = [], rs_resources = rv_zeros, rs_attempt = 0,
      rs_planned_mutations = 0, rs_destructive = False, rs_created_at_ms = 0,
      rs_updated_at_ms = 0, rs_expires_at_ms = 0, rs_rollback_count = 0\<rparr>"

definition reservation_validate :: "partition_reservation \<Rightarrow> status" where
  "reservation_validate r =
     (if \<not> id_valid (rs_id r) then failure E_InvalidArgument
      else if \<not> id_valid (rs_plan r) \<or> \<not> gen_known (rs_plan_generation r)
      then failure E_InvalidArgument
      else if \<not> id_valid (rs_accelerator r) \<or> \<not> gen_known (rs_accelerator_generation r)
      then failure E_InvalidArgument
      else if \<not> gen_known (rs_capability_generation r) then failure E_InvalidArgument
      else if \<not> gen_known (rs_policy_generation r) then failure E_InvalidArgument
      else if length (rs_partitions r) \<noteq> length (rs_partition_generations r)
      then failure E_CorruptState
      else if rv_empty (rs_resources r) \<and> reservation_holds_capacity (rs_lifecycle r) \<and>
              \<not> rs_destructive r
      then failure E_InvalidArgument
      else if rs_lifecycle r = RL_Count then failure E_CorruptState
      else success)"

section \<open>Mutation attempts\<close>

datatype attempt_kind = AK_CreatePartition | AK_DestroyPartition | AK_ReconfigureLayout | AK_Count

datatype attempt_state =
    AT_Registered | AT_Dispatched | AT_Succeeded | AT_Failed | AT_OutcomeUnknown | AT_Reconciled
  | AT_Count

definition attempt_settled :: "attempt_state \<Rightarrow> bool" where
  "attempt_settled s \<longleftrightarrow> s \<in> {AT_Succeeded, AT_Failed, AT_Reconciled}"

record partition_attempt =
  at_id :: attempt_id
  at_kind :: attempt_kind
  at_reservation :: reservation_id
  at_accelerator :: accelerator_id
  at_accelerator_generation :: generation
  at_accelerator_boot :: boot_id
  at_capability_generation :: generation
  at_coordinator_epoch :: generation
  at_worker :: worker_id
  at_worker_boot :: boot_id
  at_partitions :: "partition_id list"
  at_desired :: "planned_partition list"
  at_state :: attempt_state
  at_token :: u64
  at_registered_at_ms :: u64
  at_dispatched_at_ms :: u64
  at_settled_at_ms :: u64

definition attempt_validate :: "partition_attempt \<Rightarrow> status" where
  "attempt_validate a =
     (if \<not> id_valid (at_id a) then failure E_InvalidArgument
      else if \<not> id_valid (at_reservation a) then failure E_InvalidArgument
      else if at_kind a = AK_Count then failure E_CorruptState
      else if at_state a = AT_Count then failure E_CorruptState
      else if at_state a = AT_Dispatched \<and> at_dispatched_at_ms a = 0 then failure E_CorruptState
      else if attempt_settled (at_state a) \<and> at_settled_at_ms a = 0 then failure E_CorruptState
      else success)"

section \<open>What a backend reports\<close>

record backend_accelerator =
  ba_stable_key :: string
  ba_backend :: string
  ba_identifiers :: device_identifiers
  ba_physical_totals :: resource_vector
  ba_capability :: partition_capability
  ba_profiles :: "partition_profile list"
  ba_boot_id :: boot_id
  ba_locality :: locality_domain
  ba_evidence :: evidence_stamp
  ba_provenance :: evidence_provenance
  ba_unsupported_reason :: string

record backend_native_partition =
  bn_native_id :: string
  bn_instance_uuid :: string
  bn_vendor_native_profile :: string
  bn_profile :: profile_id
  bn_resources :: resource_vector
  bn_isolation_domain :: string
  bn_isolation :: isolation_set
  bn_live :: bool

record backend_layout =
  bl_stable_key :: string
  bl_device_present :: bool
  bl_boot_id :: boot_id
  bl_physical_totals :: resource_vector
  bl_partitions :: "backend_native_partition list"
  bl_evidence :: evidence_stamp

record native_partition_spec =
  ns_vendor_native_profile :: string
  ns_profile :: profile_id
  ns_resources :: resource_vector
  ns_existing_native_id :: string
  ns_logical_partition :: partition_id

record mutation_request =
  mr_stable_key :: string
  mr_expected_boot :: boot_id
  mr_expected_accelerator_generation :: generation
  mr_expected_capability_generation :: generation
  mr_coordinator_epoch :: generation
  mr_worker :: worker_id
  mr_worker_boot :: boot_id
  mr_attempt :: attempt_id
  mr_idempotency_token :: u64
  mr_destructive :: bool
  mr_full_device_reconfiguration :: bool
  mr_desired :: "native_partition_spec list"
  mr_remove_native_ids :: "string list"

record mutation_result =
  mu_accepted :: bool
  mu_ambiguous :: bool
  mu_created_native_ids :: "string list"
  mu_observed_layout :: backend_layout

section \<open>Facts about the records\<close>

lemma partition_validate_superseded:
  assumes "partition_validate r = success"
  shows "distinct (pr_superseded_generations r) \<and>
         (\<forall>g\<in>set (pr_superseded_generations r). gen_known g \<and> g < pr_generation r) \<and>
         \<not> supersedes r (pr_generation r)"
  using assms
  by (auto simp: partition_validate_def has_duplicate_iff supersedes_def split: if_splits)

lemma partition_validate_bucket:
  assumes "partition_validate r = success"
  shows "(\<forall>b. pr_held_bucket r = Some b \<longrightarrow>
            holds_capacity (pr_state r) \<and>
            b \<in> {Bucket_Reserved, Bucket_Active, Bucket_Draining, Bucket_ReconfigurationHeld}) \<and>
         (pr_held_bucket r = None \<longrightarrow> \<not> holds_capacity (pr_state r) \<or> pr_state r = PS_RevalidationRequired)"
proof -
  have "bucket_index b \<ge> 6 \<or> b \<in> {Bucket_Unavailable, Bucket_Free, Bucket_Reserved, Bucket_Active,
      Bucket_Draining, Bucket_ReconfigurationHeld}" for b
    by (cases b) simp_all
  moreover have "held_bucket_check r = success"
    using assms by (auto simp: partition_validate_def split: if_splits sum.splits)
  ultimately show ?thesis
    by (auto simp: held_bucket_check_def split: option.splits if_splits)
qed

lemma partition_validate_identity:
  assumes "partition_validate r = success"
  shows "id_valid (pr_id r) \<and> gen_known (pr_generation r) \<and> id_valid (pr_accelerator r) \<and>
         \<not> rv_empty (pr_resources r) \<and> pr_state r \<noteq> PS_Count"
  using assms by (auto simp: partition_validate_def ps_index_ge split: if_splits)

lemma partition_validate_drain:
  "partition_validate r = success \<Longrightarrow> drain_check r = success"
  by (auto simp: partition_validate_def split: if_splits sum.splits)

lemma reservation_terminal_or_holds:
  "v \<noteq> RL_Count \<Longrightarrow> reservation_is_terminal v \<longleftrightarrow> \<not> reservation_holds_capacity v"
  by (cases v) (simp_all add: reservation_is_terminal_def reservation_holds_capacity_def)

lemma unknown_not_settled [simp]: "\<not> attempt_settled AT_OutcomeUnknown"
  by (simp add: attempt_settled_def)

lemma attempt_settled_simps [simp]:
  "attempt_settled AT_Succeeded" "attempt_settled AT_Failed" "attempt_settled AT_Reconciled"
  "\<not> attempt_settled AT_Registered" "\<not> attempt_settled AT_Dispatched"
  by (simp_all add: attempt_settled_def)

lemma reservation_terminal_simps [simp]:
  "reservation_is_terminal RL_Committed" "reservation_is_terminal RL_Released"
  "reservation_is_terminal RL_RolledBack" "reservation_is_terminal RL_Expired"
  "reservation_is_terminal RL_Fenced" "reservation_is_terminal RL_Failed"
  "\<not> reservation_is_terminal RL_Pending" "\<not> reservation_is_terminal RL_Active"
  by (simp_all add: reservation_is_terminal_def)

lemma reservation_holds_simps [simp]:
  "reservation_holds_capacity RL_Pending" "reservation_holds_capacity RL_Active"
  "\<not> reservation_holds_capacity RL_Committed" "\<not> reservation_holds_capacity RL_Released"
  "\<not> reservation_holds_capacity RL_RolledBack" "\<not> reservation_holds_capacity RL_Expired"
  "\<not> reservation_holds_capacity RL_Fenced" "\<not> reservation_holds_capacity RL_Failed"
  by (simp_all add: reservation_holds_capacity_def)

end
