(* ===== verification/APF_State.thy ===== *)
theory APF_State
  imports APF_Partition "HOL-Library.Char_ord" "HOL-Library.List_Lexorder"
begin

text \<open>
  The registry state of \<^verbatim>\<open>src/fabric_internal.hpp\<close> and the state helpers at the top of
  \<^verbatim>\<open>src/fabric.cpp\<close>: events, the state generation, capacity transitions, lifecycle
  transitions and plan bindings. Every public method of \<^verbatim>\<open>PartitionFabric\<close> runs under one
  mutex, so an operation is a function on \<open>fabric_state\<close>.

  A pointer or reference into a registry map is modelled by its key. The clock is the
  component \<open>fs_now\<close>: an operation sees one reading, and time passes between operations.
  Of an event its code, time and sequence number are kept.
\<close>

section \<open>State\<close>

text \<open>
  \<^verbatim>\<open>ExplanationCode\<close> by its underlying 16-bit value, with the names of the codes the registry
  records.
\<close>

type_synonym explanation_code = u16

abbreviation EX_CandidateRejected :: explanation_code where
  "EX_CandidateRejected \<equiv> 3"

abbreviation EX_RejectedStaleEvidence :: explanation_code where
  "EX_RejectedStaleEvidence \<equiv> 5"

abbreviation EX_RejectedCapabilityUnsupported :: explanation_code where
  "EX_RejectedCapabilityUnsupported \<equiv> 7"

abbreviation EX_RejectedPolicy :: explanation_code where
  "EX_RejectedPolicy \<equiv> 18"

abbreviation EX_RejectedDuplicateRequest :: explanation_code where
  "EX_RejectedDuplicateRequest \<equiv> 25"

abbreviation EX_RankingFactor :: explanation_code where
  "EX_RankingFactor \<equiv> 27"

abbreviation EX_PlanFeasibleNow :: explanation_code where
  "EX_PlanFeasibleNow \<equiv> 29"

abbreviation EX_PlanNoEligibleAccelerator :: explanation_code where
  "EX_PlanNoEligibleAccelerator \<equiv> 39"

abbreviation EX_ReserveAccepted :: explanation_code where
  "EX_ReserveAccepted \<equiv> 40"

abbreviation EX_ReserveRejected :: explanation_code where
  "EX_ReserveRejected \<equiv> 41"

abbreviation EX_CommitAccepted :: explanation_code where
  "EX_CommitAccepted \<equiv> 42"

abbreviation EX_CommitRejected :: explanation_code where
  "EX_CommitRejected \<equiv> 43"

abbreviation EX_ReleaseAccepted :: explanation_code where
  "EX_ReleaseAccepted \<equiv> 44"

abbreviation EX_ReleaseRejected :: explanation_code where
  "EX_ReleaseRejected \<equiv> 45"

abbreviation EX_DrainStarted :: explanation_code where
  "EX_DrainStarted \<equiv> 46"

abbreviation EX_DrainProgressed :: explanation_code where
  "EX_DrainProgressed \<equiv> 47"

abbreviation EX_DrainCompleted :: explanation_code where
  "EX_DrainCompleted \<equiv> 48"

abbreviation EX_DrainBlocked :: explanation_code where
  "EX_DrainBlocked \<equiv> 49"

abbreviation EX_ReconfigurationPlanned :: explanation_code where
  "EX_ReconfigurationPlanned \<equiv> 50"

abbreviation EX_ReconfigurationStale :: explanation_code where
  "EX_ReconfigurationStale \<equiv> 51"

abbreviation EX_ReconfigurationExecuted :: explanation_code where
  "EX_ReconfigurationExecuted \<equiv> 52"

abbreviation EX_ReconfigurationVerified :: explanation_code where
  "EX_ReconfigurationVerified \<equiv> 53"

abbreviation EX_AttemptRegistered :: explanation_code where
  "EX_AttemptRegistered \<equiv> 54"

abbreviation EX_PhysicalVerificationPassed :: explanation_code where
  "EX_PhysicalVerificationPassed \<equiv> 55"

abbreviation EX_PhysicalVerificationFailed :: explanation_code where
  "EX_PhysicalVerificationFailed \<equiv> 56"

abbreviation EX_OutcomeUnknown :: explanation_code where
  "EX_OutcomeUnknown \<equiv> 57"

abbreviation EX_ReconciliationRequired :: explanation_code where
  "EX_ReconciliationRequired \<equiv> 58"

abbreviation EX_RevalidationRequired :: explanation_code where
  "EX_RevalidationRequired \<equiv> 59"

abbreviation EX_ReconciledMatch :: explanation_code where
  "EX_ReconciledMatch \<equiv> 60"

abbreviation EX_ReconciledDeviceReset :: explanation_code where
  "EX_ReconciledDeviceReset \<equiv> 64"

abbreviation EX_ReconciledDeviceGone :: explanation_code where
  "EX_ReconciledDeviceGone \<equiv> 66"

abbreviation EX_ReconciledAssignmentOrphaned :: explanation_code where
  "EX_ReconciledAssignmentOrphaned \<equiv> 69"

abbreviation EX_ExternalAdoption :: explanation_code where
  "EX_ExternalAdoption \<equiv> 70"

abbreviation EX_WorkerFenced :: explanation_code where
  "EX_WorkerFenced \<equiv> 71"

abbreviation EX_StaleWorkerRejected :: explanation_code where
  "EX_StaleWorkerRejected \<equiv> 72"

abbreviation EX_StaleEpochRejected :: explanation_code where
  "EX_StaleEpochRejected \<equiv> 73"

abbreviation EX_StalePlanRejected :: explanation_code where
  "EX_StalePlanRejected \<equiv> 74"

abbreviation EX_StaleReservationRejected :: explanation_code where
  "EX_StaleReservationRejected \<equiv> 75"

abbreviation EX_StalePartitionGenerationRejected :: explanation_code where
  "EX_StalePartitionGenerationRejected \<equiv> 76"

abbreviation EX_CapabilityGenerationChanged :: explanation_code where
  "EX_CapabilityGenerationChanged \<equiv> 77"

abbreviation EX_PolicyGenerationChanged :: explanation_code where
  "EX_PolicyGenerationChanged \<equiv> 78"

abbreviation EX_AccountingViolation :: explanation_code where
  "EX_AccountingViolation \<equiv> 82"

abbreviation EX_Shutdown :: explanation_code where
  "EX_Shutdown \<equiv> 86"

record fabric_event =
  ev_code :: explanation_code
  ev_at_ms :: u64
  ev_sequence :: u64

record worker_record =
  wk_id :: worker_id
  wk_boot :: boot_id
  wk_endpoint :: string
  wk_backend :: string
  wk_alive :: bool
  wk_fenced :: bool
  wk_device_count :: u32
  wk_registered_at_ms :: u64
  wk_last_seen_ms :: u64
  wk_fenced_at_ms :: u64
  wk_coordinator_epoch :: generation

record fabric_state =
  fs_limits :: limits
  fs_now :: u64
  fs_coordinator_epoch :: generation
  fs_state_generation :: generation
  fs_snapshot_generation :: generation
  fs_policy_generation :: generation
  fs_policy :: planning_policy
  fs_ids :: id_allocator
  fs_accelerators :: "(u64, accelerator_record) omap"
  fs_ledgers :: "(u64, capacity_ledger) omap"
  fs_stable_keys :: "(u64, string) omap"
  fs_key_index :: "(string, accelerator_id) omap"
  fs_profiles :: "(u64, partition_profile) omap"
  fs_partitions :: "(u64, partition_record) omap"
  fs_plans :: "(u64, partition_plan) omap"
  fs_reservations :: "(u64, partition_reservation) omap"
  fs_attempts :: "(u64, partition_attempt) omap"
  fs_assignments :: "(u64, partition_assignment) omap"
  fs_workers :: "(u64, worker_record) omap"
  fs_accelerator_owner :: "(u64, worker_record) omap"
  fs_evidence_generation :: generation
  fs_events :: "fabric_event list"
  fs_event_sequence :: u64
  fs_instance_id :: string
  fs_opened_at_ms :: u64
  fs_closed :: bool
  fs_closed_at_ms :: u64

abbreviation find_accelerator :: "accelerator_id \<Rightarrow> fabric_state \<Rightarrow> accelerator_record option" where
  "find_accelerator i s \<equiv> om_find i (fs_accelerators s)"

abbreviation find_ledger :: "accelerator_id \<Rightarrow> fabric_state \<Rightarrow> capacity_ledger option" where
  "find_ledger i s \<equiv> om_find i (fs_ledgers s)"

abbreviation find_profile :: "profile_id \<Rightarrow> fabric_state \<Rightarrow> partition_profile option" where
  "find_profile i s \<equiv> om_find i (fs_profiles s)"

abbreviation find_partition :: "partition_id \<Rightarrow> fabric_state \<Rightarrow> partition_record option" where
  "find_partition i s \<equiv> om_find i (fs_partitions s)"

abbreviation find_reservation :: "reservation_id \<Rightarrow> fabric_state \<Rightarrow> partition_reservation option" where
  "find_reservation i s \<equiv> om_find i (fs_reservations s)"

abbreviation find_attempt :: "attempt_id \<Rightarrow> fabric_state \<Rightarrow> partition_attempt option" where
  "find_attempt i s \<equiv> om_find i (fs_attempts s)"

abbreviation find_worker :: "worker_id \<Rightarrow> fabric_state \<Rightarrow> worker_record option" where
  "find_worker i s \<equiv> om_find i (fs_workers s)"

abbreviation find_plan :: "plan_id \<Rightarrow> fabric_state \<Rightarrow> partition_plan option" where
  "find_plan i s \<equiv> om_find i (fs_plans s)"

definition partitions_of :: "accelerator_id \<Rightarrow> fabric_state \<Rightarrow> partition_record list" where
  "partitions_of i s = filter (\<lambda>r. pr_accelerator r = i) (om_values (fs_partitions s))"

definition count_partitions_in_states ::
  "accelerator_id \<Rightarrow> partition_state list \<Rightarrow> fabric_state \<Rightarrow> nat" where
  "count_partitions_in_states i states s =
     length (filter (\<lambda>r. pr_accelerator r = i \<and> pr_state r \<in> set states) (om_values (fs_partitions s)))"

text \<open>Assignments through a pointer into a registry.\<close>

abbreviation upd_partition ::
  "partition_id \<Rightarrow> (partition_record \<Rightarrow> partition_record) \<Rightarrow> fabric_state \<Rightarrow> fabric_state" where
  "upd_partition i f s \<equiv> s\<lparr>fs_partitions := om_modify i f (fs_partitions s)\<rparr>"

abbreviation upd_reservation ::
  "reservation_id \<Rightarrow> (partition_reservation \<Rightarrow> partition_reservation) \<Rightarrow> fabric_state \<Rightarrow> fabric_state" where
  "upd_reservation i f s \<equiv> s\<lparr>fs_reservations := om_modify i f (fs_reservations s)\<rparr>"

abbreviation upd_attempt ::
  "attempt_id \<Rightarrow> (partition_attempt \<Rightarrow> partition_attempt) \<Rightarrow> fabric_state \<Rightarrow> fabric_state" where
  "upd_attempt i f s \<equiv> s\<lparr>fs_attempts := om_modify i f (fs_attempts s)\<rparr>"

abbreviation upd_ledger ::
  "accelerator_id \<Rightarrow> capacity_ledger \<Rightarrow> fabric_state \<Rightarrow> fabric_state" where
  "upd_ledger i l s \<equiv> s\<lparr>fs_ledgers := om_modify i (\<lambda>_. l) (fs_ledgers s)\<rparr>"

abbreviation upd_accelerator ::
  "accelerator_id \<Rightarrow> (accelerator_record \<Rightarrow> accelerator_record) \<Rightarrow> fabric_state \<Rightarrow> fabric_state" where
  "upd_accelerator i f s \<equiv> s\<lparr>fs_accelerators := om_modify i f (fs_accelerators s)\<rparr>"

abbreviation upd_worker ::
  "worker_id \<Rightarrow> (worker_record \<Rightarrow> worker_record) \<Rightarrow> fabric_state \<Rightarrow> fabric_state" where
  "upd_worker i f s \<equiv> s\<lparr>fs_workers := om_modify i f (fs_workers s)\<rparr>"

abbreviation upd_plan ::
  "plan_id \<Rightarrow> (partition_plan \<Rightarrow> partition_plan) \<Rightarrow> fabric_state \<Rightarrow> fabric_state" where
  "upd_plan i f s \<equiv> s\<lparr>fs_plans := om_modify i f (fs_plans s)\<rparr>"

section \<open>Events and generations\<close>

text \<open>\<^verbatim>\<open>while (events.size() > max_events) events.pop_front();\<close>\<close>

fun trim_front :: "nat \<Rightarrow> 'a list \<Rightarrow> 'a list" where
  "trim_front n [] = []"
| "trim_front n (e # es) = (if length (e # es) > n then trim_front n es else e # es)"

definition record_event :: "explanation_code \<Rightarrow> fabric_state \<Rightarrow> fabric_state" where
  "record_event code s =
     (let seq = fs_event_sequence s + 1;
          event = \<lparr>ev_code = code, ev_at_ms = fs_now s, ev_sequence = seq\<rparr>
      in s\<lparr>fs_event_sequence := seq,
           fs_events := trim_front (max_events (fs_limits s)) (fs_events s @ [event])\<rparr>)"

definition bump_state_generation :: "fabric_state \<Rightarrow> fabric_state" where
  "bump_state_generation s =
     (case gen_next (fs_state_generation s) of
        Inl _ \<Rightarrow> s
      | Inr g \<Rightarrow> s\<lparr>fs_state_generation := g\<rparr>)"

section \<open>Capacity transitions\<close>

definition state_keeps_current_bucket :: "partition_state \<Rightarrow> bool" where
  "state_keeps_current_bucket t \<longleftrightarrow> t \<in> {PS_RevalidationRequired, PS_Offline, PS_Destroying}"

definition bucket_for_state :: "partition_state \<Rightarrow> capacity_bucket option" where
  "bucket_for_state t =
     (if t \<in> {PS_Reserved, PS_Creating} then Some Bucket_Reserved
      else if t \<in> {PS_Active, PS_Degraded} then Some Bucket_Active
      else if t = PS_Draining then Some Bucket_Draining
      else if t = PS_ReconfigurationRequired then Some Bucket_ReconfigurationHeld
      else None)"

definition apply_capacity_transition ::
  "capacity_ledger \<Rightarrow> partition_record \<Rightarrow> partition_state \<Rightarrow> (capacity_ledger \<times> partition_record) \<times> status" where
  "apply_capacity_transition l r target_state =
     (if state_keeps_current_bucket target_state then ((l, r), success)
      else
        (let target = bucket_for_state target_state in
         if target = pr_held_bucket r then ((l, r), success)
         else
           (case (target, pr_held_bucket r) of
              (Some t, None) \<Rightarrow>
                (case move_between Bucket_Free t (pr_resources r) l of
                   (l', Inl _) \<Rightarrow> ((l', r), failure E_InsufficientCapacity)
                 | (l', Inr _) \<Rightarrow> ((l', r\<lparr>pr_held_bucket := target\<rparr>), success))
            | (None, None) \<Rightarrow> ((l, r), success)
            | (None, Some h) \<Rightarrow>
                (case move_between h Bucket_Free (pr_resources r) l of
                   (l', Inl e) \<Rightarrow> ((l', r), Inl e)
                 | (l', Inr _) \<Rightarrow> ((l', r\<lparr>pr_held_bucket := None\<rparr>), success))
            | (Some t, Some h) \<Rightarrow>
                (case move_between h t (pr_resources r) l of
                   (l', Inl e) \<Rightarrow> ((l', r), Inl e)
                 | (l', Inr _) \<Rightarrow> ((l', r\<lparr>pr_held_bucket := target\<rparr>), success)))))"

section \<open>Lifecycle transitions\<close>

text \<open>
  The record is passed by reference in the code; here it is looked up by its key, and the
  branch without a record does not correspond to any call.
\<close>

definition transition_partition ::
  "partition_id \<Rightarrow> partition_state \<Rightarrow> fabric_state \<Rightarrow> fabric_state \<times> status" where
  "transition_partition i to s =
     (case find_partition i s of
        None \<Rightarrow> (s, failure E_NotFound)
      | Some r \<Rightarrow>
          (case validate_transition (pr_state r) to of
             Inl e \<Rightarrow> (s, Inl e)
           | Inr _ \<Rightarrow>
               (if pr_state r = to then (s, success)
                else
                  (case find_ledger (pr_accelerator r) s of
                     None \<Rightarrow> (s, failure E_CorruptState)
                   | Some l \<Rightarrow>
                       (case apply_capacity_transition l r to of
                          ((l', r'), Inl e) \<Rightarrow> (upd_ledger (pr_accelerator r) l' s, Inl e)
                        | ((l', r'), Inr _) \<Rightarrow>
                            (let r'' = r'\<lparr>pr_state := to, pr_last_transition_at_ms := fs_now s\<rparr>;
                                 s' = upd_partition i (\<lambda>_. r'') (upd_ledger (pr_accelerator r) l' s)
                             in (case partition_validate r'' of
                                   Inl e \<Rightarrow> (s', Inl e)
                                 | Inr _ \<Rightarrow>
                                     (case ledger_validate l' of
                                        Inl _ \<Rightarrow> (s', failure E_CorruptState)
                                      | Inr _ \<Rightarrow> (s', success)))))))))"

section \<open>Plan bindings\<close>

text \<open>The layout loop: every live partition of the device is bound, and the count agrees.\<close>

definition layout_relevant :: "accelerator_id \<Rightarrow> partition_record \<Rightarrow> bool" where
  "layout_relevant a r \<longleftrightarrow>
     pr_accelerator r = a \<and> \<not> (is_terminal_state (pr_state r) \<or> pr_state r = PS_Unpartitioned)"

fun layout_scan ::
  "accelerator_id \<Rightarrow> (partition_id \<times> generation) list \<Rightarrow> partition_record list \<Rightarrow> nat \<Rightarrow> nat result" where
  "layout_scan a layout [] seen = Inr seen"
| "layout_scan a layout (r # rs) seen =
     (if \<not> layout_relevant a r then layout_scan a layout rs seen
      else if \<not> (\<exists>b\<in>set layout. fst b = pr_id r \<and> snd b = pr_generation r) then failure E_StalePlan
      else layout_scan a layout rs (Suc seen))"

definition validate_plan_binding :: "fabric_state \<Rightarrow> partition_plan \<Rightarrow> u64 \<Rightarrow> bool \<Rightarrow> status" where
  "validate_plan_binding s p now_ms require_fresh_evidence =
     (if pb_policy_generation (pl_binding p) \<noteq> fs_policy_generation s then failure E_PolicyChanged
      else if pl_terminal p then failure E_StalePlan
      else if expired_at (pl_binding p) now_ms then failure E_StalePlan
      else if \<not> id_valid (pb_accelerator (pl_binding p)) then failure E_StalePlan
      else case find_accelerator (pb_accelerator (pl_binding p)) s of
          None \<Rightarrow> failure E_StalePlan
        | Some a \<Rightarrow>
            if ac_generation a \<noteq> pb_accelerator_generation (pl_binding p) then failure E_StaleGeneration
            else if ac_boot_id a \<noteq> pb_accelerator_boot (pl_binding p) then failure E_StaleGeneration
            else if cap_generation (ac_capability a) \<noteq> pb_capability_generation (pl_binding p)
            then failure E_CapabilityChanged
            else if require_fresh_evidence \<and> \<not> is_fresh_at (ac_evidence a) now_ms
            then failure E_StaleEvidence
            else case layout_scan (pb_accelerator (pl_binding p)) (pb_layout (pl_binding p))
                        (om_values (fs_partitions s)) 0 of
                Inl e \<Rightarrow> Inl e
              | Inr seen \<Rightarrow>
                  if seen \<noteq> length (pb_layout (pl_binding p)) then failure E_StalePlan else success)"

section \<open>Small helpers\<close>

definition check_open :: "fabric_state \<Rightarrow> status" where
  "check_open s = (if fs_closed s then failure E_Closed else success)"

definition ensure_evidence ::
  "evidence_stamp \<Rightarrow> evidence_provenance \<Rightarrow> string \<Rightarrow> u64 \<Rightarrow> u64 \<Rightarrow> generation \<Rightarrow> evidence_stamp" where
  "ensure_evidence stamp provenance source ttl_ms now_ms g =
     (if is_observed stamp
      then (if es_ttl_ms stamp = 0 then stamp\<lparr>es_ttl_ms := ttl_ms\<rparr> else stamp)
      else stamp\<lparr>es_observed := True, es_generation := g, es_observed_at_ms := now_ms,
                 es_ttl_ms := ttl_ms, es_source := source,
                 es_provenance := (if es_provenance stamp = Provenance_Unknown then provenance
                                   else es_provenance stamp)\<rparr>)"

text \<open>\<^verbatim>\<open>prune_plans\<close>, \<^verbatim>\<open>prune_attempts\<close>: erase from the front while the map is over its bound.\<close>

fun prune :: "nat \<Rightarrow> ('v \<Rightarrow> bool) \<Rightarrow> ('k \<times> 'v) list \<Rightarrow> nat \<Rightarrow> ('k \<times> 'v) list" where
  "prune bound drop_it [] n = []"
| "prune bound drop_it ((k, v) # m) n =
     (if n \<le> bound then (k, v) # m
      else if drop_it v then prune bound drop_it m (n - 1)
      else (k, v) # prune bound drop_it m n)"

definition prune_plans :: "fabric_state \<Rightarrow> fabric_state" where
  "prune_plans s =
     s\<lparr>fs_plans := prune (max_pending_plans (fs_limits s)) pl_terminal (fs_plans s) (length (fs_plans s))\<rparr>"

definition prune_attempts :: "fabric_state \<Rightarrow> fabric_state" where
  "prune_attempts s =
     s\<lparr>fs_attempts := prune (max_attempt_history (fs_limits s)) (\<lambda>a. attempt_settled (at_state a))
          (fs_attempts s) (length (fs_attempts s))\<rparr>"

definition is_worker_bound :: "partition_reservation \<Rightarrow> worker_id \<Rightarrow> boot_id \<Rightarrow> bool" where
  "is_worker_bound r worker boot \<longleftrightarrow> rs_worker r = worker \<and> rs_worker_boot r = boot"

definition evidence_window :: "fabric_state \<Rightarrow> u64" where
  "evidence_window s =
     (if pp_max_evidence_age_ms (fs_policy s) = 0 then 30000 else pp_max_evidence_age_ms (fs_policy s))"

section \<open>Facts about the helpers\<close>

subsection \<open>What the helpers leave alone\<close>

lemma record_event_frame [simp]:
  "fs_limits (record_event c s) = fs_limits s" "fs_now (record_event c s) = fs_now s"
  "fs_coordinator_epoch (record_event c s) = fs_coordinator_epoch s" "fs_state_generation (record_event c s) = fs_state_generation s"
  "fs_snapshot_generation (record_event c s) = fs_snapshot_generation s" "fs_policy_generation (record_event c s) = fs_policy_generation s"
  "fs_policy (record_event c s) = fs_policy s" "fs_ids (record_event c s) = fs_ids s"
  "fs_accelerators (record_event c s) = fs_accelerators s" "fs_ledgers (record_event c s) = fs_ledgers s"
  "fs_stable_keys (record_event c s) = fs_stable_keys s" "fs_key_index (record_event c s) = fs_key_index s"
  "fs_profiles (record_event c s) = fs_profiles s" "fs_partitions (record_event c s) = fs_partitions s"
  "fs_plans (record_event c s) = fs_plans s" "fs_reservations (record_event c s) = fs_reservations s"
  "fs_attempts (record_event c s) = fs_attempts s" "fs_assignments (record_event c s) = fs_assignments s"
  "fs_workers (record_event c s) = fs_workers s" "fs_accelerator_owner (record_event c s) = fs_accelerator_owner s"
  "fs_evidence_generation (record_event c s) = fs_evidence_generation s" "fs_instance_id (record_event c s) = fs_instance_id s"
  "fs_opened_at_ms (record_event c s) = fs_opened_at_ms s" "fs_closed (record_event c s) = fs_closed s"
  "fs_closed_at_ms (record_event c s) = fs_closed_at_ms s"
  by (simp_all add: record_event_def Let_def)

lemma bump_frame [simp]:
  "fs_limits (bump_state_generation s) = fs_limits s" "fs_now (bump_state_generation s) = fs_now s"
  "fs_coordinator_epoch (bump_state_generation s) = fs_coordinator_epoch s" "fs_snapshot_generation (bump_state_generation s) = fs_snapshot_generation s"
  "fs_policy_generation (bump_state_generation s) = fs_policy_generation s" "fs_policy (bump_state_generation s) = fs_policy s"
  "fs_ids (bump_state_generation s) = fs_ids s" "fs_accelerators (bump_state_generation s) = fs_accelerators s"
  "fs_ledgers (bump_state_generation s) = fs_ledgers s" "fs_stable_keys (bump_state_generation s) = fs_stable_keys s"
  "fs_key_index (bump_state_generation s) = fs_key_index s" "fs_profiles (bump_state_generation s) = fs_profiles s"
  "fs_partitions (bump_state_generation s) = fs_partitions s" "fs_plans (bump_state_generation s) = fs_plans s"
  "fs_reservations (bump_state_generation s) = fs_reservations s" "fs_attempts (bump_state_generation s) = fs_attempts s"
  "fs_assignments (bump_state_generation s) = fs_assignments s" "fs_workers (bump_state_generation s) = fs_workers s"
  "fs_accelerator_owner (bump_state_generation s) = fs_accelerator_owner s" "fs_evidence_generation (bump_state_generation s) = fs_evidence_generation s"
  "fs_events (bump_state_generation s) = fs_events s" "fs_event_sequence (bump_state_generation s) = fs_event_sequence s"
  "fs_instance_id (bump_state_generation s) = fs_instance_id s" "fs_opened_at_ms (bump_state_generation s) = fs_opened_at_ms s"
  "fs_closed (bump_state_generation s) = fs_closed s" "fs_closed_at_ms (bump_state_generation s) = fs_closed_at_ms s"
  by (simp_all add: bump_state_generation_def split: sum.split)

lemma transition_frame [simp]:
  "fs_limits (fst (transition_partition i to s)) = fs_limits s" "fs_now (fst (transition_partition i to s)) = fs_now s"
  "fs_coordinator_epoch (fst (transition_partition i to s)) = fs_coordinator_epoch s" "fs_state_generation (fst (transition_partition i to s)) = fs_state_generation s"
  "fs_snapshot_generation (fst (transition_partition i to s)) = fs_snapshot_generation s" "fs_policy_generation (fst (transition_partition i to s)) = fs_policy_generation s"
  "fs_policy (fst (transition_partition i to s)) = fs_policy s" "fs_ids (fst (transition_partition i to s)) = fs_ids s"
  "fs_accelerators (fst (transition_partition i to s)) = fs_accelerators s" "fs_stable_keys (fst (transition_partition i to s)) = fs_stable_keys s"
  "fs_key_index (fst (transition_partition i to s)) = fs_key_index s" "fs_profiles (fst (transition_partition i to s)) = fs_profiles s"
  "fs_plans (fst (transition_partition i to s)) = fs_plans s" "fs_reservations (fst (transition_partition i to s)) = fs_reservations s"
  "fs_attempts (fst (transition_partition i to s)) = fs_attempts s" "fs_assignments (fst (transition_partition i to s)) = fs_assignments s"
  "fs_workers (fst (transition_partition i to s)) = fs_workers s" "fs_accelerator_owner (fst (transition_partition i to s)) = fs_accelerator_owner s"
  "fs_evidence_generation (fst (transition_partition i to s)) = fs_evidence_generation s" "fs_events (fst (transition_partition i to s)) = fs_events s"
  "fs_event_sequence (fst (transition_partition i to s)) = fs_event_sequence s" "fs_instance_id (fst (transition_partition i to s)) = fs_instance_id s"
  "fs_opened_at_ms (fst (transition_partition i to s)) = fs_opened_at_ms s" "fs_closed (fst (transition_partition i to s)) = fs_closed s"
  "fs_closed_at_ms (fst (transition_partition i to s)) = fs_closed_at_ms s"
  by (simp_all add: transition_partition_def Let_def split: option.split sum.split prod.split)

subsection \<open>The event log is bounded\<close>

lemma trim_front_length: "length (trim_front n es) = min n (length es)"
  by (induction es) auto

lemma trim_front_suffix: "\<exists>pre. es = pre @ trim_front n es"
proof (induction es)
  case (Cons e es)
  then obtain pre where "es = pre @ trim_front n es" by blast
  then show ?case
    by (cases "length (e # es) > n") (auto intro: exI [of _ "e # pre"] exI [of _ "[]"])
qed simp

lemma record_event_bounded: "length (fs_events (record_event c s)) \<le> max_events (fs_limits s)"
  by (simp add: record_event_def Let_def trim_front_length)

lemma record_event_last:
  assumes "0 < max_events (fs_limits s)"
  shows "last (fs_events (record_event c s)) =
           \<lparr>ev_code = c, ev_at_ms = fs_now s, ev_sequence = fs_event_sequence s + 1\<rparr>"
proof -
  let ?es = "fs_events s @ [\<lparr>ev_code = c, ev_at_ms = fs_now s, ev_sequence = fs_event_sequence s + 1\<rparr>]"
  let ?t = "trim_front (max_events (fs_limits s)) ?es"
  obtain pre where "?es = pre @ ?t" using trim_front_suffix by blast
  moreover have "?t \<noteq> []" using assms by (simp add: length_greater_0_conv [symmetric] trim_front_length del: length_greater_0_conv)
  ultimately have "last ?t = last ?es" by (metis last_appendR)
  then show ?thesis by (simp add: record_event_def Let_def)
qed

lemma bump_generation: "fs_state_generation s \<le> fs_state_generation (bump_state_generation s)"
  by (auto simp: bump_state_generation_def split: sum.split dest: gen_next_greater)

subsection \<open>Evolution of the ledgers\<close>

text \<open>
  What every operation except registration promises about capacity: no ledger appears or
  disappears, no physical total changes, and balanced ledgers stay balanced.
\<close>

definition ledger_step :: "capacity_ledger \<Rightarrow> capacity_ledger \<Rightarrow> bool" where
  "ledger_step l l' \<longleftrightarrow> cl_total l' = cl_total l \<and> (ledger_balanced l \<longrightarrow> ledger_balanced l')"

definition ledgers_evolve :: "fabric_state \<Rightarrow> fabric_state \<Rightarrow> bool" where
  "ledgers_evolve s t \<longleftrightarrow> om_keys (fs_ledgers t) = om_keys (fs_ledgers s) \<and>
     (\<forall>k. rel_option ledger_step (find_ledger k s) (find_ledger k t))"

lemma ledger_step_refl [simp]: "ledger_step l l"
  by (simp add: ledger_step_def)

lemma ledger_step_trans: "ledger_step l m \<Longrightarrow> ledger_step m n \<Longrightarrow> ledger_step l n"
  by (simp add: ledger_step_def)

lemma ledgers_evolve_same [intro]: "fs_ledgers t = fs_ledgers s \<Longrightarrow> ledgers_evolve s t"
  by (auto simp: ledgers_evolve_def intro: option.rel_refl)

lemma ledgers_evolve_refl [simp]: "ledgers_evolve s s"
  by (rule ledgers_evolve_same) (rule refl)

lemma ledgers_evolve_trans [trans]:
  assumes "ledgers_evolve s t" "ledgers_evolve t u"
  shows "ledgers_evolve s u"
proof -
  have "transp (rel_option ledger_step)"
    by (intro option.rel_transp transpI) (rule ledger_step_trans)
  then show ?thesis using assms unfolding ledgers_evolve_def by (metis transpD)
qed

lemma ledgers_evolve_cong:
  "fs_ledgers t = fs_ledgers t' \<Longrightarrow> ledgers_evolve s t \<Longrightarrow> ledgers_evolve s t'"
  by (simp only: ledgers_evolve_def) simp

lemma ledgers_evolve_upd [intro]:
  assumes "find_ledger a s = Some l" "ledger_step l l'"
  shows "ledgers_evolve s (upd_ledger a l' s)"
  unfolding ledgers_evolve_def
proof (intro conjI allI)
  show "om_keys (fs_ledgers (upd_ledger a l' s)) = om_keys (fs_ledgers s)" by simp
next
  fix k
  show "rel_option ledger_step (find_ledger k s) (find_ledger k (upd_ledger a l' s))"
    using assms by (cases "k = a") (auto simp: apf_lookup intro: option.rel_refl)
qed

lemma ledgers_evolve_find:
  assumes "ledgers_evolve s t"
  shows "find_ledger k s = Some l \<Longrightarrow> \<exists>l'. find_ledger k t = Some l' \<and> ledger_step l l'"
    and "find_ledger k s = None \<Longrightarrow> find_ledger k t = None"
    and "find_ledger k t = Some l' \<Longrightarrow> \<exists>l. find_ledger k s = Some l \<and> ledger_step l l'"
  using conjunct2 [OF assms [unfolded ledgers_evolve_def], rule_format, of k]
  by (auto simp: option_rel_Some1 option_rel_Some2)

lemma ledger_step_closed: "ledger_step l l' \<Longrightarrow> ledger_closed l \<Longrightarrow> ledger_closed l'"
  by (simp add: ledger_step_def ledger_closed_def)

definition ledgers_balanced :: "fabric_state \<Rightarrow> bool" where
  "ledgers_balanced s \<longleftrightarrow> (\<forall>k l. find_ledger k s = Some l \<longrightarrow> ledger_balanced l)"

lemma ledgers_evolve_balanced:
  "ledgers_evolve s t \<Longrightarrow> ledgers_balanced s \<Longrightarrow> ledgers_balanced t"
  unfolding ledgers_balanced_def
proof (intro allI impI)
  fix k l'
  assume "ledgers_evolve s t" and bal: "\<forall>k l. find_ledger k s = Some l \<longrightarrow> ledger_balanced l"
    and "find_ledger k t = Some l'"
  then obtain l where "find_ledger k s = Some l" "ledger_step l l'"
    using ledgers_evolve_find(3) by blast
  with bal show "ledger_balanced l'" by (simp add: ledger_step_def)
qed

subsection \<open>Capacity transitions\<close>

lemma move_between_keeps:
  "move_between b c v l = (l', st) \<Longrightarrow> ledger_step l l'"
  unfolding ledger_step_def using between_op.op_balanced [of l b c v] between_op.op_total [of b c v l] by simp

lemma apply_capacity_keeps:
  "apply_capacity_transition l r to = ((l', r'), st) \<Longrightarrow> ledger_step l l'"
  by (auto simp: apply_capacity_transition_def Let_def split: if_splits option.splits prod.splits sum.splits
      dest: move_between_keeps)

lemma apply_capacity_record:
  "apply_capacity_transition l r to = ((l', r'), st) \<Longrightarrow> \<exists>h. r' = r\<lparr>pr_held_bucket := h\<rparr>"
proof -
  assume "apply_capacity_transition l r to = ((l', r'), st)"
  then have "r' = r \<or> r' = r\<lparr>pr_held_bucket := bucket_for_state to\<rparr>"
    by (auto simp: apply_capacity_transition_def Let_def simp del: partition_record.unfold_congs
        split: if_splits option.splits prod.splits sum.splits)
  moreover have "r = r\<lparr>pr_held_bucket := pr_held_bucket r\<rparr>" by simp
  ultimately show ?thesis by blast
qed

lemma apply_capacity_error:
  "apply_capacity_transition l r to = ((l', r'), Inl e) \<Longrightarrow> l' = l \<and> r' = r"
  by (auto simp: apply_capacity_transition_def Let_def split: if_splits option.splits prod.splits sum.splits
      dest: move_between_error)

text \<open>After a successful transition the record names the bucket the target state prescribes.\<close>

lemma apply_capacity_bucket:
  "apply_capacity_transition l r to = ((l', r'), Inr u) \<Longrightarrow>
     pr_held_bucket r' = (if state_keeps_current_bucket to then pr_held_bucket r else bucket_for_state to)"
  by (auto simp: apply_capacity_transition_def Let_def split: if_splits option.splits prod.splits sum.splits)

subsection \<open>Lifecycle transitions\<close>

lemma transition_ledgers [apf_inv]: "ledgers_evolve s (fst (transition_partition i to s))"
proof (cases "find_partition i s")
  case (Some r)
  show ?thesis
  proof (cases "find_ledger (pr_accelerator r) s")
    case None
    with Some show ?thesis by (auto simp: transition_partition_def split: sum.split)
  next
    case l: (Some l)
    obtain l' r' st where a: "apply_capacity_transition l r to = ((l', r'), st)"
      by (metis prod.exhaust)
    have "ledgers_evolve s (upd_ledger (pr_accelerator r) l' s)"
      using l a by (blast dest: apply_capacity_keeps)
    then have "ledgers_evolve s (upd_partition i f (upd_ledger (pr_accelerator r) l' s))" for f
      by (rule ledgers_evolve_cong [rotated]) simp
    with Some l a \<open>ledgers_evolve s (upd_ledger (pr_accelerator r) l' s)\<close> show ?thesis
      by (auto simp: transition_partition_def Let_def split: sum.split)
  qed
qed (simp add: transition_partition_def)

lemma transition_other_partition [simp]:
  "j \<noteq> i \<Longrightarrow> find_partition j (fst (transition_partition i to s)) = find_partition j s"
  by (auto simp: transition_partition_def Let_def apf_lookup split: option.split sum.split prod.split)

lemma transition_partition_keys [simp]:
  "om_keys (fs_partitions (fst (transition_partition i to s))) = om_keys (fs_partitions s)"
  by (auto simp: transition_partition_def Let_def split: option.split sum.split prod.split)

text \<open>A transition changes the state, the bucket and the transition time of one record.\<close>

lemma transition_record:
  assumes "find_partition i s = Some r"
  shows "\<exists>st h t. find_partition i (fst (transition_partition i to s)) =
           Some (r\<lparr>pr_state := st, pr_held_bucket := h, pr_last_transition_at_ms := t\<rparr>) \<and>
           (st = pr_state r \<or> st = to \<and> validate_transition (pr_state r) to = success)"
proof -
  have same: ?thesis if "find_partition i (fst (transition_partition i to s)) = Some r"
    using that
    by (intro exI [of _ "pr_state r"] exI [of _ "pr_held_bucket r"] exI [of _ "pr_last_transition_at_ms r"]) simp
  show ?thesis
  proof (cases "validate_transition (pr_state r) to = success \<and> pr_state r \<noteq> to \<and>
                find_ledger (pr_accelerator r) s \<noteq> None")
    case False
    with assms show ?thesis
      by (intro same) (auto simp: transition_partition_def split: sum.split)
  next
    case True
    then obtain l l' r' st where l: "find_ledger (pr_accelerator r) s = Some l"
      and a: "apply_capacity_transition l r to = ((l', r'), st)"
      by (metis option.exhaust prod.exhaust)
    obtain h where r': "r' = r\<lparr>pr_held_bucket := h\<rparr>" using apply_capacity_record [OF a] by blast
    show ?thesis
    proof (cases st)
      case (Inl e)
      with True assms l a show ?thesis by (intro same) (simp add: transition_partition_def)
    next
      case st: (Inr v)
      have "find_partition i (fst (transition_partition i to s)) =
          Some (r'\<lparr>pr_state := to, pr_last_transition_at_ms := fs_now s\<rparr>)"
        using True assms l a st
        by (auto simp: transition_partition_def Let_def apf_lookup split: sum.split)
      with r' True show ?thesis
        by (intro exI [of _ to] exI [of _ h] exI [of _ "fs_now s"]) simp
    qed
  qed
qed

lemma transition_success:
  assumes "transition_partition i to s = (s', success)" "find_partition i s = Some r" "pr_state r \<noteq> to"
  shows "\<exists>r' l'. find_partition i s' = Some r' \<and> pr_state r' = to \<and> partition_validate r' = success \<and>
           pr_held_bucket r' = (if state_keeps_current_bucket to then pr_held_bucket r else bucket_for_state to) \<and>
           find_ledger (pr_accelerator r) s' = Some l' \<and> ledger_validate l' = success \<and>
           validate_transition (pr_state r) to = success"
  using assms
  by (auto simp: transition_partition_def Let_def apf_lookup split: option.splits sum.splits prod.splits
      dest: apply_capacity_bucket)

lemma transition_illegal:
  "find_partition i s = Some r \<Longrightarrow> validate_transition (pr_state r) to = Inl e \<Longrightarrow>
     transition_partition i to s = (s, Inl e)"
  by (simp add: transition_partition_def)

subsection \<open>Plan bindings\<close>

lemma layout_scan_spec:
  "layout_scan a layout rs n =
     (if \<forall>r\<in>set rs. layout_relevant a r \<longrightarrow> (pr_id r, pr_generation r) \<in> set layout
      then Inr (n + length (filter (layout_relevant a) rs)) else Inl E_StalePlan)"
proof (induction rs arbitrary: n)
  case (Cons r rs)
  have "(\<exists>b\<in>set layout. fst b = pr_id r \<and> snd b = pr_generation r) \<longleftrightarrow> (pr_id r, pr_generation r) \<in> set layout"
    by force
  then show ?case by (auto simp: Cons.IH)
qed simp

theorem validate_plan_binding_iff:
  "validate_plan_binding s p now fresh = success \<longleftrightarrow>
     pb_policy_generation (pl_binding p) = fs_policy_generation s \<and> \<not> pl_terminal p \<and>
     \<not> expired_at (pl_binding p) now \<and> id_valid (pb_accelerator (pl_binding p)) \<and>
     (\<exists>a. find_accelerator (pb_accelerator (pl_binding p)) s = Some a \<and>
          ac_generation a = pb_accelerator_generation (pl_binding p) \<and>
          ac_boot_id a = pb_accelerator_boot (pl_binding p) \<and>
          cap_generation (ac_capability a) = pb_capability_generation (pl_binding p) \<and>
          (fresh \<longrightarrow> is_fresh_at (ac_evidence a) now)) \<and>
     (\<forall>r\<in>set (om_values (fs_partitions s)). layout_relevant (pb_accelerator (pl_binding p)) r \<longrightarrow>
        (pr_id r, pr_generation r) \<in> set (pb_layout (pl_binding p))) \<and>
     length (filter (layout_relevant (pb_accelerator (pl_binding p))) (om_values (fs_partitions s))) =
       length (pb_layout (pl_binding p))"
  by (auto simp: validate_plan_binding_def layout_scan_spec split: option.splits if_splits)

subsection \<open>Evidence and pruning\<close>

lemma ensure_evidence_observed:
  "gen_known g \<Longrightarrow> is_observed (ensure_evidence e p src ttl now g)"
  by (auto simp: ensure_evidence_def is_observed_def)

lemma ensure_evidence_provenance:
  "es_provenance e \<noteq> Provenance_Unknown \<Longrightarrow> es_provenance (ensure_evidence e p src ttl now g) = es_provenance e"
  by (simp add: ensure_evidence_def)

lemma prune_keeps:
  "(k, v) \<in> set m \<Longrightarrow> \<not> drop_it v \<Longrightarrow> (k, v) \<in> set (prune b drop_it m n)"
  by (induction b drop_it m n rule: prune.induct) auto

lemma prune_subset: "set (prune b drop_it m n) \<subseteq> set m"
  by (induction b drop_it m n rule: prune.induct) auto

lemma prune_small: "n \<le> b \<Longrightarrow> prune b drop_it m n = m"
  by (cases m) (auto simp: prune.simps)

lemma prune_sorted: "om_sorted m \<Longrightarrow> om_sorted (prune b drop_it m n)"
proof (induction b drop_it m n rule: prune.induct)
  case (2 b drop_it k v m n)
  have "om_sorted m" "\<forall>e\<in>set m. k < fst e" using 2(3) by (auto simp: om_sorted_def)
  moreover from this have "\<forall>e\<in>set (prune b drop_it m n). k < fst e"
    using prune_subset [of b drop_it m n] by blast
  ultimately show ?case
    using 2 by (simp add: om_sorted_def)
qed simp

section \<open>Evolution of authority\<close>

text \<open>
  What every operation promises about authority. A partition keeps its identity and device,
  its generation never goes back, its superseded generations are only appended to, and a
  retired partition stays retired. A terminal reservation stays terminal and a settled
  attempt keeps its outcome. No counter goes back and the limits are fixed.
\<close>

definition partition_step :: "partition_record \<Rightarrow> partition_record \<Rightarrow> bool" where
  "partition_step r r' \<longleftrightarrow>
     pr_id r' = pr_id r \<and> pr_accelerator r' = pr_accelerator r \<and>
     pr_generation r \<le> pr_generation r' \<and>
     (\<exists>gs. pr_superseded_generations r' = pr_superseded_generations r @ gs) \<and>
     (pr_state r = PS_Retired \<longrightarrow> pr_state r' = PS_Retired)"

definition reservation_step :: "partition_reservation \<Rightarrow> partition_reservation \<Rightarrow> bool" where
  "reservation_step r r' \<longleftrightarrow>
     rs_id r' = rs_id r \<and>
     (reservation_is_terminal (rs_lifecycle r) \<longrightarrow> reservation_is_terminal (rs_lifecycle r'))"

definition attempt_step :: "partition_attempt \<Rightarrow> partition_attempt \<Rightarrow> bool" where
  "attempt_step a a' \<longleftrightarrow>
     at_id a' = at_id a \<and> (attempt_settled (at_state a) \<longrightarrow> at_state a' = at_state a)"

definition keeps :: "('v \<Rightarrow> 'v \<Rightarrow> bool) \<Rightarrow> ('k, 'v) omap \<Rightarrow> ('k, 'v) omap \<Rightarrow> bool" where
  "keeps R m m' \<longleftrightarrow> (\<forall>k v. om_find k m = Some v \<longrightarrow> (\<exists>v'. om_find k m' = Some v' \<and> R v v'))"

definition counters_advance :: "fabric_state \<Rightarrow> fabric_state \<Rightarrow> bool" where
  "counters_advance s t \<longleftrightarrow>
     fs_limits t = fs_limits s \<and>
     fs_coordinator_epoch s \<le> fs_coordinator_epoch t \<and>
     fs_state_generation s \<le> fs_state_generation t \<and>
     fs_policy_generation s \<le> fs_policy_generation t \<and>
     fs_evidence_generation s \<le> fs_evidence_generation t \<and>
     ida_next (fs_ids s) \<le> ida_next (fs_ids t)"

text \<open>The keys in use, and that new keys come from the allocator.\<close>

definition used_ids :: "fabric_state \<Rightarrow> u64 set" where
  "used_ids s =
     set (om_keys (fs_partitions s)) \<union> set (om_keys (fs_reservations s)) \<union> set (om_keys (fs_attempts s))"

definition ids_allocated :: "fabric_state \<Rightarrow> fabric_state \<Rightarrow> bool" where
  "ids_allocated s t \<longleftrightarrow>
     (\<forall>k\<in>used_ids t. k \<in> used_ids s \<or> ida_next (fs_ids s) \<le> k \<and> k < ida_next (fs_ids t))"

definition authority_evolves :: "fabric_state \<Rightarrow> fabric_state \<Rightarrow> bool" where
  "authority_evolves s t \<longleftrightarrow>
     keeps partition_step (fs_partitions s) (fs_partitions t) \<and>
     keeps reservation_step (fs_reservations s) (fs_reservations t) \<and>
     keeps attempt_step (fs_attempts s) (fs_attempts t) \<and>
     counters_advance s t \<and> ids_allocated s t"

lemma partition_step_refl [simp]: "partition_step r r"
  by (simp add: partition_step_def)

lemma partition_step_trans: "partition_step r r' \<Longrightarrow> partition_step r' r'' \<Longrightarrow> partition_step r r''"
  by (auto simp: partition_step_def)

lemma reservation_step_refl [simp]: "reservation_step r r"
  by (simp add: reservation_step_def)

lemma reservation_step_trans: "reservation_step r r' \<Longrightarrow> reservation_step r' r'' \<Longrightarrow> reservation_step r r''"
  by (auto simp: reservation_step_def)

lemma attempt_step_refl [simp]: "attempt_step a a"
  by (simp add: attempt_step_def)

lemma attempt_step_trans: "attempt_step a a' \<Longrightarrow> attempt_step a' a'' \<Longrightarrow> attempt_step a a''"
  by (auto simp: attempt_step_def)

text \<open>The contract of a relation that bounds how a registry entry may change.\<close>

locale entry_evolution =
  fixes R :: "'v \<Rightarrow> 'v \<Rightarrow> bool"
  assumes R_refl: "R v v" and R_trans: "R u v \<Longrightarrow> R v w \<Longrightarrow> R u w"
begin

lemma keeps_refl: "keeps R m m"
  by (auto simp: keeps_def intro: R_refl)

lemma keeps_trans: "keeps R m m' \<Longrightarrow> keeps R m' m'' \<Longrightarrow> keeps R m m''"
  unfolding keeps_def by (meson R_trans)

lemma keeps_modify: "(\<And>v. om_find k m = Some v \<Longrightarrow> R v (f v)) \<Longrightarrow> keeps R m (om_modify k f m)"
  by (auto simp: keeps_def apf_lookup intro: R_refl)

lemma keeps_map: "(\<And>v. R v (f v)) \<Longrightarrow> keeps R m (om_map f m)"
  by (auto simp: keeps_def apf_lookup)

lemma keeps_fresh: "om_find k m = None \<Longrightarrow> keeps R m (om_set k v m)"
  by (auto simp: keeps_def apf_lookup intro: R_refl)

lemma keeps_loop:
  assumes "\<And>k s. keeps R (g s) (g (body k s))"
  shows "keeps R (g s) (g (for_keys ks body s))"
proof (induction ks arbitrary: s)
  case Nil
  then show ?case by (simp add: keeps_refl)
next
  case (Cons k ks)
  show ?case using keeps_trans [OF assms Cons.IH, of s k] by simp
qed

end

interpretation partition_evo: entry_evolution partition_step
  by unfold_locales (auto intro: partition_step_trans)

interpretation reservation_evo: entry_evolution reservation_step
  by unfold_locales (auto intro: reservation_step_trans)

interpretation attempt_evo: entry_evolution attempt_step
  by unfold_locales (auto intro: attempt_step_trans)

lemmas keeps_refls = partition_evo.keeps_refl reservation_evo.keeps_refl attempt_evo.keeps_refl

lemma counters_advance_refl [simp]: "counters_advance s s"
  by (simp add: counters_advance_def)

lemma counters_advance_trans: "counters_advance s t \<Longrightarrow> counters_advance t u \<Longrightarrow> counters_advance s u"
  by (auto simp: counters_advance_def)

lemma ids_allocated_refl [simp]: "ids_allocated s s"
  by (simp add: ids_allocated_def)

lemma ids_allocated_same: "used_ids t \<subseteq> used_ids s \<Longrightarrow> ids_allocated s t"
  by (auto simp: ids_allocated_def)

lemma ids_allocated_trans:
  assumes "ids_allocated s t" "ids_allocated t u" "counters_advance s t" "counters_advance t u"
  shows "ids_allocated s u"
  unfolding ids_allocated_def
proof
  fix k assume "k \<in> used_ids u"
  then consider "k \<in> used_ids t" | "ida_next (fs_ids t) \<le> k" "k < ida_next (fs_ids u)"
    using assms(2) by (auto simp: ids_allocated_def)
  then show "k \<in> used_ids s \<or> ida_next (fs_ids s) \<le> k \<and> k < ida_next (fs_ids u)"
    using assms by cases (auto simp: ids_allocated_def counters_advance_def intro: less_le_trans order_trans)
qed

lemma authority_evolves_refl [simp]: "authority_evolves s s"
  by (simp add: authority_evolves_def keeps_refls)

lemma authority_evolves_trans [trans]:
  "authority_evolves s t \<Longrightarrow> authority_evolves t u \<Longrightarrow> authority_evolves s u"
  unfolding authority_evolves_def
  by (meson partition_evo.keeps_trans reservation_evo.keeps_trans attempt_evo.keeps_trans counters_advance_trans
      ids_allocated_trans)

lemma authority_evolves_same [intro]:
  assumes "fs_partitions t = fs_partitions s" "fs_reservations t = fs_reservations s"
    "fs_attempts t = fs_attempts s" "counters_advance s t"
  shows "authority_evolves s t"
  using assms by (simp add: authority_evolves_def keeps_refls ids_allocated_same used_ids_def)

lemma authority_evolves_partition:
  "(\<And>r. find_partition i s = Some r \<Longrightarrow> partition_step r (f r)) \<Longrightarrow> authority_evolves s (upd_partition i f s)"
  by (simp add: authority_evolves_def keeps_refls partition_evo.keeps_modify counters_advance_def
      ids_allocated_same used_ids_def)

lemma authority_evolves_reservation:
  "(\<And>r. find_reservation i s = Some r \<Longrightarrow> reservation_step r (f r)) \<Longrightarrow> authority_evolves s (upd_reservation i f s)"
  by (simp add: authority_evolves_def keeps_refls reservation_evo.keeps_modify counters_advance_def
      ids_allocated_same used_ids_def)

lemma authority_evolves_attempt:
  "(\<And>a. find_attempt i s = Some a \<Longrightarrow> attempt_step a (f a)) \<Longrightarrow> authority_evolves s (upd_attempt i f s)"
  by (simp add: authority_evolves_def keeps_refls attempt_evo.keeps_modify counters_advance_def
      ids_allocated_same used_ids_def)

lemma authority_evolves_ledger [simp]: "authority_evolves s (upd_ledger a l s)"
  by (rule authority_evolves_same) (simp_all add: counters_advance_def)

lemma authority_evolves_event [simp]: "authority_evolves s (record_event c s)"
  by (rule authority_evolves_same) (simp_all add: counters_advance_def)

lemma authority_evolves_bump [simp]: "authority_evolves s (bump_state_generation s)"
  by (rule authority_evolves_same) (simp_all add: counters_advance_def bump_generation)

lemma authority_evolves_loop:
  assumes "\<And>k s. authority_evolves s (body k s)"
  shows "authority_evolves s (for_keys ks body s)"
proof (induction ks arbitrary: s)
  case (Cons k ks)
  show ?case using authority_evolves_trans [OF assms Cons.IH, of s k] by simp
qed simp

lemma ledgers_evolve_loop:
  assumes "\<And>k s. ledgers_evolve s (body k s)"
  shows "ledgers_evolve s (for_keys ks body s)"
proof (induction ks arbitrary: s)
  case (Cons k ks)
  show ?case using ledgers_evolve_trans [OF assms Cons.IH, of s k] by simp
qed simp

lemma transition_authority [simp]: "authority_evolves s (fst (transition_partition i to s))"
proof (cases "find_partition i s")
  case None
  then show ?thesis by (simp add: transition_partition_def)
next
  case (Some r)
  obtain st h t where r': "find_partition i (fst (transition_partition i to s)) =
      Some (r\<lparr>pr_state := st, pr_held_bucket := h, pr_last_transition_at_ms := t\<rparr>)"
    "st = pr_state r \<or> st = to \<and> validate_transition (pr_state r) to = success"
    using transition_record [OF Some] by blast
  have "pr_state r = PS_Retired \<longrightarrow> st = PS_Retired"
    using r'(2) retired_stays by (auto simp: lifecycle_step_iff)
  then have "partition_step r (r\<lparr>pr_state := st, pr_held_bucket := h, pr_last_transition_at_ms := t\<rparr>)"
    by (simp add: partition_step_def)
  then have "keeps partition_step (fs_partitions s) (fs_partitions (fst (transition_partition i to s)))"
    unfolding keeps_def
  proof (intro allI impI)
    fix k v assume "find_partition k s = Some v"
    then show "\<exists>v'. find_partition k (fst (transition_partition i to s)) = Some v' \<and> partition_step v v'"
      using Some r'(1) \<open>partition_step r _\<close> by (cases "k = i") auto
  qed
  then show ?thesis
    by (simp add: authority_evolves_def keeps_refls counters_advance_def ids_allocated_same used_ids_def)
qed

text \<open>Identities come from one allocator: a fresh identity is above every key in use.\<close>

definition ids_fresh :: "fabric_state \<Rightarrow> bool" where
  "ids_fresh s \<longleftrightarrow> (\<forall>k\<in>used_ids s. k < ida_next (fs_ids s))"

lemma ids_fresh_evolves [apf_inv]:
  assumes "authority_evolves s t" "ids_fresh s"
  shows "ids_fresh t"
  unfolding ids_fresh_def
proof
  fix k assume "k \<in> used_ids t"
  then have "k \<in> used_ids s \<or> k < ida_next (fs_ids t)"
    using assms(1) by (auto simp: authority_evolves_def ids_allocated_def)
  moreover have "ida_next (fs_ids s) \<le> ida_next (fs_ids t)"
    using assms(1) by (simp add: authority_evolves_def counters_advance_def)
  ultimately show "k < ida_next (fs_ids t)"
    using assms(2) by (auto simp: ids_fresh_def intro: less_le_trans)
qed

end
