(* ===== verification/APF_Authority.thy ===== *)
theory APF_Authority
  imports APF_State
begin

text \<open>
  Authority operations of \<^verbatim>\<open>src/fabric.cpp\<close>: superseding a partition generation, releasing and
  fencing reservations, fencing workers, coordinator epochs, worker registration, policy
  changes, and closing and reopening the instance.
\<close>

section \<open>Generations and evidence of a partition\<close>

definition supersede_partition_generation :: "partition_id \<Rightarrow> fabric_state \<Rightarrow> fabric_state" where
  "supersede_partition_generation i s =
     (case find_partition i s of
        None \<Rightarrow> s
      | Some r \<Rightarrow>
          (let s1 = (if gen_known (pr_generation r)
                     then upd_partition i
                            (\<lambda>r. r\<lparr>pr_superseded_generations :=
                                    pr_superseded_generations r @ [pr_generation r]\<rparr>) s
                     else s)
           in (case gen_next (pr_generation r) of
                 Inr g \<Rightarrow> upd_partition i (\<lambda>r. r\<lparr>pr_generation := g\<rparr>) s1
               | Inl _ \<Rightarrow> record_event EX_StalePartitionGenerationRejected s1)))"

text \<open>
  \<^verbatim>\<open>stamp_partition_evidence\<close> advances the evidence generation of the instance and stamps a
  record with it; the record may or may not be in the registry yet.
\<close>

definition advance_evidence :: "fabric_state \<Rightarrow> fabric_state" where
  "advance_evidence s =
     (case gen_next (fs_evidence_generation s) of
        Inr g \<Rightarrow> s\<lparr>fs_evidence_generation := g\<rparr>
      | Inl _ \<Rightarrow> s)"

definition stamp_record ::
  "fabric_state \<Rightarrow> accelerator_record \<Rightarrow> u64 \<Rightarrow> evidence_provenance \<Rightarrow> string \<Rightarrow> partition_record \<Rightarrow> partition_record" where
  "stamp_record s a now_ms provenance source r =
     r\<lparr>pr_evidence :=
         \<lparr>es_generation = fs_evidence_generation s, es_provenance = provenance,
          es_observed_at_ms = now_ms, es_ttl_ms = evidence_window s,
          es_source = (if source = [] then ac_backend a else source), es_observed = True\<rparr>,
       pr_provenance := provenance\<rparr>"

definition stamp_partition_evidence ::
  "partition_id \<Rightarrow> accelerator_record \<Rightarrow> u64 \<Rightarrow> evidence_provenance \<Rightarrow> string \<Rightarrow> fabric_state \<Rightarrow> fabric_state" where
  "stamp_partition_evidence i a now_ms provenance source s =
     (let s1 = advance_evidence s in upd_partition i (stamp_record s1 a now_ms provenance source) s1)"

section \<open>Releasing and fencing reservations\<close>

text \<open>A partition that may already exist physically: it holds capacity and left Reserved.\<close>

definition beyond_reserved :: "fabric_state \<Rightarrow> partition_id \<Rightarrow> bool" where
  "beyond_reserved s i =
     (case find_partition i s of
        None \<Rightarrow> False
      | Some r \<Rightarrow> pr_held_bucket r \<noteq> None \<and> pr_state r \<noteq> PS_Reserved)"

text \<open>Drop the bucket, supersede the generation and retire the record, in this order.\<close>

definition retire_partition :: "u64 \<Rightarrow> partition_id \<Rightarrow> fabric_state \<Rightarrow> fabric_state" where
  "retire_partition now_ms i s =
     upd_partition i (\<lambda>r. r\<lparr>pr_state := PS_Retired, pr_last_transition_at_ms := now_ms\<rparr>)
       (supersede_partition_generation i (upd_partition i (\<lambda>r. r\<lparr>pr_held_bucket := None\<rparr>) s))"

definition release_retire :: "u64 \<Rightarrow> partition_id \<Rightarrow> fabric_state \<Rightarrow> fabric_state" where
  "release_retire now_ms i s =
     (case find_partition i s of
        None \<Rightarrow> s
      | Some r \<Rightarrow>
          if pr_state r = PS_Reserved \<and> pr_held_bucket r \<noteq> None then retire_partition now_ms i s
          else s)"

definition release_reservation_locked ::
  "reservation_id \<Rightarrow> partition_reservation \<Rightarrow> u64 \<Rightarrow> fabric_state \<Rightarrow> fabric_state \<times> status" where
  "release_reservation_locked i r now_ms s =
     (if reservation_is_terminal (rs_lifecycle r) then (s, failure E_StaleReservation)
      else
        (case find_ledger (rs_accelerator r) s of
           None \<Rightarrow> (s, failure E_CorruptState)
         | Some l \<Rightarrow>
             (if \<exists>p\<in>set (rs_partitions r). beyond_reserved s p
              then (s, failure E_ReconciliationRequired)
              else
                (case ledger_release_reserved (rs_resources r) l of
                   (l', Inl e) \<Rightarrow> (upd_ledger (rs_accelerator r) l' s, Inl e)
                 | (l', Inr _) \<Rightarrow>
                     (let s1 = upd_ledger (rs_accelerator r) l' s;
                          s2 = for_keys (rs_partitions r) (release_retire now_ms) s1;
                          s3 = upd_reservation i
                                 (\<lambda>r. r\<lparr>rs_lifecycle := RL_Released, rs_updated_at_ms := now_ms\<rparr>) s2
                      in (record_event EX_ReleaseAccepted (bump_state_generation s3), success))))))"

definition fence_retire :: "u64 \<Rightarrow> partition_id \<Rightarrow> fabric_state \<Rightarrow> fabric_state" where
  "fence_retire now_ms i s =
     (case find_partition i s of
        None \<Rightarrow> s
      | Some r \<Rightarrow> retire_partition now_ms i s)"

definition finish_fence :: "reservation_id \<Rightarrow> u64 \<Rightarrow> fabric_state \<Rightarrow> fabric_state" where
  "finish_fence i now_ms s =
     record_event EX_StaleReservationRejected
       (bump_state_generation
          (upd_reservation i (\<lambda>r. r\<lparr>rs_lifecycle := RL_Fenced, rs_updated_at_ms := now_ms\<rparr>) s))"

definition fence_reservation_locked ::
  "reservation_id \<Rightarrow> partition_reservation \<Rightarrow> u64 \<Rightarrow> fabric_state \<Rightarrow> fabric_state \<times> status" where
  "fence_reservation_locked i r now_ms s =
     (if reservation_is_terminal (rs_lifecycle r) then (s, failure E_StaleReservation)
      else
        (let partitions_hold = (\<exists>p\<in>set (rs_partitions r). beyond_reserved s p) in
         (case find_ledger (rs_accelerator r) s of
            Some l \<Rightarrow>
              (if partitions_hold then (finish_fence i now_ms s, success)
               else
                 (case ledger_release_reserved (rs_resources r) l of
                    (l', Inl e) \<Rightarrow> (upd_ledger (rs_accelerator r) l' s, Inl e)
                  | (l', Inr _) \<Rightarrow>
                      (finish_fence i now_ms
                         (for_keys (rs_partitions r) (fence_retire now_ms)
                            (upd_ledger (rs_accelerator r) l' s)), success)))
          | None \<Rightarrow> (finish_fence i now_ms s, success))))"

definition release_reservation :: "reservation_id \<Rightarrow> fabric_state \<Rightarrow> fabric_state \<times> status" where
  "release_reservation i s =
     (case find_reservation i s of
        None \<Rightarrow> (s, failure E_NotFound)
      | Some r \<Rightarrow> release_reservation_locked i r (fs_now s) s)"

definition fence_reservation :: "reservation_id \<Rightarrow> fabric_state \<Rightarrow> fabric_state \<times> status" where
  "fence_reservation i s =
     (case find_reservation i s of
        None \<Rightarrow> (s, failure E_NotFound)
      | Some r \<Rightarrow> fence_reservation_locked i r (fs_now s) s)"

section \<open>Attempts whose outcome is no longer known\<close>

definition revalidate_partition :: "partition_id \<Rightarrow> fabric_state \<Rightarrow> fabric_state" where
  "revalidate_partition i s =
     (case find_partition i s of
        None \<Rightarrow> s
      | Some r \<Rightarrow>
          if pr_state r \<noteq> PS_RevalidationRequired
          then fst (transition_partition i PS_RevalidationRequired s) else s)"

text \<open>
  The loops over the attempts in \<^verbatim>\<open>fence_worker_locked\<close> and \<^verbatim>\<open>advance_coordinator_epoch\<close>: an
  unsettled attempt selected by the condition becomes an explicit unknown outcome and its
  partitions require revalidation.
\<close>

definition classify_attempt ::
  "(partition_attempt \<Rightarrow> bool) \<Rightarrow> explanation_code \<Rightarrow> u64 \<Rightarrow> attempt_id \<Rightarrow> fabric_state \<Rightarrow> fabric_state" where
  "classify_attempt selected code now_ms i s =
     (case find_attempt i s of
        None \<Rightarrow> s
      | Some a \<Rightarrow>
          if attempt_settled (at_state a) then s
          else if selected a
          then record_event code
                 (for_keys (at_partitions a) revalidate_partition
                    (upd_attempt i
                       (\<lambda>a. a\<lparr>at_state := AT_OutcomeUnknown, at_settled_at_ms := now_ms\<rparr>) s))
          else s)"

definition fence_reservation_if ::
  "(partition_reservation \<Rightarrow> bool) \<Rightarrow> u64 \<Rightarrow> reservation_id \<Rightarrow> fabric_state \<Rightarrow> fabric_state" where
  "fence_reservation_if selected now_ms i s =
     (case find_reservation i s of
        None \<Rightarrow> s
      | Some r \<Rightarrow>
          if reservation_is_terminal (rs_lifecycle r) then s
          else if selected r then fst (fence_reservation_locked i r now_ms s)
          else s)"

definition fence_worker_locked ::
  "worker_id \<Rightarrow> boot_id \<Rightarrow> u64 \<Rightarrow> fabric_state \<Rightarrow> fabric_state \<times> status" where
  "fence_worker_locked worker boot now_ms s =
     (case find_worker worker s of
        None \<Rightarrow> (s, failure E_NotFound)
      | Some w \<Rightarrow>
          (if wk_boot w \<noteq> boot then (record_event EX_StaleWorkerRejected s, success)
           else
             (let s1 = upd_worker worker
                         (\<lambda>w. w\<lparr>wk_fenced := True, wk_alive := False, wk_fenced_at_ms := now_ms\<rparr>) s;
                  s2 = for_keys (om_keys (fs_reservations s1))
                         (fence_reservation_if (\<lambda>r. is_worker_bound r worker boot) now_ms) s1;
                  s3 = for_keys (om_keys (fs_attempts s2))
                         (classify_attempt (\<lambda>a. at_worker a = worker \<and> at_worker_boot a = boot)
                            EX_OutcomeUnknown now_ms) s2
              in (record_event EX_WorkerFenced (bump_state_generation s3), success))))"

definition fence_worker :: "worker_id \<Rightarrow> boot_id \<Rightarrow> fabric_state \<Rightarrow> fabric_state \<times> status" where
  "fence_worker worker boot s = fence_worker_locked worker boot (fs_now s) s"

section \<open>Workers and coordinator epochs\<close>

definition note_worker :: "worker_record \<Rightarrow> fabric_state \<Rightarrow> fabric_state \<times> status" where
  "note_worker w s =
     (if \<not> id_valid (wk_id w) \<or> \<not> boot_valid (wk_boot w) then (s, failure E_InvalidArgument)
      else if find_worker (wk_id w) s = None \<and> length (fs_workers s) \<ge> max_workers (fs_limits s)
      then (s, failure E_LimitExceeded)
      else
        (let s1 = (case find_worker (wk_id w) s of
                     None \<Rightarrow> s
                   | Some old \<Rightarrow>
                       if wk_boot old \<noteq> wk_boot w
                       then fst (fence_worker_locked (wk_id w) (wk_boot old) (fs_now s)
                              (record_event EX_WorkerFenced
                                (upd_worker (wk_id w)
                                  (\<lambda>o'. o'\<lparr>wk_fenced := True, wk_alive := False,
                                          wk_fenced_at_ms := fs_now s\<rparr>) s)))
                       else s);
             stored = w\<lparr>wk_coordinator_epoch := fs_coordinator_epoch s1\<rparr>;
             s2 = s1\<lparr>fs_workers := om_set (wk_id stored) stored (fs_workers s1)\<rparr>
         in (record_event EX_RankingFactor (bump_state_generation s2), success)))"

definition note_worker_seen :: "worker_id \<Rightarrow> boot_id \<Rightarrow> u64 \<Rightarrow> fabric_state \<Rightarrow> fabric_state \<times> status" where
  "note_worker_seen worker boot at_ms s =
     (case find_worker worker s of
        None \<Rightarrow> (s, failure E_NotFound)
      | Some w \<Rightarrow>
          if wk_boot w \<noteq> boot then (s, failure E_StaleWorker)
          else (upd_worker worker (\<lambda>w. w\<lparr>wk_last_seen_ms := at_ms, wk_alive := True\<rparr>) s, success))"

definition allocate_worker_id :: "fabric_state \<Rightarrow> fabric_state \<times> worker_id result" where
  "allocate_worker_id s = (case allocate (fs_ids s) of (a, r) \<Rightarrow> (s\<lparr>fs_ids := a\<rparr>, r))"

definition bind_accelerator_worker ::
  "accelerator_id \<Rightarrow> worker_id \<Rightarrow> boot_id \<Rightarrow> fabric_state \<Rightarrow> fabric_state \<times> status" where
  "bind_accelerator_worker a worker boot s =
     (case find_worker worker s of
        None \<Rightarrow> (s, failure E_StaleWorker)
      | Some w \<Rightarrow>
          if wk_boot w \<noteq> boot then (s, failure E_StaleWorker)
          else if wk_fenced w then (s, failure E_Fenced)
          else if find_accelerator a s = None then (s, failure E_NotFound)
          else (s\<lparr>fs_accelerator_owner := om_set a w (fs_accelerator_owner s)\<rparr>, success))"

definition advance_coordinator_epoch :: "fabric_state \<Rightarrow> fabric_state \<times> generation result" where
  "advance_coordinator_epoch s =
     (case gen_next (fs_coordinator_epoch s) of
        Inl e \<Rightarrow> (s, Inl e)
      | Inr epoch \<Rightarrow>
          (let s1 = s\<lparr>fs_coordinator_epoch := epoch\<rparr>;
               s2 = for_keys (om_keys (fs_reservations s1))
                      (fence_reservation_if (\<lambda>r. rs_coordinator_epoch r \<noteq> epoch) (fs_now s)) s1;
               s3 = for_keys (om_keys (fs_attempts s2))
                      (classify_attempt (\<lambda>a. at_coordinator_epoch a \<noteq> epoch) EX_StaleEpochRejected (fs_now s)) s2;
               s4 = s3\<lparr>fs_workers := om_map (\<lambda>w. if wk_coordinator_epoch w \<noteq> epoch
                                               then w\<lparr>wk_alive := False\<rparr> else w) (fs_workers s3)\<rparr>
           in (record_event EX_StaleEpochRejected (bump_state_generation s4), Inr epoch)))"

definition install_coordinator_epoch :: "generation \<Rightarrow> fabric_state \<Rightarrow> fabric_state \<times> status" where
  "install_coordinator_epoch epoch s =
     (if epoch < fs_coordinator_epoch s then (s, failure E_GenerationRegression)
      else (bump_state_generation (s\<lparr>fs_coordinator_epoch := epoch\<rparr>), success))"

section \<open>Policy, health and evidence\<close>

definition set_policy :: "planning_policy \<Rightarrow> fabric_state \<Rightarrow> fabric_state \<times> status" where
  "set_policy p s =
     (case policy_validate p of
        Inl e \<Rightarrow> (s, Inl e)
      | Inr _ \<Rightarrow>
          (case gen_next (fs_policy_generation s) of
             Inl e \<Rightarrow> (s, Inl e)
           | Inr g \<Rightarrow>
               (let s1 = s\<lparr>fs_policy := p\<lparr>pp_generation := g\<rparr>, fs_policy_generation := g\<rparr>;
                    s2 = s1\<lparr>fs_plans := om_map (\<lambda>q. if pb_policy_generation (pl_binding q) \<noteq> g
                                                    then q\<lparr>pl_terminal := True\<rparr> else q) (fs_plans s1)\<rparr>
                in (record_event EX_PolicyGenerationChanged (bump_state_generation s2), success))))"

definition update_health :: "accelerator_id \<Rightarrow> health_evidence \<Rightarrow> fabric_state \<Rightarrow> fabric_state \<times> status" where
  "update_health i h s =
     (case find_accelerator i s of
        None \<Rightarrow> (s, failure E_NotFound)
      | Some a \<Rightarrow>
          (let h' = (if \<not> is_observed (he_stamp h) \<and> he_state h \<noteq> Health_Unknown
                     then h\<lparr>he_stamp := (ac_evidence a)\<lparr>es_source :=
                              (if he_source h = [] then ''health-provider'' else he_source h)\<rparr>\<rparr>
                     else h)
           in (record_event EX_RankingFactor
                 (bump_state_generation (upd_accelerator i (\<lambda>a. a\<lparr>ac_health := h'\<rparr>) s)), success)))"

definition mark_evidence_stale :: "accelerator_id \<Rightarrow> fabric_state \<Rightarrow> fabric_state \<times> status" where
  "mark_evidence_stale i s =
     (case find_accelerator i s of
        None \<Rightarrow> (s, failure E_NotFound)
      | Some a \<Rightarrow>
          (let s1 = upd_accelerator i
                      (\<lambda>a. a\<lparr>ac_evidence := (ac_evidence a)\<lparr>es_observed := False, es_ttl_ms := 0\<rparr>,
                             ac_health := (ac_health a)\<lparr>he_state := Health_Unknown,
                                            he_stamp := (he_stamp (ac_health a))\<lparr>es_observed := False\<rparr>\<rparr>\<rparr>) s;
               s2 = s1\<lparr>fs_plans := om_map (\<lambda>q. if pb_accelerator (pl_binding q) = i
                                               then q\<lparr>pl_terminal := True\<rparr> else q) (fs_plans s1)\<rparr>
           in (record_event EX_RejectedStaleEvidence (bump_state_generation s2), success)))"

definition discard_plan :: "plan_id \<Rightarrow> fabric_state \<Rightarrow> fabric_state \<times> status" where
  "discard_plan i s =
     (case find_plan i s of
        None \<Rightarrow> (s, failure E_NotFound)
      | Some p \<Rightarrow> (bump_state_generation (upd_plan i (\<lambda>p. p\<lparr>pl_terminal := True\<rparr>) s), success))"

section \<open>Closing and reopening\<close>

definition close_reservation :: "u64 \<Rightarrow> reservation_id \<Rightarrow> fabric_state \<Rightarrow> fabric_state" where
  "close_reservation now_ms i s =
     (case find_reservation i s of
        None \<Rightarrow> s
      | Some r \<Rightarrow>
          if \<not> reservation_holds_capacity (rs_lifecycle r) then s
          else
            (let s1 = (case find_ledger (rs_accelerator r) s of
                         None \<Rightarrow> s
                       | Some l \<Rightarrow>
                           (case ledger_release_reserved (rs_resources r) l of
                              (l', Inl _) \<Rightarrow>
                                record_event EX_AccountingViolation (upd_ledger (rs_accelerator r) l' s)
                            | (l', Inr _) \<Rightarrow> upd_ledger (rs_accelerator r) l' s))
             in upd_reservation i
                  (\<lambda>r. r\<lparr>rs_lifecycle := RL_Released, rs_updated_at_ms := now_ms\<rparr>) s1))"

definition close_partition :: "u64 \<Rightarrow> partition_id \<Rightarrow> fabric_state \<Rightarrow> fabric_state" where
  "close_partition now_ms i s =
     (case find_partition i s of
        None \<Rightarrow> s
      | Some r \<Rightarrow>
          if pr_state r \<notin> {PS_Reserved, PS_Creating, PS_PlanPending} then s
          else
            (let s1 = (case pr_held_bucket r of
                         None \<Rightarrow> s
                       | Some b \<Rightarrow>
                           (case find_ledger (pr_accelerator r) s of
                              None \<Rightarrow> s
                            | Some l \<Rightarrow>
                                upd_ledger (pr_accelerator r)
                                  (fst (move_between b Bucket_Free (pr_resources r) l)) s))
             in retire_partition now_ms i s1))"

definition close_attempt :: "u64 \<Rightarrow> attempt_id \<Rightarrow> fabric_state \<Rightarrow> fabric_state" where
  "close_attempt now_ms i s =
     (case find_attempt i s of
        None \<Rightarrow> s
      | Some a \<Rightarrow>
          if at_state a = AT_Registered \<or> at_state a = AT_Dispatched
          then record_event EX_OutcomeUnknown
                 (upd_attempt i (\<lambda>a. a\<lparr>at_state := AT_OutcomeUnknown, at_settled_at_ms := now_ms\<rparr>) s)
          else s)"

definition verify_accounting :: "fabric_state \<Rightarrow> status" where
  "verify_accounting s =
     (if \<exists>l\<in>set (om_values (fs_ledgers s)). ledger_validate l \<noteq> success
      then failure E_CorruptState else success)"

definition close_fabric :: "fabric_state \<Rightarrow> fabric_state \<times> status" where
  "close_fabric s =
     (if fs_closed s then (s, success)
      else
        (let now = fs_now s;
             s1 = for_keys (om_keys (fs_reservations s)) (close_reservation now) s;
             s2 = for_keys (om_keys (fs_partitions s1)) (close_partition now) s1;
             s3 = for_keys (om_keys (fs_attempts s2)) (close_attempt now) s2;
             s4 = s3\<lparr>fs_workers := om_map (\<lambda>w. w\<lparr>wk_alive := False\<rparr>) (fs_workers s3)\<rparr>;
             s5 = s4\<lparr>fs_closed := True, fs_closed_at_ms := now\<rparr>
         in (record_event EX_Shutdown (bump_state_generation s5), verify_accounting s4)))"

definition reopen_fabric :: "fabric_state \<Rightarrow> fabric_state \<times> status" where
  "reopen_fabric s =
     (record_event EX_Shutdown
        (bump_state_generation (s\<lparr>fs_closed := False, fs_opened_at_ms := fs_now s\<rparr>)), success)"

section \<open>Retiring a partition\<close>

lemma supersede_frame [simp]:
  "fs_limits (supersede_partition_generation i s) = fs_limits s" "fs_now (supersede_partition_generation i s) = fs_now s"
  "fs_coordinator_epoch (supersede_partition_generation i s) = fs_coordinator_epoch s" "fs_state_generation (supersede_partition_generation i s) = fs_state_generation s"
  "fs_snapshot_generation (supersede_partition_generation i s) = fs_snapshot_generation s" "fs_policy_generation (supersede_partition_generation i s) = fs_policy_generation s"
  "fs_policy (supersede_partition_generation i s) = fs_policy s" "fs_ids (supersede_partition_generation i s) = fs_ids s"
  "fs_accelerators (supersede_partition_generation i s) = fs_accelerators s" "fs_ledgers (supersede_partition_generation i s) = fs_ledgers s"
  "fs_stable_keys (supersede_partition_generation i s) = fs_stable_keys s" "fs_key_index (supersede_partition_generation i s) = fs_key_index s"
  "fs_profiles (supersede_partition_generation i s) = fs_profiles s" "fs_plans (supersede_partition_generation i s) = fs_plans s"
  "fs_reservations (supersede_partition_generation i s) = fs_reservations s" "fs_attempts (supersede_partition_generation i s) = fs_attempts s"
  "fs_assignments (supersede_partition_generation i s) = fs_assignments s" "fs_workers (supersede_partition_generation i s) = fs_workers s"
  "fs_accelerator_owner (supersede_partition_generation i s) = fs_accelerator_owner s" "fs_evidence_generation (supersede_partition_generation i s) = fs_evidence_generation s"
  "fs_instance_id (supersede_partition_generation i s) = fs_instance_id s" "fs_opened_at_ms (supersede_partition_generation i s) = fs_opened_at_ms s"
  "fs_closed (supersede_partition_generation i s) = fs_closed s" "fs_closed_at_ms (supersede_partition_generation i s) = fs_closed_at_ms s"
  by (simp_all add: supersede_partition_generation_def Let_def split: option.split sum.split)

lemma retire_frame [simp]:
  "fs_limits (retire_partition now i s) = fs_limits s" "fs_now (retire_partition now i s) = fs_now s"
  "fs_coordinator_epoch (retire_partition now i s) = fs_coordinator_epoch s" "fs_state_generation (retire_partition now i s) = fs_state_generation s"
  "fs_snapshot_generation (retire_partition now i s) = fs_snapshot_generation s" "fs_policy_generation (retire_partition now i s) = fs_policy_generation s"
  "fs_policy (retire_partition now i s) = fs_policy s" "fs_ids (retire_partition now i s) = fs_ids s"
  "fs_accelerators (retire_partition now i s) = fs_accelerators s" "fs_ledgers (retire_partition now i s) = fs_ledgers s"
  "fs_stable_keys (retire_partition now i s) = fs_stable_keys s" "fs_key_index (retire_partition now i s) = fs_key_index s"
  "fs_profiles (retire_partition now i s) = fs_profiles s" "fs_plans (retire_partition now i s) = fs_plans s"
  "fs_reservations (retire_partition now i s) = fs_reservations s" "fs_attempts (retire_partition now i s) = fs_attempts s"
  "fs_assignments (retire_partition now i s) = fs_assignments s" "fs_workers (retire_partition now i s) = fs_workers s"
  "fs_accelerator_owner (retire_partition now i s) = fs_accelerator_owner s" "fs_evidence_generation (retire_partition now i s) = fs_evidence_generation s"
  "fs_instance_id (retire_partition now i s) = fs_instance_id s" "fs_opened_at_ms (retire_partition now i s) = fs_opened_at_ms s"
  "fs_closed (retire_partition now i s) = fs_closed s" "fs_closed_at_ms (retire_partition now i s) = fs_closed_at_ms s"
  by (simp_all add: retire_partition_def)

lemma release_retire_frame [simp]:
  "fs_limits (release_retire now i s) = fs_limits s" "fs_now (release_retire now i s) = fs_now s"
  "fs_coordinator_epoch (release_retire now i s) = fs_coordinator_epoch s" "fs_state_generation (release_retire now i s) = fs_state_generation s"
  "fs_snapshot_generation (release_retire now i s) = fs_snapshot_generation s" "fs_policy_generation (release_retire now i s) = fs_policy_generation s"
  "fs_policy (release_retire now i s) = fs_policy s" "fs_ids (release_retire now i s) = fs_ids s"
  "fs_accelerators (release_retire now i s) = fs_accelerators s" "fs_ledgers (release_retire now i s) = fs_ledgers s"
  "fs_stable_keys (release_retire now i s) = fs_stable_keys s" "fs_key_index (release_retire now i s) = fs_key_index s"
  "fs_profiles (release_retire now i s) = fs_profiles s" "fs_plans (release_retire now i s) = fs_plans s"
  "fs_reservations (release_retire now i s) = fs_reservations s" "fs_attempts (release_retire now i s) = fs_attempts s"
  "fs_assignments (release_retire now i s) = fs_assignments s" "fs_workers (release_retire now i s) = fs_workers s"
  "fs_accelerator_owner (release_retire now i s) = fs_accelerator_owner s" "fs_evidence_generation (release_retire now i s) = fs_evidence_generation s"
  "fs_instance_id (release_retire now i s) = fs_instance_id s" "fs_opened_at_ms (release_retire now i s) = fs_opened_at_ms s"
  "fs_closed (release_retire now i s) = fs_closed s" "fs_closed_at_ms (release_retire now i s) = fs_closed_at_ms s"
  by (simp_all add: release_retire_def split: option.split)

lemma fence_retire_frame [simp]:
  "fs_limits (fence_retire now i s) = fs_limits s" "fs_now (fence_retire now i s) = fs_now s"
  "fs_coordinator_epoch (fence_retire now i s) = fs_coordinator_epoch s" "fs_state_generation (fence_retire now i s) = fs_state_generation s"
  "fs_snapshot_generation (fence_retire now i s) = fs_snapshot_generation s" "fs_policy_generation (fence_retire now i s) = fs_policy_generation s"
  "fs_policy (fence_retire now i s) = fs_policy s" "fs_ids (fence_retire now i s) = fs_ids s"
  "fs_accelerators (fence_retire now i s) = fs_accelerators s" "fs_ledgers (fence_retire now i s) = fs_ledgers s"
  "fs_stable_keys (fence_retire now i s) = fs_stable_keys s" "fs_key_index (fence_retire now i s) = fs_key_index s"
  "fs_profiles (fence_retire now i s) = fs_profiles s" "fs_plans (fence_retire now i s) = fs_plans s"
  "fs_reservations (fence_retire now i s) = fs_reservations s" "fs_attempts (fence_retire now i s) = fs_attempts s"
  "fs_assignments (fence_retire now i s) = fs_assignments s" "fs_workers (fence_retire now i s) = fs_workers s"
  "fs_accelerator_owner (fence_retire now i s) = fs_accelerator_owner s" "fs_evidence_generation (fence_retire now i s) = fs_evidence_generation s"
  "fs_instance_id (fence_retire now i s) = fs_instance_id s" "fs_opened_at_ms (fence_retire now i s) = fs_opened_at_ms s"
  "fs_closed (fence_retire now i s) = fs_closed s" "fs_closed_at_ms (fence_retire now i s) = fs_closed_at_ms s"
  by (simp_all add: fence_retire_def split: option.split)

definition supersede_record :: "partition_record \<Rightarrow> partition_record" where
  "supersede_record r =
     r\<lparr>pr_superseded_generations :=
         (if gen_known (pr_generation r) then pr_superseded_generations r @ [pr_generation r]
          else pr_superseded_generations r),
       pr_generation := (case gen_next (pr_generation r) of Inr g \<Rightarrow> g | Inl _ \<Rightarrow> pr_generation r)\<rparr>"

lemma supersede_find [apf_lookup]:
  "find_partition j (supersede_partition_generation i s) =
     (if j = i then map_option supersede_record (find_partition i s) else find_partition j s)"
proof (cases "find_partition i s")
  case None
  then show ?thesis by (simp add: supersede_partition_generation_def)
next
  case (Some r)
  then show ?thesis
    by (cases "gen_next (pr_generation r)")
      (auto simp: supersede_partition_generation_def supersede_record_def Let_def apf_lookup)
qed

lemma retire_find [apf_lookup]:
  "find_partition j (retire_partition now i s) =
     (if j = i then map_option (\<lambda>r. (supersede_record (r\<lparr>pr_held_bucket := None\<rparr>))
                                       \<lparr>pr_state := PS_Retired, pr_last_transition_at_ms := now\<rparr>) (find_partition i s)
      else find_partition j s)"
  by (simp add: retire_partition_def apf_lookup option.map_comp o_def)

lemma supersede_step: "partition_step r (supersede_record r)"
  by (auto simp: partition_step_def supersede_record_def split: sum.split dest: gen_next_greater)

lemma supersede_keys [simp]:
  "om_keys (fs_partitions (supersede_partition_generation i s)) = om_keys (fs_partitions s)"
  by (simp add: supersede_partition_generation_def Let_def split: option.split sum.split)

lemma retire_keys [simp]: "om_keys (fs_partitions (retire_partition now i s)) = om_keys (fs_partitions s)"
  by (simp add: retire_partition_def)

lemma keeps_single:
  assumes "\<And>j. j \<noteq> i \<Longrightarrow> om_find j m' = om_find j m"
    and "\<And>r. om_find i m = Some r \<Longrightarrow> \<exists>r'. om_find i m' = Some r' \<and> partition_step r r'"
  shows "keeps partition_step m m'"
  unfolding keeps_def using assms by (metis partition_step_refl)

lemma supersede_authority [simp]: "authority_evolves s (supersede_partition_generation i s)"
proof -
  have "keeps partition_step (fs_partitions s) (fs_partitions (supersede_partition_generation i s))"
    by (rule keeps_single [of i]) (auto simp: apf_lookup supersede_step)
  then show ?thesis
    by (simp add: authority_evolves_def keeps_refls counters_advance_def ids_allocated_same used_ids_def)
qed

lemma retire_step:
  "partition_step r ((supersede_record (r\<lparr>pr_held_bucket := None\<rparr>))
      \<lparr>pr_state := PS_Retired, pr_last_transition_at_ms := now\<rparr>)"
  by (auto simp: partition_step_def supersede_record_def split: sum.split dest: gen_next_greater)

lemma retire_authority [simp]: "authority_evolves s (retire_partition now i s)"
proof -
  have "keeps partition_step (fs_partitions s) (fs_partitions (retire_partition now i s))"
    by (rule keeps_single [of i]) (auto simp: apf_lookup retire_step)
  then show ?thesis
    by (simp add: authority_evolves_def keeps_refls counters_advance_def ids_allocated_same used_ids_def)
qed

lemma release_retire_authority [simp]: "authority_evolves s (release_retire now i s)"
  by (simp add: release_retire_def split: option.split)

lemma fence_retire_authority [simp]: "authority_evolves s (fence_retire now i s)"
  by (simp add: fence_retire_def split: option.split)

text \<open>
  Superseding makes every superseded generation strictly older than the current one; only a
  partition whose 64-bit generation space is exhausted keeps its generation.
\<close>

definition generations_fenced :: "partition_record \<Rightarrow> bool" where
  "generations_fenced r \<longleftrightarrow> gen_known (pr_generation r) \<and> distinct (pr_superseded_generations r) \<and>
     (\<forall>g\<in>set (pr_superseded_generations r). gen_known g \<and> g < pr_generation r)"

lemma supersede_fences:
  assumes "generations_fenced r" "pr_generation r \<noteq> UINT64_MAX"
  shows "generations_fenced (supersede_record r) \<and> supersedes (supersede_record r) (pr_generation r) \<and>
         unat (pr_generation (supersede_record r)) = Suc (unat (pr_generation r))"
proof -
  have n: "gen_next (pr_generation r) = Inr (pr_generation r + 1)" and lt: "pr_generation r < pr_generation r + 1"
    using assms(2) by (simp_all add: gen_next_def succ_u64_greater)
  have "gen_known (pr_generation r + 1)" using n gen_next_known by blast
  moreover have "unat (pr_generation r + 1) = Suc (unat (pr_generation r))"
    using assms(2) by (rule unat_succ_u64)
  ultimately show ?thesis
    using assms(1) n lt
    by (auto simp: generations_fenced_def supersede_record_def supersedes_def)
qed

section \<open>Releasing and fencing\<close>

lemma retire_loops [simp]:
  "fs_ledgers (for_keys ps (release_retire now) s) = fs_ledgers s"
  "fs_ledgers (for_keys ps (fence_retire now) s) = fs_ledgers s"
  "fs_reservations (for_keys ps (release_retire now) s) = fs_reservations s"
  "fs_reservations (for_keys ps (fence_retire now) s) = fs_reservations s"
  "fs_attempts (for_keys ps (release_retire now) s) = fs_attempts s"
  "fs_attempts (for_keys ps (fence_retire now) s) = fs_attempts s"
  "fs_coordinator_epoch (for_keys ps (fence_retire now) s) = fs_coordinator_epoch s"
  "fs_workers (for_keys ps (fence_retire now) s) = fs_workers s"
  by (rule for_keys_frame, simp)+

lemma release_reserved_step:
  "ledger_release_reserved v l = (l', st) \<Longrightarrow> ledger_step l l'"
  unfolding ledger_step_def using release_op.op_balanced [of l v] release_op.op_total [of v l] by simp

lemma release_ledgers [apf_inv]: "ledgers_evolve s (fst (release_reservation_locked i r now s))"
  unfolding release_reservation_locked_def Let_def
  by (auto split: option.split prod.split sum.split dest!: release_reserved_step
      intro: ledgers_evolve_cong [OF _ ledgers_evolve_upd])

lemma finish_fence_frame [simp]:
  "fs_ledgers (finish_fence i now s) = fs_ledgers s"
  "fs_partitions (finish_fence i now s) = fs_partitions s"
  "fs_attempts (finish_fence i now s) = fs_attempts s"
  "fs_coordinator_epoch (finish_fence i now s) = fs_coordinator_epoch s"
  "fs_workers (finish_fence i now s) = fs_workers s"
  "fs_reservations (finish_fence i now s) =
     om_modify i (\<lambda>r. r\<lparr>rs_lifecycle := RL_Fenced, rs_updated_at_ms := now\<rparr>) (fs_reservations s)"
  by (simp_all add: finish_fence_def)

lemma fence_ledgers [apf_inv]: "ledgers_evolve s (fst (fence_reservation_locked i r now s))"
  unfolding fence_reservation_locked_def Let_def
  by (auto split: option.split prod.split sum.split dest!: release_reserved_step
      intro: ledgers_evolve_cong [OF _ ledgers_evolve_upd])

lemma release_authority [simp]: "authority_evolves s (fst (release_reservation_locked i r now s))"
proof -
  let ?f = "\<lambda>r. r\<lparr>rs_lifecycle := RL_Released, rs_updated_at_ms := now\<rparr>"
  have "authority_evolves s (record_event c (bump_state_generation
      (upd_reservation i ?f (for_keys ps (release_retire now) (upd_ledger a l s)))))" for c ps a l
  proof -
    have "authority_evolves s (upd_ledger a l s)" by simp
    also have "authority_evolves \<dots> (for_keys ps (release_retire now) (upd_ledger a l s))"
      by (rule authority_evolves_loop) simp
    also have "authority_evolves \<dots> (upd_reservation i ?f (for_keys ps (release_retire now) (upd_ledger a l s)))"
      by (rule authority_evolves_reservation) (simp add: reservation_step_def)
    also have "authority_evolves \<dots> (bump_state_generation \<dots>)" by simp
    also have "authority_evolves \<dots> (record_event c \<dots>)" by simp
    finally show ?thesis .
  qed
  then show ?thesis
    by (auto simp: release_reservation_locked_def Let_def split: option.split prod.split sum.split)
qed

lemma finish_fence_authority [simp]: "authority_evolves s (finish_fence i now s)"
proof -
  let ?f = "\<lambda>r. r\<lparr>rs_lifecycle := RL_Fenced, rs_updated_at_ms := now\<rparr>"
  have "authority_evolves s (upd_reservation i ?f s)"
    by (rule authority_evolves_reservation) (simp add: reservation_step_def)
  also have "authority_evolves \<dots> (bump_state_generation \<dots>)" by simp
  also have "authority_evolves \<dots> (record_event EX_StaleReservationRejected \<dots>)" by simp
  finally show ?thesis by (simp add: finish_fence_def)
qed

lemma fence_authority [simp]: "authority_evolves s (fst (fence_reservation_locked i r now s))"
proof -
  have "authority_evolves s (finish_fence i now (for_keys ps (fence_retire now) (upd_ledger a l s)))" for ps a l
  proof -
    have "authority_evolves s (upd_ledger a l s)" by simp
    also have "authority_evolves \<dots> (for_keys ps (fence_retire now) (upd_ledger a l s))"
      by (rule authority_evolves_loop) simp
    also have "authority_evolves \<dots> (finish_fence i now \<dots>)" by simp
    finally show ?thesis .
  qed
  then show ?thesis
    by (auto simp: fence_reservation_locked_def Let_def split: option.split prod.split sum.split)
qed

section \<open>Fencing workers and epochs\<close>

lemma revalidate_frame [simp]:
  "fs_attempts (revalidate_partition i s) = fs_attempts s"
  "fs_reservations (revalidate_partition i s) = fs_reservations s"
  "fs_workers (revalidate_partition i s) = fs_workers s"
  "fs_coordinator_epoch (revalidate_partition i s) = fs_coordinator_epoch s"
  by (simp_all add: revalidate_partition_def split: option.split)

lemma revalidate_loop_frame [simp]:
  "fs_attempts (for_keys ps revalidate_partition s) = fs_attempts s"
  "fs_reservations (for_keys ps revalidate_partition s) = fs_reservations s"
  "fs_workers (for_keys ps revalidate_partition s) = fs_workers s"
  "fs_coordinator_epoch (for_keys ps revalidate_partition s) = fs_coordinator_epoch s"
  by (rule for_keys_frame, simp)+

lemma revalidate_ledgers [apf_inv]: "ledgers_evolve s (revalidate_partition i s)"
  by (simp add: revalidate_partition_def transition_ledgers split: option.split)

lemma revalidate_authority [simp]: "authority_evolves s (revalidate_partition i s)"
  by (simp add: revalidate_partition_def split: option.split)

lemma classify_ledgers [apf_inv]: "ledgers_evolve s (classify_attempt P c now i s)"
proof -
  let ?u = "\<lambda>s. upd_attempt i (\<lambda>a. a\<lparr>at_state := AT_OutcomeUnknown, at_settled_at_ms := now\<rparr>) s"
  have "ledgers_evolve s (record_event c (for_keys ps revalidate_partition (?u s)))" for ps
  proof -
    have "ledgers_evolve s (?u s)" by (rule ledgers_evolve_same) simp
    also have "ledgers_evolve \<dots> (for_keys ps revalidate_partition (?u s))"
      by (rule ledgers_evolve_loop) (rule revalidate_ledgers)
    also have "ledgers_evolve \<dots> (record_event c \<dots>)" by (rule ledgers_evolve_same) simp
    finally show ?thesis .
  qed
  then show ?thesis by (simp add: classify_attempt_def split: option.split)
qed

lemma classify_authority [simp]: "authority_evolves s (classify_attempt P c now i s)"
proof (cases "find_attempt i s")
  case None
  then show ?thesis by (simp add: classify_attempt_def)
next
  case (Some a)
  let ?u = "upd_attempt i (\<lambda>a. a\<lparr>at_state := AT_OutcomeUnknown, at_settled_at_ms := now\<rparr>) s"
  have "authority_evolves s (record_event c (for_keys ps revalidate_partition ?u))"
    if "\<not> attempt_settled (at_state a)" for ps
  proof -
    have "authority_evolves s ?u"
      using that Some by (intro authority_evolves_attempt) (simp add: attempt_step_def)
    also have "authority_evolves \<dots> (for_keys ps revalidate_partition ?u)"
      by (rule authority_evolves_loop) simp
    also have "authority_evolves \<dots> (record_event c \<dots>)" by simp
    finally show ?thesis .
  qed
  with Some show ?thesis by (simp add: classify_attempt_def)
qed

lemma classify_frame [simp]:
  "fs_reservations (classify_attempt P c now i s) = fs_reservations s"
  "fs_workers (classify_attempt P c now i s) = fs_workers s"
  "fs_coordinator_epoch (classify_attempt P c now i s) = fs_coordinator_epoch s"
  "om_keys (fs_attempts (classify_attempt P c now i s)) = om_keys (fs_attempts s)"
  by (simp_all add: classify_attempt_def split: option.split)

lemma classify_find:
  "find_attempt j (classify_attempt P c now i s) =
     (if j = i then map_option (\<lambda>a. if \<not> attempt_settled (at_state a) \<and> P a
                                    then a\<lparr>at_state := AT_OutcomeUnknown, at_settled_at_ms := now\<rparr> else a)
                     (find_attempt i s)
      else find_attempt j s)"
  by (auto simp: classify_attempt_def apf_lookup split: option.split)

text \<open>After the loop no selected attempt is left registered or dispatched.\<close>

definition attempt_classified :: "(partition_attempt \<Rightarrow> bool) \<Rightarrow> fabric_state \<Rightarrow> attempt_id \<Rightarrow> bool" where
  "attempt_classified P s i \<longleftrightarrow>
     (case find_attempt i s of
        None \<Rightarrow> True
      | Some a \<Rightarrow> P a \<longrightarrow> attempt_settled (at_state a) \<or> at_state a = AT_OutcomeUnknown)"

lemma classified_by_visit: "attempt_classified P (classify_attempt P c now i s) i"
  by (cases "find_attempt i s") (simp_all add: attempt_classified_def classify_find)

lemma classified_kept: "attempt_classified P s i \<Longrightarrow> attempt_classified P (classify_attempt P c now j s) i"
  by (cases "i = j") (simp_all add: classified_by_visit, simp add: attempt_classified_def classify_find)

lemma classify_loop:
  "attempt_classified P (for_keys (om_keys (fs_attempts s)) (classify_attempt P c now) s) i"
proof (cases "i \<in> set (om_keys (fs_attempts s))")
  case True
  then show ?thesis
    by (rule for_keys_establish [where I = "\<lambda>_. True" and Q = "\<lambda>t. attempt_classified P t i"])
      (simp_all add: classified_by_visit classified_kept)
next
  case False
  let ?t = "for_keys (om_keys (fs_attempts s)) (classify_attempt P c now) s"
  have "om_keys (fs_attempts ?t) = om_keys (fs_attempts s)"
    by (rule for_keys_frame) simp
  with False have "find_attempt i ?t = None" by (simp add: om_find_eq_None)
  then show ?thesis by (simp add: attempt_classified_def)
qed

lemma fence_if_ledgers [apf_inv]: "ledgers_evolve s (fence_reservation_if P now i s)"
  by (simp add: fence_reservation_if_def fence_ledgers split: option.split)

lemma fence_if_authority [simp]: "authority_evolves s (fence_reservation_if P now i s)"
  by (simp add: fence_reservation_if_def split: option.split)

lemma fence_locked_frame [simp]:
  "fs_attempts (fst (fence_reservation_locked i r now s)) = fs_attempts s"
  "fs_workers (fst (fence_reservation_locked i r now s)) = fs_workers s"
  "fs_coordinator_epoch (fst (fence_reservation_locked i r now s)) = fs_coordinator_epoch s"
  by (simp_all add: fence_reservation_locked_def Let_def split: option.split prod.split sum.split)

lemma fence_if_frame [simp]:
  "fs_attempts (fence_reservation_if P now i s) = fs_attempts s"
  "fs_workers (fence_reservation_if P now i s) = fs_workers s"
  "fs_coordinator_epoch (fence_reservation_if P now i s) = fs_coordinator_epoch s"
  by (simp_all add: fence_reservation_if_def split: option.split)

lemma fence_if_loop_frame [simp]:
  "fs_attempts (for_keys ks (fence_reservation_if P now) s) = fs_attempts s"
  "fs_workers (for_keys ks (fence_reservation_if P now) s) = fs_workers s"
  "fs_coordinator_epoch (for_keys ks (fence_reservation_if P now) s) = fs_coordinator_epoch s"
  by (rule for_keys_frame, simp)+

lemma classify_loop_frame [simp]:
  "fs_reservations (for_keys ks (classify_attempt P c now) s) = fs_reservations s"
  "fs_workers (for_keys ks (classify_attempt P c now) s) = fs_workers s"
  "fs_coordinator_epoch (for_keys ks (classify_attempt P c now) s) = fs_coordinator_epoch s"
  by (rule for_keys_frame, simp)+

text \<open>The two loops shared by worker fencing and epoch changes.\<close>

definition fence_and_classify ::
  "(partition_reservation \<Rightarrow> bool) \<Rightarrow> (partition_attempt \<Rightarrow> bool) \<Rightarrow> explanation_code \<Rightarrow> u64 \<Rightarrow> fabric_state \<Rightarrow> fabric_state" where
  "fence_and_classify P Q c now s =
     (let s2 = for_keys (om_keys (fs_reservations s)) (fence_reservation_if P now) s
      in for_keys (om_keys (fs_attempts s2)) (classify_attempt Q c now) s2)"

lemma fence_and_classify_ledgers: "ledgers_evolve s (fence_and_classify P Q c now s)"
proof -
  let ?s2 = "for_keys (om_keys (fs_reservations s)) (fence_reservation_if P now) s"
  have "ledgers_evolve s ?s2" by (rule ledgers_evolve_loop) (rule fence_if_ledgers)
  also have "ledgers_evolve \<dots> (for_keys (om_keys (fs_attempts ?s2)) (classify_attempt Q c now) ?s2)"
    by (rule ledgers_evolve_loop) (rule classify_ledgers)
  finally show ?thesis by (simp add: fence_and_classify_def Let_def)
qed

lemma fence_and_classify_authority: "authority_evolves s (fence_and_classify P Q c now s)"
proof -
  let ?s2 = "for_keys (om_keys (fs_reservations s)) (fence_reservation_if P now) s"
  have "authority_evolves s ?s2" by (rule authority_evolves_loop) simp
  also have "authority_evolves \<dots> (for_keys (om_keys (fs_attempts ?s2)) (classify_attempt Q c now) ?s2)"
    by (rule authority_evolves_loop) simp
  finally show ?thesis by (simp add: fence_and_classify_def Let_def)
qed

lemma fence_worker_locked_eq:
  "fence_worker_locked worker boot now s =
     (case find_worker worker s of
        None \<Rightarrow> (s, Inl E_NotFound)
      | Some w \<Rightarrow>
          if wk_boot w \<noteq> boot then (record_event EX_StaleWorkerRejected s, success)
          else (record_event EX_WorkerFenced (bump_state_generation
                 (fence_and_classify (\<lambda>r. is_worker_bound r worker boot)
                    (\<lambda>a. at_worker a = worker \<and> at_worker_boot a = boot) EX_OutcomeUnknown now
                    (upd_worker worker (\<lambda>w. w\<lparr>wk_fenced := True, wk_alive := False, wk_fenced_at_ms := now\<rparr>) s))),
                success))"
  by (simp add: fence_worker_locked_def fence_and_classify_def Let_def split: option.split)

lemma fence_worker_ledgers [apf_inv]: "ledgers_evolve s (fst (fence_worker_locked worker boot now s))"
proof -
  have "ledgers_evolve s (record_event c (bump_state_generation (fence_and_classify P Q c' now (upd_worker worker f s))))"
    for P Q c c' f
    by (rule ledgers_evolve_trans [OF ledgers_evolve_trans [OF ledgers_evolve_same fence_and_classify_ledgers] ledgers_evolve_same])
      simp_all
  then show ?thesis
    by (auto simp: fence_worker_locked_eq split: option.split)
qed

lemma fence_worker_authority [simp]: "authority_evolves s (fst (fence_worker_locked worker boot now s))"
proof -
  have "authority_evolves s (record_event c (bump_state_generation (fence_and_classify P Q c' now (upd_worker worker f s))))"
    for P Q c c' f
  proof -
    have "authority_evolves s (upd_worker worker f s)"
      by (rule authority_evolves_same) (simp_all add: counters_advance_def)
    also have "authority_evolves \<dots> (fence_and_classify P Q c' now \<dots>)" by (rule fence_and_classify_authority)
    also have "authority_evolves \<dots> (bump_state_generation \<dots>)" by simp
    also have "authority_evolves \<dots> (record_event c \<dots>)" by simp
    finally show ?thesis .
  qed
  then show ?thesis by (simp add: fence_worker_locked_eq split: option.split)
qed

text \<open>A fenced incarnation leaves no attempt that could still be taken for in flight.\<close>

lemma fence_worker_classifies:
  assumes "find_worker worker s = Some w" "wk_boot w = boot"
  shows "attempt_classified (\<lambda>a. at_worker a = worker \<and> at_worker_boot a = boot)
           (fst (fence_worker_locked worker boot now s)) i"
proof -
  have "attempt_classified (\<lambda>a. at_worker a = worker \<and> at_worker_boot a = boot)
      (fence_and_classify P (\<lambda>a. at_worker a = worker \<and> at_worker_boot a = boot) c now t) i" for P c t
    unfolding fence_and_classify_def Let_def by (rule classify_loop)
  then show ?thesis
    using assms by (simp add: fence_worker_locked_eq attempt_classified_def)
qed

lemma fence_worker_marks:
  assumes "find_worker worker s = Some w" "wk_boot w = boot"
  shows "find_worker worker (fst (fence_worker_locked worker boot now s)) =
           Some (w\<lparr>wk_fenced := True, wk_alive := False, wk_fenced_at_ms := now\<rparr>)"
  using assms by (simp add: fence_worker_locked_eq fence_and_classify_def Let_def apf_lookup)

lemma advance_epoch_eq:
  "advance_coordinator_epoch s =
     (case gen_next (fs_coordinator_epoch s) of
        Inl e \<Rightarrow> (s, Inl e)
      | Inr epoch \<Rightarrow>
          (let s3 = fence_and_classify (\<lambda>r. rs_coordinator_epoch r \<noteq> epoch) (\<lambda>a. at_coordinator_epoch a \<noteq> epoch)
                      EX_StaleEpochRejected (fs_now s) (s\<lparr>fs_coordinator_epoch := epoch\<rparr>);
               s4 = s3\<lparr>fs_workers := om_map (\<lambda>w. if wk_coordinator_epoch w \<noteq> epoch
                                               then w\<lparr>wk_alive := False\<rparr> else w) (fs_workers s3)\<rparr>
           in (record_event EX_StaleEpochRejected (bump_state_generation s4), Inr epoch)))"
  by (simp add: advance_coordinator_epoch_def fence_and_classify_def Let_def split: sum.split)

lemma advance_epoch_ledgers [apf_inv]: "ledgers_evolve s (fst (advance_coordinator_epoch s))"
proof -
  have "ledgers_evolve s (record_event c (bump_state_generation
      ((fence_and_classify P Q c' now (s\<lparr>fs_coordinator_epoch := e\<rparr>))\<lparr>fs_workers := ws\<rparr>)))" for P Q c c' now e ws
    by (rule ledgers_evolve_trans [OF ledgers_evolve_trans [OF ledgers_evolve_same fence_and_classify_ledgers] ledgers_evolve_same])
      simp_all
  then show ?thesis by (simp add: advance_epoch_eq Let_def split: sum.split)
qed

lemma advance_epoch_authority [simp]: "authority_evolves s (fst (advance_coordinator_epoch s))"
proof -
  have "authority_evolves s (record_event c (bump_state_generation
      ((fence_and_classify P Q c' now (s\<lparr>fs_coordinator_epoch := e\<rparr>))\<lparr>fs_workers := ws\<rparr>)))"
    if "fs_coordinator_epoch s < e" for P Q c c' now e ws
  proof -
    have "authority_evolves s (s\<lparr>fs_coordinator_epoch := e\<rparr>)"
      using that by (intro authority_evolves_same) (simp_all add: counters_advance_def)
    also have "authority_evolves \<dots> (fence_and_classify P Q c' now \<dots>)" by (rule fence_and_classify_authority)
    also have "authority_evolves \<dots> (\<dots>\<lparr>fs_workers := ws\<rparr>)"
      by (rule authority_evolves_same) (simp_all add: counters_advance_def)
    also have "authority_evolves \<dots> (bump_state_generation \<dots>)" by simp
    also have "authority_evolves \<dots> (record_event c \<dots>)" by simp
    finally show ?thesis .
  qed
  then show ?thesis
    by (auto simp: advance_epoch_eq Let_def split: sum.split dest: gen_next_greater)
qed

lemma advance_epoch_spec:
  assumes "advance_coordinator_epoch s = (s', Inr epoch)"
  shows "fs_coordinator_epoch s < epoch \<and> fs_coordinator_epoch s' = epoch \<and>
         attempt_classified (\<lambda>a. at_coordinator_epoch a \<noteq> epoch) s' i"
proof -
  have n: "gen_next (fs_coordinator_epoch s) = Inr epoch"
    using assms by (auto simp: advance_epoch_eq Let_def split: sum.splits)
  have "attempt_classified (\<lambda>a. at_coordinator_epoch a \<noteq> epoch)
      (fence_and_classify P (\<lambda>a. at_coordinator_epoch a \<noteq> epoch) c now t) i" for P c now t
    unfolding fence_and_classify_def Let_def by (rule classify_loop)
  moreover have "fs_coordinator_epoch (fence_and_classify P Q c now t) = fs_coordinator_epoch t" for P Q c now t
    by (simp add: fence_and_classify_def Let_def)
  ultimately show ?thesis
    using assms n gen_next_greater [OF n]
    by (auto simp: advance_epoch_eq Let_def attempt_classified_def)
qed

lemma advance_epoch_exhausted:
  "fs_coordinator_epoch s = UINT64_MAX \<Longrightarrow> advance_coordinator_epoch s = (s, Inl E_Overflow)"
  by (simp add: advance_coordinator_epoch_def gen_next_def)

section \<open>Registry operations evolve\<close>

lemma release_reservation_ledgers [apf_inv]: "ledgers_evolve s (fst (release_reservation i s))"
  by (simp add: release_reservation_def release_ledgers split: option.split)

lemma release_reservation_authority [simp]: "authority_evolves s (fst (release_reservation i s))"
  by (simp add: release_reservation_def split: option.split)

lemma fence_reservation_ledgers [apf_inv]: "ledgers_evolve s (fst (fence_reservation i s))"
  by (simp add: fence_reservation_def fence_ledgers split: option.split)

lemma fence_reservation_authority [simp]: "authority_evolves s (fst (fence_reservation i s))"
  by (simp add: fence_reservation_def split: option.split)

text \<open>Operations that touch neither a ledger nor an authority record.\<close>

definition quiet :: "fabric_state \<Rightarrow> fabric_state \<Rightarrow> bool" where
  "quiet s t \<longleftrightarrow> fs_ledgers t = fs_ledgers s \<and> fs_partitions t = fs_partitions s \<and>
     fs_reservations t = fs_reservations s \<and> fs_attempts t = fs_attempts s \<and> counters_advance s t"

lemma quiet_trans [trans]: "quiet s t \<Longrightarrow> quiet t u \<Longrightarrow> quiet s u"
  by (auto simp: quiet_def counters_advance_def)

lemma quiet_event: "quiet s (record_event c s)"
  by (simp add: quiet_def counters_advance_def)

lemma quiet_ledgers: "quiet s t \<Longrightarrow> ledgers_evolve s t"
  by (auto simp: quiet_def)

lemma quiet_authority: "quiet s t \<Longrightarrow> authority_evolves s t"
  by (auto simp: quiet_def)

lemma note_worker_seen_quiet [intro]: "quiet s (fst (note_worker_seen w b t s))"
  by (simp add: note_worker_seen_def quiet_def counters_advance_def split: option.split)

lemma allocate_worker_quiet [intro]: "quiet s (fst (allocate_worker_id s))"
  using allocate_monotone [of "fs_ids s"]
  by (auto simp: allocate_worker_id_def quiet_def counters_advance_def split: prod.split)

lemma bind_worker_quiet [intro]: "quiet s (fst (bind_accelerator_worker a w b s))"
  by (simp add: bind_accelerator_worker_def quiet_def counters_advance_def split: option.split)

lemma bump_generation' [simp]:
  "fs_state_generation t = g \<Longrightarrow> g \<le> fs_state_generation (bump_state_generation t)"
  using bump_generation [of t] by simp

lemma install_epoch_quiet [intro]: "quiet s (fst (install_coordinator_epoch e s))"
  by (auto simp: install_coordinator_epoch_def quiet_def counters_advance_def)

lemma set_policy_quiet [intro]: "quiet s (fst (set_policy p s))"
  by (auto simp: set_policy_def Let_def quiet_def counters_advance_def split: sum.split dest: gen_next_greater)

lemma update_health_quiet [intro]: "quiet s (fst (update_health i h s))"
  by (auto simp: update_health_def Let_def quiet_def counters_advance_def split: option.split)

lemma mark_stale_quiet [intro]: "quiet s (fst (mark_evidence_stale i s))"
  by (auto simp: mark_evidence_stale_def Let_def quiet_def counters_advance_def split: option.split)

lemma discard_plan_quiet [intro]: "quiet s (fst (discard_plan i s))"
  by (auto simp: discard_plan_def quiet_def counters_advance_def split: option.split)

lemma reopen_quiet [intro]: "quiet s (fst (reopen_fabric s))"
  by (auto simp: reopen_fabric_def quiet_def counters_advance_def)

lemma note_worker_parts:
  "\<exists>s1. (s1 = s \<or> (\<exists>b f c. s1 = fst (fence_worker_locked (wk_id w) b (fs_now s) (record_event c (upd_worker (wk_id w) f s))))) \<and>
     (fst (note_worker w s) = s \<or> quiet s1 (fst (note_worker w s)))"
proof (cases "find_worker (wk_id w) s")
  case None
  then show ?thesis
    by (intro exI [of _ s]) (auto simp: note_worker_def Let_def quiet_def counters_advance_def)
next
  case (Some old)
  show ?thesis
  proof (cases "wk_boot old = wk_boot w")
    case True
    with Some show ?thesis
      by (intro exI [of _ s]) (auto simp: note_worker_def Let_def quiet_def counters_advance_def)
  next
    case False
    with Some show ?thesis
      by (intro exI [of _ "fst (fence_worker_locked (wk_id w) (wk_boot old) (fs_now s) (record_event EX_WorkerFenced
            (upd_worker (wk_id w) (\<lambda>o'. o'\<lparr>wk_fenced := True, wk_alive := False, wk_fenced_at_ms := fs_now s\<rparr>) s)))"])
        (auto simp: note_worker_def Let_def quiet_def counters_advance_def)
  qed
qed

lemma note_worker_ledgers [apf_inv]: "ledgers_evolve s (fst (note_worker w s))"
proof -
  have "ledgers_evolve s (fst (fence_worker_locked (wk_id w) b n (record_event c (upd_worker (wk_id w) f s))))" for b n c f
    by (rule ledgers_evolve_trans [OF ledgers_evolve_same fence_worker_ledgers]) simp
  note fenced = this
  obtain s1 where s1: "s1 = s \<or> (\<exists>b f c. s1 = fst (fence_worker_locked (wk_id w) b (fs_now s) (record_event c (upd_worker (wk_id w) f s))))"
    "fst (note_worker w s) = s \<or> quiet s1 (fst (note_worker w s))"
    using note_worker_parts [of s w] by blast
  have "ledgers_evolve s s1" using s1(1) fenced by auto
  then have "quiet s1 (fst (note_worker w s)) \<Longrightarrow> ?thesis" using ledgers_evolve_trans quiet_ledgers by blast
  then show ?thesis using s1(2) by auto
qed

lemma note_worker_authority [simp]: "authority_evolves s (fst (note_worker w s))"
proof -
  have "authority_evolves s (fst (fence_worker_locked (wk_id w) b n (record_event c (upd_worker (wk_id w) f s))))" for b n c f
  proof -
    have "authority_evolves s (upd_worker (wk_id w) f s)"
      by (rule authority_evolves_same) (simp_all add: counters_advance_def)
    also have "authority_evolves \<dots> (record_event c \<dots>)" by simp
    also have "authority_evolves \<dots> (fst (fence_worker_locked (wk_id w) b n \<dots>))" by simp
    finally show ?thesis .
  qed
  note fenced = this
  obtain s1 where s1: "s1 = s \<or> (\<exists>b f c. s1 = fst (fence_worker_locked (wk_id w) b (fs_now s) (record_event c (upd_worker (wk_id w) f s))))"
    "fst (note_worker w s) = s \<or> quiet s1 (fst (note_worker w s))"
    using note_worker_parts [of s w] by blast
  have "authority_evolves s s1" using s1(1) fenced by auto
  then have "quiet s1 (fst (note_worker w s)) \<Longrightarrow> ?thesis" using authority_evolves_trans quiet_authority by blast
  then show ?thesis using s1(2) by auto
qed

section \<open>Closing\<close>

lemma close_reservation_ledgers [apf_inv]: "ledgers_evolve s (close_reservation now i s)"
  unfolding close_reservation_def Let_def
  by (auto split: option.split prod.split sum.split dest!: release_reserved_step
      intro: ledgers_evolve_cong [OF _ ledgers_evolve_upd])

lemma close_reservation_authority [simp]: "authority_evolves s (close_reservation now i s)"
proof -
  have "authority_evolves s (upd_reservation i (\<lambda>r. r\<lparr>rs_lifecycle := RL_Released, rs_updated_at_ms := now\<rparr>) t)"
    if "authority_evolves s t" for t
    by (rule authority_evolves_trans [OF that authority_evolves_reservation]) (simp add: reservation_step_def)
  moreover have "authority_evolves s (record_event c (upd_ledger a l s))" for a l c
    by (rule authority_evolves_trans [OF authority_evolves_ledger authority_evolves_event])
  ultimately show ?thesis
    by (auto simp: close_reservation_def Let_def split: option.split prod.split sum.split)
qed

lemma close_partition_ledgers [apf_inv]: "ledgers_evolve s (close_partition now i s)"
proof -
  have "ledger_step l (fst (move_between b Bucket_Free v l))" for b v l
    using move_between_keeps [of b Bucket_Free v l] by (metis prod.collapse)
  then show ?thesis
    unfolding close_partition_def Let_def
    by (auto split: option.split intro: ledgers_evolve_cong [OF _ ledgers_evolve_upd])
qed

lemma close_partition_authority [simp]: "authority_evolves s (close_partition now i s)"
proof -
  have "authority_evolves s (retire_partition now i (upd_ledger a l s))" for a l
    by (rule authority_evolves_trans [OF authority_evolves_ledger retire_authority])
  then show ?thesis by (auto simp: close_partition_def Let_def split: option.split)
qed

lemma close_attempt_ledgers [apf_inv]: "ledgers_evolve s (close_attempt now i s)"
  by (auto simp: close_attempt_def split: option.split)

lemma close_attempt_authority [simp]: "authority_evolves s (close_attempt now i s)"
proof (cases "find_attempt i s")
  case (Some a)
  have "authority_evolves s (upd_attempt i (\<lambda>a. a\<lparr>at_state := AT_OutcomeUnknown, at_settled_at_ms := now\<rparr>) s)"
    if "at_state a = AT_Registered \<or> at_state a = AT_Dispatched"
    using that Some by (intro authority_evolves_attempt) (auto simp: attempt_step_def)
  with Some show ?thesis
    by (auto simp: close_attempt_def intro: authority_evolves_trans [OF _ authority_evolves_event])
qed (simp add: close_attempt_def)

definition close_loops :: "fabric_state \<Rightarrow> fabric_state" where
  "close_loops s =
     (let s1 = for_keys (om_keys (fs_reservations s)) (close_reservation (fs_now s)) s;
          s2 = for_keys (om_keys (fs_partitions s1)) (close_partition (fs_now s)) s1
      in for_keys (om_keys (fs_attempts s2)) (close_attempt (fs_now s)) s2)"

lemma close_loops_ledgers: "ledgers_evolve s (close_loops s)"
proof -
  let ?s1 = "for_keys (om_keys (fs_reservations s)) (close_reservation (fs_now s)) s"
  let ?s2 = "for_keys (om_keys (fs_partitions ?s1)) (close_partition (fs_now s)) ?s1"
  have "ledgers_evolve s ?s1" by (rule ledgers_evolve_loop) (rule close_reservation_ledgers)
  also have "ledgers_evolve \<dots> ?s2" by (rule ledgers_evolve_loop) (rule close_partition_ledgers)
  also have "ledgers_evolve \<dots> (for_keys (om_keys (fs_attempts ?s2)) (close_attempt (fs_now s)) ?s2)"
    by (rule ledgers_evolve_loop) (rule close_attempt_ledgers)
  finally show ?thesis by (simp add: close_loops_def Let_def)
qed

lemma close_loops_authority: "authority_evolves s (close_loops s)"
proof -
  let ?s1 = "for_keys (om_keys (fs_reservations s)) (close_reservation (fs_now s)) s"
  let ?s2 = "for_keys (om_keys (fs_partitions ?s1)) (close_partition (fs_now s)) ?s1"
  have "authority_evolves s ?s1" by (rule authority_evolves_loop) simp
  also have "authority_evolves \<dots> ?s2" by (rule authority_evolves_loop) simp
  also have "authority_evolves \<dots> (for_keys (om_keys (fs_attempts ?s2)) (close_attempt (fs_now s)) ?s2)"
    by (rule authority_evolves_loop) simp
  finally show ?thesis by (simp add: close_loops_def Let_def)
qed

lemma close_fabric_eq:
  "close_fabric s =
     (if fs_closed s then (s, success)
      else (record_event EX_Shutdown (bump_state_generation
              ((close_loops s)\<lparr>fs_workers := om_map (\<lambda>w. w\<lparr>wk_alive := False\<rparr>) (fs_workers (close_loops s)),
                               fs_closed := True, fs_closed_at_ms := fs_now s\<rparr>)),
            verify_accounting (close_loops s)))"
  by (simp add: close_fabric_def close_loops_def Let_def verify_accounting_def)

lemma close_ledgers [apf_inv]: "ledgers_evolve s (fst (close_fabric s))"
  by (auto simp: close_fabric_eq intro: ledgers_evolve_trans [OF close_loops_ledgers ledgers_evolve_same])

lemma close_authority [simp]: "authority_evolves s (fst (close_fabric s))"
proof -
  have "authority_evolves (close_loops s) (record_event c (bump_state_generation
      ((close_loops s)\<lparr>fs_workers := ws, fs_closed := b, fs_closed_at_ms := n\<rparr>)))" for c ws b n
    by (rule authority_evolves_same) (simp_all add: counters_advance_def)
  then show ?thesis
    by (auto simp: close_fabric_eq intro: authority_evolves_trans [OF close_loops_authority])
qed

section \<open>What the operations guarantee\<close>

subsection \<open>Releases\<close>

lemma release_success_eq:
  assumes "release_reservation i s = (s', success)"
  shows "\<exists>r l l'. find_reservation i s = Some r \<and> \<not> reservation_is_terminal (rs_lifecycle r) \<and>
           find_ledger (rs_accelerator r) s = Some l \<and>
           \<not> (\<exists>p\<in>set (rs_partitions r). beyond_reserved s p) \<and>
           ledger_release_reserved (rs_resources r) l = (l', success) \<and>
           find_ledger (rs_accelerator r) s' = Some l' \<and>
           find_reservation i s' = Some (r\<lparr>rs_lifecycle := RL_Released, rs_updated_at_ms := fs_now s\<rparr>)"
  using assms
  by (auto simp: release_reservation_def release_reservation_locked_def Let_def apf_lookup
      split: option.splits if_splits prod.splits sum.splits)

lemma ledger_release_exact:
  assumes "ledger_balanced l" "ledger_release_reserved v l = (l', success)"
  shows "\<forall>i<8. rv_val (ledger_bucket l' Bucket_Reserved) i = rv_val (ledger_bucket l Bucket_Reserved) i - rv_val v i \<and>
               rv_val (ledger_bucket l' Bucket_Free) i = rv_val (ledger_bucket l Bucket_Free) i + rv_val v i \<and>
               rv_val v i \<le> rv_val (ledger_bucket l Bucket_Reserved) i"
proof -
  let ?R = "cl_buckets l ! bucket_index Bucket_Reserved"
  have sub: "is_subset_of v ?R"
    using assms(2) ledger_move_short [of v l Bucket_Reserved Bucket_Free]
    by (auto simp: ledger_release_reserved_def)
  have ok: "rv_mask_ok v"
    using assms ledger_move_undefined [OF assms(1), of Bucket_Reserved v Bucket_Free] sub
    by (auto simp: ledger_release_reserved_def)
  show ?thesis
    using ledger_move_ok [OF assms(1), of Bucket_Reserved Bucket_Free v] sub ok assms(2)
    by (auto simp: ledger_release_reserved_def ledger_bucket_def subset_val_le)
qed

subsection \<open>Closing\<close>

lemma close_reservation_find:
  "find_reservation j (close_reservation now i s) =
     (if j = i then map_option (\<lambda>r. if reservation_holds_capacity (rs_lifecycle r)
                                    then r\<lparr>rs_lifecycle := RL_Released, rs_updated_at_ms := now\<rparr> else r)
                     (find_reservation i s)
      else find_reservation j s)"
  by (auto simp: close_reservation_def Let_def apf_lookup split: option.split prod.split sum.split)

lemma close_reservation_keys [simp]:
  "om_keys (fs_reservations (close_reservation now i s)) = om_keys (fs_reservations s)"
  by (auto simp: close_reservation_def Let_def split: option.split prod.split sum.split)

lemma close_partition_frame [simp]:
  "fs_reservations (close_partition now i s) = fs_reservations s"
  "fs_attempts (close_partition now i s) = fs_attempts s"
  by (simp_all add: close_partition_def Let_def split: option.split)

lemma close_attempt_frame [simp]:
  "fs_reservations (close_attempt now i s) = fs_reservations s"
  "fs_partitions (close_attempt now i s) = fs_partitions s"
  "om_keys (fs_attempts (close_attempt now i s)) = om_keys (fs_attempts s)"
  by (simp_all add: close_attempt_def split: option.split)

lemma close_partition_find:
  "find_partition j (close_partition now i s) =
     (if j = i then map_option
         (\<lambda>r. if pr_state r \<in> {PS_Reserved, PS_Creating, PS_PlanPending}
              then (supersede_record (r\<lparr>pr_held_bucket := None\<rparr>))\<lparr>pr_state := PS_Retired, pr_last_transition_at_ms := now\<rparr>
              else r) (find_partition i s)
      else find_partition j s)"
  by (auto simp: close_partition_def Let_def apf_lookup split: option.split)

lemma close_attempt_find:
  "find_attempt j (close_attempt now i s) =
     (if j = i then map_option
         (\<lambda>a. if at_state a = AT_Registered \<or> at_state a = AT_Dispatched
              then a\<lparr>at_state := AT_OutcomeUnknown, at_settled_at_ms := now\<rparr> else a) (find_attempt i s)
      else find_attempt j s)"
  by (auto simp: close_attempt_def apf_lookup split: option.split)

text \<open>A visit settles its entry for good, so the loop settles every entry.\<close>

lemma settle_loop:
  assumes visit: "\<And>k s. om_find k (g (body k s)) = map_option (f k) (om_find k (g s))"
    and other: "\<And>j k s. j \<noteq> k \<Longrightarrow> om_find j (g (body k s)) = om_find j (g s)"
    and fin: "\<And>k v. Q (f k v)"
    and "om_find k (g (for_keys (om_keys (g s)) body s)) = Some v"
  shows "Q v"
proof -
  have keep: "case om_find k (g t) of None \<Rightarrow> True | Some v \<Rightarrow> Q v"
    if "case om_find k (g t0) of None \<Rightarrow> True | Some v \<Rightarrow> Q v" "t = body j t0" for t t0 j
    using that by (cases "j = k") (auto simp: visit other fin split: option.splits)
  have vis: "case om_find k (g (body k t)) of None \<Rightarrow> True | Some v \<Rightarrow> Q v" for t
    by (simp add: visit fin split: option.split)
  have "case om_find k (g (for_keys (om_keys (g s)) body s)) of None \<Rightarrow> True | Some v \<Rightarrow> Q v"
  proof (cases "k \<in> set (om_keys (g s))")
    case True
    then show ?thesis
      by (rule for_keys_establish [where I = "\<lambda>_. True" and
            Q = "\<lambda>t. case om_find k (g t) of None \<Rightarrow> True | Some v \<Rightarrow> Q v"]) (auto intro: vis keep)
  next
    case False
    then have "om_find k (g s) = None" by (simp add: om_find_eq_None)
    then have "om_find k (g (for_keys ks body s)) = None" for ks
      by (rule for_keys_invariant [where P = "\<lambda>t. om_find k (g t) = None"])
        (metis option.simps(8) other visit)
    then show ?thesis by simp
  qed
  then show ?thesis using assms(4) by simp
qed

lemma close_loops_settled:
  "find_reservation i (close_loops s) = Some r \<Longrightarrow> \<not> reservation_holds_capacity (rs_lifecycle r)"
  "find_partition j (close_loops s) = Some q \<Longrightarrow> pr_state q \<notin> {PS_Reserved, PS_Creating, PS_PlanPending}"
  "find_attempt k (close_loops s) = Some a \<Longrightarrow> at_state a \<noteq> AT_Registered \<and> at_state a \<noteq> AT_Dispatched"
proof -
  let ?n = "fs_now s"
  let ?s1 = "for_keys (om_keys (fs_reservations s)) (close_reservation ?n) s"
  let ?s2 = "for_keys (om_keys (fs_partitions ?s1)) (close_partition ?n) ?s1"
  let ?s3 = "for_keys (om_keys (fs_attempts ?s2)) (close_attempt ?n) ?s2"
  have cl: "close_loops s = ?s3" by (simp add: close_loops_def Let_def)
  have frames: "fs_reservations ?s3 = fs_reservations ?s1" "fs_partitions ?s3 = fs_partitions ?s2"
    by (simp_all add: for_keys_frame [of fs_reservations] for_keys_frame [of fs_partitions])
  show "\<not> reservation_holds_capacity (rs_lifecycle r)" if "find_reservation i (close_loops s) = Some r"
    by (rule settle_loop [where g = fs_reservations and body = "close_reservation ?n" and s = s and k = i
        and f = "\<lambda>_ r. if reservation_holds_capacity (rs_lifecycle r)
                  then r\<lparr>rs_lifecycle := RL_Released, rs_updated_at_ms := ?n\<rparr> else r"])
      (use that in \<open>auto simp: close_reservation_find cl frames\<close>)
  show "pr_state q \<notin> {PS_Reserved, PS_Creating, PS_PlanPending}" if "find_partition j (close_loops s) = Some q"
    by (rule settle_loop [where g = fs_partitions and body = "close_partition ?n" and s = ?s1 and k = j
        and f = "\<lambda>_ r. if pr_state r \<in> {PS_Reserved, PS_Creating, PS_PlanPending}
              then (supersede_record (r\<lparr>pr_held_bucket := None\<rparr>))\<lparr>pr_state := PS_Retired, pr_last_transition_at_ms := ?n\<rparr>
              else r"])
      (use that in \<open>auto simp: close_partition_find cl frames\<close>)
  show "at_state a \<noteq> AT_Registered \<and> at_state a \<noteq> AT_Dispatched" if "find_attempt k (close_loops s) = Some a"
    by (rule settle_loop [where g = fs_attempts and body = "close_attempt ?n" and s = ?s2 and k = k
        and f = "\<lambda>_ a. if at_state a = AT_Registered \<or> at_state a = AT_Dispatched
              then a\<lparr>at_state := AT_OutcomeUnknown, at_settled_at_ms := ?n\<rparr> else a"])
      (use that in \<open>auto simp: close_attempt_find cl\<close>)
qed

lemma verify_accounting_closed:
  "(\<And>k l. (k, l) \<in> set (fs_ledgers s) \<Longrightarrow> ledger_closed l) \<Longrightarrow> verify_accounting s = success"
  by (auto simp: verify_accounting_def om_values_def intro: ledger_closed_validate)

end
