(* ===== verification/APF_Reserve.thy ===== *)
theory APF_Reserve
  imports APF_Authority
begin

text \<open>
  Reservation of a plan, \<^verbatim>\<open>PartitionFabric::reserve\<close> and \<^verbatim>\<open>reserve_for_worker\<close> of
  \<^verbatim>\<open>src/fabric.cpp\<close>. The main results: a successful reservation takes exactly the planned
  capacity from the free bucket once, and a refused one leaves the partitions and every
  bucket as they were.
\<close>

section \<open>The operation\<close>

definition active_reservations :: "fabric_state \<Rightarrow> nat" where
  "active_reservations s =
     length (filter (\<lambda>r. reservation_holds_capacity (rs_lifecycle r)) (om_values (fs_reservations s)))"

text \<open>Terminal reservations are erased from the front while the registry is full.\<close>

definition prune_reservations :: "fabric_state \<Rightarrow> fabric_state" where
  "prune_reservations s =
     (if length (fs_reservations s) \<ge> max_reservations (fs_limits s)
      then s\<lparr>fs_reservations := prune (max_reservations (fs_limits s) - 1)
               (\<lambda>r. reservation_is_terminal (rs_lifecycle r)) (fs_reservations s) (length (fs_reservations s))\<rparr>
      else s)"

fun needed_loop :: "planned_partition list \<Rightarrow> resource_vector \<Rightarrow> resource_vector result" where
  "needed_loop [] needed = Inr needed"
| "needed_loop (p # ps) needed =
     (if rv_empty needed then needed_loop ps (pn_resources p)
      else
        (case rv_add_assign needed (pn_resources p) of
           (_, Inl e) \<Rightarrow> Inl e
         | (needed', Inr _) \<Rightarrow> needed_loop ps needed'))"

definition reserved_record ::
  "partition_plan \<Rightarrow> planned_partition \<Rightarrow> partition_id \<Rightarrow> fabric_state \<Rightarrow> partition_record" where
  "reserved_record plan planned i s =
     partition_default
       \<lparr>pr_id := i, pr_generation := gen_first, pr_profile := pn_profile planned,
        pr_profile_generation := pn_profile_generation planned,
        pr_mechanism := (case find_profile (pn_profile planned) s of
                           Some f \<Rightarrow> pf_mechanism f | None \<Rightarrow> Mechanism_None),
        pr_accelerator := pb_accelerator (pl_binding plan),
        pr_accelerator_generation := pb_accelerator_generation (pl_binding plan),
        pr_accelerator_boot := pb_accelerator_boot (pl_binding plan),
        pr_resources := pn_resources planned, pr_state := PS_Reserved,
        pr_held_bucket := Some Bucket_Reserved,
        pr_provenance := (case find_accelerator (pb_accelerator (pl_binding plan)) s of
                            Some a \<Rightarrow> ac_provenance a | None \<Rightarrow> Provenance_Unknown),
        pr_created_at_ms := fs_now s, pr_last_transition_at_ms := fs_now s\<rparr>"

text \<open>The creation loop: identities so far, and the error that stopped it.\<close>

fun create_reserved ::
  "partition_plan \<Rightarrow> planned_partition list \<Rightarrow> partition_id list \<Rightarrow> fabric_state \<Rightarrow>
     fabric_state \<times> partition_id list \<times> status" where
  "create_reserved plan [] acc s = (s, acc, success)"
| "create_reserved plan (p # ps) acc s =
     (case allocate (fs_ids s) of
        (a, Inl e) \<Rightarrow> (s\<lparr>fs_ids := a\<rparr>, acc, Inl e)
      | (a, Inr i) \<Rightarrow>
          (let s1 = s\<lparr>fs_ids := a\<rparr>;
               r = reserved_record plan p i s1
           in (case partition_validate r of
                 Inl e \<Rightarrow> (s1, acc, Inl e)
               | Inr _ \<Rightarrow>
                   create_reserved plan ps (acc @ [i])
                     (s1\<lparr>fs_partitions := om_set i r (fs_partitions s1)\<rparr>))))"

definition undo_reserve ::
  "accelerator_id \<Rightarrow> resource_vector \<Rightarrow> partition_id list \<Rightarrow> fabric_state \<Rightarrow> fabric_state" where
  "undo_reserve a needed ps s =
     (let s1 = for_keys ps (\<lambda>i s. s\<lparr>fs_partitions := om_erase i (fs_partitions s)\<rparr>) s
      in (case find_ledger a s1 of
            None \<Rightarrow> s1
          | Some l \<Rightarrow> upd_ledger a (fst (ledger_release_reserved needed l)) s1))"

definition new_reservation ::
  "partition_plan \<Rightarrow> resource_vector \<Rightarrow> reservation_id \<Rightarrow> partition_id list \<Rightarrow> fabric_state \<Rightarrow> partition_reservation" where
  "new_reservation plan needed i ps s =
     reservation_default
       \<lparr>rs_id := i, rs_plan := pl_id plan, rs_plan_generation := pl_generation plan,
        rs_accelerator := pb_accelerator (pl_binding plan),
        rs_accelerator_generation := pb_accelerator_generation (pl_binding plan),
        rs_accelerator_boot := pb_accelerator_boot (pl_binding plan),
        rs_capability_generation := pb_capability_generation (pl_binding plan),
        rs_topology_generation := pb_topology_generation (pl_binding plan),
        rs_policy_generation := fs_policy_generation s,
        rs_coordinator_epoch := fs_coordinator_epoch s,
        rs_lifecycle := RL_Active, rs_partitions := ps,
        rs_partition_generations := map (\<lambda>_. gen_first) ps,
        rs_resources := needed, rs_destructive := False,
        rs_created_at_ms := fs_now s, rs_updated_at_ms := fs_now s,
        rs_expires_at_ms := pb_valid_until_ms (pl_binding plan),
        rs_planned_mutations := of_nat (length (pl_planned_partitions plan))\<rparr>"

text \<open>The part of \<^verbatim>\<open>reserve\<close> that runs once the ledger holds the capacity.\<close>

definition reserve_commit ::
  "plan_id \<Rightarrow> partition_plan \<Rightarrow> resource_vector \<Rightarrow> fabric_state \<Rightarrow> fabric_state \<times> partition_reservation result" where
  "reserve_commit plan_id plan needed s =
     (let acc = pb_accelerator (pl_binding plan) in
      (case allocate (fs_ids s) of
         (a, Inl e) \<Rightarrow> (undo_reserve acc needed [] (s\<lparr>fs_ids := a\<rparr>), Inl e)
       | (a, Inr rid) \<Rightarrow>
           (case create_reserved plan (pl_planned_partitions plan) [] (s\<lparr>fs_ids := a\<rparr>) of
              (s1, ps, Inl e) \<Rightarrow> (undo_reserve acc needed ps s1, Inl e)
            | (s1, ps, Inr _) \<Rightarrow>
                (let r = new_reservation plan needed rid ps s in
                 (case reservation_validate r of
                    Inl e \<Rightarrow> (undo_reserve acc needed ps s1, Inl e)
                  | Inr _ \<Rightarrow>
                      (let s2 = s1\<lparr>fs_reservations := om_set rid r (fs_reservations s1)\<rparr>;
                           bound = [(pr_id q, pr_generation q).
                                      p \<leftarrow> ps, q \<leftarrow> (case find_partition p s2 of Some q \<Rightarrow> [q] | None \<Rightarrow> [])];
                           s3 = upd_plan plan_id
                                  (\<lambda>q. q\<lparr>pl_binding := (pl_binding q)
                                          \<lparr>pb_layout := pb_layout (pl_binding q) @ bound\<rparr>\<rparr>) s2
                       in (record_event EX_ReserveAccepted (bump_state_generation s3), Inr r)))))))"

definition reserve :: "plan_id \<Rightarrow> fabric_state \<Rightarrow> fabric_state \<times> partition_reservation result" where
  "reserve plan_id s =
     (case check_open s of Inl e \<Rightarrow> (s, Inl e) | Inr _ \<Rightarrow>
     (case find_plan plan_id s of None \<Rightarrow> (s, failure E_StalePlan) | Some plan \<Rightarrow>
       if \<not> plan_feasible plan then (s, failure E_PolicyRejected)
       else
         (case validate_plan_binding s plan (fs_now s) (pp_require_fresh_evidence (fs_policy s)) of
            Inl e \<Rightarrow>
              (record_event EX_StalePlanRejected
                 (upd_plan plan_id (\<lambda>p. p\<lparr>pl_terminal := True\<rparr>) s), Inl e)
          | Inr _ \<Rightarrow>
              if pl_outcome plan = PO_FeasibleAfterReconfiguration
              then (s, failure E_ReconfigurationRequired)
              else if active_reservations s \<ge> max_active_reservations (fs_limits s)
              then (s, failure E_LimitExceeded)
              else
                (let s1 = prune_reservations s in
                 if length (fs_reservations s1) \<ge> max_reservations (fs_limits s1)
                 then (s1, failure E_LimitExceeded)
                 else
                   (case needed_loop (pl_planned_partitions plan) rv_zeros of
                      Inl e \<Rightarrow> (s1, Inl e)
                    | Inr needed \<Rightarrow>
                        (let acc = pb_accelerator (pl_binding plan);
                             l = (case find_ledger acc s1 of Some l \<Rightarrow> l | None \<Rightarrow> ledger_empty)
                         in (case ledger_reserve needed l of
                               (l', Inl e) \<Rightarrow>
                                 (record_event EX_ReserveRejected
                                    (s1\<lparr>fs_ledgers := om_set acc l' (fs_ledgers s1)\<rparr>), Inl e)
                             | (l', Inr _) \<Rightarrow>
                                 reserve_commit plan_id plan needed
                                   (s1\<lparr>fs_ledgers := om_set acc l' (fs_ledgers s1)\<rparr>))))))))"

text \<open>
  The reservation for a worker takes the lock three times: to check the worker and the epoch, inside
  \<^verbatim>\<open>reserve\<close>, and to bind the reservation. What other threads do between the first two sections is
  \<open>before\<close>, between the last two \<open>between\<close>.
\<close>

definition worker_current :: "worker_id \<Rightarrow> boot_id \<Rightarrow> generation \<Rightarrow> fabric_state \<Rightarrow> status" where
  "worker_current worker boot epoch s =
     (case find_worker worker s of
        None \<Rightarrow> failure E_StaleWorker
      | Some w \<Rightarrow>
          if wk_boot w \<noteq> boot then failure E_StaleWorker
          else if wk_fenced w then failure E_Fenced
          else if epoch \<noteq> fs_coordinator_epoch s then failure E_StaleCoordinatorEpoch
          else success)"

definition bind_reservation ::
  "reservation_id \<Rightarrow> worker_id \<Rightarrow> boot_id \<Rightarrow> generation \<Rightarrow> fabric_state \<Rightarrow> fabric_state \<times> partition_reservation result" where
  "bind_reservation ri worker boot epoch s =
     (case find_reservation ri s of
        None \<Rightarrow> (s, failure E_NotFound)
      | Some r \<Rightarrow>
          (let r' = r\<lparr>rs_worker := worker, rs_worker_boot := boot,
                      rs_coordinator_epoch := epoch, rs_updated_at_ms := fs_now s\<rparr>
           in (bump_state_generation (upd_reservation ri (\<lambda>_. r') s), Inr r')))"

definition reserve_for_worker ::
  "plan_id \<Rightarrow> worker_id \<Rightarrow> boot_id \<Rightarrow> generation \<Rightarrow> (fabric_state \<Rightarrow> fabric_state) \<Rightarrow> (fabric_state \<Rightarrow> fabric_state) \<Rightarrow>
     fabric_state \<Rightarrow> fabric_state \<times> partition_reservation result" where
  "reserve_for_worker plan_id worker boot epoch before between s =
     (case worker_current worker boot epoch s of
        Inl e \<Rightarrow> (s, Inl e)
      | Inr _ \<Rightarrow>
          (case reserve plan_id (before s) of
             (s1, Inl e) \<Rightarrow> (s1, Inl e)
           | (s1, Inr reserved) \<Rightarrow> bind_reservation (rs_id reserved) worker boot epoch (between s1)))"

section \<open>The creation loop\<close>

lemma create_reserved_frame:
  "create_reserved plan ps acc s = (s', acc', st) \<Longrightarrow>
     \<exists>a m. s' = s\<lparr>fs_ids := a, fs_partitions := m\<rparr> \<and> ida_next (fs_ids s) \<le> ida_next a"
proof (induction plan ps acc s rule: create_reserved.induct)
  case (1 plan acc s)
  then show ?case by (intro exI [of _ "fs_ids s"] exI [of _ "fs_partitions s"]) simp
next
  case (2 plan p ps acc s)
  obtain a res where al: "allocate (fs_ids s) = (a, res)" by (cases "allocate (fs_ids s)")
  have le: "ida_next (fs_ids s) \<le> ida_next a" using allocate_monotone [of "fs_ids s"] al by simp
  have here: "\<exists>b m. s\<lparr>fs_ids := a\<rparr> = s\<lparr>fs_ids := b, fs_partitions := m\<rparr> \<and> ida_next (fs_ids s) \<le> ida_next b"
    using le by (intro exI [of _ a] exI [of _ "fs_partitions s"]) simp
  show ?case
  proof (cases res)
    case (Inl e)
    with 2(2) al here show ?thesis by simp
  next
    case (Inr i)
    let ?s1 = "s\<lparr>fs_ids := a\<rparr>"
    let ?r = "reserved_record plan p i ?s1"
    show ?thesis
    proof (cases "partition_validate ?r")
      case (Inl e)
      with 2(2) al \<open>res = Inr i\<close> here show ?thesis by (simp add: Let_def)
    next
      case v: (Inr u)
      with 2(2) al Inr have "create_reserved plan ps (acc @ [i]) (?s1\<lparr>fs_partitions := om_set i ?r (fs_partitions ?s1)\<rparr>) = (s', acc', st)"
        by (simp add: Let_def)
      from 2(1) [OF al [symmetric] Inr refl refl v this] le show ?thesis
        by (auto intro: order_trans)
    qed
  qed
qed

definition reserved_ok :: "partition_plan \<Rightarrow> planned_partition \<Rightarrow> partition_id \<Rightarrow> partition_record \<Rightarrow> bool" where
  "reserved_ok plan p i r \<longleftrightarrow>
     pr_id r = i \<and> pr_generation r = gen_first \<and> pr_state r = PS_Reserved \<and>
     pr_held_bucket r = Some Bucket_Reserved \<and> pr_resources r = pn_resources p \<and>
     pr_accelerator r = pb_accelerator (pl_binding plan) \<and> partition_validate r = success"

lemma reserved_record_ok:
  "partition_validate (reserved_record plan p i s) = success \<Longrightarrow> reserved_ok plan p i (reserved_record plan p i s)"
  by (simp add: reserved_ok_def reserved_record_def)

lemma create_reserved_new:
  assumes "create_reserved plan ps acc s = (s', acc', st)"
  shows "\<exists>new. acc' = acc @ new \<and> sorted_wrt (<) new \<and>
           (\<forall>i\<in>set new. ida_next (fs_ids s) \<le> i \<and> i < ida_next (fs_ids s')) \<and>
           (\<forall>j. j \<notin> set new \<longrightarrow> find_partition j s' = find_partition j s) \<and>
           (\<forall>P. (\<forall>i\<in>set new. \<not> P i) \<longrightarrow>
              filter (\<lambda>e. P (fst e)) (fs_partitions s') = filter (\<lambda>e. P (fst e)) (fs_partitions s)) \<and>
           (st = success \<longrightarrow> list_all2 (\<lambda>i p. \<exists>r. find_partition i s' = Some r \<and> reserved_ok plan p i r) new ps)"
  using assms
proof (induction plan ps acc s rule: create_reserved.induct)
  case (1 plan acc s)
  then show ?case by (intro exI [of _ "[]"]) simp
next
  case (2 plan p ps acc s)
  obtain a res where al: "allocate (fs_ids s) = (a, res)" by (cases "allocate (fs_ids s)")
  show ?case
  proof (cases res)
    case (Inl e)
    with 2(2) al show ?thesis by (intro exI [of _ "[]"]) auto
  next
    case (Inr i)
    let ?s1 = "s\<lparr>fs_ids := a\<rparr>"
    let ?r = "reserved_record plan p i ?s1"
    let ?s2 = "?s1\<lparr>fs_partitions := om_set i ?r (fs_partitions ?s1)\<rparr>"
    have i: "i = ida_next (fs_ids s)" "i < ida_next a"
      using al Inr allocate_below by (auto simp: allocate_Inr)
    show ?thesis
    proof (cases "partition_validate ?r")
      case (Inl e)
      with 2(2) al \<open>res = Inr i\<close> show ?thesis by (intro exI [of _ "[]"]) (auto simp: Let_def)
    next
      case v: (Inr u)
      have rec: "create_reserved plan ps (acc @ [i]) ?s2 = (s', acc', st)"
        using 2(2) al Inr v by (simp add: Let_def)
      obtain new where new: "acc' = (acc @ [i]) @ new" "sorted_wrt (<) new"
        "\<forall>j\<in>set new. ida_next a \<le> j \<and> j < ida_next (fs_ids s')"
        "\<forall>j. j \<notin> set new \<longrightarrow> find_partition j s' = find_partition j ?s2"
        "\<forall>P. (\<forall>i\<in>set new. \<not> P i) \<longrightarrow> filter (\<lambda>e. P (fst e)) (fs_partitions s') = filter (\<lambda>e. P (fst e)) (fs_partitions ?s2)"
        "st = success \<longrightarrow> list_all2 (\<lambda>i p. \<exists>r. find_partition i s' = Some r \<and> reserved_ok plan p i r) new ps"
        using 2(1) [OF al [symmetric] Inr refl refl v rec] by auto
      have notin: "i \<notin> set new" using new(3) i by (meson leD)
      have mono: "ida_next a \<le> ida_next (fs_ids s')"
        using create_reserved_frame [OF rec] by auto
      have filt: "filter (\<lambda>e. P (fst e)) (om_set i v m) = filter (\<lambda>e. P (fst e)) m" if "\<not> P i" for P v and m :: "(u64, partition_record) omap"
        using that by (induction m) auto
      have "reserved_ok plan p i ?r" using v reserved_record_ok by simp
      then have here: "\<exists>r. find_partition i s' = Some r \<and> reserved_ok plan p i r"
        using new(4) notin by (simp add: apf_lookup)
      show ?thesis
      proof (intro exI [of _ "i # new"] conjI)
        show "sorted_wrt (<) (i # new)" using new(2,3) i by (auto intro: less_le_trans)
        show "\<forall>j\<in>set (i # new). ida_next (fs_ids s) \<le> j \<and> j < ida_next (fs_ids s')"
          using new(3) i mono by (auto intro: less_le_trans order_trans less_imp_le)
        show "\<forall>j. j \<notin> set (i # new) \<longrightarrow> find_partition j s' = find_partition j s"
          using new(4) by (simp add: apf_lookup)
        show "\<forall>P. (\<forall>i\<in>set (i # new). \<not> P i) \<longrightarrow>
            filter (\<lambda>e. P (fst e)) (fs_partitions s') = filter (\<lambda>e. P (fst e)) (fs_partitions s)"
          using new(5) filt by simp
        show "st = success \<longrightarrow> list_all2 (\<lambda>i p. \<exists>r. find_partition i s' = Some r \<and> reserved_ok plan p i r) (i # new) (p # ps)"
          using new(6) here by simp
      qed (use new(1) in simp)
    qed
  qed
qed

lemma undo_partitions:
  assumes fresh: "\<And>k. k \<in> set (om_keys (fs_partitions s)) \<Longrightarrow> k < ida_next (fs_ids s)"
    and cr: "create_reserved plan ps [] s = (s', new, st)"
  shows "fs_partitions (undo_reserve a needed new s') = fs_partitions s"
proof -
  have erase: "fs_partitions (for_keys is (\<lambda>i s. s\<lparr>fs_partitions := om_erase i (fs_partitions s)\<rparr>) t) =
      filter (\<lambda>e. fst e \<notin> set is) (fs_partitions t)" for "is" t
    by (induction "is" arbitrary: t) (auto simp: om_erase_def intro!: filter_cong)
  from create_reserved_new [OF cr] obtain new' where new: "new = new'" "\<forall>i\<in>set new'. ida_next (fs_ids s) \<le> i"
    "\<forall>P. (\<forall>i\<in>set new'. \<not> P i) \<longrightarrow> filter (\<lambda>e. P (fst e)) (fs_partitions s') = filter (\<lambda>e. P (fst e)) (fs_partitions s)"
    by auto
  have "filter (\<lambda>e. fst e \<notin> set new) (fs_partitions s') = filter (\<lambda>e. fst e \<notin> set new) (fs_partitions s)"
    using new(3) [rule_format, of "\<lambda>i. i \<notin> set new"] new(1) by simp
  also have "\<dots> = fs_partitions s"
  proof (rule filter_True, rule ballI)
    fix e assume "e \<in> set (fs_partitions s)"
    then have "fst e < ida_next (fs_ids s)" using fresh [of "fst e"] by (simp add: om_keys_def)
    then show "fst e \<notin> set new" using new(1,2) by (auto dest: leD)
  qed
  finally show ?thesis
    by (simp add: undo_reserve_def Let_def erase split: option.split)
qed

section \<open>The capacity a plan needs\<close>

lemma needed_loop_sum:
  assumes "needed_loop ps v = Inr w" "rv_wf v" "\<forall>p\<in>set ps. rv_wf (pn_resources p)"
  shows "rv_wf w \<and> (\<forall>i<8. rv_val w i = rv_val v i + (\<Sum>p\<leftarrow>ps. rv_val (pn_resources p) i))"
  using assms
proof (induction ps arbitrary: v)
  case (Cons p ps)
  show ?case
  proof (cases "rv_empty v")
    case True
    then have "rv_val v i = 0" for i by (simp add: rv_val_def rv_empty_def)
    with Cons.IH [of "pn_resources p"] Cons.prems True show ?thesis by simp
  next
    case False
    obtain v' st where a: "rv_add_assign v (pn_resources p) = (v', st)" by fastforce
    with False Cons.prems(1) have st: "st = success" by (cases st) auto
    have within: "dims_within (pn_resources p) v"
      using a st rv_add_assign_incompatible by fastforce
    have "rv_wf v' \<and> (\<forall>i<8. rv_val v' i = rv_val v i + rv_val (pn_resources p) i)"
      using rv_add_assign_spec [OF Cons.prems(2) within] a st by (auto split: if_splits)
    with Cons.IH [of v'] Cons.prems False a st show ?thesis by simp
  qed
qed simp

section \<open>Accounting\<close>

definition accounting_inv :: "fabric_state \<Rightarrow> bool" where
  "accounting_inv s \<longleftrightarrow> om_sorted (fs_ledgers s) \<and> ledgers_balanced s \<and>
     (\<forall>k a. find_accelerator k s = Some a \<longrightarrow> (\<exists>l. find_ledger k s = Some l \<and> ledger_closed l))"

lemma om_set_existing: "om_sorted m \<Longrightarrow> om_find k m = Some v \<Longrightarrow> om_set k v' m = om_modify k (\<lambda>_. v') m"
proof (induction m)
  case (Cons e m)
  obtain k0 v0 where e: "e = (k0, v0)" by (cases e)
  have srt: "om_sorted m" and gt: "\<forall>x\<in>set m. k0 < fst x"
    using Cons.prems(1) by (auto simp: e om_sorted_def)
  have same: "map (\<lambda>e. if fst e = k then (fst e, v') else e) m = m" if "k = k0"
    using gt that by (intro map_idI) auto
  have "k0 < k" if "k \<noteq> k0"
    using Cons.prems(2) gt that by (force simp: e om_find_Cons dest: om_find_in_set)
  with Cons.IH [OF srt] Cons.prems(2) same show ?case
    by (auto simp: e om_find_Cons om_modify_def)
qed simp

lemma ledgers_evolve_set:
  assumes "om_sorted (fs_ledgers s)" "find_ledger a s = Some l" "ledger_step l l'"
  shows "ledgers_evolve s (s\<lparr>fs_ledgers := om_set a l' (fs_ledgers s)\<rparr>)"
  using ledgers_evolve_upd [OF assms(2,3)] om_set_existing [OF assms(1,2)] by simp

lemma reserve_step: "ledger_reserve v l = (l', st) \<Longrightarrow> ledger_step l l'"
  unfolding ledger_step_def using reserve_op.op_balanced [of l v] reserve_op.op_total [of v l] by simp

lemma prune_reservations_frame [simp]:
  "fs_ledgers (prune_reservations s) = fs_ledgers s" "fs_partitions (prune_reservations s) = fs_partitions s"
  "fs_attempts (prune_reservations s) = fs_attempts s" "fs_limits (prune_reservations s) = fs_limits s"
  "fs_ids (prune_reservations s) = fs_ids s" "fs_coordinator_epoch (prune_reservations s) = fs_coordinator_epoch s"
  "fs_state_generation (prune_reservations s) = fs_state_generation s"
  "fs_policy_generation (prune_reservations s) = fs_policy_generation s"
  "fs_evidence_generation (prune_reservations s) = fs_evidence_generation s"
  "fs_accelerators (prune_reservations s) = fs_accelerators s"
  "fs_now (prune_reservations s) = fs_now s"
  by (simp_all add: prune_reservations_def)

lemma undo_ledgers: "ledgers_evolve s (undo_reserve a needed ps s)"
proof -
  let ?s1 = "for_keys ps (\<lambda>i s. s\<lparr>fs_partitions := om_erase i (fs_partitions s)\<rparr>) s"
  have "fs_ledgers ?s1 = fs_ledgers s" by (rule for_keys_frame) simp
  then have "ledgers_evolve s ?s1" by blast
  also have "ledgers_evolve ?s1 (undo_reserve a needed ps s)"
  proof (cases "find_ledger a ?s1")
    case (Some l)
    then have "ledgers_evolve ?s1 (upd_ledger a (fst (ledger_release_reserved needed l)) ?s1)"
      using release_reserved_step [OF prod.collapse [symmetric]] by (rule ledgers_evolve_upd)
    with Some show ?thesis by (simp add: undo_reserve_def Let_def)
  qed (simp add: undo_reserve_def Let_def)
  finally show ?thesis .
qed

lemma create_reserved_ledgers: "create_reserved plan ps acc s = (s', acc', st) \<Longrightarrow> fs_ledgers s' = fs_ledgers s"
  by (drule create_reserved_frame) auto

text \<open>How \<open>reserve_commit\<close> ends: everything undone, or the reservation registered.\<close>

lemma reserve_commit_cases:
  obtains (undone) a qs t new st e where
    "ida_next (fs_ids s) \<le> ida_next a" "create_reserved plan qs [] (s\<lparr>fs_ids := a\<rparr>) = (t, new, st)"
    "reserve_commit pid plan needed s = (undo_reserve (pb_accelerator (pl_binding plan)) needed new t, Inl e)"
  | (reserved) a rid t ps f where
    "allocate (fs_ids s) = (a, Inr rid)"
    "create_reserved plan (pl_planned_partitions plan) [] (s\<lparr>fs_ids := a\<rparr>) = (t, ps, success)"
    "reservation_validate (new_reservation plan needed rid ps s) = success"
    "reserve_commit pid plan needed s =
       (record_event EX_ReserveAccepted (bump_state_generation (upd_plan pid f
          (t\<lparr>fs_reservations := om_set rid (new_reservation plan needed rid ps s) (fs_reservations t)\<rparr>))),
        Inr (new_reservation plan needed rid ps s))"
proof (cases "allocate (fs_ids s)")
  case (Pair a res)
  have le: "ida_next (fs_ids s) \<le> ida_next a" using allocate_monotone [of "fs_ids s"] Pair by simp
  show ?thesis
  proof (cases res)
    case (Inl e)
    with Pair le show ?thesis
      by (intro undone [of a "[]"]) (simp_all add: reserve_commit_def)
  next
    case (Inr rid)
    obtain t ps st where c: "create_reserved plan (pl_planned_partitions plan) [] (s\<lparr>fs_ids := a\<rparr>) = (t, ps, st)"
      by (metis prod.exhaust)
    show ?thesis
    proof (cases "st = success \<and> reservation_validate (new_reservation plan needed rid ps s) = success")
      case True
      with Pair Inr c show ?thesis
        by (intro reserved) (simp_all add: reserve_commit_def Let_def)
    next
      case False
      then have "\<exists>e. reserve_commit pid plan needed s = (undo_reserve (pb_accelerator (pl_binding plan)) needed ps t, Inl e)"
        using Pair Inr c by (auto simp: reserve_commit_def Let_def split: sum.split)
      with le c show ?thesis by (blast intro: undone)
    qed
  qed
qed

lemma reserve_commit_ledgers: "ledgers_evolve s (fst (reserve_commit pid plan needed s))"
proof (cases rule: reserve_commit_cases [of s plan pid needed])
  case (undone a qs t new st e)
  then have "fs_ledgers t = fs_ledgers s" by (auto dest: create_reserved_ledgers)
  then have "ledgers_evolve s (undo_reserve (pb_accelerator (pl_binding plan)) needed new t)"
    using ledgers_evolve_trans [OF ledgers_evolve_same undo_ledgers] by blast
  with undone show ?thesis by simp
next
  case (reserved a rid t ps f)
  then have "fs_ledgers t = fs_ledgers s" by (auto dest: create_reserved_ledgers)
  with reserved show ?thesis by (intro ledgers_evolve_same) simp
qed

lemma reserve_ledgers [apf_inv]:
  assumes "accounting_inv s"
  shows "ledgers_evolve s (fst (reserve pid s))"
proof (cases "find_plan pid s")
  case None
  then show ?thesis by (simp add: reserve_def split: sum.split)
next
  case (Some plan)
  let ?acc = "pb_accelerator (pl_binding plan)"
  show ?thesis
  proof (cases "validate_plan_binding s plan (fs_now s) (pp_require_fresh_evidence (fs_policy s))")
    case (Inl e)
    with Some show ?thesis by (auto simp: reserve_def split: sum.split)
  next
    case (Inr u)
    then obtain a where "find_accelerator ?acc s = Some a"
      by (auto simp: validate_plan_binding_iff)
    then obtain l where l: "find_ledger ?acc s = Some l"
      using assms by (auto simp: accounting_inv_def)
    have srt: "om_sorted (fs_ledgers s)" using assms by (simp add: accounting_inv_def)
    have prune: "ledgers_evolve s (prune_reservations s)" by (rule ledgers_evolve_same) simp
    have set: "ledgers_evolve s ((prune_reservations s)\<lparr>fs_ledgers := om_set ?acc l' (fs_ledgers (prune_reservations s))\<rparr>)"
      if "ledger_reserve v l = (l', st)" for v l' st
      using ledgers_evolve_trans [OF prune ledgers_evolve_set] srt l reserve_step [OF that] by simp
    have "ledgers_evolve s (fst (reserve_commit pid plan v
        ((prune_reservations s)\<lparr>fs_ledgers := om_set ?acc l' (fs_ledgers (prune_reservations s))\<rparr>)))"
      if "ledger_reserve v l = (l', st)" for v l' st
      using ledgers_evolve_trans [OF set [OF that] reserve_commit_ledgers] .
    moreover have "ledgers_evolve s (record_event c
        ((prune_reservations s)\<lparr>fs_ledgers := om_set ?acc l' (fs_ledgers (prune_reservations s))\<rparr>))"
      if "ledger_reserve v l = (l', st)" for v l' st c
      by (rule ledgers_evolve_cong [OF _ set [OF that]]) simp
    ultimately show ?thesis
      using Some Inr l prune by (auto simp: reserve_def Let_def split: sum.split prod.split)
  qed
qed

section \<open>Exactly once, or not at all\<close>

definition same_buckets :: "capacity_ledger \<Rightarrow> capacity_ledger \<Rightarrow> bool" where
  "same_buckets l l' \<longleftrightarrow> cl_total l' = cl_total l \<and>
     (\<forall>b<6. \<forall>i<8. rv_val (cl_buckets l' ! b) i = rv_val (cl_buckets l ! b) i)"

lemma same_buckets_refl [simp]: "same_buckets l l"
  by (simp add: same_buckets_def)

lemma ledger_reserve_moves:
  assumes "ledger_balanced l" "ledger_reserve v l = (l', success)"
  shows "rv_mask_ok v \<and> ledger_balanced l' \<and> is_subset_of v (cl_buckets l ! 1) \<and>
         (\<forall>i<8. \<forall>b<6. rv_val (cl_buckets l' ! b) i =
            (if b = 1 then rv_val (cl_buckets l ! b) i - rv_val v i
             else if b = 2 then rv_val (cl_buckets l ! b) i + rv_val v i
             else rv_val (cl_buckets l ! b) i))"
proof -
  have m: "ledger_move Bucket_Free Bucket_Reserved v l = (l', success)"
    using assms(2) by (auto simp: ledger_reserve_def split: if_splits)
  have sub: "is_subset_of v (cl_buckets l ! 1)"
    using m ledger_move_short [of v l Bucket_Free Bucket_Reserved] by auto
  have ok: "rv_mask_ok v"
    using m ledger_move_undefined [OF assms(1), of Bucket_Free v Bucket_Reserved] sub by auto
  show ?thesis
    using ledger_move_ok [OF assms(1), of Bucket_Free Bucket_Reserved v] sub ok m by auto
qed

lemma reserve_then_release:
  assumes bal: "ledger_balanced l" and res: "ledger_reserve v l = (l1, success)"
  shows "same_buckets l (fst (ledger_release_reserved v l1))"
proof -
  note m = ledger_reserve_moves [OF bal res]
  have total: "cl_total l1 = cl_total l" using reserve_op.op_total [of v l] res by simp
  have masks: "rv_mask (cl_buckets l1 ! 2) = rv_mask (cl_buckets l ! 1)"
    using m bal total ledger_wf_bucket [of l 1] ledger_wf_bucket [of l1 2] by (simp add: ledger_balanced_def)
  have le: "rv_val v i \<le> rv_val (cl_buckets l ! 1) i" if "i < 8" for i
    using m that by (simp add: subset_val_le)
  have "is_subset_of v (cl_buckets l1 ! 2)"
    using m masks by (auto simp: is_subset_of_iff)
  then obtain l2 where l2: "ledger_move Bucket_Reserved Bucket_Free v l1 = (l2, success)"
    "\<forall>i<8. \<forall>c<6. rv_val (cl_buckets l2 ! c) i =
       (if c = 2 then rv_val (cl_buckets l1 ! c) i - rv_val v i
        else if c = 1 then rv_val (cl_buckets l1 ! c) i + rv_val v i
        else rv_val (cl_buckets l1 ! c) i)"
    using ledger_move_ok [of l1 Bucket_Reserved Bucket_Free v] m by auto
  have "cl_total l2 = cl_total l1"
    using ledger_move_total [of Bucket_Reserved Bucket_Free v l1] l2(1) by simp
  then show ?thesis
    using l2 m le total by (auto simp: same_buckets_def ledger_release_reserved_def)
qed

subsection \<open>Both outcomes of a reservation\<close>

text \<open>
  Every way through \<open>reserve\<close>, with the ledger of the planned device. A device without a ledger is
  given a blank one by \<^verbatim>\<open>state.ledgers[id]\<close>, from which nothing can be reserved.
\<close>

lemma reserve_blank: "\<exists>e. ledger_reserve v ledger_empty = (ledger_empty, Inl e)"
proof -
  obtain l' st where r: "ledger_reserve v ledger_empty = (l', st)" by fastforce
  have "st \<noteq> success"
  proof
    assume "st = success"
    with r have m: "ledger_reserve v ledger_empty = (l', success)" by simp
    have "dims_within v rv_zeros"
      using ledger_reserve_moves [OF ledger_empty_balanced m] subset_dims_within by (auto simp: ledger_empty_def)
    then have "rv_mask v = 0" by (intro bit_eqI) (auto simp: dims_within_def rv_zeros_def)
    with m show False by (simp add: ledger_reserve_def rv_empty_def)
  qed
  then show ?thesis using r ledger_reserve_error by (cases st) auto
qed

lemma reserve_cases:
  assumes srt: "om_sorted (fs_ledgers s)"
  obtains (rejected) e t where "reserve pid s = (t, Inl e)" "fs_ledgers t = fs_ledgers s"
      "fs_partitions t = fs_partitions s" "set (fs_reservations t) \<subseteq> set (fs_reservations s)"
      "fs_attempts t = fs_attempts s" "counters_advance s t"
  | (short) e plan l needed t where "find_plan pid s = Some plan"
      "find_ledger (pb_accelerator (pl_binding plan)) s = Some l" "ledger_reserve needed l = (l, Inl e)"
      "reserve pid s = (t, Inl e)" "fs_ledgers t = om_modify (pb_accelerator (pl_binding plan)) (\<lambda>_. l) (fs_ledgers s)"
      "fs_partitions t = fs_partitions s" "set (fs_reservations t) \<subseteq> set (fs_reservations s)"
      "fs_attempts t = fs_attempts s" "counters_advance s t"
  | (granted) plan l l' needed where "find_plan pid s = Some plan"
      "validate_plan_binding s plan (fs_now s) (pp_require_fresh_evidence (fs_policy s)) = success"
      "pl_outcome plan \<noteq> PO_FeasibleAfterReconfiguration" "plan_feasible plan" "\<not> fs_closed s"
      "find_ledger (pb_accelerator (pl_binding plan)) s = Some l"
      "needed_loop (pl_planned_partitions plan) rv_zeros = Inr needed"
      "ledger_reserve needed l = (l', success)"
      "reserve pid s = reserve_commit pid plan needed
         (upd_ledger (pb_accelerator (pl_binding plan)) l' (prune_reservations s))"
  | (blank) e plan t where "find_plan pid s = Some plan" "find_accelerator (pb_accelerator (pl_binding plan)) s \<noteq> None"
      "find_ledger (pb_accelerator (pl_binding plan)) s = None" "reserve pid s = (t, Inl e)"
      "fs_ledgers t = om_set (pb_accelerator (pl_binding plan)) ledger_empty (fs_ledgers s)"
      "fs_partitions t = fs_partitions s" "set (fs_reservations t) \<subseteq> set (fs_reservations s)"
      "fs_attempts t = fs_attempts s" "counters_advance s t"
proof -
  have pr: "set (fs_reservations (prune_reservations s)) \<subseteq> set (fs_reservations s)"
    by (simp add: prune_reservations_def prune_subset)
  have cp: "counters_advance s (prune_reservations s)" by (simp add: counters_advance_def)
  show thesis
  proof (cases "check_open s = success \<and> (\<exists>plan. find_plan pid s = Some plan \<and> plan_feasible plan \<and>
      validate_plan_binding s plan (fs_now s) (pp_require_fresh_evidence (fs_policy s)) = success \<and>
      pl_outcome plan \<noteq> PO_FeasibleAfterReconfiguration \<and>
      active_reservations s < max_active_reservations (fs_limits s) \<and>
      length (fs_reservations (prune_reservations s)) < max_reservations (fs_limits s) \<and>
      (\<exists>needed. needed_loop (pl_planned_partitions plan) rv_zeros = Inr needed))")
    case False
    have "\<exists>e t. reserve pid s = (t, Inl e) \<and> (t = s \<or> t = prune_reservations s \<or>
        t = record_event EX_StalePlanRejected (upd_plan pid (\<lambda>p. p\<lparr>pl_terminal := True\<rparr>) s))"
      using False
      by (auto simp: reserve_def Let_def not_less split: sum.split option.split prod.split) 
    then obtain e t where "reserve pid s = (t, Inl e)" "t = s \<or> t = prune_reservations s \<or>
        t = record_event EX_StalePlanRejected (upd_plan pid (\<lambda>p. p\<lparr>pl_terminal := True\<rparr>) s)" by blast
    then show thesis
      using pr cp by (intro rejected [of t e]) (auto simp: counters_advance_def)
  next
    case True
    then obtain plan needed where p: "check_open s = success" "find_plan pid s = Some plan" "plan_feasible plan"
      "validate_plan_binding s plan (fs_now s) (pp_require_fresh_evidence (fs_policy s)) = success"
      "pl_outcome plan \<noteq> PO_FeasibleAfterReconfiguration"
      "active_reservations s < max_active_reservations (fs_limits s)"
      "length (fs_reservations (prune_reservations s)) < max_reservations (fs_limits s)"
      "needed_loop (pl_planned_partitions plan) rv_zeros = Inr needed"
      by blast
    let ?acc = "pb_accelerator (pl_binding plan)"
    have known: "find_accelerator ?acc s \<noteq> None"
      using p(4) by (auto simp: validate_plan_binding_iff)
    show thesis
    proof (cases "find_ledger ?acc s")
      case None
      obtain e where "ledger_reserve needed ledger_empty = (ledger_empty, Inl e)" using reserve_blank by blast
      with p None have "reserve pid s = (record_event EX_ReserveRejected ((prune_reservations s)
          \<lparr>fs_ledgers := om_set ?acc ledger_empty (fs_ledgers (prune_reservations s))\<rparr>), Inl e)"
        by (simp add: reserve_def Let_def)
      from blank [OF p(2) known None this] show thesis using pr cp by (simp add: counters_advance_def)
    next
      case (Some l)
      note l = Some
      obtain l' st where r: "ledger_reserve needed l = (l', st)" by fastforce
      have upd: "om_set ?acc x (fs_ledgers s) = om_modify ?acc (\<lambda>_. x) (fs_ledgers s)" for x
        using om_set_existing [of "fs_ledgers s" ?acc l x] l srt by simp
      show thesis
      proof (cases st)
        case (Inl e)
        then have "l' = l" using r ledger_reserve_error by blast
        with p l r Inl upd have "reserve pid s = (record_event EX_ReserveRejected
            (upd_ledger ?acc l (prune_reservations s)), Inl e)"
          by (simp add: reserve_def Let_def)
        then show thesis
          using p l r Inl \<open>l' = l\<close> pr cp
          by (intro short [of plan l needed e "record_event EX_ReserveRejected (upd_ledger ?acc l (prune_reservations s))"]) (auto simp: counters_advance_def)
      next
        case (Inr u)
        with p l r upd show thesis
          by (intro granted [of plan l needed l']) (simp_all add: reserve_def Let_def check_open_def split: if_splits)
      qed
    qed
  qed
qed

lemma accounting_sorted: "accounting_inv s \<Longrightarrow> om_sorted (fs_ledgers s)"
  by (simp add: accounting_inv_def)

lemma undo_reserve_frame [simp]:
  "fs_reservations (undo_reserve a v ps s) = fs_reservations s"
  "fs_attempts (undo_reserve a v ps s) = fs_attempts s"
  "fs_ids (undo_reserve a v ps s) = fs_ids s"
  "counters_advance t (undo_reserve a v ps s) = counters_advance t s"
proof -
  let ?s1 = "for_keys ps (\<lambda>i s. s\<lparr>fs_partitions := om_erase i (fs_partitions s)\<rparr>) s"
  have fr: "fs_reservations ?s1 = fs_reservations s" "fs_attempts ?s1 = fs_attempts s" "fs_ids ?s1 = fs_ids s"
    "fs_limits ?s1 = fs_limits s" "fs_coordinator_epoch ?s1 = fs_coordinator_epoch s"
    "fs_state_generation ?s1 = fs_state_generation s" "fs_policy_generation ?s1 = fs_policy_generation s"
    "fs_evidence_generation ?s1 = fs_evidence_generation s"
    by (rule for_keys_frame, simp)+
  show "fs_reservations (undo_reserve a v ps s) = fs_reservations s"
    "fs_attempts (undo_reserve a v ps s) = fs_attempts s" "fs_ids (undo_reserve a v ps s) = fs_ids s"
    "counters_advance t (undo_reserve a v ps s) = counters_advance t s"
    using fr by (simp_all add: undo_reserve_def Let_def counters_advance_def split: option.split)
qed

lemma undo_reserve_ledger:
  "find_ledger k (undo_reserve a v ps s) =
     (if k = a then map_option (\<lambda>l. fst (ledger_release_reserved v l)) (find_ledger a s) else find_ledger k s)"
proof -
  let ?s1 = "for_keys ps (\<lambda>i s. s\<lparr>fs_partitions := om_erase i (fs_partitions s)\<rparr>) s"
  have fr: "fs_ledgers ?s1 = fs_ledgers s" by (rule for_keys_frame) simp
  then show ?thesis by (auto simp: undo_reserve_def Let_def apf_lookup split: option.split)
qed

text \<open>A refused reservation: no partition, no reservation, and every bucket as before.\<close>

lemma reserve_refused:
  assumes inv: "accounting_inv s" and fresh: "ids_fresh s" and refused: "reserve pid s = (s', Inl e)"
  shows "fs_partitions s' = fs_partitions s \<and> set (fs_reservations s') \<subseteq> set (fs_reservations s) \<and>
         (\<forall>k. rel_option same_buckets (find_ledger k s) (find_ledger k s'))"
  using accounting_sorted [OF inv]
proof (cases rule: reserve_cases [where pid = pid])
  case (blank e plan t)
  then show ?thesis using inv by (auto simp: accounting_inv_def)
next
  case (rejected e t)
  with refused show ?thesis by (auto intro: option.rel_refl)
next
  case (short e plan l needed t)
  with refused have "rel_option same_buckets (find_ledger k s) (find_ledger k s')" for k
    by (auto simp: apf_lookup intro: option.rel_refl)
  with short refused show ?thesis by simp
next
  case (granted plan l l' needed)
  let ?acc = "pb_accelerator (pl_binding plan)"
  let ?s1 = "upd_ledger ?acc l' (prune_reservations s)"
  show ?thesis
  proof (cases rule: reserve_commit_cases [of ?s1 plan pid needed])
    case (undone a qs t new st e')
    then have s': "s' = undo_reserve ?acc needed new t" using granted refused by simp
    obtain b m where t: "t = ?s1\<lparr>fs_ids := b, fs_partitions := m\<rparr>"
      using create_reserved_frame [OF undone(2)] by auto
    have "fs_partitions s' = fs_partitions (?s1\<lparr>fs_ids := a\<rparr>)"
      unfolding s' using undone(2)
    proof (rule undo_partitions [rotated])
      fix k assume "k \<in> set (om_keys (fs_partitions (?s1\<lparr>fs_ids := a\<rparr>)))"
      then have "k < ida_next (fs_ids s)" using fresh by (simp add: ids_fresh_def used_ids_def)
      then show "k < ida_next (fs_ids (?s1\<lparr>fs_ids := a\<rparr>))"
        using undone(1) by (simp add: less_le_trans)
    qed
    moreover have "rel_option same_buckets (find_ledger k s) (find_ledger k s')" for k
    proof (cases "k = ?acc")
      case True
      have "ledger_balanced l" using inv granted(6) by (auto simp: accounting_inv_def ledgers_balanced_def)
      then have "same_buckets l (fst (ledger_release_reserved needed l'))"
        using granted(8) by (rule reserve_then_release)
      then show ?thesis using True granted(6) by (simp add: s' t undo_reserve_ledger apf_lookup)
    next
      case False
      then show ?thesis by (auto simp: s' t undo_reserve_ledger apf_lookup intro: option.rel_refl)
    qed
    moreover have "set (fs_reservations s') \<subseteq> set (fs_reservations s)"
      by (simp add: s' t prune_reservations_def prune_subset)
    ultimately show ?thesis by simp
  next
    case (reserved a rid t ps f)
    with granted refused show ?thesis by simp
  qed
qed

text \<open>A granted reservation: the planned capacity moves from free to reserved, once.\<close>

lemma reserve_granted:
  assumes inv: "accounting_inv s" and ok: "reserve pid s = (s', Inr r)"
    and wf: "\<And>plan p. find_plan pid s = Some plan \<Longrightarrow> p \<in> set (pl_planned_partitions plan) \<Longrightarrow> rv_wf (pn_resources p)"
  shows "\<exists>plan l l'. find_plan pid s = Some plan \<and>
     validate_plan_binding s plan (fs_now s) (pp_require_fresh_evidence (fs_policy s)) = success \<and>
     find_ledger (pb_accelerator (pl_binding plan)) s = Some l \<and>
     find_ledger (pb_accelerator (pl_binding plan)) s' = Some l' \<and>
     (\<forall>i<8. \<forall>b<6. rv_val (cl_buckets l' ! b) i =
        (let n = (\<Sum>p\<leftarrow>pl_planned_partitions plan. rv_val (pn_resources p) i) in
         if b = 1 then rv_val (cl_buckets l ! b) i - n
         else if b = 2 then rv_val (cl_buckets l ! b) i + n
         else rv_val (cl_buckets l ! b) i)) \<and>
     find_reservation (rs_id r) s' = Some r \<and> rs_lifecycle r = RL_Active \<and>
     rs_coordinator_epoch r = fs_coordinator_epoch s \<and>
     list_all2 (\<lambda>i p. \<exists>q. find_partition i s' = Some q \<and> reserved_ok plan p i q)
       (rs_partitions r) (pl_planned_partitions plan)"
  using accounting_sorted [OF inv]
proof (cases rule: reserve_cases [where pid = pid])
  case (granted plan l l' needed)
  let ?acc = "pb_accelerator (pl_binding plan)"
  let ?s1 = "upd_ledger ?acc l' (prune_reservations s)"
  have bal: "ledger_balanced l" using inv granted(6) by (auto simp: accounting_inv_def ledgers_balanced_def)
  have sum: "rv_val needed i = (\<Sum>p\<leftarrow>pl_planned_partitions plan. rv_val (pn_resources p) i)" if "i < 8" for i
    using needed_loop_sum [OF granted(7) rv_wf_zeros] wf [OF granted(1)] that by simp
  show ?thesis
  proof (cases rule: reserve_commit_cases [of ?s1 plan pid needed])
    case (undone a qs t new st e')
    with granted ok show ?thesis by simp
  next
    case (reserved a rid t ps f)
    have r: "r = new_reservation plan needed rid ps ?s1" using reserved granted ok by simp
    obtain b m where t: "t = ?s1\<lparr>fs_ids := b, fs_partitions := m\<rparr>"
      using create_reserved_frame [OF reserved(2)] by auto
    have s': "fs_partitions s' = m" "fs_ledgers s' = om_modify ?acc (\<lambda>_. l') (fs_ledgers s)"
      "find_reservation rid s' = Some r"
      using reserved granted ok by (auto simp: t r apf_lookup)
    have "list_all2 (\<lambda>i p. \<exists>q. find_partition i s' = Some q \<and> reserved_ok plan p i q) ps (pl_planned_partitions plan)"
      using create_reserved_new [OF reserved(2)] s'(1) by (auto simp: t)
    then show ?thesis
      using granted s' ledger_reserve_moves [OF bal granted(8)] sum
      by (intro exI [of _ plan] exI [of _ l] exI [of _ l'])
        (simp add: r new_reservation_def apf_lookup Let_def)
  qed
qed (use ok in simp_all)

text \<open>
  A reservation for a worker: the worker and the epoch were current in the first section, and the
  record that \<open>reserve\<close> created carries them, whatever happened in between.
\<close>

lemma reserve_worker_checked:
  assumes "reserve_for_worker pid worker boot epoch before between s = (t, Inr r)"
  shows "\<exists>w q s1. find_worker worker s = Some w \<and> wk_boot w = boot \<and> \<not> wk_fenced w \<and> epoch = fs_coordinator_epoch s \<and>
    reserve pid (before s) = (s1, Inr q) \<and> find_reservation (rs_id q) t = Some r \<and>
    rs_worker r = worker \<and> rs_worker_boot r = boot \<and> rs_coordinator_epoch r = epoch"
  using assms
  by (auto simp: reserve_for_worker_def worker_current_def bind_reservation_def Let_def apf_lookup
      split: option.splits if_splits prod.splits sum.splits)

section \<open>Authority across a reservation\<close>

text \<open>
  Operations that also erase terminal reservations or settled attempts still never move a
  partition or a counter backwards.
\<close>

definition authority_advances :: "fabric_state \<Rightarrow> fabric_state \<Rightarrow> bool" where
  "authority_advances s t \<longleftrightarrow>
     keeps partition_step (fs_partitions s) (fs_partitions t) \<and> counters_advance s t \<and> ids_allocated s t"

lemma authority_advances_refl [simp]: "authority_advances s s"
  by (simp add: authority_advances_def keeps_refls)

lemma authority_advances_trans [trans]:
  "authority_advances s t \<Longrightarrow> authority_advances t u \<Longrightarrow> authority_advances s u"
  unfolding authority_advances_def
  by (meson partition_evo.keeps_trans counters_advance_trans ids_allocated_trans)

lemma evolves_advances: "authority_evolves s t \<Longrightarrow> authority_advances s t"
  by (simp add: authority_evolves_def authority_advances_def)

lemma advances_fresh [apf_inv]: "authority_advances s t \<Longrightarrow> ids_fresh s \<Longrightarrow> ids_fresh t"
proof -
  assume a: "authority_advances s t" and f: "ids_fresh s"
  have "k < ida_next (fs_ids t)" if "k \<in> used_ids t" for k
  proof -
    have "k \<in> used_ids s \<or> k < ida_next (fs_ids t)"
      using a that by (auto simp: authority_advances_def ids_allocated_def)
    moreover have "ida_next (fs_ids s) \<le> ida_next (fs_ids t)"
      using a by (simp add: authority_advances_def counters_advance_def)
    ultimately show ?thesis using f by (auto simp: ids_fresh_def intro: less_le_trans)
  qed
  then show ?thesis by (simp add: ids_fresh_def)
qed

lemma keys_subset: "set m \<subseteq> set m' \<Longrightarrow> set (om_keys m) \<subseteq> set (om_keys m')"
  by (auto simp: om_keys_def)

lemma create_reserved_advances:
  assumes "create_reserved plan ps [] s = (t, new, st)"
    and fresh: "\<And>k. k \<in> set (om_keys (fs_partitions s)) \<Longrightarrow> k < ida_next (fs_ids s)"
  shows "keeps partition_step (fs_partitions s) (fs_partitions t) \<and>
         (\<forall>k\<in>set (om_keys (fs_partitions t)). k \<in> set (om_keys (fs_partitions s)) \<or>
             ida_next (fs_ids s) \<le> k \<and> k < ida_next (fs_ids t))"
proof -
  obtain new' where n: "\<forall>i\<in>set new'. ida_next (fs_ids s) \<le> i \<and> i < ida_next (fs_ids t)"
    "\<forall>j. j \<notin> set new' \<longrightarrow> find_partition j t = find_partition j s"
    using create_reserved_new [OF assms(1)] by blast
  have "keeps partition_step (fs_partitions s) (fs_partitions t)"
    unfolding keeps_def
  proof (intro allI impI)
    fix k v assume f: "find_partition k s = Some v"
    then have "k < ida_next (fs_ids s)" by (intro fresh om_find_in_keys)
    then have "k \<notin> set new'" using n(1) by (auto dest: leD)
    then show "\<exists>v'. find_partition k t = Some v' \<and> partition_step v v'" using n(2) f by simp
  qed
  moreover have "k \<in> set (om_keys (fs_partitions s)) \<or> ida_next (fs_ids s) \<le> k \<and> k < ida_next (fs_ids t)"
    if "k \<in> set (om_keys (fs_partitions t))" for k
  proof (cases "k \<in> set new'")
    case False
    then have "find_partition k t = find_partition k s" using n(2) by simp
    then show ?thesis using that by (metis om_find_eq_None)
  qed (use n(1) in simp)
  ultimately show ?thesis by blast
qed

lemma reserve_advances [apf_inv]:
  assumes srt: "om_sorted (fs_ledgers s)" and fresh: "ids_fresh s"
  shows "authority_advances s (fst (reserve pid s))"
  using srt
proof (cases rule: reserve_cases [where pid = pid])
  case (blank e plan t)
  then have "used_ids t \<subseteq> used_ids s" using keys_subset [OF blank(7)] by (auto simp: used_ids_def)
  with blank show ?thesis by (simp add: authority_advances_def keeps_refls ids_allocated_same)
next
  case (rejected e t)
  then have "used_ids t \<subseteq> used_ids s" using keys_subset [OF rejected(4)] by (auto simp: used_ids_def)
  with rejected show ?thesis by (simp add: authority_advances_def keeps_refls ids_allocated_same)
next
  case (short e plan l needed t)
  then have "used_ids t \<subseteq> used_ids s" using keys_subset [OF short(7)] by (auto simp: used_ids_def)
  with short show ?thesis by (simp add: authority_advances_def keeps_refls ids_allocated_same)
next
  case (granted plan l l' needed)
  let ?s1 = "upd_ledger (pb_accelerator (pl_binding plan)) l' (prune_reservations s)"
  have pruned: "set (om_keys (fs_reservations (prune_reservations s))) \<subseteq> set (om_keys (fs_reservations s))"
    by (rule keys_subset) (simp add: prune_reservations_def prune_subset)
  have below: "k < ida_next (fs_ids s)" if "k \<in> used_ids s" for k
    using fresh that by (simp add: ids_fresh_def)
  show ?thesis
  proof (cases rule: reserve_commit_cases [of ?s1 plan pid needed])
    case (undone a qs t new st e)
    obtain b m where t: "t = ?s1\<lparr>fs_ids := b, fs_partitions := m\<rparr>" "ida_next a \<le> ida_next b"
      using create_reserved_frame [OF undone(2)] by auto
    have "fs_partitions (undo_reserve (pb_accelerator (pl_binding plan)) needed new t) = fs_partitions (?s1\<lparr>fs_ids := a\<rparr>)"
      using undone(2) undone(1) below
      by (intro undo_partitions) (auto simp: used_ids_def intro: less_le_trans)
    moreover have "counters_advance s t"
      using t undone(1) by (auto simp: counters_advance_def)
    ultimately show ?thesis
      using granted(9) undone(3) t pruned
      by (auto simp: authority_advances_def keeps_refls used_ids_def intro!: ids_allocated_same)
  next
    case (reserved a rid t ps f)
    obtain b m where t: "t = ?s1\<lparr>fs_ids := b, fs_partitions := m\<rparr>" "ida_next a \<le> ida_next b"
      using create_reserved_frame [OF reserved(2)] by auto
    have rid: "rid = ida_next (fs_ids s)" "rid < ida_next a" "ida_next (fs_ids s) \<le> ida_next a"
      using reserved(1) by (auto simp: allocate_Inr succ_u64_greater less_imp_le)
    have c: "keeps partition_step (fs_partitions s) m \<and>
        (\<forall>k\<in>set (om_keys m). k \<in> set (om_keys (fs_partitions s)) \<or> ida_next a \<le> k \<and> k < ida_next b)"
      using create_reserved_advances [OF reserved(2)] below rid(3) t
      by (auto simp: used_ids_def intro: less_le_trans)
    let ?t = "fst (reserve pid s)"
    have ft: "fs_partitions ?t = m" "fs_attempts ?t = fs_attempts s" "fs_ids ?t = b"
      "set (om_keys (fs_reservations ?t)) \<subseteq> insert rid (set (om_keys (fs_reservations s)))"
      using granted(9) reserved(4) t pruned by auto
    have "ids_allocated s ?t"
      unfolding ids_allocated_def used_ids_def ft
      using c ft(4) rid t(2) by (auto intro: less_le_trans order_trans)
    moreover have "counters_advance s ?t"
      using granted(9) reserved(4) t rid by (auto simp: counters_advance_def intro: order_trans)
    ultimately show ?thesis using c ft by (simp add: authority_advances_def)
  qed
qed

lemma bind_reservation_advances [apf_inv]: "authority_advances s (fst (bind_reservation ri w b e s))"
proof -
  have "authority_advances s (bump_state_generation (upd_reservation ri (\<lambda>_. q) s))" for q
  proof -
    have "authority_advances s (upd_reservation ri (\<lambda>_. q) s)"
      by (simp add: authority_advances_def keeps_refls counters_advance_def ids_allocated_same used_ids_def)
    then show ?thesis using evolves_advances [OF authority_evolves_bump] authority_advances_trans by blast
  qed
  then show ?thesis by (auto simp: bind_reservation_def Let_def split: option.split)
qed

section \<open>Books that are kept in every state\<close>

text \<open>
  A device may be without a ledger, or have a blank one, after a backend report was refused. What
  every call keeps is weaker than \<open>accounting_inv\<close>: each ledger adds up, and none disappears.
\<close>

definition books_kept :: "fabric_state \<Rightarrow> bool" where
  "books_kept s \<longleftrightarrow> om_sorted (fs_ledgers s) \<and> ledgers_balanced s"

definition ledgers_grow :: "fabric_state \<Rightarrow> fabric_state \<Rightarrow> bool" where
  "ledgers_grow s t \<longleftrightarrow> (books_kept s \<longrightarrow> books_kept t) \<and> (\<forall>k. find_ledger k s \<noteq> None \<longrightarrow> find_ledger k t \<noteq> None)"

lemma evolve_grow: "ledgers_evolve s t \<Longrightarrow> ledgers_grow s t"
  using ledgers_evolve_balanced [of s t] ledgers_evolve_find(1) [of s t]
  by (fastforce simp: ledgers_grow_def books_kept_def om_sorted_def ledgers_evolve_def om_keys_def)

lemma ledgers_grow_set:
  "ledger_balanced l \<Longrightarrow> fs_ledgers t = om_set k l (fs_ledgers s) \<Longrightarrow> ledgers_grow s t"
  by (auto simp: ledgers_grow_def books_kept_def ledgers_balanced_def apf_lookup intro: om_sorted_set)

lemma reserve_grow:
  assumes "om_sorted (fs_ledgers s)"
  shows "ledgers_grow s (fst (reserve pid s))"
  using assms
proof (cases rule: reserve_cases [where pid = pid])
  case (rejected e t)
  then show ?thesis by (simp add: evolve_grow ledgers_evolve_same)
next
  case (short e plan l needed t)
  have "ledgers_evolve s (upd_ledger (pb_accelerator (pl_binding plan)) l s)" by (rule ledgers_evolve_upd [OF short(2)]) simp
  then have "ledgers_evolve s t" by (rule ledgers_evolve_cong [rotated]) (simp add: short(5))
  then show ?thesis using short(4) by (simp add: evolve_grow)
next
  case (granted plan l l' needed)
  have "ledgers_evolve s (upd_ledger (pb_accelerator (pl_binding plan)) l' s)"
    using granted(6) reserve_step [OF granted(8)] by (rule ledgers_evolve_upd)
  then have "ledgers_evolve s (upd_ledger (pb_accelerator (pl_binding plan)) l' (prune_reservations s))"
    by (rule ledgers_evolve_cong [rotated]) simp
  then show ?thesis unfolding granted(9) using reserve_commit_ledgers ledgers_evolve_trans evolve_grow by blast
next
  case (blank e plan t)
  then show ?thesis using ledgers_grow_set [OF ledger_empty_balanced] by simp
qed

end
