(* ===== verification/APF_Mutation.thy ===== *)
theory APF_Mutation
  imports APF_Reserve "HOL-Library.Multiset"
begin

text \<open>
  Physical mutation: registering an attempt before dispatch, verifying what the backend
  reports against an observed layout, and committing, fencing or failing the attempt
  (\<^verbatim>\<open>register_attempt_locked\<close>, \<^verbatim>\<open>apply_mutation_result_locked\<close>, \<^verbatim>\<open>execute\<close> and
  \<^verbatim>\<open>mark_attempt_outcome_unknown\<close> of \<^verbatim>\<open>src/fabric.cpp\<close>). The backend is an argument: its
  calls run without the lock, between two locked phases.
\<close>

section \<open>Registering an attempt\<close>

definition pending_attempts :: "fabric_state \<Rightarrow> nat" where
  "pending_attempts s = length (filter (\<lambda>a. \<not> attempt_settled (at_state a)) (om_values (fs_attempts s)))"

text \<open>Every reserved partition must still carry the generation the reservation recorded.\<close>

fun begin_create :: "partition_id list \<Rightarrow> generation list \<Rightarrow> fabric_state \<Rightarrow> fabric_state \<times> status" where
  "begin_create [] gs s = (s, success)"
| "begin_create (p # ps) gs s =
     (case find_partition p s of
        None \<Rightarrow> (s, failure E_StalePartitionGeneration)
      | Some r \<Rightarrow>
          (let expected = (case gs of [] \<Rightarrow> gen_unknown | g # _ \<Rightarrow> g) in
           if pr_generation r \<noteq> expected then (s, failure E_StalePartitionGeneration)
           else
             (case transition_partition p PS_Creating s of
                (s', Inl e) \<Rightarrow> (s', Inl e)
              | (s', Inr _) \<Rightarrow> begin_create ps (tl gs) s')))"

fun begin_destroy :: "partition_id list \<Rightarrow> fabric_state \<Rightarrow> fabric_state \<times> status" where
  "begin_destroy [] s = (s, success)"
| "begin_destroy (p # ps) s =
     (case find_partition p s of
        None \<Rightarrow> (s, failure E_StalePartitionGeneration)
      | Some r \<Rightarrow>
          (case transition_partition p PS_Destroying s of
             (s', Inl e) \<Rightarrow> (s', Inl e)
           | (s', Inr _) \<Rightarrow> begin_destroy ps s'))"

definition attempt_desired :: "attempt_kind \<Rightarrow> partition_reservation \<Rightarrow> fabric_state \<Rightarrow> planned_partition list" where
  "attempt_desired kind r s =
     (case find_plan (rs_plan r) s of
        None \<Rightarrow> []
      | Some plan \<Rightarrow>
          if kind = AK_CreatePartition then take (length (rs_partitions r)) (pl_planned_partitions plan)
          else if kind = AK_ReconfigureLayout then pl_planned_partitions plan
          else [])"

definition make_attempt ::
  "attempt_kind \<Rightarrow> partition_reservation \<Rightarrow> worker_id \<Rightarrow> boot_id \<Rightarrow> attempt_id \<Rightarrow> u64 \<Rightarrow> planned_partition list \<Rightarrow> partition_attempt" where
  "make_attempt kind r worker boot i now_ms desired =
     \<lparr>at_id = i, at_kind = kind, at_reservation = rs_id r, at_accelerator = rs_accelerator r,
      at_accelerator_generation = rs_accelerator_generation r,
      at_accelerator_boot = rs_accelerator_boot r,
      at_capability_generation = rs_capability_generation r,
      at_coordinator_epoch = rs_coordinator_epoch r,
      at_worker = (if id_valid worker then worker else rs_worker r),
      at_worker_boot = (if boot_valid boot then boot else rs_worker_boot r),
      at_partitions = rs_partitions r, at_desired = desired, at_state = AT_Dispatched,
      at_token = i, at_registered_at_ms = now_ms, at_dispatched_at_ms = now_ms, at_settled_at_ms = 0\<rparr>"

text \<open>
  A full history is pruned of settled attempts before it is refused; \<open>prune_attempts\<close> only
  erases while the size exceeds the bound.
\<close>

definition register_attempt_locked ::
  "reservation_id \<Rightarrow> partition_reservation \<Rightarrow> attempt_kind \<Rightarrow> worker_id \<Rightarrow> boot_id \<Rightarrow> u64 \<Rightarrow> fabric_state \<Rightarrow>
     fabric_state \<times> partition_attempt result" where
  "register_attempt_locked ri r kind worker boot now_ms s =
     (let full = (\<lambda>s. length (fs_attempts s) \<ge> max_attempt_history (fs_limits s));
          s1 = (if full s then prune_attempts s else s)
      in if full s \<and> full s1 then (s1, failure E_LimitExceeded)
         else if pending_attempts s1 \<ge> max_pending_attempts (fs_limits s1)
         then (s1, failure E_LimitExceeded)
         else
           (case allocate (fs_ids s1) of
              (a, Inl e) \<Rightarrow> (s1\<lparr>fs_ids := a\<rparr>, Inl e)
            | (a, Inr i) \<Rightarrow>
                (let s2 = s1\<lparr>fs_ids := a\<rparr> in
                 (case (if kind = AK_CreatePartition
                        then begin_create (rs_partitions r) (rs_partition_generations r) s2
                        else if kind = AK_DestroyPartition then begin_destroy (rs_partitions r) s2
                        else (s2, success)) of
                    (s3, Inl e) \<Rightarrow> (s3, Inl e)
                  | (s3, Inr _) \<Rightarrow>
                      (let att = make_attempt kind r worker boot i now_ms (attempt_desired kind r s3) in
                       (case attempt_validate att of
                          Inl e \<Rightarrow> (s3, Inl e)
                        | Inr _ \<Rightarrow>
                            (let s4 = s3\<lparr>fs_attempts := om_set i att (fs_attempts s3)\<rparr>;
                                 s5 = upd_reservation ri
                                        (\<lambda>r. r\<lparr>rs_attempt := i, rs_updated_at_ms := now_ms\<rparr>) s4
                             in (bump_state_generation (record_event EX_AttemptRegistered s5), Inr att))))))))"

definition register_attempt ::
  "reservation_id \<Rightarrow> attempt_kind \<Rightarrow> worker_id \<Rightarrow> boot_id \<Rightarrow> fabric_state \<Rightarrow> fabric_state \<times> partition_attempt result" where
  "register_attempt ri kind worker boot s =
     (case find_reservation ri s of
        None \<Rightarrow> (s, failure E_NotFound)
      | Some r \<Rightarrow>
          if rs_lifecycle r \<noteq> RL_Active then (s, failure E_StaleReservation)
          else register_attempt_locked ri r kind worker boot (fs_now s) s)"

section \<open>Observed layouts\<close>

definition find_native :: "backend_layout \<Rightarrow> string \<Rightarrow> backend_native_partition option" where
  "find_native layout native_id =
     List.find (\<lambda>n. native_id \<noteq> [] \<and> bn_native_id n = native_id) (bl_partitions layout)"

definition spec_of :: "planned_partition \<Rightarrow> native_partition_spec" where
  "spec_of p =
     \<lparr>ns_vendor_native_profile = pn_vendor_native_profile p, ns_profile = pn_profile p,
      ns_resources = pn_resources p, ns_existing_native_id = [], ns_logical_partition = 0\<rparr>"

definition spec_matches :: "native_partition_spec \<Rightarrow> backend_native_partition \<Rightarrow> bool" where
  "spec_matches spec n \<longleftrightarrow>
     (ns_vendor_native_profile spec = [] \<or> bn_vendor_native_profile n = ns_vendor_native_profile spec) \<and>
     (rv_empty (ns_resources spec) \<or> rv_eq (bn_resources n) (ns_resources spec))"

definition find_native_for_spec :: "backend_layout \<Rightarrow> native_partition_spec \<Rightarrow> backend_native_partition option" where
  "find_native_for_spec layout spec = List.find (spec_matches spec) (bl_partitions layout)"

definition find_unclaimed_native_for_spec ::
  "backend_layout \<Rightarrow> native_partition_spec \<Rightarrow> string list \<Rightarrow> backend_native_partition option" where
  "find_unclaimed_native_for_spec layout spec claimed =
     List.find (\<lambda>n. bn_native_id n \<notin> set claimed \<and> spec_matches spec n) (bl_partitions layout)"

text \<open>The candidates with their \<^verbatim>\<open>used\<close> flags: claim the first unused match.\<close>

fun claim_first ::
  "native_partition_spec \<Rightarrow> (backend_native_partition \<times> bool) list \<Rightarrow> (backend_native_partition \<times> bool) list option" where
  "claim_first spec [] = None"
| "claim_first spec ((n, used) # cs) =
     (if used then map_option ((#) (n, used)) (claim_first spec cs)
      else if spec_matches spec n then Some ((n, True) # cs)
      else map_option ((#) (n, used)) (claim_first spec cs))"

fun claim_all ::
  "native_partition_spec list \<Rightarrow> (backend_native_partition \<times> bool) list \<Rightarrow> bool" where
  "claim_all [] cs = True"
| "claim_all (spec # specs) cs =
     (case claim_first spec cs of None \<Rightarrow> False | Some cs' \<Rightarrow> claim_all specs cs')"

definition layout_matches_exactly :: "backend_layout \<Rightarrow> native_partition_spec list \<Rightarrow> bool" where
  "layout_matches_exactly layout desired \<longleftrightarrow>
     (if length (bl_partitions layout) \<noteq> length desired then False
      else claim_all desired (map (\<lambda>n. (n, False)) (bl_partitions layout)))"

definition desired_specs_of :: "partition_plan \<Rightarrow> native_partition_spec list" where
  "desired_specs_of plan = map spec_of (pl_planned_partitions plan)"

section \<open>Verification\<close>

text \<open>The verdict on a reported mutation: verified, and whether the outcome is ambiguous.\<close>

definition verify_reconfigure ::
  "fabric_state \<Rightarrow> partition_reservation \<Rightarrow> bool \<Rightarrow> bool \<Rightarrow> backend_layout option \<Rightarrow> bool \<times> bool" where
  "verify_reconfigure s r accepted ambiguous observed =
     (if \<not> accepted then (False, ambiguous)
      else
        (case observed of
           None \<Rightarrow> (False, True)
         | Some layout \<Rightarrow>
             if \<not> bl_device_present layout then (False, True)
             else
               (let desired = (case find_plan (rs_plan r) s of
                                 Some plan \<Rightarrow> desired_specs_of plan | None \<Rightarrow> []);
                    verified = layout_matches_exactly layout desired
                in (verified, ambiguous \<or> \<not> verified))))"

definition verify_create ::
  "partition_attempt \<Rightarrow> bool \<Rightarrow> bool \<Rightarrow> string list \<Rightarrow> backend_layout option \<Rightarrow> bool \<times> bool" where
  "verify_create a accepted ambiguous created observed =
     (if \<not> accepted then (False, ambiguous)
      else
        (case observed of
           None \<Rightarrow> (False, True)
         | Some layout \<Rightarrow>
             if \<not> bl_device_present layout then (False, True)
             else
               (let ids_present = (\<forall>i\<in>set created. find_native layout i \<noteq> None);
                    specs_present = (\<forall>p\<in>set (at_desired a). find_native_for_spec layout (spec_of p) \<noteq> None);
                    verified = (ids_present \<and> specs_present)
                in (verified, ambiguous \<or> \<not> verified))))"

definition native_gone :: "fabric_state \<Rightarrow> backend_layout \<Rightarrow> partition_id \<Rightarrow> bool" where
  "native_gone s layout i =
     (case find_partition i s of
        None \<Rightarrow> True
      | Some r \<Rightarrow>
          \<not> (ni_native_id (pr_native_identity r) \<noteq> [] \<and>
             find_native layout (ni_native_id (pr_native_identity r)) \<noteq> None))"

definition verify_destroy ::
  "fabric_state \<Rightarrow> partition_attempt \<Rightarrow> bool \<Rightarrow> bool \<Rightarrow> backend_layout option \<Rightarrow> bool \<times> bool" where
  "verify_destroy s a accepted ambiguous observed =
     (if \<not> accepted then (False, ambiguous)
      else
        (case observed of
           None \<Rightarrow> (False, True)
         | Some layout \<Rightarrow>
             (let verified = (\<forall>i\<in>set (at_partitions a). native_gone s layout i)
              in (verified, ambiguous \<or> \<not> verified))))"

definition verify_mutation ::
  "fabric_state \<Rightarrow> partition_attempt \<Rightarrow> partition_reservation \<Rightarrow> mutation_result result \<Rightarrow> backend_layout option \<Rightarrow>
     bool \<times> bool" where
  "verify_mutation s a r mutation observed =
     (let accepted = (case mutation of Inr m \<Rightarrow> mu_accepted m | Inl _ \<Rightarrow> False);
          ambiguous = (case mutation of Inr m \<Rightarrow> mu_ambiguous m | Inl _ \<Rightarrow> True);
          created = (case mutation of Inr m \<Rightarrow> mu_created_native_ids m | Inl _ \<Rightarrow> [])
      in if at_kind a = AK_ReconfigureLayout then verify_reconfigure s r accepted ambiguous observed
         else if at_kind a = AK_CreatePartition then verify_create a accepted ambiguous created observed
         else verify_destroy s a accepted ambiguous observed)"

section \<open>Applying a mutation result\<close>

record mutation_outcome =
  mo_reservation :: reservation_id
  mo_attempt :: attempt_id
  mo_state :: attempt_state
  mo_plan :: plan_id
  mo_accelerator :: accelerator_id
  mo_partitions :: "partition_id list"
  mo_generations :: "generation list"
  mo_outcome_unknown :: bool
  mo_reconciliation_required :: bool
  mo_committed :: bool
  mo_verified_physically :: bool

definition outcome_default :: mutation_outcome where
  "outcome_default =
     \<lparr>mo_reservation = 0, mo_attempt = 0, mo_state = AT_Registered, mo_plan = 0, mo_accelerator = 0,
      mo_partitions = [], mo_generations = [], mo_outcome_unknown = False,
      mo_reconciliation_required = False, mo_committed = False, mo_verified_physically = False\<rparr>"

definition settle_attempt :: "attempt_id \<Rightarrow> attempt_state \<Rightarrow> u64 \<Rightarrow> fabric_state \<Rightarrow> fabric_state" where
  "settle_attempt i st now_ms s =
     upd_attempt i (\<lambda>a. a\<lparr>at_state := st, at_settled_at_ms := now_ms\<rparr>) s"

definition set_lifecycle :: "reservation_id \<Rightarrow> reservation_lifecycle \<Rightarrow> u64 \<Rightarrow> fabric_state \<Rightarrow> fabric_state" where
  "set_lifecycle i v now_ms s =
     upd_reservation i (\<lambda>r. r\<lparr>rs_lifecycle := v, rs_updated_at_ms := now_ms\<rparr>) s"

text \<open>\<^verbatim>\<open>if (record != nullptr) (void)transition_partition(...)\<close>\<close>

definition try_transition :: "partition_state \<Rightarrow> partition_id \<Rightarrow> fabric_state \<Rightarrow> fabric_state" where
  "try_transition to i s =
     (case find_partition i s of None \<Rightarrow> s | Some _ \<Rightarrow> fst (transition_partition i to s))"

subsection \<open>Device reconfiguration\<close>

text \<open>The accounting transaction runs on a copy of the ledger.\<close>

fun release_held ::
  "fabric_state \<Rightarrow> partition_id list \<Rightarrow> capacity_ledger \<Rightarrow> status \<Rightarrow> capacity_ledger \<times> status" where
  "release_held s [] l st = (l, st)"
| "release_held s (p # ps) l st =
     (case find_partition p s of
        None \<Rightarrow> release_held s ps l st
      | Some r \<Rightarrow>
          (case pr_held_bucket r of
             None \<Rightarrow> release_held s ps l st
           | Some b \<Rightarrow>
               (case move_between b Bucket_Free (pr_resources r) l of
                  (l', Inl e) \<Rightarrow> (l', Inl e)
                | (l', Inr _) \<Rightarrow> release_held s ps l' st)))"

fun take_planned :: "planned_partition list \<Rightarrow> capacity_ledger \<Rightarrow> capacity_ledger \<times> status" where
  "take_planned [] l = (l, success)"
| "take_planned (p # ps) l =
     (case move_between Bucket_Free Bucket_Active (pn_resources p) l of
        (l', Inl e) \<Rightarrow> (l', Inl e)
      | (l', Inr _) \<Rightarrow> take_planned ps l')"

definition reconfigure_ledger ::
  "fabric_state \<Rightarrow> partition_reservation \<Rightarrow> partition_id list \<Rightarrow> planned_partition list \<Rightarrow> capacity_ledger \<Rightarrow>
     capacity_ledger \<times> status" where
  "reconfigure_ledger s r ps planned l =
     (let (l1, st1) = (if reservation_holds_capacity (rs_lifecycle r) \<and> \<not> rv_empty (rs_resources r)
                       then ledger_release_reserved (rs_resources r) l else (l, success));
          (l2, st2) = release_held s ps l1 st1;
          (l3, st3) = (case st2 of Inr _ \<Rightarrow> take_planned planned l2 | Inl e \<Rightarrow> (l2, Inl e))
      in (l3, case st3 of Inr _ \<Rightarrow> ledger_validate l3 | Inl e \<Rightarrow> Inl e))"

definition supersede_layout :: "u64 \<Rightarrow> partition_id \<Rightarrow> fabric_state \<Rightarrow> fabric_state" where
  "supersede_layout now_ms i s =
     (case find_partition i s of
        None \<Rightarrow> s
      | Some _ \<Rightarrow>
          upd_partition i
            (\<lambda>r. r\<lparr>pr_held_bucket := None, pr_state := PS_Retired, pr_last_transition_at_ms := now_ms,
                  pr_assignment_state := AS_Unassigned,
                  pr_drain := (pr_drain r)\<lparr>dp_state := DS_NotDraining, dp_outstanding_assignments := 0\<rparr>\<rparr>)
            (supersede_partition_generation i s))"

definition drop_orphan :: "assignment_id \<Rightarrow> fabric_state \<Rightarrow> fabric_state" where
  "drop_orphan i s =
     record_event EX_ReconciledAssignmentOrphaned (s\<lparr>fs_assignments := om_erase i (fs_assignments s)\<rparr>)"

definition orphaned_assignments :: "partition_id list \<Rightarrow> fabric_state \<Rightarrow> assignment_id list" where
  "orphaned_assignments ps s =
     map as_id (filter (\<lambda>a. as_partition a \<in> set ps) (om_values (fs_assignments s)))"

definition adopt_native ::
  "accelerator_record \<Rightarrow> backend_layout \<Rightarrow> backend_native_partition \<Rightarrow> partition_record \<Rightarrow> partition_record" where
  "adopt_native acc layout n r =
     r\<lparr>pr_native_identity := (pr_native_identity r)
         \<lparr>ni_backend := ac_backend acc, ni_native_id := bn_native_id n,
          ni_instance_uuid := bn_instance_uuid n, ni_parent_native_id := bl_stable_key layout\<rparr>,
       pr_isolation := (pr_isolation r)
         \<lparr>id_name := bn_isolation_domain n, id_guarantees := bn_isolation n,
          id_backend_defined := (bn_isolation_domain n \<noteq> [])\<rparr>\<rparr>"

text \<open>Claim an observed native partition for a planned one; the claimed identities grow.\<close>

definition claim_native ::
  "accelerator_record \<Rightarrow> backend_layout option \<Rightarrow> planned_partition \<Rightarrow> string list \<Rightarrow>
     string list \<times> (partition_record \<Rightarrow> partition_record)" where
  "claim_native acc observed planned claimed =
     (case observed of
        None \<Rightarrow> (claimed, \<lambda>r. r)
      | Some layout \<Rightarrow>
          (case find_unclaimed_native_for_spec layout (spec_of planned) claimed of
             None \<Rightarrow> (claimed, \<lambda>r. r)
           | Some n \<Rightarrow> (claimed @ [bn_native_id n], adopt_native acc layout n)))"

definition reconfigured_record ::
  "accelerator_record \<Rightarrow> partition_profile \<Rightarrow> planned_partition \<Rightarrow> partition_id \<Rightarrow> evidence_provenance \<Rightarrow> u64 \<Rightarrow>
     partition_record" where
  "reconfigured_record acc profile planned i provenance now_ms =
     partition_default
       \<lparr>pr_id := i, pr_generation := gen_first, pr_profile := pf_id profile,
        pr_profile_generation := pf_generation profile,
        pr_mechanism := cap_mechanism (ac_capability acc), pr_accelerator := ac_id acc,
        pr_accelerator_generation := ac_generation acc, pr_accelerator_boot := ac_boot_id acc,
        pr_resources := pn_resources planned, pr_state := PS_Active,
        pr_held_bucket := Some Bucket_Active, pr_assignment_state := AS_Unassigned,
        pr_provenance := provenance, pr_externally_observed := False,
        pr_created_at_ms := now_ms, pr_last_transition_at_ms := now_ms\<rparr>"

fun create_planned ::
  "accelerator_record \<Rightarrow> backend_layout option \<Rightarrow> u64 \<Rightarrow> evidence_provenance \<Rightarrow> string \<Rightarrow>
     planned_partition list \<Rightarrow> string list \<Rightarrow> fabric_state \<Rightarrow> fabric_state \<times> (partition_id \<times> generation) list" where
  "create_planned acc observed now_ms prov src [] claimed s = (s, [])"
| "create_planned acc observed now_ms prov src (p # ps) claimed s =
     (case find_profile (pn_profile p) s of
        None \<Rightarrow> create_planned acc observed now_ms prov src ps claimed s
      | Some profile \<Rightarrow>
          (case allocate (fs_ids s) of
             (a, Inl _) \<Rightarrow> (s\<lparr>fs_ids := a\<rparr>, [])
           | (a, Inr i) \<Rightarrow>
               (let (claimed', adopt) = claim_native acc observed p claimed;
                    s1 = advance_evidence (s\<lparr>fs_ids := a\<rparr>);
                    r = stamp_record s1 acc now_ms prov src
                          (adopt (reconfigured_record acc profile p i prov now_ms));
                    s2 = s1\<lparr>fs_partitions := om_set i r (fs_partitions s1)\<rparr>;
                    (s3, new) = create_planned acc observed now_ms prov src ps claimed' s2
                in (s3, (pr_id r, pr_generation r) # new))))"

definition commit_reconfigure ::
  "attempt_id \<Rightarrow> partition_attempt \<Rightarrow> partition_reservation \<Rightarrow> accelerator_record \<Rightarrow> backend_layout option \<Rightarrow>
     evidence_provenance \<Rightarrow> string \<Rightarrow> u64 \<Rightarrow> mutation_outcome \<Rightarrow> fabric_state \<Rightarrow> fabric_state \<times> mutation_outcome" where
  "commit_reconfigure i a r acc observed prov src now_ms out s =
     (case (find_ledger (at_accelerator a) s, find_plan (rs_plan r) s) of
        (Some l, Some plan) \<Rightarrow>
          (case reconfigure_ledger s r (at_partitions a) (pl_planned_partitions plan) l of
             (working, Inl e) \<Rightarrow>
               (bump_state_generation
                  (for_keys (at_partitions a) (try_transition PS_RevalidationRequired)
                     (settle_attempt i AT_Failed now_ms s)),
                out\<lparr>mo_state := AT_Failed\<rparr>)
           | (working, Inr _) \<Rightarrow>
               (let s1 = upd_ledger (at_accelerator a) working s;
                    s2 = for_keys (at_partitions a) (supersede_layout now_ms) s1;
                    s3 = for_keys (orphaned_assignments (at_partitions a) s2) drop_orphan s2;
                    (s4, new) = create_planned acc observed now_ms prov src
                                  (pl_planned_partitions plan) [] s3;
                    s5 = set_lifecycle (at_reservation a) RL_Committed now_ms
                           (settle_attempt i AT_Succeeded now_ms s4)
                in (record_event EX_ReconfigurationExecuted (bump_state_generation s5),
                    out\<lparr>mo_partitions := map fst new, mo_generations := map snd new,
                        mo_state := AT_Succeeded, mo_committed := True,
                        mo_verified_physically := True\<rparr>)))
      | _ \<Rightarrow> (settle_attempt i AT_Failed now_ms s, out\<lparr>mo_state := AT_Failed\<rparr>))"

subsection \<open>Creation and destruction\<close>

definition commit_one ::
  "accelerator_record \<Rightarrow> u64 \<Rightarrow> evidence_provenance \<Rightarrow> string \<Rightarrow> (partition_record \<Rightarrow> partition_record) \<Rightarrow>
     partition_id \<Rightarrow> fabric_state \<Rightarrow> fabric_state" where
  "commit_one acc now_ms prov src adopt p s =
     (let s1 = stamp_partition_evidence p acc now_ms prov src (upd_partition p adopt s);
          (s2, moved) = transition_partition p PS_Active s1;
          s3 = (case moved of Inl _ \<Rightarrow> record_event EX_CommitRejected s2 | Inr _ \<Rightarrow> s2)
      in upd_partition p (\<lambda>r. r\<lparr>pr_externally_observed := False\<rparr>) s3)"

fun commit_created ::
  "accelerator_record \<Rightarrow> backend_layout option \<Rightarrow> u64 \<Rightarrow> evidence_provenance \<Rightarrow> string \<Rightarrow>
     partition_id list \<Rightarrow> planned_partition list \<Rightarrow> string list \<Rightarrow> fabric_state \<Rightarrow> fabric_state" where
  "commit_created acc observed now_ms prov src [] ds claimed s = s"
| "commit_created acc observed now_ms prov src (p # ps) ds claimed s =
     (case find_partition p s of
        None \<Rightarrow> commit_created acc observed now_ms prov src ps (tl ds) claimed s
      | Some _ \<Rightarrow>
          (let (claimed', adopt) = (case ds of [] \<Rightarrow> (claimed, \<lambda>r. r)
                                    | d # _ \<Rightarrow> claim_native acc observed d claimed)
           in commit_created acc observed now_ms prov src ps (tl ds) claimed'
                (commit_one acc now_ms prov src adopt p s)))"

definition commit_destroyed :: "partition_id \<Rightarrow> fabric_state \<Rightarrow> fabric_state" where
  "commit_destroyed p s =
     (case find_partition p s of
        None \<Rightarrow> s
      | Some _ \<Rightarrow>
          (case transition_partition p PS_Retired s of
             (s', Inl _) \<Rightarrow> record_event EX_ReleaseRejected s'
           | (s', Inr _) \<Rightarrow> supersede_partition_generation p s'))"

definition commit_verified ::
  "attempt_id \<Rightarrow> partition_attempt \<Rightarrow> accelerator_record \<Rightarrow> backend_layout option \<Rightarrow>
     evidence_provenance \<Rightarrow> string \<Rightarrow> u64 \<Rightarrow> mutation_outcome \<Rightarrow> fabric_state \<Rightarrow> fabric_state \<times> mutation_outcome" where
  "commit_verified i a acc observed prov src now_ms out s =
     (let s1 = (if at_kind a = AK_CreatePartition
                then commit_created acc observed now_ms prov src (at_partitions a) (at_desired a) [] s
                else if at_kind a = AK_DestroyPartition
                then for_keys (at_partitions a) commit_destroyed s
                else s);
          s2 = set_lifecycle (at_reservation a) RL_Committed now_ms
                 (settle_attempt i AT_Succeeded now_ms s1)
      in (record_event EX_CommitAccepted (bump_state_generation s2),
          out\<lparr>mo_state := AT_Succeeded, mo_committed := True, mo_verified_physically := True\<rparr>))"

definition revalidate_recorded :: "partition_id \<Rightarrow> fabric_state \<Rightarrow> fabric_state" where
  "revalidate_recorded p s =
     (case find_partition p s of
        None \<Rightarrow> s
      | Some r \<Rightarrow>
          if pr_state r = PS_RevalidationRequired then s
          else
            (case transition_partition p PS_RevalidationRequired s of
               (s', Inl _) \<Rightarrow> record_event EX_OutcomeUnknown s'
             | (s', Inr _) \<Rightarrow> s'))"

definition leave_unknown ::
  "attempt_id \<Rightarrow> partition_attempt \<Rightarrow> partition_reservation \<Rightarrow> u64 \<Rightarrow> mutation_outcome \<Rightarrow> fabric_state \<Rightarrow>
     fabric_state \<times> mutation_outcome" where
  "leave_unknown i a r now_ms out s =
     (let s1 = settle_attempt i AT_OutcomeUnknown now_ms s;
          s2 = (if \<not> reservation_is_terminal (rs_lifecycle r)
                then set_lifecycle (at_reservation a) RL_Fenced now_ms s1 else s1);
          s3 = for_keys (at_partitions a) revalidate_recorded s2
      in (record_event EX_OutcomeUnknown (bump_state_generation s3),
          out\<lparr>mo_state := AT_OutcomeUnknown, mo_outcome_unknown := True,
              mo_reconciliation_required := True\<rparr>))"

definition fail_attempt ::
  "attempt_id \<Rightarrow> partition_attempt \<Rightarrow> partition_reservation \<Rightarrow> u64 \<Rightarrow> mutation_outcome \<Rightarrow> fabric_state \<Rightarrow>
     fabric_state \<times> mutation_outcome" where
  "fail_attempt i a r now_ms out s =
     (let held_before_failure = reservation_holds_capacity (rs_lifecycle r);
          s1 = set_lifecycle (at_reservation a) RL_Failed now_ms (settle_attempt i AT_Failed now_ms s);
          reclaim = (at_kind a = AK_CreatePartition \<and> held_before_failure);
          s2 = (if reclaim
                then upd_reservation (at_reservation a) (\<lambda>r. r\<lparr>rs_lifecycle := RL_Active\<rparr>)
                       (for_keys (at_partitions a) (try_transition PS_Reserved) s1)
                else s1);
          s3 = (if at_kind a = AK_DestroyPartition
                then for_keys (at_partitions a) (try_transition PS_RevalidationRequired) s2 else s2)
      in (record_event EX_CommitRejected (bump_state_generation s3), out\<lparr>mo_state := AT_Failed\<rparr>))"

subsection \<open>The whole handler\<close>

definition apply_mutation_result_locked ::
  "attempt_id \<Rightarrow> mutation_result result \<Rightarrow> backend_layout option \<Rightarrow> u64 \<Rightarrow> fabric_state \<Rightarrow>
     fabric_state \<times> mutation_outcome" where
  "apply_mutation_result_locked i mutation observed now_ms s =
     (let out = outcome_default\<lparr>mo_attempt := i\<rparr> in
      case find_attempt i s of
        None \<Rightarrow> (s, out)
      | Some a \<Rightarrow>
          (let out = out\<lparr>mo_reservation := at_reservation a, mo_accelerator := at_accelerator a,
                         mo_partitions := at_partitions a\<rparr> in
           case find_reservation (at_reservation a) s of
             None \<Rightarrow> (s, out)
           | Some r \<Rightarrow>
               (let out = out\<lparr>mo_plan := rs_plan r\<rparr> in
                if attempt_settled (at_state a)
                then (s, out\<lparr>mo_state := at_state a, mo_committed := (at_state a = AT_Succeeded)\<rparr>)
                else if at_state a = AT_OutcomeUnknown
                then (s, out\<lparr>mo_state := AT_OutcomeUnknown, mo_outcome_unknown := True,
                            mo_reconciliation_required := True\<rparr>)
                else
                  (case find_accelerator (at_accelerator a) s of
                     None \<Rightarrow> (settle_attempt i AT_Failed now_ms s, out\<lparr>mo_state := AT_Failed\<rparr>)
                   | Some acc \<Rightarrow>
                       (let (verified, ambiguous) = verify_mutation s a r mutation observed;
                            prov = (case observed of Some layout \<Rightarrow> es_provenance (bl_evidence layout)
                                    | None \<Rightarrow> ac_provenance acc);
                            src = (case observed of Some layout \<Rightarrow> es_source (bl_evidence layout)
                                   | None \<Rightarrow> ac_backend acc)
                        in if verified \<and> at_kind a = AK_ReconfigureLayout
                           then commit_reconfigure i a r acc observed prov src now_ms out s
                           else if verified then commit_verified i a acc observed prov src now_ms out s
                           else if ambiguous then leave_unknown i a r now_ms out s
                           else fail_attempt i a r now_ms out s)))))"

definition apply_mutation_result ::
  "attempt_id \<Rightarrow> mutation_result \<Rightarrow> backend_layout option \<Rightarrow> fabric_state \<Rightarrow> fabric_state \<times> mutation_outcome" where
  "apply_mutation_result i m observed s = apply_mutation_result_locked i (Inr m) observed (fs_now s) s"

section \<open>Execution\<close>

text \<open>
  \<^verbatim>\<open>execute\<close> up to the point where it drops the lock: every check against the live state, the
  registered attempt and the request to the backend.
\<close>

definition execute_request ::
  "accelerator_record \<Rightarrow> string \<Rightarrow> generation \<Rightarrow> partition_attempt \<Rightarrow> planned_partition list \<Rightarrow> mutation_request" where
  "execute_request acc key epoch att planned =
     \<lparr>mr_stable_key = key, mr_expected_boot = ac_boot_id acc,
      mr_expected_accelerator_generation = ac_generation acc,
      mr_expected_capability_generation = cap_generation (ac_capability acc),
      mr_coordinator_epoch = epoch, mr_worker = at_worker att, mr_worker_boot = at_worker_boot att,
      mr_attempt = at_id att, mr_idempotency_token = at_token att, mr_destructive = False,
      mr_full_device_reconfiguration = False,
      mr_desired = map (\<lambda>(i, p). (spec_of p)\<lparr>ns_logical_partition := i\<rparr>) (zip (at_partitions att) planned),
      mr_remove_native_ids = []\<rparr>"

text \<open>The checks of the reservation against the live state, and how the code leaves it when one fails.\<close>

definition execute_guard ::
  "reservation_id \<Rightarrow> partition_reservation \<Rightarrow> fabric_state \<Rightarrow> fabric_state \<times> status" where
  "execute_guard ri r s =
     (case find_plan (rs_plan r) s of
        None \<Rightarrow> (s, failure E_StalePlan)
      | Some plan \<Rightarrow>
          (case validate_plan_binding s plan (fs_now s) (pp_require_fresh_evidence (fs_policy s)) of
             Inl e \<Rightarrow>
               (fst (fence_reservation_locked ri r (fs_now s)
                  (upd_plan (rs_plan r) (\<lambda>p. p\<lparr>pl_terminal := True\<rparr>) s)), Inl e)
           | Inr _ \<Rightarrow>
               (case find_accelerator (rs_accelerator r) s of
                  None \<Rightarrow> (s, failure E_NotFound)
                | Some acc \<Rightarrow>
                    if ac_generation acc \<noteq> rs_accelerator_generation r \<or> ac_boot_id acc \<noteq> rs_accelerator_boot r
                    then (fst (fence_reservation_locked ri r (fs_now s) s), failure E_StaleGeneration)
                    else if cap_generation (ac_capability acc) \<noteq> rs_capability_generation r
                    then (fst (fence_reservation_locked ri r (fs_now s) s), failure E_CapabilityChanged)
                    else if fs_policy_generation s \<noteq> rs_policy_generation r
                    then (fst (fence_reservation_locked ri r (fs_now s) s), failure E_PolicyChanged)
                    else if rs_expires_at_ms r \<noteq> 0 \<and> fs_now s > rs_expires_at_ms r
                    then (fst (release_reservation_locked ri r (fs_now s) s), failure E_StaleReservation)
                    else if \<not> is_fresh_at (ac_evidence acc) (fs_now s) \<and> pp_require_fresh_evidence (fs_policy s)
                    then (s, failure E_StaleEvidence)
                    else (s, success))))"

definition execute_begin ::
  "bool \<Rightarrow> reservation_id \<Rightarrow> fabric_state \<Rightarrow> fabric_state \<times> mutation_request result" where
  "execute_begin require_worker ri s =
     (case check_open s of
        Inl e \<Rightarrow> (s, Inl e)
      | Inr _ \<Rightarrow>
          (case find_reservation ri s of
             None \<Rightarrow> (s, failure E_NotFound)
           | Some r \<Rightarrow>
               if rs_lifecycle r \<noteq> RL_Active then (s, failure E_StaleReservation)
               else if require_worker \<and> \<not> id_valid (rs_worker r) then (s, failure E_StaleWorker)
               else
                 (case execute_guard ri r s of
                    (s1, Inl e) \<Rightarrow> (s1, Inl e)
                  | (s1, Inr _) \<Rightarrow>
                      (case register_attempt_locked ri r AK_CreatePartition 0 0 (fs_now s1) s1 of
                         (s2, Inl e) \<Rightarrow> (s2, Inl e)
                       | (s2, Inr att) \<Rightarrow>
                           (case (find_accelerator (rs_accelerator r) s2, find_plan (rs_plan r) s2) of
                              (Some acc, Some plan) \<Rightarrow>
                                (let s3 = (if om_find (ac_id acc) (fs_stable_keys s2) = None
                                           then s2\<lparr>fs_stable_keys := om_set (ac_id acc) [] (fs_stable_keys s2)\<rparr>
                                           else s2);
                                     key = (case om_find (ac_id acc) (fs_stable_keys s2) of None \<Rightarrow> [] | Some k \<Rightarrow> k)
                                 in (s3, Inr (execute_request acc key (fs_coordinator_epoch s3) att
                                                (pl_planned_partitions plan))))
                            | _ \<Rightarrow> (s2, failure E_NotFound))))))"

text \<open>
  The whole of \<^verbatim>\<open>execute\<close>. The two backend calls are arguments; while they run the lock is free,
  so what other callers do to the state in between is an argument too.
\<close>

definition execute_observe ::
  "(string \<Rightarrow> backend_layout result) \<Rightarrow> string \<Rightarrow> mutation_result result \<Rightarrow> backend_layout option" where
  "execute_observe query_layout key mutation =
     (case mutation of
        Inl _ \<Rightarrow> None
      | Inr m \<Rightarrow>
          if mu_accepted m then (case query_layout key of Inl _ \<Rightarrow> None | Inr layout \<Rightarrow> Some layout)
          else None)"

definition execute ::
  "(mutation_request \<Rightarrow> mutation_result result) \<Rightarrow> (string \<Rightarrow> backend_layout result) \<Rightarrow>
     (fabric_state \<Rightarrow> fabric_state) \<Rightarrow> bool \<Rightarrow> reservation_id \<Rightarrow> fabric_state \<Rightarrow>
     fabric_state \<times> mutation_outcome result" where
  "execute create_partitions query_layout meanwhile require_worker ri s =
     (case execute_begin require_worker ri s of
        (s1, Inl e) \<Rightarrow> (s1, Inl e)
      | (s1, Inr request) \<Rightarrow>
          (let mutation = create_partitions request;
               observed = execute_observe query_layout (mr_stable_key request) mutation;
               s2 = meanwhile s1;
               (s3, out) = apply_mutation_result_locked (mr_attempt request) mutation observed (fs_now s2) s2
           in (s3, Inr out)))"

definition mark_attempt_outcome_unknown :: "attempt_id \<Rightarrow> fabric_state \<Rightarrow> fabric_state \<times> status" where
  "mark_attempt_outcome_unknown i s =
     (case find_attempt i s of
        None \<Rightarrow> (s, failure E_NotFound)
      | Some a \<Rightarrow>
          if attempt_settled (at_state a) then (s, success)
          else
            (let s1 = settle_attempt i AT_OutcomeUnknown (fs_now s) s;
                 s2 = (case find_reservation (at_reservation a) s1 of
                         None \<Rightarrow> s1
                       | Some r \<Rightarrow>
                           if reservation_is_terminal (rs_lifecycle r) then s1
                           else set_lifecycle (at_reservation a) RL_Fenced (fs_now s) s1);
                 s3 = (if at_kind a \<noteq> AK_DestroyPartition
                       then for_keys (at_partitions a) revalidate_partition s2 else s2)
             in (record_event EX_OutcomeUnknown (bump_state_generation s3), success)))"

section \<open>Exact layout matching\<close>

text \<open>
  A layout the greedy scan accepts is a permutation of native partitions that realise the
  desired specifications one for one.
\<close>

lemma claim_first_split:
  "claim_first spec cs = Some cs' \<Longrightarrow>
     \<exists>xs n ys. cs = xs @ (n, False) # ys \<and> cs' = xs @ (n, True) # ys \<and> spec_matches spec n"
proof (induction spec cs arbitrary: cs' rule: claim_first.induct)
  case (2 spec n used cs)
  show ?case
  proof (cases "\<not> used \<and> spec_matches spec n")
    case True
    with "2.prems" show ?thesis by (intro exI [of _ "[]"]) auto
  next
    case False
    with "2.prems" obtain ds where d: "claim_first spec cs = Some ds" "cs' = (n, used) # ds"
      by (auto split: if_splits)
    with 2 False obtain xs m ys where "cs = xs @ (m, False) # ys" "ds = xs @ (m, True) # ys" "spec_matches spec m"
      by (metis (full_types))
    with d show ?thesis by (intro exI [of _ "(n, used) # xs"]) auto
  qed
qed simp

definition unclaimed :: "(backend_native_partition \<times> bool) list \<Rightarrow> backend_native_partition list" where
  "unclaimed cs = map fst (filter (\<lambda>c. \<not> snd c) cs)"

lemma claim_all_matching:
  "claim_all specs cs \<Longrightarrow>
     \<exists>ns rest. list_all2 spec_matches specs ns \<and> mset (unclaimed cs) = mset ns + mset rest"
proof (induction specs arbitrary: cs)
  case (Cons spec specs)
  then obtain cs' where c: "claim_first spec cs = Some cs'" "claim_all specs cs'"
    by (auto split: option.splits)
  from claim_first_split [OF c(1)] obtain xs n ys
    where s: "cs = xs @ (n, False) # ys" "cs' = xs @ (n, True) # ys" "spec_matches spec n" by blast
  from Cons.IH [OF c(2)] obtain ns rest
    where "list_all2 spec_matches specs ns" "mset (unclaimed cs') = mset ns + mset rest" by blast
  with s show ?case
    by (intro exI [of _ "n # ns"] exI [of _ rest]) (simp add: unclaimed_def)
qed (use ex_mset in auto)

lemma unclaimed_start [simp]: "unclaimed (map (\<lambda>n. (n, False)) ns) = ns"
  by (simp add: unclaimed_def comp_def)

lemma layout_match_sound:
  assumes "layout_matches_exactly layout desired"
  shows "\<exists>ns. mset ns = mset (bl_partitions layout) \<and> list_all2 spec_matches desired ns"
proof -
  have len: "length (bl_partitions layout) = length desired"
    and "claim_all desired (map (\<lambda>n. (n, False)) (bl_partitions layout))"
    using assms by (auto simp: layout_matches_exactly_def split: if_splits)
  then obtain ns rest where m: "list_all2 spec_matches desired ns"
    "mset (bl_partitions layout) = mset ns + mset rest"
    using claim_all_matching by force
  have "length ns = length (bl_partitions layout)" using m(1) len by (simp add: list_all2_lengthD)
  then have "rest = []" using arg_cong [OF m(2), of size] by simp
  with m show ?thesis by auto
qed

text \<open>
  The scan is also complete when no specification leaves its geometry open: then every match
  asks for one concrete profile and one resource vector.
\<close>

definition spec_concrete :: "native_partition_spec \<Rightarrow> bool" where
  "spec_concrete spec \<longleftrightarrow> ns_vendor_native_profile spec \<noteq> [] \<and> \<not> rv_empty (ns_resources spec)"

lemma spec_matches_concrete:
  "spec_concrete spec \<Longrightarrow>
     spec_matches spec n \<longleftrightarrow>
       bn_vendor_native_profile n = ns_vendor_native_profile spec \<and> rv_eq (bn_resources n) (ns_resources spec)"
  by (simp add: spec_matches_def spec_concrete_def)

lemma concrete_exchange:
  assumes "spec_concrete a" "spec_concrete b" "spec_matches a n" "spec_matches a m" "spec_matches b n"
  shows "spec_matches b m"
  using assms by (simp add: spec_matches_concrete rv_eq_iff)

lemma claim_first_found:
  "n \<in> set (unclaimed cs) \<Longrightarrow> spec_matches spec n \<Longrightarrow> claim_first spec cs \<noteq> None"
  by (induction spec cs rule: claim_first.induct) (auto simp: unclaimed_def split: if_splits)

lemma concrete_swap:
  assumes "list_all2 spec_matches specs ms" "\<forall>b\<in>set specs. spec_concrete b" "spec_concrete a"
    "spec_matches a n" "spec_matches a m" "n \<in> set ms"
  shows "\<exists>ms'. list_all2 spec_matches specs ms' \<and> mset ms' + {#n#} = mset ms + {#m#}"
proof -
  obtain us vs where ms: "ms = us @ n # vs" using assms(6) by (meson split_list)
  then obtain bs b cs where b: "specs = bs @ b # cs" "list_all2 spec_matches bs us" "spec_matches b n"
    "list_all2 spec_matches cs vs"
    using assms(1) by (auto simp: list_all2_append2 list_all2_Cons2)
  then have "spec_matches b m" using assms(2-5) by (auto intro: concrete_exchange)
  with b ms show ?thesis
    by (intro exI [of _ "us @ m # vs"]) (simp add: list_all2_appendI)
qed

lemma claim_all_complete:
  "\<forall>b\<in>set specs. spec_concrete b \<Longrightarrow> list_all2 spec_matches specs ns \<Longrightarrow>
     mset ns \<subseteq># mset (unclaimed cs) \<Longrightarrow> claim_all specs cs"
proof (induction specs arbitrary: ns cs)
  case (Cons a specs)
  from Cons.prems(2) obtain m ms where ns: "ns = m # ms" "spec_matches a m" "list_all2 spec_matches specs ms"
    by (auto simp: list_all2_Cons1)
  have "m \<in> set (unclaimed cs)" using Cons.prems(3) ns(1) by (auto dest: mset_subset_eq_insertD)
  then obtain cs' where c: "claim_first a cs = Some cs'" using claim_first_found ns(2) by blast
  from claim_first_split [OF c] obtain n where n: "spec_matches a n"
    "mset (unclaimed cs) = mset (unclaimed cs') + {#n#}" by (auto simp: unclaimed_def)
  have "\<exists>ms'. list_all2 spec_matches specs ms' \<and> mset ms' \<subseteq># mset (unclaimed cs')"
  proof (cases "n \<in> set ms")
    case True
    then obtain ms' where "list_all2 spec_matches specs ms'" "mset ms' + {#n#} = mset ms + {#m#}"
      using concrete_swap [OF ns(3) _ _ n(1) ns(2)] Cons.prems(1) by auto
    with Cons.prems(3) ns(1) n(2) show ?thesis by (metis add_mset_add_single mset.simps(2) mset_subset_eq_add_mset_cancel)
  next
    case False
    have "mset ms \<subseteq># mset (unclaimed cs') + {#n#}"
      using Cons.prems(3) ns(1) n(2) by (auto dest: mset_subset_eq_insertD simp: subset_mset.less_imp_le)
    then have "mset ms \<subseteq># mset (unclaimed cs')"
      using False by (simp add: subseteq_mset_def) (metis (full_types) count_mset_0_iff le0)
    with ns(3) show ?thesis by blast
  qed
  with Cons.IH Cons.prems(1) c show ?case by auto
qed simp

lemma layout_match_iff:
  assumes "\<forall>b\<in>set desired. spec_concrete b"
  shows "layout_matches_exactly layout desired \<longleftrightarrow>
           (\<exists>ns. mset ns = mset (bl_partitions layout) \<and> list_all2 spec_matches desired ns)"
proof
  assume "\<exists>ns. mset ns = mset (bl_partitions layout) \<and> list_all2 spec_matches desired ns"
  then obtain ns where n: "mset ns = mset (bl_partitions layout)" "list_all2 spec_matches desired ns" by blast
  have "claim_all desired (map (\<lambda>n. (n, False)) (bl_partitions layout))"
    by (rule claim_all_complete [OF assms n(2)]) (simp add: n(1))
  moreover have "length (bl_partitions layout) = length desired"
    using n by (metis list_all2_lengthD size_mset)
  ultimately show "layout_matches_exactly layout desired" by (simp add: layout_matches_exactly_def)
qed (rule layout_match_sound)

section \<open>Accounting of a mutation\<close>

lemma settle_attempt_frame [simp]:
  "fs_ledgers (settle_attempt i st t s) = fs_ledgers s" "fs_partitions (settle_attempt i st t s) = fs_partitions s"
  "fs_reservations (settle_attempt i st t s) = fs_reservations s"
  "fs_accelerators (settle_attempt i st t s) = fs_accelerators s" "fs_ids (settle_attempt i st t s) = fs_ids s"
  "fs_plans (settle_attempt i st t s) = fs_plans s" "fs_profiles (settle_attempt i st t s) = fs_profiles s"
  by (simp_all add: settle_attempt_def)

lemma set_lifecycle_frame [simp]:
  "fs_ledgers (set_lifecycle i v t s) = fs_ledgers s" "fs_partitions (set_lifecycle i v t s) = fs_partitions s"
  "fs_attempts (set_lifecycle i v t s) = fs_attempts s"
  "fs_accelerators (set_lifecycle i v t s) = fs_accelerators s" "fs_ids (set_lifecycle i v t s) = fs_ids s"
  by (simp_all add: set_lifecycle_def)

lemma advance_evidence_frame [simp]:
  "fs_ledgers (advance_evidence s) = fs_ledgers s" "fs_partitions (advance_evidence s) = fs_partitions s"
  "fs_attempts (advance_evidence s) = fs_attempts s" "fs_reservations (advance_evidence s) = fs_reservations s"
  "fs_accelerators (advance_evidence s) = fs_accelerators s" "fs_ids (advance_evidence s) = fs_ids s"
  "fs_profiles (advance_evidence s) = fs_profiles s"
  by (simp_all add: advance_evidence_def split: sum.split)

lemma stamp_frame [simp]:
  "fs_ledgers (stamp_partition_evidence i a t p src s) = fs_ledgers s"
  "fs_accelerators (stamp_partition_evidence i a t p src s) = fs_accelerators s"
  "fs_attempts (stamp_partition_evidence i a t p src s) = fs_attempts s"
  "fs_reservations (stamp_partition_evidence i a t p src s) = fs_reservations s"
  by (simp_all add: stamp_partition_evidence_def Let_def)

lemma try_transition_ledgers [apf_inv]: "ledgers_evolve s (try_transition to i s)"
  by (simp add: try_transition_def apf_inv split: option.split)

lemma try_transition_authority [simp]: "authority_evolves s (try_transition to i s)"
  by (simp add: try_transition_def split: option.split)

lemma try_transition_frame [simp]:
  "fs_accelerators (try_transition to i s) = fs_accelerators s" "fs_attempts (try_transition to i s) = fs_attempts s"
  "fs_reservations (try_transition to i s) = fs_reservations s"
  by (simp_all add: try_transition_def split: option.split)

lemma settle_authority:
  "(\<And>a. find_attempt i s = Some a \<Longrightarrow> \<not> attempt_settled (at_state a)) \<Longrightarrow>
     authority_evolves s (settle_attempt i st t s)"
  unfolding settle_attempt_def by (rule authority_evolves_attempt) (simp add: attempt_step_def)

lemma lifecycle_authority:
  "(\<And>r. find_reservation i s = Some r \<Longrightarrow> reservation_is_terminal (rs_lifecycle r) \<Longrightarrow> reservation_is_terminal v) \<Longrightarrow>
     authority_evolves s (set_lifecycle i v t s)"
  unfolding set_lifecycle_def by (rule authority_evolves_reservation) (simp add: reservation_step_def)

text \<open>The reconfiguration transaction only moves capacity between buckets.\<close>

lemma release_held_step: "release_held s ps l st = (l', st') \<Longrightarrow> ledger_step l l'"
proof (induction s ps l st rule: release_held.induct)
  case (2 s p ps l st)
  show ?case
  proof (cases "find_partition p s")
    case None
    with 2 show ?thesis by simp
  next
    case r: (Some r)
    show ?thesis
    proof (cases "pr_held_bucket r")
      case None
      with 2 r show ?thesis by simp
    next
      case (Some b)
      obtain l1 st1 where m: "move_between b Bucket_Free (pr_resources r) l = (l1, st1)" by force
      then have "ledger_step l l1" by (rule move_between_keeps)
      with 2 r Some m show ?thesis by (cases st1) (auto intro: ledger_step_trans)
    qed
  qed
qed simp

lemma take_planned_step: "take_planned ps l = (l', st) \<Longrightarrow> ledger_step l l'"
proof (induction ps arbitrary: l)
  case (Cons p ps)
  obtain l1 st1 where m: "move_between Bucket_Free Bucket_Active (pn_resources p) l = (l1, st1)" by force
  then have "ledger_step l l1" by (rule move_between_keeps)
  with Cons m show ?case by (cases st1) (auto intro: ledger_step_trans)
qed simp

lemma reconfigure_ledger_step:
  assumes "reconfigure_ledger s r ps planned l = (l', st)"
  shows "ledger_step l l'"
proof -
  obtain l1 st1 where 1: "(if reservation_holds_capacity (rs_lifecycle r) \<and> \<not> rv_empty (rs_resources r)
      then ledger_release_reserved (rs_resources r) l else (l, success)) = (l1, st1)" by force
  obtain l2 st2 where 2: "release_held s ps l1 st1 = (l2, st2)" by force
  note [trans] = ledger_step_trans
  have "ledger_step l l1"
    using 1 by (auto split: if_splits intro: release_reserved_step)
  also have "ledger_step l1 l2" using 2 by (rule release_held_step)
  also have "ledger_step l2 l'"
    using assms 1 2
    by (auto simp: reconfigure_ledger_def Let_def split: sum.splits prod.splits intro: take_planned_step)
  finally show ?thesis .
qed

lemma reconfigure_ledger_ok:
  "reconfigure_ledger s r ps planned l = (l', Inr u) \<Longrightarrow> ledger_validate l' = success"
  by (auto simp: reconfigure_ledger_def Let_def split: sum.splits prod.splits)

lemma supersede_layout_frame [simp]:
  "fs_ledgers (supersede_layout t i s) = fs_ledgers s" "fs_accelerators (supersede_layout t i s) = fs_accelerators s"
  "fs_attempts (supersede_layout t i s) = fs_attempts s" "fs_reservations (supersede_layout t i s) = fs_reservations s"
  "fs_ids (supersede_layout t i s) = fs_ids s"
  by (simp_all add: supersede_layout_def split: option.split)

lemma supersede_layout_authority [simp]: "authority_evolves s (supersede_layout t i s)"
proof -
  have "authority_evolves (supersede_partition_generation i s) (upd_partition i
            (\<lambda>r. r\<lparr>pr_held_bucket := None, pr_state := PS_Retired, pr_last_transition_at_ms := t,
                  pr_assignment_state := AS_Unassigned,
                  pr_drain := (pr_drain r)\<lparr>dp_state := DS_NotDraining, dp_outstanding_assignments := 0\<rparr>\<rparr>)
            (supersede_partition_generation i s))"
    by (rule authority_evolves_partition) (simp add: partition_step_def)
  from authority_evolves_trans [OF supersede_authority this] show ?thesis
    by (simp add: supersede_layout_def split: option.split)
qed

lemma drop_orphan_frame [simp]:
  "fs_ledgers (drop_orphan i s) = fs_ledgers s" "fs_accelerators (drop_orphan i s) = fs_accelerators s"
  "fs_attempts (drop_orphan i s) = fs_attempts s" "fs_reservations (drop_orphan i s) = fs_reservations s"
  "fs_partitions (drop_orphan i s) = fs_partitions s"
  by (simp_all add: drop_orphan_def)

lemma drop_orphan_authority [simp]: "authority_evolves s (drop_orphan i s)"
  by (rule authority_evolves_same) (simp_all add: counters_advance_def drop_orphan_def)


text \<open>One round of the creation loop: a fresh identity and a record for it.\<close>

lemma create_planned_round:
  assumes "find_profile (pn_profile p) s = Some profile" "allocate (fs_ids s) = (a, Inr i)"
  obtains claimed' r where
    "create_planned acc obs t prov src (p # ps) claimed s =
       map_prod id ((#) (i, gen_first))
         (create_planned acc obs t prov src ps claimed'
            ((advance_evidence (s\<lparr>fs_ids := a\<rparr>))\<lparr>fs_partitions := om_set i r (fs_partitions s)\<rparr>))"
    "pr_id r = i" "pr_generation r = gen_first" "pr_state r = PS_Active" "pr_held_bucket r = Some Bucket_Active"
    "pr_resources r = pn_resources p"
proof -
  obtain claimed' adopt where c: "claim_native acc obs p claimed = (claimed', adopt)" by force
  have keep: "pr_id (adopt r) = pr_id r \<and> pr_generation (adopt r) = pr_generation r \<and> pr_state (adopt r) = pr_state r \<and>
      pr_held_bucket (adopt r) = pr_held_bucket r \<and> pr_resources (adopt r) = pr_resources r" for r
    using c by (auto simp: claim_native_def adopt_native_def split: option.splits)
  show thesis
    by (rule that [of claimed' "stamp_record (advance_evidence (s\<lparr>fs_ids := a\<rparr>)) acc t prov src
          (adopt (reconfigured_record acc profile p i prov t))"])
      (simp_all add: assms c Let_def keep stamp_record_def reconfigured_record_def split: prod.split)
qed

definition core_same :: "fabric_state \<Rightarrow> fabric_state \<Rightarrow> bool" where
  "core_same s t \<longleftrightarrow> fs_ledgers t = fs_ledgers s \<and> fs_accelerators t = fs_accelerators s \<and>
     fs_attempts t = fs_attempts s \<and> fs_reservations t = fs_reservations s"

lemma create_planned_same: "core_same s (fst (create_planned acc obs t prov src ps claimed s))"
proof (induction ps arbitrary: claimed s)
  case (Cons p ps)
  consider "find_profile (pn_profile p) s = None"
    | e a pr where "find_profile (pn_profile p) s = Some pr" "allocate (fs_ids s) = (a, Inl e)"
    | pr a i where "find_profile (pn_profile p) s = Some pr" "allocate (fs_ids s) = (a, Inr i)"
    by (metis option.exhaust old.sum.exhaust prod.exhaust)
  then show ?case
  proof cases
    case 3
    then show ?thesis
      by (rule create_planned_round [of p s pr a i acc obs t prov src ps claimed])
        (use Cons.IH in \<open>simp add: core_same_def\<close>)
  qed (use Cons.IH in \<open>auto simp: core_same_def\<close>)
qed (simp add: core_same_def)

lemmas create_planned_frame [simp] = create_planned_same [unfolded core_same_def, THEN conjunct1]
  create_planned_same [unfolded core_same_def, THEN conjunct2, THEN conjunct1]
  create_planned_same [unfolded core_same_def, THEN conjunct2, THEN conjunct2, THEN conjunct1]
  create_planned_same [unfolded core_same_def, THEN conjunct2, THEN conjunct2, THEN conjunct2]

lemma advance_evidence_authority [simp]: "authority_evolves s (advance_evidence s)"
  by (rule authority_evolves_same)
    (auto simp: counters_advance_def advance_evidence_def gen_next_greater less_imp_le split: sum.split)

lemma add_partition_authority:
  assumes "allocate (fs_ids s) = (a, Inr i)" "ids_fresh s"
  shows "authority_evolves s (s\<lparr>fs_ids := a, fs_partitions := om_set i r (fs_partitions s)\<rparr>)"
proof -
  have i: "i = ida_next (fs_ids s)" "i < ida_next a"
    using assms(1) by (auto simp: allocate_Inr succ_u64_greater)
  then have "i \<notin> used_ids s" using assms(2) by (auto simp: ids_fresh_def)
  then have "find_partition i s = None" by (auto simp: used_ids_def om_find_eq_None)
  then have "keeps partition_step (fs_partitions s) (om_set i r (fs_partitions s))"
    by (rule partition_evo.keeps_fresh)
  with i show ?thesis
    by (auto simp: authority_evolves_def keeps_refls counters_advance_def ids_allocated_def used_ids_def less_imp_le)
qed

lemma create_planned_authority:
  "ids_fresh s \<Longrightarrow> authority_evolves s (fst (create_planned acc obs t prov src ps claimed s))"
proof (induction ps arbitrary: claimed s)
  case (Cons p ps)
  consider "find_profile (pn_profile p) s = None"
    | e a pr where "find_profile (pn_profile p) s = Some pr" "allocate (fs_ids s) = (a, Inl e)"
    | pr a i where "find_profile (pn_profile p) s = Some pr" "allocate (fs_ids s) = (a, Inr i)"
    by (metis option.exhaust old.sum.exhaust prod.exhaust)
  then show ?case
  proof cases
    case 3
    then obtain claimed' r where "create_planned acc obs t prov src (p # ps) claimed s =
       map_prod id ((#) (i, gen_first))
         (create_planned acc obs t prov src ps claimed'
            ((advance_evidence (s\<lparr>fs_ids := a\<rparr>))\<lparr>fs_partitions := om_set i r (fs_partitions s)\<rparr>))"
      by (rule create_planned_round)
    then have r: "fst (create_planned acc obs t prov src (p # ps) claimed s) =
         fst (create_planned acc obs t prov src ps claimed'
            ((advance_evidence (s\<lparr>fs_ids := a\<rparr>))\<lparr>fs_partitions := om_set i r (fs_partitions s)\<rparr>))"
      by simp
    let ?t = "(advance_evidence (s\<lparr>fs_ids := a\<rparr>))\<lparr>fs_partitions := om_set i r (fs_partitions s)\<rparr>"
    have "?t = advance_evidence (s\<lparr>fs_ids := a, fs_partitions := om_set i r (fs_partitions s)\<rparr>)"
      by (simp add: advance_evidence_def split: sum.split)
    then have e: "authority_evolves s ?t"
      using authority_evolves_trans [OF add_partition_authority [OF 3(2) Cons.prems] advance_evidence_authority] by simp
    from authority_evolves_trans [OF e Cons.IH [OF ids_fresh_evolves [OF e Cons.prems]]] show ?thesis
      unfolding r .
  next
    case 2
    then have "a = fs_ids s" by (simp add: allocate_Inl)
    with 2 show ?thesis by simp
  qed (use Cons in simp)
qed simp

lemma transition_core:
  "transition_partition i to s = (s', st) \<Longrightarrow>
     fs_accelerators s' = fs_accelerators s \<and> fs_attempts s' = fs_attempts s \<and> fs_reservations s' = fs_reservations s"
  using transition_frame [of i to s] by simp

lemma claim_native_step: "claim_native acc obs d claimed = (claimed', adopt) \<Longrightarrow> partition_step r (adopt r)"
  by (auto simp: claim_native_def adopt_native_def partition_step_def split: option.splits)

lemma commit_one_ledgers: "ledgers_evolve s (commit_one acc t prov src adopt p s)"
proof -
  let ?s1 = "stamp_partition_evidence p acc t prov src (upd_partition p adopt s)"
  have "ledgers_evolve s ?s1" by (rule ledgers_evolve_same) simp
  also have "ledgers_evolve ?s1 (fst (transition_partition p PS_Active ?s1))" by (rule transition_ledgers)
  finally show ?thesis
    by (rule ledgers_evolve_cong [rotated]) (simp add: commit_one_def Let_def split: prod.split sum.split)
qed

lemma stamp_authority [simp]: "authority_evolves s (stamp_partition_evidence i a t p src s)"
  unfolding stamp_partition_evidence_def Let_def
  by (rule authority_evolves_trans [OF advance_evidence_authority authority_evolves_partition])
    (simp add: stamp_record_def partition_step_def)

lemma commit_one_authority:
  assumes "\<And>r. partition_step r (adopt r)"
  shows "authority_evolves s (commit_one acc t prov src adopt p s)"
proof -
  let ?s0 = "upd_partition p adopt s"
  let ?s1 = "stamp_partition_evidence p acc t prov src ?s0"
  obtain s2 moved where m: "transition_partition p PS_Active ?s1 = (s2, moved)" by force
  let ?s3 = "case moved of Inl _ \<Rightarrow> record_event EX_CommitRejected s2 | Inr _ \<Rightarrow> s2"
  have "authority_evolves s ?s0" using assms by (rule authority_evolves_partition)
  also have "authority_evolves ?s0 ?s1" by simp
  also have "authority_evolves ?s1 s2" using transition_authority [of ?s1 p PS_Active] m by simp
  also have "authority_evolves s2 ?s3" by (simp split: sum.split)
  also have "authority_evolves ?s3 (upd_partition p (\<lambda>r. r\<lparr>pr_externally_observed := False\<rparr>) ?s3)"
    by (rule authority_evolves_partition) (simp add: partition_step_def)
  finally show ?thesis using m by (simp add: commit_one_def Let_def)
qed

lemma commit_one_frame [simp]:
  "fs_accelerators (commit_one acc t prov src adopt p s) = fs_accelerators s"
  "fs_attempts (commit_one acc t prov src adopt p s) = fs_attempts s"
  "fs_reservations (commit_one acc t prov src adopt p s) = fs_reservations s"
  by (auto simp: commit_one_def Let_def split: prod.split sum.split dest!: transition_core)

text \<open>The loop over the created partitions, as a whole, by what each round keeps.\<close>

lemma commit_created_invariant:
  assumes "P s"
    and step: "\<And>adopt p s. P s \<Longrightarrow> (\<And>r. partition_step r (adopt r)) \<Longrightarrow> P (commit_one acc t prov src adopt p s)"
  shows "P (commit_created acc obs t prov src ps ds claimed s)"
  using assms(1)
proof (induction ps arbitrary: ds claimed s)
  case (Cons p ps)
  obtain claimed' adopt where c: "(case ds of [] \<Rightarrow> (claimed, \<lambda>r. r)
      | d # _ \<Rightarrow> claim_native acc obs d claimed) = (claimed', adopt)" by force
  have "partition_step r (adopt r)" for r
    using c claim_native_step by (auto split: list.splits)
  then have "P (commit_one acc t prov src adopt p s)" using Cons.prems step by blast
  with Cons c show ?case by (simp split: option.split)
qed simp

lemma commit_created_ledgers [apf_inv]: "ledgers_evolve s (commit_created acc obs t prov src ps ds claimed s)"
  by (rule commit_created_invariant [where P = "ledgers_evolve s"]) (blast intro: ledgers_evolve_trans commit_one_ledgers ledgers_evolve_refl)+

lemma commit_created_authority [simp]: "authority_evolves s (commit_created acc obs t prov src ps ds claimed s)"
  by (rule commit_created_invariant [where P = "authority_evolves s"])
    (blast intro: authority_evolves_trans commit_one_authority authority_evolves_refl)+

lemma commit_created_frame [simp]:
  "fs_accelerators (commit_created acc obs t prov src ps ds claimed s) = fs_accelerators s"
  "fs_attempts (commit_created acc obs t prov src ps ds claimed s) = fs_attempts s"
  "fs_reservations (commit_created acc obs t prov src ps ds claimed s) = fs_reservations s"
  using commit_created_invariant [where P = "\<lambda>u. fs_accelerators u = fs_accelerators s \<and> fs_attempts u = fs_attempts s \<and>
      fs_reservations u = fs_reservations s" and s = s]
  by (auto simp del: commit_created.simps)

lemma commit_destroyed_ledgers [apf_inv]: "ledgers_evolve s (commit_destroyed p s)"
proof -
  have "fs_ledgers (commit_destroyed p s) = fs_ledgers s \<or>
        fs_ledgers (commit_destroyed p s) = fs_ledgers (fst (transition_partition p PS_Retired s))"
    by (auto simp: commit_destroyed_def split: option.split prod.split sum.split)
  then show ?thesis using ledgers_evolve_cong [OF _ transition_ledgers] by (metis ledgers_evolve_same)
qed

lemma commit_destroyed_authority [simp]: "authority_evolves s (commit_destroyed p s)"
proof -
  obtain s' st where m: "transition_partition p PS_Retired s = (s', st)" by force
  then have "authority_evolves s s'" using transition_authority [of s p PS_Retired] by simp
  from authority_evolves_trans [OF this] m show ?thesis
    by (simp add: commit_destroyed_def split: option.split sum.split)
qed

lemma commit_destroyed_frame [simp]:
  "fs_accelerators (commit_destroyed p s) = fs_accelerators s" "fs_attempts (commit_destroyed p s) = fs_attempts s"
  "fs_reservations (commit_destroyed p s) = fs_reservations s"
  by (auto simp: commit_destroyed_def split: option.split prod.split sum.split dest!: transition_core)

lemma revalidate_recorded_ledgers [apf_inv]: "ledgers_evolve s (revalidate_recorded p s)"
proof -
  have "fs_ledgers (revalidate_recorded p s) = fs_ledgers s \<or>
        fs_ledgers (revalidate_recorded p s) = fs_ledgers (fst (transition_partition p PS_RevalidationRequired s))"
    by (auto simp: revalidate_recorded_def split: option.split prod.split sum.split)
  then show ?thesis using ledgers_evolve_cong [OF _ transition_ledgers] by (metis ledgers_evolve_same)
qed

lemma revalidate_recorded_authority [simp]: "authority_evolves s (revalidate_recorded p s)"
proof -
  obtain s' st where m: "transition_partition p PS_RevalidationRequired s = (s', st)" by force
  then have "authority_evolves s s'" using transition_authority [of s p PS_RevalidationRequired] by simp
  from authority_evolves_trans [OF this authority_evolves_event] this m show ?thesis
    by (simp add: revalidate_recorded_def split: option.split sum.split)
qed

lemma revalidate_recorded_frame [simp]:
  "fs_accelerators (revalidate_recorded p s) = fs_accelerators s" "fs_attempts (revalidate_recorded p s) = fs_attempts s"
  "fs_reservations (revalidate_recorded p s) = fs_reservations s"
  by (auto simp: revalidate_recorded_def split: option.split prod.split sum.split dest!: transition_core)

subsection \<open>The four ways a mutation ends\<close>

lemma commit_reconfigure_ledgers: "ledgers_evolve s (fst (commit_reconfigure i a r acc obs prov src t out s))"
proof (cases "find_ledger (at_accelerator a) s")
  case l: (Some l)
  show ?thesis
  proof (cases "find_plan (rs_plan r) s")
    case p: (Some plan)
    obtain working st where w: "reconfigure_ledger s r (at_partitions a) (pl_planned_partitions plan) l = (working, st)"
      by force
    show ?thesis
    proof (cases st)
      case (Inl e)
      let ?s1 = "settle_attempt i AT_Failed t s"
      have "ledgers_evolve ?s1 (for_keys (at_partitions a) (try_transition PS_RevalidationRequired) ?s1)"
        by (rule ledgers_evolve_loop) (rule try_transition_ledgers)
      with l p w Inl show ?thesis
        by (simp add: commit_reconfigure_def ledgers_evolve_def)
    next
      case (Inr u)
      have "ledgers_evolve s (upd_ledger (at_accelerator a) working s)"
        using l reconfigure_ledger_step [OF w] by (rule ledgers_evolve_upd)
      then show ?thesis
        using l p w Inr
        by (elim ledgers_evolve_cong [rotated])
          (simp add: commit_reconfigure_def Let_def case_prod_beta for_keys_frame [where g = fs_ledgers])
    qed
  qed (auto simp: commit_reconfigure_def l)
qed (auto simp: commit_reconfigure_def)

lemma commit_reconfigure_authority:
  assumes "ids_fresh s" "\<And>a. find_attempt i s = Some a \<Longrightarrow> \<not> attempt_settled (at_state a)"
  shows "authority_evolves s (fst (commit_reconfigure i a r acc obs prov src t out s))"
proof (cases "find_ledger (at_accelerator a) s")
  case l: (Some l)
  show ?thesis
  proof (cases "find_plan (rs_plan r) s")
    case p: (Some plan)
    obtain working st where w: "reconfigure_ledger s r (at_partitions a) (pl_planned_partitions plan) l = (working, st)"
      by force
    show ?thesis
    proof (cases st)
      case (Inl e)
      let ?s1 = "settle_attempt i AT_Failed t s"
      let ?s2 = "for_keys (at_partitions a) (try_transition PS_RevalidationRequired) ?s1"
      have "authority_evolves s ?s1" using assms(2) by (rule settle_authority)
      also have "authority_evolves ?s1 ?s2" by (rule authority_evolves_loop) simp
      also have "authority_evolves ?s2 (bump_state_generation ?s2)" by simp
      finally show ?thesis using l p w Inl by (simp add: commit_reconfigure_def)
    next
      case (Inr u)
      let ?s1 = "upd_ledger (at_accelerator a) working s"
      let ?s2 = "for_keys (at_partitions a) (supersede_layout t) ?s1"
      let ?s3 = "for_keys (orphaned_assignments (at_partitions a) ?s2) drop_orphan ?s2"
      let ?s4 = "fst (create_planned acc obs t prov src (pl_planned_partitions plan) [] ?s3)"
      let ?s5 = "settle_attempt i AT_Succeeded t ?s4"
      let ?s6 = "set_lifecycle (at_reservation a) RL_Committed t ?s5"
      have "authority_evolves s ?s1" by simp
      also have "authority_evolves ?s1 ?s2" by (rule authority_evolves_loop) simp
      also have "authority_evolves ?s2 ?s3" by (rule authority_evolves_loop) simp
      finally have 3: "authority_evolves s ?s3" .
      also have "authority_evolves ?s3 ?s4" using 3 assms(1) by (intro create_planned_authority) (rule ids_fresh_evolves)
      also have "authority_evolves ?s4 ?s5"
        using assms(2) by (intro settle_authority) (simp add: for_keys_frame [where g = fs_attempts])
      also have "authority_evolves ?s5 ?s6" by (rule lifecycle_authority) (simp add: reservation_is_terminal_def)
      also have "authority_evolves ?s6 (bump_state_generation ?s6)" by simp
      also have "authority_evolves \<dots> (record_event EX_ReconfigurationExecuted (bump_state_generation ?s6))" by simp
      finally show ?thesis using l p w Inr by (simp add: commit_reconfigure_def Let_def case_prod_beta)
    qed
  qed (auto simp: commit_reconfigure_def l settle_authority [OF assms(2)])
qed (auto simp: commit_reconfigure_def settle_authority [OF assms(2)])

lemma commit_reconfigure_frame [simp]:
  "fs_accelerators (fst (commit_reconfigure i a r acc obs prov src t out s)) = fs_accelerators s"
  by (auto simp: commit_reconfigure_def Let_def case_prod_beta for_keys_frame [where g = fs_accelerators]
      split: option.split sum.split)

definition committed_partitions ::
  "partition_attempt \<Rightarrow> accelerator_record \<Rightarrow> backend_layout option \<Rightarrow> evidence_provenance \<Rightarrow> string \<Rightarrow> u64 \<Rightarrow>
     fabric_state \<Rightarrow> fabric_state" where
  "committed_partitions a acc obs prov src t s =
     (if at_kind a = AK_CreatePartition
      then commit_created acc obs t prov src (at_partitions a) (at_desired a) [] s
      else if at_kind a = AK_DestroyPartition then for_keys (at_partitions a) commit_destroyed s
      else s)"

lemma committed_partitions_facts:
  "ledgers_evolve s (committed_partitions a acc obs prov src t s)"
  "authority_evolves s (committed_partitions a acc obs prov src t s)"
  "fs_accelerators (committed_partitions a acc obs prov src t s) = fs_accelerators s"
  "fs_attempts (committed_partitions a acc obs prov src t s) = fs_attempts s"
  "fs_reservations (committed_partitions a acc obs prov src t s) = fs_reservations s"
  by (simp_all add: committed_partitions_def apf_inv ledgers_evolve_loop authority_evolves_loop
      for_keys_frame [where g = fs_accelerators] for_keys_frame [where g = fs_attempts]
      for_keys_frame [where g = fs_reservations])

lemma commit_verified_eq:
  "fst (commit_verified i a acc obs prov src t out s) =
     record_event EX_CommitAccepted (bump_state_generation
       (set_lifecycle (at_reservation a) RL_Committed t
          (settle_attempt i AT_Succeeded t (committed_partitions a acc obs prov src t s))))"
  by (simp add: commit_verified_def committed_partitions_def Let_def)

lemma commit_verified_ledgers: "ledgers_evolve s (fst (commit_verified i a acc obs prov src t out s))"
  by (rule ledgers_evolve_cong [OF _ committed_partitions_facts(1)]) (simp add: commit_verified_eq)

lemma commit_verified_authority:
  assumes "\<And>a. find_attempt i s = Some a \<Longrightarrow> \<not> attempt_settled (at_state a)"
  shows "authority_evolves s (fst (commit_verified i a acc obs prov src t out s))"
proof -
  let ?s1 = "committed_partitions a acc obs prov src t s"
  let ?s2 = "settle_attempt i AT_Succeeded t ?s1"
  let ?s3 = "set_lifecycle (at_reservation a) RL_Committed t ?s2"
  have "authority_evolves s ?s1" by (rule committed_partitions_facts)
  also have "authority_evolves ?s1 ?s2"
    using assms by (intro settle_authority) (simp add: committed_partitions_facts)
  also have "authority_evolves ?s2 ?s3" by (rule lifecycle_authority) (simp add: reservation_is_terminal_def)
  also have "authority_evolves ?s3 (bump_state_generation ?s3)" by simp
  also have "authority_evolves \<dots> (record_event EX_CommitAccepted (bump_state_generation ?s3))" by simp
  finally show ?thesis by (simp add: commit_verified_eq)
qed

lemma commit_verified_frame [simp]:
  "fs_accelerators (fst (commit_verified i a acc obs prov src t out s)) = fs_accelerators s"
  by (simp add: commit_verified_eq committed_partitions_facts)

lemma leave_unknown_ledgers: "ledgers_evolve s (fst (leave_unknown i a r t out s))"
proof -
  let ?s1 = "settle_attempt i AT_OutcomeUnknown t s"
  let ?s2 = "if \<not> reservation_is_terminal (rs_lifecycle r) then set_lifecycle (at_reservation a) RL_Fenced t ?s1 else ?s1"
  have "ledgers_evolve s ?s2" by (rule ledgers_evolve_same) simp
  also have "ledgers_evolve ?s2 (for_keys (at_partitions a) revalidate_recorded ?s2)"
    by (rule ledgers_evolve_loop) (rule revalidate_recorded_ledgers)
  finally show ?thesis by (rule ledgers_evolve_cong [rotated]) (simp add: leave_unknown_def Let_def)
qed

lemma leave_unknown_authority:
  assumes "\<And>a. find_attempt i s = Some a \<Longrightarrow> \<not> attempt_settled (at_state a)"
  shows "authority_evolves s (fst (leave_unknown i a r t out s))"
proof -
  let ?s1 = "settle_attempt i AT_OutcomeUnknown t s"
  let ?s2 = "if \<not> reservation_is_terminal (rs_lifecycle r) then set_lifecycle (at_reservation a) RL_Fenced t ?s1 else ?s1"
  let ?s3 = "for_keys (at_partitions a) revalidate_recorded ?s2"
  have "authority_evolves s ?s1" using assms by (rule settle_authority)
  also have "authority_evolves ?s1 ?s2" by (simp add: lifecycle_authority reservation_is_terminal_def)
  also have "authority_evolves ?s2 ?s3" by (rule authority_evolves_loop) simp
  also have "authority_evolves ?s3 (bump_state_generation ?s3)" by simp
  also have "authority_evolves \<dots> (record_event EX_OutcomeUnknown (bump_state_generation ?s3))" by simp
  finally show ?thesis by (simp only: leave_unknown_def Let_def fst_conv)
qed

lemma leave_unknown_frame [simp]: "fs_accelerators (fst (leave_unknown i a r t out s)) = fs_accelerators s"
  by (simp add: leave_unknown_def Let_def for_keys_frame [where g = fs_accelerators])

lemma fail_attempt_ledgers: "ledgers_evolve s (fst (fail_attempt i a r t out s))"
proof -
  let ?s1 = "set_lifecycle (at_reservation a) RL_Failed t (settle_attempt i AT_Failed t s)"
  let ?s2 = "if at_kind a = AK_CreatePartition \<and> reservation_holds_capacity (rs_lifecycle r)
    then upd_reservation (at_reservation a) (\<lambda>r. r\<lparr>rs_lifecycle := RL_Active\<rparr>)
           (for_keys (at_partitions a) (try_transition PS_Reserved) ?s1) else ?s1"
  let ?s3 = "if at_kind a = AK_DestroyPartition
    then for_keys (at_partitions a) (try_transition PS_RevalidationRequired) ?s2 else ?s2"
  have "ledgers_evolve s ?s1" by (rule ledgers_evolve_same) simp
  also have "ledgers_evolve ?s1 (for_keys (at_partitions a) (try_transition PS_Reserved) ?s1)"
    by (rule ledgers_evolve_loop) (rule try_transition_ledgers)
  finally have "ledgers_evolve s ?s2"
    using \<open>ledgers_evolve s ?s1\<close> by (auto elim: ledgers_evolve_cong [rotated])
  also have "ledgers_evolve ?s2 ?s3"
    by (simp add: ledgers_evolve_loop try_transition_ledgers)
  finally show ?thesis by (rule ledgers_evolve_cong [rotated]) (simp add: fail_attempt_def Let_def)
qed

lemma fail_attempt_authority:
  assumes "\<And>a. find_attempt i s = Some a \<Longrightarrow> \<not> attempt_settled (at_state a)"
    and r: "find_reservation (at_reservation a) s = Some r"
  shows "authority_evolves s (fst (fail_attempt i a r t out s))"
proof -
  let ?m = "settle_attempt i AT_Failed t s"
  let ?s1 = "set_lifecycle (at_reservation a) RL_Failed t ?m"
  let ?l = "for_keys (at_partitions a) (try_transition PS_Reserved) ?s1"
  let ?reclaim = "at_kind a = AK_CreatePartition \<and> reservation_holds_capacity (rs_lifecycle r)"
  let ?s2 = "if ?reclaim then upd_reservation (at_reservation a) (\<lambda>r. r\<lparr>rs_lifecycle := RL_Active\<rparr>) ?l else ?s1"
  let ?s3 = "if at_kind a = AK_DestroyPartition
    then for_keys (at_partitions a) (try_transition PS_RevalidationRequired) ?s2 else ?s2"
  have m: "authority_evolves s ?m" using assms(1) by (rule settle_authority)
  have "authority_evolves ?m ?s2"
  proof (cases ?reclaim)
    case False
    then show ?thesis unfolding if_not_P [OF False] by (simp add: lifecycle_authority reservation_is_terminal_def)
  next
    case True
    have "authority_evolves ?s1 ?l" by (rule authority_evolves_loop) simp
    moreover have "fs_reservations ?l = fs_reservations ?s1" by (rule for_keys_frame) simp
    moreover have "\<not> reservation_is_terminal (rs_lifecycle r)"
      using True by (auto simp: reservation_holds_capacity_def reservation_is_terminal_def)
    ultimately show ?thesis
      using True r
      by (auto simp: authority_evolves_def set_lifecycle_def keeps_def counters_advance_def ids_allocated_def
          used_ids_def apf_lookup reservation_step_def)
  qed
  from authority_evolves_trans [OF m this] have "authority_evolves s ?s2" .
  also have "authority_evolves ?s2 ?s3" by (simp add: authority_evolves_loop)
  also have "authority_evolves ?s3 (bump_state_generation ?s3)" by simp
  also have "authority_evolves \<dots> (record_event EX_CommitRejected (bump_state_generation ?s3))" by simp
  finally show ?thesis by (simp only: fail_attempt_def Let_def fst_conv)
qed

lemma fail_attempt_frame [simp]: "fs_accelerators (fst (fail_attempt i a r t out s)) = fs_accelerators s"
  by (simp add: fail_attempt_def Let_def for_keys_frame [where g = fs_accelerators])

subsection \<open>The whole handler\<close>

text \<open>How the handler ends, by the state of the attempt and the verdict.\<close>

lemma apply_mutation_cases:
  obtains (missing) out where "apply_mutation_result_locked i m obs t s = (s, out)"
      "find_attempt i s = None \<or> (\<exists>a. find_attempt i s = Some a \<and> find_reservation (at_reservation a) s = None)"
      "\<not> mo_committed out"
  | (settled) a r out where "find_attempt i s = Some a" "find_reservation (at_reservation a) s = Some r"
      "attempt_settled (at_state a)" "apply_mutation_result_locked i m obs t s = (s, out)"
      "mo_state out = at_state a" "mo_committed out = (at_state a = AT_Succeeded)"
  | (unknown) a r out where "find_attempt i s = Some a" "find_reservation (at_reservation a) s = Some r"
      "at_state a = AT_OutcomeUnknown" "apply_mutation_result_locked i m obs t s = (s, out)"
      "mo_state out = AT_OutcomeUnknown" "\<not> mo_committed out" "mo_reconciliation_required out"
  | (gone) a r out where "find_attempt i s = Some a" "find_reservation (at_reservation a) s = Some r"
      "\<not> attempt_settled (at_state a)" "at_state a \<noteq> AT_OutcomeUnknown"
      "find_accelerator (at_accelerator a) s = None"
      "apply_mutation_result_locked i m obs t s = (settle_attempt i AT_Failed t s, out)" "\<not> mo_committed out"
  | (decided) a r acc verified ambiguous prov src out where
      "find_attempt i s = Some a" "find_reservation (at_reservation a) s = Some r"
      "\<not> attempt_settled (at_state a)" "at_state a \<noteq> AT_OutcomeUnknown"
      "find_accelerator (at_accelerator a) s = Some acc" "verify_mutation s a r m obs = (verified, ambiguous)"
      "\<not> mo_committed out" "\<not> mo_verified_physically out"
      "apply_mutation_result_locked i m obs t s =
         (if verified \<and> at_kind a = AK_ReconfigureLayout
          then commit_reconfigure i a r acc obs prov src t out s
          else if verified then commit_verified i a acc obs prov src t out s
          else if ambiguous then leave_unknown i a r t out s
          else fail_attempt i a r t out s)"
proof -
  consider "find_attempt i s = None"
    | a where "find_attempt i s = Some a" "find_reservation (at_reservation a) s = None"
    | a r where "find_attempt i s = Some a" "find_reservation (at_reservation a) s = Some r"
    by fastforce
  then show thesis
  proof cases
    case 1
    then show ?thesis by (intro missing) (auto simp: apply_mutation_result_locked_def outcome_default_def)
  next
    case 2
    then show ?thesis by (intro missing) (auto simp: apply_mutation_result_locked_def outcome_default_def)
  next
    case ar: 3
    consider "attempt_settled (at_state a)" | "at_state a = AT_OutcomeUnknown" "\<not> attempt_settled (at_state a)"
      | "\<not> attempt_settled (at_state a)" "at_state a \<noteq> AT_OutcomeUnknown" by blast
    then show ?thesis
    proof cases
      case 1
      with ar show ?thesis
        by (intro settled) (auto simp: apply_mutation_result_locked_def outcome_default_def)
    next
      case 2
      with ar show ?thesis
        by (intro unknown) (auto simp: apply_mutation_result_locked_def outcome_default_def)
    next
      case 3
      show ?thesis
      proof (cases "find_accelerator (at_accelerator a) s")
        case None
        with ar 3 show ?thesis
          by (intro gone) (auto simp: apply_mutation_result_locked_def outcome_default_def)
      next
        case (Some acc)
        obtain v am where v: "verify_mutation s a r m obs = (v, am)" by force
        have "\<not> mo_committed (outcome_default\<lparr>mo_attempt := i, mo_reservation := at_reservation a,
            mo_accelerator := at_accelerator a, mo_partitions := at_partitions a, mo_plan := rs_plan r\<rparr>)"
          "\<not> mo_verified_physically (outcome_default\<lparr>mo_attempt := i, mo_reservation := at_reservation a,
            mo_accelerator := at_accelerator a, mo_partitions := at_partitions a, mo_plan := rs_plan r\<rparr>)"
          by (simp_all add: outcome_default_def)
        from decided [OF ar 3 Some v this] show ?thesis
          using ar 3 Some v by (simp add: apply_mutation_result_locked_def Let_def)
      qed
    qed
  qed
qed

lemma apply_mutation_ledgers [apf_inv]: "ledgers_evolve s (fst (apply_mutation_result_locked i m obs t s))"
  by (cases rule: apply_mutation_cases [of i m obs t s])
    (auto simp: commit_reconfigure_ledgers commit_verified_ledgers leave_unknown_ledgers fail_attempt_ledgers)

lemma apply_mutation_authority:
  assumes "ids_fresh s"
  shows "authority_evolves s (fst (apply_mutation_result_locked i m obs t s))"
proof (cases rule: apply_mutation_cases [of i m obs t s])
  case (gone a r out)
  then show ?thesis using settle_authority [of i s AT_Failed t] by simp
next
  case (decided a r acc verified ambiguous prov src out)
  then have u: "\<And>b. find_attempt i s = Some b \<Longrightarrow> \<not> attempt_settled (at_state b)" by simp
  show ?thesis
    using commit_reconfigure_authority [OF assms u] commit_verified_authority [OF u] leave_unknown_authority [OF u]
      fail_attempt_authority [OF u decided(2)] decided(9) by simp
qed auto

lemma apply_mutation_accelerators [simp]:
  "fs_accelerators (fst (apply_mutation_result_locked i m obs t s)) = fs_accelerators s"
  by (cases rule: apply_mutation_cases [of i m obs t s]) auto

subsection \<open>Registering and executing\<close>

definition begins :: "fabric_state \<Rightarrow> fabric_state \<Rightarrow> bool" where
  "begins s t \<longleftrightarrow> ledgers_evolve s t \<and> authority_evolves s t \<and>
     fs_accelerators t = fs_accelerators s \<and> fs_attempts t = fs_attempts s"

lemma begins_refl [simp]: "begins s s"
  by (simp add: begins_def)

lemma begins_trans: "begins s t \<Longrightarrow> begins t u \<Longrightarrow> begins s u"
  by (auto simp: begins_def intro: ledgers_evolve_trans authority_evolves_trans)

lemma transition_begins: "transition_partition i to s = (s', st) \<Longrightarrow> begins s s'"
  using transition_ledgers [of s i to] transition_authority [of s i to] transition_frame [of i to s]
  by (simp add: begins_def)

lemma begin_create_begins: "begins s (fst (begin_create ps gs s))"
proof (induction ps arbitrary: gs s)
  case (Cons p ps)
  obtain s' st where m: "transition_partition p PS_Creating s = (s', st)" by force
  show ?case using m transition_begins [OF m] begins_trans [OF transition_begins [OF m] Cons.IH]
    by (cases st) (simp_all add: Let_def split: option.split)
qed simp

lemma begin_destroy_begins: "begins s (fst (begin_destroy ps s))"
proof (induction ps arbitrary: s)
  case (Cons p ps)
  obtain s' st where m: "transition_partition p PS_Destroying s = (s', st)" by force
  show ?case using m transition_begins [OF m] begins_trans [OF transition_begins [OF m] Cons.IH]
    by (cases st) (simp_all split: option.split)
qed simp

definition begin_attempt ::
  "attempt_kind \<Rightarrow> partition_reservation \<Rightarrow> fabric_state \<Rightarrow> fabric_state \<times> status" where
  "begin_attempt kind r s =
     (if kind = AK_CreatePartition then begin_create (rs_partitions r) (rs_partition_generations r) s
      else if kind = AK_DestroyPartition then begin_destroy (rs_partitions r) s
      else (s, success))"

lemma begin_attempt_facts:
  "ledgers_evolve s (fst (begin_attempt kind r s))" "authority_evolves s (fst (begin_attempt kind r s))"
  "fs_accelerators (fst (begin_attempt kind r s)) = fs_accelerators s"
  "fs_attempts (fst (begin_attempt kind r s)) = fs_attempts s"
proof -
  have "begins s (fst (begin_attempt kind r s))"
    by (simp add: begin_attempt_def begin_create_begins begin_destroy_begins)
  then show "ledgers_evolve s (fst (begin_attempt kind r s))" "authority_evolves s (fst (begin_attempt kind r s))"
    "fs_accelerators (fst (begin_attempt kind r s)) = fs_accelerators s"
    "fs_attempts (fst (begin_attempt kind r s)) = fs_attempts s" by (simp_all add: begins_def)
qed

text \<open>How registration ends: refused, with at most transitions applied, or registered.\<close>

lemma register_attempt_cases:
  obtains (refused) u e where "ledgers_evolve s u" "authority_advances s u" "fs_accelerators u = fs_accelerators s"
      "register_attempt_locked ri r kind w b t s = (u, Inl e)"
  | (registered) s1 a i u att where "s1 = s \<or> s1 = prune_attempts s" "allocate (fs_ids s1) = (a, Inr i)"
      "begin_attempt kind r (s1\<lparr>fs_ids := a\<rparr>) = (u, success)"
      "att = make_attempt kind r w b i t (attempt_desired kind r u)" "attempt_validate att = success"
      "register_attempt_locked ri r kind w b t s =
         (bump_state_generation (record_event EX_AttemptRegistered
            (upd_reservation ri (\<lambda>r. r\<lparr>rs_attempt := i, rs_updated_at_ms := t\<rparr>)
               (u\<lparr>fs_attempts := om_set i att (fs_attempts u)\<rparr>))), Inr att)"
proof -
  define full where "full s \<longleftrightarrow> length (fs_attempts s) \<ge> max_attempt_history (fs_limits s)" for s :: fabric_state
  define s1 where "s1 = (if full s then prune_attempts s else s)"
  have pr: "fs_partitions (prune_attempts s) = fs_partitions s" "fs_ledgers (prune_attempts s) = fs_ledgers s"
    "fs_accelerators (prune_attempts s) = fs_accelerators s" "counters_advance s (prune_attempts s)"
    "used_ids (prune_attempts s) \<subseteq> used_ids s"
    using keys_subset [OF prune_subset, of "max_attempt_history (fs_limits s)" "\<lambda>a. attempt_settled (at_state a)"
        "fs_attempts s" "length (fs_attempts s)"]
    by (auto simp: prune_attempts_def counters_advance_def used_ids_def)
  then have s1: "ledgers_evolve s s1" "authority_advances s s1" "fs_accelerators s1 = fs_accelerators s"
    by (auto simp: s1_def authority_advances_def keeps_refls ids_allocated_same)
  have eq: "register_attempt_locked ri r kind w b t s =
      (if full s \<and> full s1 then (s1, failure E_LimitExceeded)
       else if pending_attempts s1 \<ge> max_pending_attempts (fs_limits s1) then (s1, failure E_LimitExceeded)
       else (case allocate (fs_ids s1) of
              (a, Inl e) \<Rightarrow> (s1\<lparr>fs_ids := a\<rparr>, Inl e)
            | (a, Inr i) \<Rightarrow>
                (case begin_attempt kind r (s1\<lparr>fs_ids := a\<rparr>) of
                    (s3, Inl e) \<Rightarrow> (s3, Inl e)
                  | (s3, Inr _) \<Rightarrow>
                      (let att = make_attempt kind r w b i t (attempt_desired kind r s3) in
                       (case attempt_validate att of
                          Inl e \<Rightarrow> (s3, Inl e)
                        | Inr _ \<Rightarrow> (bump_state_generation (record_event EX_AttemptRegistered
            (upd_reservation ri (\<lambda>r. r\<lparr>rs_attempt := i, rs_updated_at_ms := t\<rparr>)
               (s3\<lparr>fs_attempts := om_set i att (fs_attempts s3)\<rparr>))), Inr att))))))"
    unfolding register_attempt_locked_def full_def [symmetric] s1_def [symmetric] Let_def begin_attempt_def by (rule refl)
  show thesis
  proof (cases "full s \<and> full s1 \<or> pending_attempts s1 \<ge> max_pending_attempts (fs_limits s1)")
    case True
    with s1 eq show ?thesis by (intro refused [of s1 E_LimitExceeded]) auto
  next
    case False
    obtain a ir where al: "allocate (fs_ids s1) = (a, ir)" by force
    show ?thesis
    proof (cases ir)
      case (Inl e)
      with al have "a = fs_ids s1" by (simp add: allocate_Inl)
      with s1 eq False al Inl show ?thesis by (intro refused [of s1 e]) auto
    next
      case i: (Inr i)
      let ?s2 = "s1\<lparr>fs_ids := a\<rparr>"
      have "ida_next (fs_ids s1) \<le> ida_next a" using allocate_monotone [of "fs_ids s1"] al by simp
      then have s2: "ledgers_evolve s ?s2" "authority_advances s1 ?s2" "fs_accelerators ?s2 = fs_accelerators s"
        using s1 by (auto simp: authority_advances_def keeps_refls counters_advance_def ids_allocated_same used_ids_def
            elim: ledgers_evolve_cong [rotated])
      obtain u st where b: "begin_attempt kind r ?s2 = (u, st)" by force
      have u: "ledgers_evolve s u" "authority_advances s u" "fs_accelerators u = fs_accelerators s"
        using begin_attempt_facts [where s = ?s2 and kind = kind and r = r] b s2 s1 by (auto intro: ledgers_evolve_trans authority_advances_trans evolves_advances)
      let ?att = "make_attempt kind r w b i t (attempt_desired kind r u)"
      show ?thesis
      proof (cases st)
        case (Inl e)
        with u eq False al i b show ?thesis by (intro refused [of u e]) auto
      next
        case st: (Inr v)
        show ?thesis
        proof (cases "attempt_validate ?att")
          case (Inl e)
          with u eq False al i b st show ?thesis by (intro refused [of u e]) (auto simp: Let_def)
        next
          case (Inr v')
          with eq False al i b st s1_def show ?thesis
            by (intro registered [of s1 a i u ?att]) (auto simp: Let_def)
        qed
      qed
    qed
  qed
qed

lemma register_attempt_locked_facts:
  "ledgers_evolve s (fst (register_attempt_locked ri r kind w b t s))"
  "authority_advances s (fst (register_attempt_locked ri r kind w b t s))"
  "fs_accelerators (fst (register_attempt_locked ri r kind w b t s)) = fs_accelerators s"
proof -
  let ?t = "fst (register_attempt_locked ri r kind w b t s)"
  have "ledgers_evolve s ?t \<and> authority_advances s ?t \<and> fs_accelerators ?t = fs_accelerators s"
  proof (cases rule: register_attempt_cases [of s ri r kind w b t])
    case (registered s1 a i u att)
    have u: "ledgers_evolve s1 u" "authority_evolves (s1\<lparr>fs_ids := a\<rparr>) u" "fs_accelerators u = fs_accelerators s1"
      "fs_attempts u = fs_attempts s1"
      using begin_attempt_facts [where s = "s1\<lparr>fs_ids := a\<rparr>" and kind = kind and r = r] registered(3) by (auto simp: ledgers_evolve_def)
    have i: "i = ida_next (fs_ids s1)" "ida_next (fs_ids s1) < ida_next a"
      using registered(2) by (auto simp: allocate_Inr succ_u64_greater)
    have s1: "fs_ledgers s1 = fs_ledgers s" "fs_accelerators s1 = fs_accelerators s" "authority_advances s s1"
      using registered(1) keys_subset [OF prune_subset, of "max_attempt_history (fs_limits s)"
          "\<lambda>a. attempt_settled (at_state a)" "fs_attempts s" "length (fs_attempts s)"]
      by (auto simp: prune_attempts_def authority_advances_def keeps_refls counters_advance_def used_ids_def
          intro!: ids_allocated_same)
    have k: "keeps partition_step (fs_partitions s1) (fs_partitions u)" "counters_advance (s1\<lparr>fs_ids := a\<rparr>) u"
      "ids_allocated (s1\<lparr>fs_ids := a\<rparr>) u"
      using u(2) by (auto simp: authority_evolves_def)
    have "authority_advances s1 ?t"
      unfolding authority_advances_def
    proof (intro conjI)
      show "keeps partition_step (fs_partitions s1) (fs_partitions ?t)" using k(1) registered(6) by simp
      show "counters_advance s1 ?t"
        using k(2) i registered(6)
        by (auto simp: counters_advance_def intro: order_trans [OF _ bump_generation'])
      show "ids_allocated s1 ?t"
        using k(2,3) i registered(6)
        by (auto simp: ids_allocated_def used_ids_def counters_advance_def intro: less_le_trans less_imp_le order_trans)
    qed
    moreover have "ledgers_evolve s ?t"
      using u(1) registered(6) s1(1) by (simp add: ledgers_evolve_def)
    ultimately show ?thesis
      using s1 u(3) registered(6) authority_advances_trans by auto
  qed simp
  then show "ledgers_evolve s ?t" "authority_advances s ?t" "fs_accelerators ?t = fs_accelerators s" by simp_all
qed

lemma register_attempt_facts [apf_inv]:
  "ledgers_evolve s (fst (register_attempt ri kind w b s))"
  "authority_advances s (fst (register_attempt ri kind w b s))"
  by (simp_all add: register_attempt_def register_attempt_locked_facts split: option.split)

lemma execute_guard_facts:
  "ledgers_evolve s (fst (execute_guard ri r s))" "authority_evolves s (fst (execute_guard ri r s))"
proof -
  let ?p = "upd_plan (rs_plan r) (\<lambda>p. p\<lparr>pl_terminal := True\<rparr>) s"
  have "ledgers_evolve s ?p" by (rule ledgers_evolve_same) simp
  from ledgers_evolve_trans [OF this fence_ledgers]
  show "ledgers_evolve s (fst (execute_guard ri r s))"
    by (simp add: execute_guard_def fence_ledgers release_ledgers split: option.split sum.split)
  have "authority_evolves s ?p" by (rule authority_evolves_same) (simp_all add: counters_advance_def)
  from authority_evolves_trans [OF this fence_authority]
  show "authority_evolves s (fst (execute_guard ri r s))"
    by (simp add: execute_guard_def split: option.split sum.split)
qed

text \<open>What passing the checks of \<^verbatim>\<open>execute\<close> means; the state is then untouched.\<close>

lemma execute_guard_success:
  assumes "execute_guard ri r s = (s1, Inr u)"
  shows "s1 = s \<and>
    (\<exists>plan acc. find_plan (rs_plan r) s = Some plan \<and> find_accelerator (rs_accelerator r) s = Some acc \<and>
       validate_plan_binding s plan (fs_now s) (pp_require_fresh_evidence (fs_policy s)) = success \<and>
       ac_generation acc = rs_accelerator_generation r \<and> ac_boot_id acc = rs_accelerator_boot r \<and>
       cap_generation (ac_capability acc) = rs_capability_generation r \<and>
       rs_policy_generation r = fs_policy_generation s \<and>
       (rs_expires_at_ms r = 0 \<or> fs_now s \<le> rs_expires_at_ms r) \<and>
       (pp_require_fresh_evidence (fs_policy s) \<longrightarrow> is_fresh_at (ac_evidence acc) (fs_now s)))"
  using assms by (auto simp: execute_guard_def not_less split: option.splits sum.splits if_splits)

lemma execute_begin_facts:
  "ledgers_evolve s (fst (execute_begin rw ri s))" "authority_advances s (fst (execute_begin rw ri s))"
proof -
  have "ledgers_evolve s (fst (execute_begin rw ri s)) \<and> authority_advances s (fst (execute_begin rw ri s))"
  proof (cases "find_reservation ri s")
    case (Some r)
    obtain s1 st where g: "execute_guard ri r s = (s1, st)" by force
    have s1: "ledgers_evolve s s1" "authority_advances s s1"
      using execute_guard_facts [of s ri r] g by (auto intro: evolves_advances)
    obtain s2 at where q: "register_attempt_locked ri r AK_CreatePartition 0 0 (fs_now s1) s1 = (s2, at)" by force
    have "ledgers_evolve s1 s2" "authority_advances s1 s2"
      using register_attempt_locked_facts [where s = s1 and ri = ri and r = r and kind = AK_CreatePartition and w = 0
          and b = 0 and t = "fs_now s1"] q by auto
    with s1 have s2: "ledgers_evolve s s2" "authority_advances s s2"
      by (auto intro: ledgers_evolve_trans authority_advances_trans)
    have s3: "ledgers_evolve s (s2\<lparr>fs_stable_keys := m\<rparr>)" "authority_advances s (s2\<lparr>fs_stable_keys := m\<rparr>)" for m
      using s2 by (simp_all add: ledgers_evolve_def authority_advances_def counters_advance_def ids_allocated_def used_ids_def)
    from Some g q s1 s2 s3 show ?thesis
      by (auto simp: execute_begin_def Let_def split: sum.split option.split)
  qed (simp add: execute_begin_def split: sum.split)
  then show "ledgers_evolve s (fst (execute_begin rw ri s))" "authority_advances s (fst (execute_begin rw ri s))"
    by simp_all
qed

lemma mark_unknown_facts [apf_inv]:
  "ledgers_evolve s (fst (mark_attempt_outcome_unknown i s))"
  "authority_evolves s (fst (mark_attempt_outcome_unknown i s))"
proof -
  have "ledgers_evolve s (fst (mark_attempt_outcome_unknown i s)) \<and>
        authority_evolves s (fst (mark_attempt_outcome_unknown i s))"
  proof (cases "find_attempt i s")
    case (Some a)
    show ?thesis
    proof (cases "attempt_settled (at_state a)")
      case False
      let ?s1 = "settle_attempt i AT_OutcomeUnknown (fs_now s) s"
      let ?s2 = "case find_reservation (at_reservation a) ?s1 of None \<Rightarrow> ?s1
        | Some r \<Rightarrow> if reservation_is_terminal (rs_lifecycle r) then ?s1
                    else set_lifecycle (at_reservation a) RL_Fenced (fs_now s) ?s1"
      let ?s3 = "if at_kind a \<noteq> AK_DestroyPartition then for_keys (at_partitions a) revalidate_partition ?s2 else ?s2"
      have 1: "authority_evolves s ?s1" using Some False by (intro settle_authority) simp
      have 2: "authority_evolves ?s1 ?s2"
        by (simp add: lifecycle_authority reservation_is_terminal_def split: option.split)
      have 3: "authority_evolves ?s2 ?s3" by (simp add: authority_evolves_loop)
      have l2: "fs_ledgers ?s2 = fs_ledgers s" by (simp split: option.split)
      then have "ledgers_evolve s ?s2" by (rule ledgers_evolve_same)
      moreover have "ledgers_evolve ?s2 ?s3" by (simp add: ledgers_evolve_loop revalidate_ledgers)
      ultimately have "ledgers_evolve s ?s3" by (rule ledgers_evolve_trans)
      then have "ledgers_evolve s (record_event EX_OutcomeUnknown (bump_state_generation ?s3))"
        by (rule ledgers_evolve_cong [rotated]) simp
      moreover have "authority_evolves s (record_event EX_OutcomeUnknown (bump_state_generation ?s3))"
        using 1 2 3 by (meson authority_evolves_trans authority_evolves_event authority_evolves_bump)
      ultimately show ?thesis using Some False by (simp only: mark_attempt_outcome_unknown_def Let_def option.case if_False fst_conv)
    qed (simp add: mark_attempt_outcome_unknown_def Some)
  qed (simp add: mark_attempt_outcome_unknown_def)
  then show "ledgers_evolve s (fst (mark_attempt_outcome_unknown i s))"
    "authority_evolves s (fst (mark_attempt_outcome_unknown i s))" by simp_all
qed

section \<open>What the handler guarantees\<close>

subsection \<open>At most once\<close>

text \<open>An attempt the handler has dealt with never has another result applied to it.\<close>

definition attempt_closed :: "attempt_id \<Rightarrow> fabric_state \<Rightarrow> bool" where
  "attempt_closed i s \<longleftrightarrow>
     (case find_attempt i s of None \<Rightarrow> True
      | Some a \<Rightarrow> attempt_settled (at_state a) \<or> at_state a = AT_OutcomeUnknown)"

lemma attempt_closed_noop: "attempt_closed i s \<Longrightarrow> fst (apply_mutation_result_locked i m obs t s) = s"
  by (auto simp: attempt_closed_def apply_mutation_result_locked_def Let_def split: option.splits)

lemma settle_attempt_closes:
  "attempt_settled st \<or> st = AT_OutcomeUnknown \<Longrightarrow> fs_attempts u = fs_attempts (settle_attempt i st t s) \<Longrightarrow> attempt_closed i u"
  by (auto simp: attempt_closed_def settle_attempt_def apf_lookup split: option.split)

lemma commit_reconfigure_closes: "attempt_closed i (fst (commit_reconfigure i a r acc obs prov src t out s))"
  by (auto simp: commit_reconfigure_def Let_def case_prod_beta for_keys_frame [where g = fs_attempts] attempt_settled_def
      settle_attempt_def attempt_closed_def apf_lookup split: option.split sum.split)

lemma commit_verified_closes: "attempt_closed i (fst (commit_verified i a acc obs prov src t out s))"
  by (rule settle_attempt_closes [where st = AT_Succeeded and s = "committed_partitions a acc obs prov src t s" and t = t])
    (simp_all add: commit_verified_eq attempt_settled_def)

lemma leave_unknown_closes: "attempt_closed i (fst (leave_unknown i a r t out s))"
  by (rule settle_attempt_closes [where st = AT_OutcomeUnknown and s = s and t = t])
    (simp_all add: leave_unknown_def Let_def for_keys_frame [where g = fs_attempts])

lemma fail_attempt_closes: "attempt_closed i (fst (fail_attempt i a r t out s))"
  by (rule settle_attempt_closes [where st = AT_Failed and s = s and t = t])
    (simp_all add: fail_attempt_def Let_def for_keys_frame [where g = fs_attempts] attempt_settled_def)

lemma apply_mutation_twice:
  "fst (apply_mutation_result_locked i m' obs' t' (fst (apply_mutation_result_locked i m obs t s))) =
     fst (apply_mutation_result_locked i m obs t s)"
proof (cases rule: apply_mutation_cases [of i m obs t s])
  case (missing out)
  then show ?thesis by (auto simp: apply_mutation_result_locked_def Let_def)
next
  case (gone a r out)
  then show ?thesis
    using attempt_closed_noop [OF settle_attempt_closes [OF _ refl, of AT_Failed i t s]]
    by (simp add: attempt_settled_def)
next
  case (decided a r acc verified ambiguous prov src out)
  have "attempt_closed i (fst (apply_mutation_result_locked i m obs t s))"
    unfolding decided(9)
    by (simp add: commit_reconfigure_closes commit_verified_closes leave_unknown_closes fail_attempt_closes)
  then show ?thesis by (rule attempt_closed_noop)
qed (auto simp: attempt_closed_def intro!: attempt_closed_noop)

subsection \<open>No commit without physical evidence\<close>

text \<open>What was observed when a mutation of an attempt is taken as verified.\<close>

definition physically_evident ::
  "fabric_state \<Rightarrow> partition_attempt \<Rightarrow> partition_reservation \<Rightarrow> mutation_result \<Rightarrow> backend_layout \<Rightarrow> bool" where
  "physically_evident s a r m layout \<longleftrightarrow>
     mu_accepted m \<and>
     (case at_kind a of
        AK_ReconfigureLayout \<Rightarrow>
          bl_device_present layout \<and>
          (\<exists>ns. mset ns = mset (bl_partitions layout) \<and>
             list_all2 spec_matches
               (case find_plan (rs_plan r) s of Some plan \<Rightarrow> desired_specs_of plan | None \<Rightarrow> []) ns)
      | AK_CreatePartition \<Rightarrow>
          bl_device_present layout \<and>
          (\<forall>i\<in>set (mu_created_native_ids m). \<exists>n\<in>set (bl_partitions layout). bn_native_id n = i \<and> i \<noteq> []) \<and>
          (\<forall>p\<in>set (at_desired a). \<exists>n\<in>set (bl_partitions layout). spec_matches (spec_of p) n)
      | _ \<Rightarrow>
          (\<forall>p\<in>set (at_partitions a). \<forall>rec. find_partition p s = Some rec \<longrightarrow>
             ni_native_id (pr_native_identity rec) \<noteq> [] \<longrightarrow>
             (\<forall>n\<in>set (bl_partitions layout). bn_native_id n \<noteq> ni_native_id (pr_native_identity rec))))"

lemma find_native_Some:
  "(\<exists>y. find_native layout i = Some y) \<longleftrightarrow> (\<exists>n\<in>set (bl_partitions layout). bn_native_id n = i \<and> i \<noteq> [])"
  unfolding find_native_def not_None_eq [symmetric] by (auto simp: find_None_iff)

lemma find_native_spec_Some:
  "(\<exists>y. find_native_for_spec layout spec = Some y) \<longleftrightarrow> (\<exists>n\<in>set (bl_partitions layout). spec_matches spec n)"
  unfolding find_native_for_spec_def not_None_eq [symmetric] by (auto simp: find_None_iff)

lemma verified_evidence:
  assumes "verify_mutation s a r m obs = (True, am)"
  shows "\<exists>res layout. m = Inr res \<and> obs = Some layout \<and> physically_evident s a r res layout"
proof -
  obtain res where m: "m = Inr res" "mu_accepted res"
    using assms
    by (cases m) (auto simp: verify_mutation_def verify_reconfigure_def verify_create_def verify_destroy_def
        Let_def split: if_splits)
  obtain layout where o: "obs = Some layout"
    using assms m
    by (cases obs) (auto simp: verify_mutation_def verify_reconfigure_def verify_create_def verify_destroy_def
        Let_def split: if_splits)
  have "physically_evident s a r res layout"
  proof (cases "at_kind a")
    case AK_ReconfigureLayout
    with assms m o show ?thesis
      by (auto simp: verify_mutation_def verify_reconfigure_def physically_evident_def Let_def split: if_splits
          dest!: layout_match_sound)
  next
    case AK_CreatePartition
    with assms m o show ?thesis
      by (simp add: verify_mutation_def verify_create_def physically_evident_def Let_def find_native_Some
          find_native_spec_Some split: if_splits)
  qed (use assms m o in \<open>auto simp: verify_mutation_def verify_destroy_def physically_evident_def Let_def native_gone_def
        find_native_Some split: option.splits\<close>)
  with m o show ?thesis by blast
qed

lemma commit_evidence:
  assumes "mo_committed (snd (apply_mutation_result_locked i m obs t s))"
  shows "\<exists>a r. find_attempt i s = Some a \<and> find_reservation (at_reservation a) s = Some r \<and>
    (at_state a = AT_Succeeded \<or>
     (\<exists>res layout. m = Inr res \<and> obs = Some layout \<and> physically_evident s a r res layout))"
proof (cases rule: apply_mutation_cases [of i m obs t s])
  case (decided a r acc verified ambiguous prov src out)
  have "\<not> mo_committed (snd (leave_unknown i a r t out s))" "\<not> mo_committed (snd (fail_attempt i a r t out s))"
    using decided(7) by (simp_all add: leave_unknown_def fail_attempt_def Let_def)
  then have verified using assms decided(9) by (auto split: if_splits)
  with decided(6) have "verify_mutation s a r m obs = (True, ambiguous)" by simp
  from verified_evidence [OF this] decided(1,2) show ?thesis by blast
qed (use assms in auto)

text \<open>An attempt is only failed cleanly when the backend itself rejected the request.\<close>

lemma clean_rejection:
  "verify_mutation s a r m obs = (False, False) \<Longrightarrow>
     \<exists>res. m = Inr res \<and> \<not> mu_accepted res \<and> \<not> mu_ambiguous res"
  by (cases m; cases obs)
    (auto simp: verify_mutation_def verify_reconfigure_def verify_create_def verify_destroy_def Let_def split: if_splits)

lemma lost_call_ambiguous: "verify_mutation s a r (Inl e) obs = (False, True)"
  by (simp add: verify_mutation_def verify_reconfigure_def verify_create_def verify_destroy_def Let_def)

subsection \<open>Capacity under an unknown outcome\<close>

lemma transition_keeps_ledger:
  assumes "state_keeps_current_bucket to"
  shows "find_ledger k (fst (transition_partition i to s)) = find_ledger k s"
proof -
  have same: "om_find k (om_modify j (\<lambda>_. l) m) = om_find k m" if "om_find j m = Some l" for j l and m :: "(u64, capacity_ledger) omap"
    using that by (cases "k = j") (simp_all add: apf_lookup)
  show ?thesis
    using assms by (auto simp: transition_partition_def apply_capacity_transition_def Let_def same split: option.split sum.split)
qed

lemma revalidate_keeps_ledger: "find_ledger k (revalidate_recorded p s) = find_ledger k s"
  using transition_keeps_ledger [of PS_RevalidationRequired k p s]
  by (auto simp: revalidate_recorded_def state_keeps_current_bucket_def split: option.split prod.split sum.split)

lemma leave_unknown_keeps_ledger: "find_ledger k (fst (leave_unknown i a r t out s)) = find_ledger k s"
proof -
  have "find_ledger k (for_keys ps revalidate_recorded u) = find_ledger k u" for ps u
    by (rule for_keys_frame) (rule revalidate_keeps_ledger)
  then show ?thesis by (simp add: leave_unknown_def Let_def)
qed

lemma lost_call_outcome:
  assumes "find_attempt i s = Some a" "find_reservation (at_reservation a) s = Some r"
    "find_accelerator (at_accelerator a) s = Some acc" "\<not> attempt_settled (at_state a)" "at_state a \<noteq> AT_OutcomeUnknown"
    "apply_mutation_result_locked i (Inl e) obs t s = (s', out)"
  shows "mo_outcome_unknown out \<and> \<not> mo_committed out \<and> (\<forall>k. find_ledger k s' = find_ledger k s) \<and>
    (\<exists>a'. find_attempt i s' = Some a' \<and> at_state a' = AT_OutcomeUnknown) \<and>
    (\<exists>r'. find_reservation (at_reservation a) s' = Some r' \<and> reservation_is_terminal (rs_lifecycle r'))"
proof -
  obtain out0 where eq: "apply_mutation_result_locked i (Inl e) obs t s = leave_unknown i a r t out0 s" "\<not> mo_committed out0"
    using assms(1-5) by (auto simp: apply_mutation_result_locked_def lost_call_ambiguous Let_def outcome_default_def)
  have f: "fs_attempts s' = fs_attempts (settle_attempt i AT_OutcomeUnknown t s)"
    "fs_reservations s' = fs_reservations (if \<not> reservation_is_terminal (rs_lifecycle r)
       then set_lifecycle (at_reservation a) RL_Fenced t s else s)"
    using assms(6) eq
    by (auto simp: leave_unknown_def Let_def for_keys_frame [where g = fs_attempts] set_lifecycle_def
        for_keys_frame [where g = fs_reservations])
  have "\<forall>k. find_ledger k s' = find_ledger k s"
    using leave_unknown_keeps_ledger [of _ i a r t out0 s] assms(6) eq by simp
  moreover have "mo_outcome_unknown out \<and> \<not> mo_committed out"
    using assms(6) eq by (auto simp: leave_unknown_def Let_def)
  moreover have "\<exists>r'. find_reservation (at_reservation a) s' = Some r' \<and> reservation_is_terminal (rs_lifecycle r')"
    using assms(2) by (auto simp: f(2) set_lifecycle_def apf_lookup)
  ultimately show ?thesis
    using assms(1) f(1) by (simp add: settle_attempt_def apf_lookup)
qed

subsection \<open>What authorises a dispatch\<close>

lemma transition_generation:
  "find_partition i s = Some r \<Longrightarrow>
     \<exists>r'. find_partition i (fst (transition_partition i to s)) = Some r' \<and> pr_generation r' = pr_generation r"
  using transition_record [of i s r to] by force

lemma begin_create_generations:
  "begin_create ps gs s = (u, Inr v) \<Longrightarrow> k < length ps \<Longrightarrow>
     \<exists>r. find_partition (ps ! k) s = Some r \<and> pr_generation r = (if k < length gs then gs ! k else gen_unknown)"
proof (induction ps arbitrary: gs s k)
  case (Cons p ps)
  from Cons.prems(1) obtain r s' w where r: "find_partition p s = Some r"
    "pr_generation r = (case gs of [] \<Rightarrow> gen_unknown | g # _ \<Rightarrow> g)"
    "transition_partition p PS_Creating s = (s', Inr w)" "begin_create ps (tl gs) s' = (u, Inr v)"
    by (auto simp: Let_def split: option.splits if_splits prod.splits sum.splits)
  show ?case
  proof (cases k)
    case 0
    with r show ?thesis by (auto split: list.splits)
  next
    case (Suc j)
    with Cons.IH [OF r(4), of j] Cons.prems(2) obtain q where
      q: "find_partition (ps ! j) s' = Some q" "pr_generation q = (if j < length (tl gs) then tl gs ! j else gen_unknown)"
      by auto
    have "\<exists>q'. find_partition (ps ! j) s = Some q' \<and> pr_generation q' = pr_generation q"
    proof (cases "ps ! j = p")
      case True
      then show ?thesis using transition_generation [OF r(1), of PS_Creating] r(1,3) q(1) by auto
    next
      case False
      then show ?thesis using transition_other_partition [OF False, of PS_Creating s] r(3) q(1) by (intro exI [of _ q]) simp
    qed
    with q(2) Suc show ?thesis by (cases gs) auto
  qed
qed simp

lemma execute_begin_authorised:
  assumes "execute_begin rw ri s = (s1, Inr req)"
  shows "\<exists>r plan acc. find_reservation ri s = Some r \<and> rs_lifecycle r = RL_Active \<and> \<not> fs_closed s \<and>
      (rw \<longrightarrow> id_valid (rs_worker r)) \<and>
      find_plan (rs_plan r) s = Some plan \<and> find_accelerator (rs_accelerator r) s = Some acc \<and>
      validate_plan_binding s plan (fs_now s) (pp_require_fresh_evidence (fs_policy s)) = success \<and>
      ac_generation acc = rs_accelerator_generation r \<and> ac_boot_id acc = rs_accelerator_boot r \<and>
      cap_generation (ac_capability acc) = rs_capability_generation r \<and>
      rs_policy_generation r = fs_policy_generation s \<and>
      (rs_expires_at_ms r = 0 \<or> fs_now s \<le> rs_expires_at_ms r) \<and>
      (\<forall>k<length (rs_partitions r). \<exists>p. find_partition (rs_partitions r ! k) s = Some p \<and>
         pr_generation p = (if k < length (rs_partition_generations r) then rs_partition_generations r ! k else gen_unknown)) \<and>
      (\<exists>a. find_attempt (mr_attempt req) s1 = Some a \<and> at_kind a = AK_CreatePartition \<and>
         at_partitions a = rs_partitions r \<and> at_state a = AT_Dispatched)"
proof -
  obtain r s0 u s2 att where r: "find_reservation ri s = Some r" "rs_lifecycle r = RL_Active" "\<not> fs_closed s"
    "rw \<longrightarrow> id_valid (rs_worker r)" "execute_guard ri r s = (s0, Inr u)"
    "register_attempt_locked ri r AK_CreatePartition 0 0 (fs_now s0) s0 = (s2, Inr att)"
    "fs_attempts s1 = fs_attempts s2" "mr_attempt req = at_id att"
    using assms
    by (auto simp: execute_begin_def check_open_def Let_def execute_request_def
        split: sum.splits option.splits if_splits prod.splits)
  note g = execute_guard_success [OF r(5)]
  show ?thesis
  proof (cases rule: register_attempt_cases [of s0 ri r AK_CreatePartition 0 0 "fs_now s0"])
    case (refused w e)
    with r(6) show ?thesis by simp
  next
    case (registered t a i w att')
    have att: "att = att'" "find_attempt i s2 = Some att'" "at_id att' = i" "at_partitions att' = rs_partitions r"
      "at_kind att' = AK_CreatePartition" "at_state att' = AT_Dispatched"
      using registered r(6) by (auto simp: make_attempt_def apf_lookup)
    have bc: "begin_create (rs_partitions r) (rs_partition_generations r) (t\<lparr>fs_ids := a\<rparr>) = (w, success)"
      using registered(3) by (simp add: begin_attempt_def)
    have same: "fs_partitions (t\<lparr>fs_ids := a\<rparr>) = fs_partitions s"
      using registered(1) g by (auto simp: prune_attempts_def)
    have "\<forall>k<length (rs_partitions r). \<exists>p. find_partition (rs_partitions r ! k) s = Some p \<and>
       pr_generation p = (if k < length (rs_partition_generations r) then rs_partition_generations r ! k else gen_unknown)"
      using begin_create_generations [OF bc] same by metis
    with g r att show ?thesis by auto
  qed
qed

end
