(* ===== verification/APF_Admission.thy ===== *)
theory APF_Admission
  imports APF_Reserve
begin

text \<open>
  Admission and drain: \<^verbatim>\<open>src/admission.cpp\<close> and the operations \<^verbatim>\<open>begin_drain\<close>,
  \<^verbatim>\<open>begin_drain_accelerator\<close>, \<^verbatim>\<open>complete_drain\<close>, \<^verbatim>\<open>cancel_drain\<close>, \<^verbatim>\<open>admit\<close>, \<^verbatim>\<open>bind_assignment\<close> and
  \<^verbatim>\<open>unbind_assignment\<close> of \<^verbatim>\<open>src/fabric.cpp\<close>. An assignment is the authority of a workload over a
  partition; a drain stops new assignments and is complete once none is outstanding, and only
  then is destruction of the partition safe.
\<close>

section \<open>Evaluating an admission\<close>

text \<open>The \<^verbatim>\<open>saw_*\<close> flags of the scan, and the two verdicts that set none of them.\<close>

datatype candidate_view =
    Saw_Device | Saw_Draining | Saw_Revalidation | Not_Active | Saw_Capability | Saw_Profile
  | Saw_Resources | Saw_Isolation | Saw_Exclusive | Saw_Stale | Chosen

record admission_probe =
  ap_outcome :: admission_outcome
  ap_partition :: partition_id
  ap_profile :: profile_id
  ap_resources :: resource_vector
  ap_candidates_considered :: u32

definition occupied :: "partition_id \<Rightarrow> fabric_state \<Rightarrow> bool" where
  "occupied i s \<longleftrightarrow> (\<exists>a\<in>set (om_values (fs_assignments s)). as_partition a = i)"

definition freshness_window :: "fabric_state \<Rightarrow> workload_requirement \<Rightarrow> u64" where
  "freshness_window s q =
     (if wr_required_freshness_ms q \<noteq> 0 then wr_required_freshness_ms q
      else pp_max_evidence_age_ms (fs_policy s))"

definition admission_fresh :: "fabric_state \<Rightarrow> workload_requirement \<Rightarrow> u64 \<Rightarrow> partition_record \<Rightarrow> bool" where
  "admission_fresh s q now_ms r \<longleftrightarrow>
     now_ms \<le> es_observed_at_ms (pr_evidence r) \<or>
     now_ms - es_observed_at_ms (pr_evidence r) \<le>
       (if freshness_window s q = 0 then es_ttl_ms (pr_evidence r) else freshness_window s q)"

definition view_candidate ::
  "fabric_state \<Rightarrow> workload_requirement \<Rightarrow> u64 \<Rightarrow> partition_record \<Rightarrow> candidate_view" where
  "view_candidate s q now_ms r =
     (case find_accelerator (pr_accelerator r) s of
        None \<Rightarrow> Saw_Device
      | Some a \<Rightarrow>
          if pr_state r = PS_Draining \<or> dp_state (pr_drain r) = DS_Draining then Saw_Draining
          else if pr_state r = PS_RevalidationRequired \<or> pr_state r = PS_Offline \<or> pr_state r = PS_Degraded
          then Saw_Revalidation
          else if pr_state r \<noteq> PS_Active then Not_Active
          else if wr_backend q \<noteq> [] \<and> wr_backend q \<noteq> ac_backend a then Saw_Capability
          else if wr_device_family q \<noteq> [] \<and> wr_device_family q \<noteq> di_model (ac_identifiers a)
          then Saw_Capability
          else if wr_locality_domain q \<noteq> [] \<and> wr_locality_domain q \<noteq> ld_name (ac_locality a)
          then Saw_Capability
          else if id_valid (wr_required_profile q) \<and> pr_profile r \<noteq> wr_required_profile q then Saw_Profile
          else if \<not> rv_empty (wr_minimum_resources q) \<and>
                  \<not> is_subset_of (wr_minimum_resources q) (pr_resources r) then Saw_Resources
          else if \<not> isolation_subset (ir_required (wr_isolation q)) (id_guarantees (pr_isolation r))
          then Saw_Isolation
          else if \<not> declares_supported (ac_capability a) then Saw_Capability
          else if wr_exclusive q \<and> occupied (pr_id r) s then Saw_Exclusive
          else if \<not> is_observed (pr_evidence r) \<or> \<not> admission_fresh s q now_ms r then Saw_Stale
          else Chosen)"

text \<open>\<^verbatim>\<open>++candidates_considered\<close> is reached by the views past the check for an active partition.\<close>

definition considered :: "candidate_view \<Rightarrow> bool" where
  "considered v \<longleftrightarrow> v \<notin> {Saw_Device, Saw_Draining, Saw_Revalidation, Not_Active}"

definition deferred_outcome :: "candidate_view list \<Rightarrow> admission_outcome" where
  "deferred_outcome saw =
     (if Saw_Draining \<in> set saw then RejectedDraining
      else if Saw_Revalidation \<in> set saw then RejectedRevalidationRequired
      else if Saw_Stale \<in> set saw then RejectedStaleAuthority
      else if Saw_Isolation \<in> set saw then RejectedIsolation
      else if Saw_Resources \<in> set saw then RejectedInsufficientResources
      else if Saw_Exclusive \<in> set saw then RejectedExclusiveConflict
      else if Saw_Profile \<in> set saw then RejectedProfile
      else if Saw_Capability \<in> set saw then RejectedCapability
      else if Saw_Device \<in> set saw then RejectedDeviceUnavailable
      else RejectedNoCandidatePartition)"

fun admission_scan ::
  "fabric_state \<Rightarrow> workload_requirement \<Rightarrow> u64 \<Rightarrow> partition_record list \<Rightarrow> candidate_view list \<Rightarrow> u32 \<Rightarrow>
     admission_probe" where
  "admission_scan s q now_ms [] saw n =
     \<lparr>ap_outcome = deferred_outcome saw, ap_partition = 0, ap_profile = 0, ap_resources = rv_zeros,
      ap_candidates_considered = n\<rparr>"
| "admission_scan s q now_ms (r # rs) saw n =
     (let v = view_candidate s q now_ms r;
          n' = (if considered v then n + 1 else n)
      in if v = Chosen
         then \<lparr>ap_outcome = Admitted, ap_partition = pr_id r, ap_profile = pr_profile r,
               ap_resources = pr_resources r, ap_candidates_considered = n'\<rparr>
         else admission_scan s q now_ms rs (saw @ [v]) n')"

definition evaluate_admission ::
  "fabric_state \<Rightarrow> workload_requirement \<Rightarrow> u64 \<Rightarrow> admission_probe" where
  "evaluate_admission s q now_ms =
     (case requirement_validate q (fs_limits s) of
        Inl _ \<Rightarrow>
          \<lparr>ap_outcome = RejectedInvalidRequest, ap_partition = 0, ap_profile = 0, ap_resources = rv_zeros,
           ap_candidates_considered = 0\<rparr>
      | Inr _ \<Rightarrow> admission_scan s q now_ms (om_values (fs_partitions s)) [] 0)"

section \<open>Admitting a workload\<close>

record admission_decision =
  ad_outcome :: admission_outcome
  ad_partition :: partition_id
  ad_partition_generation :: generation
  ad_assignment :: assignment_id
  ad_accelerator :: accelerator_id
  ad_accelerator_generation :: generation
  ad_candidates_considered :: u32
  ad_state_generation :: generation
  ad_coordinator_epoch :: generation
  ad_policy_generation :: generation

definition decision_start :: "fabric_state \<Rightarrow> admission_decision" where
  "decision_start s =
     \<lparr>ad_outcome = RejectedNoCandidatePartition, ad_partition = 0, ad_partition_generation = 0,
      ad_assignment = 0, ad_accelerator = 0, ad_accelerator_generation = 0,
      ad_candidates_considered = 0, ad_state_generation = fs_state_generation s,
      ad_coordinator_epoch = fs_coordinator_epoch s, ad_policy_generation = fs_policy_generation s\<rparr>"

definition assignments_on :: "partition_id \<Rightarrow> fabric_state \<Rightarrow> nat" where
  "assignments_on i s = length (filter (\<lambda>a. as_partition a = i) (om_values (fs_assignments s)))"

definition new_assignment ::
  "assignment_id \<Rightarrow> partition_record \<Rightarrow> accelerator_record \<Rightarrow> workload_requirement \<Rightarrow> fabric_state \<Rightarrow>
     partition_assignment" where
  "new_assignment i r a q s =
     \<lparr>as_id = i, as_partition = pr_id r, as_partition_generation = pr_generation r,
      as_accelerator = pr_accelerator r, as_accelerator_generation = ac_generation a,
      as_workload_id = wr_workload_id q, as_tenant_id = wr_tenant_id q,
      as_isolation = wr_isolation q, as_policy_generation = fs_policy_generation s,
      as_coordinator_epoch = fs_coordinator_epoch s,
      as_evidence_generation = es_generation (pr_evidence r),
      as_exclusive = (wr_exclusive q \<or> pp_exclusive_by_default (fs_policy s)),
      as_bound_at_ms = fs_now s, as_last_validated_at_ms = fs_now s\<rparr>"

definition bind_admitted ::
  "partition_id \<Rightarrow> partition_assignment \<Rightarrow> fabric_state \<Rightarrow> fabric_state" where
  "bind_admitted i asg s =
     (let s1 = s\<lparr>fs_assignments := om_set (as_id asg) asg (fs_assignments s)\<rparr>;
          s2 = upd_partition i
                 (\<lambda>r. r\<lparr>pr_assignment_state := AS_Assigned,
                       pr_drain := (if dp_state (pr_drain r) = DS_DrainComplete \<or> dp_state (pr_drain r) = DS_Draining
                                    then (pr_drain r)\<lparr>dp_outstanding_assignments :=
                                            dp_outstanding_assignments (pr_drain r) + 1\<rparr>
                                    else pr_drain r)\<rparr>) s1
      in record_event EX_CommitAccepted (bump_state_generation s2))"

definition admit :: "workload_requirement \<Rightarrow> fabric_state \<Rightarrow> fabric_state \<times> admission_decision" where
  "admit q s =
     (let d = decision_start s in
      case check_open s of
        Inl _ \<Rightarrow> (s, d\<lparr>ad_outcome := RejectedPolicy\<rparr>)
      | Inr _ \<Rightarrow>
          (let probe = evaluate_admission s q (fs_now s);
               d = d\<lparr>ad_candidates_considered := ap_candidates_considered probe\<rparr>;
               i = ap_partition probe
           in if ap_outcome probe \<noteq> Admitted then (s, d\<lparr>ad_outcome := ap_outcome probe\<rparr>)
              else
                (case find_partition i s of
                   None \<Rightarrow> (s, d\<lparr>ad_outcome := RejectedStaleAuthority\<rparr>)
                 | Some r \<Rightarrow>
                     if pr_state r \<noteq> PS_Active then (s, d\<lparr>ad_outcome := RejectedStaleAuthority\<rparr>)
                     else
                       (case find_accelerator (pr_accelerator r) s of
                          None \<Rightarrow> (s, d\<lparr>ad_outcome := RejectedDeviceUnavailable\<rparr>)
                        | Some a \<Rightarrow>
                            if \<not> supports_profile (ac_capability a) (pr_profile r)
                            then (s, d\<lparr>ad_outcome := RejectedCapability\<rparr>)
                            else if \<not> isolation_subset (ir_required (wr_isolation q)) (id_guarantees (pr_isolation r))
                            then (s, d\<lparr>ad_outcome := RejectedIsolation\<rparr>)
                            else if \<not> rv_empty (wr_minimum_resources q) \<and>
                                    \<not> is_subset_of (wr_minimum_resources q) (pr_resources r)
                            then (s, d\<lparr>ad_outcome := RejectedInsufficientResources\<rparr>)
                            else if length (fs_assignments s) \<ge> max_assignments (fs_limits s)
                            then (s, d\<lparr>ad_outcome := RejectedLimit\<rparr>)
                            else if assignments_on (pr_id r) s > 0 \<and>
                                    (wr_exclusive q \<or> pp_exclusive_by_default (fs_policy s))
                            then (s, d\<lparr>ad_outcome := RejectedExclusiveConflict\<rparr>)
                            else
                              (case allocate (fs_ids s) of
                                 (al, Inl _) \<Rightarrow> (s\<lparr>fs_ids := al\<rparr>, d\<lparr>ad_outcome := RejectedLimit\<rparr>)
                               | (al, Inr ai) \<Rightarrow>
                                   (let s1 = s\<lparr>fs_ids := al\<rparr>;
                                        asg = new_assignment ai r a q s1
                                    in case assignment_validate asg of
                                         Inl _ \<Rightarrow> (s1, d\<lparr>ad_outcome := RejectedInvalidRequest\<rparr>)
                                       | Inr _ \<Rightarrow>
                                           (bind_admitted i asg s1,
                                            d\<lparr>ad_outcome := Admitted, ad_partition := pr_id r,
                                              ad_partition_generation := pr_generation r,
                                              ad_assignment := ai, ad_accelerator := pr_accelerator r,
                                              ad_accelerator_generation := ac_generation a\<rparr>)))))))"

definition bind_assignment :: "partition_assignment \<Rightarrow> fabric_state \<Rightarrow> fabric_state \<times> status" where
  "bind_assignment asg s =
     (case assignment_validate asg of
        Inl e \<Rightarrow> (s, Inl e)
      | Inr _ \<Rightarrow>
          (case find_partition (as_partition asg) s of
             None \<Rightarrow> (s, failure E_NotFound)
           | Some r \<Rightarrow>
               if pr_generation r \<noteq> as_partition_generation asg then (s, failure E_StalePartitionGeneration)
               else if pr_state r \<noteq> PS_Active then (s, failure E_RevalidationRequired)
               else if length (fs_assignments s) \<ge> max_assignments (fs_limits s)
               then (s, failure E_LimitExceeded)
               else
                 (case (if id_valid (as_id asg) then (s, Inr asg)
                        else (case allocate (fs_ids s) of
                                (al, Inl e) \<Rightarrow> (s\<lparr>fs_ids := al\<rparr>, Inl e)
                              | (al, Inr i) \<Rightarrow> (s\<lparr>fs_ids := al\<rparr>, Inr (asg\<lparr>as_id := i\<rparr>)))) of
                    (s1, Inl e) \<Rightarrow> (s1, Inl e)
                  | (s1, Inr stored) \<Rightarrow>
                      (bump_state_generation
                         (upd_partition (as_partition asg) (\<lambda>r. r\<lparr>pr_assignment_state := AS_Assigned\<rparr>)
                            (s1\<lparr>fs_assignments := om_set (as_id stored) stored (fs_assignments s1)\<rparr>)),
                       success))))"

section \<open>Releasing an assignment\<close>

definition note_unbound :: "partition_id \<Rightarrow> fabric_state \<Rightarrow> fabric_state" where
  "note_unbound i s =
     (case find_partition i s of
        None \<Rightarrow> s
      | Some r \<Rightarrow>
          (let remaining = assignments_on i s;
               s1 = upd_partition i
                      (\<lambda>r. r\<lparr>pr_assignment_state := (if remaining = 0 then AS_Unassigned else AS_Assigned)\<rparr>) s
           in if dp_state (pr_drain r) = DS_Draining
              then
                (let s2 = upd_partition i
                            (\<lambda>r. r\<lparr>pr_drain := (pr_drain r)\<lparr>dp_outstanding_assignments := of_nat remaining\<rparr>\<rparr>) s1
                 in if remaining = 0
                    then record_event EX_DrainCompleted
                           (upd_partition i
                              (\<lambda>r. r\<lparr>pr_drain := (pr_drain r)\<lparr>dp_state := DS_DrainComplete,
                                                              dp_completed_at_ms := fs_now s\<rparr>\<rparr>) s2)
                    else s2)
              else s1))"

definition unbind_assignment :: "assignment_id \<Rightarrow> fabric_state \<Rightarrow> fabric_state \<times> status" where
  "unbind_assignment i s =
     (case om_find i (fs_assignments s) of
        None \<Rightarrow> (s, failure E_NotFound)
      | Some asg \<Rightarrow>
          (let s1 = s\<lparr>fs_assignments := om_erase i (fs_assignments s)\<rparr>;
               s2 = note_unbound (as_partition asg) s1
           in (record_event EX_ReleaseAccepted (bump_state_generation s2), success)))"

section \<open>Draining\<close>

definition destruction_safe :: "fabric_state \<Rightarrow> partition_record \<Rightarrow> bool" where
  "destruction_safe s r \<longleftrightarrow>
     (if destructive_safe (pr_drain r) then True
      else if dp_state (pr_drain r) = DS_Draining \<or> dp_state (pr_drain r) = DS_DrainBlocked then False
      else if occupied (pr_id r) s then False
      else pr_assignment_state r \<noteq> AS_Assigned)"

definition start_drain :: "nat \<Rightarrow> u64 \<Rightarrow> partition_record \<Rightarrow> partition_record" where
  "start_drain outstanding now_ms r =
     r\<lparr>pr_drain :=
         \<lparr>dp_state = (if (of_nat outstanding :: u32) = 0 then DS_DrainComplete else DS_Draining),
          dp_outstanding_assignments = of_nat outstanding, dp_total_assignments = of_nat outstanding,
          dp_started_at_ms = now_ms,
          dp_completed_at_ms = (if (of_nat outstanding :: u32) = 0 then now_ms else 0)\<rparr>\<rparr>"

definition begin_drain :: "partition_id \<Rightarrow> fabric_state \<Rightarrow> fabric_state \<times> status" where
  "begin_drain i s =
     (case find_partition i s of
        None \<Rightarrow> (s, failure E_NotFound)
      | Some r \<Rightarrow>
          if pr_state r \<noteq> PS_Active \<and> pr_state r \<noteq> PS_Degraded then (s, failure E_InvalidTransition)
          else
            (let outstanding = assignments_on i s in
             (case transition_partition i PS_Draining s of
                (s1, Inl e) \<Rightarrow> (s1, Inl e)
              | (s1, Inr _) \<Rightarrow>
                  (record_event EX_DrainStarted
                     (bump_state_generation (upd_partition i (start_drain outstanding (fs_now s)) s1)),
                   success))))"

definition drain_target :: "partition_id \<Rightarrow> fabric_state \<Rightarrow> fabric_state \<times> status" where
  "drain_target i s =
     (let outstanding = assignments_on i s in
      (case transition_partition i PS_Draining s of
         (s1, Inl e) \<Rightarrow> (s1, Inl e)
       | (s1, Inr _) \<Rightarrow>
           (record_event EX_DrainStarted (upd_partition i (start_drain outstanding (fs_now s)) s1), success)))"

definition drain_targets :: "accelerator_id \<Rightarrow> fabric_state \<Rightarrow> partition_id list" where
  "drain_targets a s =
     map pr_id (filter (\<lambda>r. pr_accelerator r = a \<and> (pr_state r = PS_Active \<or> pr_state r = PS_Degraded))
                  (om_values (fs_partitions s)))"

definition begin_drain_accelerator :: "accelerator_id \<Rightarrow> fabric_state \<Rightarrow> fabric_state \<times> status" where
  "begin_drain_accelerator a s =
     (let targets = drain_targets a s in
      if targets = [] then (s, failure E_NotFound)
      else
        (case try_keys targets drain_target s of
           (s1, Inl e) \<Rightarrow> (s1, Inl e)
         | (s1, Inr _) \<Rightarrow> (bump_state_generation s1, success)))"

definition complete_drain :: "partition_id \<Rightarrow> fabric_state \<Rightarrow> fabric_state \<times> status" where
  "complete_drain i s =
     (case find_partition i s of
        None \<Rightarrow> (s, failure E_NotFound)
      | Some r \<Rightarrow>
          if pr_state r \<noteq> PS_Draining then (s, failure E_InvalidTransition)
          else
            (let outstanding = (of_nat (assignments_on i s) :: u32);
                 s1 = upd_partition i
                        (\<lambda>r. r\<lparr>pr_drain := (pr_drain r)\<lparr>dp_outstanding_assignments := outstanding\<rparr>\<rparr>) s
             in if outstanding \<noteq> 0
                then (record_event EX_DrainBlocked
                        (upd_partition i
                           (\<lambda>r. r\<lparr>pr_drain := (pr_drain r)\<lparr>dp_state := DS_DrainBlocked\<rparr>\<rparr>) s1),
                      failure E_DrainRequired)
                else (record_event EX_DrainCompleted
                        (bump_state_generation
                           (upd_partition i
                              (\<lambda>r. r\<lparr>pr_drain := (pr_drain r)\<lparr>dp_state := DS_DrainComplete,
                                                              dp_completed_at_ms := fs_now s\<rparr>\<rparr>) s1)),
                      success)))"

definition cancel_drain :: "partition_id \<Rightarrow> fabric_state \<Rightarrow> fabric_state \<times> status" where
  "cancel_drain i s =
     (case find_partition i s of
        None \<Rightarrow> (s, failure E_NotFound)
      | Some r \<Rightarrow>
          if pr_state r \<noteq> PS_Draining then (s, failure E_InvalidTransition)
          else if \<not> destruction_safe s r \<and> dp_outstanding_assignments (pr_drain r) \<noteq> 0
          then (s, failure E_DrainRequired)
          else
            (case transition_partition i PS_Active s of
               (s1, Inl e) \<Rightarrow> (s1, Inl e)
             | (s1, Inr _) \<Rightarrow>
                 (record_event EX_DrainProgressed
                    (bump_state_generation
                       (upd_partition i
                          (\<lambda>r. r\<lparr>pr_drain := (pr_drain r)\<lparr>dp_state := DS_NotDraining,
                                   dp_started_at_ms := 0, dp_completed_at_ms := 0\<rparr>\<rparr>) s1)),
                  success)))"

section \<open>Evolution\<close>

definition settles :: "fabric_state \<Rightarrow> fabric_state \<Rightarrow> bool" where
  "settles s t \<longleftrightarrow> ledgers_evolve s t \<and> authority_evolves s t \<and> fs_accelerators t = fs_accelerators s"

lemma settles_refl [simp]: "settles s s"
  by (simp add: settles_def)

lemma settles_trans [trans]: "settles s t \<Longrightarrow> settles t u \<Longrightarrow> settles s u"
  by (auto simp: settles_def intro: ledgers_evolve_trans authority_evolves_trans)

lemma settles_partition:
  "(\<And>r. partition_step r (f r)) \<Longrightarrow> settles s (upd_partition i f s)"
  by (auto simp: settles_def intro: authority_evolves_partition)

lemma settles_event [simp]: "settles s (record_event c s)" and settles_bump [simp]: "settles s (bump_state_generation s)"
  by (auto simp: settles_def)

lemma settles_transition: "transition_partition i to s = (t, st) \<Longrightarrow> settles s t"
  using transition_ledgers [of s i to] transition_authority [of s i to] transition_frame [of i to s]
  by (simp add: settles_def)

lemma settles_assignments: "settles s (s\<lparr>fs_assignments := m\<rparr>)"
  by (auto simp: settles_def counters_advance_def intro!: authority_evolves_same)

lemma settles_allocate: "allocate (fs_ids s) = (a, r) \<Longrightarrow> settles s (s\<lparr>fs_ids := a\<rparr>)"
  using allocate_monotone [of "fs_ids s"]
  by (auto simp: settles_def counters_advance_def intro!: authority_evolves_same)

text \<open>Closing a step with the state generation and an event.\<close>

lemma settles_publish: "settles s t \<Longrightarrow> settles s (record_event c (bump_state_generation t))"
  by (meson settles_trans settles_bump settles_event)

lemma drain_step:
  "partition_step r (start_drain n t r)" "partition_step r (r\<lparr>pr_drain := d\<rparr>)"
  "partition_step r (r\<lparr>pr_assignment_state := v\<rparr>)" "partition_step r (r\<lparr>pr_assignment_state := v, pr_drain := d\<rparr>)"
  by (simp_all add: partition_step_def start_drain_def)

lemma settles_drain: "settles s t \<Longrightarrow> settles s (upd_partition i (\<lambda>r. r\<lparr>pr_drain := d r\<rparr>) t)"
  by (erule settles_trans, rule settles_partition, rule drain_step)

lemma settles_drain_again:
  "settles s (s\<lparr>fs_partitions := m\<rparr>) \<Longrightarrow>
     settles s (s\<lparr>fs_partitions := om_modify i (\<lambda>r. r\<lparr>pr_drain := d r\<rparr>) m\<rparr>)"
  using settles_drain [of s "s\<lparr>fs_partitions := m\<rparr>" i d] by simp

lemma bind_admitted_settles: "settles s (bind_admitted i asg s)"
  unfolding bind_admitted_def Let_def
  by (intro settles_publish settles_trans [OF settles_assignments settles_partition]) (rule drain_step)

lemma admit_settles [apf_inv]: "settles s (fst (admit q s))"
proof -
  have "settles s (bind_admitted i asg (s\<lparr>fs_ids := al\<rparr>))" if "allocate (fs_ids s) = (al, Inr ai)" for al ai i asg
    using settles_trans [OF settles_allocate [OF that] bind_admitted_settles] .
  then show ?thesis
    by (auto simp: admit_def Let_def allocate_Inl split: sum.split option.split prod.split intro: settles_allocate)
qed

lemma bind_assignment_settles [apf_inv]: "settles s (fst (bind_assignment asg s))"
proof -
  have *: "settles s (bump_state_generation (upd_partition i (\<lambda>r. r\<lparr>pr_assignment_state := AS_Assigned\<rparr>)
      (t\<lparr>fs_assignments := m\<rparr>)))" if "settles s t" for t i m
  proof -
    have "settles (t\<lparr>fs_assignments := m\<rparr>)
        (upd_partition i (\<lambda>r. r\<lparr>pr_assignment_state := AS_Assigned\<rparr>) (t\<lparr>fs_assignments := m\<rparr>))"
      by (rule settles_partition) (rule drain_step)
    from settles_trans [OF settles_trans [OF settles_trans [OF that settles_assignments] this] settles_bump]
    show ?thesis .
  qed
  define pre where "pre = (if id_valid (as_id asg) then (s, Inr asg)
     else (case allocate (fs_ids s) of
             (al, Inl e) \<Rightarrow> (s\<lparr>fs_ids := al\<rparr>, Inl e)
           | (al, Inr i) \<Rightarrow> (s\<lparr>fs_ids := al\<rparr>, Inr (asg\<lparr>as_id := i\<rparr>))))"
  obtain t st where pre: "pre = (t, st)" by force
  then have t: "settles s t"
    by (auto simp: pre_def split: if_splits prod.splits sum.splits intro: settles_allocate)
  show ?thesis
    unfolding bind_assignment_def pre_def [symmetric] pre
    using t * [OF t] by (cases st) (simp_all split: sum.split option.split)
qed

lemma note_unbound_settles: "settles s (note_unbound i s)"
proof -
  have "settles s (upd_partition i (\<lambda>r. r\<lparr>pr_assignment_state := v\<rparr>) s)" for v
    by (rule settles_partition) (rule drain_step)
  then show ?thesis
    by (auto simp: note_unbound_def Let_def split: option.split intro!: settles_drain_again settles_trans [OF _ settles_event])
qed

lemma unbind_settles [apf_inv]: "settles s (fst (unbind_assignment i s))"
proof -
  have "settles s (note_unbound j (s\<lparr>fs_assignments := m\<rparr>))" for j m
    by (rule settles_trans [OF settles_assignments note_unbound_settles])
  then show ?thesis
    by (auto simp: unbind_assignment_def Let_def intro!: settles_publish split: option.split)
qed

lemma drain_update_settles: "settles s t \<Longrightarrow> settles s (upd_partition i (start_drain n now) t)"
  using settles_trans [OF _ settles_partition [of "start_drain n now"]] drain_step(1) by blast

lemma begin_drain_settles [apf_inv]: "settles s (fst (begin_drain i s))"
proof (cases "transition_partition i PS_Draining s")
  case (Pair t st)
  show ?thesis
    using Pair settles_transition [OF Pair] settles_publish [OF drain_update_settles [OF settles_transition [OF Pair]]]
    by (cases st) (auto simp: begin_drain_def Let_def split: option.split)
qed

lemma drain_target_settles: "settles s (fst (drain_target i s))"
proof (cases "transition_partition i PS_Draining s")
  case (Pair t st)
  show ?thesis
    using Pair settles_transition [OF Pair]
      settles_trans [OF drain_update_settles [OF settles_transition [OF Pair]] settles_event]
    by (cases st) (auto simp: drain_target_def Let_def)
qed

lemma begin_drain_accelerator_settles [apf_inv]: "settles s (fst (begin_drain_accelerator a s))"
proof -
  have "settles s (fst (try_keys ts drain_target s))" for ts
    by (rule try_keys_invariant [where P = "settles s"]) (auto intro: settles_trans drain_target_settles)
  then have "settles s t" if "try_keys ts drain_target s = (t, st)" for ts t st
    using that by (metis fst_conv)
  then show ?thesis
    by (auto simp: begin_drain_accelerator_def Let_def split: prod.split sum.split
        intro: settles_trans [OF _ settles_bump])
qed

lemma complete_drain_settles [apf_inv]: "settles s (fst (complete_drain i s))"
proof -
  show ?thesis
    by (auto simp: complete_drain_def Let_def split: option.split
        intro!: settles_drain_again settles_trans [OF _ settles_event] settles_trans [OF _ settles_bump])
qed

lemma cancel_drain_settles [apf_inv]: "settles s (fst (cancel_drain i s))"
proof (cases "transition_partition i PS_Active s")
  case (Pair t st)
  then show ?thesis
    using settles_transition [OF Pair] settles_publish [OF settles_drain [OF settles_transition [OF Pair]]]
    by (cases st) (auto simp: cancel_drain_def split: option.split)
qed

section \<open>What admission guarantees\<close>

subsection \<open>The scan\<close>

lemma admission_scan_spec:
  "admission_scan s q now rs saw n =
     (case List.find (\<lambda>r. view_candidate s q now r = Chosen) rs of
        Some r \<Rightarrow> \<lparr>ap_outcome = Admitted, ap_partition = pr_id r, ap_profile = pr_profile r,
                  ap_resources = pr_resources r,
                  ap_candidates_considered =
                    n + of_nat (length (filter (\<lambda>r. considered (view_candidate s q now r))
                      (takeWhile (\<lambda>r. view_candidate s q now r \<noteq> Chosen) rs))) + 1\<rparr>
      | None \<Rightarrow> \<lparr>ap_outcome = deferred_outcome (saw @ map (view_candidate s q now) rs),
                 ap_partition = 0, ap_profile = 0, ap_resources = rv_zeros,
                 ap_candidates_considered =
                   n + of_nat (length (filter (\<lambda>r. considered (view_candidate s q now r)) rs))\<rparr>)"
proof (induction rs arbitrary: saw n)
  case (Cons r rs)
  show ?case
    by (cases "view_candidate s q now r = Chosen")
      (auto simp: Let_def Cons.IH considered_def split: option.split)
qed simp

lemma deferred_not_admitted: "deferred_outcome saw \<noteq> Admitted"
  by (simp add: deferred_outcome_def)

lemma evaluate_admitted_iff:
  "ap_outcome (evaluate_admission s q now) = Admitted \<longleftrightarrow>
     requirement_validate q (fs_limits s) = success \<and>
     (\<exists>r\<in>set (om_values (fs_partitions s)). view_candidate s q now r = Chosen)"
  by (auto simp: evaluate_admission_def admission_scan_spec deferred_not_admitted find_None_iff find_Some_iff
      split: sum.split option.split)

lemma find_first_prefix:
  "List.find P xs = Some x \<Longrightarrow> \<exists>pre post. xs = pre @ x # post \<and> P x \<and> (\<forall>y\<in>set pre. \<not> P y)"
proof (induction xs)
  case (Cons y ys)
  show ?case
  proof (cases "P y")
    case True
    with Cons.prems show ?thesis by (intro exI [of _ "[]"] exI [of _ ys]) auto
  next
    case False
    with Cons obtain pre post where "ys = pre @ x # post" "P x" "\<forall>y\<in>set pre. \<not> P y" by auto
    with False show ?thesis by (intro exI [of _ "y # pre"] exI [of _ post]) simp
  qed
qed simp

lemma evaluate_first:
  assumes "ap_outcome (evaluate_admission s q now) = Admitted"
  shows "\<exists>pre r post. om_values (fs_partitions s) = pre @ r # post \<and>
    (\<forall>r'\<in>set pre. view_candidate s q now r' \<noteq> Chosen) \<and> view_candidate s q now r = Chosen \<and>
    ap_partition (evaluate_admission s q now) = pr_id r"
proof -
  have v: "requirement_validate q (fs_limits s) = success"
    using assms by (simp add: evaluate_admitted_iff)
  with assms obtain r where r: "List.find (\<lambda>r. view_candidate s q now r = Chosen) (om_values (fs_partitions s)) = Some r"
    by (auto simp: evaluate_admission_def admission_scan_spec deferred_not_admitted split: option.splits)
  from find_first_prefix [OF r] obtain pre post where
    "om_values (fs_partitions s) = pre @ r # post" "view_candidate s q now r = Chosen"
    "\<forall>r'\<in>set pre. view_candidate s q now r' \<noteq> Chosen" by blast
  moreover have "ap_partition (evaluate_admission s q now) = pr_id r"
    using v r by (simp add: evaluate_admission_def admission_scan_spec)
  ultimately show ?thesis by blast
qed

lemma chosen_facts:
  assumes "view_candidate s q now r = Chosen"
  shows "pr_state r = PS_Active" "dp_state (pr_drain r) \<noteq> DS_Draining"
    "\<exists>a. find_accelerator (pr_accelerator r) s = Some a \<and> declares_supported (ac_capability a)"
    "isolation_subset (ir_required (wr_isolation q)) (id_guarantees (pr_isolation r))"
    "is_observed (pr_evidence r)" "admission_fresh s q now r"
    "rv_empty (wr_minimum_resources q) \<or> is_subset_of (wr_minimum_resources q) (pr_resources r)"
    "wr_exclusive q \<Longrightarrow> \<not> occupied (pr_id r) s"
  using assms by (auto simp: view_candidate_def split: option.splits if_splits)

subsection \<open>Admission as a whole\<close>

lemma admit_cases:
  obtains (refused) d where "ad_outcome d \<noteq> Admitted" "admit q s = (s, d)"
  | (wasted) al ai d where "allocate (fs_ids s) = (al, Inr ai)" "ad_outcome d \<noteq> Admitted"
      "admit q s = (s\<lparr>fs_ids := al\<rparr>, d)"
  | (granted) i r a al ai d where
      "\<not> fs_closed s" "ap_outcome (evaluate_admission s q (fs_now s)) = Admitted"
      "i = ap_partition (evaluate_admission s q (fs_now s))"
      "find_partition i s = Some r" "pr_state r = PS_Active"
      "find_accelerator (pr_accelerator r) s = Some a" "supports_profile (ac_capability a) (pr_profile r)"
      "isolation_subset (ir_required (wr_isolation q)) (id_guarantees (pr_isolation r))"
      "rv_empty (wr_minimum_resources q) \<or> is_subset_of (wr_minimum_resources q) (pr_resources r)"
      "length (fs_assignments s) < max_assignments (fs_limits s)"
      "wr_exclusive q \<or> pp_exclusive_by_default (fs_policy s) \<Longrightarrow> assignments_on (pr_id r) s = 0"
      "allocate (fs_ids s) = (al, Inr ai)"
      "assignment_validate (new_assignment ai r a q (s\<lparr>fs_ids := al\<rparr>)) = success"
      "ad_outcome d = Admitted" "ad_partition d = pr_id r" "ad_partition_generation d = pr_generation r"
      "ad_assignment d = ai"
      "admit q s = (bind_admitted i (new_assignment ai r a q (s\<lparr>fs_ids := al\<rparr>)) (s\<lparr>fs_ids := al\<rparr>), d)"
proof (cases "ad_outcome (snd (admit q s)) = Admitted")
  case False
  have "admit q s = (s, snd (admit q s)) \<or>
      (\<exists>al ai. allocate (fs_ids s) = (al, Inr ai) \<and> admit q s = (s\<lparr>fs_ids := al\<rparr>, snd (admit q s)))"
    using False
    by (auto simp: admit_def Let_def allocate_Inl split: sum.split option.split prod.split)
  with False refused wasted show thesis by blast
next
  case True
  let ?p = "evaluate_admission s q (fs_now s)"
  have o: "\<not> fs_closed s" "ap_outcome ?p = Admitted"
    using True by (auto simp: admit_def Let_def check_open_def decision_start_def split: if_splits)
  then obtain r where r: "find_partition (ap_partition ?p) s = Some r" "pr_state r = PS_Active"
    using True by (auto simp: admit_def Let_def check_open_def split: option.splits if_splits)
  then obtain a where a: "find_accelerator (pr_accelerator r) s = Some a"
    using True o by (auto simp: admit_def Let_def check_open_def split: option.splits)
  then have g: "supports_profile (ac_capability a) (pr_profile r)"
    "isolation_subset (ir_required (wr_isolation q)) (id_guarantees (pr_isolation r))"
    "rv_empty (wr_minimum_resources q) \<or> is_subset_of (wr_minimum_resources q) (pr_resources r)"
    "length (fs_assignments s) < max_assignments (fs_limits s)"
    "wr_exclusive q \<or> pp_exclusive_by_default (fs_policy s) \<longrightarrow> assignments_on (pr_id r) s = 0"
    using True o r by (auto simp: admit_def Let_def check_open_def split: if_splits)
  obtain al ir where al: "allocate (fs_ids s) = (al, ir)" by force
  let ?d = "(decision_start s)\<lparr>ad_candidates_considered := ap_candidates_considered ?p\<rparr>"
  let ?asg = "\<lambda>ai. new_assignment ai r a q (s\<lparr>fs_ids := al\<rparr>)"
  have free: "\<not> (0 < assignments_on (pr_id r) s \<and> (wr_exclusive q \<or> pp_exclusive_by_default (fs_policy s)))"
    "\<not> (\<not> rv_empty (wr_minimum_resources q) \<and> \<not> is_subset_of (wr_minimum_resources q) (pr_resources r))"
    using g by auto
  have base: "admit q s = (case ir of
       Inl _ \<Rightarrow> (s\<lparr>fs_ids := al\<rparr>, ?d\<lparr>ad_outcome := RejectedLimit\<rparr>)
     | Inr ai \<Rightarrow> (case assignment_validate (?asg ai) of
          Inl _ \<Rightarrow> (s\<lparr>fs_ids := al\<rparr>, ?d\<lparr>ad_outcome := RejectedInvalidRequest\<rparr>)
        | Inr _ \<Rightarrow> (bind_admitted (ap_partition ?p) (?asg ai) (s\<lparr>fs_ids := al\<rparr>),
             ?d\<lparr>ad_outcome := Admitted, ad_partition := pr_id r, ad_partition_generation := pr_generation r,
                ad_assignment := ai, ad_accelerator := pr_accelerator r, ad_accelerator_generation := ac_generation a\<rparr>)))"
    using o r a g(1,2,4) free al by (auto simp: admit_def Let_def check_open_def)
  obtain ai where ai: "ir = Inr ai" "assignment_validate (?asg ai) = success"
    using True base by (cases ir) (auto split: sum.splits)
  have eq: "admit q s = (bind_admitted (ap_partition ?p) (?asg ai) (s\<lparr>fs_ids := al\<rparr>), snd (admit q s))"
    "ad_partition (snd (admit q s)) = pr_id r" "ad_partition_generation (snd (admit q s)) = pr_generation r"
    "ad_assignment (snd (admit q s)) = ai"
    using base ai by simp_all
  show thesis
    by (rule granted [OF o refl r a g(1-4) _ _ ai(2) True eq(2-4) eq(1)]) (use g(5) al ai(1) in simp_all)
qed

subsection \<open>Counting assignments\<close>

lemma om_values_set_new:
  "om_find k m = None \<Longrightarrow> om_sorted m \<Longrightarrow>
     length (filter P (om_values (om_set k v m))) = length (filter P (om_values m)) + (if P v then 1 else 0)"
  by (induction m) (auto simp: om_values_def om_find_Cons om_sorted_def split: prod.splits if_splits)

lemma om_values_erase:
  "om_find k m = Some v \<Longrightarrow> om_sorted m \<Longrightarrow>
     length (filter P (om_values m)) = length (filter P (om_values (om_erase k m))) + (if P v then 1 else 0)"
proof (induction m)
  case (Cons e m)
  obtain k0 v0 where e: "e = (k0, v0)" by (cases e)
  have srt: "om_sorted m" "\<forall>x\<in>set m. k0 < fst x" using Cons.prems(2) by (auto simp: e om_sorted_def)
  have "filter (\<lambda>x. fst x \<noteq> k0) m = m" using srt(2) by (intro filter_True) auto
  with Cons srt show ?case
    by (cases "k = k0") (auto simp: e om_values_def om_erase_def om_find_Cons)
qed (simp add: om_find_def)

lemma occupied_count: "occupied i s \<longleftrightarrow> assignments_on i s > 0"
  by (auto simp: occupied_def assignments_on_def filter_empty_conv)

subsection \<open>The guarantees\<close>

text \<open>What a granted admission rests on, and the assignment it leaves behind.\<close>

lemma admit_granted:
  assumes "admit q s = (s', d)" "ad_outcome d = Admitted"
  shows "\<exists>i r a. find_partition i s = Some r \<and> ad_partition d = pr_id r \<and> \<not> fs_closed s \<and>
    pr_state r = PS_Active \<and> find_accelerator (pr_accelerator r) s = Some a \<and>
    supports_profile (ac_capability a) (pr_profile r) \<and>
    isolation_subset (ir_required (wr_isolation q)) (id_guarantees (pr_isolation r)) \<and>
    (rv_empty (wr_minimum_resources q) \<or> is_subset_of (wr_minimum_resources q) (pr_resources r)) \<and>
    om_find (ad_assignment d) (fs_assignments s') =
      Some (new_assignment (ad_assignment d) r a q s) \<and>
    length (fs_assignments s) < max_assignments (fs_limits s)"
proof (cases rule: admit_cases [of q s])
  case (granted i r a al ai d')
  have "om_find ai (fs_assignments (bind_admitted i (new_assignment ai r a q (s\<lparr>fs_ids := al\<rparr>)) (s\<lparr>fs_ids := al\<rparr>))) =
      Some (new_assignment ai r a q s)"
    by (simp add: bind_admitted_def Let_def new_assignment_def apf_lookup)
  with granted assms show ?thesis by (intro exI [of _ i] exI [of _ r] exI [of _ a]) auto
qed (use assms in auto)

lemma admit_refused:
  assumes "admit q s = (s', d)" "ad_outcome d \<noteq> Admitted"
  shows "\<exists>al. s' = s\<lparr>fs_ids := al\<rparr> \<and> ida_next (fs_ids s) \<le> ida_next al"
proof (cases rule: admit_cases [of q s])
  case (refused d')
  then show ?thesis using assms by (intro exI [of _ "fs_ids s"]) auto
next
  case (wasted al ai d')
  then show ?thesis using assms allocate_monotone [of "fs_ids s"] by auto
qed (use assms in auto)

text \<open>An exclusive admission finds the partition empty and leaves it with exactly one assignment.\<close>

lemma admit_exclusive:
  assumes "admit q s = (s', d)" "ad_outcome d = Admitted"
    and "wr_exclusive q \<or> pp_exclusive_by_default (fs_policy s)"
    and "om_sorted (fs_assignments s)" "om_find (ida_next (fs_ids s)) (fs_assignments s) = None"
  shows "assignments_on (ad_partition d) s = 0 \<and> assignments_on (ad_partition d) s' = 1"
proof (cases rule: admit_cases [of q s])
  case (granted i r a al ai d')
  let ?asg = "new_assignment ai r a q (s\<lparr>fs_ids := al\<rparr>)"
  have ai: "ai = ida_next (fs_ids s)" using granted(12) by (simp add: allocate_Inr)
  have z: "assignments_on (pr_id r) s = 0" using granted(11) assms(3) .
  have "fs_assignments s' = om_set ai ?asg (fs_assignments s)"
    using granted(18) assms(1) by (auto simp: bind_admitted_def Let_def new_assignment_def)
  moreover have "as_partition ?asg = pr_id r" by (simp add: new_assignment_def)
  ultimately have "assignments_on (pr_id r) s' = 1"
    using z om_values_set_new [of ai "fs_assignments s" "\<lambda>a. as_partition a = pr_id r" ?asg] assms(4,5) ai
    by (simp add: assignments_on_def)
  with z granted assms show ?thesis by auto
qed (use assms in auto)

lemma bind_assignment_ok:
  assumes "bind_assignment asg s = (s', success)"
  shows "\<exists>r. find_partition (as_partition asg) s = Some r \<and> pr_state r = PS_Active \<and>
           pr_generation r = as_partition_generation asg"
  using assms by (auto simp: bind_assignment_def split: sum.splits option.splits if_splits)

subsection \<open>Draining\<close>

lemma unat_count: "n < 2 ^ 32 \<Longrightarrow> unat (of_nat n :: u32) = n"
  by (simp only: unat_of_nat len_bit0 len_num1 take_bit_nat_eq_self) (simp add: take_bit_nat_eq_self)

lemma count_zero: "n < 2 ^ 32 \<Longrightarrow> (of_nat n :: u32) = 0 \<longleftrightarrow> n = 0"
proof
  assume "n < 2 ^ 32" and "(of_nat n :: u32) = 0"
  then show "n = 0" using unat_count [of n] by simp
qed simp

lemma complete_drain_spec:
  assumes "find_partition i s = Some r" "pr_state r = PS_Draining" "assignments_on i s < 2 ^ 32"
  shows "snd (complete_drain i s) = success \<longleftrightarrow> assignments_on i s = 0"
    and "\<exists>r'. find_partition i (fst (complete_drain i s)) = Some r' \<and>
           (destructive_safe (pr_drain r') \<longleftrightarrow> assignments_on i s = 0)"
proof -
  have "(of_nat (assignments_on i s) :: u32) = 0 \<longleftrightarrow> assignments_on i s = 0"
    using assms(3) by (rule count_zero)
  then show "snd (complete_drain i s) = success \<longleftrightarrow> assignments_on i s = 0"
    "\<exists>r'. find_partition i (fst (complete_drain i s)) = Some r' \<and>
           (destructive_safe (pr_drain r') \<longleftrightarrow> assignments_on i s = 0)"
    using assms(1,2) by (auto simp: complete_drain_def Let_def apf_lookup destructive_safe_def)
qed

lemma unbind_last_completes:
  assumes "om_find k (fs_assignments s) = Some asg" "om_sorted (fs_assignments s)"
    "find_partition (as_partition asg) s = Some r" "dp_state (pr_drain r) = DS_Draining"
    "assignments_on (as_partition asg) s = 1"
  shows "\<exists>r'. find_partition (as_partition asg) (fst (unbind_assignment k s)) = Some r' \<and>
           destructive_safe (pr_drain r') \<and> pr_assignment_state r' = AS_Unassigned \<and>
           dp_completed_at_ms (pr_drain r') = fs_now s"
proof -
  let ?s1 = "s\<lparr>fs_assignments := om_erase k (fs_assignments s)\<rparr>"
  have "assignments_on (as_partition asg) ?s1 = 0"
    using om_values_erase [OF assms(1,2), of "\<lambda>a. as_partition a = as_partition asg"] assms(5)
    by (simp add: assignments_on_def)
  with assms show ?thesis
    by (simp add: unbind_assignment_def note_unbound_def Let_def apf_lookup destructive_safe_def)
qed

lemma begin_drain_ok:
  assumes "begin_drain i s = (s', success)" "find_partition i s = Some r" "assignments_on i s < 2 ^ 32"
  shows "\<exists>r' l. find_partition i s' = Some r' \<and> pr_state r' = PS_Draining \<and>
           pr_held_bucket r' = Some Bucket_Draining \<and>
           unat (dp_outstanding_assignments (pr_drain r')) = assignments_on i s \<and>
           (destructive_safe (pr_drain r') \<longleftrightarrow> assignments_on i s = 0) \<and>
           find_ledger (pr_accelerator r) s' = Some l \<and> ledger_validate l = success"
proof -
  obtain s1 u where t: "transition_partition i PS_Draining s = (s1, Inr u)" "pr_state r \<noteq> PS_Draining"
    and s': "s' = record_event EX_DrainStarted (bump_state_generation
        (upd_partition i (start_drain (assignments_on i s) (fs_now s)) s1))"
    using assms(1,2) by (auto simp: begin_drain_def Let_def split: if_splits prod.splits sum.splits)
  have n: "unat (of_nat (assignments_on i s) :: u32) = assignments_on i s"
    using assms(3) by (rule unat_count)
  have z: "(of_nat (assignments_on i s) :: u32) = 0 \<longleftrightarrow> assignments_on i s = 0"
    using assms(3) by (rule count_zero)
  obtain r1 l where r1: "find_partition i s1 = Some r1" "pr_state r1 = PS_Draining"
    "pr_held_bucket r1 = Some Bucket_Draining" "find_ledger (pr_accelerator r) s1 = Some l" "ledger_validate l = success"
    using transition_success [of i PS_Draining s s1 r] t assms(2)
    by (auto simp: state_keeps_current_bucket_def bucket_for_state_def)
  show ?thesis
    by (intro exI [of _ "start_drain (assignments_on i s) (fs_now s) r1"] exI [of _ l])
      (use r1 n z in \<open>simp add: s' apf_lookup start_drain_def destructive_safe_def\<close>)
qed

end
