(* ===== verification/APF_Destruction.thy ===== *)
theory APF_Destruction
  imports APF_Mutation APF_Admission
begin

text \<open>
  Destruction and destructive reconfiguration: \<^verbatim>\<open>create_destructive_reservation_locked\<close>,
  \<^verbatim>\<open>destroy_partition\<close>, \<^verbatim>\<open>create_destruction_reservation\<close> and \<^verbatim>\<open>execute_reconfiguration\<close> of
  \<^verbatim>\<open>src/fabric.cpp\<close>. As for \<open>execute\<close>, the calls run in two locked phases with the backend in
  between; the first phase ends with a request for the backend or an error.
\<close>

section \<open>The authority of a destructive mutation\<close>

definition request_default :: partition_request where
  "request_default =
     \<lparr>rq_profile = 0, rq_count = 1, rq_minimum_resources = rv_zeros,
      rq_isolation = \<lparr>ir_required = 0, ir_policy = 0, ir_policy_generation = 0\<rparr>,
      rq_exclusive = False, rq_allow_drain = True, rq_allow_destructive_reconfiguration = False,
      rq_allow_degraded_device = False, rq_allow_shared_device = True,
      rq_selector = \<lparr>ds_backend = [], ds_vendor = [], ds_device_family = [], ds_locality_domain = [],
        ds_allowed = [], ds_excluded = []\<rparr>,
      rq_policy_class = [], rq_max_evidence_age_ms = 0, rq_requester = [], rq_all_or_nothing = True,
      rq_request_tag = []\<rparr>"

definition destructive_valid_until :: "u64 \<Rightarrow> fabric_state \<Rightarrow> u64" where
  "destructive_valid_until now_ms s =
     (if pp_max_evidence_age_ms (fs_policy s) = 0 then 0 else now_ms + pp_max_evidence_age_ms (fs_policy s))"

definition destructive_binding :: "accelerator_record \<Rightarrow> partition_record list \<Rightarrow> u64 \<Rightarrow> fabric_state \<Rightarrow> plan_binding" where
  "destructive_binding acc affected now_ms s =
     \<lparr>pb_accelerator = ac_id acc, pb_accelerator_generation = ac_generation acc, pb_accelerator_boot = ac_boot_id acc,
      pb_capability_generation = cap_generation (ac_capability acc),
      pb_topology_generation = ac_topology_generation acc, pb_policy_generation = fs_policy_generation s,
      pb_coordinator_epoch = fs_coordinator_epoch s, pb_state_generation = fs_state_generation s,
      pb_evidence_generation = es_generation (ac_evidence acc), pb_planned_at_ms = now_ms,
      pb_valid_until_ms = destructive_valid_until now_ms s,
      pb_layout = map (\<lambda>r. (pr_id r, pr_generation r)) affected\<rparr>"

text \<open>The entry of one affected partition; \<open>n\<close> is the size of the layout with it.\<close>

definition destructive_planned :: "fabric_state \<Rightarrow> nat \<Rightarrow> partition_record \<Rightarrow> planned_partition" where
  "destructive_planned s n r =
     \<lparr>pn_profile = pr_profile r, pn_profile_generation = pr_profile_generation r, pn_resources = pr_resources r,
      pn_ordinal = of_nat n,
      pn_vendor_native_profile = (case find_profile (pr_profile r) s of Some p \<Rightarrow> pf_vendor_native p | None \<Rightarrow> [])\<rparr>"

definition destructive_plan ::
  "plan_id \<Rightarrow> accelerator_record \<Rightarrow> partition_record list \<Rightarrow> u64 \<Rightarrow> fabric_state \<Rightarrow> partition_plan" where
  "destructive_plan i acc affected now_ms s =
     \<lparr>pl_id = i, pl_generation = gen_first, pl_request = request_default,
      pl_outcome = PO_FeasibleAfterReconfiguration, pl_binding = destructive_binding acc affected now_ms s,
      pl_planned_partitions = map2 (destructive_planned s) [1..<Suc (length affected)] affected,
      pl_created_at_ms = now_ms, pl_request_digest = 0, pl_terminal = False\<rparr>"

definition destructive_reservation ::
  "reservation_id \<Rightarrow> plan_id \<Rightarrow> accelerator_record \<Rightarrow> partition_record list \<Rightarrow> u64 \<Rightarrow> fabric_state \<Rightarrow> partition_reservation" where
  "destructive_reservation i plan acc affected now_ms s =
     reservation_default
       \<lparr>rs_id := i, rs_plan := plan, rs_plan_generation := gen_first, rs_accelerator := ac_id acc,
        rs_accelerator_generation := ac_generation acc, rs_accelerator_boot := ac_boot_id acc,
        rs_capability_generation := cap_generation (ac_capability acc),
        rs_topology_generation := ac_topology_generation acc, rs_policy_generation := fs_policy_generation s,
        rs_coordinator_epoch := fs_coordinator_epoch s, rs_lifecycle := RL_Active, rs_destructive := True,
        rs_created_at_ms := now_ms, rs_updated_at_ms := now_ms,
        rs_expires_at_ms := destructive_valid_until now_ms s,
        rs_partitions := map pr_id affected, rs_partition_generations := map pr_generation affected\<rparr>"

definition create_destructive_reservation_locked ::
  "accelerator_record \<Rightarrow> partition_record list \<Rightarrow> resource_vector \<Rightarrow> u64 \<Rightarrow> fabric_state \<Rightarrow>
     fabric_state \<times> partition_reservation result" where
  "create_destructive_reservation_locked acc affected hold now_ms s =
     (case allocate (fs_ids s) of
        (al, Inl e) \<Rightarrow> (s\<lparr>fs_ids := al\<rparr>, Inl e)
      | (al, Inr pid) \<Rightarrow>
          (case allocate al of
             (al', Inl e) \<Rightarrow> (s\<lparr>fs_ids := al'\<rparr>, Inl e)
           | (al', Inr rid) \<Rightarrow>
               (let s1 = s\<lparr>fs_ids := al',
                           fs_plans := om_set pid (destructive_plan pid acc affected now_ms s) (fs_plans s)\<rparr>;
                    r = destructive_reservation rid pid acc affected now_ms s
                in case find_ledger (ac_id acc) s1 of
                     None \<Rightarrow> (s1, failure E_CorruptState)
                   | Some l \<Rightarrow>
                       if rv_empty hold
                       then (bump_state_generation (s1\<lparr>fs_reservations := om_set rid r (fs_reservations s1)\<rparr>), Inr r)
                       else (case ledger_reserve hold l of
                               (l', Inl e) \<Rightarrow>
                                 ((upd_ledger (ac_id acc) l' s1)\<lparr>fs_plans := om_erase pid (fs_plans s1)\<rparr>, Inl e)
                             | (l', Inr _) \<Rightarrow>
                                 (let r' = r\<lparr>rs_resources := hold\<rparr>
                                  in (bump_state_generation
                                       ((upd_ledger (ac_id acc) l' s1)
                                          \<lparr>fs_reservations := om_set rid r' (fs_reservations s1)\<rparr>), Inr r'))))))"

section \<open>Destroying one partition\<close>

text \<open>The checks that \<^verbatim>\<open>destroy_partition\<close> and \<^verbatim>\<open>create_destruction_reservation\<close> share.\<close>

definition destruction_guard ::
  "partition_id \<Rightarrow> fabric_state \<Rightarrow> fabric_state \<times> (partition_record \<times> accelerator_record) result" where
  "destruction_guard pid s =
     (case check_open s of
        Inl e \<Rightarrow> (s, Inl e)
      | Inr _ \<Rightarrow>
          (case find_partition pid s of
             None \<Rightarrow> (s, failure E_NotFound)
           | Some r \<Rightarrow>
               if is_terminal_state (pr_state r) then (s, failure E_StalePartitionGeneration)
               else if ni_native_id (pr_native_identity r) = [] then (s, failure E_RevalidationRequired)
               else if \<not> destruction_safe s r then (s, failure E_DrainRequired)
               else
                 (case find_accelerator (pr_accelerator r) s of
                    None \<Rightarrow> (s, failure E_NotFound)
                  | Some acc \<Rightarrow>
                      if ac_generation acc \<noteq> pr_accelerator_generation r
                      then (fst (transition_partition pid PS_RevalidationRequired s), failure E_StaleGeneration)
                      else (s, Inr (r, acc)))))"

definition create_destruction_reservation ::
  "partition_id \<Rightarrow> fabric_state \<Rightarrow> fabric_state \<times> partition_reservation result" where
  "create_destruction_reservation pid s =
     (case destruction_guard pid s of
        (s1, Inl e) \<Rightarrow> (s1, Inl e)
      | (s1, Inr (r, acc)) \<Rightarrow> create_destructive_reservation_locked acc [r] rv_zeros (fs_now s1) s1)"

text \<open>\<^verbatim>\<open>state.stable_keys[id]\<close>, which inserts an empty key when there is none.\<close>

definition stable_key_slot :: "accelerator_id \<Rightarrow> fabric_state \<Rightarrow> string \<times> fabric_state" where
  "stable_key_slot i s =
     (case om_find i (fs_stable_keys s) of
        Some k \<Rightarrow> (k, s)
      | None \<Rightarrow> ([], s\<lparr>fs_stable_keys := om_set i [] (fs_stable_keys s)\<rparr>))"

definition destructive_request ::
  "accelerator_record \<Rightarrow> string \<Rightarrow> generation \<Rightarrow> partition_attempt \<Rightarrow> bool \<Rightarrow> native_partition_spec list \<Rightarrow> string list \<Rightarrow>
     mutation_request" where
  "destructive_request acc key epoch att whole_device desired removed =
     \<lparr>mr_stable_key = key, mr_expected_boot = ac_boot_id acc,
      mr_expected_accelerator_generation = ac_generation acc,
      mr_expected_capability_generation = cap_generation (ac_capability acc),
      mr_coordinator_epoch = epoch, mr_worker = at_worker att, mr_worker_boot = at_worker_boot att,
      mr_attempt = at_id att, mr_idempotency_token = at_token att, mr_destructive = True,
      mr_full_device_reconfiguration = whole_device, mr_desired = desired, mr_remove_native_ids = removed\<rparr>"

definition destroy_begin :: "partition_id \<Rightarrow> fabric_state \<Rightarrow> fabric_state \<times> mutation_request result" where
  "destroy_begin pid s =
     (case destruction_guard pid s of
        (s1, Inl e) \<Rightarrow> (s1, Inl e)
      | (s1, Inr (r, acc)) \<Rightarrow>
          (case create_destructive_reservation_locked acc [r] rv_zeros (fs_now s1) s1 of
             (s2, Inl e) \<Rightarrow> (s2, Inl e)
           | (s2, Inr res) \<Rightarrow>
               (case register_attempt_locked (rs_id res) res AK_DestroyPartition 0 0 (fs_now s1) s2 of
                  (s3, Inl e) \<Rightarrow> (s3, Inl e)
                | (s3, Inr att) \<Rightarrow>
                    (let (key, s4) = stable_key_slot (ac_id acc) s3
                     in (s4, Inr (destructive_request acc key (fs_coordinator_epoch s4) att False []
                                    [ni_native_id (pr_native_identity r)]))))))"

text \<open>The second phase, common to the two destructive calls.\<close>

definition destructive_finish ::
  "(mutation_request \<Rightarrow> mutation_result result) \<Rightarrow> (string \<Rightarrow> backend_layout result) \<Rightarrow>
     (fabric_state \<Rightarrow> fabric_state) \<Rightarrow> mutation_request \<Rightarrow> fabric_state \<Rightarrow> fabric_state \<times> mutation_outcome" where
  "destructive_finish mutate query_layout meanwhile request s =
     (let mutation = mutate request;
          observed = execute_observe query_layout (mr_stable_key request) mutation;
          s1 = meanwhile s
      in apply_mutation_result_locked (mr_attempt request) mutation observed (fs_now s1) s1)"

definition destroy_partition ::
  "(mutation_request \<Rightarrow> mutation_result result) \<Rightarrow> (string \<Rightarrow> backend_layout result) \<Rightarrow>
     (fabric_state \<Rightarrow> fabric_state) \<Rightarrow> partition_id \<Rightarrow> fabric_state \<Rightarrow> fabric_state \<times> mutation_outcome result" where
  "destroy_partition destroy_partitions query_layout meanwhile pid s =
     (case destroy_begin pid s of
        (s1, Inl e) \<Rightarrow> (s1, Inl e)
      | (s1, Inr request) \<Rightarrow>
          (case destructive_finish destroy_partitions query_layout meanwhile request s1 of (s2, out) \<Rightarrow> (s2, Inr out)))"

section \<open>Destructive reconfiguration\<close>

text \<open>The partitions of the device that the new layout replaces; the first occupied one stops the call.\<close>

fun affected_partitions ::
  "fabric_state \<Rightarrow> accelerator_id \<Rightarrow> (u64, partition_record) omap \<Rightarrow> (u64, partition_record) omap \<Rightarrow>
     (u64, partition_record) omap result" where
  "affected_partitions s a [] acc = Inr acc"
| "affected_partitions s a ((k, r) # rs) acc =
     (if pr_accelerator r \<noteq> a \<or> is_terminal_state (pr_state r) \<or> pr_state r = PS_Unpartitioned
      then affected_partitions s a rs acc
      else if \<not> destruction_safe s r then failure E_DrainRequired
      else affected_partitions s a rs (acc @ [(k, r)]))"

text \<open>A vector filled dimension by dimension; a refused quantity stops the loop.\<close>

fun fill_dimensions :: "nat list \<Rightarrow> (resource_dimension \<Rightarrow> u64 option) \<Rightarrow> resource_vector \<Rightarrow> resource_vector result" where
  "fill_dimensions [] f v = Inr v"
| "fill_dimensions (i # is) f v =
     (case f (dim_of_index i) of
        None \<Rightarrow> fill_dimensions is f v
      | Some q \<Rightarrow>
          (case rv_set (dim_of_index i) q v of
             (_, Inl e) \<Rightarrow> Inl e
           | (v', Inr _) \<Rightarrow> fill_dimensions is f v'))"

definition reconfiguration_held :: "capacity_ledger \<Rightarrow> resource_vector result" where
  "reconfiguration_held l =
     fill_dimensions [0..<kResourceDimensionCount]
       (\<lambda>d. if rv_has (cl_total l) d
            then Some (rv_get (ledger_bucket l Bucket_Active) d + rv_get (ledger_bucket l Bucket_Draining) d +
                       rv_get (ledger_bucket l Bucket_ReconfigurationHeld) d)
            else None) rv_zeros"

definition reconfiguration_hold :: "resource_vector \<Rightarrow> resource_vector \<Rightarrow> resource_vector result" where
  "reconfiguration_hold needed held =
     fill_dimensions [0..<kResourceDimensionCount]
       (\<lambda>d. if rv_has needed d
            then Some (if rv_get needed d > rv_get held d then rv_get needed d - rv_get held d else 0)
            else None) rv_zeros"

text \<open>
  The checks before anything changes. The ledger is read through a pointer the code does not check;
  a registered device always has one (\<open>accounting_inv\<close>), and the model reads an empty ledger otherwise.
\<close>

definition reconfiguration_guard ::
  "plan_id \<Rightarrow> fabric_state \<Rightarrow>
     fabric_state \<times> (partition_plan \<times> accelerator_record \<times> (u64, partition_record) omap \<times> resource_vector) result" where
  "reconfiguration_guard plan_id s =
     (case check_open s of Inl e \<Rightarrow> (s, Inl e) | Inr _ \<Rightarrow>
     (case find_plan plan_id s of None \<Rightarrow> (s, failure E_StalePlan) | Some plan \<Rightarrow>
       if pl_outcome plan \<noteq> PO_FeasibleAfterReconfiguration then (s, failure E_InvalidRequest)
       else
         (case validate_plan_binding s plan (fs_now s) (pp_require_fresh_evidence (fs_policy s)) of
            Inl e \<Rightarrow>
              (record_event EX_ReconfigurationStale (upd_plan plan_id (\<lambda>p. p\<lparr>pl_terminal := True\<rparr>) s), Inl e)
          | Inr _ \<Rightarrow>
              (case find_accelerator (pb_accelerator (pl_binding plan)) s of
                 None \<Rightarrow> (s, failure E_NotFound)
               | Some acc \<Rightarrow>
                   if \<not> pp_allow_destructive_reconfiguration (fs_policy s) \<or>
                      \<not> rq_allow_destructive_reconfiguration (pl_request plan)
                   then (s, failure E_PolicyRejected)
                   else
                     (case affected_partitions s (ac_id acc) (fs_partitions s) [] of
                        Inl e \<Rightarrow> (s, Inl e)
                      | Inr affected \<Rightarrow>
                          (case needed_loop (pl_planned_partitions plan) rv_zeros of
                             Inl e \<Rightarrow> (s, Inl e)
                           | Inr target_capacity \<Rightarrow>
                               (case reconfiguration_held
                                       (case find_ledger (ac_id acc) s of Some l \<Rightarrow> l | None \<Rightarrow> ledger_empty) of
                                  Inl e \<Rightarrow> (s, Inl e)
                                | Inr held \<Rightarrow>
                                    (case reconfiguration_hold target_capacity held of
                                       Inl e \<Rightarrow> (s, Inl e)
                                     | Inr hold \<Rightarrow> (s, Inr (plan, acc, affected, hold))))))))))"

definition reconfigure_begin :: "plan_id \<Rightarrow> fabric_state \<Rightarrow> fabric_state \<times> mutation_request result" where
  "reconfigure_begin plan_id s =
     (case reconfiguration_guard plan_id s of
        (s1, Inl e) \<Rightarrow> (s1, Inl e)
      | (s1, Inr (plan, acc, affected, hold)) \<Rightarrow>
          (case create_destructive_reservation_locked acc (map snd affected) hold (fs_now s1) s1 of
             (s2, Inl e) \<Rightarrow> (s2, Inl e)
           | (s2, Inr res) \<Rightarrow>
               (let stored = res\<lparr>rs_plan := pl_id plan, rs_plan_generation := pl_generation plan,
                                 rs_planned_mutations := of_nat (length (pl_planned_partitions plan) + length affected)\<rparr>;
                    s3 = upd_reservation (rs_id res) (\<lambda>_. stored) s2
                in case try_keys (map fst affected)
                          (\<lambda>i. transition_partition i PS_ReconfigurationRequired) s3 of
                     (s4, Inl e) \<Rightarrow> (s4, Inl e)
                   | (s4, Inr _) \<Rightarrow>
                       (case register_attempt_locked (rs_id res) stored AK_ReconfigureLayout 0 0 (fs_now s1) s4 of
                          (s5, Inl e) \<Rightarrow> (s5, Inl e)
                        | (s5, Inr att) \<Rightarrow>
                            (let (key, s6) = stable_key_slot (ac_id acc) s5;
                                 request = destructive_request acc key (fs_coordinator_epoch s6) att True
                                   (map spec_of (pl_planned_partitions plan))
                                   (filter (\<lambda>n. n \<noteq> []) (map (\<lambda>(_, r). ni_native_id (pr_native_identity r)) affected))
                             in (upd_plan plan_id (\<lambda>p. p\<lparr>pl_terminal := True\<rparr>) s6, Inr request))))))"

definition execute_reconfiguration ::
  "(mutation_request \<Rightarrow> mutation_result result) \<Rightarrow> (string \<Rightarrow> backend_layout result) \<Rightarrow>
     (fabric_state \<Rightarrow> fabric_state) \<Rightarrow> plan_id \<Rightarrow> fabric_state \<Rightarrow> fabric_state \<times> mutation_outcome result" where
  "execute_reconfiguration reconfigure_layout query_layout meanwhile plan_id s =
     (case reconfigure_begin plan_id s of
        (s1, Inl e) \<Rightarrow> (s1, Inl e)
      | (s1, Inr request) \<Rightarrow>
          (case destructive_finish reconfigure_layout query_layout meanwhile request s1 of
             (s2, out) \<Rightarrow> (s2, Inr (out\<lparr>mo_plan := plan_id\<rparr>))))"

section \<open>What the destructive calls keep\<close>

definition progresses :: "fabric_state \<Rightarrow> fabric_state \<Rightarrow> bool" where
  "progresses s t \<longleftrightarrow> ledgers_evolve s t \<and> authority_advances s t"

lemma progresses_refl [simp]: "progresses s s"
  by (simp add: progresses_def)

lemma progresses_trans [trans]: "progresses s t \<Longrightarrow> progresses t u \<Longrightarrow> progresses s u"
  unfolding progresses_def by (blast intro: ledgers_evolve_trans authority_advances_trans)

lemma evolves_progresses: "ledgers_evolve s t \<Longrightarrow> authority_evolves s t \<Longrightarrow> progresses s t"
  by (simp add: progresses_def evolves_advances)

lemma progresses_event [simp]: "progresses s (record_event c s)"
  by (rule evolves_progresses) auto

lemma progresses_bump [simp]: "progresses s (bump_state_generation s)"
  by (rule evolves_progresses) auto

lemma progresses_transition: "progresses s (fst (transition_partition i to s))"
  by (rule evolves_progresses) (simp_all add: transition_ledgers)

lemma progresses_keys: "progresses s (s\<lparr>fs_stable_keys := m\<rparr>)" and progresses_plans: "progresses s (s\<lparr>fs_plans := p\<rparr>)"
  by (rule evolves_progresses; auto intro!: authority_evolves_same simp: counters_advance_def)+

lemma progresses_reservation: "progresses s (s\<lparr>fs_reservations := om_modify i f (fs_reservations s)\<rparr>)"
  by (auto simp: progresses_def authority_advances_def keeps_refls counters_advance_def used_ids_def ids_allocated_def)

lemma progresses_attempt: "progresses s (fst (register_attempt_locked ri r kind w b t s))"
  by (simp add: progresses_def register_attempt_locked_facts)

lemma progresses_ids:
  "allocate (fs_ids s) = (al, r) \<Longrightarrow> progresses s (s\<lparr>fs_ids := al\<rparr>)"
  using allocate_monotone [of "fs_ids s"]
  by (intro evolves_progresses) (auto intro!: authority_evolves_same simp: counters_advance_def)

text \<open>A new reservation under an identity the allocator has just handed out.\<close>

lemma progresses_new_reservation:
  assumes "allocate (fs_ids s) = (al, Inr rid)"
  shows "progresses s (s\<lparr>fs_ids := al, fs_reservations := om_set rid r (fs_reservations s)\<rparr>)"
proof -
  have "rid = ida_next (fs_ids s)" "ida_next (fs_ids s) < ida_next al"
    using assms by (auto simp: allocate_Inr succ_u64_greater)
  then show ?thesis
    by (auto simp: progresses_def authority_advances_def keeps_refls counters_advance_def ids_allocated_def used_ids_def
        intro: less_imp_le)
qed

text \<open>What a destructive reservation changes, and that a refused one leaves no reservation.\<close>

definition same_devices :: "fabric_state \<Rightarrow> fabric_state \<Rightarrow> bool" where
  "same_devices s t \<longleftrightarrow> fs_accelerators t = fs_accelerators s \<and> fs_partitions t = fs_partitions s \<and>
     fs_attempts t = fs_attempts s \<and> fs_stable_keys t = fs_stable_keys s \<and> fs_limits t = fs_limits s \<and>
     fs_coordinator_epoch t = fs_coordinator_epoch s \<and> fs_now t = fs_now s \<and> fs_closed t = fs_closed s"

lemma create_destructive_cases:
  obtains (refused) e u where "create_destructive_reservation_locked acc affected hold now_ms s = (u, Inl e)"
      "progresses s u" "same_devices s u" "fs_reservations u = fs_reservations s"
  | (created) pid rid u r where "create_destructive_reservation_locked acc affected hold now_ms s = (u, Inr r)"
      "progresses s u" "same_devices s u" "rs_id r = rid" "rs_partitions r = map pr_id affected" "rs_lifecycle r = RL_Active" "rs_destructive r"
      "fs_reservations u = om_set rid r (fs_reservations s)" "pid = ida_next (fs_ids s)"
      "fs_plans u = om_set pid (destructive_plan pid acc affected now_ms s) (fs_plans s)"
proof -
  obtain al pr where al: "allocate (fs_ids s) = (al, pr)" by fastforce
  obtain al' rr where al': "allocate al = (al', rr)" by fastforce
  show thesis
  proof (cases pr)
    case (Inl e)
    show thesis by (rule refused [of "s\<lparr>fs_ids := al\<rparr>" e])
      (use al Inl progresses_ids [OF al] in \<open>simp_all add: create_destructive_reservation_locked_def same_devices_def\<close>)
  next
    case pid: (Inr pid)
    have ids: "progresses s (s\<lparr>fs_ids := al\<rparr>)" by (rule progresses_ids [OF al])
    have al2: "allocate (fs_ids (s\<lparr>fs_ids := al\<rparr>)) = (al', rr)" using al' by simp
    have ids': "progresses s (s\<lparr>fs_ids := al'\<rparr>)" using progresses_trans [OF ids progresses_ids [OF al2]] by simp
    show thesis
    proof (cases rr)
      case (Inl e)
      show thesis by (rule refused [of "s\<lparr>fs_ids := al'\<rparr>" e])
        (use al al' pid Inl ids' in \<open>simp_all add: create_destructive_reservation_locked_def same_devices_def\<close>)
    next
      case rid: (Inr rid)
      let ?plans = "om_set pid (destructive_plan pid acc affected now_ms s) (fs_plans s)"
      let ?s1 = "s\<lparr>fs_ids := al', fs_plans := ?plans\<rparr>"
      let ?r = "destructive_reservation rid pid acc affected now_ms s"
      have s1: "progresses s ?s1" using progresses_trans [OF ids' progresses_plans] by simp
      have new: "progresses s (s\<lparr>fs_ids := al', fs_plans := ?plans, fs_reservations := om_set rid r (fs_reservations s)\<rparr>)" for r
      proof -
        have "progresses (s\<lparr>fs_ids := al\<rparr>) (s\<lparr>fs_ids := al', fs_reservations := om_set rid r (fs_reservations s)\<rparr>)"
          using progresses_new_reservation [OF al2 [unfolded rid], of r] by simp
        from progresses_trans [OF progresses_trans [OF ids this] progresses_plans [of _ ?plans]] show ?thesis
          by (rule back_subst [where P = "progresses s"]) simp
      qed
      have pid_new: "pid = ida_next (fs_ids s)" using al pid by (simp add: allocate_Inr)
      show thesis
      proof (cases "find_ledger (ac_id acc) s")
        case None
        show thesis by (rule refused [of ?s1 E_CorruptState])
          (use al al' pid rid None s1 in \<open>simp_all add: create_destructive_reservation_locked_def same_devices_def Let_def\<close>)
      next
        case l: (Some l)
        show thesis
        proof (cases "rv_empty hold")
          case True
          let ?u = "bump_state_generation (s\<lparr>fs_ids := al', fs_plans := ?plans, fs_reservations := om_set rid ?r (fs_reservations s)\<rparr>)"
          show thesis by (rule created [of ?u ?r rid pid])
            (use al al' pid rid l True progresses_trans [OF new progresses_bump] pid_new in
              \<open>simp_all add: create_destructive_reservation_locked_def same_devices_def Let_def destructive_reservation_def\<close>)
        next
          case False
          obtain l' st where res: "ledger_reserve hold l = (l', st)" by fastforce
          have led: "progresses t (t\<lparr>fs_ledgers := om_modify (ac_id acc) (\<lambda>_. l') (fs_ledgers s)\<rparr>)"
            if "fs_ledgers t = fs_ledgers s" for t
            using that l reserve_step [OF res] ledgers_evolve_upd [of "ac_id acc" t l l']
            by (intro evolves_progresses) (auto intro!: authority_evolves_same simp: counters_advance_def)
          show thesis
          proof (cases st)
            case (Inl e)
            let ?u = "s\<lparr>fs_ids := al', fs_ledgers := om_modify (ac_id acc) (\<lambda>_. l') (fs_ledgers s), fs_plans := om_erase pid ?plans\<rparr>"
            have "progresses ?s1 (?s1\<lparr>fs_ledgers := om_modify (ac_id acc) (\<lambda>_. l') (fs_ledgers s)\<rparr>)" by (rule led) simp
            from progresses_trans [OF progresses_trans [OF s1 this] progresses_plans [of _ "om_erase pid ?plans"]]
            have "progresses s ?u" by simp
            then show thesis by (intro refused [of ?u e])
              (use al al' pid rid l False res Inl in \<open>simp_all add: create_destructive_reservation_locked_def same_devices_def Let_def\<close>)
          next
            case (Inr u)
            let ?r' = "?r\<lparr>rs_resources := hold\<rparr>"
            let ?v = "s\<lparr>fs_ids := al', fs_plans := ?plans, fs_reservations := om_set rid ?r' (fs_reservations s)\<rparr>"
            let ?w = "s\<lparr>fs_ids := al', fs_plans := ?plans, fs_ledgers := om_modify (ac_id acc) (\<lambda>_. l') (fs_ledgers s),
                fs_reservations := om_set rid ?r' (fs_reservations s)\<rparr>"
            have vw: "?v\<lparr>fs_ledgers := om_modify (ac_id acc) (\<lambda>_. l') (fs_ledgers s)\<rparr> = ?w" by simp
            let ?u = "bump_state_generation ?w"
            have "progresses ?v (?v\<lparr>fs_ledgers := om_modify (ac_id acc) (\<lambda>_. l') (fs_ledgers s)\<rparr>)" by (rule led) simp
            from progresses_trans [OF progresses_trans [OF new this] progresses_bump] have "progresses s ?u"
              unfolding vw .
            then show thesis by (intro created [of ?u ?r' rid pid])
              (use al al' pid rid l False res Inr pid_new in
                \<open>simp_all add: create_destructive_reservation_locked_def same_devices_def Let_def destructive_reservation_def\<close>)
          qed
        qed
      qed
    qed
  qed
qed

lemma create_destructive_progresses: "progresses s (fst (create_destructive_reservation_locked acc affected hold t s))"
  by (cases rule: create_destructive_cases [of acc affected hold t s]) simp_all

lemma destruction_guard_progresses: "progresses s (fst (destruction_guard pid s))"
  using progresses_transition [of s pid PS_RevalidationRequired]
  by (simp add: destruction_guard_def split: sum.split option.split)

lemma destruction_guard_success:
  assumes "destruction_guard pid s = (s1, Inr (r, acc))"
  shows "s1 = s" "\<not> fs_closed s" "find_partition pid s = Some r" "\<not> is_terminal_state (pr_state r)"
    "ni_native_id (pr_native_identity r) \<noteq> []" "destruction_safe s r"
    "find_accelerator (pr_accelerator r) s = Some acc" "ac_generation acc = pr_accelerator_generation r"
  using assms by (auto simp: destruction_guard_def check_open_def split: sum.splits option.splits if_splits)

lemma create_destruction_progresses: "progresses s (fst (create_destruction_reservation pid s))"
proof (cases "destruction_guard pid s")
  case (Pair s1 g)
  then have "progresses s s1" using destruction_guard_progresses [of s pid] by simp
  with Pair show ?thesis
    using progresses_trans [OF _ create_destructive_progresses]
    by (simp add: create_destruction_reservation_def split: sum.split prod.split)
qed

lemma stable_key_progresses: "progresses s (snd (stable_key_slot i s))"
  by (simp add: stable_key_slot_def progresses_keys split: option.split)

lemma stable_key_frame [simp]:
  "fs_partitions (snd (stable_key_slot i s)) = fs_partitions s" "fs_attempts (snd (stable_key_slot i s)) = fs_attempts s"
  "fs_plans (snd (stable_key_slot i s)) = fs_plans s" "fs_coordinator_epoch (snd (stable_key_slot i s)) = fs_coordinator_epoch s"
  by (simp_all add: stable_key_slot_def split: option.split)

lemma destroy_begin_progresses: "progresses s (fst (destroy_begin pid s))"
proof -
  obtain s1 g where g: "destruction_guard pid s = (s1, g)" by fastforce
  have s1: "progresses s s1" using destruction_guard_progresses [of s pid] g by simp
  show ?thesis
  proof (cases g)
    case (Inr p)
    obtain r acc where p: "p = (r, acc)" by fastforce
    obtain s2 c where c: "create_destructive_reservation_locked acc [r] rv_zeros (fs_now s1) s1 = (s2, c)" by fastforce
    have s2: "progresses s s2" using progresses_trans [OF s1] create_destructive_progresses [of s1 acc "[r]"] c by (metis fst_conv)
    show ?thesis
    proof (cases c)
      case res: (Inr res)
      obtain s3 a where a: "register_attempt_locked (rs_id res) res AK_DestroyPartition 0 0 (fs_now s1) s2 = (s3, a)" by fastforce
      have s3: "progresses s s3" using progresses_trans [OF s2] progresses_attempt a by (metis fst_conv)
      then show ?thesis
        using g Inr p c res a progresses_trans [OF s3 stable_key_progresses]
        by (cases a) (simp_all add: destroy_begin_def case_prod_beta)
    qed (use g Inr p c s2 in \<open>simp add: destroy_begin_def\<close>)
  qed (use g s1 in \<open>simp add: destroy_begin_def\<close>)
qed

lemma reconfiguration_guard_progresses: "progresses s (fst (reconfiguration_guard pid s))"
proof -
  have "progresses s (record_event c (upd_plan pid f s))" for c f
    using progresses_trans [OF progresses_plans progresses_event] by simp
  then show ?thesis by (simp add: reconfiguration_guard_def split: sum.split option.split)
qed

lemma reconfigure_begin_progresses: "progresses s (fst (reconfigure_begin plan_id s))"
proof -
  obtain s1 g where g: "reconfiguration_guard plan_id s = (s1, g)" by fastforce
  have s1: "progresses s s1" using reconfiguration_guard_progresses [of s plan_id] g by simp
  show ?thesis
  proof (cases g)
    case (Inr p)
    obtain plan acc aff hold where p: "p = (plan, acc, aff, hold)" by (cases p) auto
    obtain s2 c where c: "create_destructive_reservation_locked acc (map snd aff) hold (fs_now s1) s1 = (s2, c)" by fastforce
    have s2: "progresses s s2"
      using progresses_trans [OF s1] create_destructive_progresses [of s1 acc "map snd aff"] c by (metis fst_conv)
    show ?thesis
    proof (cases c)
      case res: (Inr res)
      let ?st = "res\<lparr>rs_plan := pl_id plan, rs_plan_generation := pl_generation plan,
                     rs_planned_mutations := of_nat (length (pl_planned_partitions plan) + length aff)\<rparr>"
      let ?s3 = "upd_reservation (rs_id res) (\<lambda>_. ?st) s2"
      let ?loop = "try_keys (map fst aff) (\<lambda>i. transition_partition i PS_ReconfigurationRequired) ?s3"
      have s3: "progresses s ?s3" by (rule progresses_trans [OF s2 progresses_reservation])
      obtain s4 m where m: "?loop = (s4, m)" by fastforce
      have "progresses s (fst ?loop)"
        by (rule try_keys_invariant [where P = "progresses s", OF s3]) (rule progresses_trans [OF _ progresses_transition])
      then have s4: "progresses s s4" using m by simp
      obtain s5 a where a: "register_attempt_locked (rs_id res) ?st AK_ReconfigureLayout 0 0 (fs_now s1) s4 = (s5, a)" by fastforce
      have s5: "progresses s s5" using progresses_trans [OF s4] progresses_attempt a by (metis fst_conv)
      then show ?thesis
        using g Inr p c res m a s4 progresses_trans [OF progresses_trans [OF s5 stable_key_progresses] progresses_plans]
        by (cases m; cases a) (simp_all add: reconfigure_begin_def Let_def case_prod_beta)
    qed (use g Inr p c s2 in \<open>simp add: reconfigure_begin_def\<close>)
  qed (use g s1 in \<open>simp add: reconfigure_begin_def\<close>)
qed

section \<open>What a destructive call is allowed to do\<close>

lemma transition_reaches:
  assumes "transition_partition i to s = (s', success)"
  shows "\<exists>r. find_partition i s' = Some r \<and> pr_state r = to"
  using assms
  by (auto simp: transition_partition_def Let_def apf_lookup split: option.splits sum.splits prod.splits if_splits)

lemma register_destroy_attempt:
  assumes "register_attempt_locked ri r AK_DestroyPartition 0 0 t s = (s', Inr att)" "rs_partitions r = [p]"
  shows "find_attempt (at_id att) s' = Some att" "at_kind att = AK_DestroyPartition" "at_partitions att = [p]"
    "at_state att = AT_Dispatched" "\<exists>q. find_partition p s' = Some q \<and> pr_state q = PS_Destroying"
proof -
  have "find_attempt (at_id att) s' = Some att \<and> at_kind att = AK_DestroyPartition \<and> at_partitions att = [p] \<and>
    at_state att = AT_Dispatched \<and> (\<exists>q. find_partition p s' = Some q \<and> pr_state q = PS_Destroying)"
  proof (cases rule: register_attempt_cases [of s ri r AK_DestroyPartition 0 0 t])
    case (registered s1 a i u att')
    have "transition_partition p PS_Destroying (s1\<lparr>fs_ids := a\<rparr>) = (u, success)"
      using registered(3) assms(2)
      by (auto simp: begin_attempt_def split: option.splits prod.splits sum.splits)
    then obtain q where "find_partition p u = Some q" "pr_state q = PS_Destroying"
      using transition_reaches by blast
    with registered assms show ?thesis by (auto simp: apf_lookup make_attempt_def)
  qed (use assms(1) in simp)
  then show "find_attempt (at_id att) s' = Some att" "at_kind att = AK_DestroyPartition" "at_partitions att = [p]"
    "at_state att = AT_Dispatched" "\<exists>q. find_partition p s' = Some q \<and> pr_state q = PS_Destroying" by auto
qed

lemma destroy_begin_parts:
  assumes "destroy_begin pid s = (t, Inr req)"
  obtains r acc res s2 s3 att where "destruction_guard pid s = (s, Inr (r, acc))"
    "create_destructive_reservation_locked acc [r] rv_zeros (fs_now s) s = (s2, Inr res)"
    "register_attempt_locked (rs_id res) res AK_DestroyPartition 0 0 (fs_now s) s2 = (s3, Inr att)"
    "t = snd (stable_key_slot (ac_id acc) s3)"
    "req = destructive_request acc (fst (stable_key_slot (ac_id acc) s3)) (fs_coordinator_epoch s3) att False []
             [ni_native_id (pr_native_identity r)]"
proof -
  obtain s1 r acc where g: "destruction_guard pid s = (s1, Inr (r, acc))"
    using assms by (auto simp: destroy_begin_def split: prod.splits sum.splits)
  then have s1: "s1 = s" by (rule destruction_guard_success)
  obtain s2 c where c: "create_destructive_reservation_locked acc [r] rv_zeros (fs_now s) s = (s2, c)" by fastforce
  obtain res where res: "c = Inr res" using assms g c by (cases c) (simp_all add: destroy_begin_def s1)
  obtain s3 a where a: "register_attempt_locked (rs_id res) res AK_DestroyPartition 0 0 (fs_now s) s2 = (s3, a)" by fastforce
  obtain att where att: "a = Inr att" using assms g c res a by (cases a) (simp_all add: destroy_begin_def s1)
  show thesis
    by (rule that [OF g [unfolded s1] c [unfolded res] a [unfolded att]])
      (use assms g c res a att in \<open>simp_all add: destroy_begin_def s1 case_prod_beta\<close>)
qed

lemma created_reservation_partitions:
  assumes "create_destructive_reservation_locked acc affected hold t s = (u, Inr r)"
  shows "rs_partitions r = map pr_id affected"
proof (cases rule: create_destructive_cases [of acc affected hold t s])
  case (created pid rid u' r')
  then show ?thesis using assms by simp
qed (use assms in simp)

lemma destroy_begin_authorised:
  assumes "destroy_begin pid s = (t, Inr req)"
  shows "\<exists>r acc a q. \<not> fs_closed s \<and> find_partition pid s = Some r \<and> \<not> is_terminal_state (pr_state r) \<and>
    destruction_safe s r \<and> find_accelerator (pr_accelerator r) s = Some acc \<and>
    ac_generation acc = pr_accelerator_generation r \<and>
    mr_destructive req \<and> \<not> mr_full_device_reconfiguration req \<and> mr_desired req = [] \<and>
    mr_remove_native_ids req = [ni_native_id (pr_native_identity r)] \<and> ni_native_id (pr_native_identity r) \<noteq> [] \<and>
    mr_expected_boot req = ac_boot_id acc \<and> mr_expected_accelerator_generation req = ac_generation acc \<and>
    find_attempt (mr_attempt req) t = Some a \<and> at_kind a = AK_DestroyPartition \<and> at_partitions a = [pr_id r] \<and>
    at_state a = AT_Dispatched \<and> find_partition (pr_id r) t = Some q \<and> pr_state q = PS_Destroying"
  using assms
proof (rule destroy_begin_parts)
  fix r acc res s2 s3 att
  assume g: "destruction_guard pid s = (s, Inr (r, acc))"
    and c: "create_destructive_reservation_locked acc [r] rv_zeros (fs_now s) s = (s2, Inr res)"
    and a: "register_attempt_locked (rs_id res) res AK_DestroyPartition 0 0 (fs_now s) s2 = (s3, Inr att)"
    and t: "t = snd (stable_key_slot (ac_id acc) s3)"
    and req: "req = destructive_request acc (fst (stable_key_slot (ac_id acc) s3)) (fs_coordinator_epoch s3) att False []
             [ni_native_id (pr_native_identity r)]"
  have "rs_partitions res = [pr_id r]" using created_reservation_partitions [OF c] by simp
  note att = register_destroy_attempt [OF a this]
  show ?thesis
    using destruction_guard_success [OF g] att by (simp add: t req destructive_request_def)
qed

definition replaced_by_reconfiguration :: "accelerator_id \<Rightarrow> partition_record \<Rightarrow> bool" where
  "replaced_by_reconfiguration a r \<longleftrightarrow>
     pr_accelerator r = a \<and> \<not> is_terminal_state (pr_state r) \<and> pr_state r \<noteq> PS_Unpartitioned"

lemma affected_partitions_spec:
  "affected_partitions s a m acc = Inr aff \<Longrightarrow>
     aff = acc @ filter (\<lambda>e. replaced_by_reconfiguration a (snd e)) m \<and>
     (\<forall>e\<in>set m. replaced_by_reconfiguration a (snd e) \<longrightarrow> destruction_safe s (snd e))"
  by (induction s a m acc rule: affected_partitions.induct)
    (auto simp: replaced_by_reconfiguration_def split: if_splits)

lemma fill_dimensions_spec:
  assumes "fill_dimensions is f v = Inr v'" "rv_wf v" "set is \<subseteq> {..<8}"
  shows "rv_wf v'" "i < 8 \<Longrightarrow> rv_val v' i = (if i \<in> set is then case f (dim_of_index i) of Some q \<Rightarrow> unat q | None \<Rightarrow> rv_val v i
                                       else rv_val v i)"
proof -
  have "rv_wf v' \<and> (\<forall>i<8. rv_val v' i = (if i \<in> set is then case f (dim_of_index i) of Some q \<Rightarrow> unat q | None \<Rightarrow> rv_val v i
                                       else rv_val v i))"
    using assms
  proof (induction "is" arbitrary: v)
    case (Cons j js)
    have j: "dim_index (dim_of_index j) = j" using Cons.prems(3) by simp
    show ?case
    proof (cases "f (dim_of_index j)")
      case None
      then show ?thesis using Cons by auto
    next
      case (Some q)
      then obtain w where w: "rv_set (dim_of_index j) q v = (w, success)" "fill_dimensions js f w = Inr v'"
        using Cons.prems(1) by (auto split: prod.splits sum.splits)
      note st = rv_set_spec [OF w(1) Cons.prems(2)]
      show ?thesis using Cons.IH [OF w(2)] Cons.prems(3) st Some j by (auto split: option.splits)
    qed
  qed simp
  then show "rv_wf v'" "i < 8 \<Longrightarrow> rv_val v' i = (if i \<in> set is then case f (dim_of_index i) of Some q \<Rightarrow> unat q | None \<Rightarrow> rv_val v i
                                       else rv_val v i)" by auto
qed

text \<open>The capacity held for a reconfiguration is what the new layout needs beyond what the old one frees.\<close>

lemma reconfiguration_hold_spec:
  assumes "reconfiguration_hold needed held = Inr v" "i < 8"
  shows "rv_val v i = rv_val needed i - rv_val held i"
proof -
  have d: "dim_of_index i \<noteq> Dimension_Count" "dim_index (dim_of_index i) = i"
    using assms(2) dim_index_less [of "dim_of_index i"] by auto
  have get: "unat (rv_get w (dim_of_index i)) = rv_val w i" for w using rv_get_val [OF d(1), of w] d(2) by simp
  have zero: "rv_val needed i = 0" if "\<not> rv_has needed (dim_of_index i)" using that d assms(2) by (simp add: rv_has_bit rv_val_def)
  have z: "rv_val rv_zeros i = 0" by (simp add: rv_val_def rv_zeros_def)
  have sub: "set [0..<kResourceDimensionCount] \<subseteq> {..<8}" by auto
  have "rv_val v i = (case if rv_has needed (dim_of_index i)
      then Some (if rv_get held (dim_of_index i) < rv_get needed (dim_of_index i)
                 then rv_get needed (dim_of_index i) - rv_get held (dim_of_index i) else 0)
      else None of None \<Rightarrow> 0 | Some q \<Rightarrow> unat q)"
    using fill_dimensions_spec(2) [OF assms(1) [unfolded reconfiguration_hold_def] rv_wf_zeros sub assms(2)] assms(2) z
    by simp
  then show ?thesis
    using zero by (auto simp: get unat_sub word_less_nat_alt word_le_nat_alt not_less split: if_splits)
qed

lemma reconfiguration_guard_success:
  assumes "reconfiguration_guard plan_id s = (s1, Inr (plan, acc, aff, hold))"
  shows "s1 = s" "\<not> fs_closed s" "find_plan plan_id s = Some plan" "pl_outcome plan = PO_FeasibleAfterReconfiguration"
    "validate_plan_binding s plan (fs_now s) (pp_require_fresh_evidence (fs_policy s)) = success"
    "find_accelerator (pb_accelerator (pl_binding plan)) s = Some acc"
    "pp_allow_destructive_reconfiguration (fs_policy s)" "rq_allow_destructive_reconfiguration (pl_request plan)"
    "affected_partitions s (ac_id acc) (fs_partitions s) [] = Inr aff"
  using assms
  by (auto simp: reconfiguration_guard_def check_open_def split: sum.splits option.splits if_splits)

lemma register_reconfigure_attempt:
  assumes "register_attempt_locked ri r AK_ReconfigureLayout 0 0 t s = (s', Inr att)"
  shows "find_attempt (at_id att) s' = Some att" "at_kind att = AK_ReconfigureLayout" "at_partitions att = rs_partitions r"
    "at_state att = AT_Dispatched" "fs_plans s' = fs_plans s"
proof -
  have "find_attempt (at_id att) s' = Some att \<and> at_kind att = AK_ReconfigureLayout \<and> at_partitions att = rs_partitions r \<and>
    at_state att = AT_Dispatched \<and> fs_plans s' = fs_plans s"
  proof (cases rule: register_attempt_cases [of s ri r AK_ReconfigureLayout 0 0 t])
    case (registered s1 a i u att')
    have "u = s1\<lparr>fs_ids := a\<rparr>" using registered(3) by (simp add: begin_attempt_def)
    with registered assms show ?thesis by (auto simp: apf_lookup make_attempt_def prune_attempts_def)
  qed (use assms in simp)
  then show "find_attempt (at_id att) s' = Some att" "at_kind att = AK_ReconfigureLayout" "at_partitions att = rs_partitions r"
    "at_state att = AT_Dispatched" "fs_plans s' = fs_plans s" by auto
qed

lemma reconfigure_begin_parts:
  assumes "reconfigure_begin plan_id s = (t, Inr req)"
  obtains plan acc aff hold res stored s2 s4 s5 att where
    "reconfiguration_guard plan_id s = (s, Inr (plan, acc, aff, hold))"
    "create_destructive_reservation_locked acc (map snd aff) hold (fs_now s) s = (s2, Inr res)"
    "fs_plans s4 = fs_plans s2" "rs_partitions stored = rs_partitions res"
    "register_attempt_locked (rs_id res) stored AK_ReconfigureLayout 0 0 (fs_now s) s4 = (s5, Inr att)"
    "t = upd_plan plan_id (\<lambda>p. p\<lparr>pl_terminal := True\<rparr>) (snd (stable_key_slot (ac_id acc) s5))"
    "req = destructive_request acc (fst (stable_key_slot (ac_id acc) s5)) (fs_coordinator_epoch s5) att True
       (map spec_of (pl_planned_partitions plan)) (filter (\<lambda>n. n \<noteq> []) (map (\<lambda>(_, r). ni_native_id (pr_native_identity r)) aff))"
proof -
  obtain s1 p where g: "reconfiguration_guard plan_id s = (s1, Inr p)"
    using assms by (auto simp: reconfigure_begin_def split: prod.splits sum.splits)
  obtain plan acc aff hold where p: "p = (plan, acc, aff, hold)" by (cases p) auto
  have s1: "s1 = s" using reconfiguration_guard_success(1) [OF g [unfolded p]] .
  obtain s2 c where c: "create_destructive_reservation_locked acc (map snd aff) hold (fs_now s) s = (s2, c)" by fastforce
  obtain res where res: "c = Inr res" using assms g p c by (cases c) (simp_all add: reconfigure_begin_def s1)
  define stored where "stored = res\<lparr>rs_plan := pl_id plan, rs_plan_generation := pl_generation plan,
    rs_planned_mutations := of_nat (length (pl_planned_partitions plan) + length aff)\<rparr>"
  let ?loop = "try_keys (map fst aff) (\<lambda>i. transition_partition i PS_ReconfigurationRequired)
      (upd_reservation (rs_id res) (\<lambda>_. stored) s2)"
  obtain s4 m where m: "?loop = (s4, m)" by fastforce
  have plans: "fs_plans s4 = fs_plans s2"
    using try_keys_frame [of fs_plans "\<lambda>i. transition_partition i PS_ReconfigurationRequired" "map fst aff"
      "upd_reservation (rs_id res) (\<lambda>_. stored) s2"] m by simp
  obtain u where u: "m = Inr u"
    using assms g p c res m by (cases m) (simp_all add: reconfigure_begin_def s1 Let_def stored_def)
  obtain s5 a where a: "register_attempt_locked (rs_id res) stored AK_ReconfigureLayout 0 0 (fs_now s) s4 = (s5, a)" by fastforce
  obtain att where att: "a = Inr att"
    using assms g p c res m u a by (cases a) (simp_all add: reconfigure_begin_def s1 Let_def stored_def)
  show thesis
    by (rule that [OF g [unfolded p s1] c [unfolded res] plans _ a [unfolded att]])
      (use assms g p c res m u a att in \<open>simp_all add: reconfigure_begin_def s1 Let_def stored_def case_prod_beta\<close>)
qed

lemma reconfigure_begin_authorised:
  assumes "reconfigure_begin plan_id s = (t, Inr req)"
  shows "\<exists>plan acc a p. \<not> fs_closed s \<and> find_plan plan_id s = Some plan \<and>
    pl_outcome plan = PO_FeasibleAfterReconfiguration \<and>
    validate_plan_binding s plan (fs_now s) (pp_require_fresh_evidence (fs_policy s)) = success \<and>
    find_accelerator (pb_accelerator (pl_binding plan)) s = Some acc \<and>
    pp_allow_destructive_reconfiguration (fs_policy s) \<and> rq_allow_destructive_reconfiguration (pl_request plan) \<and>
    (\<forall>r\<in>set (om_values (fs_partitions s)). replaced_by_reconfiguration (ac_id acc) r \<longrightarrow> destruction_safe s r) \<and>
    mr_destructive req \<and> mr_full_device_reconfiguration req \<and> mr_desired req = map spec_of (pl_planned_partitions plan) \<and>
    mr_remove_native_ids req = filter (\<lambda>n. n \<noteq> []) (map (\<lambda>r. ni_native_id (pr_native_identity r))
       (filter (replaced_by_reconfiguration (ac_id acc)) (om_values (fs_partitions s)))) \<and>
    mr_expected_boot req = ac_boot_id acc \<and>
    find_attempt (mr_attempt req) t = Some a \<and> at_kind a = AK_ReconfigureLayout \<and> at_state a = AT_Dispatched \<and>
    at_partitions a = map pr_id (filter (replaced_by_reconfiguration (ac_id acc)) (om_values (fs_partitions s))) \<and>
    find_plan plan_id t = Some p \<and> pl_terminal p"
  using assms
proof (rule reconfigure_begin_parts)
  fix plan acc aff hold res stored s2 s4 s5 att
  assume g: "reconfiguration_guard plan_id s = (s, Inr (plan, acc, aff, hold))"
    and c: "create_destructive_reservation_locked acc (map snd aff) hold (fs_now s) s = (s2, Inr res)"
    and plans: "fs_plans s4 = fs_plans s2" and ps: "rs_partitions stored = rs_partitions res"
    and a: "register_attempt_locked (rs_id res) stored AK_ReconfigureLayout 0 0 (fs_now s) s4 = (s5, Inr att)"
    and t: "t = upd_plan plan_id (\<lambda>p. p\<lparr>pl_terminal := True\<rparr>) (snd (stable_key_slot (ac_id acc) s5))"
    and req: "req = destructive_request acc (fst (stable_key_slot (ac_id acc) s5)) (fs_coordinator_epoch s5) att True
       (map spec_of (pl_planned_partitions plan)) (filter (\<lambda>n. n \<noteq> []) (map (\<lambda>(_, r). ni_native_id (pr_native_identity r)) aff))"
  note gs = reconfiguration_guard_success [OF g]
  let ?R = "replaced_by_reconfiguration (ac_id acc)"
  have aff: "aff = filter (\<lambda>e. ?R (snd e)) (fs_partitions s)" "\<forall>e\<in>set (fs_partitions s). ?R (snd e) \<longrightarrow> destruction_safe s (snd e)"
    using affected_partitions_spec [OF gs(9)] by auto
  have rec: "map snd aff = filter ?R (om_values (fs_partitions s))"
    by (simp add: aff(1) om_values_def filter_map comp_def)
  have names: "map (\<lambda>(_, r). ni_native_id (pr_native_identity r)) aff =
      map (\<lambda>r. ni_native_id (pr_native_identity r)) (filter ?R (om_values (fs_partitions s)))"
    unfolding rec [symmetric] by (simp add: case_prod_beta comp_def)
  have "\<exists>p. find_plan plan_id s2 = Some p"
  proof (cases rule: create_destructive_cases [of acc "map snd aff" hold "fs_now s" s])
    case (created pid rid u r)
    then show ?thesis using c gs(3) by (auto simp: apf_lookup)
  qed (use c in simp)
  moreover note att = register_reconfigure_attempt [OF a]
  ultimately obtain p where "find_plan plan_id s5 = Some p" using plans att(5) by auto
  then have "find_plan plan_id t = Some (p\<lparr>pl_terminal := True\<rparr>)" by (simp add: t apf_lookup)
  moreover have "at_partitions att = map pr_id (filter ?R (om_values (fs_partitions s)))"
    using att(3) ps created_reservation_partitions [OF c] rec by simp
  moreover have "\<forall>r\<in>set (om_values (fs_partitions s)). ?R r \<longrightarrow> destruction_safe s r"
    using aff(2) by (auto simp: om_values_def)
  ultimately show ?thesis
    using gs att unfolding req names by (auto simp: t destructive_request_def)
qed

text \<open>A plan that was executed once, or that was found stale, is never executed again.\<close>

lemma terminal_plan_refused:
  assumes "find_plan plan_id s = Some p" "pl_terminal p"
  shows "\<exists>e. snd (reconfigure_begin plan_id s) = Inl e"
proof -
  have "validate_plan_binding s p t f \<noteq> success" for t f using assms(2) by (simp add: validate_plan_binding_iff)
  then have "\<exists>e. snd (reconfiguration_guard plan_id s) = Inl e"
    using assms(1) by (auto simp: reconfiguration_guard_def split: sum.split)
  then show ?thesis by (auto simp: reconfigure_begin_def split: prod.splits)
qed

end
