(* ===== verification/APF_Planner.thy ===== *)
theory APF_Planner
  imports APF_Destruction
begin

text \<open>
  The planner (\<^verbatim>\<open>src/planner.cpp\<close>, \<^verbatim>\<open>include/apf/fragmentation.hpp\<close>, \<^verbatim>\<open>include/apf/plan.hpp\<close>): the
  fragmentation analysis of one device, the evaluation and scoring of every registered device, the
  choice of the plan, and the planning calls of \<^verbatim>\<open>src/fabric.cpp\<close>. Counts are 32-bit words, as in
  the code. Scores are \<^verbatim>\<open>int64_t\<close> there; signed overflow is undefined behaviour in C++, so they are
  exact integers here, with a separate bound on the range. The diagnostic explanations are not modelled.
\<close>

section \<open>Demands\<close>

text \<open>The loop writes the products first and the mask at the end.\<close>

fun multiply_loop :: "nat list \<Rightarrow> resource_vector \<Rightarrow> u32 \<Rightarrow> u64 list \<Rightarrow> u32 \<Rightarrow> u64 list \<times> u32 result" where
  "multiply_loop [] value cnt vs m = (vs, Inr m)"
| "multiply_loop (i # is) value cnt vs m =
     (if \<not> rv_has value (dim_of_index i) then multiply_loop is value cnt vs m
      else
        (let amount = rv_get value (dim_of_index i) in
         if amount \<noteq> 0 \<and> cnt \<noteq> 0 \<and> amount > UINT64_MAX div ucast cnt then (vs, failure E_Overflow)
         else multiply_loop is value cnt (vs[i := amount * ucast cnt]) (m OR index_bit i)))"

definition multiply_resource :: "resource_vector \<Rightarrow> u32 \<Rightarrow> resource_vector \<times> status" where
  "multiply_resource value cnt =
     (if cnt = 0 then (rv_zeros, success)
      else case multiply_loop [0..<kResourceDimensionCount] value cnt (rv_values rv_zeros) 0 of
             (vs, Inl e) \<Rightarrow> (rv_zeros\<lparr>rv_values := vs\<rparr>, Inl e)
           | (vs, Inr m) \<Rightarrow> (\<lparr>rv_values = vs, rv_mask = m\<rparr>, success))"

abbreviation UINT32_MAX :: u32 where
  "UINT32_MAX \<equiv> 0xFFFFFFFF"

text \<open>\<open>None\<close> is the early return of 0.\<close>

fun fitting_loop :: "nat list \<Rightarrow> resource_vector \<Rightarrow> resource_vector \<Rightarrow> u32 \<Rightarrow> bool \<Rightarrow> (u32 \<times> bool) option" where
  "fitting_loop [] pool per best constrained = Some (best, constrained)"
| "fitting_loop (i # is) pool per best constrained =
     (let d = dim_of_index i; need = rv_get per d in
      if \<not> rv_has per d \<or> need = 0 then fitting_loop is pool per best constrained
      else if \<not> rv_has pool d then None
      else
        (let fits = rv_get pool d div need in
         if fits > ucast UINT32_MAX then fitting_loop is pool per best True
         else fitting_loop is pool per (min best (ucast fits)) True))"

definition instances_fitting :: "resource_vector \<Rightarrow> resource_vector \<Rightarrow> u32" where
  "instances_fitting pool per =
     (case fitting_loop [0..<kResourceDimensionCount] pool per UINT32_MAX False of
        None \<Rightarrow> 0
      | Some (best, constrained) \<Rightarrow> if constrained then best else 0)"

definition capacity_waste_units :: "resource_vector \<Rightarrow> int" where
  "capacity_waste_units free =
     sum_list (map (\<lambda>i. let d = dim_of_index i in
                        if \<not> rv_has free d then 0
                        else if is_share_dimension d then uint (rv_get free d div 10000)
                        else uint (rv_get free d div 2 ^ 30)) [0..<kResourceDimensionCount])"

fun health_penalty :: "health_state \<Rightarrow> int" where
  "health_penalty Health_Healthy = 0"
| "health_penalty Health_Recovering = 1"
| "health_penalty Health_Degraded = 2"
| "health_penalty Health_Unknown = 3"
| "health_penalty Health_Unhealthy = 4"

section \<open>Residents of a device\<close>

definition profile_conflicts_with_resident :: "fabric_state \<Rightarrow> accelerator_record \<Rightarrow> partition_profile \<Rightarrow> bool" where
  "profile_conflicts_with_resident s acc profile \<longleftrightarrow>
     (\<exists>r\<in>set (om_values (fs_partitions s)).
        pr_accelerator r = ac_id acc \<and> \<not> is_terminal_state (pr_state r) \<and> pr_profile r \<noteq> pf_id profile \<and>
        (case find_profile (pr_profile r) s of
           None \<Rightarrow> False
         | Some resident \<Rightarrow> conflicts_with profile resident))"

definition resident_instances :: "fabric_state \<Rightarrow> accelerator_id \<Rightarrow> profile_id \<Rightarrow> u32" where
  "resident_instances s a p =
     of_nat (length (filter (\<lambda>r. pr_accelerator r = a \<and> pr_profile r = p \<and>
                                 \<not> (is_terminal_state (pr_state r) \<or> pr_state r = PS_Unpartitioned))
                       (om_values (fs_partitions s))))"

definition used_slices :: "fabric_state \<Rightarrow> accelerator_id \<Rightarrow> bool \<Rightarrow> u32" where
  "used_slices s a compute =
     sum_list (map (\<lambda>r. if pr_accelerator r \<noteq> a \<or> is_terminal_state (pr_state r) then 0
                        else case find_profile (pr_profile r) s of
                               None \<Rightarrow> 0
                             | Some p \<Rightarrow> if compute then pf_compute_slice_count p else pf_memory_slice_count p)
                 (om_values (fs_partitions s)))"

fun any_profile_fits ::
  "fabric_state \<Rightarrow> accelerator_record \<Rightarrow> u32 \<Rightarrow> resource_vector \<Rightarrow> profile_id list \<Rightarrow> bool" where
  "any_profile_fits s acc slots_free pool [] \<longleftrightarrow> False"
| "any_profile_fits s acc slots_free pool (i # is) \<longleftrightarrow>
     (case find_profile i s of
        None \<Rightarrow> any_profile_fits s acc slots_free pool is
      | Some profile \<Rightarrow>
          if slots_free = 0 then False
          else if \<not> is_subset_of (pf_resources profile) pool then any_profile_fits s acc slots_free pool is
          else if profile_conflicts_with_resident s acc profile then any_profile_fits s acc slots_free pool is
          else True)"

section \<open>Fragmentation\<close>

datatype fragmentation_class =
    FC_None | FC_ProfileShape | FC_SliceNotContiguous | FC_EngineGroup | FC_MemorySegment
  | FC_MaxPartitionCount | FC_IncompatibleCombination | FC_StrandedCapacity | FC_TrappedBehindActive
  | FC_ReconfigurationRequired | FC_ExceedsDeviceCapacity | FC_Count

fun outcome_for_classification :: "fragmentation_class \<Rightarrow> plan_outcome" where
  "outcome_for_classification FC_None = PO_FeasibleNow"
| "outcome_for_classification FC_ProfileShape = PO_Fragmented"
| "outcome_for_classification FC_SliceNotContiguous = PO_Fragmented"
| "outcome_for_classification FC_EngineGroup = PO_Fragmented"
| "outcome_for_classification FC_MemorySegment = PO_Fragmented"
| "outcome_for_classification FC_IncompatibleCombination = PO_Fragmented"
| "outcome_for_classification FC_StrandedCapacity = PO_Fragmented"
| "outcome_for_classification FC_MaxPartitionCount = PO_MaxPartitionCountReached"
| "outcome_for_classification FC_TrappedBehindActive = PO_InsufficientCapacity"
| "outcome_for_classification FC_ReconfigurationRequired = PO_PhysicallyImpossible"
| "outcome_for_classification FC_ExceedsDeviceCapacity = PO_PhysicallyImpossible"
| "outcome_for_classification FC_Count = PO_Fragmented"

record fragmentation_report =
  fr_accelerator :: accelerator_id
  fr_accelerator_generation :: generation
  fr_capability_generation :: generation
  fr_profile :: profile_id
  fr_requested_count :: u32
  fr_classification :: fragmentation_class
  fr_aggregate_capacity_sufficient :: bool
  fr_profile_supported :: bool
  fr_feasible_now :: bool
  fr_feasible_after_drain :: bool
  fr_feasible_after_reconfiguration :: bool
  fr_max_instances_now :: u32
  fr_max_instances_after_drain :: u32
  fr_partition_slots_free :: u32
  fr_free_capacity :: resource_vector
  fr_stranded_capacity :: resource_vector
  fr_capacity_trapped_behind_active :: resource_vector
  fr_capacity_recoverable_by_reconfiguration :: resource_vector
  fr_blocking_active_partitions :: u32
  fr_reconfiguration_required :: bool
  fr_reconfiguration_can_help :: bool
  fr_destructive_reconfiguration_required :: bool
  fr_estimated_drain_ms :: u64
  fr_estimated_reconfiguration_downtime_ms :: u64
  fr_estimated_partition_mutations :: u32
  fr_partitions_to_drain :: "partition_id list"
  fr_blockers :: "string list"

definition report_default :: fragmentation_report where
  "report_default =
     \<lparr>fr_accelerator = 0, fr_accelerator_generation = 0, fr_capability_generation = 0, fr_profile = 0,
      fr_requested_count = 1, fr_classification = FC_None, fr_aggregate_capacity_sufficient = False,
      fr_profile_supported = False, fr_feasible_now = False, fr_feasible_after_drain = False,
      fr_feasible_after_reconfiguration = False, fr_max_instances_now = 0, fr_max_instances_after_drain = 0,
      fr_partition_slots_free = 0, fr_free_capacity = rv_zeros, fr_stranded_capacity = rv_zeros,
      fr_capacity_trapped_behind_active = rv_zeros, fr_capacity_recoverable_by_reconfiguration = rv_zeros,
      fr_blocking_active_partitions = 0, fr_reconfiguration_required = False, fr_reconfiguration_can_help = False,
      fr_destructive_reconfiguration_required = False, fr_estimated_drain_ms = 0,
      fr_estimated_reconfiguration_downtime_ms = 0, fr_estimated_partition_mutations = 0,
      fr_partitions_to_drain = [], fr_blockers = []\<rparr>"

text \<open>The capacity already committed to partitions; a refused quantity is skipped and reported.\<close>

fun committed_loop :: "nat list \<Rightarrow> capacity_ledger \<Rightarrow> resource_vector \<times> string list \<Rightarrow> resource_vector \<times> string list" where
  "committed_loop [] l (v, blockers) = (v, blockers)"
| "committed_loop (i # is) l (v, blockers) =
     (let d = dim_of_index i in
      if \<not> rv_has (cl_total l) d then committed_loop is l (v, blockers)
      else
        (case rv_set d (rv_get (ledger_bucket l Bucket_Active) d + rv_get (ledger_bucket l Bucket_Draining) d +
                        rv_get (ledger_bucket l Bucket_ReconfigurationHeld) d) v of
           (v', Inr _) \<Rightarrow> committed_loop is l (v', blockers)
         | (v', Inl _) \<Rightarrow> committed_loop is l (v', blockers @ [''committed-capacity-overflow''])))"

text \<open>\<^verbatim>\<open>a > b ? a - b : 0\<close>\<close>

definition room :: "u32 \<Rightarrow> u32 \<Rightarrow> u32" where
  "room a b = (if a > b then a - b else 0)"

definition used_partition_states :: "partition_state list" where
  "used_partition_states =
     [PS_Reserved, PS_Creating, PS_Active, PS_Draining, PS_ReconfigurationRequired, PS_Degraded,
      PS_RevalidationRequired, PS_Destroying, PS_Offline]"

definition used_partitions :: "fabric_state \<Rightarrow> accelerator_id \<Rightarrow> u32" where
  "used_partitions s a = of_nat (count_partitions_in_states a used_partition_states s)"

text \<open>How many more instances of the profile its own bound, the device's rule and the policy allow.\<close>

definition multiplicity_cap ::
  "fabric_state \<Rightarrow> accelerator_record \<Rightarrow> partition_profile \<Rightarrow> u32 \<Rightarrow> u32 \<Rightarrow> u32 \<times> string list" where
  "multiplicity_cap s acc profile used same_profile =
     (let cap = (if pf_max_multiplicity profile > 0 then room (pf_max_multiplicity profile) same_profile else UINT32_MAX);
          (cap, blockers) =
            (case find_rule (ac_capability acc) (pf_id profile) of
               None \<Rightarrow> (cap, [])
             | Some rule \<Rightarrow>
                 (let cap = (if cr_max_instances rule > 0 then min cap (room (cr_max_instances rule) same_profile) else cap)
                  in if cr_requires_exclusive_device rule \<and> used > 0
                     then (0, [''profile-requires-exclusive-device'']) else (cap, [])))
      in (if pp_max_instances_per_profile (fs_policy s) > 0
          then min cap (room (pp_max_instances_per_profile (fs_policy s)) same_profile) else cap, blockers))"

text \<open>One slice dimension: \<open>total\<close> slices on the device, \<open>per\<close> slices for one instance.\<close>

definition slice_limit :: "u32 \<Rightarrow> u32 \<Rightarrow> u32 \<Rightarrow> u32 \<Rightarrow> u32" where
  "slice_limit total_slices used per by_capacity =
     (if total_slices > 0 \<and> per > 0 then min by_capacity (room total_slices used div per) else by_capacity)"

definition instances_by_shape :: "fabric_state \<Rightarrow> accelerator_record \<Rightarrow> partition_profile \<Rightarrow> u32 \<Rightarrow> u32" where
  "instances_by_shape s acc profile by_capacity =
     slice_limit (cap_total_memory_slices (ac_capability acc)) (used_slices s (ac_id acc) False) (pf_memory_slice_count profile)
       (slice_limit (cap_total_compute_slices (ac_capability acc)) (used_slices s (ac_id acc) True)
          (pf_compute_slice_count profile) by_capacity)"

text \<open>
  The part every analysis that does not return early ends with: stranded and recoverable capacity,
  the partitions in the way and the estimates.
\<close>

definition recoverable_capacity :: "capacity_ledger \<Rightarrow> resource_vector result" where
  "recoverable_capacity l =
     fill_dimensions [0..<kResourceDimensionCount]
       (\<lambda>d. if rv_has (cl_total l) d \<and>
               (rv_has (ledger_bucket l Bucket_Active) d \<or> rv_has (ledger_bucket l Bucket_Draining) d)
            then Some (rv_get (ledger_bucket l Bucket_Active) d + rv_get (ledger_bucket l Bucket_Draining) d)
            else None) rv_zeros"

definition partitions_to_drain :: "accelerator_id \<Rightarrow> fabric_state \<Rightarrow> partition_id list" where
  "partitions_to_drain a s =
     sort (map pr_id (filter (\<lambda>r. pr_accelerator r = a \<and> (pr_state r = PS_Active \<or> pr_state r = PS_Degraded))
             (om_values (fs_partitions s))))"

definition finish_report ::
  "fabric_state \<Rightarrow> accelerator_record \<Rightarrow> capacity_ledger \<Rightarrow> partition_request \<Rightarrow> fragmentation_report \<Rightarrow> fragmentation_report" where
  "finish_report s acc l request r =
     (let free = fr_free_capacity r;
          stranded = \<not> rv_empty free \<and>
            \<not> any_profile_fits s acc (fr_partition_slots_free r) free (cap_supported_profiles (ac_capability acc));
          r = (if stranded
               then r\<lparr>fr_stranded_capacity := free,
                      fr_classification := (if \<not> fr_feasible_now r \<and> fr_classification r = FC_None
                                            then FC_StrandedCapacity else fr_classification r)\<rparr>
               else r);
          r = (case recoverable_capacity l of
                 Inr v \<Rightarrow> r\<lparr>fr_capacity_recoverable_by_reconfiguration := v\<rparr>
               | Inl _ \<Rightarrow> r);
          drain = partitions_to_drain (ac_id acc) s
      in r\<lparr>fr_blocking_active_partitions := of_nat (count_partitions_in_states (ac_id acc) [PS_Active, PS_Draining] s),
           fr_partitions_to_drain := drain,
           fr_estimated_drain_ms := cap_drain_estimate_ms (ac_capability acc),
           fr_estimated_reconfiguration_downtime_ms := cap_reconfiguration_estimate_ms (ac_capability acc),
           fr_estimated_partition_mutations := of_nat (length drain + unat (rq_count request))\<rparr>)"

text \<open>
  The free capacity is short: would draining, or rebuilding the whole device, give enough?
  A demand that exceeds the device returns at once, without the part above.
\<close>

definition short_report ::
  "fabric_state \<Rightarrow> accelerator_record \<Rightarrow> capacity_ledger \<Rightarrow> partition_request \<Rightarrow> partition_profile \<Rightarrow> resource_vector \<Rightarrow>
     fragmentation_report \<Rightarrow> fragmentation_report" where
  "short_report s acc l request profile needed r =
     (let (recovered, st) =
            (case rv_add_assign (fr_free_capacity r) (ledger_bucket l Bucket_Draining) of
               (v, Inl e) \<Rightarrow> (v, Inl e)
             | (v, Inr _) \<Rightarrow> rv_add_assign v (ledger_bucket l Bucket_ReconfigurationHeld));
          drain_helps = result_ok st \<and> is_subset_of needed recovered;
          r = r\<lparr>fr_feasible_after_drain := drain_helps,
                fr_max_instances_after_drain :=
                  min (instances_fitting recovered (pf_resources profile)) (fr_partition_slots_free r)\<rparr>;
          (whole, wst) = rv_sub_assign (cl_total l) (ledger_bucket l Bucket_Unavailable)
      in if \<not> (result_ok wst \<and> is_subset_of needed whole)
         then r\<lparr>fr_classification := FC_ExceedsDeviceCapacity\<rparr>
         else finish_report s acc l request
                (r\<lparr>fr_destructive_reconfiguration_required := True, fr_reconfiguration_required := True,
                   fr_reconfiguration_can_help := \<not> drain_helps, fr_classification := FC_TrappedBehindActive\<rparr>))"

definition initial_report :: "accelerator_record \<Rightarrow> capacity_ledger \<Rightarrow> partition_request \<Rightarrow> fragmentation_report" where
  "initial_report acc l request =
     report_default
       \<lparr>fr_accelerator := ac_id acc, fr_accelerator_generation := ac_generation acc,
        fr_capability_generation := cap_generation (ac_capability acc), fr_profile := rq_profile request,
        fr_requested_count := rq_count request, fr_free_capacity := ledger_bucket l Bucket_Free\<rparr>"

text \<open>The counts: free slots, the bounds on instances of the profile, and what fits now.\<close>

definition count_report ::
  "fabric_state \<Rightarrow> accelerator_record \<Rightarrow> partition_request \<Rightarrow> partition_profile \<Rightarrow> resource_vector \<Rightarrow> bool \<Rightarrow>
     fragmentation_report \<Rightarrow> fragmentation_report" where
  "count_report s acc request profile needed conflict r =
     (let used = used_partitions s (ac_id acc);
          slots = room (cap_max_partition_count (ac_capability acc)) used;
          (cap, blockers) = multiplicity_cap s acc profile used (resident_instances s (ac_id acc) (pf_id profile));
          by_capacity = instances_by_shape s acc profile
            (min (min (instances_fitting (fr_free_capacity r) (pf_resources profile)) slots) cap);
          now_max = (if conflict then 0 else by_capacity)
      in r\<lparr>fr_partition_slots_free := slots,
           fr_blockers := fr_blockers r @ blockers @ (if conflict then [''incompatible-profile-combination''] else []),
           fr_max_instances_now := now_max,
           fr_aggregate_capacity_sufficient := is_subset_of needed (fr_free_capacity r),
           fr_feasible_now := \<not> conflict \<and> now_max \<ge> rq_count request\<rparr>)"

definition analyze_fragmentation_impl ::
  "fabric_state \<Rightarrow> accelerator_record \<Rightarrow> capacity_ledger \<Rightarrow> partition_request \<Rightarrow> fragmentation_report" where
  "analyze_fragmentation_impl s acc l request =
     (let r = initial_report acc l request in
      case find_profile (rq_profile request) s of
        None \<Rightarrow> r\<lparr>fr_classification := FC_ProfileShape, fr_blockers := [''profile-unknown'']\<rparr>
      | Some profile \<Rightarrow>
          (let (committed, blockers) = committed_loop [0..<kResourceDimensionCount] l (rv_zeros, []);
               r = r\<lparr>fr_profile_supported := supports_profile (ac_capability acc) (pf_id profile),
                     fr_capacity_trapped_behind_active := committed, fr_blockers := blockers\<rparr>
           in case multiply_resource (pf_resources profile) (rq_count request) of
                (needed, Inl _) \<Rightarrow>
                  r\<lparr>fr_classification := FC_ProfileShape, fr_blockers := fr_blockers r @ [''request-magnitude-overflow'']\<rparr>
              | (needed, Inr _) \<Rightarrow>
                  (let conflict = profile_conflicts_with_resident s acc profile;
                       r = count_report s acc request profile needed conflict r
                   in if fr_feasible_now r then finish_report s acc l request (r\<lparr>fr_classification := FC_None\<rparr>)
                      else if fr_partition_slots_free r < rq_count request
                      then finish_report s acc l request (r\<lparr>fr_classification := FC_MaxPartitionCount\<rparr>)
                      else if conflict
                      then finish_report s acc l request (r\<lparr>fr_classification := FC_IncompatibleCombination\<rparr>)
                      else if fr_aggregate_capacity_sufficient r
                      then finish_report s acc l request (r\<lparr>fr_classification := FC_ProfileShape\<rparr>)
                      else short_report s acc l request profile needed r)))"

definition analyze_fragmentation :: "accelerator_id \<Rightarrow> partition_request \<Rightarrow> fabric_state \<Rightarrow> fragmentation_report result" where
  "analyze_fragmentation a request s =
     (case find_accelerator a s of
        None \<Rightarrow> failure E_NotFound
      | Some acc \<Rightarrow>
          (case find_ledger a s of
             None \<Rightarrow> failure E_NotFound
           | Some l \<Rightarrow> Inr (analyze_fragmentation_impl s acc l request)))"

section \<open>Candidates\<close>

text \<open>Lower is more specific, and reported first.\<close>

fun failure_severity :: "plan_outcome \<Rightarrow> int" where
  "failure_severity PO_InvalidRequest = 0"
| "failure_severity PO_LimitExceeded = 1"
| "failure_severity PO_DuplicateRequest = 2"
| "failure_severity PO_CapabilityUnsupported = 3"
| "failure_severity PO_CapabilityUnknown = 4"
| "failure_severity PO_PolicyRejected = 5"
| "failure_severity PO_IsolationUnsatisfied = 6"
| "failure_severity PO_StaleEvidence = 7"
| "failure_severity PO_RevalidationRequired = 8"
| "failure_severity PO_MaxPartitionCountReached = 9"
| "failure_severity PO_Fragmented = 10"
| "failure_severity PO_InsufficientCapacity = 11"
| "failure_severity PO_PhysicallyImpossible = 12"
| "failure_severity PO_NoEligibleAccelerator = 13"
| "failure_severity _ = 14"

record plan_score_term =
  st_subject :: string
  st_weight :: int
  st_raw :: int
  st_contribution :: int

record candidate_evaluation =
  ce_accelerator :: accelerator_id
  ce_accelerator_generation :: generation
  ce_eligible :: bool
  ce_outcome :: plan_outcome
  ce_fragmentation :: fragmentation_report
  ce_score_total :: int
  ce_score_terms :: "plan_score_term list"

text \<open>The hard constraints in the order of the code; \<open>None\<close> when all of them hold.\<close>

definition candidate_rejection ::
  "fabric_state \<Rightarrow> partition_request \<Rightarrow> partition_profile \<Rightarrow> u64 \<Rightarrow> bool \<Rightarrow> accelerator_record \<Rightarrow> plan_outcome option" where
  "candidate_rejection s request profile now_ms need_fresh acc =
     (let sel = rq_selector request; c = ac_capability acc in
      if \<not> selector_admits sel (ac_id acc) then Some PO_PolicyRejected
      else if ds_backend sel \<noteq> [] \<and> ds_backend sel \<noteq> ac_backend acc then Some PO_PolicyRejected
      else if ds_vendor sel \<noteq> [] \<and> ds_vendor sel \<noteq> di_vendor (ac_identifiers acc) then Some PO_PolicyRejected
      else if ds_device_family sel \<noteq> [] \<and> ds_device_family sel \<noteq> di_model (ac_identifiers acc) then Some PO_PolicyRejected
      else if ds_locality_domain sel \<noteq> [] \<and> ds_locality_domain sel \<noteq> ld_name (ac_locality acc) then Some PO_PolicyRejected
      else if \<not> is_observed (ac_evidence acc) then Some PO_RevalidationRequired
      else if need_fresh \<and> \<not> is_fresh_at (ac_evidence acc) now_ms then Some PO_StaleEvidence
      else if \<not> is_governable_at acc now_ms need_fresh then Some PO_PolicyRejected
      else if cap_support c = Support_Unknown \<or> \<not> gen_known (cap_generation c) then Some PO_CapabilityUnknown
      else if \<not> declares_supported c then Some PO_CapabilityUnsupported
      else if \<not> supports_profile c (rq_profile request) then Some PO_CapabilityUnsupported
      else if pf_backend profile \<noteq> [] \<and> pf_backend profile \<noteq> ac_backend acc then Some PO_PolicyRejected
      else if \<not> isolation_subset (ir_required (rq_isolation request)) (cap_isolation c) then Some PO_IsolationUnsatisfied
      else if pp_require_healthy_device (fs_policy s) \<and> is_observed (he_stamp (ac_health acc)) \<and>
              health_usable_at (ac_health acc) now_ms \<and> he_state (ac_health acc) \<noteq> Health_Healthy
      then Some PO_PolicyRejected
      else None)"

text \<open>What the analysis says of a device that passed the constraints: eligible or not, and the outcome.\<close>

definition candidate_outcome :: "fabric_state \<Rightarrow> partition_request \<Rightarrow> fragmentation_report \<Rightarrow> bool \<times> plan_outcome" where
  "candidate_outcome s request f =
     (if fr_feasible_now f \<or> fr_feasible_after_drain f \<or> fr_reconfiguration_can_help f \<or> fr_feasible_after_reconfiguration f
      then if fr_feasible_now f then (True, PO_FeasibleNow)
           else if fr_feasible_after_drain f \<and> pp_allow_drain (fs_policy s) \<and> rq_allow_drain request
           then (True, PO_FeasibleAfterDrain)
           else if fr_reconfiguration_can_help f \<and> pp_allow_destructive_reconfiguration (fs_policy s) \<and>
                   rq_allow_destructive_reconfiguration request
           then (True, PO_FeasibleAfterReconfiguration)
           else (False, PO_PolicyRejected)
      else (False, outcome_for_classification (fr_classification f)))"

text \<open>What is left of the free capacity once the plan is carried out.\<close>

definition projected_capacity :: "fabric_state \<Rightarrow> partition_request \<Rightarrow> partition_profile \<Rightarrow> accelerator_record \<Rightarrow> resource_vector" where
  "projected_capacity s request profile acc =
     (let free = (case find_ledger (ac_id acc) s of Some l \<Rightarrow> ledger_bucket l Bucket_Free | None \<Rightarrow> rv_zeros) in
      case multiply_resource (pf_resources profile) (rq_count request) of
        (needed, Inr _) \<Rightarrow> (case rv_sub_assign free needed of (v, Inr _) \<Rightarrow> v | (v, Inl _) \<Rightarrow> rv_zeros)
      | (needed, Inl _) \<Rightarrow> rv_zeros)"

definition optionality :: "fabric_state \<Rightarrow> accelerator_record \<Rightarrow> resource_vector \<Rightarrow> u32" where
  "optionality s acc projected =
     fold (\<lambda>i best. case find_profile i s of
                      None \<Rightarrow> best
                    | Some p \<Rightarrow> max best (instances_fitting projected (pf_resources p)))
       (cap_supported_profiles (ac_capability acc)) 0"

text \<open>The name of a term, its weight in the policy and its raw value.\<close>

definition score_inputs ::
  "fabric_state \<Rightarrow> partition_request \<Rightarrow> partition_profile \<Rightarrow> accelerator_record \<Rightarrow> fragmentation_report \<Rightarrow> plan_outcome \<Rightarrow>
     (string \<times> int \<times> int) list" where
  "score_inputs s request profile acc f outc =
     (let w = pp_weights (fs_policy s);
          projected = projected_capacity s request profile acc;
          stranded_after = \<not> rv_empty projected \<and>
            \<not> any_profile_fits s acc (room (fr_partition_slots_free f) (rq_count request)) projected
                (cap_supported_profiles (ac_capability acc));
          consolidate = ds_locality_domain (rq_selector request) = [] \<and> ld_name (ac_locality acc) \<noteq> [] \<and>
            fr_partitions_to_drain f = [] \<and> resident_instances s (ac_id acc) (rq_profile request) > 0;
          destructive = outc = PO_FeasibleAfterReconfiguration;
          mutations = uint (rq_count request) + (if destructive then uint (fr_estimated_partition_mutations f) else 0)
      in [(''capacity_waste'', pw_capacity_waste w, capacity_waste_units projected),
          (''stranded_remainder'', pw_fragmentation w, of_bool stranded_after),
          (''destructive_reconfiguration'', pw_destructive_reconfiguration w, of_bool destructive),
          (''drain'', pw_drain w, of_bool (outc = PO_FeasibleAfterDrain)),
          (''mutation_count'', pw_mutation_count w, mutations),
          (''health'', pw_health w, health_penalty (he_state (ac_health acc))),
          (''locality'', pw_locality w, if consolidate then 0 else 1),
          (''future_optionality'', pw_future_optionality w, - uint (optionality s acc projected)),
          (''reconfiguration_cost'', pw_reconfiguration_cost w,
             if destructive then uint (fr_estimated_reconfiguration_downtime_ms f div 1000) else 0),
          (''live_reconfiguration'', pw_live_reconfiguration_bonus w,
             of_bool (destructive \<and> cap_live_reconfiguration_supported (ac_capability acc)))])"

definition score_term :: "string \<times> int \<times> int \<Rightarrow> plan_score_term" where
  "score_term t = (case t of (subject, weight, raw) \<Rightarrow>
     \<lparr>st_subject = subject, st_weight = weight, st_raw = raw, st_contribution = weight * raw\<rparr>)"

definition rejected_candidate :: "partition_request \<Rightarrow> accelerator_record \<Rightarrow> plan_outcome \<Rightarrow> candidate_evaluation" where
  "rejected_candidate request acc outc =
     \<lparr>ce_accelerator = ac_id acc, ce_accelerator_generation = ac_generation acc, ce_eligible = False,
      ce_outcome = outc,
      ce_fragmentation = report_default\<lparr>fr_accelerator := ac_id acc, fr_accelerator_generation := ac_generation acc,
        fr_profile := rq_profile request, fr_requested_count := rq_count request\<rparr>,
      ce_score_total = 0, ce_score_terms = []\<rparr>"

definition evaluate_candidate ::
  "fabric_state \<Rightarrow> partition_request \<Rightarrow> partition_profile \<Rightarrow> u64 \<Rightarrow> bool \<Rightarrow> accelerator_record \<Rightarrow> candidate_evaluation" where
  "evaluate_candidate s request profile now_ms need_fresh acc =
     (case candidate_rejection s request profile now_ms need_fresh acc of
        Some outc \<Rightarrow> rejected_candidate request acc outc
      | None \<Rightarrow>
          (case find_ledger (ac_id acc) s of
             None \<Rightarrow> rejected_candidate request acc PO_RevalidationRequired
           | Some l \<Rightarrow>
               (let f = analyze_fragmentation_impl s acc l request;
                    (eligible, outc) = candidate_outcome s request f;
                    terms = (if eligible then map score_term (score_inputs s request profile acc f outc) else [])
                in \<lparr>ce_accelerator = ac_id acc, ce_accelerator_generation = ac_generation acc, ce_eligible = eligible,
                    ce_outcome = outc, ce_fragmentation = f,
                    ce_score_total = sum_list (map st_contribution terms), ce_score_terms = terms\<rparr>)))"

section \<open>Choosing a plan\<close>

text \<open>The loop's running choices: the most specific failure, and the eligible device with the lowest score.\<close>

record plan_scan =
  sc_best_severity :: int
  sc_best_failure :: plan_outcome
  sc_have_eligible :: bool
  sc_best_score :: int
  sc_best_accelerator :: accelerator_id

definition scan_start :: plan_scan where
  "scan_start = \<lparr>sc_best_severity = 2147483647, sc_best_failure = PO_NoEligibleAccelerator, sc_have_eligible = False,
     sc_best_score = 0, sc_best_accelerator = 0\<rparr>"

definition scan_candidate :: "candidate_evaluation \<Rightarrow> plan_scan \<Rightarrow> plan_scan" where
  "scan_candidate c sc =
     (let sc = (if \<not> ce_eligible c \<and> failure_severity (ce_outcome c) < sc_best_severity sc
                then sc\<lparr>sc_best_severity := failure_severity (ce_outcome c), sc_best_failure := ce_outcome c\<rparr> else sc)
      in if ce_eligible c \<and> (\<not> sc_have_eligible sc \<or> ce_score_total c < sc_best_score sc)
         then sc\<lparr>sc_have_eligible := True, sc_best_score := ce_score_total c, sc_best_accelerator := ce_accelerator c\<rparr>
         else sc)"

definition scan_candidates :: "candidate_evaluation list \<Rightarrow> plan_scan" where
  "scan_candidates cs = fold scan_candidate cs scan_start"

datatype plan_step_kind =
    SK_ReserveCapacity | SK_BeginDrain | SK_AwaitDrainComplete | SK_ReconfigureLayout | SK_CreatePartition
  | SK_DestroyPartition | SK_VerifyPhysicalState | SK_CommitAuthority | SK_RollbackReservation | SK_Count

record plan_step =
  ps_index :: u32
  ps_kind :: plan_step_kind
  ps_accelerator :: accelerator_id
  ps_accelerator_generation :: generation
  ps_accelerator_boot :: boot_id
  ps_partition :: partition_id
  ps_profile :: profile_id
  ps_planned_index :: u32
  ps_destructive :: bool
  ps_requires_reset :: bool
  ps_estimated_duration_ms :: u64

text \<open>A step before it is numbered: kind, destructive, reset, estimate, planned index, partition.\<close>

type_synonym step_args = "plan_step_kind \<times> bool \<times> bool \<times> u64 \<times> u32 \<times> partition_id"

definition push_step :: "nat \<Rightarrow> plan_binding \<Rightarrow> profile_id \<Rightarrow> step_args \<Rightarrow> plan_step list \<Rightarrow> plan_step list" where
  "push_step limit b profile x steps =
     (if length steps \<ge> limit then steps
      else case x of (kind, destructive, reset, estimate, planned, p) \<Rightarrow>
        steps @ [\<lparr>ps_index = of_nat (length steps), ps_kind = kind, ps_accelerator = pb_accelerator b,
          ps_accelerator_generation = pb_accelerator_generation b, ps_accelerator_boot = pb_accelerator_boot b,
          ps_partition = p, ps_profile = profile, ps_planned_index = planned, ps_destructive = destructive,
          ps_requires_reset = reset, ps_estimated_duration_ms = estimate\<rparr>])"

definition push_steps :: "nat \<Rightarrow> plan_binding \<Rightarrow> profile_id \<Rightarrow> step_args list \<Rightarrow> plan_step list" where
  "push_steps limit b profile xs = fold (push_step limit b profile) xs []"

definition plan_step_args :: "partition_capability \<Rightarrow> plan_outcome \<Rightarrow> partition_id list \<Rightarrow> u32 \<Rightarrow> step_args list" where
  "plan_step_args c outc drains cnt =
     (let rebuild = outc = PO_FeasibleAfterReconfiguration;
          reset = rebuild \<and> cap_requires_reset_for_reconfiguration c;
          estimate = (if rebuild then cap_reconfiguration_estimate_ms c else 0)
      in [(SK_ReserveCapacity, False, False, 0, 0, 0)] @
         (if outc = PO_FeasibleAfterDrain \<or> rebuild
          then concat (map (\<lambda>p. [(SK_BeginDrain, False, False, cap_drain_estimate_ms c, 0, p),
                                 (SK_AwaitDrainComplete, False, False, cap_drain_estimate_ms c, 0, p)]) drains)
          else []) @
         (if rebuild then [(SK_ReconfigureLayout, True, cap_requires_reset_for_reconfiguration c,
                            cap_reconfiguration_estimate_ms c, 0, 0)] else []) @
         map (\<lambda>o'. (SK_CreatePartition, rebuild, reset, estimate, of_nat o', 0)) [0..<unat cnt] @
         [(SK_VerifyPhysicalState, False, False, 0, 0, 0), (SK_CommitAuthority, False, False, 0, 0, 0)])"

definition binding_default :: plan_binding where
  "binding_default =
     \<lparr>pb_accelerator = 0, pb_accelerator_generation = 0, pb_accelerator_boot = 0, pb_capability_generation = 0,
      pb_topology_generation = 0, pb_policy_generation = 0, pb_coordinator_epoch = 0, pb_state_generation = 0,
      pb_evidence_generation = 0, pb_planned_at_ms = 0, pb_valid_until_ms = 0, pb_layout = []\<rparr>"

definition planning_window :: "partition_request \<Rightarrow> u64 \<Rightarrow> fabric_state \<Rightarrow> u64" where
  "planning_window request now_ms s =
     (let window = (if rq_max_evidence_age_ms request \<noteq> 0 then rq_max_evidence_age_ms request
                    else pp_max_evidence_age_ms (fs_policy s))
      in if window = 0 then 0 else now_ms + window)"

text \<open>The plan before a device is chosen.\<close>

definition initial_binding :: "u64 \<Rightarrow> fabric_state \<Rightarrow> plan_binding" where
  "initial_binding now_ms s =
     binding_default\<lparr>pb_policy_generation := fs_policy_generation s, pb_coordinator_epoch := fs_coordinator_epoch s,
       pb_state_generation := fs_state_generation s, pb_planned_at_ms := now_ms\<rparr>"

definition initial_plan :: "partition_request \<Rightarrow> u64 \<Rightarrow> fabric_state \<Rightarrow> partition_plan" where
  "initial_plan request now_ms s =
     \<lparr>pl_id = 0, pl_generation = 0, pl_request = request, pl_outcome = PO_NoEligibleAccelerator,
      pl_binding = (initial_binding now_ms s)\<lparr>pb_valid_until_ms := planning_window request now_ms s\<rparr>,
      pl_planned_partitions = [], pl_created_at_ms = now_ms, pl_request_digest = request_digest request,
      pl_terminal = False\<rparr>"

definition bind_device :: "accelerator_record \<Rightarrow> plan_binding \<Rightarrow> plan_binding" where
  "bind_device acc b =
     b\<lparr>pb_accelerator_generation := ac_generation acc, pb_accelerator_boot := ac_boot_id acc,
       pb_capability_generation := cap_generation (ac_capability acc),
       pb_topology_generation := ac_topology_generation acc, pb_evidence_generation := es_generation (ac_evidence acc)\<rparr>"

definition planned_of :: "partition_profile \<Rightarrow> nat \<Rightarrow> planned_partition" where
  "planned_of profile n =
     \<lparr>pn_profile = pf_id profile, pn_profile_generation = pf_generation profile, pn_resources = pf_resources profile,
      pn_ordinal = of_nat n, pn_vendor_native_profile = pf_vendor_native profile\<rparr>"

text \<open>
  The plan on the chosen device. The code reads the device through a pointer it does not check;
  a chosen candidate comes from the registry, where a record is stored under its own identity.
\<close>

definition chosen_plan ::
  "fabric_state \<Rightarrow> partition_profile \<Rightarrow> candidate_evaluation \<Rightarrow> accelerator_record \<Rightarrow> partition_plan \<Rightarrow> partition_plan" where
  "chosen_plan s profile c acc plan =
     (let a = ce_accelerator c in
      plan\<lparr>pl_outcome := ce_outcome c,
           pl_binding := (bind_device acc (pl_binding plan))
             \<lparr>pb_accelerator := a,
              pb_layout := map (\<lambda>r. (pr_id r, pr_generation r))
                (filter (\<lambda>r. pr_accelerator r = a) (om_values (fs_partitions s)))\<rparr>,
           pl_planned_partitions := map (planned_of profile) [0..<unat (rq_count (pl_request plan))]\<rparr>)"

definition plan_candidates :: "partition_request \<Rightarrow> partition_profile \<Rightarrow> u64 \<Rightarrow> fabric_state \<Rightarrow> candidate_evaluation list" where
  "plan_candidates request profile now_ms s =
     map (evaluate_candidate s request profile now_ms
            (pp_require_fresh_evidence (fs_policy s) \<or> rq_max_evidence_age_ms request \<noteq> 0))
       (om_values (fs_accelerators s))"

definition build_plan ::
  "partition_request \<Rightarrow> u64 \<Rightarrow> fabric_state \<Rightarrow> partition_plan \<times> plan_step list \<times> candidate_evaluation list" where
  "build_plan request now_ms s =
     (let plan = initial_plan request now_ms s in
      case request_validate request (fs_limits s) of
        Inl e \<Rightarrow> (plan\<lparr>pl_outcome := (if e = E_LimitExceeded then PO_LimitExceeded else PO_InvalidRequest)\<rparr>, [], [])
      | Inr _ \<Rightarrow>
          (case find_profile (rq_profile request) s of
             None \<Rightarrow> (plan\<lparr>pl_outcome := PO_CapabilityUnknown\<rparr>, [], [])
           | Some profile \<Rightarrow>
               (let candidates = plan_candidates request profile now_ms s;
                    sc = scan_candidates candidates
                in if \<not> sc_have_eligible sc
                   then (plan\<lparr>pl_outcome := (if sc_best_severity sc = 2147483647 then PO_NoEligibleAccelerator
                                             else sc_best_failure sc),
                              pl_binding := binding_default\<rparr>, [], candidates)
                   else
                     (case (List.find (\<lambda>c. ce_accelerator c = sc_best_accelerator sc \<and> ce_eligible c) candidates,
                            find_accelerator (sc_best_accelerator sc) s) of
                        (Some c, Some acc) \<Rightarrow>
                          (let plan' = chosen_plan s profile c acc plan
                           in (plan', push_steps (max_plan_steps (fs_limits s)) (pl_binding plan') (pf_id profile)
                                 (plan_step_args (ac_capability acc) (ce_outcome c)
                                    (fr_partitions_to_drain (ce_fragmentation c)) (rq_count request)), candidates))
                      | _ \<Rightarrow> (plan, [], candidates)))))"

section \<open>The planning calls\<close>

definition plan_room :: "fabric_state \<Rightarrow> fabric_state \<times> status" where
  "plan_room s =
     (if length (fs_plans s) \<ge> max_pending_plans (fs_limits s)
      then (let s1 = prune_plans s in
            if length (fs_plans s1) \<ge> max_pending_plans (fs_limits s1) then (s1, failure E_LimitExceeded) else (s1, success))
      else (s, success))"

definition store_plan :: "partition_plan \<Rightarrow> explanation_code \<Rightarrow> fabric_state \<Rightarrow> fabric_state \<times> partition_plan result" where
  "store_plan plan c s =
     (case allocate (fs_ids s) of
        (a, Inl e) \<Rightarrow> (s\<lparr>fs_ids := a\<rparr>, Inl e)
      | (a, Inr i) \<Rightarrow>
          (let plan' = plan\<lparr>pl_id := i, pl_generation := gen_first\<rparr>
           in (record_event c (s\<lparr>fs_ids := a, fs_plans := om_set i plan' (fs_plans s)\<rparr>), Inr plan')))"

text \<open>\<^verbatim>\<open>plan\<close>: an identical request that is already planned against the current state is answered with that plan.\<close>

definition planned_already :: "u64 \<Rightarrow> u64 \<Rightarrow> fabric_state \<Rightarrow> partition_plan option" where
  "planned_already digest now_ms s =
     List.find (\<lambda>p. \<not> pl_terminal p \<and> pl_request_digest p = digest \<and>
                    pb_policy_generation (pl_binding p) = fs_policy_generation s \<and>
                    validate_plan_binding s p now_ms False = success) (om_values (fs_plans s))"

definition fabric_plan :: "partition_request \<Rightarrow> fabric_state \<Rightarrow> fabric_state \<times> partition_plan result" where
  "fabric_plan request s =
     (case check_open s of
        Inl e \<Rightarrow> (s, Inl e)
      | Inr _ \<Rightarrow>
          (case planned_already (request_digest request) (fs_now s) s of
             Some existing \<Rightarrow> (record_event EX_RejectedDuplicateRequest s, Inr existing)
           | None \<Rightarrow>
               (case plan_room s of
                  (s1, Inl e) \<Rightarrow> (s1, Inl e)
                | (s1, Inr _) \<Rightarrow>
                    (let p = fst (build_plan request (fs_now s1) s1)
                     in store_plan p (if plan_feasible p then EX_PlanFeasibleNow else EX_PlanNoEligibleAccelerator) s1))))"

definition plan_on :: "accelerator_id \<Rightarrow> partition_request \<Rightarrow> fabric_state \<Rightarrow> fabric_state \<times> partition_plan result" where
  "plan_on a request s =
     (case fabric_plan (request\<lparr>rq_selector := (rq_selector request)\<lparr>ds_allowed := [a], ds_excluded := []\<rparr>\<rparr>) s of
        (s1, Inl e) \<Rightarrow> (s1, Inl e)
      | (s1, Inr p) \<Rightarrow>
          if \<not> plan_feasible p \<and> pb_accelerator (pl_binding p) \<noteq> a then (s1, failure E_NotFound) else (s1, Inr p))"

section \<open>Reconfiguration plans\<close>

fun accumulate :: "planned_partition list \<Rightarrow> resource_vector \<Rightarrow> resource_vector result" where
  "accumulate [] out = Inr out"
| "accumulate (p # ps) out =
     (if rv_empty out then accumulate ps (pn_resources p)
      else case rv_add_assign out (pn_resources p) of
             (_, Inl e) \<Rightarrow> Inl e
           | (out', Inr _) \<Rightarrow> accumulate ps out')"

fun desired_conflicts :: "fabric_state \<Rightarrow> planned_partition list \<Rightarrow> bool" where
  "desired_conflicts s [] \<longleftrightarrow> False"
| "desired_conflicts s (p # ps) \<longleftrightarrow>
     (case find_profile (pn_profile p) s of
        None \<Rightarrow> False
      | Some left \<Rightarrow>
          (\<exists>q\<in>set ps. case find_profile (pn_profile q) s of
                        None \<Rightarrow> False
                      | Some right \<Rightarrow> conflicts_with left right)) \<or> desired_conflicts s ps"

text \<open>The loop over the target layout: an outcome that rejects the plan, or the slices it needs.\<close>

fun target_slices ::
  "fabric_state \<Rightarrow> accelerator_record \<Rightarrow> planned_partition list \<Rightarrow> u32 \<Rightarrow> u32 \<Rightarrow> plan_outcome + u32 \<times> u32" where
  "target_slices s acc [] compute memory = Inr (compute, memory)"
| "target_slices s acc (p # ps) compute memory =
     (case find_profile (pn_profile p) s of
        None \<Rightarrow> Inl PO_CapabilityUnknown
      | Some profile \<Rightarrow>
          if \<not> supports_profile (ac_capability acc) (pf_id profile) then Inl PO_CapabilityUnsupported
          else if pf_backend profile \<noteq> [] \<and> pf_backend profile \<noteq> ac_backend acc then Inl PO_PolicyRejected
          else if compute > UINT32_MAX - pf_compute_slice_count profile \<or> memory > UINT32_MAX - pf_memory_slice_count profile
          then Inl PO_LimitExceeded
          else target_slices s acc ps (compute + pf_compute_slice_count profile) (memory + pf_memory_slice_count profile))"

text \<open>The checks between the binding of the device and the binding of its layout; \<open>None\<close> when all pass.\<close>

definition reconfiguration_rejection ::
  "fabric_state \<Rightarrow> accelerator_record \<Rightarrow> capacity_ledger \<Rightarrow> planned_partition list \<Rightarrow> partition_request \<Rightarrow> plan_outcome option" where
  "reconfiguration_rejection s acc l desired ctx =
     (let c = ac_capability acc in
      if desired = [] then Some PO_InvalidRequest
      else if length desired > max_partitions_per_accelerator (fs_limits s) then Some PO_LimitExceeded
      else if \<not> declares_supported c then Some PO_CapabilityUnsupported
      else if cap_max_partition_count c > 0 \<and> length desired > unat (cap_max_partition_count c)
      then Some PO_MaxPartitionCountReached
      else if \<not> pp_allow_destructive_reconfiguration (fs_policy s) \<or> \<not> rq_allow_destructive_reconfiguration ctx
      then Some PO_PolicyRejected
      else
        (case target_slices s acc desired 0 0 of
           Inl outc \<Rightarrow> Some outc
         | Inr (compute, memory) \<Rightarrow>
             if desired_conflicts s desired then Some PO_Fragmented
             else if cap_total_compute_slices c > 0 \<and> compute > cap_total_compute_slices c then Some PO_PhysicallyImpossible
             else if cap_total_memory_slices c > 0 \<and> memory > cap_total_memory_slices c then Some PO_PhysicallyImpossible
             else
               (case accumulate desired rv_zeros of
                  Inl e \<Rightarrow> Some PO_LimitExceeded
                | Inr target \<Rightarrow>
                    (case rv_sub_assign (cl_total l) (ledger_bucket l Bucket_Unavailable) of
                       (_, Inl e) \<Rightarrow> Some PO_RevalidationRequired
                     | (usable, Inr _) \<Rightarrow> if \<not> is_subset_of target usable then Some PO_InsufficientCapacity else None))))"

definition reconfiguration_steps ::
  "fabric_state \<Rightarrow> partition_capability \<Rightarrow> partition_id list \<Rightarrow> nat \<Rightarrow> step_args list" where
  "reconfiguration_steps s c existing n =
     (let needs_drain = (\<lambda>p. case find_partition p s of
                               None \<Rightarrow> False | Some r \<Rightarrow> \<not> destructive_safe (pr_drain r));
          reset = cap_requires_reset_for_reconfiguration c
      in [(SK_ReserveCapacity, False, False, 0, 0, 0)] @
         concat (map (\<lambda>p. [(SK_BeginDrain, False, False, cap_drain_estimate_ms c, 0, p)] @
                          (if needs_drain p then [(SK_AwaitDrainComplete, False, False, cap_drain_estimate_ms c, 0, p)] else []) @
                          [(SK_DestroyPartition, True, False, 0, 0, p)]) existing) @
         [(SK_ReconfigureLayout, True, reset, cap_reconfiguration_estimate_ms c, 0, 0)] @
         map (\<lambda>o'. (SK_CreatePartition, True, reset, cap_reconfiguration_estimate_ms c, of_nat o', 0)) [0..<n] @
         [(SK_VerifyPhysicalState, False, False, 0, 0, 0), (SK_CommitAuthority, False, False, 0, 0, 0)])"

definition build_reconfiguration_plan ::
  "accelerator_id \<Rightarrow> planned_partition list \<Rightarrow> partition_request \<Rightarrow> u64 \<Rightarrow> fabric_state \<Rightarrow> partition_plan \<times> plan_step list" where
  "build_reconfiguration_plan a desired ctx now_ms s =
     (let request = ctx\<lparr>rq_count := of_nat (length desired)\<rparr>;
          plan = (initial_plan request now_ms s)
            \<lparr>pl_outcome := PO_FeasibleAfterReconfiguration, pl_planned_partitions := desired,
             pl_binding := (initial_binding now_ms s)\<lparr>pb_accelerator := a\<rparr>\<rparr>
      in case find_accelerator a s of
           None \<Rightarrow> (plan\<lparr>pl_outcome := PO_NoEligibleAccelerator\<rparr>, [])
         | Some acc \<Rightarrow>
             (case find_ledger a s of
                None \<Rightarrow> (plan\<lparr>pl_outcome := PO_RevalidationRequired\<rparr>, [])
              | Some l \<Rightarrow>
                  (let b = (bind_device acc (pl_binding plan))\<lparr>pb_valid_until_ms := planning_window ctx now_ms s\<rparr>;
                       existing = filter (layout_relevant a) (om_values (fs_partitions s));
                       b' = b\<lparr>pb_layout := map (\<lambda>r. (pr_id r, pr_generation r)) existing\<rparr>
                   in case reconfiguration_rejection s acc l desired ctx of
                        Some outc \<Rightarrow> (plan\<lparr>pl_binding := b, pl_outcome := outc\<rparr>, [])
                      | None \<Rightarrow>
                          (plan\<lparr>pl_binding := b'\<rparr>,
                           push_steps (max_plan_steps (fs_limits s)) b' (pn_profile (hd desired))
                             (reconfiguration_steps s (ac_capability acc) (sort (map pr_id existing)) (length desired))))))"

definition plan_reconfiguration ::
  "accelerator_id \<Rightarrow> planned_partition list \<Rightarrow> partition_request \<Rightarrow> fabric_state \<Rightarrow> fabric_state \<times> partition_plan result" where
  "plan_reconfiguration a desired ctx s =
     (case check_open s of
        Inl e \<Rightarrow> (s, Inl e)
      | Inr _ \<Rightarrow>
          (case plan_room s of
             (s1, Inl e) \<Rightarrow> (s1, Inl e)
           | (s1, Inr _) \<Rightarrow>
               store_plan (fst (build_reconfiguration_plan a desired ctx (fs_now s1) s1)) EX_ReconfigurationPlanned s1))"

end
