(* ===== verification/APF_Codec.thy ===== *)
theory APF_Codec
  imports APF_Text "HOL-Library.State_Monad"
begin

text \<open>
  The byte-level codec of \<^verbatim>\<open>codec.hpp\<close> and \<^verbatim>\<open>codec.cpp\<close>: \<^verbatim>\<open>ByteWriter\<close> and
  \<^verbatim>\<open>ByteReader\<close>, both with a bound and a sticky error. A writer operation is a function on the
  writer; a reader operation is a state-monad computation on the reader, so that a record decoder is
  written in the order of the reads, as in the code.

  The theory of codecs is compositional. \<open>encodes f P bs\<close> says exactly what a writer operation does:
  it appends the bytes \<open>bs\<close> if the value is encodable and the bound permits, and fails otherwise.
  \<open>reads d x bs\<close> says that a decoder consumes exactly \<open>bs\<close> and yields \<open>x\<close>. The locale \<open>wire_codec\<close> is the
  contract of a pair of routines for one record type: round trip, no read past the end, and failure is
  sticky. \<open>canonical_codec\<close> adds that whatever the decoder accepts is the encoding of what it returns.
\<close>

unbundle bit_operations_syntax

named_theorems codec_trip "round-trip rules of the primitive and record codecs"
named_theorems codec_safe "decoders never read past the end and never recover from an error"
named_theorems codec_only "decoders accept encodings only"

abbreviation kMaxTextBytes :: nat where "kMaxTextBytes \<equiv> 1048576"
abbreviation kMaxBlobBytes :: nat where "kMaxBlobBytes \<equiv> 1048576"
abbreviation kSmall :: nat where "kSmall \<equiv> 256"
abbreviation kLarge :: nat where "kLarge \<equiv> 2048"

section \<open>ByteWriter\<close>

record byte_writer =
  bw_bound :: nat
  bw_buffer :: "u8 list"
  bw_error :: "error_code option"

definition writer_start :: "nat option \<Rightarrow> byte_writer" where
  "writer_start max_frame =
     \<lparr>bw_bound = (case max_frame of Some n \<Rightarrow> n | None \<Rightarrow> 1048576), bw_buffer = [], bw_error = None\<rparr>"

definition bw_ok :: "byte_writer \<Rightarrow> bool" where
  "bw_ok w \<longleftrightarrow> bw_error w = None"

definition w_fail :: "error_code \<Rightarrow> byte_writer \<Rightarrow> byte_writer" where
  "w_fail e w = (if bw_ok w then w\<lparr>bw_error := Some e\<rparr> else w)"

text \<open>\<^verbatim>\<open>reserve_for\<close>: the growth of the capacity of the vector has no effect on its contents.\<close>

definition reserve_for :: "nat \<Rightarrow> byte_writer \<Rightarrow> byte_writer" where
  "reserve_for extra w =
     (if extra > bw_bound w \<or> length (bw_buffer w) > bw_bound w - extra then w_fail E_LimitExceeded w else w)"

definition w_u8 :: "u8 \<Rightarrow> byte_writer \<Rightarrow> byte_writer" where
  "w_u8 v w =
     (if \<not> bw_ok w then w
      else let w1 = reserve_for 1 w
           in if \<not> bw_ok w1 then w1 else w1\<lparr>bw_buffer := bw_buffer w1 @ [v]\<rparr>)"

definition w_u16 :: "u16 \<Rightarrow> byte_writer \<Rightarrow> byte_writer" where
  "w_u16 v w = w_u8 (ucast (drop_bit 8 v AND 0xFF)) (w_u8 (ucast (v AND 0xFF)) w)"

text \<open>The loop over \<^verbatim>\<open>shift\<close> of \<^verbatim>\<open>u32\<close> and \<^verbatim>\<open>u64\<close>.\<close>

fun w_le :: "nat \<Rightarrow> nat \<Rightarrow> 'a::len word \<Rightarrow> byte_writer \<Rightarrow> byte_writer" where
  "w_le 0 shift v w = w"
| "w_le (Suc n) shift v w = w_le n (shift + 8) v (w_u8 (ucast (drop_bit shift v AND 0xFF)) w)"

definition w_u32 :: "u32 \<Rightarrow> byte_writer \<Rightarrow> byte_writer" where
  "w_u32 = w_le 4 0"

definition w_u64 :: "u64 \<Rightarrow> byte_writer \<Rightarrow> byte_writer" where
  "w_u64 = w_le 8 0"

definition w_i64 :: "int \<Rightarrow> byte_writer \<Rightarrow> byte_writer" where
  "w_i64 v = w_u64 (word_of_int v)"

definition w_boolean :: "bool \<Rightarrow> byte_writer \<Rightarrow> byte_writer" where
  "w_boolean v = w_u8 (if v then 1 else 0)"

definition w_append :: "u8 list \<Rightarrow> byte_writer \<Rightarrow> byte_writer" where
  "w_append bs w =
     (let w1 = w_u32 (word_of_nat (length bs)) w
      in if \<not> bw_ok w1 then w1
         else let w2 = reserve_for (length bs) w1
              in if \<not> bw_ok w2 then w2 else w2\<lparr>bw_buffer := bw_buffer w2 @ bs\<rparr>)"

definition w_text :: "string \<Rightarrow> nat \<Rightarrow> byte_writer \<Rightarrow> byte_writer" where
  "w_text v max_len w =
     (if \<not> bw_ok w then w
      else if length v > max_len \<or> length v > kMaxTextBytes then w_fail E_LimitExceeded w
      else if \<not> is_valid_utf8 v then w_fail E_InvalidArgument w
      else w_append (map byte_of v) w)"

definition w_blob :: "u8 list \<Rightarrow> nat \<Rightarrow> byte_writer \<Rightarrow> byte_writer" where
  "w_blob v max_len w =
     (if \<not> bw_ok w then w
      else if length v > max_len \<or> length v > kMaxBlobBytes then w_fail E_LimitExceeded w
      else w_append v w)"

text \<open>A sequence of writer calls.\<close>

fun w_seq :: "(byte_writer \<Rightarrow> byte_writer) list \<Rightarrow> byte_writer \<Rightarrow> byte_writer" where
  "w_seq [] w = w"
| "w_seq (f # fs) w = w_seq fs (f w)"

text \<open>The pattern \<^verbatim>\<open>writer.u32(values.size()); for (value : values) encode(writer, value);\<close>\<close>

definition w_list :: "('a \<Rightarrow> byte_writer \<Rightarrow> byte_writer) \<Rightarrow> 'a list \<Rightarrow> byte_writer \<Rightarrow> byte_writer" where
  "w_list enc xs w = w_seq (map enc xs) (w_u32 (word_of_nat (length xs)) w)"

section \<open>ByteReader\<close>

record byte_reader =
  br_data :: "u8 list"
  br_offset :: nat
  br_error :: "error_code option"

type_synonym 'a decoder = "(byte_reader, 'a) state"

definition reader_start :: "u8 list \<Rightarrow> byte_reader" where
  "reader_start bs = \<lparr>br_data = bs, br_offset = 0, br_error = None\<rparr>"

definition br_ok :: "byte_reader \<Rightarrow> bool" where
  "br_ok r \<longleftrightarrow> br_error r = None"

definition remaining :: "byte_reader \<Rightarrow> nat" where
  "remaining r = length (br_data r) - br_offset r"

definition r_set_error :: "error_code \<Rightarrow> byte_reader \<Rightarrow> byte_reader" where
  "r_set_error e r = (if br_ok r then r\<lparr>br_error := Some e\<rparr> else r)"

definition r_fail :: "error_code \<Rightarrow> unit decoder" where
  "r_fail e = State (\<lambda>r. ((), r_set_error e r))"

definition r_ok :: "bool decoder" where
  "r_ok = State (\<lambda>r. (br_ok r, r))"

definition r_u8 :: "u8 decoder" where
  "r_u8 = State (\<lambda>r.
     if \<not> br_ok r then (0, r)
     else if br_offset r \<ge> length (br_data r) then (0, r_set_error E_ProtocolViolation r)
     else (br_data r ! br_offset r, r\<lparr>br_offset := br_offset r + 1\<rparr>))"

definition r_u16 :: "u16 decoder" where
  "r_u16 = do {
     low \<leftarrow> r_u8;
     high \<leftarrow> r_u8;
     State_Monad.return (ucast low OR push_bit 8 (ucast high)) }"

fun r_le :: "nat \<Rightarrow> nat \<Rightarrow> 'a::len word \<Rightarrow> 'a word decoder" where
  "r_le 0 shift v = State_Monad.return v"
| "r_le (Suc n) shift v = do {
     b \<leftarrow> r_u8;
     r_le n (shift + 8) (v OR push_bit shift (ucast b)) }"

definition r_u32 :: "u32 decoder" where
  "r_u32 = r_le 4 0 0"

definition r_u64 :: "u64 decoder" where
  "r_u64 = r_le 8 0 0"

definition r_i64 :: "int decoder" where
  "r_i64 = do { v \<leftarrow> r_u64; State_Monad.return (sint v) }"

definition r_boolean :: "bool decoder" where
  "r_boolean = do {
     raw \<leftarrow> r_u8;
     healthy \<leftarrow> r_ok;
     if \<not> healthy then State_Monad.return False
     else if raw > 1 then do { r_fail E_ProtocolViolation; State_Monad.return False }
     else State_Monad.return (raw = 1) }"

definition byte_char :: "u8 \<Rightarrow> char" where
  "byte_char b = char_of (unat b)"

text \<open>\<open>n\<close> bytes at the offset, consumed; the callers have checked that they remain.\<close>

definition r_take :: "nat \<Rightarrow> u8 list decoder" where
  "r_take n = State (\<lambda>r. (take n (drop (br_offset r) (br_data r)), r\<lparr>br_offset := br_offset r + n\<rparr>))"

text \<open>The common part of \<^verbatim>\<open>text\<close> and \<^verbatim>\<open>blob\<close>: the declared length and its two checks.\<close>

definition r_length :: "nat \<Rightarrow> nat \<Rightarrow> nat option decoder" where
  "r_length max_len hard_max = do {
     healthy \<leftarrow> r_ok;
     if \<not> healthy then State_Monad.return None
     else do {
       declared \<leftarrow> r_u32;
       r \<leftarrow> State_Monad.get;
       if \<not> br_ok r then State_Monad.return None
       else if unat declared > max_len \<or> unat declared > hard_max
       then do { r_fail E_LimitExceeded; State_Monad.return None }
       else if unat declared > remaining r
       then do { r_fail E_ProtocolViolation; State_Monad.return None }
       else State_Monad.return (Some (unat declared)) } }"

definition r_text :: "nat \<Rightarrow> string decoder" where
  "r_text max_len = do {
     declared \<leftarrow> r_length max_len kMaxTextBytes;
     (case declared of
        None \<Rightarrow> State_Monad.return []
      | Some n \<Rightarrow> do {
          bs \<leftarrow> r_take n;
          let out = map byte_char bs;
          if \<not> is_valid_utf8 out then do { r_fail E_InvalidArgument; State_Monad.return [] }
          else State_Monad.return out }) }"

definition r_blob :: "nat \<Rightarrow> u8 list decoder" where
  "r_blob max_len = do {
     declared \<leftarrow> r_length max_len kMaxBlobBytes;
     (case declared of None \<Rightarrow> State_Monad.return [] | Some n \<Rightarrow> r_take n) }"

fun r_elements :: "nat \<Rightarrow> 'a decoder \<Rightarrow> 'a list decoder" where
  "r_elements 0 dec = State_Monad.return []"
| "r_elements (Suc n) dec = do {
     healthy \<leftarrow> r_ok;
     if \<not> healthy then State_Monad.return []
     else do { x \<leftarrow> dec; xs \<leftarrow> r_elements n dec; State_Monad.return (x # xs) } }"

definition r_list :: "nat \<Rightarrow> nat \<Rightarrow> 'a decoder \<Rightarrow> 'a list decoder" where
  "r_list max_count min_element_bytes dec = do {
     declared \<leftarrow> r_u32;
     r \<leftarrow> State_Monad.get;
     if \<not> br_ok r then State_Monad.return []
     else if unat declared > max_count then do { r_fail E_LimitExceeded; State_Monad.return [] }
     else if min_element_bytes > 0 \<and> unat declared * min_element_bytes > remaining r
     then do { r_fail E_ProtocolViolation; State_Monad.return [] }
     else r_elements (unat declared) dec }"

text \<open>A loop of a fixed number of reads, and the check \<^verbatim>\<open>if (reader.ok()) { ... reader.fail(...) }\<close>.\<close>

fun r_times :: "nat \<Rightarrow> 'a decoder \<Rightarrow> 'a list decoder" where
  "r_times 0 dec = State_Monad.return []"
| "r_times (Suc n) dec = do { x \<leftarrow> dec; xs \<leftarrow> r_times n dec; State_Monad.return (x # xs) }"

definition r_check :: "'a \<Rightarrow> status \<Rightarrow> 'a decoder" where
  "r_check v st = do {
     healthy \<leftarrow> r_ok;
     if healthy
     then (case st of Inl e \<Rightarrow> do { r_fail e; State_Monad.return v } | Inr _ \<Rightarrow> State_Monad.return v)
     else State_Monad.return v }"

definition reader_finish :: "byte_reader \<Rightarrow> status" where
  "reader_finish r =
     (case br_error r of
        Some e \<Rightarrow> failure e
      | None \<Rightarrow> if br_offset r \<noteq> length (br_data r) then failure E_ProtocolViolation else success)"

section \<open>Enumerations\<close>

text \<open>
  An enumeration is given by the list of its enumerators in declaration order, so that
  \<^verbatim>\<open>static_cast\<close> is the position in the list.
\<close>

definition enum_index :: "'e list \<Rightarrow> 'e \<Rightarrow> nat" where
  "enum_index es v = length (takeWhile (\<lambda>e. e \<noteq> v) es)"

definition encode_enum :: "'e list \<Rightarrow> 'e \<Rightarrow> byte_writer \<Rightarrow> byte_writer" where
  "encode_enum es v = w_u8 (word_of_nat (enum_index es v))"

definition decode_enum :: "'e list \<Rightarrow> nat \<Rightarrow> 'e decoder" where
  "decode_enum es max_exclusive = do {
     raw \<leftarrow> r_u8;
     healthy \<leftarrow> r_ok;
     if healthy \<and> unat raw \<ge> max_exclusive
     then do { r_fail E_ProtocolViolation; State_Monad.return (es ! 0) }
     else State_Monad.return (es ! unat raw) }"

section \<open>What writer operations do\<close>

definition bw_wf :: "byte_writer \<Rightarrow> bool" where
  "bw_wf w \<longleftrightarrow> length (bw_buffer w) \<le> bw_bound w"

definition encodes :: "(byte_writer \<Rightarrow> byte_writer) \<Rightarrow> bool \<Rightarrow> u8 list \<Rightarrow> bool" where
  "encodes f P bs \<longleftrightarrow> (\<forall>w. bw_wf w \<longrightarrow>
     bw_bound (f w) = bw_bound w \<and> bw_wf (f w) \<and>
     (if \<not> bw_ok w then f w = w
      else if P \<and> length (bw_buffer w) + length bs \<le> bw_bound w
      then f w = w\<lparr>bw_buffer := bw_buffer w @ bs\<rparr>
      else \<not> bw_ok (f w)))"

lemma bw_ok_buffer [simp]: "bw_ok (w\<lparr>bw_buffer := b\<rparr>) = bw_ok w"
  by (simp add: bw_ok_def)

lemma w_fail_simps [simp]:
  "bw_bound (w_fail e w) = bw_bound w" "bw_buffer (w_fail e w) = bw_buffer w" "\<not> bw_ok (w_fail e w)"
  by (auto simp: w_fail_def bw_ok_def)

lemma reserve_for_cases:
  "reserve_for n w = (if length (bw_buffer w) + n \<le> bw_bound w then w else w_fail E_LimitExceeded w)"
  by (auto simp: reserve_for_def)

lemma encodes_u8: "encodes (w_u8 v) True [v]"
  by (auto simp: encodes_def bw_wf_def w_u8_def reserve_for_cases Let_def)

lemma encodes_comp:
  assumes f: "encodes f P as" and g: "encodes g Q bs"
  shows "encodes (\<lambda>w. g (f w)) (P \<and> Q) (as @ bs)"
  unfolding encodes_def
proof (intro allI impI)
  fix w assume "bw_wf w"
  note fw = f [unfolded encodes_def, rule_format, OF this]
  note gw = g [unfolded encodes_def, rule_format, of "f w"]
  show "bw_bound (g (f w)) = bw_bound w \<and> bw_wf (g (f w)) \<and>
       (if \<not> bw_ok w then g (f w) = w
        else if (P \<and> Q) \<and> length (bw_buffer w) + length (as @ bs) \<le> bw_bound w
        then g (f w) = w\<lparr>bw_buffer := bw_buffer w @ as @ bs\<rparr> else \<not> bw_ok (g (f w)))"
    using fw gw by (auto split: if_splits)
qed

lemma encodes_Nil: "encodes (w_seq []) True []"
  by (auto simp: encodes_def bw_wf_def)

lemma encodes_Cons:
  assumes "encodes f P as" "encodes (w_seq fs) Q bs"
  shows "encodes (w_seq (f # fs)) (P \<and> Q) (as @ bs)"
  using encodes_comp [OF assms] by (simp add: encodes_def)

definition le_bytes :: "nat \<Rightarrow> nat \<Rightarrow> 'a::len word \<Rightarrow> u8 list" where
  "le_bytes n shift v = map (\<lambda>k. ucast (drop_bit (shift + 8 * k) v AND 0xFF)) [0..<n]"

lemma length_le_bytes [simp]: "length (le_bytes n s v) = n"
  by (simp add: le_bytes_def)

lemma le_bytes_0 [simp]: "le_bytes 0 s v = []"
  by (simp add: le_bytes_def)

lemma le_bytes_Suc: "le_bytes (Suc n) s v = ucast (drop_bit s v AND 0xFF) # le_bytes n (s + 8) v"
proof -
  have "[0..<Suc n] = 0 # map Suc [0..<n]" by (simp only: map_Suc_upt upt_conv_Cons)
  then show ?thesis by (simp add: le_bytes_def o_def algebra_simps del: upt_Suc)
qed

lemma encodes_le: "encodes (w_le n s v) True (le_bytes n s v)"
proof (induction n arbitrary: s)
  case 0
  then show ?case by (auto simp: encodes_def bw_wf_def)
next
  case (Suc n)
  from encodes_comp [OF encodes_u8 [of "ucast (drop_bit s v AND 0xFF)"] Suc [of "s + 8"]]
  show ?case by (simp add: le_bytes_Suc)
qed

lemma encodes_append:
  assumes "length bs < 2 ^ 32"
  shows "encodes (w_append bs) True (le_bytes 4 0 (word_of_nat (length bs) :: u32) @ bs)"
proof -
  define g where "g w = (if \<not> bw_ok w then w
         else let w2 = reserve_for (length bs) w
              in if \<not> bw_ok w2 then w2 else w2\<lparr>bw_buffer := bw_buffer w2 @ bs\<rparr>)" for w
  have "encodes g True bs"
    by (auto simp: encodes_def bw_wf_def g_def reserve_for_cases Let_def)
  from encodes_comp [OF encodes_le this, of 4 0 "word_of_nat (length bs) :: u32"]
  show ?thesis
    by (simp add: g_def w_append_def [abs_def] w_u32_def Let_def)
qed

lemma encodes_guard:
  assumes "encodes f P bs" and "\<And>w. bw_ok w \<Longrightarrow> g w = (if Q then f w else w_fail (e w) w)"
    and "\<And>w. \<not> bw_ok w \<Longrightarrow> g w = w"
  shows "encodes g (Q \<and> P) bs"
  unfolding encodes_def
proof (intro allI impI)
  fix w assume wf: "bw_wf w"
  show "bw_bound (g w) = bw_bound w \<and> bw_wf (g w) \<and>
     (if \<not> bw_ok w then g w = w
      else if (Q \<and> P) \<and> length (bw_buffer w) + length bs \<le> bw_bound w
      then g w = w\<lparr>bw_buffer := bw_buffer w @ bs\<rparr> else \<not> bw_ok (g w))"
    using assms(1) [unfolded encodes_def, rule_format, OF wf] assms(2,3) [of w] wf
    by (cases "bw_ok w"; cases Q) (auto simp: bw_wf_def)
qed

lemma encodes_text:
  "encodes (w_text v n) (length v \<le> n \<and> length v \<le> kMaxTextBytes \<and> is_valid_utf8 v)
     (le_bytes 4 0 (word_of_nat (length v) :: u32) @ map byte_of v)"
proof (cases "length v \<le> kMaxTextBytes")
  case True
  then have "encodes (w_append (map byte_of v)) True (le_bytes 4 0 (word_of_nat (length v) :: u32) @ map byte_of v)"
    using encodes_append [of "map byte_of v"] by simp
  then have "encodes (w_text v n) ((length v \<le> n \<and> is_valid_utf8 v) \<and> True)
     (le_bytes 4 0 (word_of_nat (length v) :: u32) @ map byte_of v)"
    by (rule encodes_guard [where e = "\<lambda>_. if length v > n then E_LimitExceeded else E_InvalidArgument"])
      (use True in \<open>auto simp: w_text_def\<close>)
  then show ?thesis using True by simp
next
  case False
  then show ?thesis by (auto simp: encodes_def bw_wf_def w_text_def)
qed

lemma encodes_list:
  assumes "\<And>x. x \<in> set xs \<Longrightarrow> encodes (enc x) (P x) (bytes x)"
  shows "encodes (w_list enc xs) (\<forall>x\<in>set xs. P x)
           (le_bytes 4 0 (word_of_nat (length xs) :: u32) @ concat (map bytes xs))"
proof -
  have "encodes (w_seq (map enc xs)) (\<forall>x\<in>set xs. P x) (concat (map bytes xs))"
    using assms
  proof (induction xs)
    case (Cons x xs)
    then have "encodes (w_seq (enc x # map enc xs)) (P x \<and> (\<forall>x\<in>set xs. P x)) (bytes x @ concat (map bytes xs))"
      by (intro encodes_Cons) simp_all
    then show ?case by (simp only: list.map list.set ball_simps concat.simps)
  qed (use encodes_Nil in simp)
  from encodes_comp [OF encodes_le this, of 4 0 "word_of_nat (length xs) :: u32"]
  show ?thesis by (simp add: w_list_def [abs_def] w_u32_def)
qed

section \<open>What reader operations do\<close>

text \<open>The bytes between the offsets of two readers over the same data.\<close>

definition consumed :: "byte_reader \<Rightarrow> byte_reader \<Rightarrow> u8 list" where
  "consumed r r' = take (br_offset r' - br_offset r) (drop (br_offset r) (br_data r))"

definition upcoming :: "u8 list \<Rightarrow> byte_reader \<Rightarrow> bool" where
  "upcoming bs r \<longleftrightarrow> br_offset r + length bs \<le> length (br_data r) \<and>
     take (length bs) (drop (br_offset r) (br_data r)) = bs"

definition reads :: "'a decoder \<Rightarrow> 'a \<Rightarrow> u8 list \<Rightarrow> bool" where
  "reads d x bs \<longleftrightarrow> (\<forall>r. br_ok r \<longrightarrow> upcoming bs r \<longrightarrow>
     run_state d r = (x, r\<lparr>br_offset := br_offset r + length bs\<rparr>))"

definition safe_decoder :: "'a decoder \<Rightarrow> bool" where
  "safe_decoder d \<longleftrightarrow> (\<forall>r x r'. run_state d r = (x, r') \<longrightarrow>
     br_data r' = br_data r \<and> br_offset r \<le> br_offset r' \<and>
     (br_offset r \<le> length (br_data r) \<longrightarrow> br_offset r' \<le> length (br_data r)) \<and>
     (\<not> br_ok r \<longrightarrow> r' = r))"

definition accepts_only :: "'a decoder \<Rightarrow> ('a \<Rightarrow> u8 list \<Rightarrow> bool) \<Rightarrow> bool" where
  "accepts_only d R \<longleftrightarrow> (\<forall>r x r'. run_state d r = (x, r') \<longrightarrow> br_offset r \<le> length (br_data r) \<longrightarrow> br_ok r' \<longrightarrow>
     R x (consumed r r'))"

lemma br_ok_offset [simp]: "br_ok (r\<lparr>br_offset := n\<rparr>) = br_ok r"
  by (simp add: br_ok_def)

lemma r_set_error_simps [simp]:
  "br_data (r_set_error e r) = br_data r" "br_offset (r_set_error e r) = br_offset r" "\<not> br_ok (r_set_error e r)"
  by (auto simp: r_set_error_def br_ok_def)

lemma r_set_error_sticky [simp]: "\<not> br_ok r \<Longrightarrow> r_set_error e r = r"
  by (simp add: r_set_error_def)

lemma run_r_fail [simp]: "run_state (r_fail e) r = ((), r_set_error e r)"
  by (simp add: r_fail_def)

lemma run_r_ok [simp]: "run_state r_ok r = (br_ok r, r)"
  by (simp add: r_ok_def)

lemma upcoming_append: "upcoming (as @ bs) r \<longleftrightarrow> upcoming as r \<and> upcoming bs (r\<lparr>br_offset := br_offset r + length as\<rparr>)"
proof -
  have "take (length as + length bs) (drop (br_offset r) (br_data r)) =
        take (length as) (drop (br_offset r) (br_data r)) @ take (length bs) (drop (br_offset r + length as) (br_data r))"
    by (simp add: take_add add.commute)
  moreover have "length (take (length as) (drop (br_offset r) (br_data r))) = length as"
    if "br_offset r + length as \<le> length (br_data r)" using that by simp
  ultimately show ?thesis by (auto simp: upcoming_def)
qed

lemma upcoming_Cons: "upcoming (b # bs) r \<longleftrightarrow>
   br_offset r < length (br_data r) \<and> br_data r ! br_offset r = b \<and> upcoming bs (r\<lparr>br_offset := br_offset r + 1\<rparr>)"
proof -
  have "upcoming [b] r \<longleftrightarrow> br_offset r < length (br_data r) \<and> br_data r ! br_offset r = b"
    by (cases "br_offset r < length (br_data r)") (auto simp: upcoming_def take_Suc_conv_app_nth hd_drop_conv_nth take_Suc)
  with upcoming_append [of "[b]" bs r] show ?thesis by auto
qed

subsection \<open>Composition\<close>

lemma reads_return: "reads (State_Monad.return x) x []"
  by (simp add: reads_def)

lemma reads_bind: "reads d a as \<Longrightarrow> reads (k a) y bs \<Longrightarrow> reads (State_Monad.bind d k) y (as @ bs)"
  by (auto simp: reads_def upcoming_append add.assoc)

lemma safe_return [codec_safe]: "safe_decoder (State_Monad.return x)"
  by (simp add: safe_decoder_def)

lemma safe_bind [codec_safe]:
  assumes "safe_decoder d" "\<And>x. safe_decoder (k x)"
  shows "safe_decoder (State_Monad.bind d k)"
  unfolding safe_decoder_def
proof (intro allI impI)
  fix r y r' assume run: "run_state (State_Monad.bind d k) r = (y, r')"
  obtain x r1 where 1: "run_state d r = (x, r1)" by fastforce
  then have 2: "run_state (k x) r1 = (y, r')" using run by simp
  show "br_data r' = br_data r \<and> br_offset r \<le> br_offset r' \<and>
     (br_offset r \<le> length (br_data r) \<longrightarrow> br_offset r' \<le> length (br_data r)) \<and> (\<not> br_ok r \<longrightarrow> r' = r)"
    using assms(1) [unfolded safe_decoder_def, rule_format, OF 1]
      assms(2) [unfolded safe_decoder_def, rule_format, OF 2] by auto
qed

lemma safe_if [codec_safe]: "safe_decoder d \<Longrightarrow> safe_decoder e \<Longrightarrow> safe_decoder (if b then d else e)"
  by simp

lemma safe_option [codec_safe]:
  "safe_decoder d \<Longrightarrow> (\<And>x. safe_decoder (f x)) \<Longrightarrow> safe_decoder (case v of None \<Rightarrow> d | Some x \<Rightarrow> f x)"
  by (simp split: option.split)

lemma safe_sum [codec_safe]:
  "(\<And>x. safe_decoder (g x)) \<Longrightarrow> (\<And>x. safe_decoder (f x)) \<Longrightarrow> safe_decoder (case v of Inl x \<Rightarrow> g x | Inr x \<Rightarrow> f x)"
  by (simp split: sum.split)

lemma safe_fail [codec_safe]: "safe_decoder (r_fail e)"
  by (auto simp: safe_decoder_def)

lemma safe_ok [codec_safe]: "safe_decoder r_ok"
  by (simp add: safe_decoder_def)

lemma safe_get [codec_safe]: "safe_decoder State_Monad.get"
  by (simp add: safe_decoder_def)

lemma safe_u8 [codec_safe]: "safe_decoder r_u8"
  by (auto simp: safe_decoder_def r_u8_def split: if_splits)

text \<open>A healthy reader was healthy at every earlier point.\<close>

lemma safe_healthy: "safe_decoder d \<Longrightarrow> run_state d r = (x, r') \<Longrightarrow> br_ok r' \<Longrightarrow> br_ok r"
  unfolding safe_decoder_def by blast

lemma accepts_return: "accepts_only (State_Monad.return x) (\<lambda>y bs. y = x \<and> bs = [])"
  by (simp add: accepts_only_def consumed_def)

lemma accepts_bind:
  assumes d: "accepts_only d R" "safe_decoder d" and k: "\<And>x. accepts_only (k x) (S x)" "\<And>x. safe_decoder (k x)"
  shows "accepts_only (State_Monad.bind d k) (\<lambda>y bs. \<exists>x as cs. bs = as @ cs \<and> R x as \<and> S x y cs)"
  unfolding accepts_only_def
proof (intro allI impI)
  fix r y r' assume run: "run_state (State_Monad.bind d k) r = (y, r')" and off: "br_offset r \<le> length (br_data r)"
    and ok: "br_ok r'"
  obtain x r1 where 1: "run_state d r = (x, r1)" by fastforce
  then have 2: "run_state (k x) r1 = (y, r')" using run by simp
  note s1 = d(2) [unfolded safe_decoder_def, rule_format, OF 1]
  note s2 = k(2) [unfolded safe_decoder_def, rule_format, OF 2]
  have ok1: "br_ok r1" using safe_healthy [OF k(2) 2 ok] .
  have R: "R x (consumed r r1)" using d(1) 1 off ok1 by (simp add: accepts_only_def)
  have S: "S x y (consumed r1 r')" using k(1) [of x] 2 s1 off ok by (simp add: accepts_only_def)
  have "br_offset r' - br_offset r = (br_offset r1 - br_offset r) + (br_offset r' - br_offset r1)"
    using s1 s2 by simp
  then have "consumed r r' = consumed r r1 @
      take (br_offset r' - br_offset r1) (drop (br_offset r1 - br_offset r) (drop (br_offset r) (br_data r)))"
    by (simp only: consumed_def take_add)
  then have "consumed r r' = consumed r r1 @ consumed r1 r'"
    using s1 by (simp add: consumed_def)
  with R S show "\<exists>x as cs. consumed r r' = as @ cs \<and> R x as \<and> S x y cs" by blast
qed

lemma accepts_weaken: "accepts_only d R \<Longrightarrow> (\<And>x bs. R x bs \<Longrightarrow> R' x bs) \<Longrightarrow> accepts_only d R'"
  by (auto simp: accepts_only_def)

lemma accepts_if:
  "accepts_only d R \<Longrightarrow> accepts_only e R \<Longrightarrow> accepts_only (if b then d else e) R"
  by simp

text \<open>A branch that fails accepts nothing.\<close>

lemma accepts_fail: "accepts_only (do { r_fail e; State_Monad.return x }) R"
  by (simp add: accepts_only_def)

subsection \<open>Integers\<close>

lemma and_byte: "(v::'a::len word) AND 0xFF = take_bit 8 v"
  by (simp add: take_bit_eq_mask mask_eq_exp_minus_1)

lemma merge_byte:
  "take_bit s v OR push_bit s (ucast (ucast (drop_bit s v AND 0xFF) :: u8)) = take_bit (s + 8) (v::'a::len word)"
  by (rule bit_eqI) (auto simp: and_byte bit_simps)

lemma reads_u8: "reads r_u8 b [b]"
  by (auto simp: reads_def r_u8_def upcoming_Cons)

lemma reads_le: "reads (r_le n s (take_bit s v)) (take_bit (s + 8 * n) v) (le_bytes n s v)"
proof (induction n arbitrary: s)
  case 0
  then show ?case using reads_return by simp
next
  case (Suc n)
  let ?b = "ucast (drop_bit s v AND 0xFF) :: u8"
  have "reads (r_le n (s + 8) (take_bit s v OR push_bit s (ucast ?b))) (take_bit (s + 8 + 8 * n) v) (le_bytes n (s + 8) v)"
    unfolding merge_byte by (rule Suc)
  from reads_bind [where k = "\<lambda>b. r_le n (s + 8) (take_bit s v OR push_bit s (ucast b))", OF reads_u8 [of ?b] this]
  show ?case by (simp add: le_bytes_Suc algebra_simps)
qed

lemma reads_word:
  "8 * n = LENGTH('a) \<Longrightarrow> reads (r_le n 0 0) v (le_bytes n 0 (v::'a::len word))"
  using reads_le [of n 0 v] by simp

lemma safe_le [codec_safe]: "safe_decoder (r_le n s v)"
  by (induction n arbitrary: s v) (auto intro: codec_safe)

lemma accepts_u8: "accepts_only r_u8 (\<lambda>b bs. bs = [b])"
  by (auto simp: accepts_only_def r_u8_def consumed_def take_Suc_conv_app_nth take_Suc hd_drop_conv_nth split: if_splits)

lemma accepts_le:
  assumes "s + 8 * n \<le> LENGTH('a)" "take_bit s acc = (acc::'a::len word)"
  shows "accepts_only (r_le n s acc) (\<lambda>v bs. take_bit s v = acc \<and> bs = le_bytes n s v)"
  using assms
proof (induction n arbitrary: s acc)
  case 0
  then show ?case
    by (auto intro: accepts_weaken [OF accepts_return])
next
  case (Suc n)
  have IH: "accepts_only (r_le n (s + 8) (acc OR push_bit s (ucast b)))
       (\<lambda>v bs. take_bit (s + 8) v = acc OR push_bit s (ucast b) \<and> bs = le_bytes n (s + 8) v)" for b :: u8
  proof (rule Suc.IH)
    show "s + 8 + 8 * n \<le> LENGTH('a)" using Suc.prems(1) by simp
    show "take_bit (s + 8) (acc OR push_bit s (ucast b)) = acc OR push_bit s (ucast b)"
    proof (rule bit_word_eqI)
      fix i
      have "bit acc i \<Longrightarrow> i < s"
        using arg_cong [OF Suc.prems(2), of "\<lambda>x. bit x i"] by (auto simp: bit_take_bit_iff)
      moreover have "bit (ucast b :: 'a word) (i - s) \<Longrightarrow> i - s < 8" by (auto simp: bit_simps dest: bit_imp_le_length)
      ultimately show "bit (take_bit (s + 8) (acc OR push_bit s (ucast b))) i = bit (acc OR push_bit s (ucast b)) i"
        by (auto simp: bit_take_bit_iff bit_or_iff bit_push_bit_iff)
    qed
  qed
  show ?case
    unfolding r_le.simps
  proof (rule accepts_weaken [OF accepts_bind [OF accepts_u8 safe_u8 IH safe_le]])
    fix v bs assume "\<exists>b as cs. bs = as @ cs \<and> as = [b] \<and>
        take_bit (s + 8) v = acc OR push_bit s (ucast b) \<and> cs = le_bytes n (s + 8) v"
    then obtain b where b: "bs = b # le_bytes n (s + 8) v" "take_bit (s + 8) v = acc OR push_bit s (ucast (b::u8))"
      by auto
    have bits: "bit v i \<longleftrightarrow> bit acc i \<or> s \<le> i \<and> bit b (i - s)" if "i < s + 8" for i
      using arg_cong [OF b(2), of "\<lambda>x. bit x i"] that Suc.prems(1) by (auto simp: bit_simps)
    have low: "bit acc i \<Longrightarrow> i < s" for i
      using arg_cong [OF Suc.prems(2), of "\<lambda>x. bit x i"] by (auto simp: bit_simps)
    have "take_bit s v = acc"
    proof (rule bit_word_eqI)
      fix i
      have "i < s \<Longrightarrow> bit v i = bit acc i" using bits [of i] by simp
      then show "bit (take_bit s v) i = bit acc i" using low [of i] by (auto simp: bit_take_bit_iff)
    qed
    moreover have "ucast (drop_bit s v AND 0xFF) = b"
    proof (rule bit_word_eqI)
      fix i assume "i < LENGTH(8)"
      then have "i < 8" by simp
      moreover have "\<not> bit acc (s + i)" using low by fastforce
      ultimately show "bit (ucast (drop_bit s v AND 0xFF) :: u8) i = bit b i"
        using bits [of "s + i"] Suc.prems(1) by (simp add: bit_simps and_byte)
    qed
    ultimately show "take_bit s v = acc \<and> bs = le_bytes (Suc n) s v"
      using b(1) by (simp add: le_bytes_Suc)
  qed
qed

lemma accepts_word:
  "8 * n = LENGTH('a) \<Longrightarrow> accepts_only (r_le n 0 0) (\<lambda>v bs. bs = le_bytes n 0 (v::'a::len word))"
  by (rule accepts_weaken [OF accepts_le]) auto

lemma safe_u32 [codec_safe]: "safe_decoder r_u32"
  unfolding r_u32_def by (rule safe_le)

lemma safe_u64 [codec_safe]: "safe_decoder r_u64"
  unfolding r_u64_def by (rule safe_le)

lemma safe_i64 [codec_safe]: "safe_decoder r_i64"
  unfolding r_i64_def by (auto intro: codec_safe)

lemma safe_boolean [codec_safe]: "safe_decoder r_boolean"
  unfolding r_boolean_def by (auto intro!: codec_safe)

lemma safe_enum [codec_safe]: "safe_decoder (decode_enum es n)"
  unfolding decode_enum_def by (auto intro!: codec_safe)

subsection \<open>Booleans and enumerations\<close>

lemma reads_boolean: "reads r_boolean b [if b then 1 else 0]"
  unfolding reads_def
proof (intro allI impI)
  fix r assume r: "br_ok r" "upcoming [if b then 1 else 0] r"
  have "run_state r_u8 r = (if b then 1 else 0, r\<lparr>br_offset := br_offset r + 1\<rparr>)"
    using reads_u8 [of "if b then 1 else 0"] r by (simp add: reads_def)
  then show "run_state r_boolean r = (b, r\<lparr>br_offset := br_offset r + length [if b then 1 else 0]\<rparr>)"
    using r(1) by (simp add: r_boolean_def)
qed

lemma u8_le_1: "\<not> (b::u8) > 1 \<Longrightarrow> b = 0 \<or> b = 1"
  by (simp add: not_less word_le_nat_alt word_unat_eq_iff) linarith

lemma accepts_boolean: "accepts_only r_boolean (\<lambda>b bs. bs = [if b then 1 else 0])"
  unfolding r_boolean_def
proof (rule accepts_weaken [OF accepts_bind [OF accepts_u8 safe_u8]])
  show "accepts_only (do { healthy \<leftarrow> r_ok;
      if \<not> healthy then State_Monad.return False
      else if raw > 1 then do { r_fail E_ProtocolViolation; State_Monad.return False }
      else State_Monad.return (raw = 1) }) (\<lambda>b bs. raw \<le> 1 \<and> b = (raw = 1) \<and> bs = [])" for raw :: u8
    by (auto simp: accepts_only_def consumed_def)
qed (use u8_le_1 in \<open>auto intro!: codec_safe simp: not_less\<close>)

lemma enum_index_nth: "distinct es \<Longrightarrow> k < length es \<Longrightarrow> enum_index es (es ! k) = k"
proof (induction es arbitrary: k)
  case (Cons e es)
  then show ?case by (cases k) (auto simp: enum_index_def)
qed simp

lemma nth_enum_index: "enum_index es v < length es \<Longrightarrow> es ! enum_index es v = v"
  unfolding enum_index_def using nth_length_takeWhile by fastforce

lemma reads_enum:
  assumes "enum_index es v < n" "n \<le> length es" "length es \<le> 256"
  shows "reads (decode_enum es n) v [word_of_nat (enum_index es v)]"
  unfolding reads_def
proof (intro allI impI)
  let ?b = "word_of_nat (enum_index es v) :: u8"
  fix r assume r: "br_ok r" "upcoming [?b] r"
  have "run_state r_u8 r = (?b, r\<lparr>br_offset := br_offset r + 1\<rparr>)"
    using reads_u8 [of ?b] r by (simp add: reads_def)
  moreover have "unat ?b = enum_index es v" using assms by (simp add: unat_of_nat take_bit_nat_def)
  ultimately show "run_state (decode_enum es n) r = (v, r\<lparr>br_offset := br_offset r + length [?b]\<rparr>)"
    using r(1) assms by (simp add: decode_enum_def nth_enum_index)
qed

lemma accepts_enum:
  assumes "distinct es" "n \<le> length es" "length es \<le> 256"
  shows "accepts_only (decode_enum es n) (\<lambda>v bs. enum_index es v < n \<and> bs = [word_of_nat (enum_index es v)])"
  unfolding decode_enum_def
proof (rule accepts_weaken [OF accepts_bind [OF accepts_u8 safe_u8]])
  show "accepts_only (do { healthy \<leftarrow> r_ok;
      if healthy \<and> unat raw \<ge> n then do { r_fail E_ProtocolViolation; State_Monad.return (es ! 0) }
      else State_Monad.return (es ! unat raw) }) (\<lambda>v bs. unat raw < n \<and> v = es ! unat raw \<and> bs = [])" for raw :: u8
    by (auto simp: accepts_only_def consumed_def not_le)
  show "enum_index es v < n \<and> bs = [word_of_nat (enum_index es v)]"
    if "\<exists>raw as cs. bs = as @ cs \<and> as = [raw] \<and> unat raw < n \<and> v = es ! unat raw \<and> cs = []" for v bs
    using that enum_index_nth [OF assms(1)] assms(2) by fastforce
qed (auto intro!: codec_safe)

subsection \<open>Text\<close>

lemma byte_char_of [simp]: "byte_char (byte_of c) = c"
proof -
  have "unat (byte_of c) = of_char c" using byte_val_bound [of c] by (simp add: byte_of_val unat_of_nat take_bit_nat_def)
  then show ?thesis by (simp add: byte_char_def)
qed

lemma byte_of_char [simp]: "byte_of (byte_char b) = b"
proof -
  have "of_char (byte_char b) = unat b"
    using unsigned_less [of b, where ?'a = nat] by (simp add: byte_char_def)
  then show ?thesis by (simp add: byte_of_val)
qed

lemma safe_length_bound:
  "run_state (r_length m h) r = (Some n, r') \<Longrightarrow> n \<le> length (br_data r') - br_offset r'"
  by (auto simp: r_length_def remaining_def split: if_splits prod.splits)

lemma safe_length [codec_safe]: "safe_decoder (r_length m h)"
  unfolding r_length_def by (auto intro!: codec_safe)

lemma length_None: "run_state (r_length m h) r = (None, r') \<Longrightarrow> \<not> br_ok r'"
  by (auto simp: r_length_def split: if_splits prod.splits)

lemma length_Some:
  assumes "run_state (r_length m h) r = (Some n, r')" "br_offset r \<le> length (br_data r)"
  shows "br_ok r' \<and> n \<le> m \<and> n \<le> h \<and> n < 2 ^ 32 \<and> consumed r r' = le_bytes 4 0 (word_of_nat n :: u32)"
proof -
  obtain v r1 where v: "run_state r_u32 r = (v, r1)" by fastforce
  have h: "br_ok r1" "r' = r1" "n = unat v" "n \<le> m" "n \<le> h"
    using assms(1) v by (auto simp: r_length_def split: if_splits)
  have "consumed r r1 = le_bytes 4 0 v"
    using accepts_word [of 4, where ?'a = 32] v assms(2) h(1) by (simp add: r_u32_def accepts_only_def)
  then show ?thesis using h unsigned_less [of v, where ?'a = nat] by simp
qed

lemma safe_take_within:
  assumes "safe_decoder d" "\<And>r n r'. run_state d r = (Some n, r') \<Longrightarrow> n \<le> length (br_data r') - br_offset r'"
    and "\<And>r n r'. run_state d r = (Some n, r') \<Longrightarrow> br_ok r'"
    and "safe_decoder e" "\<And>bs. safe_decoder (k bs)"
  shows "safe_decoder (do { n \<leftarrow> d; (case n of None \<Rightarrow> e | Some n \<Rightarrow> State_Monad.bind (r_take n) k) })"
  unfolding safe_decoder_def
proof (intro allI impI)
  fix r x r'
  assume run: "run_state (do { n \<leftarrow> d; (case n of None \<Rightarrow> e | Some n \<Rightarrow> State_Monad.bind (r_take n) k) }) r = (x, r')"
  obtain v r1 where v: "run_state d r = (v, r1)" by fastforce
  note s = assms(1) [unfolded safe_decoder_def, rule_format, OF v]
  show "br_data r' = br_data r \<and> br_offset r \<le> br_offset r' \<and>
     (br_offset r \<le> length (br_data r) \<longrightarrow> br_offset r' \<le> length (br_data r)) \<and> (\<not> br_ok r \<longrightarrow> r' = r)"
  proof (cases v)
    case None
    then have "run_state e r1 = (x, r')" using run v by simp
    from assms(4) [unfolded safe_decoder_def, rule_format, OF this] s show ?thesis by auto
  next
    case (Some n)
    let ?r2 = "r1\<lparr>br_offset := br_offset r1 + n\<rparr>"
    have "run_state (k (take n (drop (br_offset r1) (br_data r1)))) ?r2 = (x, r')"
      using run v Some by (simp add: r_take_def)
    from assms(5) [unfolded safe_decoder_def, rule_format, OF this] s assms(2,3) v Some
    show ?thesis by fastforce
  qed
qed

lemma length_Some_ok: "run_state (r_length m h) r = (Some n, r') \<Longrightarrow> br_ok r'"
  by (auto simp: r_length_def split: if_splits prod.splits)

lemma safe_text [codec_safe]: "safe_decoder (r_text m)"
  unfolding r_text_def Let_def
  by (rule safe_take_within [OF safe_length safe_length_bound length_Some_ok]) (auto intro!: codec_safe)

lemma safe_blob [codec_safe]: "safe_decoder (r_blob m)"
proof -
  have "safe_decoder (do { n \<leftarrow> r_length m kMaxBlobBytes;
      (case n of None \<Rightarrow> State_Monad.return [] | Some n \<Rightarrow> State_Monad.bind (r_take n) State_Monad.return) })"
    by (rule safe_take_within [OF safe_length safe_length_bound length_Some_ok]) (auto intro!: codec_safe)
  then show ?thesis by (simp add: r_blob_def cong: option.case_cong)
qed

definition text_ok :: "nat \<Rightarrow> string \<Rightarrow> bool" where
  "text_ok m v \<longleftrightarrow> length v \<le> m \<and> length v \<le> kMaxTextBytes \<and> is_valid_utf8 v"

definition text_bytes :: "string \<Rightarrow> u8 list" where
  "text_bytes v = le_bytes 4 0 (word_of_nat (length v) :: u32) @ map byte_of v"

lemma reads_length:
  assumes "n \<le> m" "n \<le> h" "h < 2 ^ 32" "br_ok r" "upcoming (le_bytes 4 0 (word_of_nat n :: u32) @ bs) r" "n = length bs"
  shows "run_state (r_length m h) r = (Some n, r\<lparr>br_offset := br_offset r + 4\<rparr>) \<and> upcoming bs (r\<lparr>br_offset := br_offset r + 4\<rparr>)"
proof -
  have u: "upcoming (le_bytes 4 0 (word_of_nat n :: u32)) r" "upcoming bs (r\<lparr>br_offset := br_offset r + 4\<rparr>)"
    using assms(5) by (simp_all add: upcoming_append)
  have "run_state r_u32 r = (word_of_nat n, r\<lparr>br_offset := br_offset r + 4\<rparr>)"
    using reads_word [of 4 "word_of_nat n :: u32"] u(1) assms(4) by (simp add: reads_def r_u32_def)
  moreover have "unat (word_of_nat n :: u32) = n" using assms(2,3) by (simp add: unat_of_nat take_bit_nat_def)
  ultimately show ?thesis
    using u(2) assms by (auto simp: r_length_def remaining_def upcoming_def)
qed

lemma reads_text: "text_ok m v \<Longrightarrow> reads (r_text m) v (text_bytes v)"
  unfolding reads_def
proof (intro allI impI)
  fix r assume v: "text_ok m v" and r: "br_ok r" "upcoming (text_bytes v) r"
  have l: "run_state (r_length m kMaxTextBytes) r = (Some (length v), r\<lparr>br_offset := br_offset r + 4\<rparr>) \<and>
    upcoming (map byte_of v) (r\<lparr>br_offset := br_offset r + 4\<rparr>)"
    by (rule reads_length) (use v r in \<open>simp_all add: text_ok_def text_bytes_def\<close>)
  then have "take (length v) (drop (br_offset r + 4) (br_data r)) = map byte_of v"
    by (simp add: upcoming_def)
  then show "run_state (r_text m) r = (v, r\<lparr>br_offset := br_offset r + length (text_bytes v)\<rparr>)"
    using l v by (simp add: r_text_def r_take_def text_ok_def text_bytes_def o_def)
qed

lemma accepts_text: "accepts_only (r_text m) (\<lambda>v bs. text_ok m v \<and> bs = text_bytes v)"
  unfolding accepts_only_def
proof (intro allI impI)
  fix r v r' assume run: "run_state (r_text m) r = (v, r')" and off: "br_offset r \<le> length (br_data r)" and ok: "br_ok r'"
  obtain n r1 where l: "run_state (r_length m kMaxTextBytes) r = (n, r1)" by fastforce
  obtain k where k: "n = Some k"
  proof (cases n)
    case None
    with length_None [of m kMaxTextBytes r r1] l run ok show ?thesis by (simp add: r_text_def)
  qed
  let ?bs = "take k (drop (br_offset r1) (br_data r1))"
  have h: "is_valid_utf8 (map byte_char ?bs)" "v = map byte_char ?bs" "r' = r1\<lparr>br_offset := br_offset r1 + k\<rparr>"
    using run l k ok by (auto simp: r_text_def r_take_def Let_def split: if_splits)
  have len: "length ?bs = k" using safe_length_bound [of m kMaxTextBytes r k r1] l k by simp
  note ls = length_Some [of m kMaxTextBytes r k r1, OF _ off]
  have s: "br_data r1 = br_data r" "br_offset r \<le> br_offset r1"
    using safe_length [of m kMaxTextBytes, unfolded safe_decoder_def] l by auto
  have "br_offset r' - br_offset r = (br_offset r1 - br_offset r) + k" using h(3) s(2) by simp
  then have "consumed r r' = consumed r r1 @ take k (drop (br_offset r1 - br_offset r) (drop (br_offset r) (br_data r)))"
    by (simp only: consumed_def take_add)
  then have "consumed r r' = consumed r r1 @ ?bs" using s by simp
  then show "text_ok m v \<and> consumed r r' = text_bytes v"
    using ls l k h(1,2) len by (simp add: text_ok_def text_bytes_def o_def)
qed

subsection \<open>Lists\<close>

lemma safe_elements [codec_safe]: "safe_decoder dec \<Longrightarrow> safe_decoder (r_elements n dec)"
  by (induction n) (auto intro!: codec_safe)

lemma safe_list [codec_safe]: "safe_decoder dec \<Longrightarrow> safe_decoder (r_list m b dec)"
  unfolding r_list_def by (auto intro!: codec_safe)

lemma reads_elements:
  "list_all2 (reads dec) xs bss \<Longrightarrow> reads (r_elements (length xs) dec) xs (concat bss)"
proof (induction xs bss rule: list_all2_induct)
  case Nil
  then show ?case using reads_return by simp
next
  case (Cons x xs bs bss)
  have "reads (do { x \<leftarrow> dec; xs \<leftarrow> r_elements (length xs) dec; State_Monad.return (x # xs) }) (x # xs)
          (bs @ concat bss @ [])"
    by (rule reads_bind [where a = x], rule Cons, rule reads_bind [where a = xs], rule Cons, rule reads_return)
  then show ?case by (simp add: reads_def)
qed

lemma reads_list:
  assumes "list_all2 (reads dec) xs bss" "length xs \<le> m" "m < 2 ^ 32" "\<forall>bs\<in>set bss. b \<le> length bs"
  shows "reads (r_list m b dec) xs (le_bytes 4 0 (word_of_nat (length xs) :: u32) @ concat bss)"
  unfolding reads_def
proof (intro allI impI)
  let ?n = "word_of_nat (length xs) :: u32"
  fix r assume r: "br_ok r" "upcoming (le_bytes 4 0 ?n @ concat bss) r"
  let ?r1 = "r\<lparr>br_offset := br_offset r + 4\<rparr>"
  have u: "upcoming (le_bytes 4 0 ?n) r" "upcoming (concat bss) ?r1" using r(2) by (simp_all add: upcoming_append)
  have n: "run_state r_u32 r = (?n, ?r1)"
    using reads_word [of 4 ?n] u(1) r(1) by (simp add: reads_def r_u32_def)
  have len: "unat ?n = length xs" using assms(2,3) by (simp add: unat_of_nat take_bit_nat_def)
  have "length bss * b \<le> length (concat bss)"
    using assms(4) by (induction bss) auto
  then have "length xs * b \<le> length (concat bss)" using list_all2_lengthD [OF assms(1)] by simp
  moreover have "length (concat bss) \<le> remaining ?r1" using u(2) unfolding upcoming_def remaining_def by (simp, linarith)
  ultimately have fits: "\<not> length xs * b > remaining ?r1" by simp
  have "run_state (r_elements (length xs) dec) ?r1 = (xs, ?r1\<lparr>br_offset := br_offset ?r1 + length (concat bss)\<rparr>)"
    using reads_elements [OF assms(1)] u(2) r(1) by (simp add: reads_def)
  then show "run_state (r_list m b dec) r = (xs, r\<lparr>br_offset := br_offset r + length (le_bytes 4 0 ?n @ concat bss)\<rparr>)"
    using n len fits assms(2) r(1) by (simp add: r_list_def add.assoc)
qed

lemma accepts_elements:
  assumes "accepts_only dec R" "safe_decoder dec"
  shows "accepts_only (r_elements n dec) (\<lambda>xs bs. length xs = n \<and> (\<exists>bss. list_all2 R xs bss \<and> bs = concat bss))"
proof (induction n)
  case 0
  then show ?case by (auto intro: accepts_weaken [OF accepts_return])
next
  case (Suc n)
  have "accepts_only (do { x \<leftarrow> dec; xs \<leftarrow> r_elements n dec; State_Monad.return (x # xs) })
     (\<lambda>xs bs. length xs = Suc n \<and> (\<exists>bss. list_all2 R xs bss \<and> bs = concat bss))"
  proof (rule accepts_weaken [OF accepts_bind [OF assms accepts_bind [OF Suc _ accepts_return]]])
    fix ys bs
    assume "\<exists>x as cs. bs = as @ cs \<and> R x as \<and> (\<exists>xs as' cs'. cs = as' @ cs' \<and>
        (length xs = n \<and> (\<exists>bss. list_all2 R xs bss \<and> as' = concat bss)) \<and> ys = x # xs \<and> cs' = [])"
    then obtain x as xs bss where "bs = as @ concat bss" "R x as" "length xs = n" "list_all2 R xs bss" "ys = x # xs"
      by auto
    then show "length ys = Suc n \<and> (\<exists>bss. list_all2 R ys bss \<and> bs = concat bss)"
      by (intro conjI exI [of _ "as # bss"]) auto
  qed (intro codec_safe assms(2))+
  then show ?case by (auto simp: accepts_only_def)
qed

lemma accepts_list:
  assumes "accepts_only dec R" "safe_decoder dec"
  shows "accepts_only (r_list m b dec) (\<lambda>xs bs. length xs \<le> m \<and>
           (\<exists>bss. list_all2 R xs bss \<and> bs = le_bytes 4 0 (word_of_nat (length xs) :: u32) @ concat bss))"
  unfolding r_list_def
proof (rule accepts_weaken [OF accepts_bind])
  show "accepts_only r_u32 (\<lambda>v bs. bs = le_bytes 4 0 v)" unfolding r_u32_def by (rule accepts_word) simp
  show "accepts_only (do { r \<leftarrow> State_Monad.get;
     if \<not> br_ok r then State_Monad.return []
     else if unat declared > m then do { r_fail E_LimitExceeded; State_Monad.return [] }
     else if b > 0 \<and> unat declared * b > remaining r then do { r_fail E_ProtocolViolation; State_Monad.return [] }
     else r_elements (unat declared) dec })
     (\<lambda>xs bs. unat declared \<le> m \<and> length xs = unat declared \<and> (\<exists>bss. list_all2 R xs bss \<and> bs = concat bss))"
    for declared :: u32
    using accepts_elements [OF assms, of "unat declared"] by (auto simp: accepts_only_def)
qed (use assms in \<open>auto intro!: codec_safe\<close>)

section \<open>The contract of a record codec\<close>

definition trip :: "nat \<Rightarrow> (byte_writer \<Rightarrow> byte_writer) \<Rightarrow> 'a decoder \<Rightarrow> 'a \<Rightarrow> bool" where
  "trip n f d x \<longleftrightarrow> (\<exists>bs. n \<le> length bs \<and> encodes f True bs \<and> reads d x bs)"

lemma tripI: "n \<le> length bs \<Longrightarrow> encodes f True bs \<Longrightarrow> reads d x bs \<Longrightarrow> trip n f d x"
  unfolding trip_def by blast

lemma tripE:
  assumes "trip n f d x"
  obtains bs where "n \<le> length bs" "encodes f True bs" "reads d x bs"
  using assms unfolding trip_def by blast

lemma trip_return [codec_trip]: "x = y \<Longrightarrow> trip 0 (w_seq []) (State_Monad.return x) y"
  by (rule tripI [of 0 "[]"]) (use encodes_Nil reads_return in simp_all)

lemma trip_bind [codec_trip]:
  assumes "trip n f d a" "trip m (w_seq fs) (k a) y"
  shows "trip (n + m) (w_seq (f # fs)) (State_Monad.bind d k) y"
proof -
  obtain as where a: "n \<le> length as" "encodes f True as" "reads d a as" using assms(1) by (rule tripE)
  obtain bs where b: "m \<le> length bs" "encodes (w_seq fs) True bs" "reads (k a) y bs" using assms(2) by (rule tripE)
  show ?thesis
  proof (rule tripI)
    show "n + m \<le> length (as @ bs)" using a(1) b(1) by simp
    show "encodes (w_seq (f # fs)) True (as @ bs)" using encodes_Cons [OF a(2) b(2)] by simp
    show "reads (State_Monad.bind d k) y (as @ bs)" by (rule reads_bind) (rule a(3), rule b(3))
  qed
qed

lemma trip_weaken: "trip n f d x \<Longrightarrow> m \<le> n \<Longrightarrow> trip m f d x"
  unfolding trip_def using order_trans by blast

lemma trip_u32 [codec_trip]: "trip 4 (w_u32 v) r_u32 v"
  unfolding w_u32_def r_u32_def by (rule tripI [OF _ encodes_le reads_word]) simp_all

lemma trip_u64 [codec_trip]: "trip 8 (w_u64 v) r_u64 v"
  unfolding w_u64_def r_u64_def by (rule tripI [OF _ encodes_le reads_word]) simp_all

lemma trip_boolean [codec_trip]: "trip 1 (w_boolean v) r_boolean v"
  unfolding w_boolean_def by (rule tripI [OF _ encodes_u8 reads_boolean]) simp

lemma trip_i64:
  assumes "- (2 ^ 63) \<le> v" "v < 2 ^ 63"
  shows "trip 8 (w_i64 v) r_i64 v"
proof -
  obtain bs where b: "8 \<le> length bs" "encodes (w_i64 v) True bs" "reads r_u64 (word_of_int v) bs"
    using trip_u64 [of "word_of_int v"] unfolding w_i64_def by (rule tripE)
  have "sint (word_of_int v :: u64) = v"
    using assms by (simp add: sint_sbintrunc' signed_take_bit_int_eq_self)
  then have "reads r_i64 v (bs @ [])"
    unfolding r_i64_def using reads_return [of v] by (intro reads_bind [OF b(3)]) simp
  with b(1,2) show ?thesis by (intro tripI) simp_all
qed

lemma trip_text [codec_trip]: "text_ok m v \<Longrightarrow> trip 4 (w_text v m) (r_text m) v"
  using encodes_text [of v m] reads_text [of m v]
  by (intro tripI [of _ "text_bytes v"]) (simp_all add: text_ok_def text_bytes_def)

lemma trip_text_within: "text_ok m v \<Longrightarrow> m \<le> n \<Longrightarrow> trip 4 (w_text v n) (r_text m) v"
  using encodes_text [of v n] reads_text [of m v]
  by (intro tripI [of _ "text_bytes v"]) (auto simp: text_ok_def text_bytes_def)

lemma trip_enum [codec_trip]:
  "enum_index es v < n \<Longrightarrow> n \<le> length es \<Longrightarrow> length es \<le> 256 \<Longrightarrow> trip 1 (encode_enum es v) (decode_enum es n) v"
  unfolding encode_enum_def by (rule tripI [OF _ encodes_u8 reads_enum]) simp_all

lemma trip_list:
  assumes "\<And>x. x \<in> set xs \<Longrightarrow> trip b (enc x) dec x" "length xs \<le> m" "m < 2 ^ 32"
  shows "trip 4 (w_list enc xs) (r_list m b dec) xs"
proof -
  from assms(1) obtain f where f: "\<And>x. x \<in> set xs \<Longrightarrow> b \<le> length (f x) \<and> encodes (enc x) True (f x) \<and> reads dec x (f x)"
    unfolding trip_def by metis
  have "encodes (w_list enc xs) True (le_bytes 4 0 (word_of_nat (length xs) :: u32) @ concat (map f xs))"
    using encodes_list [of xs enc "\<lambda>_. True" f] f by simp
  moreover have "reads (r_list m b dec) xs (le_bytes 4 0 (word_of_nat (length xs) :: u32) @ concat (map f xs))"
    by (rule reads_list) (use f assms(2,3) in \<open>auto simp: list_all2_conv_all_nth\<close>)
  ultimately show ?thesis by (rule tripI [rotated]) simp
qed

subsection \<open>Accepted bytes are encodings\<close>

definition canon :: "('a \<Rightarrow> byte_writer \<Rightarrow> byte_writer) \<Rightarrow> 'a decoder \<Rightarrow> ('a \<Rightarrow> bool) \<Rightarrow> bool" where
  "canon enc dec valid \<longleftrightarrow> accepts_only dec (\<lambda>x bs. valid x \<and> encodes (enc x) True bs)"

lemma canonI: "accepts_only dec R \<Longrightarrow> (\<And>x bs. R x bs \<Longrightarrow> valid x \<and> encodes (enc x) True bs) \<Longrightarrow> canon enc dec valid"
  unfolding canon_def by (rule accepts_weaken)

lemma canon_u32 [codec_only]: "canon w_u32 r_u32 (\<lambda>_. True)"
  unfolding w_u32_def r_u32_def by (rule canonI [OF accepts_word]) (simp_all add: encodes_le)

lemma canon_u64 [codec_only]: "canon w_u64 r_u64 (\<lambda>_. True)"
  unfolding w_u64_def r_u64_def by (rule canonI [OF accepts_word]) (simp_all add: encodes_le)

lemma canon_boolean [codec_only]: "canon w_boolean r_boolean (\<lambda>_. True)"
  by (rule canonI [OF accepts_boolean]) (simp add: w_boolean_def encodes_u8)

lemma canon_text [codec_only]: "canon (\<lambda>v. w_text v m) (r_text m) (text_ok m)"
proof (rule canonI [OF accepts_text])
  fix v bs assume "text_ok m v \<and> bs = text_bytes v"
  then show "text_ok m v \<and> encodes (w_text v m) True bs"
    using encodes_text [of v m] by (simp add: text_ok_def text_bytes_def)
qed

lemma canon_enum [codec_only]:
  "distinct es \<Longrightarrow> n \<le> length es \<Longrightarrow> length es \<le> 256 \<Longrightarrow> canon (encode_enum es) (decode_enum es n) (\<lambda>v. enum_index es v < n)"
  by (rule canonI [OF accepts_enum]) (simp_all add: encode_enum_def encodes_u8)

lemma canon_list:
  assumes "canon enc dec valid" "safe_decoder dec"
  shows "canon (w_list enc) (r_list m b dec) (\<lambda>xs. length xs \<le> m \<and> (\<forall>x\<in>set xs. valid x))"
proof (rule canonI [OF accepts_list [OF assms(1) [unfolded canon_def] assms(2)]])
  fix xs bs
  assume "length xs \<le> m \<and> (\<exists>bss. list_all2 (\<lambda>x bs. valid x \<and> encodes (enc x) True bs) xs bss \<and>
     bs = le_bytes 4 0 (word_of_nat (length xs) :: u32) @ concat bss)"
  then obtain bss where h: "length xs \<le> m" "list_all2 (\<lambda>x bs. valid x \<and> encodes (enc x) True bs) xs bss"
    "bs = le_bytes 4 0 (word_of_nat (length xs) :: u32) @ concat bss" by blast
  have "encodes (w_seq (map enc xs)) True (concat bss) \<and> (\<forall>x\<in>set xs. valid x)"
    using h(2)
  proof (induction xs bss rule: list_all2_induct)
    case Nil
    then show ?case by (simp add: encodes_Nil del: w_seq.simps)
  next
    case (Cons x xs bs bss)
    then have "encodes (w_seq (enc x # map enc xs)) (True \<and> True) (bs @ concat bss)" by (intro encodes_Cons) simp_all
    with Cons.hyps Cons.IH show ?case by (auto simp only: list.map concat.simps list.set simp_thms)
  qed
  with encodes_comp [OF encodes_le, of "w_seq (map enc xs)" True "concat bss" 4 0 "word_of_nat (length xs) :: u32"] h(1,3)
  show "(length xs \<le> m \<and> (\<forall>x\<in>set xs. valid x)) \<and> encodes (w_list enc xs) True bs"
    by (simp add: w_list_def [abs_def] w_u32_def)
qed

text \<open>
  A record decoder is a sequence of field decoders; the record it returns is encoded by the same
  sequence of field encoders.
\<close>

definition sound :: "'a decoder \<Rightarrow> ('a \<Rightarrow> u8 list \<Rightarrow> bool) \<Rightarrow> bool" where
  "sound d R \<longleftrightarrow> accepts_only d R \<and> safe_decoder d"

lemma sound_return: "sound (State_Monad.return x) (\<lambda>y bs. y = x \<and> bs = [])"
  by (simp add: sound_def accepts_return safe_return)

lemma sound_bind:
  assumes "canon f d P" "safe_decoder d" "\<And>x. sound (k x) (S x)"
  shows "sound (State_Monad.bind d k)
           (\<lambda>y bs. \<exists>x as cs. bs = as @ cs \<and> (P x \<and> encodes (f x) True as) \<and> S x y cs)"
  using accepts_bind [OF assms(1) [unfolded canon_def] assms(2), of k S] assms(2,3)
  by (simp add: sound_def safe_bind)

lemma sound_check: "sound (r_check v st) (\<lambda>y bs. y = v \<and> st = success \<and> bs = [])"
  by (auto simp: sound_def r_check_def accepts_only_def consumed_def split: sum.split intro!: codec_safe)

lemma safe_check [codec_safe]: "safe_decoder (r_check v st)"
  using sound_check [of v st] by (simp add: sound_def)

lemma canon_sound:
  "sound dec R \<Longrightarrow> (\<And>x bs. R x bs \<Longrightarrow> valid x \<and> encodes (enc x) True bs) \<Longrightarrow> canon enc dec valid"
  unfolding sound_def by (blast intro: canonI)

lemma trip_check [codec_trip]: "st = success \<Longrightarrow> x = y \<Longrightarrow> trip 0 (w_seq []) (r_check x st) y"
  by (rule tripI [of 0 "[]"]) (use encodes_Nil in \<open>simp_all add: reads_def r_check_def\<close>)

lemma safe_times [codec_safe]: "safe_decoder dec \<Longrightarrow> safe_decoder (r_times n dec)"
  by (induction n) (auto intro!: codec_safe)

lemma trip_times:
  "length xs = n \<Longrightarrow> (\<And>x. x \<in> set xs \<Longrightarrow> trip b (enc x) dec x) \<Longrightarrow>
     trip (n * b) (w_seq (map enc xs)) (r_times n dec) xs"
proof (induction xs arbitrary: n)
  case Nil
  then show ?case using trip_return [of "[]" "[]"] by (simp del: w_seq.simps)
next
  case (Cons x xs)
  obtain m where n: "n = Suc m" "length xs = m" using Cons.prems(1) by auto
  obtain as where a: "b \<le> length as" "encodes (enc x) True as" "reads dec x as"
    using Cons.prems(2) [of x] by (auto elim: tripE)
  obtain bs where c: "m * b \<le> length bs" "encodes (w_seq (map enc xs)) True bs" "reads (r_times m dec) xs bs"
    using Cons.IH [OF n(2)] Cons.prems(2) by (auto elim: tripE)
  have "reads (do { x \<leftarrow> dec; xs \<leftarrow> r_times m dec; State_Monad.return (x # xs) }) (x # xs) (as @ bs @ [])"
    by (rule reads_bind [where a = x], rule a, rule reads_bind [where a = xs], rule c, rule reads_return)
  then show ?case
    using a c encodes_Cons [OF a(2) c(2)] by (intro tripI [of _ "as @ bs"]) (simp_all add: n del: w_seq.simps)
qed

lemma canon_times:
  assumes "canon enc dec valid" "safe_decoder dec"
  shows "canon (\<lambda>xs. w_seq (map enc xs)) (r_times n dec) (\<lambda>xs. length xs = n \<and> (\<forall>x\<in>set xs. valid x))"
proof (induction n)
  case 0
  show ?case
    unfolding r_times.simps
    by (rule canon_sound [OF sound_return]) (use encodes_Nil in \<open>simp del: w_seq.simps\<close>)
next
  case (Suc n)
  show ?case
    unfolding r_times.simps
  proof (rule canon_sound [OF sound_bind [OF assms sound_bind [OF Suc safe_times [OF assms(2)] sound_return]]])
    fix ys bs
    assume "\<exists>x as cs. bs = as @ cs \<and> (valid x \<and> encodes (enc x) True as) \<and>
      (\<exists>xs as' cs'. cs = as' @ cs' \<and> ((length xs = n \<and> (\<forall>x\<in>set xs. valid x)) \<and>
         encodes (w_seq (map enc xs)) True as') \<and> ys = x # xs \<and> cs' = [])"
    then obtain x as xs cs where "bs = as @ cs" "valid x" "encodes (enc x) True as" "length xs = n"
      "\<forall>x\<in>set xs. valid x" "encodes (w_seq (map enc xs)) True cs" "ys = x # xs" by auto
    then show "(length ys = Suc n \<and> (\<forall>x\<in>set ys. valid x)) \<and> encodes (w_seq (map enc ys)) True bs"
      using encodes_Cons [of "enc x" True as "map enc xs" True cs] by (simp del: w_seq.simps)
  qed
qed

lemma canon_i64: "canon w_i64 r_i64 (\<lambda>v. - (2 ^ 63) \<le> v \<and> v < 2 ^ 63)"
  unfolding r_i64_def
proof (rule canon_sound [OF sound_bind [OF canon_u64 safe_u64 sound_return]])
  fix v bs
  assume "\<exists>x as cs. bs = as @ cs \<and> (True \<and> encodes (w_u64 x) True as) \<and> v = sint x \<and> cs = []"
  then obtain x where x: "encodes (w_u64 x) True bs" "v = sint x" by auto
  then show "(- (2 ^ 63) \<le> v \<and> v < 2 ^ 63) \<and> encodes (w_i64 v) True bs"
    using sint_greater_eq [of x] sint_less [of x] by (simp add: w_i64_def)
qed

lemma encodes_seq:
  "encodes f True as \<Longrightarrow> encodes (w_seq fs) True bs \<Longrightarrow> encodes (w_seq (f # fs)) True (as @ bs)"
  using encodes_Cons [of f True as fs True bs] by simp

section \<open>Interfaces\<close>

locale safe_routine =
  fixes dec :: "'a decoder"
  assumes dec_safe: "safe_decoder dec"
begin

lemma within_bounds:
  "run_state dec (reader_start bs) = (x, r) \<Longrightarrow> br_offset r \<le> length bs \<and> br_data r = bs"
  using dec_safe by (force simp: safe_decoder_def reader_start_def)

lemma error_sticky: "\<not> br_ok r \<Longrightarrow> snd (run_state dec r) = r"
  using dec_safe unfolding safe_decoder_def by (metis prod.collapse)

end

locale wire_codec = safe_routine dec for dec :: "'a decoder" +
  fixes enc :: "'a \<Rightarrow> byte_writer \<Rightarrow> byte_writer" and valid :: "'a \<Rightarrow> bool" and least :: nat
  assumes enc_dec: "valid x \<Longrightarrow> trip least (enc x) dec x"
begin

lemma enc_outcome:
  assumes "valid x"
  obtains bs where "least \<le> length bs"
    "\<And>b. enc x (writer_start (Some b)) =
       (if length bs \<le> b then \<lparr>bw_bound = b, bw_buffer = bs, bw_error = None\<rparr> else enc x (writer_start (Some b)))"
    "\<And>b. bw_ok (enc x (writer_start (Some b))) \<longleftrightarrow> length bs \<le> b"
    "\<And>rest. run_state dec (reader_start (bs @ rest)) = (x, \<lparr>br_data = bs @ rest, br_offset = length bs, br_error = None\<rparr>)"
proof -
  obtain bs where b: "least \<le> length bs" "encodes (enc x) True bs" "reads dec x bs"
    using enc_dec [OF assms] by (rule tripE)
  show ?thesis
  proof (rule that [OF b(1)])
    fix c
    have w: "bw_wf (writer_start (Some c))" "bw_ok (writer_start (Some c))"
      by (simp_all add: bw_wf_def bw_ok_def writer_start_def)
    note e = b(2) [unfolded encodes_def, rule_format, OF w(1)]
    show "enc x (writer_start (Some c)) =
       (if length bs \<le> c then \<lparr>bw_bound = c, bw_buffer = bs, bw_error = None\<rparr> else enc x (writer_start (Some c)))"
    proof (cases "length bs \<le> c")
      case True
      then have "enc x (writer_start (Some c)) = (writer_start (Some c))\<lparr>bw_buffer := bs\<rparr>"
        using e w(2) by (simp add: writer_start_def split: if_splits)
      with True show ?thesis by (simp add: writer_start_def)
    qed simp
    show "bw_ok (enc x (writer_start (Some c))) \<longleftrightarrow> length bs \<le> c"
      using e w(2) by (cases "length bs \<le> c") (simp_all add: writer_start_def bw_ok_def split: if_splits)
  next
    fix rest
    show "run_state dec (reader_start (bs @ rest)) = (x, \<lparr>br_data = bs @ rest, br_offset = length bs, br_error = None\<rparr>)"
      using b(3) by (simp add: reads_def reader_start_def upcoming_def br_ok_def)
  qed
qed

lemma roundtrip:
  assumes "valid x" "bw_ok (enc x (writer_start (Some b)))"
  shows "\<exists>r. run_state dec (reader_start (bw_buffer (enc x (writer_start (Some b))))) = (x, r) \<and> reader_finish r = success"
proof -
  obtain bs where "\<And>b. enc x (writer_start (Some b)) =
       (if length bs \<le> b then \<lparr>bw_bound = b, bw_buffer = bs, bw_error = None\<rparr> else enc x (writer_start (Some b)))"
    "\<And>b. bw_ok (enc x (writer_start (Some b))) \<longleftrightarrow> length bs \<le> b"
    "\<And>rest. run_state dec (reader_start (bs @ rest)) = (x, \<lparr>br_data = bs @ rest, br_offset = length bs, br_error = None\<rparr>)"
    using enc_outcome [OF assms(1)] by metis
  from this(1) [of b] this(2) [of b] this(3) [of "[]"] assms(2) show ?thesis
    by (simp add: reader_finish_def)
qed

lemma fits: "valid x \<Longrightarrow> \<exists>b. bw_ok (enc x (writer_start (Some b)))"
  by (erule enc_outcome) blast

lemma unambiguous:
  assumes "valid x" "valid y" "bw_ok (enc x (writer_start (Some b)))" "bw_ok (enc y (writer_start (Some b)))"
    and "bw_buffer (enc x (writer_start (Some b))) @ s = bw_buffer (enc y (writer_start (Some b))) @ t"
  shows "x = y \<and> s = t"
proof -
  obtain as where x: "\<And>b. enc x (writer_start (Some b)) =
       (if length as \<le> b then \<lparr>bw_bound = b, bw_buffer = as, bw_error = None\<rparr> else enc x (writer_start (Some b)))"
    "\<And>b. bw_ok (enc x (writer_start (Some b))) \<longleftrightarrow> length as \<le> b"
    "\<And>rest. run_state dec (reader_start (as @ rest)) = (x, \<lparr>br_data = as @ rest, br_offset = length as, br_error = None\<rparr>)"
    using enc_outcome [OF assms(1)] by metis
  obtain bs where y: "\<And>b. enc y (writer_start (Some b)) =
       (if length bs \<le> b then \<lparr>bw_bound = b, bw_buffer = bs, bw_error = None\<rparr> else enc y (writer_start (Some b)))"
    "\<And>b. bw_ok (enc y (writer_start (Some b))) \<longleftrightarrow> length bs \<le> b"
    "\<And>rest. run_state dec (reader_start (bs @ rest)) = (y, \<lparr>br_data = bs @ rest, br_offset = length bs, br_error = None\<rparr>)"
    using enc_outcome [OF assms(2)] by metis
  have "as @ s = bs @ t"
    using assms(3-5) x(1,2) [of b] y(1,2) [of b] by simp
  with x(3) [of s] y(3) [of t] show ?thesis by (auto simp: append_eq_append_conv)
qed

end

locale canonical_codec = wire_codec +
  assumes accepts: "canon enc dec valid"
begin

lemma reencode:
  assumes "run_state dec (reader_start bs) = (x, r)" "reader_finish r = success" "length bs \<le> b"
  shows "valid x \<and> enc x (writer_start (Some b)) = \<lparr>bw_bound = b, bw_buffer = bs, bw_error = None\<rparr>"
proof -
  have r: "br_ok r" "br_offset r = length (br_data r)"
    using assms(2) by (auto simp: reader_finish_def br_ok_def split: option.splits if_splits)
  have d: "br_data r = bs" using within_bounds [OF assms(1)] by simp
  have "valid x \<and> encodes (enc x) True (consumed (reader_start bs) r)"
    using accepts assms(1) r(1) by (simp add: canon_def accepts_only_def reader_start_def)
  moreover have "consumed (reader_start bs) r = bs" using r(2) d by (simp add: consumed_def reader_start_def)
  ultimately have "valid x" "encodes (enc x) True bs" by simp_all
  moreover have "bw_wf (writer_start (Some b))" "bw_ok (writer_start (Some b))"
    by (simp_all add: bw_wf_def bw_ok_def writer_start_def)
  ultimately show ?thesis using assms(3) by (simp add: encodes_def writer_start_def)
qed

end

end
