(* ===== verification/APF_Records.thy ===== *)
theory APF_Records
  imports APF_Codec APF_State
begin

text \<open>
  The record codecs of \<^verbatim>\<open>codec.cpp\<close>, one encoder and one decoder per record type, field by field in
  the order of the code. Each pair is shown to satisfy the codec contract: every value that passes
  the validity predicate of its type (text within its bound and valid UTF-8, enumerators in range,
  lists within the count the decoder accepts) is decoded to itself, no decoder reads past the end of
  its input, and, for every type except those that contain the truncated NUMA node, the decoder
  accepts nothing but encodings. A record whose diagnostic texts are not part of the model travels
  as a tuple with those texts.
\<close>

section \<open>Enumerations\<close>

definition provenance_enum :: "evidence_provenance list" where
  "provenance_enum = [Provenance_Unknown, Provenance_Real, Provenance_Synthetic, Provenance_Unsupported]"

definition mechanism_enum :: "partition_mechanism list" where
  "mechanism_enum = [Mechanism_None, Mechanism_Mig, Mechanism_SrIov, Mechanism_MediatedDevice,
     Mechanism_VendorSlice, Mechanism_Synthetic, Mechanism_Count]"

definition grouping_enum :: "engine_grouping list" where
  "grouping_enum = [Grouping_None, Grouping_Shared, Grouping_Dedicated, Grouping_Count]"

definition support_enum :: "partition_support_state list" where
  "support_enum = [Support_Unknown, Support_Supported, Support_Unsupported, Support_Unavailable]"

definition dimension_enum :: "resource_dimension list" where
  "dimension_enum = [ComputeShare, MemoryBytes, MemoryBandwidthShare, ExecutionEngineShare,
     CopyEngineShare, MediaEngineShare, CacheShare, DmaShare, Dimension_Count]"

definition health_enum :: "health_state list" where
  "health_enum = [Health_Unknown, Health_Healthy, Health_Degraded, Health_Unhealthy, Health_Recovering]"

definition assignment_enum :: "assignment_state list" where
  "assignment_enum = [AS_Unassigned, AS_Reserved, AS_Assigned, AS_Releasing, AS_Count]"

definition drain_enum :: "drain_state list" where
  "drain_enum = [DS_NotDraining, DS_Draining, DS_DrainComplete, DS_DrainBlocked, DS_Count]"

definition lifecycle_enum :: "reservation_lifecycle list" where
  "lifecycle_enum = [RL_Pending, RL_Active, RL_Committed, RL_Released, RL_RolledBack, RL_Expired,
     RL_Fenced, RL_Failed, RL_Count]"

definition attempt_kind_enum :: "attempt_kind list" where
  "attempt_kind_enum = [AK_CreatePartition, AK_DestroyPartition, AK_ReconfigureLayout, AK_Count]"

definition attempt_state_enum :: "attempt_state list" where
  "attempt_state_enum = [AT_Registered, AT_Dispatched, AT_Succeeded, AT_Failed, AT_OutcomeUnknown,
     AT_Reconciled, AT_Count]"

definition partition_state_enum :: "partition_state list" where
  "partition_state_enum = [PS_Discovered, PS_Unpartitioned, PS_PlanPending, PS_Reserved, PS_Creating,
     PS_Active, PS_Draining, PS_ReconfigurationRequired, PS_Destroying, PS_RevalidationRequired,
     PS_Degraded, PS_Offline, PS_Retired, PS_Failed, PS_Count]"

definition bucket_enum :: "capacity_bucket list" where
  "bucket_enum = [Bucket_Unavailable, Bucket_Free, Bucket_Reserved, Bucket_Active, Bucket_Draining,
     Bucket_ReconfigurationHeld, Bucket_Count]"

lemmas enum_defs = provenance_enum_def mechanism_enum_def grouping_enum_def support_enum_def
  dimension_enum_def health_enum_def assignment_enum_def drain_enum_def lifecycle_enum_def
  attempt_kind_enum_def attempt_state_enum_def partition_state_enum_def bucket_enum_def

lemma enum_sizes:
  "length provenance_enum = 4" "length mechanism_enum = 7" "length grouping_enum = 4"
  "length support_enum = 4" "length dimension_enum = 9" "length health_enum = 5"
  "length assignment_enum = 5" "length drain_enum = 5" "length lifecycle_enum = 9"
  "length attempt_kind_enum = 4" "length attempt_state_enum = 7" "length partition_state_enum = 15"
  "length bucket_enum = 7"
  by (simp_all add: enum_defs)

lemma enum_distinct:
  "distinct provenance_enum" "distinct mechanism_enum" "distinct grouping_enum"
  "distinct support_enum" "distinct dimension_enum" "distinct health_enum"
  "distinct assignment_enum" "distinct drain_enum" "distinct lifecycle_enum"
  "distinct attempt_kind_enum" "distinct attempt_state_enum" "distinct partition_state_enum"
  "distinct bucket_enum"
  by (simp_all add: enum_defs)

lemma enum_canons [codec_only]:
  "canon (encode_enum provenance_enum) (decode_enum provenance_enum 4) (\<lambda>v. enum_index provenance_enum v < 4)"
  "canon (encode_enum mechanism_enum) (decode_enum mechanism_enum 6) (\<lambda>v. enum_index mechanism_enum v < 6)"
  "canon (encode_enum grouping_enum) (decode_enum grouping_enum 3) (\<lambda>v. enum_index grouping_enum v < 3)"
  "canon (encode_enum support_enum) (decode_enum support_enum 4) (\<lambda>v. enum_index support_enum v < 4)"
  "canon (encode_enum dimension_enum) (decode_enum dimension_enum 8) (\<lambda>v. enum_index dimension_enum v < 8)"
  "canon (encode_enum health_enum) (decode_enum health_enum 5) (\<lambda>v. enum_index health_enum v < 5)"
  "canon (encode_enum assignment_enum) (decode_enum assignment_enum 4) (\<lambda>v. enum_index assignment_enum v < 4)"
  "canon (encode_enum drain_enum) (decode_enum drain_enum 4) (\<lambda>v. enum_index drain_enum v < 4)"
  "canon (encode_enum lifecycle_enum) (decode_enum lifecycle_enum 8) (\<lambda>v. enum_index lifecycle_enum v < 8)"
  "canon (encode_enum attempt_kind_enum) (decode_enum attempt_kind_enum 3) (\<lambda>v. enum_index attempt_kind_enum v < 3)"
  "canon (encode_enum attempt_state_enum) (decode_enum attempt_state_enum 6) (\<lambda>v. enum_index attempt_state_enum v < 6)"
  "canon (encode_enum partition_state_enum) (decode_enum partition_state_enum 14)
     (\<lambda>v. enum_index partition_state_enum v < 14)"
  by (rule canon_enum, simp_all add: enum_sizes enum_distinct)+

section \<open>Field codecs\<close>

definition i64_ok :: "int \<Rightarrow> bool" where
  "i64_ok v \<longleftrightarrow> - (2 ^ 63) \<le> v \<and> v < 2 ^ 63"

lemma i64_trip [codec_trip]: "i64_ok v \<Longrightarrow> trip 8 (w_i64 v) r_i64 v"
  unfolding i64_ok_def by (rule trip_i64) simp_all

lemma i64_canon [codec_only]: "canon w_i64 r_i64 i64_ok"
  using canon_i64 by (simp add: i64_ok_def [abs_def])

text \<open>\<^verbatim>\<open>static_cast<std::int32_t>(reader.i64())\<close>\<close>

definition r_node :: "int decoder" where
  "r_node = do { v \<leftarrow> r_i64; State_Monad.return (sint (word_of_int v :: 32 word)) }"

definition node_ok :: "int \<Rightarrow> bool" where
  "node_ok v \<longleftrightarrow> - (2 ^ 31) \<le> v \<and> v < 2 ^ 31"

lemma node_trip [codec_trip]:
  assumes "node_ok v"
  shows "trip 8 (w_i64 v) r_node v"
proof -
  have "i64_ok v" using assms by (simp add: node_ok_def i64_ok_def)
  then obtain bs where b: "8 \<le> length bs" "encodes (w_i64 v) True bs" "reads r_i64 v bs"
    using i64_trip by (auto elim: tripE)
  have "sint (word_of_int v :: 32 word) = v"
    using assms by (simp add: node_ok_def sint_sbintrunc' signed_take_bit_int_eq_self)
  then have "reads r_node v (bs @ [])"
    unfolding r_node_def using reads_return [of v] by (intro reads_bind [OF b(3)]) simp
  with b(1,2) show ?thesis by (intro tripI) simp_all
qed

lemma node_safe [codec_safe]: "safe_decoder r_node"
  unfolding r_node_def by (intro codec_safe)

lemma encodes_last: "encodes f True bs \<Longrightarrow> encodes (w_seq [f]) True bs"
  using encodes_seq [OF _ encodes_Nil, of f bs] by simp

lemma id_list_trip [codec_trip]:
  "length xs \<le> m \<Longrightarrow> m < 2 ^ 32 \<Longrightarrow> trip 4 (w_list w_u64 xs) (r_list m 8 r_u64) xs"
  by (rule trip_list) (simp_all add: trip_u64)

lemmas id_list_canon [codec_only] = canon_list [OF canon_u64 safe_u64]

lemma text_list_trip [codec_trip]:
  "length xs \<le> m \<Longrightarrow> \<forall>x\<in>set xs. text_ok kSmall x \<Longrightarrow> m < 2 ^ 32 \<Longrightarrow>
     trip 4 (w_list (\<lambda>v. w_text v kSmall) xs) (r_list m 4 (r_text kSmall)) xs"
  by (rule trip_list) (simp_all add: trip_text)

lemmas text_list_canon [codec_only] = canon_list [OF canon_text safe_text, of kSmall]

lemma dimension_list_trip [codec_trip]:
  "length xs \<le> m \<Longrightarrow> \<forall>x\<in>set xs. enum_index dimension_enum x < 8 \<Longrightarrow> m < 2 ^ 32 \<Longrightarrow>
     trip 4 (w_list (encode_enum dimension_enum) xs) (r_list m 1 (decode_enum dimension_enum 8)) xs"
  by (rule trip_list, rule trip_enum) (simp_all add: enum_sizes)

lemmas dimension_list_canon [codec_only] = canon_list [OF enum_canons(5) safe_enum]

section \<open>Vectors, isolation sets and limits\<close>

definition encode_rv :: "resource_vector \<Rightarrow> byte_writer \<Rightarrow> byte_writer" where
  "encode_rv v = w_seq [w_u32 (rv_mask v), w_seq (map w_u64 (rv_values v))]"

definition decode_rv :: "resource_vector decoder" where
  "decode_rv = do {
     mask \<leftarrow> r_u32; raw \<leftarrow> r_times kResourceDimensionCount r_u64;
     r_check \<lparr>rv_values = raw, rv_mask = mask\<rparr> (validate_dimensions \<lparr>rv_values = raw, rv_mask = mask\<rparr>) }"

definition rv_ok :: "resource_vector \<Rightarrow> bool" where
  "rv_ok v \<longleftrightarrow> length (rv_values v) = 8 \<and> validate_dimensions v = success"

lemma u64s_trip [codec_trip]: "length xs = n \<Longrightarrow> trip (n * 8) (w_seq (map w_u64 xs)) (r_times n r_u64) xs"
  by (rule trip_times) (simp_all add: trip_u64)

lemma rv_trip [codec_trip]: "rv_ok v \<Longrightarrow> trip 68 (encode_rv v) decode_rv v"
  by (cases v, rule trip_weaken, unfold encode_rv_def decode_rv_def, (rule codec_trip | simp add: rv_ok_def)+)

lemma rv_safe [codec_safe]: "safe_decoder decode_rv"
  unfolding decode_rv_def by (intro codec_safe)

lemmas u64s_canon [codec_only] = canon_times [OF canon_u64 safe_u64]

lemma rv_canon [codec_only]: "canon encode_rv decode_rv rv_ok"
  unfolding decode_rv_def
  by (rule canon_sound, (rule sound_bind, rule codec_only, (rule codec_safe)+)+, rule sound_check)
    (auto simp: rv_ok_def encode_rv_def simp del: w_seq.simps intro!: encodes_seq encodes_last)

definition encode_isolation :: "isolation_set \<Rightarrow> byte_writer \<Rightarrow> byte_writer" where
  "encode_isolation v = w_seq [w_u32 v]"

definition decode_isolation :: "isolation_set decoder" where
  "decode_isolation = do {
     mask \<leftarrow> r_u32;
     r_check mask (if drop_bit 8 mask \<noteq> 0 then failure E_ProtocolViolation else success) }"

definition isolation_ok :: "isolation_set \<Rightarrow> bool" where
  "isolation_ok v \<longleftrightarrow> drop_bit 8 v = 0"

lemma isolation_trip [codec_trip]: "isolation_ok v \<Longrightarrow> trip 4 (encode_isolation v) decode_isolation v"
  by (rule trip_weaken, unfold encode_isolation_def decode_isolation_def, (rule codec_trip | simp add: isolation_ok_def)+)

lemma isolation_safe [codec_safe]: "safe_decoder decode_isolation"
  unfolding decode_isolation_def by (intro codec_safe)

lemma isolation_canon [codec_only]: "canon encode_isolation decode_isolation isolation_ok"
  unfolding decode_isolation_def
  by (rule canon_sound, (rule sound_bind, rule codec_only, (rule codec_safe)+)+, rule sound_check)
    (auto simp: isolation_ok_def encode_isolation_def simp del: w_seq.simps intro!: encodes_last split: if_splits)

text \<open>The optional bucket of a partition: the index of the bucket, or \<^verbatim>\<open>0xFF\<close>.\<close>

definition encode_held :: "capacity_bucket option \<Rightarrow> byte_writer \<Rightarrow> byte_writer" where
  "encode_held v = w_u8 (case v of Some b \<Rightarrow> word_of_nat (enum_index bucket_enum b) | None \<Rightarrow> 0xFF)"

definition decode_held :: "capacity_bucket option decoder" where
  "decode_held = do {
     raw \<leftarrow> r_u8;
     healthy \<leftarrow> r_ok;
     if healthy \<and> raw \<noteq> 0xFF
     then if unat raw \<ge> kCapacityBucketCount
          then do { r_fail E_ProtocolViolation; State_Monad.return None }
          else State_Monad.return (Some (bucket_enum ! unat raw))
     else State_Monad.return None }"

definition held_ok :: "capacity_bucket option \<Rightarrow> bool" where
  "held_ok v \<longleftrightarrow> v \<noteq> Some Bucket_Count"

lemma held_trip [codec_trip]: "held_ok v \<Longrightarrow> trip 1 (encode_held v) decode_held v"
proof -
  assume ok: "held_ok v"
  define b :: u8 where "b = (case v of Some b \<Rightarrow> word_of_nat (enum_index bucket_enum b) | None \<Rightarrow> 0xFF)"
  have "run_state decode_held r = (v, r\<lparr>br_offset := br_offset r + 1\<rparr>)" if "br_ok r" "upcoming [b] r" for r
  proof -
    have u: "run_state r_u8 r = (b, r\<lparr>br_offset := br_offset r + 1\<rparr>)"
      using reads_u8 [of b] that by (simp add: reads_def)
    show ?thesis
    proof (cases v)
      case None
      then show ?thesis using u that(1) by (simp add: decode_held_def b_def)
    next
      case (Some c)
      with ok have "c \<noteq> Bucket_Count" by (simp add: held_ok_def)
      with Some have "b \<noteq> 0xFF \<and> unat b < 6 \<and> bucket_enum ! unat b = c"
        by - (cases c, simp_all add: b_def bucket_enum_def enum_index_def)
      then show ?thesis using u that(1) Some by (simp add: decode_held_def)
    qed
  qed
  then have "reads decode_held v [b]" by (simp add: reads_def)
  then show ?thesis unfolding encode_held_def b_def by (intro tripI [OF _ encodes_u8]) simp_all
qed

lemma held_safe [codec_safe]: "safe_decoder decode_held"
  unfolding decode_held_def by (intro codec_safe)

lemma held_canon [codec_only]: "canon encode_held decode_held held_ok"
proof (rule canonI)
  show "accepts_only decode_held (\<lambda>v bs. \<exists>raw as cs. bs = as @ cs \<and> as = [raw] \<and>
      ((raw = 0xFF \<and> v = None \<or> raw \<noteq> 0xFF \<and> unat raw < 6 \<and> v = Some (bucket_enum ! unat raw)) \<and> cs = []))"
    unfolding decode_held_def
    by (rule accepts_bind [OF accepts_u8 safe_u8])
      (auto simp: accepts_only_def consumed_def not_le intro!: codec_safe)
next
  fix v and bs :: "u8 list"
  assume "\<exists>raw as cs. bs = as @ cs \<and> as = [raw] \<and>
      ((raw = 0xFF \<and> v = None \<or> raw \<noteq> 0xFF \<and> unat raw < 6 \<and> v = Some (bucket_enum ! unat raw)) \<and> cs = [])"
  then obtain raw :: u8 where raw: "bs = [raw]"
    "raw = 0xFF \<and> v = None \<or> raw \<noteq> 0xFF \<and> unat raw < 6 \<and> v = Some (bucket_enum ! unat raw)" by auto
  from raw(2) show "held_ok v \<and> encodes (encode_held v) True bs"
  proof
    assume "raw = 0xFF \<and> v = None"
    with raw(1) show ?thesis using encodes_u8 by (simp add: held_ok_def encode_held_def)
  next
    assume h: "raw \<noteq> 0xFF \<and> unat raw < 6 \<and> v = Some (bucket_enum ! unat raw)"
    have "enum_index bucket_enum (bucket_enum ! unat raw) = unat raw"
      using h by (intro enum_index_nth) (simp_all add: enum_distinct enum_sizes)
    moreover have "bucket_enum ! unat raw \<noteq> Bucket_Count"
      using nth_eq_iff_index_eq [OF enum_distinct(13), of "unat raw" 6] h by (auto simp: enum_sizes) (simp add: bucket_enum_def)
    ultimately show ?thesis
      using h raw(1) encodes_u8 by (simp add: held_ok_def encode_held_def)
  qed
qed

section \<open>Evidence, profiles and capabilities\<close>

definition encode_evidence :: "evidence_stamp \<Rightarrow> byte_writer \<Rightarrow> byte_writer" where
  "encode_evidence v =
     w_seq [w_u64 (es_generation v), encode_enum provenance_enum (es_provenance v), w_u64 (es_observed_at_ms v),
       w_u64 (es_ttl_ms v), w_text (es_source v) kSmall, w_boolean (es_observed v)]"

definition decode_evidence :: "evidence_stamp decoder" where
  "decode_evidence = do {
     x1 \<leftarrow> r_u64; x2 \<leftarrow> decode_enum provenance_enum 4; x3 \<leftarrow> r_u64;
     x4 \<leftarrow> r_u64; x5 \<leftarrow> r_text kSmall; x6 \<leftarrow> r_boolean;
     State_Monad.return \<lparr>es_generation = x1, es_provenance = x2, es_observed_at_ms = x3, es_ttl_ms = x4, es_source = x5,
       es_observed = x6\<rparr> }"

definition evidence_ok :: "evidence_stamp \<Rightarrow> bool" where
  "evidence_ok v \<longleftrightarrow> enum_index provenance_enum (es_provenance v) < 4 \<and> text_ok kSmall (es_source v)"

lemma evidence_trip [codec_trip]: "evidence_ok v \<Longrightarrow> trip 30 (encode_evidence v) decode_evidence v"
  by (rule trip_weaken, unfold encode_evidence_def decode_evidence_def,
      (rule codec_trip | simp add: evidence_ok_def enum_sizes)+)

lemma evidence_safe [codec_safe]: "safe_decoder decode_evidence"
  unfolding decode_evidence_def by (intro codec_safe)

lemma evidence_canon [codec_only]: "canon encode_evidence decode_evidence evidence_ok"
  unfolding decode_evidence_def
  by (rule canon_sound, (rule sound_bind, rule codec_only, (rule codec_safe)+)+, rule sound_return)
    (auto simp: evidence_ok_def encode_evidence_def simp del: w_seq.simps intro!: encodes_seq encodes_last)

definition encode_alignment :: "profile_alignment \<Rightarrow> byte_writer \<Rightarrow> byte_writer" where
  "encode_alignment v =
     w_seq [w_u32 (pa_compute_slice_multiple v), w_u32 (pa_memory_slice_multiple v),
       w_boolean (pa_requires_contiguous_slices v), w_boolean (pa_requires_atomic_slice v)]"

definition decode_alignment :: "profile_alignment decoder" where
  "decode_alignment = do {
     x1 \<leftarrow> r_u32; x2 \<leftarrow> r_u32; x3 \<leftarrow> r_boolean; x4 \<leftarrow> r_boolean;
     State_Monad.return \<lparr>pa_compute_slice_multiple = x1, pa_memory_slice_multiple = x2, pa_requires_contiguous_slices = x3,
       pa_requires_atomic_slice = x4\<rparr> }"

definition alignment_ok :: "profile_alignment \<Rightarrow> bool" where
  "alignment_ok v \<longleftrightarrow> True"

lemma alignment_trip [codec_trip]: "alignment_ok v \<Longrightarrow> trip 10 (encode_alignment v) decode_alignment v"
  by (rule trip_weaken, unfold encode_alignment_def decode_alignment_def,
      (rule codec_trip | simp add: alignment_ok_def enum_sizes)+)

lemma alignment_safe [codec_safe]: "safe_decoder decode_alignment"
  unfolding decode_alignment_def by (intro codec_safe)

lemma alignment_canon [codec_only]: "canon encode_alignment decode_alignment alignment_ok"
  unfolding decode_alignment_def
  by (rule canon_sound, (rule sound_bind, rule codec_only, (rule codec_safe)+)+, rule sound_return)
    (auto simp: alignment_ok_def encode_alignment_def simp del: w_seq.simps intro!: encodes_seq encodes_last)

definition encode_profile :: "partition_profile \<Rightarrow> byte_writer \<Rightarrow> byte_writer" where
  "encode_profile v =
     w_seq [w_u64 (pf_id v), w_u64 (pf_generation v), w_text (pf_name v) kSmall,
       w_text (pf_vendor_native v) kSmall, w_text (pf_backend v) kSmall,
       encode_enum mechanism_enum (pf_mechanism v), encode_rv (pf_resources v),
       w_u32 (pf_compute_slice_count v), w_u32 (pf_memory_slice_count v),
       encode_enum grouping_enum (pf_engine_grouping v), w_u32 (pf_max_multiplicity v),
       encode_alignment (pf_alignment v), w_list w_u64 (pf_mutually_exclusive_with v),
       w_boolean (pf_requires_full_device_reconfiguration v),
       w_boolean (pf_live_repartitioning_supported v),
       w_list (\<lambda>v. w_text v kSmall) (pf_backend_requirements v), w_text (pf_description v) kSmall]"

definition decode_profile :: "partition_profile decoder" where
  "decode_profile = do {
     x1 \<leftarrow> r_u64; x2 \<leftarrow> r_u64; x3 \<leftarrow> r_text kSmall;
     x4 \<leftarrow> r_text kSmall; x5 \<leftarrow> r_text kSmall;
     x6 \<leftarrow> decode_enum mechanism_enum 6; x7 \<leftarrow> decode_rv; x8 \<leftarrow> r_u32;
     x9 \<leftarrow> r_u32; x10 \<leftarrow> decode_enum grouping_enum 3; x11 \<leftarrow> r_u32;
     x12 \<leftarrow> decode_alignment; x13 \<leftarrow> r_list 64 8 r_u64; x14 \<leftarrow> r_boolean;
     x15 \<leftarrow> r_boolean; x16 \<leftarrow> r_list 64 4 (r_text kSmall);
     x17 \<leftarrow> r_text kSmall;
     State_Monad.return \<lparr>pf_id = x1, pf_generation = x2, pf_name = x3, pf_vendor_native = x4, pf_backend = x5,
       pf_mechanism = x6, pf_resources = x7, pf_compute_slice_count = x8, pf_memory_slice_count = x9,
       pf_engine_grouping = x10, pf_max_multiplicity = x11, pf_alignment = x12,
       pf_mutually_exclusive_with = x13, pf_requires_full_device_reconfiguration = x14,
       pf_live_repartitioning_supported = x15, pf_backend_requirements = x16, pf_description = x17\<rparr> }"

definition profile_ok :: "partition_profile \<Rightarrow> bool" where
  "profile_ok v \<longleftrightarrow> text_ok kSmall (pf_name v) \<and> text_ok kSmall (pf_vendor_native v) \<and>
     text_ok kSmall (pf_backend v) \<and> enum_index mechanism_enum (pf_mechanism v) < 6 \<and>
     rv_ok (pf_resources v) \<and> enum_index grouping_enum (pf_engine_grouping v) < 3 \<and>
     alignment_ok (pf_alignment v) \<and> length (pf_mutually_exclusive_with v) \<le> 64 \<and>
     length (pf_backend_requirements v) \<le> 64 \<and> (\<forall>x\<in>set (pf_backend_requirements v). text_ok kSmall x) \<and>
     text_ok kSmall (pf_description v)"

lemma profile_trip [codec_trip]: "profile_ok v \<Longrightarrow> trip 134 (encode_profile v) decode_profile v"
  by (rule trip_weaken, unfold encode_profile_def decode_profile_def,
      (rule codec_trip | simp add: profile_ok_def enum_sizes)+)

lemma profile_safe [codec_safe]: "safe_decoder decode_profile"
  unfolding decode_profile_def by (intro codec_safe)

lemma profile_canon [codec_only]: "canon encode_profile decode_profile profile_ok"
  unfolding decode_profile_def
  by (rule canon_sound, (rule sound_bind, rule codec_only, (rule codec_safe)+)+, rule sound_return)
    (auto simp: profile_ok_def encode_profile_def simp del: w_seq.simps intro!: encodes_seq encodes_last)

lemma profile_list_trip [codec_trip]:
  "length xs \<le> m \<Longrightarrow> \<forall>x\<in>set xs. profile_ok x \<Longrightarrow> m < 2 ^ 32 \<Longrightarrow> trip 4 (w_list encode_profile xs) (r_list m 8 decode_profile) xs"
  by (rule trip_list, rule trip_weaken, rule profile_trip) (simp_all add: enum_sizes)

lemmas profile_list_canon [codec_only] = canon_list [OF profile_canon profile_safe]

definition encode_rule :: "combination_rule \<Rightarrow> byte_writer \<Rightarrow> byte_writer" where
  "encode_rule v =
     w_seq [w_u64 (cr_profile v), w_u32 (cr_max_instances v), w_list w_u64 (cr_incompatible_with v),
       w_boolean (cr_requires_exclusive_device v)]"

definition decode_rule :: "combination_rule decoder" where
  "decode_rule = do {
     x1 \<leftarrow> r_u64; x2 \<leftarrow> r_u32; x3 \<leftarrow> r_list 64 8 r_u64;
     x4 \<leftarrow> r_boolean;
     State_Monad.return \<lparr>cr_profile = x1, cr_max_instances = x2, cr_incompatible_with = x3, cr_requires_exclusive_device = x4\<rparr> }"

definition rule_ok :: "combination_rule \<Rightarrow> bool" where
  "rule_ok v \<longleftrightarrow> length (cr_incompatible_with v) \<le> 64"

lemma rule_trip [codec_trip]: "rule_ok v \<Longrightarrow> trip 17 (encode_rule v) decode_rule v"
  by (rule trip_weaken, unfold encode_rule_def decode_rule_def,
      (rule codec_trip | simp add: rule_ok_def enum_sizes)+)

lemma rule_safe [codec_safe]: "safe_decoder decode_rule"
  unfolding decode_rule_def by (intro codec_safe)

lemma rule_canon [codec_only]: "canon encode_rule decode_rule rule_ok"
  unfolding decode_rule_def
  by (rule canon_sound, (rule sound_bind, rule codec_only, (rule codec_safe)+)+, rule sound_return)
    (auto simp: rule_ok_def encode_rule_def simp del: w_seq.simps intro!: encodes_seq encodes_last)

lemma rule_list_trip [codec_trip]:
  "length xs \<le> m \<Longrightarrow> \<forall>x\<in>set xs. rule_ok x \<Longrightarrow> m < 2 ^ 32 \<Longrightarrow> trip 4 (w_list encode_rule xs) (r_list m 4 decode_rule) xs"
  by (rule trip_list, rule trip_weaken, rule rule_trip) (simp_all add: enum_sizes)

lemmas rule_list_canon [codec_only] = canon_list [OF rule_canon rule_safe]

definition encode_capability :: "partition_capability \<Rightarrow> byte_writer \<Rightarrow> byte_writer" where
  "encode_capability v =
     w_seq [w_u64 (cap_accelerator v), w_u64 (cap_device_generation v), w_u64 (cap_generation v),
       w_u64 (cap_topology_generation v), encode_enum support_enum (cap_support v),
       encode_enum mechanism_enum (cap_mechanism v), w_text (cap_mechanism_name v) kSmall,
       w_list w_u64 (cap_supported_profiles v), w_list encode_rule (cap_combination_rules v),
       w_u32 (cap_max_partition_count v), w_boolean (cap_requires_reset_for_reconfiguration v),
       w_boolean (cap_live_reconfiguration_supported v), encode_isolation (cap_isolation v),
       w_list (encode_enum dimension_enum) (cap_exposed_dimensions v), encode_rv (cap_minimum_allocation v),
       w_u32 (cap_slice_granularity v), w_u32 (cap_total_compute_slices v),
       w_u32 (cap_total_memory_slices v), w_u64 (cap_drain_estimate_ms v),
       w_u64 (cap_reconfiguration_estimate_ms v), w_text (cap_backend_name v) kSmall,
       w_text (cap_backend_version v) kSmall, w_text (cap_driver_version v) kSmall,
       w_text (cap_tooling_requirement v) kSmall, encode_evidence (cap_evidence v),
       w_text (cap_unsupported_reason v) kSmall]"

definition decode_capability :: "partition_capability decoder" where
  "decode_capability = do {
     x1 \<leftarrow> r_u64; x2 \<leftarrow> r_u64; x3 \<leftarrow> r_u64; x4 \<leftarrow> r_u64;
     x5 \<leftarrow> decode_enum support_enum 4; x6 \<leftarrow> decode_enum mechanism_enum 6;
     x7 \<leftarrow> r_text kSmall; x8 \<leftarrow> r_list 512 8 r_u64;
     x9 \<leftarrow> r_list 512 4 decode_rule; x10 \<leftarrow> r_u32; x11 \<leftarrow> r_boolean;
     x12 \<leftarrow> r_boolean; x13 \<leftarrow> decode_isolation;
     x14 \<leftarrow> r_list 8 1 (decode_enum dimension_enum 8); x15 \<leftarrow> decode_rv;
     x16 \<leftarrow> r_u32; x17 \<leftarrow> r_u32; x18 \<leftarrow> r_u32; x19 \<leftarrow> r_u64;
     x20 \<leftarrow> r_u64; x21 \<leftarrow> r_text kSmall; x22 \<leftarrow> r_text kSmall;
     x23 \<leftarrow> r_text kSmall; x24 \<leftarrow> r_text kSmall; x25 \<leftarrow> decode_evidence;
     x26 \<leftarrow> r_text kSmall;
     State_Monad.return \<lparr>cap_accelerator = x1, cap_device_generation = x2, cap_generation = x3, cap_topology_generation = x4,
       cap_support = x5, cap_mechanism = x6, cap_mechanism_name = x7, cap_supported_profiles = x8,
       cap_combination_rules = x9, cap_max_partition_count = x10,
       cap_requires_reset_for_reconfiguration = x11, cap_live_reconfiguration_supported = x12,
       cap_isolation = x13, cap_exposed_dimensions = x14, cap_minimum_allocation = x15,
       cap_slice_granularity = x16, cap_total_compute_slices = x17, cap_total_memory_slices = x18,
       cap_drain_estimate_ms = x19, cap_reconfiguration_estimate_ms = x20, cap_backend_name = x21,
       cap_backend_version = x22, cap_driver_version = x23, cap_tooling_requirement = x24,
       cap_evidence = x25, cap_unsupported_reason = x26\<rparr> }"

definition capability_ok :: "partition_capability \<Rightarrow> bool" where
  "capability_ok v \<longleftrightarrow> enum_index support_enum (cap_support v) < 4 \<and>
     enum_index mechanism_enum (cap_mechanism v) < 6 \<and> text_ok kSmall (cap_mechanism_name v) \<and>
     length (cap_supported_profiles v) \<le> 512 \<and>
     length (cap_combination_rules v) \<le> 512 \<and> (\<forall>x\<in>set (cap_combination_rules v). rule_ok x) \<and>
     isolation_ok (cap_isolation v) \<and>
     length (cap_exposed_dimensions v) \<le> 8 \<and> (\<forall>x\<in>set (cap_exposed_dimensions v). enum_index dimension_enum x < 8) \<and>
     rv_ok (cap_minimum_allocation v) \<and> text_ok kSmall (cap_backend_name v) \<and>
     text_ok kSmall (cap_backend_version v) \<and> text_ok kSmall (cap_driver_version v) \<and>
     text_ok kSmall (cap_tooling_requirement v) \<and> evidence_ok (cap_evidence v) \<and>
     text_ok kSmall (cap_unsupported_reason v)"

lemma capability_trip [codec_trip]: "capability_ok v \<Longrightarrow> trip 206 (encode_capability v) decode_capability v"
  by (rule trip_weaken, unfold encode_capability_def decode_capability_def,
      (rule codec_trip | simp add: capability_ok_def enum_sizes)+)

lemma capability_safe [codec_safe]: "safe_decoder decode_capability"
  unfolding decode_capability_def by (intro codec_safe)

lemma capability_canon [codec_only]: "canon encode_capability decode_capability capability_ok"
  unfolding decode_capability_def
  by (rule canon_sound, (rule sound_bind, rule codec_only, (rule codec_safe)+)+, rule sound_return)
    (auto simp: capability_ok_def encode_capability_def simp del: w_seq.simps intro!: encodes_seq encodes_last)

section \<open>Devices\<close>

definition encode_identifiers :: "device_identifiers \<Rightarrow> byte_writer \<Rightarrow> byte_writer" where
  "encode_identifiers v =
     w_seq [w_text (di_vendor v) kSmall, w_text (di_model v) kSmall, w_text (di_uuid v) kSmall,
       w_text (di_pci_bus_id v) kSmall, w_text (di_hardware_id v) kSmall,
       w_text (di_firmware_version v) kSmall, w_text (di_driver_version v) kSmall,
       w_text (di_serial v) kSmall, w_text (di_compute_capability v) kSmall]"

definition decode_identifiers :: "device_identifiers decoder" where
  "decode_identifiers = do {
     x1 \<leftarrow> r_text kSmall; x2 \<leftarrow> r_text kSmall; x3 \<leftarrow> r_text kSmall;
     x4 \<leftarrow> r_text kSmall; x5 \<leftarrow> r_text kSmall; x6 \<leftarrow> r_text kSmall;
     x7 \<leftarrow> r_text kSmall; x8 \<leftarrow> r_text kSmall; x9 \<leftarrow> r_text kSmall;
     State_Monad.return \<lparr>di_vendor = x1, di_model = x2, di_uuid = x3, di_pci_bus_id = x4, di_hardware_id = x5,
       di_firmware_version = x6, di_driver_version = x7, di_serial = x8, di_compute_capability = x9\<rparr> }"

definition identifiers_ok :: "device_identifiers \<Rightarrow> bool" where
  "identifiers_ok v \<longleftrightarrow> text_ok kSmall (di_vendor v) \<and> text_ok kSmall (di_model v) \<and>
     text_ok kSmall (di_uuid v) \<and> text_ok kSmall (di_pci_bus_id v) \<and>
     text_ok kSmall (di_hardware_id v) \<and> text_ok kSmall (di_firmware_version v) \<and>
     text_ok kSmall (di_driver_version v) \<and> text_ok kSmall (di_serial v) \<and>
     text_ok kSmall (di_compute_capability v)"

lemma identifiers_trip [codec_trip]: "identifiers_ok v \<Longrightarrow> trip 36 (encode_identifiers v) decode_identifiers v"
  by (rule trip_weaken, unfold encode_identifiers_def decode_identifiers_def,
      (rule codec_trip | simp add: identifiers_ok_def enum_sizes)+)

lemma identifiers_safe [codec_safe]: "safe_decoder decode_identifiers"
  unfolding decode_identifiers_def by (intro codec_safe)

lemma identifiers_canon [codec_only]: "canon encode_identifiers decode_identifiers identifiers_ok"
  unfolding decode_identifiers_def
  by (rule canon_sound, (rule sound_bind, rule codec_only, (rule codec_safe)+)+, rule sound_return)
    (auto simp: identifiers_ok_def encode_identifiers_def simp del: w_seq.simps intro!: encodes_seq encodes_last)

text \<open>The NUMA node is a 32-bit integer that travels as 64 bits and is truncated on decoding, so the decoder accepts bytes that the encoder never produces.\<close>

definition encode_locality :: "locality_domain \<Rightarrow> byte_writer \<Rightarrow> byte_writer" where
  "encode_locality v =
     w_seq [w_text (ld_name v) kSmall, w_i64 (ld_numa_node v)]"

definition decode_locality :: "locality_domain decoder" where
  "decode_locality = do {
     x1 \<leftarrow> r_text kSmall; x2 \<leftarrow> r_node;
     State_Monad.return \<lparr>ld_name = x1, ld_numa_node = x2\<rparr> }"

definition locality_ok :: "locality_domain \<Rightarrow> bool" where
  "locality_ok v \<longleftrightarrow> text_ok kSmall (ld_name v) \<and> node_ok (ld_numa_node v)"

lemma locality_trip [codec_trip]: "locality_ok v \<Longrightarrow> trip 12 (encode_locality v) decode_locality v"
  by (rule trip_weaken, unfold encode_locality_def decode_locality_def,
      (rule codec_trip | simp add: locality_ok_def enum_sizes)+)

lemma locality_safe [codec_safe]: "safe_decoder decode_locality"
  unfolding decode_locality_def by (intro codec_safe)

definition encode_health :: "health_evidence \<Rightarrow> byte_writer \<Rightarrow> byte_writer" where
  "encode_health v =
     w_seq [encode_enum health_enum (he_state v), encode_evidence (he_stamp v), w_text (he_source v) kSmall]"

definition decode_health :: "health_evidence decoder" where
  "decode_health = do {
     x1 \<leftarrow> decode_enum health_enum 5; x2 \<leftarrow> decode_evidence;
     x3 \<leftarrow> r_text kSmall;
     State_Monad.return \<lparr>he_state = x1, he_stamp = x2, he_source = x3\<rparr> }"

definition health_ok :: "health_evidence \<Rightarrow> bool" where
  "health_ok v \<longleftrightarrow> enum_index health_enum (he_state v) < 5 \<and> evidence_ok (he_stamp v) \<and>
     text_ok kSmall (he_source v)"

lemma health_trip [codec_trip]: "health_ok v \<Longrightarrow> trip 35 (encode_health v) decode_health v"
  by (rule trip_weaken, unfold encode_health_def decode_health_def,
      (rule codec_trip | simp add: health_ok_def enum_sizes)+)

lemma health_safe [codec_safe]: "safe_decoder decode_health"
  unfolding decode_health_def by (intro codec_safe)

lemma health_canon [codec_only]: "canon encode_health decode_health health_ok"
  unfolding decode_health_def
  by (rule canon_sound, (rule sound_bind, rule codec_only, (rule codec_safe)+)+, rule sound_return)
    (auto simp: health_ok_def encode_health_def simp del: w_seq.simps intro!: encodes_seq encodes_last)

definition encode_accelerator :: "accelerator_record \<Rightarrow> byte_writer \<Rightarrow> byte_writer" where
  "encode_accelerator v =
     w_seq [w_u64 (ac_id v), w_u64 (ac_generation v), w_u64 (ac_boot_id v), w_text (ac_backend v) kSmall,
       encode_identifiers (ac_identifiers v), encode_rv (ac_physical_totals v),
       encode_capability (ac_capability v), w_u64 (ac_topology_generation v),
       encode_locality (ac_locality v), encode_health (ac_health v), encode_evidence (ac_evidence v),
       encode_enum provenance_enum (ac_provenance v), w_text (ac_unsupported_reason v) kSmall,
       w_u64 (ac_registered_at_ms v), w_u64 (ac_updated_at_ms v)]"

definition decode_accelerator :: "accelerator_record decoder" where
  "decode_accelerator = do {
     x1 \<leftarrow> r_u64; x2 \<leftarrow> r_u64; x3 \<leftarrow> r_u64; x4 \<leftarrow> r_text kSmall;
     x5 \<leftarrow> decode_identifiers; x6 \<leftarrow> decode_rv; x7 \<leftarrow> decode_capability;
     x8 \<leftarrow> r_u64; x9 \<leftarrow> decode_locality; x10 \<leftarrow> decode_health;
     x11 \<leftarrow> decode_evidence; x12 \<leftarrow> decode_enum provenance_enum 4;
     x13 \<leftarrow> r_text kSmall; x14 \<leftarrow> r_u64; x15 \<leftarrow> r_u64;
     State_Monad.return \<lparr>ac_id = x1, ac_generation = x2, ac_boot_id = x3, ac_backend = x4, ac_identifiers = x5,
       ac_physical_totals = x6, ac_capability = x7, ac_topology_generation = x8, ac_locality = x9,
       ac_health = x10, ac_evidence = x11, ac_provenance = x12, ac_unsupported_reason = x13,
       ac_registered_at_ms = x14, ac_updated_at_ms = x15\<rparr> }"

definition accelerator_ok :: "accelerator_record \<Rightarrow> bool" where
  "accelerator_ok v \<longleftrightarrow> text_ok kSmall (ac_backend v) \<and> identifiers_ok (ac_identifiers v) \<and>
     rv_ok (ac_physical_totals v) \<and> capability_ok (ac_capability v) \<and>
     locality_ok (ac_locality v) \<and> health_ok (ac_health v) \<and> evidence_ok (ac_evidence v) \<and>
     enum_index provenance_enum (ac_provenance v) < 4 \<and> text_ok kSmall (ac_unsupported_reason v)"

lemma accelerator_trip [codec_trip]: "accelerator_ok v \<Longrightarrow> trip 444 (encode_accelerator v) decode_accelerator v"
  by (rule trip_weaken, unfold encode_accelerator_def decode_accelerator_def,
      (rule codec_trip | simp add: accelerator_ok_def enum_sizes)+)

lemma accelerator_safe [codec_safe]: "safe_decoder decode_accelerator"
  unfolding decode_accelerator_def by (intro codec_safe)

section \<open>Partitions and assignments\<close>

definition encode_native_identity :: "native_identity \<Rightarrow> byte_writer \<Rightarrow> byte_writer" where
  "encode_native_identity v =
     w_seq [w_text (ni_backend v) kSmall, w_text (ni_native_id v) kSmall, w_text (ni_parent_native_id v) kSmall,
       w_text (ni_instance_uuid v) kSmall]"

definition decode_native_identity :: "native_identity decoder" where
  "decode_native_identity = do {
     x1 \<leftarrow> r_text kSmall; x2 \<leftarrow> r_text kSmall; x3 \<leftarrow> r_text kSmall;
     x4 \<leftarrow> r_text kSmall;
     State_Monad.return \<lparr>ni_backend = x1, ni_native_id = x2, ni_parent_native_id = x3, ni_instance_uuid = x4\<rparr> }"

definition native_identity_ok :: "native_identity \<Rightarrow> bool" where
  "native_identity_ok v \<longleftrightarrow> text_ok kSmall (ni_backend v) \<and> text_ok kSmall (ni_native_id v) \<and>
     text_ok kSmall (ni_parent_native_id v) \<and> text_ok kSmall (ni_instance_uuid v)"

lemma native_identity_trip [codec_trip]: "native_identity_ok v \<Longrightarrow> trip 16 (encode_native_identity v) decode_native_identity v"
  by (rule trip_weaken, unfold encode_native_identity_def decode_native_identity_def,
      (rule codec_trip | simp add: native_identity_ok_def enum_sizes)+)

lemma native_identity_safe [codec_safe]: "safe_decoder decode_native_identity"
  unfolding decode_native_identity_def by (intro codec_safe)

lemma native_identity_canon [codec_only]: "canon encode_native_identity decode_native_identity native_identity_ok"
  unfolding decode_native_identity_def
  by (rule canon_sound, (rule sound_bind, rule codec_only, (rule codec_safe)+)+, rule sound_return)
    (auto simp: native_identity_ok_def encode_native_identity_def simp del: w_seq.simps intro!: encodes_seq encodes_last)

definition encode_isolation_domain :: "isolation_domain \<Rightarrow> byte_writer \<Rightarrow> byte_writer" where
  "encode_isolation_domain v =
     w_seq [w_text (id_name v) kSmall, encode_isolation (id_guarantees v), w_boolean (id_backend_defined v)]"

definition decode_isolation_domain :: "isolation_domain decoder" where
  "decode_isolation_domain = do {
     x1 \<leftarrow> r_text kSmall; x2 \<leftarrow> decode_isolation; x3 \<leftarrow> r_boolean;
     State_Monad.return \<lparr>id_name = x1, id_guarantees = x2, id_backend_defined = x3\<rparr> }"

definition isolation_domain_ok :: "isolation_domain \<Rightarrow> bool" where
  "isolation_domain_ok v \<longleftrightarrow> text_ok kSmall (id_name v) \<and> isolation_ok (id_guarantees v)"

lemma isolation_domain_trip [codec_trip]: "isolation_domain_ok v \<Longrightarrow> trip 9 (encode_isolation_domain v) decode_isolation_domain v"
  by (rule trip_weaken, unfold encode_isolation_domain_def decode_isolation_domain_def,
      (rule codec_trip | simp add: isolation_domain_ok_def enum_sizes)+)

lemma isolation_domain_safe [codec_safe]: "safe_decoder decode_isolation_domain"
  unfolding decode_isolation_domain_def by (intro codec_safe)

lemma isolation_domain_canon [codec_only]: "canon encode_isolation_domain decode_isolation_domain isolation_domain_ok"
  unfolding decode_isolation_domain_def
  by (rule canon_sound, (rule sound_bind, rule codec_only, (rule codec_safe)+)+, rule sound_return)
    (auto simp: isolation_domain_ok_def encode_isolation_domain_def simp del: w_seq.simps intro!: encodes_seq encodes_last)

text \<open>The reason a drain is blocked and the blocker are texts that no decision reads; on the wire they travel with the progress.\<close>

definition encode_drain :: "(drain_progress \<times> string \<times> string) \<Rightarrow> byte_writer \<Rightarrow> byte_writer" where
  "encode_drain v =
     w_seq [encode_enum drain_enum (dp_state (fst v)), w_u32 (dp_outstanding_assignments (fst v)),
       w_u32 (dp_total_assignments (fst v)), w_u64 (dp_started_at_ms (fst v)),
       w_u64 (dp_completed_at_ms (fst v)), w_text (fst (snd v)) kSmall, w_text (snd (snd v)) kSmall]"

definition decode_drain :: "(drain_progress \<times> string \<times> string) decoder" where
  "decode_drain = do {
     x1 \<leftarrow> decode_enum drain_enum 4; x2 \<leftarrow> r_u32; x3 \<leftarrow> r_u32;
     x4 \<leftarrow> r_u64; x5 \<leftarrow> r_u64; x6 \<leftarrow> r_text kSmall;
     x7 \<leftarrow> r_text kSmall;
     State_Monad.return (\<lparr>dp_state = x1, dp_outstanding_assignments = x2, dp_total_assignments = x3,
       dp_started_at_ms = x4, dp_completed_at_ms = x5\<rparr>, x6, x7) }"

definition drain_ok :: "(drain_progress \<times> string \<times> string) \<Rightarrow> bool" where
  "drain_ok v \<longleftrightarrow> enum_index drain_enum (dp_state (fst v)) < 4 \<and> text_ok kSmall (fst (snd v)) \<and>
     text_ok kSmall (snd (snd v))"

lemma drain_trip [codec_trip]: "drain_ok v \<Longrightarrow> trip 33 (encode_drain v) decode_drain v"
  by (rule trip_weaken, unfold encode_drain_def decode_drain_def,
      (rule codec_trip | simp add: drain_ok_def enum_sizes prod_eq_iff)+)

lemma drain_safe [codec_safe]: "safe_decoder decode_drain"
  unfolding decode_drain_def by (intro codec_safe)

lemma drain_canon [codec_only]: "canon encode_drain decode_drain drain_ok"
  unfolding decode_drain_def
  by (rule canon_sound, (rule sound_bind, rule codec_only, (rule codec_safe)+)+, rule sound_return)
    (auto simp: drain_ok_def encode_drain_def simp del: w_seq.simps intro!: encodes_seq encodes_last)

definition encode_partition :: "(partition_record \<times> (string \<times> string) \<times> string) \<Rightarrow> byte_writer \<Rightarrow> byte_writer" where
  "encode_partition v =
     w_seq [w_u64 (pr_id (fst v)), w_u64 (pr_generation (fst v)), w_u64 (pr_profile (fst v)),
       w_u64 (pr_profile_generation (fst v)), encode_enum mechanism_enum (pr_mechanism (fst v)),
       w_u64 (pr_accelerator (fst v)), w_u64 (pr_accelerator_generation (fst v)),
       w_u64 (pr_accelerator_boot (fst v)), encode_rv (pr_resources (fst v)),
       encode_enum partition_state_enum (pr_state (fst v)),
       encode_native_identity (pr_native_identity (fst v)), encode_isolation_domain (pr_isolation (fst v)),
       encode_held (pr_held_bucket (fst v)), encode_enum assignment_enum (pr_assignment_state (fst v)),
       encode_drain ((pr_drain (fst v), fst (snd v))), w_u64 (pr_reservation (fst v)),
       w_u64 (pr_last_attempt (fst v)), w_list w_u64 (pr_superseded_generations (fst v)),
       encode_evidence (pr_evidence (fst v)), encode_enum provenance_enum (pr_provenance (fst v)),
       w_u64 (pr_created_at_ms (fst v)), w_u64 (pr_last_transition_at_ms (fst v)),
       w_text (snd (snd v)) kSmall, w_boolean (pr_externally_observed (fst v))]"

definition decode_partition :: "(partition_record \<times> (string \<times> string) \<times> string) decoder" where
  "decode_partition = do {
     x1 \<leftarrow> r_u64; x2 \<leftarrow> r_u64; x3 \<leftarrow> r_u64; x4 \<leftarrow> r_u64;
     x5 \<leftarrow> decode_enum mechanism_enum 6; x6 \<leftarrow> r_u64; x7 \<leftarrow> r_u64;
     x8 \<leftarrow> r_u64; x9 \<leftarrow> decode_rv; x10 \<leftarrow> decode_enum partition_state_enum 14;
     x11 \<leftarrow> decode_native_identity; x12 \<leftarrow> decode_isolation_domain;
     x13 \<leftarrow> decode_held; x14 \<leftarrow> decode_enum assignment_enum 4;
     x15 \<leftarrow> decode_drain; x16 \<leftarrow> r_u64; x17 \<leftarrow> r_u64;
     x18 \<leftarrow> r_list 64 8 r_u64; x19 \<leftarrow> decode_evidence;
     x20 \<leftarrow> decode_enum provenance_enum 4; x21 \<leftarrow> r_u64; x22 \<leftarrow> r_u64;
     x23 \<leftarrow> r_text kSmall; x24 \<leftarrow> r_boolean;
     State_Monad.return (\<lparr>pr_id = x1, pr_generation = x2, pr_profile = x3, pr_profile_generation = x4, pr_mechanism = x5,
       pr_accelerator = x6, pr_accelerator_generation = x7, pr_accelerator_boot = x8, pr_resources = x9,
       pr_state = x10, pr_native_identity = x11, pr_isolation = x12, pr_held_bucket = x13,
       pr_assignment_state = x14, pr_drain = fst x15, pr_reservation = x16, pr_last_attempt = x17,
       pr_superseded_generations = x18, pr_evidence = x19, pr_provenance = x20, pr_created_at_ms = x21,
       pr_last_transition_at_ms = x22, pr_externally_observed = x24\<rparr>, snd x15, x23) }"

definition partition_ok :: "(partition_record \<times> (string \<times> string) \<times> string) \<Rightarrow> bool" where
  "partition_ok v \<longleftrightarrow> enum_index mechanism_enum (pr_mechanism (fst v)) < 6 \<and> rv_ok (pr_resources (fst v)) \<and>
     enum_index partition_state_enum (pr_state (fst v)) < 14 \<and>
     native_identity_ok (pr_native_identity (fst v)) \<and>
     isolation_domain_ok (pr_isolation (fst v)) \<and> held_ok (pr_held_bucket (fst v)) \<and>
     enum_index assignment_enum (pr_assignment_state (fst v)) < 4 \<and>
     drain_ok ((pr_drain (fst v), fst (snd v))) \<and>
     length (pr_superseded_generations (fst v)) \<le> 64 \<and> evidence_ok (pr_evidence (fst v)) \<and>
     enum_index provenance_enum (pr_provenance (fst v)) < 4 \<and> text_ok kSmall (snd (snd v))"

lemma partition_trip [codec_trip]: "partition_ok v \<Longrightarrow> trip 258 (encode_partition v) decode_partition v"
  by (rule trip_weaken, unfold encode_partition_def decode_partition_def,
      (rule codec_trip | simp add: partition_ok_def enum_sizes prod_eq_iff)+)

lemma partition_safe [codec_safe]: "safe_decoder decode_partition"
  unfolding decode_partition_def by (intro codec_safe)

lemma partition_canon [codec_only]: "canon encode_partition decode_partition partition_ok"
  unfolding decode_partition_def
  by (rule canon_sound, (rule sound_bind, rule codec_only, (rule codec_safe)+)+, rule sound_return)
    (auto simp: partition_ok_def encode_partition_def simp del: w_seq.simps intro!: encodes_seq encodes_last)

definition encode_isolation_requirement :: "isolation_requirement \<Rightarrow> byte_writer \<Rightarrow> byte_writer" where
  "encode_isolation_requirement v =
     w_seq [encode_isolation (ir_required v), w_u64 (ir_policy v), w_u64 (ir_policy_generation v)]"

definition decode_isolation_requirement :: "isolation_requirement decoder" where
  "decode_isolation_requirement = do {
     x1 \<leftarrow> decode_isolation; x2 \<leftarrow> r_u64; x3 \<leftarrow> r_u64;
     State_Monad.return \<lparr>ir_required = x1, ir_policy = x2, ir_policy_generation = x3\<rparr> }"

definition isolation_requirement_ok :: "isolation_requirement \<Rightarrow> bool" where
  "isolation_requirement_ok v \<longleftrightarrow> isolation_ok (ir_required v)"

lemma isolation_requirement_trip [codec_trip]: "isolation_requirement_ok v \<Longrightarrow> trip 20 (encode_isolation_requirement v) decode_isolation_requirement v"
  by (rule trip_weaken, unfold encode_isolation_requirement_def decode_isolation_requirement_def,
      (rule codec_trip | simp add: isolation_requirement_ok_def enum_sizes)+)

lemma isolation_requirement_safe [codec_safe]: "safe_decoder decode_isolation_requirement"
  unfolding decode_isolation_requirement_def by (intro codec_safe)

lemma isolation_requirement_canon [codec_only]: "canon encode_isolation_requirement decode_isolation_requirement isolation_requirement_ok"
  unfolding decode_isolation_requirement_def
  by (rule canon_sound, (rule sound_bind, rule codec_only, (rule codec_safe)+)+, rule sound_return)
    (auto simp: isolation_requirement_ok_def encode_isolation_requirement_def simp del: w_seq.simps intro!: encodes_seq encodes_last)

definition encode_assignment :: "partition_assignment \<Rightarrow> byte_writer \<Rightarrow> byte_writer" where
  "encode_assignment v =
     w_seq [w_u64 (as_id v), w_u64 (as_partition v), w_u64 (as_partition_generation v), w_u64 (as_accelerator v),
       w_u64 (as_accelerator_generation v), w_text (as_workload_id v) kSmall,
       w_text (as_tenant_id v) kSmall, encode_isolation_requirement (as_isolation v),
       w_u64 (as_policy_generation v), w_u64 (as_coordinator_epoch v), w_u64 (as_evidence_generation v),
       w_boolean (as_exclusive v), w_u64 (as_bound_at_ms v), w_u64 (as_last_validated_at_ms v)]"

definition decode_assignment :: "partition_assignment decoder" where
  "decode_assignment = do {
     x1 \<leftarrow> r_u64; x2 \<leftarrow> r_u64; x3 \<leftarrow> r_u64; x4 \<leftarrow> r_u64;
     x5 \<leftarrow> r_u64; x6 \<leftarrow> r_text kSmall; x7 \<leftarrow> r_text kSmall;
     x8 \<leftarrow> decode_isolation_requirement; x9 \<leftarrow> r_u64; x10 \<leftarrow> r_u64;
     x11 \<leftarrow> r_u64; x12 \<leftarrow> r_boolean; x13 \<leftarrow> r_u64; x14 \<leftarrow> r_u64;
     State_Monad.return \<lparr>as_id = x1, as_partition = x2, as_partition_generation = x3, as_accelerator = x4,
       as_accelerator_generation = x5, as_workload_id = x6, as_tenant_id = x7, as_isolation = x8,
       as_policy_generation = x9, as_coordinator_epoch = x10, as_evidence_generation = x11,
       as_exclusive = x12, as_bound_at_ms = x13, as_last_validated_at_ms = x14\<rparr> }"

definition assignment_ok :: "partition_assignment \<Rightarrow> bool" where
  "assignment_ok v \<longleftrightarrow> text_ok kSmall (as_workload_id v) \<and> text_ok kSmall (as_tenant_id v) \<and>
     isolation_requirement_ok (as_isolation v)"

lemma assignment_trip [codec_trip]: "assignment_ok v \<Longrightarrow> trip 109 (encode_assignment v) decode_assignment v"
  by (rule trip_weaken, unfold encode_assignment_def decode_assignment_def,
      (rule codec_trip | simp add: assignment_ok_def enum_sizes)+)

lemma assignment_safe [codec_safe]: "safe_decoder decode_assignment"
  unfolding decode_assignment_def by (intro codec_safe)

lemma assignment_canon [codec_only]: "canon encode_assignment decode_assignment assignment_ok"
  unfolding decode_assignment_def
  by (rule canon_sound, (rule sound_bind, rule codec_only, (rule codec_safe)+)+, rule sound_return)
    (auto simp: assignment_ok_def encode_assignment_def simp del: w_seq.simps intro!: encodes_seq encodes_last)

section \<open>Policy, reservations and requests\<close>

definition encode_weights :: "planning_weights \<Rightarrow> byte_writer \<Rightarrow> byte_writer" where
  "encode_weights v =
     w_seq [w_i64 (pw_fragmentation v), w_i64 (pw_capacity_waste v), w_i64 (pw_destructive_reconfiguration v),
       w_i64 (pw_drain v), w_i64 (pw_mutation_count v), w_i64 (pw_health v), w_i64 (pw_locality v),
       w_i64 (pw_future_optionality v), w_i64 (pw_contiguity_preservation v),
       w_i64 (pw_reconfiguration_cost v), w_i64 (pw_live_reconfiguration_bonus v)]"

definition decode_weights :: "planning_weights decoder" where
  "decode_weights = do {
     x1 \<leftarrow> r_i64; x2 \<leftarrow> r_i64; x3 \<leftarrow> r_i64; x4 \<leftarrow> r_i64;
     x5 \<leftarrow> r_i64; x6 \<leftarrow> r_i64; x7 \<leftarrow> r_i64; x8 \<leftarrow> r_i64;
     x9 \<leftarrow> r_i64; x10 \<leftarrow> r_i64; x11 \<leftarrow> r_i64;
     State_Monad.return \<lparr>pw_fragmentation = x1, pw_capacity_waste = x2, pw_destructive_reconfiguration = x3, pw_drain = x4,
       pw_mutation_count = x5, pw_health = x6, pw_locality = x7, pw_future_optionality = x8,
       pw_contiguity_preservation = x9, pw_reconfiguration_cost = x10, pw_live_reconfiguration_bonus = x11\<rparr> }"

definition weights_ok :: "planning_weights \<Rightarrow> bool" where
  "weights_ok v \<longleftrightarrow> i64_ok (pw_fragmentation v) \<and> i64_ok (pw_capacity_waste v) \<and>
     i64_ok (pw_destructive_reconfiguration v) \<and> i64_ok (pw_drain v) \<and>
     i64_ok (pw_mutation_count v) \<and> i64_ok (pw_health v) \<and> i64_ok (pw_locality v) \<and>
     i64_ok (pw_future_optionality v) \<and> i64_ok (pw_contiguity_preservation v) \<and>
     i64_ok (pw_reconfiguration_cost v) \<and> i64_ok (pw_live_reconfiguration_bonus v)"

lemma weights_trip [codec_trip]: "weights_ok v \<Longrightarrow> trip 88 (encode_weights v) decode_weights v"
  by (rule trip_weaken, unfold encode_weights_def decode_weights_def,
      (rule codec_trip | simp add: weights_ok_def enum_sizes)+)

lemma weights_safe [codec_safe]: "safe_decoder decode_weights"
  unfolding decode_weights_def by (intro codec_safe)

lemma weights_canon [codec_only]: "canon encode_weights decode_weights weights_ok"
  unfolding decode_weights_def
  by (rule canon_sound, (rule sound_bind, rule codec_only, (rule codec_safe)+)+, rule sound_return)
    (auto simp: weights_ok_def encode_weights_def simp del: w_seq.simps intro!: encodes_seq encodes_last)

definition encode_policy :: "planning_policy \<Rightarrow> byte_writer \<Rightarrow> byte_writer" where
  "encode_policy v =
     w_seq [w_u64 (pp_generation v), w_text (pp_name v) kSmall, encode_weights (pp_weights v),
       w_boolean (pp_allow_destructive_reconfiguration v), w_boolean (pp_allow_drain v),
       w_u64 (pp_max_reconfiguration_downtime_ms v), w_boolean (pp_require_fresh_evidence v),
       w_u64 (pp_max_evidence_age_ms v), w_boolean (pp_require_healthy_device v),
       w_boolean (pp_allow_degraded_device v), w_boolean (pp_allow_external_adoption v),
       w_boolean (pp_exclusive_by_default v), w_u32 (pp_max_partition_mutations_per_plan v),
       w_boolean (pp_prefer_live_reconfiguration v), encode_isolation_requirement (pp_minimum_isolation v),
       w_list (encode_enum dimension_enum) (pp_protected_dimensions v),
       w_u32 (pp_max_instances_per_profile v)]"

definition decode_policy :: "planning_policy decoder" where
  "decode_policy = do {
     x1 \<leftarrow> r_u64; x2 \<leftarrow> r_text kSmall; x3 \<leftarrow> decode_weights;
     x4 \<leftarrow> r_boolean; x5 \<leftarrow> r_boolean; x6 \<leftarrow> r_u64; x7 \<leftarrow> r_boolean;
     x8 \<leftarrow> r_u64; x9 \<leftarrow> r_boolean; x10 \<leftarrow> r_boolean;
     x11 \<leftarrow> r_boolean; x12 \<leftarrow> r_boolean; x13 \<leftarrow> r_u32;
     x14 \<leftarrow> r_boolean; x15 \<leftarrow> decode_isolation_requirement;
     x16 \<leftarrow> r_list 8 1 (decode_enum dimension_enum 8); x17 \<leftarrow> r_u32;
     State_Monad.return \<lparr>pp_generation = x1, pp_name = x2, pp_weights = x3, pp_allow_destructive_reconfiguration = x4,
       pp_allow_drain = x5, pp_max_reconfiguration_downtime_ms = x6, pp_require_fresh_evidence = x7,
       pp_max_evidence_age_ms = x8, pp_require_healthy_device = x9, pp_allow_degraded_device = x10,
       pp_allow_external_adoption = x11, pp_exclusive_by_default = x12,
       pp_max_partition_mutations_per_plan = x13, pp_prefer_live_reconfiguration = x14,
       pp_minimum_isolation = x15, pp_protected_dimensions = x16, pp_max_instances_per_profile = x17\<rparr> }"

definition policy_ok :: "planning_policy \<Rightarrow> bool" where
  "policy_ok v \<longleftrightarrow> text_ok kSmall (pp_name v) \<and> weights_ok (pp_weights v) \<and>
     isolation_requirement_ok (pp_minimum_isolation v) \<and>
     length (pp_protected_dimensions v) \<le> 8 \<and> (\<forall>x\<in>set (pp_protected_dimensions v). enum_index dimension_enum x < 8)"

lemma policy_trip [codec_trip]: "policy_ok v \<Longrightarrow> trip 156 (encode_policy v) decode_policy v"
  by (rule trip_weaken, unfold encode_policy_def decode_policy_def,
      (rule codec_trip | simp add: policy_ok_def enum_sizes)+)

lemma policy_safe [codec_safe]: "safe_decoder decode_policy"
  unfolding decode_policy_def by (intro codec_safe)

lemma policy_canon [codec_only]: "canon encode_policy decode_policy policy_ok"
  unfolding decode_policy_def
  by (rule canon_sound, (rule sound_bind, rule codec_only, (rule codec_safe)+)+, rule sound_return)
    (auto simp: policy_ok_def encode_policy_def simp del: w_seq.simps intro!: encodes_seq encodes_last)

definition encode_reservation :: "(partition_reservation \<times> string) \<Rightarrow> byte_writer \<Rightarrow> byte_writer" where
  "encode_reservation v =
     w_seq [w_u64 (rs_id (fst v)), w_u64 (rs_plan (fst v)), w_u64 (rs_plan_generation (fst v)),
       w_u64 (rs_accelerator (fst v)), w_u64 (rs_accelerator_generation (fst v)),
       w_u64 (rs_accelerator_boot (fst v)), w_u64 (rs_capability_generation (fst v)),
       w_u64 (rs_topology_generation (fst v)), w_u64 (rs_policy_generation (fst v)),
       w_u64 (rs_coordinator_epoch (fst v)), w_u64 (rs_worker (fst v)), w_u64 (rs_worker_boot (fst v)),
       encode_enum lifecycle_enum (rs_lifecycle (fst v)), w_list w_u64 (rs_partitions (fst v)),
       w_list w_u64 (rs_partition_generations (fst v)), encode_rv (rs_resources (fst v)),
       w_u64 (rs_attempt (fst v)), w_u32 (rs_planned_mutations (fst v)), w_boolean (rs_destructive (fst v)),
       w_u64 (rs_created_at_ms (fst v)), w_u64 (rs_updated_at_ms (fst v)), w_u64 (rs_expires_at_ms (fst v)),
       w_u32 (rs_rollback_count (fst v)), w_text (snd v) kSmall]"

definition decode_reservation :: "(partition_reservation \<times> string) decoder" where
  "decode_reservation = do {
     x1 \<leftarrow> r_u64; x2 \<leftarrow> r_u64; x3 \<leftarrow> r_u64; x4 \<leftarrow> r_u64;
     x5 \<leftarrow> r_u64; x6 \<leftarrow> r_u64; x7 \<leftarrow> r_u64; x8 \<leftarrow> r_u64;
     x9 \<leftarrow> r_u64; x10 \<leftarrow> r_u64; x11 \<leftarrow> r_u64; x12 \<leftarrow> r_u64;
     x13 \<leftarrow> decode_enum lifecycle_enum 8; x14 \<leftarrow> r_list 256 8 r_u64;
     x15 \<leftarrow> r_list 256 8 r_u64; x16 \<leftarrow> decode_rv; x17 \<leftarrow> r_u64;
     x18 \<leftarrow> r_u32; x19 \<leftarrow> r_boolean; x20 \<leftarrow> r_u64; x21 \<leftarrow> r_u64;
     x22 \<leftarrow> r_u64; x23 \<leftarrow> r_u32; x24 \<leftarrow> r_text kSmall;
     State_Monad.return (\<lparr>rs_id = x1, rs_plan = x2, rs_plan_generation = x3, rs_accelerator = x4,
       rs_accelerator_generation = x5, rs_accelerator_boot = x6, rs_capability_generation = x7,
       rs_topology_generation = x8, rs_policy_generation = x9, rs_coordinator_epoch = x10, rs_worker = x11,
       rs_worker_boot = x12, rs_lifecycle = x13, rs_partitions = x14, rs_partition_generations = x15,
       rs_resources = x16, rs_attempt = x17, rs_planned_mutations = x18, rs_destructive = x19,
       rs_created_at_ms = x20, rs_updated_at_ms = x21, rs_expires_at_ms = x22, rs_rollback_count = x23\<rparr>, x24) }"

definition reservation_ok :: "(partition_reservation \<times> string) \<Rightarrow> bool" where
  "reservation_ok v \<longleftrightarrow> enum_index lifecycle_enum (rs_lifecycle (fst v)) < 8 \<and>
     length (rs_partitions (fst v)) \<le> 256 \<and>
     length (rs_partition_generations (fst v)) \<le> 256 \<and> rv_ok (rs_resources (fst v)) \<and>
     text_ok kSmall (snd v)"

lemma reservation_trip [codec_trip]: "reservation_ok v \<Longrightarrow> trip 218 (encode_reservation v) decode_reservation v"
  by (rule trip_weaken, unfold encode_reservation_def decode_reservation_def,
      (rule codec_trip | simp add: reservation_ok_def enum_sizes prod_eq_iff)+)

lemma reservation_safe [codec_safe]: "safe_decoder decode_reservation"
  unfolding decode_reservation_def by (intro codec_safe)

lemma reservation_canon [codec_only]: "canon encode_reservation decode_reservation reservation_ok"
  unfolding decode_reservation_def
  by (rule canon_sound, (rule sound_bind, rule codec_only, (rule codec_safe)+)+, rule sound_return)
    (auto simp: reservation_ok_def encode_reservation_def simp del: w_seq.simps intro!: encodes_seq encodes_last)

definition encode_planned_partition :: "planned_partition \<Rightarrow> byte_writer \<Rightarrow> byte_writer" where
  "encode_planned_partition v =
     w_seq [w_u64 (pn_profile v), w_u64 (pn_profile_generation v), encode_rv (pn_resources v),
       w_u32 (pn_ordinal v), w_text (pn_vendor_native_profile v) kSmall]"

definition decode_planned_partition :: "planned_partition decoder" where
  "decode_planned_partition = do {
     x1 \<leftarrow> r_u64; x2 \<leftarrow> r_u64; x3 \<leftarrow> decode_rv; x4 \<leftarrow> r_u32;
     x5 \<leftarrow> r_text kSmall;
     State_Monad.return \<lparr>pn_profile = x1, pn_profile_generation = x2, pn_resources = x3, pn_ordinal = x4,
       pn_vendor_native_profile = x5\<rparr> }"

definition planned_partition_ok :: "planned_partition \<Rightarrow> bool" where
  "planned_partition_ok v \<longleftrightarrow> rv_ok (pn_resources v) \<and> text_ok kSmall (pn_vendor_native_profile v)"

lemma planned_partition_trip [codec_trip]: "planned_partition_ok v \<Longrightarrow> trip 92 (encode_planned_partition v) decode_planned_partition v"
  by (rule trip_weaken, unfold encode_planned_partition_def decode_planned_partition_def,
      (rule codec_trip | simp add: planned_partition_ok_def enum_sizes)+)

lemma planned_partition_safe [codec_safe]: "safe_decoder decode_planned_partition"
  unfolding decode_planned_partition_def by (intro codec_safe)

lemma planned_partition_canon [codec_only]: "canon encode_planned_partition decode_planned_partition planned_partition_ok"
  unfolding decode_planned_partition_def
  by (rule canon_sound, (rule sound_bind, rule codec_only, (rule codec_safe)+)+, rule sound_return)
    (auto simp: planned_partition_ok_def encode_planned_partition_def simp del: w_seq.simps intro!: encodes_seq encodes_last)

lemma planned_partition_list_trip [codec_trip]:
  "length xs \<le> m \<Longrightarrow> \<forall>x\<in>set xs. planned_partition_ok x \<Longrightarrow> m < 2 ^ 32 \<Longrightarrow> trip 4 (w_list encode_planned_partition xs) (r_list m 4 decode_planned_partition) xs"
  by (rule trip_list, rule trip_weaken, rule planned_partition_trip) (simp_all add: enum_sizes)

lemmas planned_partition_list_canon [codec_only] = canon_list [OF planned_partition_canon planned_partition_safe]

definition encode_device_selector :: "device_selector \<Rightarrow> byte_writer \<Rightarrow> byte_writer" where
  "encode_device_selector v =
     w_seq [w_text (ds_backend v) kSmall, w_text (ds_vendor v) kSmall, w_text (ds_device_family v) kSmall,
       w_text (ds_locality_domain v) kSmall, w_list w_u64 (ds_allowed v), w_list w_u64 (ds_excluded v)]"

definition decode_device_selector :: "device_selector decoder" where
  "decode_device_selector = do {
     x1 \<leftarrow> r_text kSmall; x2 \<leftarrow> r_text kSmall; x3 \<leftarrow> r_text kSmall;
     x4 \<leftarrow> r_text kSmall; x5 \<leftarrow> r_list 64 8 r_u64; x6 \<leftarrow> r_list 64 8 r_u64;
     State_Monad.return \<lparr>ds_backend = x1, ds_vendor = x2, ds_device_family = x3, ds_locality_domain = x4, ds_allowed = x5,
       ds_excluded = x6\<rparr> }"

definition device_selector_ok :: "device_selector \<Rightarrow> bool" where
  "device_selector_ok v \<longleftrightarrow> text_ok kSmall (ds_backend v) \<and> text_ok kSmall (ds_vendor v) \<and>
     text_ok kSmall (ds_device_family v) \<and> text_ok kSmall (ds_locality_domain v) \<and>
     length (ds_allowed v) \<le> 64 \<and> length (ds_excluded v) \<le> 64"

lemma device_selector_trip [codec_trip]: "device_selector_ok v \<Longrightarrow> trip 24 (encode_device_selector v) decode_device_selector v"
  by (rule trip_weaken, unfold encode_device_selector_def decode_device_selector_def,
      (rule codec_trip | simp add: device_selector_ok_def enum_sizes)+)

lemma device_selector_safe [codec_safe]: "safe_decoder decode_device_selector"
  unfolding decode_device_selector_def by (intro codec_safe)

lemma device_selector_canon [codec_only]: "canon encode_device_selector decode_device_selector device_selector_ok"
  unfolding decode_device_selector_def
  by (rule canon_sound, (rule sound_bind, rule codec_only, (rule codec_safe)+)+, rule sound_return)
    (auto simp: device_selector_ok_def encode_device_selector_def simp del: w_seq.simps intro!: encodes_seq encodes_last)

definition encode_request :: "partition_request \<Rightarrow> byte_writer \<Rightarrow> byte_writer" where
  "encode_request v =
     w_seq [w_u64 (rq_profile v), w_u32 (rq_count v), encode_rv (rq_minimum_resources v),
       encode_isolation_requirement (rq_isolation v), w_boolean (rq_exclusive v),
       w_boolean (rq_allow_drain v), w_boolean (rq_allow_destructive_reconfiguration v),
       w_boolean (rq_allow_degraded_device v), w_boolean (rq_allow_shared_device v),
       encode_device_selector (rq_selector v), w_text (rq_policy_class v) kSmall,
       w_u64 (rq_max_evidence_age_ms v), w_text (rq_requester v) kSmall, w_boolean (rq_all_or_nothing v),
       w_text (rq_request_tag v) kSmall]"

definition decode_request :: "partition_request decoder" where
  "decode_request = do {
     x1 \<leftarrow> r_u64; x2 \<leftarrow> r_u32; x3 \<leftarrow> decode_rv;
     x4 \<leftarrow> decode_isolation_requirement; x5 \<leftarrow> r_boolean; x6 \<leftarrow> r_boolean;
     x7 \<leftarrow> r_boolean; x8 \<leftarrow> r_boolean; x9 \<leftarrow> r_boolean;
     x10 \<leftarrow> decode_device_selector; x11 \<leftarrow> r_text kSmall; x12 \<leftarrow> r_u64;
     x13 \<leftarrow> r_text kSmall; x14 \<leftarrow> r_boolean; x15 \<leftarrow> r_text kSmall;
     State_Monad.return \<lparr>rq_profile = x1, rq_count = x2, rq_minimum_resources = x3, rq_isolation = x4, rq_exclusive = x5,
       rq_allow_drain = x6, rq_allow_destructive_reconfiguration = x7, rq_allow_degraded_device = x8,
       rq_allow_shared_device = x9, rq_selector = x10, rq_policy_class = x11, rq_max_evidence_age_ms = x12,
       rq_requester = x13, rq_all_or_nothing = x14, rq_request_tag = x15\<rparr> }"

definition request_ok :: "partition_request \<Rightarrow> bool" where
  "request_ok v \<longleftrightarrow> rv_ok (rq_minimum_resources v) \<and> isolation_requirement_ok (rq_isolation v) \<and>
     device_selector_ok (rq_selector v) \<and> text_ok kSmall (rq_policy_class v) \<and>
     text_ok kSmall (rq_requester v) \<and> text_ok kSmall (rq_request_tag v)"

lemma request_trip [codec_trip]: "request_ok v \<Longrightarrow> trip 150 (encode_request v) decode_request v"
  by (rule trip_weaken, unfold encode_request_def decode_request_def,
      (rule codec_trip | simp add: request_ok_def enum_sizes)+)

lemma request_safe [codec_safe]: "safe_decoder decode_request"
  unfolding decode_request_def by (intro codec_safe)

lemma request_canon [codec_only]: "canon encode_request decode_request request_ok"
  unfolding decode_request_def
  by (rule canon_sound, (rule sound_bind, rule codec_only, (rule codec_safe)+)+, rule sound_return)
    (auto simp: request_ok_def encode_request_def simp del: w_seq.simps intro!: encodes_seq encodes_last)

definition encode_attempt :: "(partition_attempt \<times> string \<times> string) \<Rightarrow> byte_writer \<Rightarrow> byte_writer" where
  "encode_attempt v =
     w_seq [w_u64 (at_id (fst v)), encode_enum attempt_kind_enum (at_kind (fst v)),
       w_u64 (at_reservation (fst v)), w_u64 (at_accelerator (fst v)),
       w_u64 (at_accelerator_generation (fst v)), w_u64 (at_accelerator_boot (fst v)),
       w_u64 (at_capability_generation (fst v)), w_u64 (at_coordinator_epoch (fst v)),
       w_u64 (at_worker (fst v)), w_u64 (at_worker_boot (fst v)), w_list w_u64 (at_partitions (fst v)),
       w_list encode_planned_partition (at_desired (fst v)),
       encode_enum attempt_state_enum (at_state (fst v)), w_u64 (at_token (fst v)),
       w_u64 (at_registered_at_ms (fst v)), w_u64 (at_dispatched_at_ms (fst v)),
       w_u64 (at_settled_at_ms (fst v)), w_text (fst (snd v)) kSmall, w_text (snd (snd v)) kSmall]"

definition decode_attempt :: "(partition_attempt \<times> string \<times> string) decoder" where
  "decode_attempt = do {
     x1 \<leftarrow> r_u64; x2 \<leftarrow> decode_enum attempt_kind_enum 3; x3 \<leftarrow> r_u64;
     x4 \<leftarrow> r_u64; x5 \<leftarrow> r_u64; x6 \<leftarrow> r_u64; x7 \<leftarrow> r_u64;
     x8 \<leftarrow> r_u64; x9 \<leftarrow> r_u64; x10 \<leftarrow> r_u64;
     x11 \<leftarrow> r_list 256 8 r_u64; x12 \<leftarrow> r_list 256 4 decode_planned_partition;
     x13 \<leftarrow> decode_enum attempt_state_enum 6; x14 \<leftarrow> r_u64; x15 \<leftarrow> r_u64;
     x16 \<leftarrow> r_u64; x17 \<leftarrow> r_u64; x18 \<leftarrow> r_text kSmall;
     x19 \<leftarrow> r_text kSmall;
     State_Monad.return (\<lparr>at_id = x1, at_kind = x2, at_reservation = x3, at_accelerator = x4, at_accelerator_generation = x5,
       at_accelerator_boot = x6, at_capability_generation = x7, at_coordinator_epoch = x8, at_worker = x9,
       at_worker_boot = x10, at_partitions = x11, at_desired = x12, at_state = x13, at_token = x14,
       at_registered_at_ms = x15, at_dispatched_at_ms = x16, at_settled_at_ms = x17\<rparr>, x18, x19) }"

definition attempt_ok :: "(partition_attempt \<times> string \<times> string) \<Rightarrow> bool" where
  "attempt_ok v \<longleftrightarrow> enum_index attempt_kind_enum (at_kind (fst v)) < 3 \<and>
     length (at_partitions (fst v)) \<le> 256 \<and>
     length (at_desired (fst v)) \<le> 256 \<and> (\<forall>x\<in>set (at_desired (fst v)). planned_partition_ok x) \<and>
     enum_index attempt_state_enum (at_state (fst v)) < 6 \<and> text_ok kSmall (fst (snd v)) \<and>
     text_ok kSmall (snd (snd v))"

lemma attempt_trip [codec_trip]: "attempt_ok v \<Longrightarrow> trip 122 (encode_attempt v) decode_attempt v"
  by (rule trip_weaken, unfold encode_attempt_def decode_attempt_def,
      (rule codec_trip | simp add: attempt_ok_def enum_sizes prod_eq_iff)+)

lemma attempt_safe [codec_safe]: "safe_decoder decode_attempt"
  unfolding decode_attempt_def by (intro codec_safe)

lemma attempt_canon [codec_only]: "canon encode_attempt decode_attempt attempt_ok"
  unfolding decode_attempt_def
  by (rule canon_sound, (rule sound_bind, rule codec_only, (rule codec_safe)+)+, rule sound_return)
    (auto simp: attempt_ok_def encode_attempt_def simp del: w_seq.simps intro!: encodes_seq encodes_last)

definition encode_worker :: "(worker_record \<times> string) \<Rightarrow> byte_writer \<Rightarrow> byte_writer" where
  "encode_worker v =
     w_seq [w_u64 (wk_id (fst v)), w_u64 (wk_boot (fst v)), w_text (wk_endpoint (fst v)) kSmall,
       w_text (wk_backend (fst v)) kSmall, w_boolean (wk_alive (fst v)), w_boolean (wk_fenced (fst v)),
       w_u32 (wk_device_count (fst v)), w_u64 (wk_registered_at_ms (fst v)),
       w_u64 (wk_last_seen_ms (fst v)), w_u64 (wk_fenced_at_ms (fst v)), w_text (snd v) kSmall,
       w_u64 (wk_coordinator_epoch (fst v))]"

definition decode_worker :: "(worker_record \<times> string) decoder" where
  "decode_worker = do {
     x1 \<leftarrow> r_u64; x2 \<leftarrow> r_u64; x3 \<leftarrow> r_text kSmall;
     x4 \<leftarrow> r_text kSmall; x5 \<leftarrow> r_boolean; x6 \<leftarrow> r_boolean;
     x7 \<leftarrow> r_u32; x8 \<leftarrow> r_u64; x9 \<leftarrow> r_u64; x10 \<leftarrow> r_u64;
     x11 \<leftarrow> r_text kSmall; x12 \<leftarrow> r_u64;
     State_Monad.return (\<lparr>wk_id = x1, wk_boot = x2, wk_endpoint = x3, wk_backend = x4, wk_alive = x5, wk_fenced = x6,
       wk_device_count = x7, wk_registered_at_ms = x8, wk_last_seen_ms = x9, wk_fenced_at_ms = x10,
       wk_coordinator_epoch = x12\<rparr>, x11) }"

definition worker_ok :: "(worker_record \<times> string) \<Rightarrow> bool" where
  "worker_ok v \<longleftrightarrow> text_ok kSmall (wk_endpoint (fst v)) \<and> text_ok kSmall (wk_backend (fst v)) \<and>
     text_ok kSmall (snd v)"

lemma worker_trip [codec_trip]: "worker_ok v \<Longrightarrow> trip 66 (encode_worker v) decode_worker v"
  by (rule trip_weaken, unfold encode_worker_def decode_worker_def,
      (rule codec_trip | simp add: worker_ok_def enum_sizes prod_eq_iff)+)

lemma worker_safe [codec_safe]: "safe_decoder decode_worker"
  unfolding decode_worker_def by (intro codec_safe)

lemma worker_canon [codec_only]: "canon encode_worker decode_worker worker_ok"
  unfolding decode_worker_def
  by (rule canon_sound, (rule sound_bind, rule codec_only, (rule codec_safe)+)+, rule sound_return)
    (auto simp: worker_ok_def encode_worker_def simp del: w_seq.simps intro!: encodes_seq encodes_last)

section \<open>Backend messages\<close>

definition encode_native_partition :: "backend_native_partition \<Rightarrow> byte_writer \<Rightarrow> byte_writer" where
  "encode_native_partition v =
     w_seq [w_text (bn_native_id v) kSmall, w_text (bn_instance_uuid v) kSmall,
       w_text (bn_vendor_native_profile v) kSmall, w_u64 (bn_profile v), encode_rv (bn_resources v),
       w_text (bn_isolation_domain v) kSmall, encode_isolation (bn_isolation v), w_boolean (bn_live v)]"

definition decode_native_partition :: "backend_native_partition decoder" where
  "decode_native_partition = do {
     x1 \<leftarrow> r_text kSmall; x2 \<leftarrow> r_text kSmall; x3 \<leftarrow> r_text kSmall;
     x4 \<leftarrow> r_u64; x5 \<leftarrow> decode_rv; x6 \<leftarrow> r_text kSmall;
     x7 \<leftarrow> decode_isolation; x8 \<leftarrow> r_boolean;
     State_Monad.return \<lparr>bn_native_id = x1, bn_instance_uuid = x2, bn_vendor_native_profile = x3, bn_profile = x4,
       bn_resources = x5, bn_isolation_domain = x6, bn_isolation = x7, bn_live = x8\<rparr> }"

definition native_partition_ok :: "backend_native_partition \<Rightarrow> bool" where
  "native_partition_ok v \<longleftrightarrow> text_ok kSmall (bn_native_id v) \<and> text_ok kSmall (bn_instance_uuid v) \<and>
     text_ok kSmall (bn_vendor_native_profile v) \<and> rv_ok (bn_resources v) \<and>
     text_ok kSmall (bn_isolation_domain v) \<and> isolation_ok (bn_isolation v)"

lemma native_partition_trip [codec_trip]: "native_partition_ok v \<Longrightarrow> trip 97 (encode_native_partition v) decode_native_partition v"
  by (rule trip_weaken, unfold encode_native_partition_def decode_native_partition_def,
      (rule codec_trip | simp add: native_partition_ok_def enum_sizes)+)

lemma native_partition_safe [codec_safe]: "safe_decoder decode_native_partition"
  unfolding decode_native_partition_def by (intro codec_safe)

lemma native_partition_canon [codec_only]: "canon encode_native_partition decode_native_partition native_partition_ok"
  unfolding decode_native_partition_def
  by (rule canon_sound, (rule sound_bind, rule codec_only, (rule codec_safe)+)+, rule sound_return)
    (auto simp: native_partition_ok_def encode_native_partition_def simp del: w_seq.simps intro!: encodes_seq encodes_last)

lemma native_partition_list_trip [codec_trip]:
  "length xs \<le> m \<Longrightarrow> \<forall>x\<in>set xs. native_partition_ok x \<Longrightarrow> m < 2 ^ 32 \<Longrightarrow> trip 4 (w_list encode_native_partition xs) (r_list m 4 decode_native_partition) xs"
  by (rule trip_list, rule trip_weaken, rule native_partition_trip) (simp_all add: enum_sizes)

lemmas native_partition_list_canon [codec_only] = canon_list [OF native_partition_canon native_partition_safe]

definition encode_layout :: "(backend_layout \<times> string) \<Rightarrow> byte_writer \<Rightarrow> byte_writer" where
  "encode_layout v =
     w_seq [w_text (bl_stable_key (fst v)) kSmall, w_boolean (bl_device_present (fst v)),
       w_u64 (bl_boot_id (fst v)), encode_rv (bl_physical_totals (fst v)),
       w_list encode_native_partition (bl_partitions (fst v)), encode_evidence (bl_evidence (fst v)),
       w_text (snd v) kSmall]"

definition decode_layout :: "(backend_layout \<times> string) decoder" where
  "decode_layout = do {
     x1 \<leftarrow> r_text kSmall; x2 \<leftarrow> r_boolean; x3 \<leftarrow> r_u64;
     x4 \<leftarrow> decode_rv; x5 \<leftarrow> r_list 512 4 decode_native_partition;
     x6 \<leftarrow> decode_evidence; x7 \<leftarrow> r_text kSmall;
     State_Monad.return (\<lparr>bl_stable_key = x1, bl_device_present = x2, bl_boot_id = x3, bl_physical_totals = x4,
       bl_partitions = x5, bl_evidence = x6\<rparr>, x7) }"

definition layout_ok :: "(backend_layout \<times> string) \<Rightarrow> bool" where
  "layout_ok v \<longleftrightarrow> text_ok kSmall (bl_stable_key (fst v)) \<and> rv_ok (bl_physical_totals (fst v)) \<and>
     length (bl_partitions (fst v)) \<le> 512 \<and> (\<forall>x\<in>set (bl_partitions (fst v)). native_partition_ok x) \<and>
     evidence_ok (bl_evidence (fst v)) \<and> text_ok kSmall (snd v)"

lemma layout_trip [codec_trip]: "layout_ok v \<Longrightarrow> trip 119 (encode_layout v) decode_layout v"
  by (rule trip_weaken, unfold encode_layout_def decode_layout_def,
      (rule codec_trip | simp add: layout_ok_def enum_sizes prod_eq_iff)+)

lemma layout_safe [codec_safe]: "safe_decoder decode_layout"
  unfolding decode_layout_def by (intro codec_safe)

lemma layout_canon [codec_only]: "canon encode_layout decode_layout layout_ok"
  unfolding decode_layout_def
  by (rule canon_sound, (rule sound_bind, rule codec_only, (rule codec_safe)+)+, rule sound_return)
    (auto simp: layout_ok_def encode_layout_def simp del: w_seq.simps intro!: encodes_seq encodes_last)

definition encode_backend_accelerator :: "backend_accelerator \<Rightarrow> byte_writer \<Rightarrow> byte_writer" where
  "encode_backend_accelerator v =
     w_seq [w_text (ba_stable_key v) kSmall, w_text (ba_backend v) kSmall, encode_identifiers (ba_identifiers v),
       encode_rv (ba_physical_totals v), encode_capability (ba_capability v),
       w_list encode_profile (ba_profiles v), w_u64 (ba_boot_id v), encode_locality (ba_locality v),
       encode_evidence (ba_evidence v), encode_enum provenance_enum (ba_provenance v),
       w_text (ba_unsupported_reason v) kSmall]"

definition decode_backend_accelerator :: "backend_accelerator decoder" where
  "decode_backend_accelerator = do {
     x1 \<leftarrow> r_text kSmall; x2 \<leftarrow> r_text kSmall; x3 \<leftarrow> decode_identifiers;
     x4 \<leftarrow> decode_rv; x5 \<leftarrow> decode_capability;
     x6 \<leftarrow> r_list 512 8 decode_profile; x7 \<leftarrow> r_u64; x8 \<leftarrow> decode_locality;
     x9 \<leftarrow> decode_evidence; x10 \<leftarrow> decode_enum provenance_enum 4;
     x11 \<leftarrow> r_text kSmall;
     State_Monad.return \<lparr>ba_stable_key = x1, ba_backend = x2, ba_identifiers = x3, ba_physical_totals = x4,
       ba_capability = x5, ba_profiles = x6, ba_boot_id = x7, ba_locality = x8, ba_evidence = x9,
       ba_provenance = x10, ba_unsupported_reason = x11\<rparr> }"

definition backend_accelerator_ok :: "backend_accelerator \<Rightarrow> bool" where
  "backend_accelerator_ok v \<longleftrightarrow> text_ok kSmall (ba_stable_key v) \<and> text_ok kSmall (ba_backend v) \<and>
     identifiers_ok (ba_identifiers v) \<and> rv_ok (ba_physical_totals v) \<and>
     capability_ok (ba_capability v) \<and>
     length (ba_profiles v) \<le> 512 \<and> (\<forall>x\<in>set (ba_profiles v). profile_ok x) \<and>
     locality_ok (ba_locality v) \<and> evidence_ok (ba_evidence v) \<and>
     enum_index provenance_enum (ba_provenance v) < 4 \<and> text_ok kSmall (ba_unsupported_reason v)"

lemma backend_accelerator_trip [codec_trip]: "backend_accelerator_ok v \<Longrightarrow> trip 377 (encode_backend_accelerator v) decode_backend_accelerator v"
  by (rule trip_weaken, unfold encode_backend_accelerator_def decode_backend_accelerator_def,
      (rule codec_trip | simp add: backend_accelerator_ok_def enum_sizes)+)

lemma backend_accelerator_safe [codec_safe]: "safe_decoder decode_backend_accelerator"
  unfolding decode_backend_accelerator_def by (intro codec_safe)

definition encode_native_spec :: "native_partition_spec \<Rightarrow> byte_writer \<Rightarrow> byte_writer" where
  "encode_native_spec v =
     w_seq [w_text (ns_vendor_native_profile v) kSmall, w_u64 (ns_profile v), encode_rv (ns_resources v),
       w_text (ns_existing_native_id v) kSmall, w_u64 (ns_logical_partition v)]"

definition decode_native_spec :: "native_partition_spec decoder" where
  "decode_native_spec = do {
     x1 \<leftarrow> r_text kSmall; x2 \<leftarrow> r_u64; x3 \<leftarrow> decode_rv;
     x4 \<leftarrow> r_text kSmall; x5 \<leftarrow> r_u64;
     State_Monad.return \<lparr>ns_vendor_native_profile = x1, ns_profile = x2, ns_resources = x3, ns_existing_native_id = x4,
       ns_logical_partition = x5\<rparr> }"

definition native_spec_ok :: "native_partition_spec \<Rightarrow> bool" where
  "native_spec_ok v \<longleftrightarrow> text_ok kSmall (ns_vendor_native_profile v) \<and> rv_ok (ns_resources v) \<and>
     text_ok kSmall (ns_existing_native_id v)"

lemma native_spec_trip [codec_trip]: "native_spec_ok v \<Longrightarrow> trip 92 (encode_native_spec v) decode_native_spec v"
  by (rule trip_weaken, unfold encode_native_spec_def decode_native_spec_def,
      (rule codec_trip | simp add: native_spec_ok_def enum_sizes)+)

lemma native_spec_safe [codec_safe]: "safe_decoder decode_native_spec"
  unfolding decode_native_spec_def by (intro codec_safe)

lemma native_spec_canon [codec_only]: "canon encode_native_spec decode_native_spec native_spec_ok"
  unfolding decode_native_spec_def
  by (rule canon_sound, (rule sound_bind, rule codec_only, (rule codec_safe)+)+, rule sound_return)
    (auto simp: native_spec_ok_def encode_native_spec_def simp del: w_seq.simps intro!: encodes_seq encodes_last)

lemma native_spec_list_trip [codec_trip]:
  "length xs \<le> m \<Longrightarrow> \<forall>x\<in>set xs. native_spec_ok x \<Longrightarrow> m < 2 ^ 32 \<Longrightarrow> trip 4 (w_list encode_native_spec xs) (r_list m 4 decode_native_spec) xs"
  by (rule trip_list, rule trip_weaken, rule native_spec_trip) (simp_all add: enum_sizes)

lemmas native_spec_list_canon [codec_only] = canon_list [OF native_spec_canon native_spec_safe]

definition encode_mutation_request :: "mutation_request \<Rightarrow> byte_writer \<Rightarrow> byte_writer" where
  "encode_mutation_request v =
     w_seq [w_text (mr_stable_key v) kSmall, w_u64 (mr_expected_boot v),
       w_u64 (mr_expected_accelerator_generation v), w_u64 (mr_expected_capability_generation v),
       w_u64 (mr_coordinator_epoch v), w_u64 (mr_worker v), w_u64 (mr_worker_boot v), w_u64 (mr_attempt v),
       w_u64 (mr_idempotency_token v), w_boolean (mr_destructive v),
       w_boolean (mr_full_device_reconfiguration v), w_list encode_native_spec (mr_desired v),
       w_list (\<lambda>v. w_text v kSmall) (mr_remove_native_ids v)]"

definition decode_mutation_request :: "mutation_request decoder" where
  "decode_mutation_request = do {
     x1 \<leftarrow> r_text kSmall; x2 \<leftarrow> r_u64; x3 \<leftarrow> r_u64; x4 \<leftarrow> r_u64;
     x5 \<leftarrow> r_u64; x6 \<leftarrow> r_u64; x7 \<leftarrow> r_u64; x8 \<leftarrow> r_u64;
     x9 \<leftarrow> r_u64; x10 \<leftarrow> r_boolean; x11 \<leftarrow> r_boolean;
     x12 \<leftarrow> r_list 256 4 decode_native_spec; x13 \<leftarrow> r_list 256 4 (r_text kSmall);
     State_Monad.return \<lparr>mr_stable_key = x1, mr_expected_boot = x2, mr_expected_accelerator_generation = x3,
       mr_expected_capability_generation = x4, mr_coordinator_epoch = x5, mr_worker = x6,
       mr_worker_boot = x7, mr_attempt = x8, mr_idempotency_token = x9, mr_destructive = x10,
       mr_full_device_reconfiguration = x11, mr_desired = x12, mr_remove_native_ids = x13\<rparr> }"

definition mutation_request_ok :: "mutation_request \<Rightarrow> bool" where
  "mutation_request_ok v \<longleftrightarrow> text_ok kSmall (mr_stable_key v) \<and>
     length (mr_desired v) \<le> 256 \<and> (\<forall>x\<in>set (mr_desired v). native_spec_ok x) \<and>
     length (mr_remove_native_ids v) \<le> 256 \<and> (\<forall>x\<in>set (mr_remove_native_ids v). text_ok kSmall x)"

lemma mutation_request_trip [codec_trip]: "mutation_request_ok v \<Longrightarrow> trip 78 (encode_mutation_request v) decode_mutation_request v"
  by (rule trip_weaken, unfold encode_mutation_request_def decode_mutation_request_def,
      (rule codec_trip | simp add: mutation_request_ok_def enum_sizes)+)

lemma mutation_request_safe [codec_safe]: "safe_decoder decode_mutation_request"
  unfolding decode_mutation_request_def by (intro codec_safe)

lemma mutation_request_canon [codec_only]: "canon encode_mutation_request decode_mutation_request mutation_request_ok"
  unfolding decode_mutation_request_def
  by (rule canon_sound, (rule sound_bind, rule codec_only, (rule codec_safe)+)+, rule sound_return)
    (auto simp: mutation_request_ok_def encode_mutation_request_def simp del: w_seq.simps intro!: encodes_seq encodes_last)

definition encode_mutation_result :: "(mutation_result \<times> string \<times> string) \<Rightarrow> byte_writer \<Rightarrow> byte_writer" where
  "encode_mutation_result v =
     w_seq [w_boolean (mu_accepted (fst v)), w_boolean (mu_ambiguous (fst v)),
       w_list (\<lambda>v. w_text v kSmall) (mu_created_native_ids (fst v)), w_text (fst (snd v)) kSmall,
       encode_layout ((mu_observed_layout (fst v), snd (snd v)))]"

definition decode_mutation_result :: "(mutation_result \<times> string \<times> string) decoder" where
  "decode_mutation_result = do {
     x1 \<leftarrow> r_boolean; x2 \<leftarrow> r_boolean; x3 \<leftarrow> r_list 256 4 (r_text kSmall);
     x4 \<leftarrow> r_text kSmall; x5 \<leftarrow> decode_layout;
     State_Monad.return (\<lparr>mu_accepted = x1, mu_ambiguous = x2, mu_created_native_ids = x3, mu_observed_layout = fst x5\<rparr>, x4, snd x5) }"

definition mutation_result_ok :: "(mutation_result \<times> string \<times> string) \<Rightarrow> bool" where
  "mutation_result_ok v \<longleftrightarrow> length (mu_created_native_ids (fst v)) \<le> 256 \<and> (\<forall>x\<in>set (mu_created_native_ids (fst v)). text_ok kSmall x) \<and>
     text_ok kSmall (fst (snd v)) \<and> layout_ok ((mu_observed_layout (fst v), snd (snd v)))"

lemma mutation_result_trip [codec_trip]: "mutation_result_ok v \<Longrightarrow> trip 129 (encode_mutation_result v) decode_mutation_result v"
  by (rule trip_weaken, unfold encode_mutation_result_def decode_mutation_result_def,
      (rule codec_trip | simp add: mutation_result_ok_def enum_sizes prod_eq_iff)+)

lemma mutation_result_safe [codec_safe]: "safe_decoder decode_mutation_result"
  unfolding decode_mutation_result_def by (intro codec_safe)

lemma mutation_result_canon [codec_only]: "canon encode_mutation_result decode_mutation_result mutation_result_ok"
  unfolding decode_mutation_result_def
  by (rule canon_sound, (rule sound_bind, rule codec_only, (rule codec_safe)+)+, rule sound_return)
    (auto simp: mutation_result_ok_def encode_mutation_result_def simp del: w_seq.simps intro!: encodes_seq encodes_last)

section \<open>Limits and ledgers\<close>

text \<open>A \<^verbatim>\<open>size_t\<close> travels as 64 bits.\<close>

definition w_size :: "nat \<Rightarrow> byte_writer \<Rightarrow> byte_writer" where
  "w_size n = w_u64 (word_of_nat n)"

definition r_size :: "nat decoder" where
  "r_size = do { v \<leftarrow> r_u64; State_Monad.return (unat v) }"

lemma size_trip [codec_trip]:
  assumes "n < 2 ^ 64"
  shows "trip 8 (w_size n) r_size n"
proof -
  obtain bs where b: "8 \<le> length bs" "encodes (w_u64 (word_of_nat n)) True bs" "reads r_u64 (word_of_nat n) bs"
    using trip_u64 [of "word_of_nat n"] by (rule tripE)
  have "unat (word_of_nat n :: u64) = n" using assms by (simp add: unat_of_nat take_bit_nat_def)
  then have "reads r_size n (bs @ [])"
    unfolding r_size_def using reads_return [of n] by (intro reads_bind [OF b(3)]) simp
  with b(1,2) show ?thesis by (intro tripI) (simp_all add: w_size_def)
qed

lemma size_safe [codec_safe]: "safe_decoder r_size"
  unfolding r_size_def by (intro codec_safe)

lemma size_canon [codec_only]: "canon w_size r_size (\<lambda>n. n < 2 ^ 64)"
  unfolding r_size_def
proof (rule canon_sound [OF sound_bind [OF canon_u64 safe_u64 sound_return]])
  fix n bs
  assume "\<exists>x as cs. bs = as @ cs \<and> (True \<and> encodes (w_u64 x) True as) \<and> n = unat x \<and> cs = []"
  then obtain x where "encodes (w_u64 x) True bs" "n = unat x" by auto
  then show "n < 2 ^ 64 \<and> encodes (w_size n) True bs"
    using unat_u64_bound [of x] by (simp add: w_size_def)
qed

definition encode_limits :: "limits \<Rightarrow> byte_writer \<Rightarrow> byte_writer" where
  "encode_limits v =
     w_seq [w_size (max_accelerators v), w_size (max_profiles v), w_size (max_partitions_per_accelerator v),
       w_size (max_partitions v), w_size (max_assignments v), w_size (max_reservations v),
       w_size (max_active_reservations v), w_size (max_pending_plans v), w_size (max_plan_steps v),
       w_size (max_pending_attempts v), w_size (max_attempt_history v), w_size (max_snapshot_retention v),
       w_size (max_events v), w_size (max_explanations v), w_size (max_reconciliation_findings v),
       w_size (max_metadata_bytes v), w_size (max_native_id_bytes v), w_size (max_name_bytes v),
       w_size (max_workers v), w_size (max_frame_bytes v), w_size (max_message_queue v),
       w_size (max_synthetic_devices v), w_size (max_synthetic_partitions v),
       w_size (max_persisted_records v), w_size (max_profile_exclusions v), w_size (max_retry_state v)]"

definition read_limits :: "limits decoder" where
  "read_limits = do {
     x1 \<leftarrow> r_size; x2 \<leftarrow> r_size; x3 \<leftarrow> r_size; x4 \<leftarrow> r_size;
     x5 \<leftarrow> r_size; x6 \<leftarrow> r_size; x7 \<leftarrow> r_size; x8 \<leftarrow> r_size;
     x9 \<leftarrow> r_size; x10 \<leftarrow> r_size; x11 \<leftarrow> r_size; x12 \<leftarrow> r_size;
     x13 \<leftarrow> r_size; x14 \<leftarrow> r_size; x15 \<leftarrow> r_size; x16 \<leftarrow> r_size;
     x17 \<leftarrow> r_size; x18 \<leftarrow> r_size; x19 \<leftarrow> r_size; x20 \<leftarrow> r_size;
     x21 \<leftarrow> r_size; x22 \<leftarrow> r_size; x23 \<leftarrow> r_size; x24 \<leftarrow> r_size;
     x25 \<leftarrow> r_size; x26 \<leftarrow> r_size;
     State_Monad.return \<lparr>max_accelerators = x1, max_profiles = x2, max_partitions_per_accelerator = x3,
          max_partitions = x4, max_assignments = x5, max_reservations = x6, max_active_reservations = x7,
          max_pending_plans = x8, max_plan_steps = x9, max_pending_attempts = x10,
          max_attempt_history = x11, max_snapshot_retention = x12, max_events = x13, max_explanations = x14,
          max_reconciliation_findings = x15, max_metadata_bytes = x16, max_native_id_bytes = x17,
          max_name_bytes = x18, max_workers = x19, max_frame_bytes = x20, max_message_queue = x21,
          max_synthetic_devices = x22, max_synthetic_partitions = x23, max_persisted_records = x24,
          max_profile_exclusions = x25, max_retry_state = x26\<rparr> }"

definition decode_limits :: "limits decoder" where
  "decode_limits = do { v \<leftarrow> read_limits; r_check v (limits_validate v) }"

definition sizes_ok :: "limits \<Rightarrow> bool" where
  "sizes_ok v \<longleftrightarrow> max_accelerators v < 2 ^ 64 \<and> max_profiles v < 2 ^ 64 \<and>
     max_partitions_per_accelerator v < 2 ^ 64 \<and> max_partitions v < 2 ^ 64 \<and>
     max_assignments v < 2 ^ 64 \<and> max_reservations v < 2 ^ 64 \<and>
     max_active_reservations v < 2 ^ 64 \<and> max_pending_plans v < 2 ^ 64 \<and>
     max_plan_steps v < 2 ^ 64 \<and> max_pending_attempts v < 2 ^ 64 \<and>
     max_attempt_history v < 2 ^ 64 \<and> max_snapshot_retention v < 2 ^ 64 \<and>
     max_events v < 2 ^ 64 \<and> max_explanations v < 2 ^ 64 \<and>
     max_reconciliation_findings v < 2 ^ 64 \<and> max_metadata_bytes v < 2 ^ 64 \<and>
     max_native_id_bytes v < 2 ^ 64 \<and> max_name_bytes v < 2 ^ 64 \<and> max_workers v < 2 ^ 64 \<and>
     max_frame_bytes v < 2 ^ 64 \<and> max_message_queue v < 2 ^ 64 \<and>
     max_synthetic_devices v < 2 ^ 64 \<and> max_synthetic_partitions v < 2 ^ 64 \<and>
     max_persisted_records v < 2 ^ 64 \<and> max_profile_exclusions v < 2 ^ 64 \<and>
     max_retry_state v < 2 ^ 64"

definition limits_ok :: "limits \<Rightarrow> bool" where
  "limits_ok v \<longleftrightarrow> sizes_ok v \<and> limits_validate v = success"

lemma read_limits_trip: "sizes_ok v \<Longrightarrow> trip 208 (encode_limits v) read_limits v"
  by (rule trip_weaken, unfold encode_limits_def read_limits_def, (rule codec_trip | simp add: sizes_ok_def)+)

lemma read_limits_safe [codec_safe]: "safe_decoder read_limits"
  unfolding read_limits_def by (intro codec_safe)

lemma read_limits_canon: "canon encode_limits read_limits sizes_ok"
  unfolding read_limits_def
  by (rule canon_sound, (rule sound_bind, rule size_canon, rule size_safe)+, rule sound_return, (elim exE conjE)?,
      simp only: sizes_ok_def encode_limits_def limits.select_convs simp_thms append_Nil2,
      intro encodes_seq encodes_last)

lemma limits_trip: "limits_ok v \<Longrightarrow> trip 208 (encode_limits v) decode_limits v"
proof -
  assume ok: "limits_ok v"
  then obtain bs where b: "208 \<le> length bs" "encodes (encode_limits v) True bs" "reads read_limits v bs"
    using read_limits_trip by (auto simp: limits_ok_def elim: tripE)
  have "reads (r_check v (limits_validate v)) v []"
    using ok by (simp add: limits_ok_def reads_def r_check_def)
  from reads_bind [where k = "\<lambda>v. r_check v (limits_validate v)", OF b(3) this] b(1,2) show ?thesis
    unfolding decode_limits_def by (intro tripI) simp_all
qed

lemma limits_safe [codec_safe]: "safe_decoder decode_limits"
  unfolding decode_limits_def by (intro codec_safe)

lemma limits_canon: "canon encode_limits decode_limits limits_ok"
  unfolding decode_limits_def
  by (rule canon_sound [OF sound_bind [OF read_limits_canon read_limits_safe sound_check]]) (auto simp: limits_ok_def)

text \<open>
  A decoded ledger is rebuilt from its totals; each bucket is restored only if it carries the
  dimensions of the totals, and the closure check has the last word.
\<close>

fun restore_buckets :: "resource_vector \<Rightarrow> nat \<Rightarrow> resource_vector list \<Rightarrow> capacity_ledger \<Rightarrow> capacity_ledger \<times> status" where
  "restore_buckets totals i [] l = (l, success)"
| "restore_buckets totals i (b # bs) l =
     (if \<not> same_dimensions b totals then (l, failure E_CorruptState)
      else restore_buckets totals (i + 1) bs (l\<lparr>cl_buckets := (cl_buckets l)[i := b]\<rparr>))"

definition encode_ledger :: "capacity_ledger \<Rightarrow> byte_writer \<Rightarrow> byte_writer" where
  "encode_ledger v = w_seq [encode_rv (cl_total v), w_seq (map encode_rv (cl_buckets v))]"

definition rebuild_ledger :: "resource_vector \<Rightarrow> resource_vector list \<Rightarrow> capacity_ledger \<times> status" where
  "rebuild_ledger totals buckets =
     (case initialize_totals totals ledger_empty of
        (l, Inl e) \<Rightarrow> (l, Inl e)
      | (l, Inr _) \<Rightarrow>
          (case restore_buckets totals 0 buckets l of
             (l', Inl e) \<Rightarrow> (l', Inl e)
           | (l', Inr _) \<Rightarrow> (l', ledger_validate l')))"

definition decode_ledger :: "capacity_ledger decoder" where
  "decode_ledger = do {
     totals \<leftarrow> decode_rv;
     buckets \<leftarrow> r_times kCapacityBucketCount decode_rv;
     (case rebuild_ledger totals buckets of
        (l, Inl e) \<Rightarrow> do { r_fail e; State_Monad.return l }
      | (l, Inr _) \<Rightarrow> State_Monad.return l) }"

definition ledger_ok :: "capacity_ledger \<Rightarrow> bool" where
  "ledger_ok l \<longleftrightarrow> rv_ok (cl_total l) \<and> length (cl_buckets l) = 6 \<and> (\<forall>b\<in>set (cl_buckets l). rv_ok b) \<and>
     (\<forall>b\<in>set (cl_buckets l). same_dimensions b (cl_total l)) \<and> ledger_validate l = success"

lemma restore_buckets_ok:
  assumes "length (cl_buckets l) = i + length bs"
  shows "restore_buckets totals i bs l =
    (if \<forall>b\<in>set bs. same_dimensions b totals
     then (l\<lparr>cl_buckets := take i (cl_buckets l) @ bs\<rparr>, success)
     else (fst (restore_buckets totals i bs l), failure E_CorruptState))"
  using assms
proof (induction bs arbitrary: i l)
  case (Cons b bs)
  let ?l = "l\<lparr>cl_buckets := (cl_buckets l)[i := b]\<rparr>"
  have "take (Suc i) ((cl_buckets l)[i := b]) = take i (cl_buckets l) @ [b]"
    using Cons.prems by (simp add: take_Suc_conv_app_nth)
  with Cons.IH [of ?l "Suc i"] Cons.prems show ?case by (auto simp: split: if_splits)
qed simp

lemma rebuild_ledger_iff:
  assumes "rv_ok totals" "length buckets = 6"
  shows "rebuild_ledger totals buckets = (l, success) \<longleftrightarrow>
     l = \<lparr>cl_buckets = buckets, cl_total = totals\<rparr> \<and> (\<forall>b\<in>set buckets. same_dimensions b totals) \<and>
     \<not> rv_empty totals \<and> ledger_validate l = success"
proof -
  have wf: "rv_wf totals" "validate_dimensions totals = success" using assms(1) by (simp_all add: rv_ok_def rv_wf_def)
  show ?thesis
  proof (cases "rv_empty totals")
    case True
    then show ?thesis by (simp add: rebuild_ledger_def initialize_totals_def wf(2))
  next
    case False
    obtain l0 where l0: "initialize_totals totals ledger_empty = (l0, success)" "cl_total l0 = totals" "ledger_closed l0"
      using initialize_totals_closed [OF wf False, of ledger_empty] by blast
    have len: "length (cl_buckets l0) = 6" using l0(3) by (simp add: ledger_closed_def ledger_balanced_def ledger_wf_def)
    have "l0\<lparr>cl_buckets := buckets\<rparr> = \<lparr>cl_buckets = buckets, cl_total = totals\<rparr>" using l0(2) by simp
    moreover note restore_buckets_ok [of l0 0 buckets totals]
    ultimately show ?thesis
      using l0(1) len assms(2) False by (auto simp: rebuild_ledger_def split: prod.splits sum.splits if_splits)
  qed
qed

lemma ledger_nonempty: "ledger_validate l = success \<Longrightarrow> \<not> rv_empty (cl_total l)"
  by (simp add: ledger_validate_iff)

lemma ledger_trip: "ledger_ok l \<Longrightarrow> trip 476 (encode_ledger l) decode_ledger l"
proof -
  assume ok: "ledger_ok l"
  have "rebuild_ledger (cl_total l) (cl_buckets l) = (l, success)"
    using ok by (subst rebuild_ledger_iff) (auto simp: ledger_ok_def dest: ledger_nonempty)
  then have "trip 0 (w_seq []) (case rebuild_ledger (cl_total l) (cl_buckets l) of
        (l, Inl e) \<Rightarrow> do { r_fail e; State_Monad.return l } | (l, Inr _) \<Rightarrow> State_Monad.return l) l"
    using trip_return [of l l] by (simp del: w_seq.simps)
  moreover have "trip (6 * 68) (w_seq (map encode_rv (cl_buckets l))) (r_times 6 decode_rv) (cl_buckets l)"
    using ok by (intro trip_times rv_trip) (auto simp: ledger_ok_def)
  moreover have "trip 68 (encode_rv (cl_total l)) decode_rv (cl_total l)"
    using ok by (intro rv_trip) (simp add: ledger_ok_def)
  ultimately have "trip (68 + (6 * 68 + 0)) (encode_ledger l) decode_ledger l"
    unfolding encode_ledger_def decode_ledger_def by (intro trip_bind)
  then show ?thesis by simp
qed

lemma ledger_safe [codec_safe]: "safe_decoder decode_ledger"
  unfolding decode_ledger_def
  by (intro codec_safe) (auto split: prod.split sum.split intro!: codec_safe)

lemma ledger_canon: "canon encode_ledger decode_ledger ledger_ok"
  unfolding decode_ledger_def
proof (rule canon_sound [OF sound_bind [OF rv_canon rv_safe sound_bind [OF canon_times [OF rv_canon rv_safe] safe_times [OF rv_safe]]]])
  show "sound (case rebuild_ledger totals buckets of
        (l, Inl e) \<Rightarrow> do { r_fail e; State_Monad.return l } | (l, Inr _) \<Rightarrow> State_Monad.return l)
      (\<lambda>l bs. rebuild_ledger totals buckets = (l, success) \<and> bs = [])" for totals buckets
    by (auto simp: sound_def accepts_only_def consumed_def split: prod.split sum.split intro!: codec_safe)
next
  fix l bs
  assume "\<exists>totals as cs. bs = as @ cs \<and> (rv_ok totals \<and> encodes (encode_rv totals) True as) \<and>
    (\<exists>buckets as' cs'. cs = as' @ cs' \<and> ((length buckets = 6 \<and> (\<forall>b\<in>set buckets. rv_ok b)) \<and>
       encodes (w_seq (map encode_rv buckets)) True as') \<and> rebuild_ledger totals buckets = (l, success) \<and> cs' = [])"
  then obtain totals as buckets cs where h: "bs = as @ cs" "rv_ok totals" "encodes (encode_rv totals) True as"
    "length buckets = 6" "\<forall>b\<in>set buckets. rv_ok b" "encodes (w_seq (map encode_rv buckets)) True cs"
    "rebuild_ledger totals buckets = (l, success)" by auto
  then have "l = \<lparr>cl_buckets = buckets, cl_total = totals\<rparr>" "\<forall>b\<in>set buckets. same_dimensions b totals"
    "ledger_validate l = success"
    using rebuild_ledger_iff [OF h(2,4), of l] by auto
  with h show "ledger_ok l \<and> encodes (encode_ledger l) True bs"
    by (auto simp: ledger_ok_def encode_ledger_def simp del: w_seq.simps intro!: encodes_seq encodes_last)
qed

section \<open>The codecs satisfy the contract\<close>

interpretation rv_codec: canonical_codec decode_rv encode_rv rv_ok 68
  by unfold_locales (rule rv_safe, erule rv_trip, rule rv_canon)

interpretation isolation_codec: canonical_codec decode_isolation encode_isolation isolation_ok 4
  by unfold_locales (rule isolation_safe, erule isolation_trip, rule isolation_canon)

interpretation evidence_codec: canonical_codec decode_evidence encode_evidence evidence_ok 30
  by unfold_locales (rule evidence_safe, erule evidence_trip, rule evidence_canon)

interpretation alignment_codec: canonical_codec decode_alignment encode_alignment alignment_ok 10
  by unfold_locales (rule alignment_safe, erule alignment_trip, rule alignment_canon)

interpretation profile_codec: canonical_codec decode_profile encode_profile profile_ok 134
  by unfold_locales (rule profile_safe, erule profile_trip, rule profile_canon)

interpretation rule_codec: canonical_codec decode_rule encode_rule rule_ok 17
  by unfold_locales (rule rule_safe, erule rule_trip, rule rule_canon)

interpretation capability_codec: canonical_codec decode_capability encode_capability capability_ok 206
  by unfold_locales (rule capability_safe, erule capability_trip, rule capability_canon)

interpretation identifiers_codec: canonical_codec decode_identifiers encode_identifiers identifiers_ok 36
  by unfold_locales (rule identifiers_safe, erule identifiers_trip, rule identifiers_canon)

interpretation locality_codec: wire_codec decode_locality encode_locality locality_ok 12
  by unfold_locales (rule locality_safe, erule locality_trip)

interpretation health_codec: canonical_codec decode_health encode_health health_ok 35
  by unfold_locales (rule health_safe, erule health_trip, rule health_canon)

interpretation accelerator_codec: wire_codec decode_accelerator encode_accelerator accelerator_ok 444
  by unfold_locales (rule accelerator_safe, erule accelerator_trip)

interpretation native_identity_codec: canonical_codec decode_native_identity encode_native_identity native_identity_ok 16
  by unfold_locales (rule native_identity_safe, erule native_identity_trip, rule native_identity_canon)

interpretation isolation_domain_codec: canonical_codec decode_isolation_domain encode_isolation_domain isolation_domain_ok 9
  by unfold_locales (rule isolation_domain_safe, erule isolation_domain_trip, rule isolation_domain_canon)

interpretation drain_codec: canonical_codec decode_drain encode_drain drain_ok 33
  by unfold_locales (rule drain_safe, erule drain_trip, rule drain_canon)

interpretation partition_codec: canonical_codec decode_partition encode_partition partition_ok 258
  by unfold_locales (rule partition_safe, erule partition_trip, rule partition_canon)

interpretation isolation_requirement_codec: canonical_codec decode_isolation_requirement encode_isolation_requirement isolation_requirement_ok 20
  by unfold_locales (rule isolation_requirement_safe, erule isolation_requirement_trip, rule isolation_requirement_canon)

interpretation assignment_codec: canonical_codec decode_assignment encode_assignment assignment_ok 109
  by unfold_locales (rule assignment_safe, erule assignment_trip, rule assignment_canon)

interpretation weights_codec: canonical_codec decode_weights encode_weights weights_ok 88
  by unfold_locales (rule weights_safe, erule weights_trip, rule weights_canon)

interpretation policy_codec: canonical_codec decode_policy encode_policy policy_ok 156
  by unfold_locales (rule policy_safe, erule policy_trip, rule policy_canon)

interpretation reservation_codec: canonical_codec decode_reservation encode_reservation reservation_ok 218
  by unfold_locales (rule reservation_safe, erule reservation_trip, rule reservation_canon)

interpretation planned_partition_codec: canonical_codec decode_planned_partition encode_planned_partition planned_partition_ok 92
  by unfold_locales (rule planned_partition_safe, erule planned_partition_trip, rule planned_partition_canon)

interpretation device_selector_codec: canonical_codec decode_device_selector encode_device_selector device_selector_ok 24
  by unfold_locales (rule device_selector_safe, erule device_selector_trip, rule device_selector_canon)

interpretation request_codec: canonical_codec decode_request encode_request request_ok 150
  by unfold_locales (rule request_safe, erule request_trip, rule request_canon)

interpretation attempt_codec: canonical_codec decode_attempt encode_attempt attempt_ok 122
  by unfold_locales (rule attempt_safe, erule attempt_trip, rule attempt_canon)

interpretation worker_codec: canonical_codec decode_worker encode_worker worker_ok 66
  by unfold_locales (rule worker_safe, erule worker_trip, rule worker_canon)

interpretation native_partition_codec: canonical_codec decode_native_partition encode_native_partition native_partition_ok 97
  by unfold_locales (rule native_partition_safe, erule native_partition_trip, rule native_partition_canon)

interpretation layout_codec: canonical_codec decode_layout encode_layout layout_ok 119
  by unfold_locales (rule layout_safe, erule layout_trip, rule layout_canon)

interpretation backend_accelerator_codec: wire_codec decode_backend_accelerator encode_backend_accelerator backend_accelerator_ok 377
  by unfold_locales (rule backend_accelerator_safe, erule backend_accelerator_trip)

interpretation native_spec_codec: canonical_codec decode_native_spec encode_native_spec native_spec_ok 92
  by unfold_locales (rule native_spec_safe, erule native_spec_trip, rule native_spec_canon)

interpretation mutation_request_codec: canonical_codec decode_mutation_request encode_mutation_request mutation_request_ok 78
  by unfold_locales (rule mutation_request_safe, erule mutation_request_trip, rule mutation_request_canon)

interpretation mutation_result_codec: canonical_codec decode_mutation_result encode_mutation_result mutation_result_ok 129
  by unfold_locales (rule mutation_result_safe, erule mutation_result_trip, rule mutation_result_canon)

interpretation limits_codec: canonical_codec decode_limits encode_limits limits_ok 208
  by unfold_locales (rule limits_safe, erule limits_trip, rule limits_canon)

interpretation ledger_codec: canonical_codec decode_ledger encode_ledger ledger_ok 476
  by unfold_locales (rule ledger_safe, erule ledger_trip, rule ledger_canon)


text \<open>Every ledger that arrives over the wire is closed.\<close>

lemma ledger_ok_closed:
  assumes "ledger_ok l"
  shows "ledger_closed l"
proof -
  have ok: "rv_ok (cl_total l)" "length (cl_buckets l) = 6" "\<forall>v\<in>set (cl_buckets l). rv_wf v \<and> rv_mask v = rv_mask (cl_total l)"
    and val: "\<not> rv_empty (cl_total l)" "\<forall>i<8. dimension_closes l i"
    using assms by (auto simp: ledger_ok_def rv_ok_def rv_wf_def same_dimensions_def ledger_validate_iff)
  have wf: "ledger_wf l" using ok by (simp add: ledger_wf_def rv_ok_def rv_wf_def validate_dimensions_iff)
  have "bucket_total l i = rv_val (cl_total l) i" if i: "i < 8" for i
  proof (cases "bit (rv_mask (cl_total l)) i")
    case True
    have "hd (cl_buckets l) \<in> set (cl_buckets l)" using ok(2) by (cases "cl_buckets l") auto
    then show ?thesis using val(2) i ok(3) True unfolding dimension_closes_def by metis
  next
    case False
    then show ?thesis using ok(3) by (auto simp: bucket_total_def rv_val_def sum_list_eq_0_iff)
  qed
  then show ?thesis using wf val(1) by (simp add: ledger_closed_def ledger_balanced_def)
qed

end
