(* ===== verification/APF_Registry.thy ===== *)
theory APF_Registry
  imports APF_Records APF_Reserve
begin

text \<open>
  Registration of profiles and devices and publication of capabilities: the validators of
  \<^verbatim>\<open>backend.cpp\<close>, \<^verbatim>\<open>capability_digest\<close>, and the handlers \<^verbatim>\<open>register_profile\<close>,
  \<^verbatim>\<open>register_backend_accelerator\<close>, \<^verbatim>\<open>publish_capability\<close>, \<^verbatim>\<open>register_accelerator\<close> and
  \<^verbatim>\<open>discover\<close> of \<^verbatim>\<open>fabric.cpp\<close>. The result of the discovery call of the backend is an argument.
  These are the only operations that add a device or a ledger; they keep the accounting invariant.
\<close>

section \<open>Validation of backend output\<close>

definition validate_backend_accelerator :: "backend_accelerator \<Rightarrow> limits \<Rightarrow> status" where
  "validate_backend_accelerator a l =
     (if ba_stable_key a = [] then failure E_InvalidArgument
      else if length (ba_stable_key a) > max_metadata_bytes l then failure E_LimitExceeded
      else if ba_backend a = [] \<or> length (ba_backend a) > max_metadata_bytes l then failure E_InvalidArgument
      else if rv_empty (ba_physical_totals a) then failure E_InvalidArgument
      else
        (case validate_dimensions (ba_physical_totals a) of
           Inl e \<Rightarrow> Inl e
         | Inr _ \<Rightarrow>
             if length (di_model (ba_identifiers a)) > max_metadata_bytes l \<or>
                length (di_uuid (ba_identifiers a)) > max_metadata_bytes l \<or>
                length (di_vendor (ba_identifiers a)) > max_metadata_bytes l
             then failure E_LimitExceeded
             else if di_uuid (ba_identifiers a) = [] \<and> di_pci_bus_id (ba_identifiers a) = [] \<and> ba_stable_key a = []
             then failure E_InvalidArgument
             else if ba_provenance a = Provenance_Unknown then failure E_InvalidArgument
             else
               (case (if gen_known (cap_generation (ba_capability a))
                      then capability_validate (ba_capability a) l False
                      else if cap_support (ba_capability a) \<noteq> Support_Unknown then failure E_InvalidArgument
                      else success) of
                  Inl e \<Rightarrow> Inl e
                | Inr _ \<Rightarrow>
                    if declares_supported (ba_capability a) \<and> ba_provenance a = Provenance_Unsupported
                    then failure E_InvalidArgument
                    else if declares_supported (ba_capability a) \<and> \<not> boot_valid (ba_boot_id a)
                    then failure E_InvalidArgument
                    else success)))"

fun layout_partitions_check :: "limits \<Rightarrow> string list \<Rightarrow> backend_native_partition list \<Rightarrow> status" where
  "layout_partitions_check l seen [] = success"
| "layout_partitions_check l seen (p # ps) =
     (if bn_native_id p = [] then failure E_InvalidArgument
      else if length (bn_native_id p) > max_native_id_bytes l then failure E_LimitExceeded
      else if bn_native_id p \<in> set seen then failure E_InvalidArgument
      else if rv_empty (bn_resources p) then failure E_InvalidArgument
      else (case validate_dimensions (bn_resources p) of
              Inl e \<Rightarrow> Inl e
            | Inr _ \<Rightarrow> layout_partitions_check l (bn_native_id p # seen) ps))"

definition validate_backend_layout :: "backend_layout \<Rightarrow> limits \<Rightarrow> status" where
  "validate_backend_layout y l =
     (if bl_stable_key y = [] then failure E_InvalidArgument
      else
        (case (if bl_device_present y
               then if rv_empty (bl_physical_totals y) then failure E_InvalidArgument
                    else validate_dimensions (bl_physical_totals y)
               else success) of
           Inl e \<Rightarrow> Inl e
         | Inr _ \<Rightarrow>
             if length (bl_partitions y) > max_synthetic_partitions l \<and> length (bl_partitions y) > max_partitions l
             then failure E_LimitExceeded
             else layout_partitions_check l [] (bl_partitions y)))"

section \<open>The capability digest\<close>

definition capability_digest :: "partition_capability \<Rightarrow> u64" where
  "capability_digest c =
     (let w = encode_capability c (writer_start (Some (max_frame_bytes default_limits)))
      in if \<not> bw_ok w then 0 else mix_bytes (bw_buffer w) 1469598103934665603)"

definition same_capability_as :: "partition_capability \<Rightarrow> partition_capability \<Rightarrow> bool" where
  "same_capability_as c d \<longleftrightarrow> capability_digest c = capability_digest d"

section \<open>Profiles\<close>

definition register_profile :: "partition_profile \<Rightarrow> fabric_state \<Rightarrow> fabric_state \<times> status" where
  "register_profile p s =
     (case check_open s of
        Inl e \<Rightarrow> (s, Inl e)
      | Inr _ \<Rightarrow>
          (case profile_validate p (fs_limits s) of
             Inl e \<Rightarrow> (s, Inl e)
           | Inr _ \<Rightarrow>
               if (case find_profile (pf_id p) s of
                     Some old \<Rightarrow> pf_generation old \<ge> pf_generation p \<and> pf_name old \<noteq> pf_name p
                   | None \<Rightarrow> False)
               then (s, failure E_GenerationRegression)
               else if length (fs_profiles s) \<ge> max_profiles (fs_limits s) \<and> find_profile (pf_id p) s = None
               then (s, failure E_LimitExceeded)
               else
                 (let s1 = s\<lparr>fs_profiles := om_set (pf_id p) p (fs_profiles s)\<rparr>;
                      s2 = for_keys (pf_mutually_exclusive_with p)
                             (\<lambda>x s. s\<lparr>fs_profiles := om_modify x
                                (\<lambda>o'. o'\<lparr>pf_mutually_exclusive_with := pf_mutually_exclusive_with o' @ [pf_id p]\<rparr>)
                                (fs_profiles s)\<rparr>) s1
                  in (record_event EX_CapabilityGenerationChanged (bump_state_generation s2), success))))"

section \<open>Publishing a capability\<close>

text \<open>One reservation of the device whose capability changed.\<close>

definition still_held :: "partition_reservation \<Rightarrow> fabric_state \<Rightarrow> bool" where
  "still_held r s \<longleftrightarrow>
     (\<exists>p\<in>set (rs_partitions r). case find_partition p s of None \<Rightarrow> False | Some q \<Rightarrow> pr_held_bucket q \<noteq> None)"

definition capability_fence ::
  "accelerator_id \<Rightarrow> generation \<Rightarrow> u64 \<Rightarrow> reservation_id \<Rightarrow> fabric_state \<Rightarrow> fabric_state" where
  "capability_fence a g now_ms i s =
     (case find_reservation i s of
        None \<Rightarrow> s
      | Some r \<Rightarrow>
          if rs_accelerator r \<noteq> a \<or> reservation_is_terminal (rs_lifecycle r) then s
          else if rs_capability_generation r \<noteq> g
          then (let s1 = upd_reservation i (\<lambda>r. r\<lparr>rs_lifecycle := RL_Fenced, rs_updated_at_ms := now_ms\<rparr>) s
                in (case find_ledger a s1 of
                      None \<Rightarrow> s1
                    | Some l \<Rightarrow>
                        if still_held r s then s1
                        else (case ledger_release_reserved (rs_resources r) l of
                                (l', Inl _) \<Rightarrow> record_event EX_AccountingViolation (upd_ledger a l' s1)
                              | (l', Inr _) \<Rightarrow> upd_ledger a l' s1)))
          else s)"

text \<open>One partition of that device.\<close>

definition capability_revalidate ::
  "accelerator_id \<Rightarrow> partition_capability \<Rightarrow> partition_id \<Rightarrow> fabric_state \<Rightarrow> fabric_state" where
  "capability_revalidate a c i s =
     (case find_partition i s of
        None \<Rightarrow> s
      | Some p \<Rightarrow>
          if pr_accelerator p \<noteq> a \<or> is_terminal_state (pr_state p) then s
          else if \<not> supports_profile c (pr_profile p) \<and> pr_state p \<noteq> PS_RevalidationRequired
          then (case transition_partition i PS_RevalidationRequired s of
                  (s1, Inl _) \<Rightarrow> record_event EX_RevalidationRequired s1
                | (s1, Inr _) \<Rightarrow> s1)
          else s)"

text \<open>The published capability with its identity, device generation and evidence filled in.\<close>

definition complete_capability ::
  "accelerator_id \<Rightarrow> partition_capability \<Rightarrow> accelerator_record \<Rightarrow> u64 \<Rightarrow> fabric_state \<Rightarrow> partition_capability" where
  "complete_capability a c r now_ms s =
     (let ev = (if \<not> is_observed (cap_evidence c) then ac_evidence r else cap_evidence c)
      in c\<lparr>cap_evidence := ensure_evidence ev (ac_provenance r) (ac_backend r) (evidence_window s) now_ms
             (if gen_known (es_generation ev) then es_generation ev else gen_first)\<rparr>)"

definition install_capability ::
  "accelerator_id \<Rightarrow> partition_capability \<Rightarrow> generation \<Rightarrow> u64 \<Rightarrow> fabric_state \<Rightarrow> fabric_state" where
  "install_capability a c g now_ms s =
     (let c' = c\<lparr>cap_generation := g\<rparr>;
          s1 = upd_accelerator a (\<lambda>r. r\<lparr>ac_capability := c', ac_topology_generation := cap_topology_generation c',
                                        ac_updated_at_ms := now_ms\<rparr>) s;
          s2 = for_keys (om_keys (fs_reservations s1)) (capability_fence a g now_ms) s1;
          s3 = for_keys (om_keys (fs_partitions s2)) (capability_revalidate a c') s2
      in bump_state_generation (record_event EX_CapabilityGenerationChanged s3))"

definition publish_capability_locked ::
  "accelerator_id \<Rightarrow> partition_capability \<Rightarrow> u64 \<Rightarrow> bool \<Rightarrow> fabric_state \<Rightarrow> fabric_state \<times> generation result" where
  "publish_capability_locked a c now_ms force s =
     (case find_accelerator a s of
        None \<Rightarrow> (s, failure E_NotFound)
      | Some r \<Rightarrow>
          (let c1 = c\<lparr>cap_accelerator := a\<rparr>;
               c2 = (if \<not> gen_known (cap_device_generation c1) then c1\<lparr>cap_device_generation := ac_generation r\<rparr> else c1)
           in if cap_device_generation c2 \<noteq> ac_generation r then (s, failure E_StaleGeneration)
              else
                (case capability_validate c2 (fs_limits s) True of
                   Inl e \<Rightarrow> (s, Inl e)
                 | Inr _ \<Rightarrow>
                     (let c3 = complete_capability a c2 r now_ms s;
                          old = cap_generation (ac_capability r)
                      in if force \<or> \<not> gen_known old
                         then (case (if gen_known old then gen_next old else Inr gen_first) of
                                 Inl e \<Rightarrow> (s, Inl e)
                               | Inr g \<Rightarrow> (install_capability a c3 g now_ms s, Inr g))
                         else if capability_digest (ac_capability r) \<noteq> capability_digest c3
                         then (case gen_next old of
                                 Inl e \<Rightarrow> (s, Inl e)
                               | Inr g \<Rightarrow> (install_capability a c3 g now_ms s, Inr g))
                         else (s, Inr old)))))"

definition publish_capability :: "partition_capability \<Rightarrow> fabric_state \<Rightarrow> fabric_state \<times> generation result" where
  "publish_capability c s =
     (case check_open s of
        Inl e \<Rightarrow> (s, Inl e)
      | Inr _ \<Rightarrow> publish_capability_locked (cap_accelerator c) c (fs_now s) False s)"

section \<open>Devices reported by a backend\<close>

definition accelerator_default :: accelerator_record where
  "accelerator_default =
     \<lparr>ac_id = 0, ac_generation = 0, ac_boot_id = 0, ac_backend = [],
      ac_identifiers = \<lparr>di_vendor = [], di_model = [], di_uuid = [], di_pci_bus_id = [], di_hardware_id = [],
        di_firmware_version = [], di_driver_version = [], di_serial = [], di_compute_capability = []\<rparr>,
      ac_physical_totals = rv_zeros, ac_capability = capability_default, ac_topology_generation = 0,
      ac_locality = \<lparr>ld_name = [], ld_numa_node = -1\<rparr>,
      ac_health = \<lparr>he_state = Health_Unknown, he_stamp = evidence_unknown, he_source = []\<rparr>,
      ac_evidence = evidence_unknown, ac_provenance = Provenance_Unknown, ac_unsupported_reason = [],
      ac_registered_at_ms = 0, ac_updated_at_ms = 0\<rparr>"

text \<open>\<^verbatim>\<open>state.accelerators[id]\<close>, which inserts a default record when the key is missing.\<close>

definition accelerator_slot :: "accelerator_id \<Rightarrow> fabric_state \<Rightarrow> accelerator_record \<times> fabric_state" where
  "accelerator_slot i s =
     (case find_accelerator i s of
        Some r \<Rightarrow> (r, s)
      | None \<Rightarrow> (accelerator_default, s\<lparr>fs_accelerators := om_set i accelerator_default (fs_accelerators s)\<rparr>))"

definition register_identity ::
  "backend_accelerator \<Rightarrow> fabric_state \<Rightarrow> fabric_state \<times> (accelerator_id \<times> bool) result" where
  "register_identity b s =
     (case om_find (ba_stable_key b) (fs_key_index s) of
        Some i \<Rightarrow> (s, Inr (i, True))
      | None \<Rightarrow>
          if length (fs_accelerators s) \<ge> max_accelerators (fs_limits s) then (s, failure E_LimitExceeded)
          else
            (case allocate (fs_ids s) of
               (al, Inl e) \<Rightarrow> (s\<lparr>fs_ids := al\<rparr>, Inl e)
             | (al, Inr i) \<Rightarrow>
                 (s\<lparr>fs_ids := al, fs_key_index := om_set (ba_stable_key b) i (fs_key_index s),
                    fs_stable_keys := om_set i (ba_stable_key b) (fs_stable_keys s)\<rparr>, Inr (i, False))))"

text \<open>The device generation: a changed boot identity is a reset and supersedes the old incarnation.\<close>

definition device_generation :: "accelerator_record \<Rightarrow> backend_accelerator \<Rightarrow> (generation \<times> bool) result" where
  "device_generation previous b =
     (if boot_valid (ac_boot_id previous) \<and> boot_valid (ba_boot_id b) \<and> ac_boot_id previous \<noteq> ba_boot_id b
      then (case gen_next (ac_generation previous) of Inl e \<Rightarrow> Inl e | Inr g \<Rightarrow> Inr (g, True))
      else Inr (ac_generation previous, False))"

definition reported_record ::
  "backend_accelerator \<Rightarrow> accelerator_id \<Rightarrow> generation \<Rightarrow> generation \<Rightarrow> accelerator_record option \<Rightarrow> fabric_state \<Rightarrow>
     accelerator_record" where
  "reported_record b i g evidence_g previous s =
     (let base = (case previous of Some r \<Rightarrow> r | None \<Rightarrow> accelerator_default\<lparr>ac_registered_at_ms := fs_now s\<rparr>)
      in base\<lparr>ac_id := i, ac_generation := g, ac_backend := ba_backend b, ac_identifiers := ba_identifiers b,
              ac_physical_totals := ba_physical_totals b, ac_boot_id := ba_boot_id b, ac_locality := ba_locality b,
              ac_topology_generation := cap_topology_generation (ba_capability b),
              ac_provenance := ba_provenance b, ac_unsupported_reason := ba_unsupported_reason b,
              ac_updated_at_ms := fs_now s,
              ac_evidence := ensure_evidence (ba_evidence b) (ba_provenance b)
                (if ba_backend b = [] then ''backend'' else ba_backend b) (evidence_window s) (fs_now s) evidence_g,
              ac_health := (case previous of
                 Some r \<Rightarrow> ac_health r
               | None \<Rightarrow> (ac_health base)\<lparr>he_state :=
                   (if ba_provenance b = Provenance_Synthetic then Health_Healthy else Health_Unknown)\<rparr>)\<rparr>)"

fun register_profiles :: "partition_profile list \<Rightarrow> fabric_state \<Rightarrow> fabric_state \<times> status" where
  "register_profiles [] s = (s, success)"
| "register_profiles (p # ps) s =
     (case profile_validate p (fs_limits s) of
        Inl e \<Rightarrow> (s, Inl e)
      | Inr _ \<Rightarrow>
          if length (fs_profiles s) \<ge> max_profiles (fs_limits s) \<and> find_profile (pf_id p) s = None
          then (s, failure E_LimitExceeded)
          else register_profiles ps (s\<lparr>fs_profiles := om_set (pf_id p) p (fs_profiles s)\<rparr>))"

text \<open>
  The record and the ledger of the device. A new ledger is created by \<^verbatim>\<open>state.ledgers[id]\<close>; it is
  initialised when the device is new or its totals changed, and a failure is undone.
\<close>

definition install_device ::
  "accelerator_id \<Rightarrow> string \<Rightarrow> accelerator_record \<Rightarrow> accelerator_record option \<Rightarrow> fabric_state \<Rightarrow> fabric_state \<times> status" where
  "install_device i key r previous s =
     (let s1 = s\<lparr>fs_accelerators := om_set i r (fs_accelerators s)\<rparr>;
          l = (case find_ledger i s1 of Some l \<Rightarrow> l | None \<Rightarrow> ledger_empty);
          s2 = s1\<lparr>fs_ledgers := om_set i l (fs_ledgers s1)\<rparr>
      in if previous = None \<or> \<not> rv_eq (cl_total l) (ac_physical_totals r)
         then (case initialize_totals (ac_physical_totals r) l of
                 (l', Inr _) \<Rightarrow> (upd_ledger i l' s2, success)
               | (l', Inl e) \<Rightarrow>
                   (case previous of
                      None \<Rightarrow> (s2\<lparr>fs_accelerators := om_erase i (fs_accelerators s2),
                                 fs_key_index := om_erase key (fs_key_index s2),
                                 fs_stable_keys := om_erase i (fs_stable_keys s2),
                                 fs_ledgers := om_erase i (fs_ledgers s2)\<rparr>, Inl e)
                    | Some p \<Rightarrow> (upd_accelerator i (\<lambda>r. r\<lparr>ac_generation := ac_generation p\<rparr>) (upd_ledger i l' s2), Inl e)))
         else (s2, success))"

text \<open>What a device reset does to the partitions and reservations of the old incarnation.\<close>

definition reset_partition :: "accelerator_id \<Rightarrow> partition_id \<Rightarrow> fabric_state \<Rightarrow> fabric_state" where
  "reset_partition a i s =
     (case find_partition i s of
        None \<Rightarrow> s
      | Some p \<Rightarrow>
          if pr_accelerator p \<noteq> a \<or> is_terminal_state (pr_state p) then s
          else (case transition_partition i PS_RevalidationRequired s of
                  (s1, Inl _) \<Rightarrow> record_event EX_ReconciledDeviceReset s1
                | (s1, Inr _) \<Rightarrow> s1))"

definition reset_reservation :: "accelerator_id \<Rightarrow> u64 \<Rightarrow> partition_reservation \<Rightarrow> partition_reservation" where
  "reset_reservation a now_ms r =
     (if rs_accelerator r = a \<and> \<not> reservation_is_terminal (rs_lifecycle r)
      then r\<lparr>rs_lifecycle := RL_Fenced, rs_updated_at_ms := now_ms\<rparr> else r)"

definition reset_device :: "accelerator_id \<Rightarrow> u64 \<Rightarrow> fabric_state \<Rightarrow> fabric_state" where
  "reset_device a now_ms s =
     (let s1 = for_keys (om_keys (fs_partitions s)) (reset_partition a) s;
          s2 = s1\<lparr>fs_reservations := om_map (reset_reservation a now_ms) (fs_reservations s1)\<rparr>
      in record_event EX_ReconciledDeviceReset s2)"

definition publish_reported ::
  "backend_accelerator \<Rightarrow> accelerator_id \<Rightarrow> generation \<Rightarrow> bool \<Rightarrow> evidence_stamp \<Rightarrow> u64 \<Rightarrow> fabric_state \<Rightarrow>
     fabric_state \<times> accelerator_id result" where
  "publish_reported b i g device_reset ev now_ms s =
     (let c = (ba_capability b)\<lparr>cap_accelerator := i, cap_device_generation := g\<rparr>;
          c = (if \<not> is_observed (cap_evidence c) then c\<lparr>cap_evidence := ev\<rparr> else c)
      in case publish_capability_locked i c now_ms device_reset s of
           (s1, Inl e) \<Rightarrow> (s1, Inl e)
         | (s1, Inr _) \<Rightarrow>
             (bump_state_generation (if device_reset then reset_device i now_ms s1 else s1), Inr i))"

definition register_reported ::
  "backend_accelerator \<Rightarrow> accelerator_id \<Rightarrow> bool \<Rightarrow> fabric_state \<Rightarrow> fabric_state \<times> accelerator_id result" where
  "register_reported b i existing s =
     (let (previous, s0) = (if existing then (let (r, t) = accelerator_slot i s in (Some r, t)) else (None, s))
      in case (case previous of None \<Rightarrow> Inr (gen_first, False) | Some r \<Rightarrow> device_generation r b) of
           Inl e \<Rightarrow> (s0, Inl e)
         | Inr (g, device_reset) \<Rightarrow>
             (case (case previous of
                      None \<Rightarrow> Inr gen_first
                    | Some r \<Rightarrow> if gen_known (es_generation (ac_evidence r)) then gen_next (es_generation (ac_evidence r))
                                else Inr gen_first) of
                Inl e \<Rightarrow> (s0, Inl e)
              | Inr evidence_g \<Rightarrow>
                  (let r = reported_record b i g evidence_g previous s0
                   in case register_profiles (ba_profiles b) s0 of
                        (s1, Inl e) \<Rightarrow> (s1, Inl e)
                      | (s1, Inr _) \<Rightarrow>
                          (case install_device i (ba_stable_key b) r previous s1 of
                             (s2, Inl e) \<Rightarrow> (s2, Inl e)
                           | (s2, Inr _) \<Rightarrow>
                               publish_reported b i g device_reset (ac_evidence r) (fs_now s) s2))))"

definition register_backend_accelerator ::
  "backend_accelerator \<Rightarrow> fabric_state \<Rightarrow> fabric_state \<times> accelerator_id result" where
  "register_backend_accelerator b s =
     (case check_open s of
        Inl e \<Rightarrow> (s, Inl e)
      | Inr _ \<Rightarrow>
          (case validate_backend_accelerator b (fs_limits s) of
             Inl e \<Rightarrow> (s, Inl e)
           | Inr _ \<Rightarrow>
               (case register_identity b s of
                  (s1, Inl e) \<Rightarrow> (s1, Inl e)
                | (s1, Inr (i, existing)) \<Rightarrow> register_reported b i existing s1)))"

fun discover_loop :: "backend_accelerator list \<Rightarrow> accelerator_id list \<Rightarrow> fabric_state \<Rightarrow> fabric_state \<times> accelerator_id list" where
  "discover_loop [] found s = (s, found)"
| "discover_loop (b # bs) found s =
     (case register_backend_accelerator b s of
        (s1, Inr i) \<Rightarrow> discover_loop bs (found @ [i]) s1
      | (s1, Inl _) \<Rightarrow> discover_loop bs found (record_event EX_CandidateRejected s1))"

definition discover ::
  "backend_accelerator list result \<Rightarrow> fabric_state \<Rightarrow> fabric_state \<times> accelerator_id list result" where
  "discover reported s =
     (case reported of
        Inl _ \<Rightarrow> (s, failure E_BackendFailure)
      | Inr bs \<Rightarrow> (case discover_loop bs [] s of (s', found) \<Rightarrow> (s', Inr found)))"

section \<open>Devices registered directly\<close>

definition place_record :: "accelerator_record \<Rightarrow> fabric_state \<Rightarrow> fabric_state \<times> status" where
  "place_record r s =
     (let s1 = s\<lparr>fs_accelerators := om_set (ac_id r) r (fs_accelerators s)\<rparr>;
          l = (case find_ledger (ac_id r) s1 of Some l \<Rightarrow> l | None \<Rightarrow> ledger_empty);
          s2 = s1\<lparr>fs_ledgers := om_set (ac_id r) l (fs_ledgers s1)\<rparr>
      in if rv_eq (cl_total l) (ac_physical_totals r) then (s2, success)
         else (case initialize_totals (ac_physical_totals r) l of (l', st) \<Rightarrow> (upd_ledger (ac_id r) l' s2, st)))"

definition register_accelerator :: "accelerator_record \<Rightarrow> fabric_state \<Rightarrow> fabric_state \<times> status" where
  "register_accelerator r s =
     (case check_open s of
        Inl e \<Rightarrow> (s, Inl e)
      | Inr _ \<Rightarrow>
          (case accelerator_validate r (fs_limits s) of
             Inl e \<Rightarrow> (s, Inl e)
           | Inr _ \<Rightarrow>
               (let existing = find_accelerator (ac_id r) s
                in if (case existing of Some old \<Rightarrow> ac_generation r < ac_generation old | None \<Rightarrow> False)
                   then (s, failure E_GenerationRegression)
                   else if existing = None \<and> length (fs_accelerators s) \<ge> max_accelerators (fs_limits s)
                   then (s, failure E_LimitExceeded)
                   else
                     (case place_record r s of
                        (s3, Inl e) \<Rightarrow>
                          ((if existing = None then s3\<lparr>fs_accelerators := om_erase (ac_id r) (fs_accelerators s3)\<rparr> else s3), Inl e)
                      | (s3, Inr _) \<Rightarrow>
                          (case (if gen_known (cap_generation (ac_capability r))
                                 then publish_capability_locked (ac_id r) (ac_capability r) (fs_now s) False s3
                                 else (s3, Inr gen_first)) of
                             (s4, Inl e) \<Rightarrow> (s4, Inl e)
                           | (s4, Inr _) \<Rightarrow> (bump_state_generation s4, success))))))"

section \<open>What registration keeps\<close>

text \<open>Operations that add no device: ledgers and authority evolve and no device appears.\<close>

definition device_ids :: "fabric_state \<Rightarrow> (u64 \<times> accelerator_id) list" where
  "device_ids s = map (\<lambda>e. (fst e, ac_id (snd e))) (fs_accelerators s)"

text \<open>
  The devices are stored in the order of their identities, each under its own. A record without an
  identity is the placeholder that \<^verbatim>\<open>state.accelerators[id]\<close> leaves behind when the first accepted
  report of a stable key has not arrived yet and another one is refused.
\<close>

definition devices_keyed :: "fabric_state \<Rightarrow> bool" where
  "devices_keyed s \<longleftrightarrow> om_sorted (fs_accelerators s) \<and>
     (\<forall>e\<in>set (fs_accelerators s). id_valid (ac_id (snd e)) \<longrightarrow> ac_id (snd e) = fst e)"

lemma device_ids_keys: "om_keys (fs_accelerators s) = map fst (device_ids s)"
  by (simp add: device_ids_def om_keys_def)

lemma device_ids_keyed: "devices_keyed s \<longleftrightarrow> sorted_wrt (<) (map fst (device_ids s)) \<and> (\<forall>e\<in>set (device_ids s). id_valid (snd e) \<longrightarrow> snd e = fst e)"
  by (simp add: devices_keyed_def device_ids_def om_sorted_def comp_def)

lemma device_ids_same: "fs_accelerators t = fs_accelerators s \<Longrightarrow> device_ids t = device_ids s"
  by (simp add: device_ids_def)

lemma device_ids_modify [simp]:
  "(\<And>a. ac_id (f a) = ac_id a) \<Longrightarrow> device_ids (s\<lparr>fs_accelerators := om_modify i f (fs_accelerators s)\<rparr>) = device_ids s"
  by (auto simp: device_ids_def om_modify_def)

lemma om_set_elem: "e \<in> set (om_set k v m) \<Longrightarrow> e = (k, v) \<or> e \<in> set m"
  by (induction m) (auto split: if_splits)

lemma keyed_install:
  "devices_keyed s \<Longrightarrow> (id_valid (ac_id r) \<Longrightarrow> ac_id r = i) \<Longrightarrow> fs_accelerators t = om_set i r (fs_accelerators s) \<Longrightarrow> devices_keyed t"
  by (auto simp: devices_keyed_def intro: om_sorted_set dest!: om_set_elem)

lemma keyed_erase: "devices_keyed s \<Longrightarrow> fs_accelerators t = om_erase i (fs_accelerators s) \<Longrightarrow> devices_keyed t"
  by (simp add: devices_keyed_def om_sorted_erase) (simp add: om_erase_def)

definition steady :: "fabric_state \<Rightarrow> fabric_state \<Rightarrow> bool" where
  "steady s t \<longleftrightarrow> ledgers_evolve s t \<and> authority_evolves s t \<and>
     device_ids t = device_ids s \<and> fs_key_index t = fs_key_index s"

lemma steady_keys: "steady s t \<Longrightarrow> om_keys (fs_accelerators t) = om_keys (fs_accelerators s)"
  by (simp add: steady_def device_ids_keys)

lemma steady_keyed: "steady s t \<Longrightarrow> devices_keyed t = devices_keyed s"
  by (simp add: steady_def device_ids_keyed)

lemma steady_refl [simp]: "steady s s"
  by (simp add: steady_def)

lemma steady_trans [trans]: "steady s t \<Longrightarrow> steady t u \<Longrightarrow> steady s u"
  unfolding steady_def using ledgers_evolve_trans authority_evolves_trans by metis

lemma steady_loop:
  assumes "\<And>k s. steady s (body k s)"
  shows "steady s (for_keys ks body s)"
proof (induction ks arbitrary: s)
  case (Cons k ks)
  show ?case using steady_trans [OF assms Cons.IH] by simp
qed simp

lemma steady_same:
  assumes "fs_ledgers t = fs_ledgers s" "authority_evolves s t" "fs_accelerators t = fs_accelerators s"
    "fs_key_index t = fs_key_index s"
  shows "steady s t"
  using assms device_ids_same [OF assms(3)] by (simp add: steady_def ledgers_evolve_same)

lemma steady_event [simp]: "steady s (record_event c s)"
  by (rule steady_same) simp_all

lemma steady_bump [simp]: "steady s (bump_state_generation s)"
  by (rule steady_same) simp_all

lemma steady_transition: "steady s (fst (transition_partition i to s))"
  by (simp add: steady_def transition_ledgers device_ids_def)

lemma steady_ledger:
  "find_ledger a s = Some l \<Longrightarrow> ledger_step l l' \<Longrightarrow> steady s (upd_ledger a l' s)"
  by (auto simp: steady_def device_ids_def)

lemma steady_fence:
  "steady s (upd_reservation i (\<lambda>r. r\<lparr>rs_lifecycle := RL_Fenced, rs_updated_at_ms := t\<rparr>) s)"
  by (rule steady_same) (auto intro: authority_evolves_reservation simp: reservation_step_def)

lemma steady_accelerator:
  "(\<And>a. ac_id (f a) = ac_id a) \<Longrightarrow> steady s (upd_accelerator a f s)"
  by (auto simp: steady_def intro!: authority_evolves_same simp: counters_advance_def)

lemma keys_find: "k \<in> set (om_keys m) \<longleftrightarrow> om_find k m \<noteq> None"
  by (simp add: om_find_eq_None)

lemma device_ids_find:
  assumes "device_ids t = device_ids s" "find_accelerator k t = Some a"
  obtains a' where "find_accelerator k s = Some a'" "ac_id a' = ac_id a"
proof -
  have "map_of (device_ids u) k = map_option ac_id (find_accelerator k u)" for u
  proof -
    have "map_of (map (\<lambda>e. (fst e, ac_id (snd e))) m) k = map_option ac_id (map_of m k)" for m :: "(u64, accelerator_record) omap"
      by (induction m) auto
    then show ?thesis by (simp add: device_ids_def om_find_def)
  qed
  from this [of s] this [of t] show thesis using assms that by (cases "find_accelerator k s") simp_all
qed

subsection \<open>The registry\<close>

text \<open>
  Every device with an identity has a ledger. The index by stable key only holds identities that
  were allocated, no two keys the same one; the device itself may still be missing, since a report
  records the key before its profiles are checked.
\<close>

definition devices_booked :: "fabric_state \<Rightarrow> bool" where
  "devices_booked s \<longleftrightarrow> (\<forall>k a. find_accelerator k s = Some a \<longrightarrow> id_valid (ac_id a) \<longrightarrow> find_ledger k s \<noteq> None)"

definition keys_allocated :: "fabric_state \<Rightarrow> bool" where
  "keys_allocated s \<longleftrightarrow>
     (\<forall>k i. om_find k (fs_key_index s) = Some i \<longrightarrow> i < ida_next (fs_ids s)) \<and>
     (\<forall>k k' i. om_find k (fs_key_index s) = Some i \<longrightarrow> om_find k' (fs_key_index s) = Some i \<longrightarrow> k = k')"

definition registry_inv :: "fabric_state \<Rightarrow> bool" where
  "registry_inv s \<longleftrightarrow> books_kept s \<and> devices_booked s \<and> ids_fresh s \<and> keys_allocated s \<and> devices_keyed s"

lemma keys_allocated_later:
  "keys_allocated s \<Longrightarrow> fs_key_index t = fs_key_index s \<Longrightarrow> ida_next (fs_ids s) \<le> ida_next (fs_ids t) \<Longrightarrow> keys_allocated t"
  unfolding keys_allocated_def by (auto intro: less_le_trans)

lemma registry_evolves:
  assumes "ledgers_grow s t" "authority_advances s t" "device_ids t = device_ids s" "fs_key_index t = fs_key_index s"
    and inv: "registry_inv s"
  shows "registry_inv t"
proof -
  have "devices_booked t"
    unfolding devices_booked_def
  proof (intro allI impI)
    fix k a assume "find_accelerator k t = Some a" "id_valid (ac_id a)"
    then obtain a' where "find_accelerator k s = Some a'" "id_valid (ac_id a')" using device_ids_find [OF assms(3)] by metis
    then have "find_ledger k s \<noteq> None" using inv unfolding registry_inv_def devices_booked_def by blast
    then show "find_ledger k t \<noteq> None" using assms(1) unfolding ledgers_grow_def by blast
  qed
  moreover have "keys_allocated t"
    using inv assms(2,4) by (auto intro!: keys_allocated_later [of s] simp: registry_inv_def authority_advances_def counters_advance_def)
  ultimately show ?thesis
    using assms advances_fresh [OF assms(2)] device_ids_keyed [of s] device_ids_keyed [of t]
    by (simp add: registry_inv_def ledgers_grow_def)
qed

lemma steady_registry: "steady s t \<Longrightarrow> registry_inv s \<Longrightarrow> registry_inv t"
  by (rule registry_evolves [of s]) (simp_all add: steady_def evolve_grow evolves_advances)

lemma registry_quiet:
  assumes "registry_inv s" "fs_ledgers t = fs_ledgers s" "fs_accelerators t = fs_accelerators s"
    "fs_partitions t = fs_partitions s" "fs_reservations t = fs_reservations s" "fs_attempts t = fs_attempts s"
    "keys_allocated t" "ida_next (fs_ids s) \<le> ida_next (fs_ids t)"
  shows "registry_inv t"
  using assms
  by (auto simp: registry_inv_def books_kept_def ledgers_balanced_def devices_booked_def devices_keyed_def ids_fresh_def
      used_ids_def intro: less_le_trans)

text \<open>Installing a record, with its ledger or as a placeholder.\<close>

lemma install_registry:
  assumes inv: "registry_inv s" and r: "id_valid (ac_id r) \<Longrightarrow> ac_id r = i \<and> (\<exists>l. om_find i m = Some l)"
    and t: "t = s\<lparr>fs_accelerators := om_set i r (fs_accelerators s), fs_ledgers := m\<rparr>"
    and grow: "ledgers_grow s t"
  shows "registry_inv t"
proof -
  have "devices_keyed t" by (rule keyed_install [of s r i]) (use inv r in \<open>simp_all add: t registry_inv_def\<close>)
  moreover have "devices_booked t"
    using inv r grow by (auto simp: registry_inv_def devices_booked_def ledgers_grow_def t apf_lookup) 
  ultimately show ?thesis
    using inv grow by (simp add: registry_inv_def ledgers_grow_def t ids_fresh_def used_ids_def keys_allocated_def)
qed

lemma slot_registry:
  assumes "registry_inv s"
  shows "registry_inv (snd (accelerator_slot i s))" "authority_evolves s (snd (accelerator_slot i s))"
proof -
  let ?t = "s\<lparr>fs_accelerators := om_set i accelerator_default (fs_accelerators s), fs_ledgers := fs_ledgers s\<rparr>"
  have "registry_inv ?t"
    by (rule install_registry [OF assms _ refl]) (simp_all add: accelerator_default_def id_valid_def evolve_grow ledgers_evolve_same)
  moreover have "authority_evolves s ?t" by (rule authority_evolves_same) (simp_all add: counters_advance_def)
  ultimately show "registry_inv (snd (accelerator_slot i s))" "authority_evolves s (snd (accelerator_slot i s))"
    using assms by (auto simp: accelerator_slot_def split: option.split)
qed

subsection \<open>Capabilities\<close>

lemma capability_fence_steady: "steady s (capability_fence a g t i s)"
proof (cases "find_reservation i s")
  case (Some r)
  let ?s1 = "upd_reservation i (\<lambda>r. r\<lparr>rs_lifecycle := RL_Fenced, rs_updated_at_ms := t\<rparr>) s"
  have led: "steady s (upd_ledger a l' ?s1)"
    if "find_ledger a s = Some l" "ledger_release_reserved v l = (l', st)" for l l' v st
    by (rule steady_trans [OF steady_fence steady_ledger]) (use that release_reserved_step in auto)
  show ?thesis
    using Some led steady_trans [OF led steady_event]
    by (auto simp: capability_fence_def Let_def steady_fence split: option.split prod.split sum.split)
qed (simp add: capability_fence_def)

lemma capability_revalidate_steady: "steady s (capability_revalidate a c i s)"
proof -
  have "steady s (fst (transition_partition i PS_RevalidationRequired s))"
    "steady s (record_event e (fst (transition_partition i PS_RevalidationRequired s)))" for e
    by (rule steady_transition, rule steady_trans [OF steady_transition steady_event])
  then show ?thesis
    by (auto simp: capability_revalidate_def split: option.split prod.split sum.split)
qed

lemma install_capability_steady: "steady s (install_capability a c g t s)"
proof -
  let ?s1 = "upd_accelerator a (\<lambda>r. r\<lparr>ac_capability := c\<lparr>cap_generation := g\<rparr>,
     ac_topology_generation := cap_topology_generation (c\<lparr>cap_generation := g\<rparr>), ac_updated_at_ms := t\<rparr>) s"
  let ?s2 = "for_keys (om_keys (fs_reservations ?s1)) (capability_fence a g t) ?s1"
  let ?s3 = "for_keys (om_keys (fs_partitions ?s2)) (capability_revalidate a (c\<lparr>cap_generation := g\<rparr>)) ?s2"
  have "steady s ?s1" by (rule steady_accelerator) simp
  also have "steady ?s1 ?s2" by (rule steady_loop) (rule capability_fence_steady)
  also have "steady ?s2 ?s3" by (rule steady_loop) (rule capability_revalidate_steady)
  also have "steady ?s3 (record_event EX_CapabilityGenerationChanged ?s3)" by simp
  also have "steady \<dots> (bump_state_generation \<dots>)" by simp
  finally show ?thesis by (simp add: install_capability_def Let_def)
qed

lemma publish_steady: "steady s (fst (publish_capability_locked a c t force s))"
  by (auto simp: publish_capability_locked_def Let_def install_capability_steady split: option.split sum.split)

lemma publish_capability_steady: "steady s (fst (publish_capability c s))"
  by (simp add: publish_capability_def publish_steady split: sum.split)

lemma register_profile_steady: "steady s (fst (register_profile p s))"
proof -
  have prof: "steady u (u\<lparr>fs_profiles := m\<rparr>)" for u m
    by (rule steady_same) (auto intro!: authority_evolves_same simp: counters_advance_def)
  have "steady s (record_event c (bump_state_generation
      (for_keys ks (\<lambda>x u. u\<lparr>fs_profiles := f x (fs_profiles u)\<rparr>) (s\<lparr>fs_profiles := m\<rparr>))))" for c ks f m
    by (rule steady_trans [OF prof steady_trans [OF steady_loop steady_trans [OF steady_bump steady_event]]]) (rule prof)
  then show ?thesis
    by (auto simp: register_profile_def Let_def split: sum.split)
qed

subsection \<open>Devices\<close>

lemma register_profiles_frame:
  "\<exists>m. fst (register_profiles ps s) = s\<lparr>fs_profiles := m\<rparr>"
proof (induction ps arbitrary: s)
  case Nil
  then show ?case by (auto intro: exI [of _ "fs_profiles s"])
next
  case (Cons p ps)
  from Cons.IH [of "s\<lparr>fs_profiles := om_set (pf_id p) p (fs_profiles s)\<rparr>"] show ?case
    by (auto split: sum.split intro: exI [of _ "fs_profiles s"])
qed

lemma validate_backend_totals:
  assumes "validate_backend_accelerator b l = success"
  shows "validate_dimensions (ba_physical_totals b) = success \<and> \<not> rv_empty (ba_physical_totals b)"
  using assms by (auto simp: validate_backend_accelerator_def split: if_splits sum.splits)

lemma om_modify_set: "om_modify i (\<lambda>_. v') (om_set i v m) = om_set i v' (m::('k::linorder, 'v) omap)" if "om_sorted m"
  using that
proof (induction m)
  case (Cons e m)
  obtain k w where e: "e = (k, w)" by (cases e)
  have "\<forall>x\<in>set m. k < fst x" "om_sorted m" using Cons.prems by (auto simp: e om_sorted_def)
  then have "map (\<lambda>e. if fst e = i then (fst e, v') else e) m = m" if "i \<le> k"
    using that by (intro map_idI) auto
  with Cons.IH \<open>om_sorted m\<close> show ?case by (auto simp: e om_modify_def)
qed (simp add: om_modify_def)

text \<open>Totals that passed the validation always give a closed ledger.\<close>

lemma install_device_done:
  assumes inv: "books_kept s" and tot: "rv_wf (ac_physical_totals r)"
    "validate_dimensions (ac_physical_totals r) = success" "\<not> rv_empty (ac_physical_totals r)"
  obtains l where "ledger_closed l" "rv_eq (cl_total l) (ac_physical_totals r)"
    "install_device i key r previous s =
       (s\<lparr>fs_accelerators := om_set i r (fs_accelerators s), fs_ledgers := om_set i l (fs_ledgers s)\<rparr>, success)"
proof -
  define l where "l = (case find_ledger i s of Some l \<Rightarrow> l | None \<Rightarrow> ledger_empty)"
  obtain l' where l': "initialize_totals (ac_physical_totals r) l = (l', success)" "ledger_closed l'"
    "cl_total l' = ac_physical_totals r"
    using initialize_totals_closed [OF tot, of l] by blast
  have srt: "om_sorted (fs_ledgers s)" using inv by (simp add: books_kept_def)
  have refl: "rv_eq v v" for v using rv_eq_equivp by (simp add: equivp_reflp)
  have bal: "ledger_balanced l"
    using inv ledger_empty_balanced by (auto simp: l_def books_kept_def ledgers_balanced_def split: option.split)
  show thesis
  proof (cases "previous = None \<or> \<not> rv_eq (cl_total l) (ac_physical_totals r)")
    case True
    then show thesis
      using l' refl om_modify_set [OF srt, of i l' l] 
      by (intro that [of l']) (auto simp: install_device_def Let_def l_def split: option.splits)
  next
    case False
    then have "ledger_closed l" using bal tot(3) by (simp add: ledger_closed_def rv_eq_iff rv_empty_def)
    then show thesis using False by (intro that [of l]) (auto simp: install_device_def Let_def l_def)
  qed
qed

lemma reset_device_steady: "steady s (reset_device a t s)"
proof -
  have "steady u (reset_partition a i u)" for i u
  proof -
    have "steady u (fst (transition_partition i PS_RevalidationRequired u))"
      "steady u (record_event e (fst (transition_partition i PS_RevalidationRequired u)))" for e
      by (rule steady_transition, rule steady_trans [OF steady_transition steady_event])
    then show ?thesis by (auto simp: reset_partition_def split: option.split prod.split sum.split)
  qed
  then have 1: "steady s (for_keys ks (reset_partition a) s)" for ks by (rule steady_loop)
  have 2: "steady u (u\<lparr>fs_reservations := om_map (reset_reservation a t) (fs_reservations u)\<rparr>)" for u
  proof (rule steady_same)
    have "keeps reservation_step (fs_reservations u) (om_map (reset_reservation a t) (fs_reservations u))"
      by (rule reservation_evo.keeps_map) (simp add: reset_reservation_def reservation_step_def)
    then show "authority_evolves u (u\<lparr>fs_reservations := om_map (reset_reservation a t) (fs_reservations u)\<rparr>)"
      by (simp add: authority_evolves_def keeps_refls counters_advance_def ids_allocated_same used_ids_def)
  qed simp_all
  show ?thesis
    unfolding reset_device_def Let_def by (rule steady_trans [OF 1 steady_trans [OF 2 steady_event]])
qed

lemma reported_record_totals [simp]:
  "ac_physical_totals (reported_record b i g e previous s) = ba_physical_totals b"
  "ac_generation (reported_record b i g e previous s) = g"
  "ac_boot_id (reported_record b i g e previous s) = ba_boot_id b"
  "ac_id (reported_record b i g e previous s) = i"
  by (simp_all add: reported_record_def Let_def)

lemma publish_reported_steady: "steady s (fst (publish_reported b i g device_reset ev t s))"
proof -
  have "steady s (fst (case publish_capability_locked i c t device_reset s of
           (s1, Inl e) \<Rightarrow> (s1, Inl e)
         | (s1, Inr _) \<Rightarrow> (bump_state_generation (if device_reset then reset_device i t s1 else s1), Inr i)))"
    (is "steady s (fst (?F c))") for c
  proof -
    obtain s1 st where p: "publish_capability_locked i c t device_reset s = (s1, st)" by fastforce
    then have s1: "steady s s1" using publish_steady [of s i c t device_reset] by simp
    have "fst (?F c) \<in> {s1, bump_state_generation s1, bump_state_generation (reset_device i t s1)}"
      using p by (cases st) simp_all
    then show "steady s (fst (?F c))"
      using s1 steady_trans [OF s1 steady_bump] steady_trans [OF s1 steady_trans [OF reset_device_steady steady_bump]]
      by auto
  qed
  then show ?thesis by (simp only: publish_reported_def Let_def)
qed

text \<open>
  The stages of a successful or failing report, once the identity is known. \<open>previous\<close> is the record
  the report builds on, in the state in which \<^verbatim>\<open>state.accelerators[id]\<close> has been read.
\<close>

definition report_base :: "accelerator_id \<Rightarrow> bool \<Rightarrow> fabric_state \<Rightarrow> accelerator_record option \<times> fabric_state" where
  "report_base i existing s = (if existing then (case accelerator_slot i s of (r, t) \<Rightarrow> (Some r, t)) else (None, s))"

lemma register_reported_cases:
  assumes base: "report_base i existing s = (previous, s0)"
  obtains (stopped) e where "register_reported b i existing s = (s0, Inl e)"
  | (refused) m e where "register_reported b i existing s = (s0\<lparr>fs_profiles := m\<rparr>, Inl e)"
  | (installed) g reset r m where
      "previous = None \<Longrightarrow> g = gen_first \<and> \<not> reset"
      "\<And>p. previous = Some p \<Longrightarrow> device_generation p b = Inr (g, reset)"
      "ac_physical_totals r = ba_physical_totals b" "ac_id r = i" "ac_generation r = g" "ac_boot_id r = ba_boot_id b"
      "register_reported b i existing s =
         (case install_device i (ba_stable_key b) r previous (s0\<lparr>fs_profiles := m\<rparr>) of
            (s2, Inl e) \<Rightarrow> (s2, Inl e)
          | (s2, Inr _) \<Rightarrow> publish_reported b i g reset (ac_evidence r) (fs_now s) s2)"
proof -
  define gen where "gen = (case previous of None \<Rightarrow> Inr (gen_first, False) | Some r \<Rightarrow> device_generation r b)"
  define ev where "ev = (case previous of None \<Rightarrow> Inr gen_first
      | Some r \<Rightarrow> if gen_known (es_generation (ac_evidence r)) then gen_next (es_generation (ac_evidence r)) else Inr gen_first)"
  have slot: "(if existing then let (r, t) = accelerator_slot i s in (Some r, t) else (None, s)) = (previous, s0)"
    using base unfolding report_base_def Let_def .
  note unfolded = register_reported_def slot gen_def [symmetric] ev_def [symmetric] Let_def
  obtain m st where m: "register_profiles (ba_profiles b) s0 = (s0\<lparr>fs_profiles := m\<rparr>, st)"
    using register_profiles_frame [of "ba_profiles b" s0] by (auto simp: prod_eq_iff)
  show thesis
  proof (cases gen)
    case (Inl e)
    then show thesis by (intro stopped [of e]) (simp add: unfolded)
  next
    case (Inr gr)
    obtain g reset where gr: "gr = (g, reset)" by (cases gr)
    show thesis
    proof (cases ev)
      case e: (Inl e)
      then show thesis using Inr gr by (intro stopped [of e]) (simp add: unfolded)
    next
      case e: (Inr eg)
      show thesis
      proof (cases st)
        case (Inl e')
        then show thesis using Inr gr e m by (intro refused [of m e']) (simp add: unfolded)
      next
        case st: (Inr u)
        show thesis
        proof (rule installed [of g reset "reported_record b i g eg previous s0" m])
          show "g = gen_first \<and> \<not> reset" if "previous = None" using Inr gr that by (simp add: gen_def)
          show "device_generation p b = Inr (g, reset)" if "previous = Some p" for p using Inr gr that by (simp add: gen_def)
        qed (use Inr gr e m st in \<open>simp_all add: unfolded\<close>)
      qed
    qed
  qed
qed

lemma profiles_registry:
  assumes "registry_inv s"
  shows "registry_inv (s\<lparr>fs_profiles := m\<rparr>)" "authority_evolves s (s\<lparr>fs_profiles := m\<rparr>)"
proof -
  show "registry_inv (s\<lparr>fs_profiles := m\<rparr>)"
    by (rule registry_quiet [OF assms]) (use assms in \<open>simp_all add: registry_inv_def keys_allocated_def\<close>)
  show "authority_evolves s (s\<lparr>fs_profiles := m\<rparr>)" by (rule authority_evolves_same) (simp_all add: counters_advance_def)
qed

lemma report_base_registry:
  "registry_inv s \<Longrightarrow> report_base i existing s = (previous, s0) \<Longrightarrow> registry_inv s0 \<and> authority_evolves s s0"
  using slot_registry [of s i] by (auto simp: report_base_def split: if_splits prod.splits)

lemma register_reported_registry:
  assumes inv: "registry_inv s"
    and tot: "rv_wf (ba_physical_totals b)" "validate_dimensions (ba_physical_totals b) = success"
      "\<not> rv_empty (ba_physical_totals b)"
  shows "registry_inv (fst (register_reported b i existing s)) \<and> authority_evolves s (fst (register_reported b i existing s))"
proof -
  obtain previous s0 where base: "report_base i existing s = (previous, s0)" by fastforce
  have s0: "registry_inv s0" "authority_evolves s s0" using report_base_registry [OF inv base] by simp_all
  note s1 = profiles_registry(1) [OF s0(1)] authority_evolves_trans [OF s0(2) profiles_registry(2) [OF s0(1)]]
  from base show ?thesis
  proof (cases rule: register_reported_cases [where b = b])
    case (stopped e)
    then show ?thesis using s0 by simp
  next
    case (refused m e)
    then show ?thesis using s1 by simp
  next
    case (installed g reset r m)
    let ?s1 = "s0\<lparr>fs_profiles := m\<rparr>"
    have books: "books_kept ?s1" using s1(1) by (simp add: registry_inv_def)
    have "rv_wf (ac_physical_totals r)" "validate_dimensions (ac_physical_totals r) = success"
      "\<not> rv_empty (ac_physical_totals r)" using tot by (simp_all add: installed(3))
    from install_device_done [OF books this, where i = i and key = "ba_stable_key b" and previous = previous]
    obtain l where l: "ledger_closed l"
      "install_device i (ba_stable_key b) r previous ?s1 =
         (?s1\<lparr>fs_accelerators := om_set i r (fs_accelerators ?s1), fs_ledgers := om_set i l (fs_ledgers ?s1)\<rparr>, success)"
      (is "_ = (?s2, _)") by blast
    have "ledgers_grow ?s1 ?s2" by (rule ledgers_grow_set [of l]) (use l(1) in \<open>simp_all add: ledger_closed_def\<close>)
    then have s2: "registry_inv ?s2" by (intro install_registry [OF s1(1) _ refl]) (simp_all add: installed(4) apf_lookup)
    have "authority_evolves ?s1 ?s2" by (rule authority_evolves_same) (simp_all add: counters_advance_def)
    then have a2: "authority_evolves s ?s2" using authority_evolves_trans [OF s1(2)] by blast
    have "steady ?s2 (fst (register_reported b i existing s))"
      using installed(7) l(2) publish_reported_steady by simp
    then show ?thesis using steady_registry [OF _ s2] authority_evolves_trans [OF a2] by (auto simp: steady_def)
  qed
qed

lemma register_identity_cases:
  assumes inv: "registry_inv s"
  obtains (refused) e s' where "register_identity b s = (s', Inl e)" "registry_inv s'" "authority_evolves s s'"
  | (found) i existing s' where "register_identity b s = (s', Inr (i, existing))" "registry_inv s'" "authority_evolves s s'"
proof (cases "om_find (ba_stable_key b) (fs_key_index s)")
  case (Some i)
  then show thesis using inv by (intro found [of s i True]) (simp_all add: register_identity_def)
next
  case None
  obtain al ir where al: "allocate (fs_ids s) = (al, ir)" by fastforce
  have le: "ida_next (fs_ids s) \<le> ida_next al" using allocate_monotone [of "fs_ids s"] al by simp
  have keys: "keys_allocated s" using inv by (simp add: registry_inv_def)
  show thesis
  proof (cases "length (fs_accelerators s) \<ge> max_accelerators (fs_limits s)")
    case True
    with None inv show thesis by (intro refused [of s E_LimitExceeded]) (simp_all add: register_identity_def)
  next
    case False
    show thesis
    proof (cases ir)
      case (Inl e)
      have "authority_evolves s (s\<lparr>fs_ids := al\<rparr>)"
        by (rule authority_evolves_same) (simp_all add: counters_advance_def le)
      moreover have "registry_inv (s\<lparr>fs_ids := al\<rparr>)"
        by (rule registry_quiet [OF inv]) (simp_all add: le keys_allocated_later [OF keys])
      ultimately show thesis using None False al Inl by (intro refused [of "s\<lparr>fs_ids := al\<rparr>" e]) (simp_all add: register_identity_def)
    next
      case (Inr i)
      let ?s = "s\<lparr>fs_ids := al, fs_key_index := om_set (ba_stable_key b) i (fs_key_index s),
                    fs_stable_keys := om_set i (ba_stable_key b) (fs_stable_keys s)\<rparr>"
      have i: "i = ida_next (fs_ids s)" "i < ida_next al" using al Inr allocate_below by (auto simp: allocate_Inr)
      have "keys_allocated ?s"
        using keys i le unfolding keys_allocated_def by (auto simp: apf_lookup intro: less_le_trans split: if_splits)
      then have "registry_inv ?s" by (intro registry_quiet [OF inv]) (simp_all add: le)
      moreover have "authority_evolves s ?s" by (rule authority_evolves_same) (simp_all add: counters_advance_def le)
      ultimately show thesis using None False al Inr by (intro found [of ?s i False]) (simp_all add: register_identity_def)
    qed
  qed
qed

text \<open>A report keeps the registry, whether it is accepted or refused at any of its stages.\<close>

lemma register_backend_registry:
  assumes inv: "registry_inv s" and wf: "rv_wf (ba_physical_totals b)"
  shows "registry_inv (fst (register_backend_accelerator b s))"
    "authority_evolves s (fst (register_backend_accelerator b s))"
proof -
  let ?R = "\<lambda>t. registry_inv t \<and> authority_evolves s t"
  have "?R (fst (register_backend_accelerator b s))"
  proof (cases "check_open s = success \<and> validate_backend_accelerator b (fs_limits s) = success")
    case False
    then have "fst (register_backend_accelerator b s) = s"
      by (auto simp: register_backend_accelerator_def split: sum.split)
    then show ?thesis using inv by simp
  next
    case True
    then have tot: "validate_dimensions (ba_physical_totals b) = success" "\<not> rv_empty (ba_physical_totals b)"
      using validate_backend_totals by auto
    from inv show ?thesis
    proof (cases rule: register_identity_cases [where b = b])
      case (refused e s')
      then show ?thesis using True by (simp add: register_backend_accelerator_def)
    next
      case (found i existing s')
      have "register_backend_accelerator b s = register_reported b i existing s'"
        using True found(1) by (simp add: register_backend_accelerator_def)
      then show ?thesis
        using register_reported_registry [OF found(2) wf tot] authority_evolves_trans [OF found(3)] by auto
    qed
  qed
  then show "registry_inv (fst (register_backend_accelerator b s))"
    "authority_evolves s (fst (register_backend_accelerator b s))" by auto
qed

text \<open>
  The direct registration. When the totals are refused a new device disappears again but its empty
  ledger stays behind, and a known device keeps its ledger next to the record with the new totals.
\<close>

lemma place_record_cases:
  assumes inv: "books_kept s" and wf: "rv_wf (ac_physical_totals r)" and ne: "\<not> rv_empty (ac_physical_totals r)"
  obtains l st where "ledger_balanced l" "st = success \<Longrightarrow> ledger_closed l"
      "place_record r s = (s\<lparr>fs_accelerators := om_set (ac_id r) r (fs_accelerators s),
                            fs_ledgers := om_set (ac_id r) l (fs_ledgers s)\<rparr>, st)"
proof -
  define l where "l = (case find_ledger (ac_id r) s of Some l \<Rightarrow> l | None \<Rightarrow> ledger_empty)"
  have srt: "om_sorted (fs_ledgers s)" using inv by (simp add: books_kept_def)
  have bal: "ledger_balanced l"
    using inv ledger_empty_balanced by (auto simp: l_def books_kept_def ledgers_balanced_def split: option.split)
  show thesis
  proof (cases "rv_eq (cl_total l) (ac_physical_totals r)")
    case True
    then have "ledger_closed l" using bal ne by (simp add: ledger_closed_def rv_eq_iff rv_empty_def)
    then show thesis using True bal by (intro that [of l success]) (simp_all add: place_record_def Let_def l_def [symmetric])
  next
    case False
    obtain l' st where i: "initialize_totals (ac_physical_totals r) l = (l', st)" by fastforce
    have p: "place_record r s = (s\<lparr>fs_accelerators := om_set (ac_id r) r (fs_accelerators s),
             fs_ledgers := om_set (ac_id r) l' (fs_ledgers s)\<rparr>, st)"
      using False i om_modify_set [OF srt, of "ac_id r" l' l] by (simp add: place_record_def Let_def l_def [symmetric])
    show thesis
    proof (cases st)
      case (Inl e)
      then have "l' = l" using initialize_totals_error [OF wf] i by blast
      then show thesis using that [of l' st] bal p Inl by simp
    next
      case (Inr u)
      then have "validate_dimensions (ac_physical_totals r) = success"
        using i by (auto simp: initialize_totals_def split: sum.splits)
      then have "ledger_closed l'" using initialize_totals_closed [OF wf _ ne, of l] i by auto
      then show thesis using that [of l' st] p by (simp add: ledger_closed_def)
    qed
  qed
qed

lemma erase_registry:
  assumes "registry_inv s"
  shows "registry_inv (s\<lparr>fs_accelerators := om_erase i (fs_accelerators s)\<rparr>)"
  using assms keyed_erase [of s "s\<lparr>fs_accelerators := om_erase i (fs_accelerators s)\<rparr>" i]
  by (auto simp: registry_inv_def books_kept_def ledgers_balanced_def devices_booked_def ids_fresh_def used_ids_def
      keys_allocated_def apf_lookup)

lemma register_accelerator_registry:
  assumes inv: "registry_inv s" and wf: "rv_wf (ac_physical_totals r)"
  shows "registry_inv (fst (register_accelerator r s))" "authority_evolves s (fst (register_accelerator r s))"
proof -
  let ?t = "fst (register_accelerator r s)" and ?p = "place_record r s"
  let ?erased = "\<lambda>u. u\<lparr>fs_accelerators := om_erase (ac_id r) (fs_accelerators u)\<rparr>"
  have steps: "?t = s \<or> \<not> rv_empty (ac_physical_totals r) \<and> (?t \<in> {fst ?p, ?erased (fst ?p)} \<or> steady (fst ?p) ?t)"
  proof -
    obtain s3 st where p: "?p = (s3, st)" by fastforce
    let ?pub = "if gen_known (cap_generation (ac_capability r))
      then publish_capability_locked (ac_id r) (ac_capability r) (fs_now s) False s3 else (s3, Inr gen_first)"
    obtain s4 g where q: "?pub = (s4, g)" by fastforce
    have s4: "steady s3 s4" using q publish_steady [of s3 "ac_id r" "ac_capability r" "fs_now s" False] by (auto split: if_splits)
    then have s5: "steady s3 (bump_state_generation s4)" by (rule steady_trans) simp
    show ?thesis
    proof (cases "?t = s")
      case False
      then have "check_open s = success" "accelerator_validate r (fs_limits s) = success"
        by (auto simp: register_accelerator_def split: sum.splits)
      moreover from this(2) have "\<not> rv_empty (ac_physical_totals r)" by (auto simp: accelerator_validate_def split: if_splits)
      ultimately show ?thesis
        using False s4 s5 by (cases st; cases g) (auto simp: register_accelerator_def Let_def p q split: if_splits)
    qed simp
  qed
  have "registry_inv ?t \<and> authority_evolves s ?t"
  proof (cases "?t = s")
    case True
    then show ?thesis using inv by simp
  next
    case False
    have books: "books_kept s" using inv by (simp add: registry_inv_def)
    obtain l st where l: "ledger_balanced l"
      "?p = (s\<lparr>fs_accelerators := om_set (ac_id r) r (fs_accelerators s), fs_ledgers := om_set (ac_id r) l (fs_ledgers s)\<rparr>, st)"
      using place_record_cases [OF books wf] steps False by blast
    have "ledgers_grow s (fst ?p)" by (rule ledgers_grow_set [OF l(1)]) (simp add: l(2))
    then have reg: "registry_inv (fst ?p)"
      by (intro install_registry [OF inv, of r "ac_id r" "om_set (ac_id r) l (fs_ledgers s)"]) (simp_all add: l(2) apf_lookup)
    have auth: "authority_evolves s (fst ?p)" "authority_evolves s (?erased (fst ?p))"
      unfolding l(2) by (simp_all, (rule authority_evolves_same, simp_all add: counters_advance_def)+)
    show ?thesis
      using steps False reg auth erase_registry [OF reg] steady_registry [OF _ reg] authority_evolves_trans [OF auth(1)]
      by (auto simp: steady_def)
  qed
  then show "registry_inv ?t" "authority_evolves s ?t" by auto
qed

section \<open>A device that came back with another boot identity\<close>

lemma reset_reservation_terminal:
  "rs_accelerator (reset_reservation a t r) = a \<Longrightarrow> reservation_is_terminal (rs_lifecycle (reset_reservation a t r))"
  by (auto simp: reset_reservation_def reservation_is_terminal_def)

lemma reset_reservations:
  assumes "find_reservation k (reset_device a t s) = Some r" "rs_accelerator r = a"
  shows "reservation_is_terminal (rs_lifecycle r)"
proof -
  obtain r0 where "r = reset_reservation a t r0"
    using assms(1) by (auto simp: reset_device_def Let_def om_find_map)
  then show ?thesis using assms(2) reset_reservation_terminal by simp
qed

lemma transition_accelerators: "transition_partition i to s = (s', r) \<Longrightarrow> fs_accelerators s' = fs_accelerators s"
  using transition_frame(9) [of i to s] by simp

lemma reset_partition_frame: "fs_accelerators (reset_partition a i s) = fs_accelerators s"
  by (auto simp: reset_partition_def split: option.split sum.split prod.split dest: transition_accelerators)

lemma reset_device_accelerators [simp]: "fs_accelerators (reset_device a t s) = fs_accelerators s"
  by (simp add: reset_device_def Let_def)
    (rule for_keys_frame, simp add: reset_partition_frame)

lemma install_capability_generation:
  assumes "find_accelerator a s = Some r"
  shows "\<exists>r'. find_accelerator a (install_capability a c g t s) = Some r' \<and> ac_generation r' = ac_generation r \<and>
     ac_boot_id r' = ac_boot_id r"
proof -
  have f: "fs_accelerators (for_keys ks (capability_fence a' g' t') u) = fs_accelerators u" for ks a' g' t' u
    by (rule for_keys_frame) (simp add: capability_fence_def Let_def split: option.split sum.split prod.split)
  have v: "fs_accelerators (for_keys ks (capability_revalidate a' c') u) = fs_accelerators u" for ks a' c' u
  proof (rule for_keys_frame)
    show "fs_accelerators (capability_revalidate a' c' k w) = fs_accelerators w" for k w
      by (auto simp: capability_revalidate_def split: option.split sum.split prod.split dest: transition_accelerators)
  qed
  show ?thesis using assms by (simp add: install_capability_def Let_def f v apf_lookup)
qed

lemma publish_generation:
  assumes "publish_capability_locked a c t force s = (s', Inr g)" "find_accelerator a s = Some r"
  shows "\<exists>r'. find_accelerator a s' = Some r' \<and> ac_generation r' = ac_generation r \<and> ac_boot_id r' = ac_boot_id r"
  using assms install_capability_generation [OF assms(2)]
  by (auto simp: publish_capability_locked_def Let_def split: if_splits sum.splits)

lemma install_device_record:
  "install_device i key r previous s = (t, success) \<Longrightarrow> find_accelerator i t = Some r"
  by (auto simp: install_device_def Let_def apf_lookup split: if_splits sum.splits prod.splits option.splits)

lemma register_known:
  assumes "register_backend_accelerator b s = (t, Inr i)" "om_find (ba_stable_key b) (fs_key_index s) = Some j"
  shows "register_reported b j True s = (t, Inr i)"
  using assms by (auto simp: register_backend_accelerator_def register_identity_def split: sum.splits)

lemma publish_reported_id: "publish_reported b i g reset ev t s = (u, Inr j) \<Longrightarrow> j = i"
  by (auto simp: publish_reported_def Let_def split: prod.splits sum.splits)

theorem device_reset_fences:
  assumes reg: "register_backend_accelerator b s = (t, Inr i)"
    and known: "om_find (ba_stable_key b) (fs_key_index s) = Some j" "find_accelerator j s = Some p"
    and boots: "boot_valid (ac_boot_id p)" "boot_valid (ba_boot_id b)" "ac_boot_id p \<noteq> ba_boot_id b"
  shows "i = j"
    and "\<exists>r. find_accelerator i t = Some r \<and> gen_next (ac_generation p) = Inr (ac_generation r) \<and> ac_boot_id r = ba_boot_id b"
    and "find_reservation k t = Some r \<Longrightarrow> rs_accelerator r = i \<Longrightarrow> reservation_is_terminal (rs_lifecycle r)"
proof -
  note rep = register_known [OF reg known(1)]
  have base: "report_base j True s = (Some p, s)" using known(2) by (simp add: report_base_def accelerator_slot_def)
  then have all: "i = j \<and> (\<exists>r. find_accelerator j t = Some r \<and> gen_next (ac_generation p) = Inr (ac_generation r) \<and> ac_boot_id r = ba_boot_id b) \<and>
        (\<exists>u. t = bump_state_generation (reset_device j (fs_now s) u))"
  proof (cases rule: register_reported_cases [where b = b])
    case (installed g reset r' m)
    have reset: reset and g: "gen_next (ac_generation p) = Inr g"
      using installed(2) [OF refl] boots by (auto simp: device_generation_def split: sum.splits)
    obtain s2 where s2: "install_device j (ba_stable_key b) r' (Some p) (s\<lparr>fs_profiles := m\<rparr>) = (s2, success)"
      and pub: "publish_reported b j g True (ac_evidence r') (fs_now s) s2 = (t, Inr i)"
      using installed(7) rep reset by (auto split: prod.splits sum.splits)
    from pub obtain c s3 g' where s3: "publish_capability_locked j c (fs_now s) True s2 = (s3, Inr g')"
      and t: "t = bump_state_generation (reset_device j (fs_now s) s3)"
      by (auto simp: publish_reported_def Let_def split: prod.splits sum.splits)
    have ij: "i = j" using publish_reported_id [OF pub] .
    obtain r'' where "find_accelerator j s3 = Some r''" "ac_generation r'' = ac_generation r'" "ac_boot_id r'' = ac_boot_id r'"
      using publish_generation [OF s3 install_device_record [OF s2]] by blast
    then show ?thesis using t g ij installed(5,6) by auto
  qed (use rep in simp_all)
  from all show "i = j" by simp
  from all show "\<exists>r. find_accelerator i t = Some r \<and> gen_next (ac_generation p) = Inr (ac_generation r) \<and> ac_boot_id r = ba_boot_id b"
    by blast
  from all show "find_reservation k t = Some r \<Longrightarrow> rs_accelerator r = i \<Longrightarrow> reservation_is_terminal (rs_lifecycle r)"
    using reset_reservations by auto
qed

end
