(* ===== verification/APF_Choice.thy ===== *)
theory APF_Choice
  imports APF_Planner APF_Registry
begin

text \<open>
  What the planner guarantees: demands and instance counts are exact, a device reported feasible
  really has the room, the chosen device is the best of the eligible ones, and when a fresh plan is
  accepted by the validation that \<^verbatim>\<open>reserve\<close> and \<^verbatim>\<open>execute_reconfiguration\<close> run.
\<close>

section \<open>Demands are exact\<close>

lemma index_dimension: "i < 8 \<Longrightarrow> dim_index (dim_of_index i) = i \<and> dim_of_index i \<noteq> Dimension_Count"
  using dim_index_less [of "dim_of_index i"] by auto

lemma get_index: "i < 8 \<Longrightarrow> unat (rv_get v (dim_of_index i)) = rv_val v i"
  using rv_get_val [of "dim_of_index i" v] index_dimension [of i] by simp

lemma has_index: "i < 8 \<Longrightarrow> rv_has v (dim_of_index i) \<longleftrightarrow> bit (rv_mask v) i"
  using index_dimension [of i] by (simp add: rv_has_bit)

lemma unat_widen [simp]: "unat (ucast (n::u32) :: u64) = unat n"
  using unsigned_less [of n, where ?'a = nat] by (simp add: unsigned_ucast_eq take_bit_nat_eq_self)

lemma product_guard:
  fixes a :: u64 and n :: u32
  assumes "n \<noteq> 0"
  shows "a > UINT64_MAX div ucast n \<longleftrightarrow> 2 ^ 64 \<le> unat a * unat n"
proof -
  have n: "unat n > 0" using assms by (simp add: unat_gt_0)
  have "unat (UINT64_MAX div ucast n) = (2 ^ 64 - 1) div unat n"
    by (simp add: unat_div)
  then have "a > UINT64_MAX div ucast n \<longleftrightarrow> (2 ^ 64 - 1) div unat n < unat a"
    by (simp add: word_less_nat_alt)
  also have "\<dots> \<longleftrightarrow> 2 ^ 64 - 1 < unat a * unat n"
    using div_less_iff_less_mult [OF n, of "2 ^ 64 - 1" "unat a"] by simp
  finally show ?thesis by auto
qed

lemma product_exact:
  fixes a :: u64 and n :: u32
  assumes "unat a * unat n < 2 ^ 64"
  shows "unat (a * ucast n) = unat a * unat n"
  using assms by (simp add: unat_word_ariths)

lemma multiply_loop_spec:
  assumes "n \<noteq> 0" "set is \<subseteq> {..<8}" "distinct is" "length vs = 8" "multiply_loop is v n vs m = (vs', res)"
  shows "length vs' = 8 \<and>
    (case res of
       Inl e \<Rightarrow> e = E_Overflow \<and> (\<exists>i\<in>set is. 2 ^ 64 \<le> rv_val v i * unat n)
     | Inr m' \<Rightarrow> (\<forall>i\<in>set is. rv_val v i * unat n < 2 ^ 64) \<and>
         (\<forall>i<32. bit m' i \<longleftrightarrow> bit m i \<or> i \<in> set is \<and> bit (rv_mask v) i) \<and>
         (\<forall>i<8. unat (vs' ! i) = (if i \<in> set is \<and> bit (rv_mask v) i then rv_val v i * unat n else unat (vs ! i))))"
  using assms(2-)
proof (induction "is" arbitrary: vs m)
  case (Cons j js)
  have j: "j < 8" using Cons.prems(1) by simp
  have v0: "\<not> bit (rv_mask v) j \<Longrightarrow> rv_val v j = 0" by (simp add: rv_val_def)
  let ?a = "rv_get v (dim_of_index j)"
  show ?case
  proof (cases "bit (rv_mask v) j")
    case False
    then have "multiply_loop js v n vs m = (vs', res)" using Cons.prems(4) j by (simp add: has_index)
    from Cons.IH [OF _ _ Cons.prems(3) this] show ?thesis
      using Cons.prems(1,2) False v0 by (auto split: sum.splits)
  next
    case True
    show ?thesis
    proof (cases "2 ^ 64 \<le> rv_val v j * unat n")
      case over: True
      then have "?a \<noteq> 0" using get_index [OF j, of v] by (metis mult_0 not_less unat_0 zero_less_numeral zero_less_power)
      then show ?thesis
        using Cons.prems(3,4) over True j product_guard [OF assms(1), of ?a]
        by (auto simp: has_index get_index Let_def assms(1))
    next
      case fits: False
      let ?vs = "vs[j := ?a * ucast n]" and ?m = "m OR index_bit j"
      have rec: "multiply_loop js v n ?vs ?m = (vs', res)"
        using Cons.prems(4) fits True j product_guard [OF assms(1), of ?a] by (simp add: has_index get_index Let_def)
      have p: "unat (?a * ucast n) = rv_val v j * unat n"
        using product_exact [of ?a n] fits by (simp add: get_index [OF j])
      have b: "bit ?m i \<longleftrightarrow> bit m i \<or> i = j" if "i < 32" for i
        using that j by (auto simp: index_bit_def bit_simps)
      show ?thesis
        using Cons.IH [OF _ _ _ rec] Cons.prems(1,2,3) fits True p b by (auto simp: nth_list_update split: sum.splits)
    qed
  qed
qed (auto split: sum.splits)

lemma multiply_resource_exact:
  "if \<forall>i<8. rv_val v i * unat n < 2 ^ 64
   then \<exists>w. multiply_resource v n = (w, success) \<and> rv_wf w \<and> (\<forall>i<8. rv_val w i = rv_val v i * unat n) \<and>
     (\<forall>i<8. bit (rv_mask w) i \<longleftrightarrow> n \<noteq> 0 \<and> bit (rv_mask v) i)
   else snd (multiply_resource v n) = Inl E_Overflow"
proof (cases "n = 0")
  case True
  then show ?thesis by (auto simp: multiply_resource_def rv_wf_zeros) (auto simp: rv_zeros_def)
next
  case False
  obtain vs res where loop: "multiply_loop [0..<8] v n (rv_values rv_zeros) 0 = (vs, res)" by fastforce
  note spec = multiply_loop_spec [OF False loop_indices _ loop]
  show ?thesis
  proof (cases res)
    case (Inl e)
    then show ?thesis using spec loop False
      by (auto simp: rv_zeros_def multiply_resource_def)
  next
    case (Inr m)
    then have w: "multiply_resource v n = (\<lparr>rv_values = vs, rv_mask = m\<rparr>, success)"
      using loop False by (simp add: multiply_resource_def)
    show ?thesis using spec False unfolding w Inr
      by (auto simp: rv_zeros_def rv_wf_def rv_val_def)
  qed
qed

section \<open>How many instances fit\<close>

lemma div_bound_iff:
  fixes a b :: u64
  assumes "b \<noteq> 0"
  shows "n \<le> unat (a div b) \<longleftrightarrow> n * unat b \<le> unat a"
  using assms less_eq_div_iff_mult_less_eq [of "unat b" n "unat a"] by (simp add: unat_div unat_gt_0)

lemma narrow_exact: "\<not> (x::u64) > ucast UINT32_MAX \<Longrightarrow> unat (ucast x :: u32) = unat x"
  by (simp add: word_less_nat_alt unsigned_ucast_eq take_bit_nat_eq_self not_less)

lemma unat_min: "unat (min a b) = min (unat a) (unat (b::'a::len word))"
  by (simp add: min_def word_le_nat_alt)

lemma fitting_loop_spec:
  assumes "set is \<subseteq> {..<8}" "n < 2 ^ 32"
  shows "case fitting_loop is pool per best c of
      None \<Rightarrow> n > 0 \<longrightarrow> (\<exists>i\<in>set is. \<not> n * rv_val per i \<le> rv_val pool i)
    | Some (best', c') \<Rightarrow> (c' \<longleftrightarrow> c \<or> (\<exists>i\<in>set is. rv_val per i > 0)) \<and>
        (n \<le> unat best' \<longleftrightarrow> n \<le> unat best \<and> (\<forall>i\<in>set is. n * rv_val per i \<le> rv_val pool i))"
  using assms(1)
proof (induction "is" arbitrary: best c)
  case (Cons j js)
  have j: "j < 8" and js: "set js \<subseteq> {..<8}" using Cons.prems by auto
  let ?need = "rv_get per (dim_of_index j)" and ?have = "rv_get pool (dim_of_index j)"
  have need: "rv_has per (dim_of_index j) \<and> ?need \<noteq> 0 \<longleftrightarrow> rv_val per j > 0"
  proof -
    have "?need \<noteq> 0 \<longleftrightarrow> rv_val per j > 0" using get_index [OF j, of per] by (metis unat_gt_0)
    moreover have "\<not> rv_has per (dim_of_index j) \<Longrightarrow> ?need = 0" by (simp add: rv_get_def)
    ultimately show ?thesis by blast
  qed
  show ?case
  proof (cases "rv_val per j > 0")
    case False
    then show ?thesis using Cons.IH [OF js, of c best] need by (auto simp: Let_def split: option.splits prod.splits)
  next
    case True
    show ?thesis
    proof (cases "rv_has pool (dim_of_index j)")
      case False
      then have "rv_val pool j = 0" using get_index [OF j, of pool] by (simp add: rv_get_def)
      then show ?thesis using True need False by (auto simp: Let_def)
    next
      case has: True
      have nz: "?need \<noteq> 0" and hn: "rv_has per (dim_of_index j)" using need True by auto
      have fit: "n \<le> unat (?have div ?need) \<longleftrightarrow> n * rv_val per j \<le> rv_val pool j"
        using div_bound_iff [OF nz, of n ?have] by (simp add: get_index [OF j])
      show ?thesis
      proof (cases "?have div ?need > ucast UINT32_MAX")
        case big: True
        then have "n \<le> unat (?have div ?need)" using assms(2) by (simp add: word_less_nat_alt)
        then show ?thesis using Cons.IH [OF js, of True best] has nz hn big fit True
          by (auto simp: Let_def split: option.splits prod.splits)
      next
        case small: False
        show ?thesis
          using Cons.IH [OF js, of True "min best (ucast (?have div ?need))"] has nz hn small fit True narrow_exact [OF small]
          by (auto simp: Let_def unat_min split: option.splits prod.splits)
      qed
    qed
  qed
qed simp

lemma instances_fitting_iff:
  assumes "n < 2 ^ 32" "\<exists>i<8. rv_val per i > 0"
  shows "n \<le> unat (instances_fitting pool per) \<longleftrightarrow> (\<forall>i<8. n * rv_val per i \<le> rv_val pool i)"
  using fitting_loop_spec [OF loop_indices(1) assms(1), where pool = pool and per = per and best = UINT32_MAX and c = False] assms
  by (cases "n = 0") (auto simp: instances_fitting_def split: option.splits prod.splits if_splits)

lemma instances_fitting_unconstrained: "\<forall>i<8. rv_val per i = 0 \<Longrightarrow> instances_fitting pool per = 0"
  using fitting_loop_spec [OF loop_indices(1), where n = 0 and pool = pool and per = per and best = UINT32_MAX and c = False]
  by (auto simp: instances_fitting_def split: option.splits prod.splits)

section \<open>A feasible device has the room\<close>

lemma room_ge:
  assumes "n \<le> room a b" "n \<noteq> 0"
  shows "unat b + unat n \<le> unat a"
proof -
  have lt: "a > b" using assms by (auto simp: room_def split: if_splits)
  then have "unat n \<le> unat a - unat b" "unat b \<le> unat a"
    using assms(1) by (auto simp: room_def word_le_nat_alt word_less_nat_alt unat_sub)
  then show ?thesis by linarith
qed

lemma slice_limit_le:
  assumes "n \<le> slice_limit total_slices used per b" "n \<noteq> 0"
  shows "n \<le> b" "total_slices > 0 \<Longrightarrow> unat used + unat n * unat per \<le> unat total_slices \<or> per = 0"
proof -
  show "n \<le> b" using assms by (auto simp: slice_limit_def split: if_splits)
  assume t: "total_slices > 0"
  show "unat used + unat n * unat per \<le> unat total_slices \<or> per = 0"
  proof (cases "per = 0")
    case False
    then have "n \<le> room total_slices used div per" using assms t by (simp add: slice_limit_def word_gt_0)
    then have "unat n * unat per \<le> unat (room total_slices used)"
      using False less_eq_div_iff_mult_less_eq [of "unat per" "unat n"] by (simp add: word_le_nat_alt unat_div unat_gt_0)
    moreover have "unat n * unat per > 0" using False assms(2) by (simp add: unat_gt_0)
    ultimately have "total_slices > used" "unat n * unat per \<le> unat total_slices - unat used"
      by (auto simp: room_def word_less_nat_alt unat_sub word_le_nat_alt split: if_splits)
    then show ?thesis by (simp add: word_less_nat_alt) linarith
  qed simp
qed

lemma multiplicity_cap_le:
  assumes "multiplicity_cap s acc profile used same = (cap, bs)" "n \<le> cap" "n \<noteq> 0"
  shows "pf_max_multiplicity profile > 0 \<Longrightarrow> unat same + unat n \<le> unat (pf_max_multiplicity profile)"
    "pp_max_instances_per_profile (fs_policy s) > 0 \<Longrightarrow>
       unat same + unat n \<le> unat (pp_max_instances_per_profile (fs_policy s))"
    "find_rule (ac_capability acc) (pf_id profile) = Some rule \<Longrightarrow> cr_max_instances rule > 0 \<Longrightarrow>
       unat same + unat n \<le> unat (cr_max_instances rule)"
    "find_rule (ac_capability acc) (pf_id profile) = Some rule \<Longrightarrow> cr_requires_exclusive_device rule \<Longrightarrow> used = 0"
  using assms room_ge [of n _ same]
  by (auto simp: multiplicity_cap_def Let_def word_gt_0 split: option.splits if_splits)

lemma finish_report_frame [simp]:
  "fr_feasible_now (finish_report s acc l request r) = fr_feasible_now r"
  "fr_feasible_after_drain (finish_report s acc l request r) = fr_feasible_after_drain r"
  "fr_feasible_after_reconfiguration (finish_report s acc l request r) = fr_feasible_after_reconfiguration r"
  "fr_reconfiguration_can_help (finish_report s acc l request r) = fr_reconfiguration_can_help r"
  "fr_free_capacity (finish_report s acc l request r) = fr_free_capacity r"
  "fr_partition_slots_free (finish_report s acc l request r) = fr_partition_slots_free r"
  by (auto simp: finish_report_def Let_def split: sum.split)

lemma short_report_feasible [simp]:
  "fr_feasible_now (short_report s acc l request profile needed r) = fr_feasible_now r"
  by (simp add: short_report_def Let_def case_prod_beta)

definition device_has_room ::
  "fabric_state \<Rightarrow> accelerator_record \<Rightarrow> capacity_ledger \<Rightarrow> partition_profile \<Rightarrow> u32 \<Rightarrow> bool" where
  "device_has_room s acc l profile n \<longleftrightarrow>
     (let a = ac_id acc; c = ac_capability acc; same = unat (resident_instances s a (pf_id profile)) in
      (\<forall>i<8. unat n * rv_val (pf_resources profile) i \<le> rv_val (ledger_bucket l Bucket_Free) i) \<and>
      unat (used_partitions s a) + unat n \<le> unat (cap_max_partition_count c) \<and>
      \<not> profile_conflicts_with_resident s acc profile \<and>
      (pf_max_multiplicity profile = 0 \<or> same + unat n \<le> unat (pf_max_multiplicity profile)) \<and>
      (pp_max_instances_per_profile (fs_policy s) = 0 \<or> same + unat n \<le> unat (pp_max_instances_per_profile (fs_policy s))) \<and>
      (case find_rule c (pf_id profile) of
         None \<Rightarrow> True
       | Some rule \<Rightarrow> (cr_max_instances rule = 0 \<or> same + unat n \<le> unat (cr_max_instances rule)) \<and>
                      (cr_requires_exclusive_device rule \<longrightarrow> used_partitions s a = 0)) \<and>
      (cap_total_compute_slices c = 0 \<or>
         unat (used_slices s a True) + unat n * unat (pf_compute_slice_count profile) \<le> unat (cap_total_compute_slices c) \<or>
         pf_compute_slice_count profile = 0) \<and>
      (cap_total_memory_slices c = 0 \<or>
         unat (used_slices s a False) + unat n * unat (pf_memory_slice_count profile) \<le> unat (cap_total_memory_slices c) \<or>
         pf_memory_slice_count profile = 0))"

lemma count_report_room:
  assumes "fr_feasible_now (count_report s acc request profile needed conflict r)" "rq_count request \<noteq> 0"
    "conflict = profile_conflicts_with_resident s acc profile" "fr_free_capacity r = ledger_bucket l Bucket_Free"
  shows "device_has_room s acc l profile (rq_count request)"
proof -
  let ?n = "rq_count request" and ?a = "ac_id acc" and ?c = "ac_capability acc"
  define used where "used = used_partitions s ?a"
  define same where "same = resident_instances s ?a (pf_id profile)"
  obtain cap bs where cap: "multiplicity_cap s acc profile used same = (cap, bs)" by fastforce
  define b where "b = min (min (instances_fitting (ledger_bucket l Bucket_Free) (pf_resources profile))
    (room (cap_max_partition_count ?c) used)) cap"
  have nc: "\<not> profile_conflicts_with_resident s acc profile" and shape: "?n \<le> instances_by_shape s acc profile b"
    using assms cap by (auto simp: count_report_def Let_def used_def same_def b_def)
  note memory = slice_limit_le [OF shape [unfolded instances_by_shape_def] assms(2)]
  note compute = slice_limit_le [OF memory(1) assms(2)]
  have le: "?n \<le> instances_fitting (ledger_bucket l Bucket_Free) (pf_resources profile)"
    "?n \<le> room (cap_max_partition_count ?c) used" "?n \<le> cap"
    using compute(1) by (auto simp: b_def)
  have "\<exists>i<8. rv_val (pf_resources profile) i > 0"
    using instances_fitting_unconstrained [of "pf_resources profile"] le(1) assms(2) by (force simp: not_less)
  then have fits: "\<forall>i<8. unat ?n * rv_val (pf_resources profile) i \<le> rv_val (ledger_bucket l Bucket_Free) i"
    using instances_fitting_iff [of "unat ?n" "pf_resources profile"] le(1) unsigned_less [of ?n, where ?'a = nat]
    by (simp add: word_le_nat_alt)
  note slots = room_ge [OF le(2) assms(2)]
  note m = multiplicity_cap_le [OF cap le(3) assms(2)]
  show ?thesis
    unfolding device_has_room_def Let_def used_def [symmetric] same_def [symmetric]
    using fits slots nc m memory(2) compute(2) by (auto simp: word_gt_0 split: option.split)
qed

lemma feasible_now_room:
  assumes "fr_feasible_now (analyze_fragmentation_impl s acc l request)" "rq_count request \<noteq> 0"
  shows "\<exists>profile. find_profile (rq_profile request) s = Some profile \<and> device_has_room s acc l profile (rq_count request)"
proof -
  have init: "\<not> fr_feasible_now (initial_report acc l request)" "fr_free_capacity (initial_report acc l request) = ledger_bucket l Bucket_Free"
    by (simp_all add: initial_report_def report_default_def)
  obtain profile where p: "find_profile (rq_profile request) s = Some profile"
    using assms(1) init by (auto simp: analyze_fragmentation_impl_def Let_def split: option.splits)
  obtain v bs where c: "committed_loop [0..<8] l (rv_zeros, []) = (v, bs)" by fastforce
  obtain needed st where m: "multiply_resource (pf_resources profile) (rq_count request) = (needed, st)" by fastforce
  obtain u where st: "st = Inr u"
    using assms(1) init p c m by (cases st) (auto simp: analyze_fragmentation_impl_def Let_def)
  let ?r = "(initial_report acc l request)\<lparr>fr_profile_supported := supports_profile (ac_capability acc) (pf_id profile),
    fr_capacity_trapped_behind_active := v, fr_blockers := bs\<rparr>"
  have "fr_feasible_now (count_report s acc request profile needed (profile_conflicts_with_resident s acc profile) ?r)"
    using assms(1) p c m st by (auto simp: analyze_fragmentation_impl_def Let_def split: if_splits)
  from count_report_room [OF this assms(2) refl] show ?thesis using p init(2) by simp
qed

section \<open>The chosen device\<close>

text \<open>The records with an identity are found under it, and are visited in its order.\<close>

lemma keyed_find:
  assumes "devices_keyed s" "acc \<in> set (om_values (fs_accelerators s))" "id_valid (ac_id acc)"
  shows "find_accelerator (ac_id acc) s = Some acc"
  using assms om_sorted_find_iff [of "fs_accelerators s" "ac_id acc" acc]
  by (force simp: devices_keyed_def om_values_def)

lemma keyed_order:
  assumes "devices_keyed s"
  shows "sorted_wrt (\<lambda>a b. id_valid (ac_id a) \<longrightarrow> id_valid (ac_id b) \<longrightarrow> ac_id a < ac_id b) (om_values (fs_accelerators s))"
proof -
  have srt: "sorted_wrt (\<lambda>x y. fst x < fst y) (fs_accelerators s)"
    and keyed: "\<And>e. e \<in> set (fs_accelerators s) \<Longrightarrow> id_valid (ac_id (snd e)) \<Longrightarrow> ac_id (snd e) = fst e"
    using assms by (simp_all add: devices_keyed_def om_sorted_def sorted_wrt_map)
  show ?thesis
    unfolding om_values_def sorted_wrt_map by (rule sorted_wrt_mono_rel [OF _ srt]) (metis keyed)
qed

lemma evaluated_device [simp]: "ce_accelerator (evaluate_candidate s request profile t fresh acc) = ac_id acc"
  by (simp add: evaluate_candidate_def rejected_candidate_def Let_def split: option.split prod.split)

text \<open>The scan keeps the first of the eligible candidates with the lowest score.\<close>

definition best_of :: "candidate_evaluation list \<Rightarrow> candidate_evaluation \<Rightarrow> bool" where
  "best_of cs c \<longleftrightarrow> (\<exists>pre post. cs = pre @ c # post \<and> ce_eligible c \<and>
     (\<forall>d\<in>set pre. ce_eligible d \<longrightarrow> ce_score_total c < ce_score_total d) \<and>
     (\<forall>d\<in>set post. ce_eligible d \<longrightarrow> ce_score_total c \<le> ce_score_total d))"

lemma best_of_append:
  assumes "best_of cs c"
  shows "\<not> ce_eligible d \<or> ce_score_total c \<le> ce_score_total d \<Longrightarrow> best_of (cs @ [d]) c"
    "ce_eligible d \<Longrightarrow> ce_score_total d < ce_score_total c \<Longrightarrow> best_of (cs @ [d]) d"
proof -
  obtain pre post where cs: "cs = pre @ c # post" "ce_eligible c"
    "\<forall>d\<in>set pre. ce_eligible d \<longrightarrow> ce_score_total c < ce_score_total d"
    "\<forall>d\<in>set post. ce_eligible d \<longrightarrow> ce_score_total c \<le> ce_score_total d"
    using assms by (auto simp: best_of_def)
  show "best_of (cs @ [d]) c" if "\<not> ce_eligible d \<or> ce_score_total c \<le> ce_score_total d"
    unfolding best_of_def using cs that by (intro exI [of _ pre] exI [of _ "post @ [d]"]) auto
  show "best_of (cs @ [d]) d" if "ce_eligible d" "ce_score_total d < ce_score_total c"
    unfolding best_of_def using cs that by (intro exI [of _ cs] exI [of _ "[]"]) force
qed

lemma best_of_first:
  assumes "\<not> (\<exists>c\<in>set cs. ce_eligible c)" "ce_eligible d"
  shows "best_of (cs @ [d]) d"
  unfolding best_of_def using assms by (intro exI [of _ cs] exI [of _ "[]"]) auto

lemma scan_append: "scan_candidates (cs @ [c]) = scan_candidate c (scan_candidates cs)"
  by (simp add: scan_candidates_def)

lemma scan_spec:
  "if \<exists>c\<in>set cs. ce_eligible c
   then sc_have_eligible (scan_candidates cs) \<and>
     (\<exists>c. best_of cs c \<and> sc_best_accelerator (scan_candidates cs) = ce_accelerator c \<and>
          sc_best_score (scan_candidates cs) = ce_score_total c)
   else \<not> sc_have_eligible (scan_candidates cs)"
proof (induction cs rule: rev_induct)
  case Nil
  show ?case by (simp add: scan_candidates_def scan_start_def)
next
  case (snoc d cs)
  show ?case
  proof (cases "\<exists>c\<in>set cs. ce_eligible c")
    case True
    with snoc obtain c where c: "sc_have_eligible (scan_candidates cs)" "best_of cs c"
      "sc_best_accelerator (scan_candidates cs) = ce_accelerator c" "sc_best_score (scan_candidates cs) = ce_score_total c"
      by auto
    show ?thesis
      using c True best_of_append [OF c(2), of d] by (auto simp: scan_append scan_candidate_def Let_def)
  next
    case False
    then show ?thesis using snoc best_of_first [OF False, of d] by (auto simp: scan_append scan_candidate_def Let_def)
  qed
qed

lemma severity_range: "0 \<le> failure_severity p" "failure_severity p \<le> 14"
  by (cases p; simp)+

lemma scan_failure:
  "\<forall>c\<in>set cs. \<not> ce_eligible c \<Longrightarrow> cs \<noteq> [] \<Longrightarrow>
     sc_best_severity (scan_candidates cs) = failure_severity (sc_best_failure (scan_candidates cs)) \<and>
     sc_best_severity (scan_candidates cs) \<noteq> 2147483647 \<and>
     sc_best_failure (scan_candidates cs) \<in> ce_outcome ` set cs \<and>
     (\<forall>c\<in>set cs. failure_severity (sc_best_failure (scan_candidates cs)) \<le> failure_severity (ce_outcome c))"
proof (induction cs rule: rev_induct)
  case (snoc d cs)
  show ?case
  proof (cases "cs = []")
    case True
    then show ?thesis using snoc.prems severity_range [of "ce_outcome d"]
      by (simp add: scan_candidates_def scan_candidate_def scan_start_def Let_def)
  next
    case False
    with snoc show ?thesis using severity_range [of "ce_outcome d"]
      by (auto simp: scan_append scan_candidate_def Let_def)
  qed
qed simp

lemma finish_report_class:
  "fr_classification r \<noteq> FC_None \<Longrightarrow> fr_classification (finish_report s acc l request r) \<noteq> FC_None"
  by (auto simp: finish_report_def Let_def split: sum.split)

lemma infeasible_classified:
  assumes "\<not> fr_feasible_now (analyze_fragmentation_impl s acc l request)"
  shows "fr_classification (analyze_fragmentation_impl s acc l request) \<noteq> FC_None"
  using assms
  by (auto simp: analyze_fragmentation_impl_def short_report_def Let_def case_prod_beta
      intro!: finish_report_class split: option.splits sum.splits if_splits)

lemma classified_infeasible: "c \<noteq> FC_None \<Longrightarrow> \<not> plan_outcome_feasible (outcome_for_classification c)"
  by (cases c) (simp_all add: plan_outcome_feasible_def)

lemma rejection_infeasible:
  "candidate_rejection s request profile t fresh acc = Some outc \<Longrightarrow> \<not> plan_outcome_feasible outc"
  by (auto simp: candidate_rejection_def plan_outcome_feasible_def Let_def split: if_splits)

lemma candidate_outcome_feasible:
  "(fr_feasible_now f \<or> fr_classification f \<noteq> FC_None) \<Longrightarrow>
     plan_outcome_feasible (snd (candidate_outcome s request f)) = fst (candidate_outcome s request f)"
  using classified_infeasible [of "fr_classification f"]
  by (auto simp: candidate_outcome_def) (auto simp: plan_outcome_feasible_def)

lemma evaluated_eligible:
  "plan_outcome_feasible (ce_outcome (evaluate_candidate s request profile t fresh acc)) =
     ce_eligible (evaluate_candidate s request profile t fresh acc)"
proof (cases "candidate_rejection s request profile t fresh acc")
  case (Some outc)
  then show ?thesis using rejection_infeasible by (auto simp: evaluate_candidate_def rejected_candidate_def)
next
  case None
  show ?thesis
  proof (cases "find_ledger (ac_id acc) s")
    case None': None
    then show ?thesis using None by (simp add: evaluate_candidate_def rejected_candidate_def plan_outcome_feasible_def)
  next
    case (Some l)
    then show ?thesis
      using None candidate_outcome_feasible [of "analyze_fragmentation_impl s acc l request" s request]
        infeasible_classified [of s acc l request]
      by (auto simp: evaluate_candidate_def Let_def case_prod_beta)
  qed
qed

lemma eligible_parts:
  assumes "ce_eligible (evaluate_candidate s request profile t fresh acc)"
  obtains l where "candidate_rejection s request profile t fresh acc = None" "find_ledger (ac_id acc) s = Some l"
    "ce_fragmentation (evaluate_candidate s request profile t fresh acc) = analyze_fragmentation_impl s acc l request"
    "ce_outcome (evaluate_candidate s request profile t fresh acc) =
       snd (candidate_outcome s request (analyze_fragmentation_impl s acc l request))"
proof -
  have r: "candidate_rejection s request profile t fresh acc = None"
    using assms by (auto simp: evaluate_candidate_def rejected_candidate_def split: option.splits)
  obtain l where "find_ledger (ac_id acc) s = Some l"
    using assms r by (auto simp: evaluate_candidate_def rejected_candidate_def split: option.splits)
  then show thesis using that [of l] r by (simp add: evaluate_candidate_def Let_def case_prod_beta)
qed

lemma candidate_checked:
  assumes "candidate_rejection s request profile t fresh acc = None"
  shows "id_valid (ac_id acc)" "fresh \<Longrightarrow> is_fresh_at (ac_evidence acc) t" "supports_profile (ac_capability acc) (rq_profile request)"
    "selector_admits (rq_selector request) (ac_id acc)" "isolation_subset (ir_required (rq_isolation request)) (cap_isolation (ac_capability acc))"
    "gen_known (ac_generation acc)"
  using assms by (auto simp: candidate_rejection_def is_governable_at_def Let_def split: if_splits)

lemma eligible_id: "ce_eligible (evaluate_candidate s request profile t fresh acc) \<Longrightarrow> id_valid (ac_id acc)"
  using candidate_checked(1) eligible_parts by metis

lemma first_with_id:
  assumes "best_of cs c" "sorted_wrt (\<lambda>x y. ce_eligible x \<longrightarrow> ce_eligible y \<longrightarrow> ce_accelerator x < ce_accelerator y) cs"
  shows "List.find (\<lambda>d. ce_accelerator d = ce_accelerator c \<and> ce_eligible d) cs = Some c"
proof -
  obtain pre post where cs: "cs = pre @ c # post" "ce_eligible c" using assms(1) by (auto simp: best_of_def)
  have "\<forall>d\<in>set pre. ce_eligible d \<longrightarrow> ce_accelerator d \<noteq> ce_accelerator c"
    using assms(2) cs by (auto simp: sorted_wrt_append)
  then show ?thesis using cs by (auto simp: find_Some_iff nth_append intro!: exI [of _ "length pre"])
qed

abbreviation planning_fresh :: "partition_request \<Rightarrow> fabric_state \<Rightarrow> bool" where
  "planning_fresh request s \<equiv> pp_require_fresh_evidence (fs_policy s) \<or> rq_max_evidence_age_ms request \<noteq> 0"

lemma plan_candidates_order:
  assumes "devices_keyed s"
  shows "sorted_wrt (\<lambda>x y. ce_eligible x \<longrightarrow> ce_eligible y \<longrightarrow> ce_accelerator x < ce_accelerator y)
    (plan_candidates request profile t s)"
  unfolding plan_candidates_def Let_def sorted_wrt_map
  by (rule sorted_wrt_mono_rel [OF _ keyed_order [OF assms]]) (auto dest: eligible_id)

lemma build_plan_cases:
  assumes "devices_keyed s"
  obtains
    (invalid) e where "request_validate request (fs_limits s) = Inl e"
      "build_plan request t s = ((initial_plan request t s)
         \<lparr>pl_outcome := (if e = E_LimitExceeded then PO_LimitExceeded else PO_InvalidRequest)\<rparr>, [], [])"
  | (unknown) "request_validate request (fs_limits s) = success" "find_profile (rq_profile request) s = None"
      "build_plan request t s = ((initial_plan request t s)\<lparr>pl_outcome := PO_CapabilityUnknown\<rparr>, [], [])"
  | (none) profile outc where "request_validate request (fs_limits s) = success" "find_profile (rq_profile request) s = Some profile"
      "\<forall>c\<in>set (plan_candidates request profile t s). \<not> ce_eligible c"
      "build_plan request t s = ((initial_plan request t s)\<lparr>pl_outcome := outc, pl_binding := binding_default\<rparr>, [],
         plan_candidates request profile t s)"
      "outc = (if fs_accelerators s = [] then PO_NoEligibleAccelerator
               else sc_best_failure (scan_candidates (plan_candidates request profile t s)))"
  | (chosen) profile c acc steps where "request_validate request (fs_limits s) = success"
      "find_profile (rq_profile request) s = Some profile" "best_of (plan_candidates request profile t s) c"
      "find_accelerator (ce_accelerator c) s = Some acc" "c = evaluate_candidate s request profile t (planning_fresh request s) acc"
      "steps = push_steps (max_plan_steps (fs_limits s)) (pl_binding (chosen_plan s profile c acc (initial_plan request t s)))
         (pf_id profile) (plan_step_args (ac_capability acc) (ce_outcome c) (fr_partitions_to_drain (ce_fragmentation c)) (rq_count request))"
      "build_plan request t s = (chosen_plan s profile c acc (initial_plan request t s), steps, plan_candidates request profile t s)"
proof (cases "request_validate request (fs_limits s)")
  case (Inl e)
  then show thesis using invalid by (simp add: build_plan_def Let_def)
next
  case (Inr u)
  show thesis
  proof (cases "find_profile (rq_profile request) s")
    case None
    then show thesis using unknown Inr by (simp add: build_plan_def Let_def)
  next
    case (Some profile)
    let ?cs = "plan_candidates request profile t s" and ?sc = "scan_candidates (plan_candidates request profile t s)"
    show thesis
    proof (cases "\<exists>c\<in>set ?cs. ce_eligible c")
      case False
      then have n: "\<not> sc_have_eligible ?sc" using scan_spec [of ?cs] by simp
      have "(if sc_best_severity ?sc = 2147483647 then PO_NoEligibleAccelerator else sc_best_failure ?sc) =
         (if fs_accelerators s = [] then PO_NoEligibleAccelerator else sc_best_failure ?sc)"
      proof (cases "fs_accelerators s = []")
        case True
        then have "?cs = []" by (simp add: plan_candidates_def om_values_def)
        then show ?thesis using True by (simp add: scan_candidates_def scan_start_def)
      next
        case nonempty: False
        then have "?cs \<noteq> []" by (simp add: plan_candidates_def om_values_def)
        then show ?thesis using nonempty scan_failure [of ?cs] False by auto
      qed
      then show thesis using none [OF _ Some _ _ refl] Inr Some False n by (simp add: build_plan_def Let_def)
    next
      case True
      then obtain c where c: "sc_have_eligible ?sc" "best_of ?cs c" "sc_best_accelerator ?sc = ce_accelerator c"
        using scan_spec [of ?cs] by auto
      have f: "List.find (\<lambda>d. ce_accelerator d = ce_accelerator c \<and> ce_eligible d) ?cs = Some c"
        by (rule first_with_id [OF c(2) plan_candidates_order [OF assms]])
      obtain acc where acc: "acc \<in> set (om_values (fs_accelerators s))"
        "c = evaluate_candidate s request profile t (planning_fresh request s) acc"
        using c(2) by (auto simp: best_of_def plan_candidates_def map_eq_append_conv map_eq_Cons_conv) (metis in_set_conv_decomp)
      have "ce_eligible c" using c(2) by (auto simp: best_of_def)
      then have "find_accelerator (ce_accelerator c) s = Some acc"
        using keyed_find [OF assms acc(1)] eligible_id acc(2) by auto
      then show thesis using chosen [OF _ Some c(2) _ acc(2) refl] Inr Some c f by (simp add: build_plan_def Let_def)
    qed
  qed
qed

lemma outcome_allowed:
  assumes "candidate_outcome s request f = (True, outc)"
  shows "outc = PO_FeasibleNow \<Longrightarrow> fr_feasible_now f"
    "outc = PO_FeasibleAfterDrain \<Longrightarrow> fr_feasible_after_drain f \<and> pp_allow_drain (fs_policy s) \<and> rq_allow_drain request"
    "outc = PO_FeasibleAfterReconfiguration \<Longrightarrow> fr_reconfiguration_can_help f \<and>
       pp_allow_destructive_reconfiguration (fs_policy s) \<and> rq_allow_destructive_reconfiguration request"
  using assms by (auto simp: candidate_outcome_def split: if_splits)

lemma best_of_minimal:
  assumes "best_of (map f xs) (f x)"
    "sorted_wrt (\<lambda>a b. ce_eligible a \<longrightarrow> ce_eligible b \<longrightarrow> ce_accelerator a < ce_accelerator b) (map f xs)"
    "\<And>y. ce_accelerator (f y) = g y"
    "y \<in> set xs" "ce_eligible (f y)"
  shows "ce_score_total (f x) < ce_score_total (f y) \<or> ce_score_total (f x) = ce_score_total (f y) \<and> g x \<le> g y"
proof -
  obtain pre post where d: "map f xs = pre @ f x # post" "ce_eligible (f x)"
    "\<forall>d\<in>set pre. ce_eligible d \<longrightarrow> ce_score_total (f x) < ce_score_total d"
    "\<forall>d\<in>set post. ce_eligible d \<longrightarrow> ce_score_total (f x) \<le> ce_score_total d"
    using assms(1) by (auto simp: best_of_def)
  have "f y \<in> set pre \<union> {f x} \<union> set post" using assms(4) arg_cong [OF d(1), of set] by auto
  then consider "f y \<in> set pre" | "f y = f x" | "f y \<in> set post" by blast
  then show ?thesis
  proof cases
    case 2
    then have "g x = g y" using assms(3) by metis
    then show ?thesis using 2 by simp
  next
    case 3
    then have "g x < g y" using assms(2) d(1,2) assms(3) [of x] assms(3) [of y] assms(5) by (auto simp: sorted_wrt_append)
    then show ?thesis using 3 d(4) assms(5) by force
  qed (use d(3) assms(5) in auto)
qed

lemma feasible_plan_chosen:
  assumes "devices_keyed s" "build_plan request t s = (p, steps, cs)" "plan_feasible p"
  obtains profile c acc where "request_validate request (fs_limits s) = success"
      "find_profile (rq_profile request) s = Some profile" "best_of (plan_candidates request profile t s) c"
      "find_accelerator (ce_accelerator c) s = Some acc" "c = evaluate_candidate s request profile t (planning_fresh request s) acc"
      "ce_eligible c" "p = chosen_plan s profile c acc (initial_plan request t s)"
  using assms(1)
proof (cases rule: build_plan_cases [where request = request and t = t, consumes 1])
  case (none profile outc)
  have "\<not> plan_outcome_feasible outc"
  proof (cases "fs_accelerators s = []")
    case True
    then show ?thesis using none(5) by (simp add: plan_outcome_feasible_def)
  next
    case False
    then have "plan_candidates request profile t s \<noteq> []" by (simp add: plan_candidates_def om_values_def)
    then have "outc \<in> ce_outcome ` set (plan_candidates request profile t s)"
      using none(3,5) False scan_failure by auto
    then show ?thesis using none(3) evaluated_eligible by (auto simp: plan_candidates_def)
  qed
  then show ?thesis using assms(2,3) none(4) by (auto simp: plan_feasible_def)
next
  case (chosen profile c acc st)
  then show thesis using that [of profile c acc] assms(2) by (auto simp: best_of_def)
qed (use assms(2,3) in \<open>auto simp: plan_feasible_def plan_outcome_feasible_def split: if_splits\<close>)

lemma build_plan_choice:
  assumes "devices_keyed s" "build_plan request t s = (p, steps, cs)" "plan_feasible p"
  shows "\<exists>acc profile l. find_accelerator (pb_accelerator (pl_binding p)) s = Some acc \<and>
    find_profile (rq_profile request) s = Some profile \<and> find_ledger (pb_accelerator (pl_binding p)) s = Some l \<and>
    candidate_rejection s request profile t (planning_fresh request s) acc = None \<and>
    (pl_outcome p = PO_FeasibleNow \<longrightarrow> device_has_room s acc l profile (rq_count request)) \<and>
    (pl_outcome p = PO_FeasibleAfterDrain \<longrightarrow> pp_allow_drain (fs_policy s) \<and> rq_allow_drain request) \<and>
    (pl_outcome p = PO_FeasibleAfterReconfiguration \<longrightarrow>
       pp_allow_destructive_reconfiguration (fs_policy s) \<and> rq_allow_destructive_reconfiguration request) \<and>
    (\<forall>other\<in>set (om_values (fs_accelerators s)).
       let mine = evaluate_candidate s request profile t (planning_fresh request s) acc;
           theirs = evaluate_candidate s request profile t (planning_fresh request s) other
       in ce_eligible theirs \<longrightarrow> ce_score_total mine < ce_score_total theirs \<or>
            ce_score_total mine = ce_score_total theirs \<and> ac_id acc \<le> ac_id other) \<and>
    pl_planned_partitions p = map (planned_of profile) [0..<unat (rq_count request)]"
  using assms
proof (rule feasible_plan_chosen)
  fix profile c acc
  assume chosen: "request_validate request (fs_limits s) = success"
      "find_profile (rq_profile request) s = Some profile" "best_of (plan_candidates request profile t s) c"
      "find_accelerator (ce_accelerator c) s = Some acc" "c = evaluate_candidate s request profile t (planning_fresh request s) acc"
      "ce_eligible c" and p: "p = chosen_plan s profile c acc (initial_plan request t s)"
  let ?ev = "evaluate_candidate s request profile t (planning_fresh request s)"
  have el: "ce_eligible (?ev acc)" using chosen(5,6) by simp
  obtain l where l: "candidate_rejection s request profile t (planning_fresh request s) acc = None"
    "find_ledger (ac_id acc) s = Some l" "ce_outcome (?ev acc) = snd (candidate_outcome s request (analyze_fragmentation_impl s acc l request))"
    using el by (rule eligible_parts)
  have id: "ac_id acc = ce_accelerator c" using chosen(5) by simp
  have out: "candidate_outcome s request (analyze_fragmentation_impl s acc l request) = (True, ce_outcome c)"
    using l el chosen(5) by (cases "candidate_outcome s request (analyze_fragmentation_impl s acc l request)")
      (simp add: evaluate_candidate_def Let_def)
  note allowed = outcome_allowed [OF out]
  have n: "rq_count request \<noteq> 0" using chosen(1) by (auto simp: request_validate_def split: if_splits)
  have roomy: "device_has_room s acc l profile (rq_count request)" if "ce_outcome c = PO_FeasibleNow"
    using feasible_now_room [OF allowed(1) [OF that] n] chosen(2) by simp
  have best: "ce_score_total (?ev acc) < ce_score_total (?ev other) \<or>
      ce_score_total (?ev acc) = ce_score_total (?ev other) \<and> ac_id acc \<le> ac_id other"
    if "other \<in> set (om_values (fs_accelerators s))" "ce_eligible (?ev other)" for other
    by (rule best_of_minimal [where f = ?ev and g = ac_id and x = acc, OF _ _ _ that])
      (use chosen(3,5) plan_candidates_order [OF assms(1), of request profile t] in \<open>simp_all add: plan_candidates_def\<close>)
  show ?thesis
    by (intro exI [of _ acc] exI [of _ profile] exI [of _ l])
      (use chosen(2,4) id l(1,2) roomy allowed(2,3) best in \<open>simp add: p chosen_plan_def Let_def initial_plan_def\<close>)
qed

lemma rejected_plan_shape:
  assumes "devices_keyed s" "build_plan request t s = (p, steps, cs)" "\<not> plan_feasible p"
  shows "steps = [] \<and> pl_planned_partitions p = [] \<and> pb_accelerator (pl_binding p) = 0 \<and> pb_layout (pl_binding p) = [] \<and>
    (\<forall>c\<in>set cs. \<not> ce_eligible c) \<and>
    (cs \<noteq> [] \<longrightarrow> pl_outcome p \<in> ce_outcome ` set cs \<and>
       (\<forall>c\<in>set cs. failure_severity (pl_outcome p) \<le> failure_severity (ce_outcome c)))"
  using assms(1)
proof (cases rule: build_plan_cases [where request = request and t = t, consumes 1])
  case (invalid e)
  then show ?thesis using assms(2) by (auto simp: initial_plan_def initial_binding_def binding_default_def)
next
  case unknown
  then show ?thesis using assms(2) by (auto simp: initial_plan_def initial_binding_def binding_default_def)
next
  case (none profile outc)
  have "cs = plan_candidates request profile t s" "pl_outcome p = outc" using none(4) assms(2) by auto
  moreover have "plan_candidates request profile t s \<noteq> [] \<Longrightarrow> fs_accelerators s \<noteq> []"
    by (auto simp: plan_candidates_def om_values_def)
  ultimately show ?thesis
    using none(3,4,5) assms(2) scan_failure [of cs] by (auto simp: initial_plan_def binding_default_def)
next
  case (chosen profile c acc st)
  have "plan_outcome_feasible (ce_outcome c)" using chosen(3,5) evaluated_eligible by (auto simp: best_of_def)
  then show ?thesis using assms(2,3) chosen(7) by (auto simp: plan_feasible_def chosen_plan_def Let_def)
qed

section \<open>When a fresh plan is accepted\<close>

definition dead_on :: "accelerator_id \<Rightarrow> partition_record \<Rightarrow> bool" where
  "dead_on a r \<longleftrightarrow> pr_accelerator r = a \<and> (is_terminal_state (pr_state r) \<or> pr_state r = PS_Unpartitioned)"

lemma filter_length_eq: "(\<And>x. P x \<Longrightarrow> Q x) \<Longrightarrow> length (filter P xs) = length (filter Q xs) \<longleftrightarrow> (\<forall>x\<in>set xs. Q x \<longrightarrow> P x)"
proof (induction xs)
  case (Cons x xs)
  have le: "length (filter P xs) \<le> length (filter Q xs)" using Cons.prems by (induction xs) auto
  show ?case using Cons le by auto
qed simp

lemma planning_window_open:
  assumes "unat t + unat (rq_max_evidence_age_ms request) < 2 ^ 64" "unat t + unat (pp_max_evidence_age_ms (fs_policy s)) < 2 ^ 64"
  shows "planning_window request t s = 0 \<or> t \<le> planning_window request t s"
  using assms by (auto simp: planning_window_def Let_def word_le_nat_alt unat_word_ariths)

lemma chosen_plan_binding [simp]:
  "pb_policy_generation (pl_binding (chosen_plan s profile c acc (initial_plan request t s))) = fs_policy_generation s"
  "pl_terminal (chosen_plan s profile c acc (initial_plan request t s)) = False"
  "pb_valid_until_ms (pl_binding (chosen_plan s profile c acc (initial_plan request t s))) = planning_window request t s"
  "pb_accelerator (pl_binding (chosen_plan s profile c acc (initial_plan request t s))) = ce_accelerator c"
  "pb_accelerator_generation (pl_binding (chosen_plan s profile c acc (initial_plan request t s))) = ac_generation acc"
  "pb_accelerator_boot (pl_binding (chosen_plan s profile c acc (initial_plan request t s))) = ac_boot_id acc"
  "pb_capability_generation (pl_binding (chosen_plan s profile c acc (initial_plan request t s))) = cap_generation (ac_capability acc)"
  "pb_layout (pl_binding (chosen_plan s profile c acc (initial_plan request t s))) =
     map (\<lambda>r. (pr_id r, pr_generation r)) (filter (\<lambda>r. pr_accelerator r = ce_accelerator c) (om_values (fs_partitions s)))"
  by (simp_all add: chosen_plan_def initial_plan_def initial_binding_def bind_device_def Let_def)

text \<open>
  A plan that was just made is accepted exactly when its validity window is open and no retired,
  failed or unpartitioned record is left on the device: the window is the clock plus an evidence age,
  added without a check, and the planner binds every record of the device while the validation counts
  only the live ones.
\<close>

lemma fresh_plan_accepted:
  assumes "devices_keyed s" "build_plan request t s = (p, steps, cs)" "plan_feasible p"
  shows "validate_plan_binding s p t (pp_require_fresh_evidence (fs_policy s)) = success \<longleftrightarrow>
    (planning_window request t s = 0 \<or> t \<le> planning_window request t s) \<and>
    \<not> (\<exists>r\<in>set (om_values (fs_partitions s)). dead_on (pb_accelerator (pl_binding p)) r)"
  using assms
proof (rule feasible_plan_chosen)
  fix profile c acc
  assume chosen: "request_validate request (fs_limits s) = success"
      "find_profile (rq_profile request) s = Some profile" "best_of (plan_candidates request profile t s) c"
      "find_accelerator (ce_accelerator c) s = Some acc" "c = evaluate_candidate s request profile t (planning_fresh request s) acc"
      "ce_eligible c" and p: "p = chosen_plan s profile c acc (initial_plan request t s)"
  let ?ev = "evaluate_candidate s request profile t (planning_fresh request s)"
  have "ce_eligible (?ev acc)" using chosen(5,6) by simp
  then have "candidate_rejection s request profile t (planning_fresh request s) acc = None" by (rule eligible_parts)
  note ok = candidate_checked [OF this]
  have id: "ce_accelerator c = ac_id acc" using chosen(5) by simp
  have win: "expired_at (pl_binding p) t \<longleftrightarrow> \<not> (planning_window request t s = 0 \<or> t \<le> planning_window request t s)"
    by (auto simp: expired_at_def p)
  let ?a = "ac_id acc" and ?rs = "om_values (fs_partitions s)"
  have len: "length (filter (layout_relevant ?a) ?rs) = length (filter (\<lambda>r. pr_accelerator r = ?a) ?rs) \<longleftrightarrow>
     (\<forall>r\<in>set ?rs. pr_accelerator r = ?a \<longrightarrow> layout_relevant ?a r)"
    by (rule filter_length_eq) (simp add: layout_relevant_def)
  have dead: "(\<forall>r\<in>set ?rs. pr_accelerator r = ?a \<longrightarrow> layout_relevant ?a r) \<longleftrightarrow> \<not> (\<exists>r\<in>set ?rs. dead_on ?a r)"
    by (auto simp: layout_relevant_def dead_on_def)
  have bound: "\<forall>r\<in>set ?rs. layout_relevant ?a r \<longrightarrow>
     (pr_id r, pr_generation r) \<in> set (map (\<lambda>r. (pr_id r, pr_generation r)) (filter (\<lambda>r. pr_accelerator r = ?a) ?rs))"
    by (auto simp: layout_relevant_def)
  have acc: "find_accelerator ?a s = Some acc" using chosen(4) id by simp
  show ?thesis
    unfolding validate_plan_binding_iff using win ok(1,2) acc len dead bound by (simp add: p id)
qed

section \<open>Scores stay in range\<close>

lemma uint_div_bound: "uint ((x::u64) div k) \<le> 18446744073709551615 div uint k"
proof -
  have "uint x \<le> 18446744073709551615" using unsigned_less [of x, where ?'a = int] by simp
  moreover have "uint k = 0 \<or> 0 < uint k" using unsigned_greater_eq [of k, where ?'a = int] by linarith
  ultimately show ?thesis by (auto simp: uint_div intro: zdiv_mono1)
qed

lemma waste_bound: "0 \<le> capacity_waste_units v" "capacity_waste_units v \<le> 8 * 1844674407370955"
proof -
  let ?f = "\<lambda>i. let d = dim_of_index i in if \<not> rv_has v d then 0
      else if is_share_dimension d then uint (rv_get v d div 10000) else uint (rv_get v d div 2 ^ 30)"
  have f: "0 \<le> ?f i \<and> ?f i \<le> 1844674407370955" for i
    using uint_div_bound [of "rv_get v (dim_of_index i)" 10000] uint_div_bound [of "rv_get v (dim_of_index i)" "2 ^ 30"]
    by (simp add: Let_def)
  have all: "0 \<le> sum_list (map ?f xs) \<and> sum_list (map ?f xs) \<le> int (length xs) * 1844674407370955" for xs
  proof (induction xs)
    case (Cons x xs)
    then show ?case using f [of x] by (simp add: algebra_simps)
  qed simp
  show "0 \<le> capacity_waste_units v" "capacity_waste_units v \<le> 8 * 1844674407370955"
    using all [of "[0..<8]"] unfolding capacity_waste_units_def by simp_all
qed

lemma health_range: "0 \<le> health_penalty h" "health_penalty h \<le> 4"
  by (cases h; simp)+

lemma prefix_sum_bound:
  assumes "sum_list (map abs xs) < (b::int)"
  shows "\<bar>sum_list (take n xs)\<bar> < b"
proof -
  have "\<bar>sum_list (take n xs)\<bar> \<le> sum_list (map abs (take n xs))" by (rule sum_list_abs)
  also have "\<dots> \<le> sum_list (map abs (take n xs)) + sum_list (map abs (drop n xs))"
    using sum_list_nonneg [of "map abs (drop n xs)"] by fastforce
  also have "\<dots> = sum_list (map abs xs)" by (metis append_take_drop_id map_append sum_list_append)
  finally show ?thesis using assms by simp
qed

lemma default_score_range:
  assumes "pp_weights (fs_policy s) = default_weights"
  shows "\<bar>sum_list (take n (map st_contribution (map score_term (score_inputs s request profile acc f outc))))\<bar> < 2 ^ 63"
proof (rule prefix_sum_bound)
  define w where "w = capacity_waste_units (projected_capacity s request profile acc)"
  define q where "q = uint (optionality s acc (projected_capacity s request profile acc))"
  define c where "c = uint (rq_count request)"
  define m where "m = uint (fr_estimated_partition_mutations f)"
  define d where "d = uint (fr_estimated_reconfiguration_downtime_ms f div 1000)"
  define h where "h = health_penalty (he_state (ac_health acc))"
  have r: "0 \<le> w" "w \<le> 8 * 1844674407370955" "0 \<le> h" "h \<le> 4" using waste_bound health_range by (simp_all add: w_def h_def)
  have u: "0 \<le> q" "q < 2 ^ 32" "0 \<le> c" "c < 2 ^ 32" "0 \<le> m" "m < 2 ^ 32" "0 \<le> d"
    unfolding q_def c_def m_def d_def
    using unsigned_less [of "optionality s acc (projected_capacity s request profile acc)", where ?'a = int]
      unsigned_less [of "rq_count request", where ?'a = int]
      unsigned_less [of "fr_estimated_partition_mutations f", where ?'a = int] by simp_all
  have e: "d \<le> 18446744073709551" using uint_div_bound [of "fr_estimated_reconfiguration_downtime_ms f" 1000] by (simp add: d_def)
  show "sum_list (map abs (map st_contribution (map score_term (score_inputs s request profile acc f outc)))) < 2 ^ 63"
    using r u e
    by (simp add: score_inputs_def Let_def score_term_def assms default_weights_def abs_mult
        w_def [symmetric] q_def [symmetric] c_def [symmetric] m_def [symmetric] d_def [symmetric] h_def [symmetric])
qed

end
