(* ===== verification/APF_Reconcile.thy ===== *)
theory APF_Reconcile
  imports APF_Choice
begin

text \<open>
  Reconciliation (\<^verbatim>\<open>src/src/fabric.cpp\<close>, \<^verbatim>\<open>include/apf/reconciliation.hpp\<close>): durable records are
  compared with an observed layout, ambiguous mutations are decided against it, and physical
  partitions no record explains are taken into the registry. The report carries its counters,
  flags and findings; the text of a finding and the explanation of a report are not modelled.
\<close>

section \<open>Findings and reports\<close>

datatype reconciliation_finding_kind =
  RF_PartitionMatches | RF_PartitionMissing | RF_PartitionUnexpected | RF_ProfileChanged
| RF_NativeIdentityChanged | RF_DeviceReset | RF_CapabilityChanged | RF_DeviceGone
| RF_DeviceNotPartitionCapable | RF_GenerationUncorrelatable | RF_AssignmentOrphaned
| RF_LayoutMatches | RF_LedgerMismatch | RF_LayoutChangedExternally | RF_Count

datatype reconciliation_severity =
  SV_Informational | SV_Attention | SV_Material | SV_Critical | SV_Count

record reconciliation_finding =
  fd_kind :: reconciliation_finding_kind
  fd_severity :: reconciliation_severity
  fd_accelerator :: accelerator_id
  fd_partition :: partition_id
  fd_expected_generation :: generation
  fd_resulting_state :: partition_state
  fd_native_id :: string

record reconciliation_report =
  rr_id :: strong_id
  rr_accelerator :: accelerator_id
  rr_accelerator_generation :: generation
  rr_capability_generation :: generation
  rr_device_present :: bool
  rr_device_generation_changed :: bool
  rr_capability_changed :: bool
  rr_layout_changed :: bool
  rr_revalidation_required :: bool
  rr_reconciliation_required :: bool
  rr_matched :: u32
  rr_missing :: u32
  rr_unexpected :: u32
  rr_adopted :: u32
  rr_fenced :: u32
  rr_findings :: "reconciliation_finding list"

definition reconciliation_finding_cap :: nat where
  "reconciliation_finding_cap = 4096"

definition add_finding ::
  "reconciliation_finding_kind \<Rightarrow> reconciliation_severity \<Rightarrow> accelerator_id \<Rightarrow> partition_id \<Rightarrow> generation \<Rightarrow>
     partition_state \<Rightarrow> string \<Rightarrow> reconciliation_report \<Rightarrow> reconciliation_report" where
  "add_finding kind severity acc p g st native report =
     (if length (rr_findings report) \<ge> reconciliation_finding_cap then report
      else report\<lparr>rr_findings := rr_findings report @
        [\<lparr>fd_kind = kind, fd_severity = severity, fd_accelerator = acc, fd_partition = p,
          fd_expected_generation = g, fd_resulting_state = st, fd_native_id = native\<rparr>]\<rparr>)"

text \<open>A finding about a registered partition: identity and generation are read from its record.\<close>

definition note_partition ::
  "reconciliation_finding_kind \<Rightarrow> reconciliation_severity \<Rightarrow> accelerator_id \<Rightarrow> partition_id \<Rightarrow>
     partition_state \<Rightarrow> string \<Rightarrow> fabric_state \<Rightarrow> reconciliation_report \<Rightarrow> reconciliation_report" where
  "note_partition kind severity acc i st native s report =
     (case find_partition i s of
        None \<Rightarrow> report
      | Some r \<Rightarrow> add_finding kind severity acc (pr_id r) (pr_generation r) st native report)"

definition layout_satisfies :: "backend_layout \<Rightarrow> native_partition_spec list \<Rightarrow> bool" where
  "layout_satisfies layout desired \<longleftrightarrow>
     (if desired = [] then False
      else claim_all desired (map (\<lambda>n. (n, False)) (bl_partitions layout)))"

section \<open>An absent device\<close>

type_synonym pass = "fabric_state \<times> reconciliation_report"

definition reconcile_gone :: "accelerator_id \<Rightarrow> partition_id \<Rightarrow> pass \<Rightarrow> pass" where
  "reconcile_gone acc i p =
     (let (s, report) = p in
      case find_partition i s of
        None \<Rightarrow> p
      | Some r \<Rightarrow>
          if pr_accelerator r \<noteq> acc \<or> is_terminal_state (pr_state r) \<or> pr_state r = PS_Offline then p
          else
            (let s1 = fst (transition_partition i PS_Offline s)
             in (s1, note_partition RF_DeviceGone SV_Critical acc i PS_Offline
                       (ni_native_id (pr_native_identity r)) s1 report)))"

definition reconcile_absent ::
  "accelerator_id \<Rightarrow> reconciliation_report \<Rightarrow> fabric_state \<Rightarrow> fabric_state \<times> reconciliation_report result" where
  "reconcile_absent acc report s =
     (let (s1, report1) = for_keys (om_keys (fs_partitions s)) (reconcile_gone acc) (s, report);
          report2 = report1\<lparr>rr_revalidation_required := True\<rparr>;
          s2 = upd_accelerator acc (\<lambda>a. a\<lparr>ac_evidence := (ac_evidence a)\<lparr>es_observed := False\<rparr>\<rparr>) s1
      in (record_event EX_ReconciledDeviceGone (bump_state_generation s2), Inr report2))"

section \<open>The records of a present device\<close>

type_synonym claims = "fabric_state \<times> reconciliation_report \<times> string list"

text \<open>A record without a physical identity.\<close>

definition reconcile_uncorrelated :: "accelerator_id \<Rightarrow> accelerator_record \<Rightarrow> partition_id \<Rightarrow> partition_record \<Rightarrow> claims \<Rightarrow> claims" where
  "reconcile_uncorrelated acc a i r c =
     (let (s, report, claimed) = c in
      if declares_supported (ac_capability a) \<and> pr_state r \<noteq> PS_RevalidationRequired
      then (let s1 = fst (transition_partition i PS_RevalidationRequired s);
                report1 = note_partition RF_GenerationUncorrelatable SV_Material acc i
                            PS_RevalidationRequired [] s1 report
            in (s1, report1\<lparr>rr_revalidation_required := True\<rparr>, claimed))
      else c)"

text \<open>A record whose physical partition is gone: its capacity returns to Free and it is retired.\<close>

definition reconcile_release ::
  "accelerator_id \<Rightarrow> partition_id \<Rightarrow> partition_record \<Rightarrow> pass \<Rightarrow> pass" where
  "reconcile_release acc i r p =
     (let (s, report) = p;
          s1 = upd_partition i (\<lambda>r. r\<lparr>pr_held_bucket := None\<rparr>) s
      in case (find_ledger acc s1, pr_held_bucket r) of
           (Some l, Some held) \<Rightarrow>
             (case move_between held Bucket_Free (pr_resources r) l of
                (l', Inl _) \<Rightarrow>
                  (upd_ledger acc l' s1,
                   note_partition RF_LedgerMismatch SV_Critical acc i PS_RevalidationRequired [] s1 report)
              | (l', Inr _) \<Rightarrow> (upd_ledger acc l' s1, report))
         | _ \<Rightarrow> (s1, report))"

definition reconcile_orphan :: "accelerator_id \<Rightarrow> partition_id \<Rightarrow> assignment_id \<Rightarrow> pass \<Rightarrow> pass" where
  "reconcile_orphan acc i assignment p =
     (let (s, report) = p
      in (s\<lparr>fs_assignments := om_erase assignment (fs_assignments s)\<rparr>,
          note_partition RF_AssignmentOrphaned SV_Critical acc i PS_Retired [] s report))"

definition reconcile_missing ::
  "accelerator_id \<Rightarrow> u64 \<Rightarrow> partition_id \<Rightarrow> partition_record \<Rightarrow> claims \<Rightarrow> claims" where
  "reconcile_missing acc now_ms i r c =
     (let (s, report, claimed) = c;
          (s1, report1) = reconcile_release acc i r (s, report);
          s2 = upd_partition i
                 (\<lambda>r. r\<lparr>pr_state := PS_Retired, pr_last_transition_at_ms := now_ms,
                       pr_assignment_state := AS_Unassigned,
                       pr_drain := (pr_drain r)\<lparr>dp_state := DS_NotDraining, dp_outstanding_assignments := 0\<rparr>\<rparr>)
                 (supersede_partition_generation i s1);
          report2 = note_partition RF_PartitionMissing SV_Material acc i PS_Retired
                      (ni_native_id (pr_native_identity r)) s2
                      (report1\<lparr>rr_missing := rr_missing report1 + 1, rr_layout_changed := True\<rparr>);
          (s3, report3) = for_keys (orphaned_assignments [pr_id r] s2) (reconcile_orphan acc i) (s2, report2)
      in (s3, report3, claimed))"

text \<open>A record whose physical partition is present under another profile.\<close>

definition reconcile_changed ::
  "accelerator_id \<Rightarrow> partition_id \<Rightarrow> partition_record \<Rightarrow> backend_native_partition \<Rightarrow> pass \<Rightarrow> pass" where
  "reconcile_changed acc i r n p =
     (let (s, report) = p;
          report1 = report\<lparr>rr_fenced := rr_fenced report + 1, rr_revalidation_required := True\<rparr>;
          s1 = (if pr_state r \<noteq> PS_RevalidationRequired
                then fst (transition_partition i PS_RevalidationRequired s) else s)
      in (s1, note_partition RF_ProfileChanged SV_Material acc i PS_RevalidationRequired
                (bn_native_id n) s1 report1))"

text \<open>A record that matches its physical partition.\<close>

definition reconcile_adopt ::
  "accelerator_id \<Rightarrow> partition_id \<Rightarrow> backend_native_partition \<Rightarrow> pass \<Rightarrow> pass" where
  "reconcile_adopt acc i n p =
     (let (s, report) = p in
      if pp_allow_external_adoption (fs_policy s)
      then (case transition_partition i PS_Active s of
              (s1, Inr _) \<Rightarrow>
                (let s2 = upd_partition i (\<lambda>r. r\<lparr>pr_externally_observed := True\<rparr>) s1;
                     report1 = report\<lparr>rr_adopted := rr_adopted report + 1, rr_revalidation_required := False\<rparr>
                 in (s2, note_partition RF_PartitionMatches SV_Attention acc i PS_Active (bn_native_id n) s2 report1))
            | (s1, Inl _) \<Rightarrow>
                (s1, note_partition RF_PartitionMatches SV_Material acc i PS_RevalidationRequired
                       (bn_native_id n) s1 report))
      else (s, note_partition RF_PartitionMatches SV_Attention acc i PS_RevalidationRequired
                 (bn_native_id n) s (report\<lparr>rr_revalidation_required := True\<rparr>)))"

definition reconcile_matched ::
  "accelerator_id \<Rightarrow> accelerator_record \<Rightarrow> backend_layout \<Rightarrow> u64 \<Rightarrow> partition_id \<Rightarrow> partition_record \<Rightarrow>
     backend_native_partition \<Rightarrow> pass \<Rightarrow> pass" where
  "reconcile_matched acc a observed now_ms i r n p =
     (let (s, report) = p;
          report1 = report\<lparr>rr_matched := rr_matched report + 1\<rparr>;
          s1 = stamp_partition_evidence i a now_ms (es_provenance (bl_evidence observed))
                 (es_source (bl_evidence observed)) s
      in if pr_state r = PS_Offline
         then (let s2 = fst (transition_partition i PS_RevalidationRequired s1)
               in (s2, note_partition RF_PartitionMatches SV_Attention acc i PS_RevalidationRequired
                         (bn_native_id n) s2 (report1\<lparr>rr_revalidation_required := True\<rparr>)))
         else if pr_state r = PS_RevalidationRequired then reconcile_adopt acc i n (s1, report1)
         else (s1, note_partition RF_PartitionMatches SV_Informational acc i (pr_state r)
                     (bn_native_id n) s1 report1))"

definition observed_profile_matches :: "fabric_state \<Rightarrow> partition_record \<Rightarrow> backend_native_partition \<Rightarrow> bool" where
  "observed_profile_matches s r n =
     (case find_profile (pr_profile r) s of
        None \<Rightarrow> True
      | Some profile \<Rightarrow>
          bn_vendor_native_profile n = [] \<or> bn_vendor_native_profile n = pf_vendor_native profile)"

definition reconcile_partition ::
  "accelerator_id \<Rightarrow> accelerator_record \<Rightarrow> backend_layout \<Rightarrow> u64 \<Rightarrow> partition_id \<Rightarrow> claims \<Rightarrow> claims" where
  "reconcile_partition acc a observed now_ms i c =
     (let (s, report, claimed) = c in
      case find_partition i s of
        None \<Rightarrow> c
      | Some r \<Rightarrow>
          if \<not> layout_relevant acc r then c
          else if ni_native_id (pr_native_identity r) = [] then reconcile_uncorrelated acc a i r c
          else
            (case find_native observed (ni_native_id (pr_native_identity r)) of
               None \<Rightarrow> reconcile_missing acc now_ms i r c
             | Some n \<Rightarrow>
                 (let (s1, report1) = (if observed_profile_matches s r n
                                       then reconcile_matched acc a observed now_ms i r n (s, report)
                                       else reconcile_changed acc i r n (s, report))
                  in (s1, report1, claimed @ [bn_native_id n]))))"

section \<open>Ambiguous mutations\<close>

definition attempt_satisfied :: "fabric_state \<Rightarrow> backend_layout \<Rightarrow> partition_attempt \<Rightarrow> bool" where
  "attempt_satisfied s observed t \<longleftrightarrow>
     (if at_kind t = AK_DestroyPartition then \<forall>i\<in>set (at_partitions t). native_gone s observed i
      else layout_satisfies observed (map spec_of (at_desired t)))"

definition attempt_target :: "partition_attempt \<Rightarrow> partition_state" where
  "attempt_target t = (if at_kind t = AK_DestroyPartition then PS_Retired else PS_Active)"

definition resolve_partition :: "accelerator_id \<Rightarrow> partition_state \<Rightarrow> partition_id \<Rightarrow> pass \<Rightarrow> pass" where
  "resolve_partition acc target i p =
     (let (s, report) = p in
      case find_partition i s of
        None \<Rightarrow> p
      | Some r \<Rightarrow>
          if pr_state r \<in> {PS_RevalidationRequired, PS_Creating}
          then (case transition_partition i target s of
                  (s1, Inr _) \<Rightarrow>
                    if target = PS_Retired then (supersede_partition_generation i s1, report)
                    else (s1, report\<lparr>rr_adopted := rr_adopted report + 1\<rparr>)
                | (s1, Inl _) \<Rightarrow>
                    (case find_partition i s1 of
                       None \<Rightarrow> (s1, report)
                     | Some r1 \<Rightarrow>
                         (s1, note_partition RF_GenerationUncorrelatable SV_Material acc i (pr_state r1)
                                (ni_native_id (pr_native_identity r1)) s1 report)))
          else p)"

fun resolve_present ::
  "accelerator_id \<Rightarrow> accelerator_record \<Rightarrow> backend_layout \<Rightarrow> partition_state \<Rightarrow> partition_id list \<Rightarrow>
     planned_partition list \<Rightarrow> claims \<Rightarrow> claims" where
  "resolve_present acc a observed target [] ds c = c"
| "resolve_present acc a observed target (i # is) ds (s, report, claimed) =
     (case find_partition i s of
        None \<Rightarrow> resolve_present acc a observed target is (tl ds) (s, report, claimed)
      | Some _ \<Rightarrow>
          (let (claimed1, adopt) = (case ds of [] \<Rightarrow> (claimed, \<lambda>r. r)
                                    | d # _ \<Rightarrow> claim_native a (Some observed) d claimed);
               (s1, report1) = resolve_partition acc target i (upd_partition i adopt s, report)
           in resolve_present acc a observed target is (tl ds) (s1, report1, claimed1)))"

definition resolve_absent :: "partition_id \<Rightarrow> fabric_state \<Rightarrow> fabric_state" where
  "resolve_absent i s =
     (case find_partition i s of
        None \<Rightarrow> s
      | Some r \<Rightarrow>
          if pr_state r \<in> {PS_RevalidationRequired, PS_Creating, PS_Destroying}
          then (case transition_partition i PS_Unpartitioned s of
                  (s1, Inr _) \<Rightarrow>
                    upd_partition i (\<lambda>r. r\<lparr>pr_native_identity := native_none\<rparr>)
                      (supersede_partition_generation i s1)
                | (s1, Inl _) \<Rightarrow> s1)
          else s)"

definition resolve_reservation ::
  "reservation_id \<Rightarrow> reservation_lifecycle \<Rightarrow> u64 \<Rightarrow> fabric_state \<Rightarrow> fabric_state" where
  "resolve_reservation i v now_ms s =
     (case find_reservation i s of
        None \<Rightarrow> s
      | Some r \<Rightarrow> if reservation_is_terminal (rs_lifecycle r) then s else set_lifecycle i v now_ms s)"

definition resolve_release :: "accelerator_id \<Rightarrow> reservation_id \<Rightarrow> fabric_state \<Rightarrow> fabric_state" where
  "resolve_release acc i s =
     (case (find_reservation i s, find_ledger acc s) of
        (Some r, Some l) \<Rightarrow>
          if \<not> reservation_is_terminal (rs_lifecycle r) \<and> \<not> rv_empty (rs_resources r)
          then upd_ledger acc (fst (ledger_release_reserved (rs_resources r) l)) s else s
      | _ \<Rightarrow> s)"

definition reconcile_attempt ::
  "accelerator_id \<Rightarrow> accelerator_record \<Rightarrow> backend_layout \<Rightarrow> u64 \<Rightarrow> attempt_id \<Rightarrow> claims \<Rightarrow> claims" where
  "reconcile_attempt acc a observed now_ms i c =
     (let (s, report, claimed) = c in
      case find_attempt i s of
        None \<Rightarrow> c
      | Some t \<Rightarrow>
          if at_accelerator t \<noteq> acc \<or> at_state t \<noteq> AT_OutcomeUnknown then c
          else
            (let s1 = settle_attempt i AT_Reconciled now_ms s;
                 (s2, report2, claimed2) =
                   (if attempt_satisfied s observed t
                    then (let (s2, report2, claimed2) =
                                resolve_present acc a observed (attempt_target t) (at_partitions t) (at_desired t)
                                  (s1, report, claimed)
                          in (resolve_reservation (at_reservation t) RL_Committed now_ms s2, report2, claimed2))
                    else (let s2 = resolve_release acc (at_reservation t)
                                     (for_keys (at_partitions t) resolve_absent s1)
                          in (resolve_reservation (at_reservation t) RL_Released now_ms s2, report, claimed)))
             in (record_event EX_ReconciliationRequired s2,
                 report2\<lparr>rr_reconciliation_required := True\<rparr>, claimed2)))"

section \<open>Physical partitions no record explains\<close>

definition unexplained_record ::
  "accelerator_id \<Rightarrow> accelerator_record \<Rightarrow> backend_layout \<Rightarrow> u64 \<Rightarrow> backend_native_partition \<Rightarrow> partition_id \<Rightarrow>
     fabric_state \<Rightarrow> partition_record" where
  "unexplained_record acc a observed now_ms n i s =
     adopt_native a observed n
       (partition_default
          \<lparr>pr_id := i, pr_generation := gen_first, pr_profile := bn_profile n,
           pr_profile_generation := (case find_profile (bn_profile n) s of
                                       Some profile \<Rightarrow> pf_generation profile
                                     | None \<Rightarrow> pr_profile_generation partition_default),
           pr_mechanism := cap_mechanism (ac_capability a), pr_accelerator := acc,
           pr_accelerator_generation := ac_generation a, pr_accelerator_boot := ac_boot_id a,
           pr_resources := bn_resources n,
           pr_provenance := es_provenance (bl_evidence observed), pr_externally_observed := True,
           pr_created_at_ms := now_ms, pr_last_transition_at_ms := now_ms,
           pr_state := (if pp_allow_external_adoption (fs_policy s) then PS_Active
                        else PS_RevalidationRequired)\<rparr>)"

text \<open>Its capacity is held, and promoted when the partition is adopted.\<close>

definition hold_unexplained ::
  "accelerator_id \<Rightarrow> backend_native_partition \<Rightarrow> partition_record \<Rightarrow> pass \<Rightarrow> pass \<times> partition_record" where
  "hold_unexplained acc n r p =
     (let (s, report) = p in
      case find_ledger acc s of
        None \<Rightarrow> ((s, report), r)
      | Some l \<Rightarrow>
          (case move_between Bucket_Free Bucket_ReconfigurationHeld (bn_resources n) l of
             (l1, Inl _) \<Rightarrow>
               ((upd_ledger acc l1 s,
                 add_finding RF_LedgerMismatch SV_Critical acc (pr_id r) (pr_generation r) (pr_state r)
                   (bn_native_id n) report), r)
           | (l1, Inr _) \<Rightarrow>
               if pr_state r = PS_Active
               then (case move_between Bucket_ReconfigurationHeld Bucket_Active (bn_resources n) l1 of
                       (l2, Inr _) \<Rightarrow>
                         ((upd_ledger acc l2 s, report), r\<lparr>pr_held_bucket := Some Bucket_Active\<rparr>)
                     | (l2, Inl _) \<Rightarrow>
                         ((upd_ledger acc l2 s, report),
                          r\<lparr>pr_held_bucket := Some Bucket_ReconfigurationHeld,
                            pr_state := PS_RevalidationRequired\<rparr>))
               else ((upd_ledger acc l1 s, report), r\<lparr>pr_held_bucket := Some Bucket_ReconfigurationHeld\<rparr>)))"

definition record_unexplained ::
  "accelerator_id \<Rightarrow> accelerator_record \<Rightarrow> backend_layout \<Rightarrow> u64 \<Rightarrow> backend_native_partition \<Rightarrow> partition_id \<Rightarrow>
     pass \<Rightarrow> pass" where
  "record_unexplained acc a observed now_ms n i p =
     (let (s, report) = p;
          ((s1, report1), r1) = hold_unexplained acc n (unexplained_record acc a observed now_ms n i s) (s, report);
          s2 = advance_evidence s1;
          r2 = stamp_record s2 a now_ms (es_provenance (bl_evidence observed)) (es_source (bl_evidence observed)) r1;
          s3 = s2\<lparr>fs_partitions := om_set i r2 (fs_partitions s2)\<rparr>;
          report2 = add_finding RF_PartitionUnexpected
                      (if pp_allow_external_adoption (fs_policy s) then SV_Attention else SV_Material)
                      acc (pr_id r2) (pr_generation r2) (pr_state r2) (bn_native_id n) report1
      in (s3, if pp_allow_external_adoption (fs_policy s)
              then report2\<lparr>rr_adopted := rr_adopted report2 + 1\<rparr>
              else report2\<lparr>rr_revalidation_required := True\<rparr>))"

fun reconcile_unexpected ::
  "accelerator_id \<Rightarrow> accelerator_record \<Rightarrow> backend_layout \<Rightarrow> u64 \<Rightarrow> string list \<Rightarrow>
     backend_native_partition list \<Rightarrow> pass \<Rightarrow> pass" where
  "reconcile_unexpected acc a observed now_ms claimed [] p = p"
| "reconcile_unexpected acc a observed now_ms claimed (n # ns) (s, report) =
     (if bn_native_id n \<in> set claimed
      then reconcile_unexpected acc a observed now_ms claimed ns (s, report)
      else
        (let report1 = report\<lparr>rr_unexpected := rr_unexpected report + 1, rr_layout_changed := True\<rparr>
         in case allocate (fs_ids s) of
              (al, Inl _) \<Rightarrow> (s\<lparr>fs_ids := al\<rparr>, report1)
            | (al, Inr i) \<Rightarrow>
                reconcile_unexpected acc a observed now_ms claimed ns
                  (record_unexplained acc a observed now_ms n i (s\<lparr>fs_ids := al\<rparr>, report1))))"

section \<open>The whole handler\<close>

text \<open>What the device itself shows: a new incarnation, other totals, no partition support.\<close>

definition device_changed :: "accelerator_record \<Rightarrow> backend_layout \<Rightarrow> bool" where
  "device_changed a observed \<longleftrightarrow>
     boot_valid (bl_boot_id observed) \<and> boot_valid (ac_boot_id a) \<and> bl_boot_id observed \<noteq> ac_boot_id a"

definition renewed_device :: "generation \<Rightarrow> boot_id \<Rightarrow> accelerator_record \<Rightarrow> accelerator_record" where
  "renewed_device g boot a =
     a\<lparr>ac_generation := g, ac_boot_id := boot,
       ac_capability := (ac_capability a)\<lparr>cap_support := Support_Unknown, cap_generation := gen_unknown\<rparr>\<rparr>"

definition device_findings ::
  "accelerator_id \<Rightarrow> accelerator_record \<Rightarrow> backend_layout \<Rightarrow> reconciliation_report \<Rightarrow> reconciliation_report" where
  "device_findings acc a observed report =
     (let report1 = (if \<not> rv_empty (bl_physical_totals observed) \<and>
                        \<not> rv_eq (ac_physical_totals a) (bl_physical_totals observed)
                     then (add_finding RF_LedgerMismatch SV_Critical acc 0 0 PS_Offline [] report)
                            \<lparr>rr_capability_changed := True\<rparr>
                     else report)
      in if declares_supported (ac_capability a) then report1
         else add_finding RF_DeviceNotPartitionCapable SV_Material acc 0 0 PS_Offline [] report1)"

definition refreshed_evidence :: "accelerator_record \<Rightarrow> backend_layout \<Rightarrow> u64 \<Rightarrow> fabric_state \<Rightarrow> evidence_stamp" where
  "refreshed_evidence a observed now_ms s =
     (let e = bl_evidence observed;
          g = (if gen_known (es_generation e)
               then (case gen_next (es_generation e) of Inr g \<Rightarrow> g | Inl _ \<Rightarrow> gen_first)
               else gen_first)
      in ensure_evidence e (ac_provenance a) (ac_backend a) (evidence_window s) now_ms g)"

definition reconcile_present ::
  "accelerator_id \<Rightarrow> accelerator_record \<Rightarrow> backend_layout \<Rightarrow> reconciliation_report \<Rightarrow> fabric_state \<Rightarrow>
     fabric_state \<times> reconciliation_report result" where
  "reconcile_present acc a observed report s =
     (let now_ms = fs_now s;
          report0 = device_findings acc a observed report;
          c1 = for_keys (om_keys (fs_partitions s)) (reconcile_partition acc a observed now_ms) (s, report0, []);
          c2 = for_keys (om_keys (fs_attempts (fst c1))) (reconcile_attempt acc a observed now_ms) c1;
          (s2, report2, claimed) = c2;
          (s3, report3) = reconcile_unexpected acc a observed now_ms claimed (bl_partitions observed) (s2, report2);
          s4 = upd_accelerator acc (\<lambda>a. a\<lparr>ac_evidence := refreshed_evidence a observed now_ms s3\<rparr>) s3
      in (record_event EX_ReconciledMatch (bump_state_generation s4), Inr report3))"

definition report_init :: "strong_id \<Rightarrow> accelerator_id \<Rightarrow> accelerator_record \<Rightarrow> backend_layout \<Rightarrow> reconciliation_report" where
  "report_init i acc a observed =
     \<lparr>rr_id = i, rr_accelerator = acc, rr_accelerator_generation = ac_generation a,
      rr_capability_generation = cap_generation (ac_capability a),
      rr_device_present = bl_device_present observed, rr_device_generation_changed = False,
      rr_capability_changed = False, rr_layout_changed = False, rr_revalidation_required = False,
      rr_reconciliation_required = False, rr_matched = 0, rr_missing = 0, rr_unexpected = 0,
      rr_adopted = 0, rr_fenced = 0, rr_findings = []\<rparr>"

definition reconcile ::
  "accelerator_id \<Rightarrow> backend_layout \<Rightarrow> fabric_state \<Rightarrow> fabric_state \<times> reconciliation_report result" where
  "reconcile acc observed s =
     (case find_accelerator acc s of
        None \<Rightarrow> (s, failure E_NotFound)
      | Some a \<Rightarrow>
          (case validate_backend_layout observed (fs_limits s) of
             Inl e \<Rightarrow> (s, Inl e)
           | Inr _ \<Rightarrow>
               (case allocate (fs_ids s) of
                  (al, Inl e) \<Rightarrow> (s\<lparr>fs_ids := al\<rparr>, Inl e)
                | (al, Inr i) \<Rightarrow>
                    (let s1 = s\<lparr>fs_ids := al\<rparr>; report = report_init i acc a observed in
                     if \<not> bl_device_present observed then reconcile_absent acc report s1
                     else if device_changed a observed
                     then (case gen_next (ac_generation a) of
                             Inl e \<Rightarrow> (s1, Inl e)
                           | Inr g \<Rightarrow>
                               reconcile_present acc (renewed_device g (bl_boot_id observed) a) observed
                                 (add_finding RF_DeviceReset SV_Critical acc 0 0 PS_Offline []
                                    (report\<lparr>rr_device_generation_changed := True, rr_capability_changed := True\<rparr>))
                                 (upd_accelerator acc (renewed_device g (bl_boot_id observed)) s1))
                     else reconcile_present acc a observed report s1))))"

definition accelerator_for_key :: "string \<Rightarrow> fabric_state \<Rightarrow> accelerator_id result" where
  "accelerator_for_key key s =
     (case om_find key (fs_key_index s) of None \<Rightarrow> failure E_NotFound | Some acc \<Rightarrow> Inr acc)"

text \<open>
  The backend is asked without the lock; \<open>query_layout\<close> is its answer and \<open>meanwhile\<close> what other
  callers did in between.
\<close>

definition reconcile_with_backend ::
  "(string \<Rightarrow> backend_layout result) \<Rightarrow> (fabric_state \<Rightarrow> fabric_state) \<Rightarrow> string \<Rightarrow> fabric_state \<Rightarrow>
     fabric_state \<times> reconciliation_report result" where
  "reconcile_with_backend query_layout meanwhile key s =
     (case om_find key (fs_key_index s) of
        None \<Rightarrow> (s, failure E_NotFound)
      | Some acc \<Rightarrow>
          (case query_layout key of
             Inl _ \<Rightarrow> (meanwhile s, failure E_BackendFailure)
           | Inr observed \<Rightarrow> reconcile acc observed (meanwhile s)))"

definition refresh_layout ::
  "(string \<Rightarrow> backend_layout result) \<Rightarrow> (fabric_state \<Rightarrow> fabric_state) \<Rightarrow> string \<Rightarrow> fabric_state \<Rightarrow>
     fabric_state \<times> reconciliation_report result" where
  "refresh_layout query_layout meanwhile key s = reconcile_with_backend query_layout meanwhile key s"

definition reconcile_with_backend_key ::
  "backend_layout \<Rightarrow> fabric_state \<Rightarrow> fabric_state \<times> reconciliation_report result" where
  "reconcile_with_backend_key observed s =
     (case accelerator_for_key (bl_stable_key observed) s of
        Inl e \<Rightarrow> (s, Inl e)
      | Inr acc \<Rightarrow> reconcile acc observed s)"

section \<open>What reconciliation keeps\<close>

lemma settles_trans_fst: "settles s (fst p) \<Longrightarrow> settles (fst p) t \<Longrightarrow> settles s t"
  by (rule settles_trans)

lemma settles_moved: "settles s (fst (transition_partition i to s))"
  by (rule settles_transition [of i to s _ "snd (transition_partition i to s)"]) simp

lemma settles_supersede: "settles s (supersede_partition_generation i s)"
  by (auto simp: settles_def)

lemma settles_ledger: "find_ledger acc s = Some l \<Longrightarrow> ledger_step l l' \<Longrightarrow> settles s (upd_ledger acc l' s)"
  by (auto simp: settles_def)

lemma settles_stamp: "settles s (stamp_partition_evidence i a t p src s)"
  by (auto simp: settles_def)

lemma settles_pass:
  assumes "\<And>k p. settles (fst p) (fst (body k p))"
  shows "settles (fst p) (fst (for_keys ks body p))"
  by (rule for_keys_invariant) (auto intro: settles_trans assms)

lemma settles_adopted: "settles s (upd_partition i f s)" if "\<And>r. partition_step r (f r)"
  using that by (rule settles_partition)

lemma reconcile_gone_settles: "settles (fst p) (fst (reconcile_gone acc i p))"
  by (cases p) (simp add: reconcile_gone_def Let_def settles_moved split: option.split)

lemma reconcile_uncorrelated_settles: "settles (fst c) (fst (reconcile_uncorrelated acc a i r c))"
  by (cases c) (simp add: reconcile_uncorrelated_def Let_def settles_moved)

lemma reconcile_release_settles: "settles (fst p) (fst (reconcile_release acc i r p))"
proof -
  obtain s report where p: "p = (s, report)" by fastforce
  define s1 where "s1 = upd_partition i (\<lambda>r. r\<lparr>pr_held_bucket := None\<rparr>) s"
  have s1: "settles s s1" unfolding s1_def by (rule settles_partition) (simp add: partition_step_def)
  have "settles s (upd_ledger acc l' s1)" if "find_ledger acc s = Some l" "move_between h Bucket_Free v l = (l', st)" for h v l l' st
    using settles_trans [OF s1 settles_ledger [OF _ move_between_keeps [OF that(2)]]] that(1) by (simp add: s1_def)
  then show ?thesis
    using s1 by (auto simp: reconcile_release_def p s1_def [symmetric] Let_def split: option.split prod.split sum.split)
qed

lemma reconcile_missing_settles: "settles (fst c) (fst (reconcile_missing acc now_ms i r c))"
proof -
  obtain s report claimed where c: "c = (s, report, claimed)" by (cases c)
  obtain s1 report1 where r1: "reconcile_release acc i r (s, report) = (s1, report1)" by fastforce
  have "settles s s1" using reconcile_release_settles [of "(s, report)" acc i r] r1 by simp
  also have "settles s1 (supersede_partition_generation i s1)" by (rule settles_supersede)
  finally have s2: "settles s (upd_partition i f (supersede_partition_generation i s1))" if "\<And>r. partition_step r (f r)" for f
    by (rule settles_trans) (rule settles_partition [OF that])
  have loop: "settles t (fst (for_keys ks (reconcile_orphan acc i) (t, rep)))" for ks t rep
    using settles_pass [of "reconcile_orphan acc i" "(t, rep)" ks]
    by (simp add: reconcile_orphan_def case_prod_beta settles_assignments Let_def)
  show ?thesis
    by (simp add: reconcile_missing_def c r1 Let_def case_prod_beta)
      (rule settles_trans [OF s2 loop], simp add: partition_step_def)
qed

lemma reconcile_changed_settles: "settles (fst p) (fst (reconcile_changed acc i r n p))"
  by (cases p) (simp add: reconcile_changed_def Let_def settles_moved)

lemma reconcile_adopt_settles: "settles (fst p) (fst (reconcile_adopt acc i n p))"
proof -
  obtain s report where p: "p = (s, report)" by fastforce
  obtain s1 st where t: "transition_partition i PS_Active s = (s1, st)" by fastforce
  have "settles s s1" using t by (rule settles_transition)
  moreover have "settles s1 (upd_partition i (\<lambda>r. r\<lparr>pr_externally_observed := True\<rparr>) s1)"
    by (rule settles_partition) (simp add: partition_step_def)
  ultimately show ?thesis
    by (cases st) (auto simp: reconcile_adopt_def p t Let_def intro: settles_trans)
qed

lemma reconcile_matched_settles: "settles (fst p) (fst (reconcile_matched acc a observed now_ms i r n p))"
proof -
  obtain s report where p: "p = (s, report)" by fastforce
  let ?s1 = "stamp_partition_evidence i a now_ms (es_provenance (bl_evidence observed)) (es_source (bl_evidence observed)) s"
  have s1: "settles s ?s1" by (rule settles_stamp)
  have "settles s (fst (transition_partition i to ?s1))" for to by (rule settles_trans [OF s1 settles_moved])
  moreover have "settles s (fst (reconcile_adopt acc i n (?s1, rep)))" for rep
    using settles_trans [OF s1] reconcile_adopt_settles [of "(?s1, rep)" acc i n] by simp
  ultimately show ?thesis using s1 by (simp add: reconcile_matched_def p Let_def)
qed

lemma reconcile_partition_settles: "settles (fst c) (fst (reconcile_partition acc a observed now_ms i c))"
proof -
  obtain s report claimed where c: "c = (s, report, claimed)" by (cases c)
  have "settles s (fst (reconcile_matched acc a observed now_ms i r n (s, report)))"
    "settles s (fst (reconcile_changed acc i r n (s, report)))"
    "settles s (fst (reconcile_missing acc now_ms i r c))" "settles s (fst (reconcile_uncorrelated acc a i r c))" for r n
    using reconcile_matched_settles [of "(s, report)"] reconcile_changed_settles [of "(s, report)"]
      reconcile_missing_settles [of c] reconcile_uncorrelated_settles [of c] by (simp_all add: c)
  then show ?thesis
    by (simp add: reconcile_partition_def c Let_def case_prod_beta split: option.split)
qed

lemma resolve_partition_settles: "settles (fst p) (fst (resolve_partition acc target i p))"
proof -
  obtain s report where p: "p = (s, report)" by fastforce
  obtain s1 st where t: "transition_partition i target s = (s1, st)" by fastforce
  have "settles s s1" using t by (rule settles_transition)
  then show ?thesis
    by (auto simp: resolve_partition_def p t Let_def split: option.split sum.split
        intro: settles_trans [OF _ settles_supersede])
qed

lemma claim_native_fresh:
  "claim_native a observed d claimed = (claimed', adopt) \<Longrightarrow> partition_step r (adopt r)"
  by (auto simp: claim_native_def adopt_native_def partition_step_def split: option.splits)

lemma resolve_present_settles: "settles (fst c) (fst (resolve_present acc a observed target is ds c))"
proof (induction "is" arbitrary: ds c)
  case (Cons i "is")
  obtain s report claimed where c: "c = (s, report, claimed)" by (cases c)
  show ?case
  proof (cases "find_partition i s")
    case None
    then show ?thesis using Cons.IH [of c "tl ds"] by (simp add: c)
  next
    case (Some r)
    obtain claimed1 adopt where ca: "(case ds of [] \<Rightarrow> (claimed, \<lambda>r. r) | d # _ \<Rightarrow> claim_native a (Some observed) d claimed) = (claimed1, adopt)"
      by fastforce
    have "partition_step r (adopt r)" for r
      using ca claim_native_fresh by (auto split: list.splits)
    then have "settles s (upd_partition i adopt s)" by (rule settles_partition)
    also obtain s1 report1 where s1: "resolve_partition acc target i (upd_partition i adopt s, report) = (s1, report1)" by fastforce
    have "settles (upd_partition i adopt s) s1"
      using resolve_partition_settles [of "(upd_partition i adopt s, report)" acc target i] s1 by simp
    finally show ?thesis
      using Cons.IH [of "(s1, report1, claimed1)" "tl ds"] Some ca s1 by (auto simp: c intro: settles_trans)
  qed
qed simp

lemma resolve_absent_settles: "settles s (resolve_absent i s)"
proof -
  obtain s1 st where t: "transition_partition i PS_Unpartitioned s = (s1, st)" by fastforce
  have s1: "settles s s1" using t by (rule settles_transition)
  also have "settles s1 (supersede_partition_generation i s1)" by (rule settles_supersede)
  also have "settles (supersede_partition_generation i s1) (upd_partition i (\<lambda>r. r\<lparr>pr_native_identity := native_none\<rparr>) (supersede_partition_generation i s1))"
    by (rule settles_partition) (simp add: partition_step_def)
  finally show ?thesis using s1 by (auto simp: resolve_absent_def t split: option.split sum.split)
qed

lemma resolve_reservation_settles: "reservation_is_terminal v \<Longrightarrow> settles s (resolve_reservation i v now_ms s)"
  by (auto simp: resolve_reservation_def settles_def set_lifecycle_def reservation_step_def split: option.split
      intro!: authority_evolves_reservation)

lemma release_reserved_keeps: "ledger_step l (fst (ledger_release_reserved v l))"
  by (rule release_reserved_step) (rule prod.collapse [symmetric])

lemma resolve_release_settles: "settles s (resolve_release acc i s)"
  by (simp add: resolve_release_def settles_ledger release_reserved_keeps split: option.split)

lemma settle_settles:
  "find_attempt i s = Some t \<Longrightarrow> at_state t = AT_OutcomeUnknown \<Longrightarrow> settles s (settle_attempt i st now_ms s)"
  using settle_authority [of i s st now_ms] by (auto simp: settles_def settle_attempt_def)

lemma reconcile_attempt_settles: "settles (fst c) (fst (reconcile_attempt acc a observed now_ms i c))"
proof -
  obtain s report claimed where c: "c = (s, report, claimed)" by (cases c)
  have "settles s (fst (reconcile_attempt acc a observed now_ms i (s, report, claimed)))"
    if t: "find_attempt i s = Some t" "at_accelerator t = acc" "at_state t = AT_OutcomeUnknown" for t
  proof -
    let ?s1 = "settle_attempt i AT_Reconciled now_ms s"
    have s1: "settles s ?s1" using t by (intro settle_settles)
    obtain s2 report2 claimed2 where p: "resolve_present acc a observed (attempt_target t) (at_partitions t) (at_desired t)
        (?s1, report, claimed) = (s2, report2, claimed2)" by (metis prod_cases3)
    have "settles ?s1 s2" using resolve_present_settles [of "(?s1, report, claimed)"] p by (metis fst_conv)
    then have "settles ?s1 (resolve_reservation ri RL_Committed now_ms s2)" for ri
      by (rule settles_trans) (simp add: resolve_reservation_settles)
    moreover have "settles ?s1 (for_keys (at_partitions t) resolve_absent ?s1)"
      by (rule for_keys_invariant) (auto intro: settles_trans resolve_absent_settles)
    then have "settles ?s1 (resolve_reservation ri RL_Released now_ms (resolve_release acc rj (for_keys (at_partitions t) resolve_absent ?s1)))" for ri rj
      by (rule settles_trans) (rule settles_trans [OF resolve_release_settles resolve_reservation_settles], simp)
    ultimately have "settles s (record_event e (resolve_reservation ri RL_Committed now_ms s2))"
      "settles s (record_event e (resolve_reservation ri RL_Released now_ms (resolve_release acc rj (for_keys (at_partitions t) resolve_absent ?s1))))" for ri rj e
      by (meson s1 settles_trans settles_event)+
    then show ?thesis using t by (simp add: reconcile_attempt_def p Let_def)
  qed
  then show ?thesis by (auto simp: reconcile_attempt_def c split: option.split)
qed

lemma hold_unexplained_settles: "settles (fst p) (fst (fst (hold_unexplained acc n r p)))"
proof -
  obtain s report where p: "p = (s, report)" by fastforce
  show ?thesis
  proof (cases "find_ledger acc s")
    case (Some l)
    obtain l1 st1 where m1: "move_between Bucket_Free Bucket_ReconfigurationHeld (bn_resources n) l = (l1, st1)" by fastforce
    obtain l2 st2 where m2: "move_between Bucket_ReconfigurationHeld Bucket_Active (bn_resources n) l1 = (l2, st2)" by fastforce
    have "ledger_step l l1" "ledger_step l l2"
      using move_between_keeps [OF m1] move_between_keeps [OF m2] by (auto intro: ledger_step_trans)
    then show ?thesis
      using settles_ledger [OF Some] by (cases st1; cases st2) (simp_all add: hold_unexplained_def p Some m1 m2 Let_def)
  qed (simp add: hold_unexplained_def p)
qed

lemma hold_unexplained_shape:
  obtains L where "fst (fst (hold_unexplained acc n r (s, report))) = s\<lparr>fs_ledgers := L\<rparr>"
proof -
  have "\<exists>L. fst (fst (hold_unexplained acc n r (s, report))) = s\<lparr>fs_ledgers := L\<rparr>"
  proof (cases "find_ledger acc s")
    case None
    then show ?thesis by (intro exI [of _ "fs_ledgers s"]) (simp add: hold_unexplained_def)
  next
    case (Some l)
    obtain l1 st1 where m1: "move_between Bucket_Free Bucket_ReconfigurationHeld (bn_resources n) l = (l1, st1)" by fastforce
    obtain l2 st2 where m2: "move_between Bucket_ReconfigurationHeld Bucket_Active (bn_resources n) l1 = (l2, st2)" by fastforce
    show ?thesis
      by (cases st1; cases st2; cases "pr_state r = PS_Active") (auto simp: hold_unexplained_def Some m1 m2 Let_def)
  qed
  with that show thesis by blast
qed

lemma hold_unexplained_record:
  obtains st h where "snd (hold_unexplained acc n r (s, report)) = r\<lparr>pr_state := st, pr_held_bucket := h\<rparr>"
    "st = pr_state r \<or> st = PS_RevalidationRequired"
proof -
  have "\<exists>st h. snd (hold_unexplained acc n r (s, report)) = r\<lparr>pr_state := st, pr_held_bucket := h\<rparr> \<and>
      (st = pr_state r \<or> st = PS_RevalidationRequired)"
  proof (cases "find_ledger acc s")
    case None
    then show ?thesis
      by (intro exI [of _ "pr_state r"] exI [of _ "pr_held_bucket r"]) (simp add: hold_unexplained_def)
  next
    case (Some l)
    obtain l1 st1 where m1: "move_between Bucket_Free Bucket_ReconfigurationHeld (bn_resources n) l = (l1, st1)" by fastforce
    obtain l2 st2 where m2: "move_between Bucket_ReconfigurationHeld Bucket_Active (bn_resources n) l1 = (l2, st2)" by fastforce
    show ?thesis
      by (rule exI [of _ "pr_state (snd (hold_unexplained acc n r (s, report)))"],
          rule exI [of _ "pr_held_bucket (snd (hold_unexplained acc n r (s, report)))"],
          cases st1; cases st2; cases "pr_state r = PS_Active") (simp_all add: hold_unexplained_def Some m1 m2 Let_def)
  qed
  with that show thesis by blast
qed

text \<open>The record that is stored for an unexplained partition, and the only other changes.\<close>

lemma record_unexplained_shape:
  obtains L r where
    "fst (record_unexplained acc a observed now_ms n i (s, report)) =
       (advance_evidence (s\<lparr>fs_ledgers := L\<rparr>))\<lparr>fs_partitions := om_set i r (fs_partitions s)\<rparr>"
    "ledgers_evolve s (s\<lparr>fs_ledgers := L\<rparr>)"
    "pr_id r = i" "pr_accelerator r = acc" "pr_externally_observed r"
    "ni_native_id (pr_native_identity r) = bn_native_id n"
    "pr_state r = PS_RevalidationRequired \<or> pp_allow_external_adoption (fs_policy s) \<and> pr_state r = PS_Active"
proof -
  define r0 where "r0 = unexplained_record acc a observed now_ms n i s"
  have r0: "pr_id r0 = i" "pr_accelerator r0 = acc" "pr_externally_observed r0"
    "ni_native_id (pr_native_identity r0) = bn_native_id n"
    "pr_state r0 = (if pp_allow_external_adoption (fs_policy s) then PS_Active else PS_RevalidationRequired)"
    by (simp_all add: r0_def unexplained_record_def adopt_native_def)
  obtain L where L: "fst (fst (hold_unexplained acc n r0 (s, report))) = s\<lparr>fs_ledgers := L\<rparr>" by (rule hold_unexplained_shape)
  obtain st h where r: "snd (hold_unexplained acc n r0 (s, report)) = r0\<lparr>pr_state := st, pr_held_bucket := h\<rparr>"
    "st = pr_state r0 \<or> st = PS_RevalidationRequired" by (rule hold_unexplained_record)
  have ev: "ledgers_evolve s (s\<lparr>fs_ledgers := L\<rparr>)"
    using hold_unexplained_settles [of "(s, report)" acc n r0] L by (simp add: settles_def)
  let ?s2 = "advance_evidence (s\<lparr>fs_ledgers := L\<rparr>)"
  let ?r2 = "stamp_record ?s2 a now_ms (es_provenance (bl_evidence observed)) (es_source (bl_evidence observed))
      (r0\<lparr>pr_state := st, pr_held_bucket := h\<rparr>)"
  show thesis
  proof (rule that [of ?r2 L])
    show "fst (record_unexplained acc a observed now_ms n i (s, report)) = ?s2\<lparr>fs_partitions := om_set i ?r2 (fs_partitions s)\<rparr>"
      using r(1) L by (simp add: record_unexplained_def r0_def [symmetric] Let_def case_prod_beta)
  qed (use ev r0 r(2) in \<open>auto simp: stamp_record_def split: if_splits\<close>)
qed

lemma record_unexplained_settles:
  assumes "allocate (fs_ids s) = (al, Inr i)" "ids_fresh s"
  shows "settles s (fst (record_unexplained acc a observed now_ms n i (s\<lparr>fs_ids := al\<rparr>, report)))"
proof (rule record_unexplained_shape [of acc a observed now_ms n i "s\<lparr>fs_ids := al\<rparr>" report])
  fix L r
  let ?t = "fst (record_unexplained acc a observed now_ms n i (s\<lparr>fs_ids := al\<rparr>, report))"
  assume t: "?t = (advance_evidence (s\<lparr>fs_ids := al, fs_ledgers := L\<rparr>))\<lparr>fs_partitions := om_set i r (fs_partitions (s\<lparr>fs_ids := al\<rparr>))\<rparr>"
    and L: "ledgers_evolve (s\<lparr>fs_ids := al\<rparr>) (s\<lparr>fs_ids := al, fs_ledgers := L\<rparr>)"
  let ?u = "s\<lparr>fs_ids := al, fs_partitions := om_set i r (fs_partitions s)\<rparr>"
  have "authority_evolves s ?u" by (rule add_partition_authority [OF assms])
  also have "authority_evolves ?u (advance_evidence (?u\<lparr>fs_ledgers := L\<rparr>))"
    by (rule authority_evolves_trans [OF _ advance_evidence_authority]) (auto simp: counters_advance_def)
  also have "advance_evidence (?u\<lparr>fs_ledgers := L\<rparr>) = ?t"
    by (simp add: t advance_evidence_def split: sum.split)
  finally have "authority_evolves s ?t" .
  moreover have "ledgers_evolve s ?t" using L by (simp add: t ledgers_evolve_def)
  moreover have "fs_accelerators ?t = fs_accelerators s" by (simp add: t)
  ultimately show ?thesis by (simp add: settles_def)
qed

lemma settles_fresh: "settles s t \<Longrightarrow> ids_fresh s \<Longrightarrow> ids_fresh t"
  unfolding settles_def by (blast intro: ids_fresh_evolves)

lemma reconcile_unexpected_settles:
  "ids_fresh (fst p) \<Longrightarrow> settles (fst p) (fst (reconcile_unexpected acc a observed now_ms claimed ns p))"
proof (induction ns arbitrary: p)
  case (Cons n ns)
  obtain s report where p: "p = (s, report)" by fastforce
  obtain al ir where al: "allocate (fs_ids s) = (al, ir)" by fastforce
  show ?case
  proof (cases "bn_native_id n \<in> set claimed \<or> (\<exists>e. ir = Inl e)")
    case True
    then show ?thesis
      using Cons.IH [of p] Cons.prems al settles_allocate [OF al] by (auto simp: p Let_def)
  next
    case False
    then obtain i where i: "ir = Inr i" "bn_native_id n \<notin> set claimed" by (cases ir) auto
    let ?q = "record_unexplained acc a observed now_ms n i (s\<lparr>fs_ids := al\<rparr>,
        report\<lparr>rr_unexpected := rr_unexpected report + 1, rr_layout_changed := True\<rparr>)"
    have q: "settles s (fst ?q)" using record_unexplained_settles [of s al i] al i Cons.prems by (simp add: p)
    have "settles (fst ?q) (fst (reconcile_unexpected acc a observed now_ms claimed ns ?q))"
      by (rule Cons.IH) (use settles_fresh [OF q] Cons.prems in \<open>simp add: p\<close>)
    then show ?thesis using q i al by (auto simp: p Let_def intro: settles_trans)
  qed
qed simp

lemma settles_progresses: "settles s t \<Longrightarrow> progresses s t"
  by (simp add: settles_def evolves_progresses)

lemma progresses_accelerators: "progresses s (s\<lparr>fs_accelerators := m\<rparr>)"
  by (rule evolves_progresses) (auto intro!: authority_evolves_same simp: counters_advance_def)

lemma progresses_closing: "progresses s t \<Longrightarrow> progresses s (record_event c (bump_state_generation (upd_accelerator acc f t)))"
  by (rule progresses_trans [OF progresses_trans [OF progresses_trans [OF _ progresses_accelerators] progresses_bump] progresses_event])

text \<open>The three passes over a present device, and what each leaves.\<close>

definition partition_pass ::
  "accelerator_id \<Rightarrow> accelerator_record \<Rightarrow> backend_layout \<Rightarrow> reconciliation_report \<Rightarrow> fabric_state \<Rightarrow> claims" where
  "partition_pass acc a observed report s =
     for_keys (om_keys (fs_partitions s)) (reconcile_partition acc a observed (fs_now s))
       (s, device_findings acc a observed report, [])"

definition attempt_pass ::
  "accelerator_id \<Rightarrow> accelerator_record \<Rightarrow> backend_layout \<Rightarrow> u64 \<Rightarrow> claims \<Rightarrow> claims" where
  "attempt_pass acc a observed now_ms c =
     for_keys (om_keys (fs_attempts (fst c))) (reconcile_attempt acc a observed now_ms) c"

lemma reconcile_present_passes:
  obtains s1 report1 claimed1 s2 report2 claimed2 s3 report3 where
    "partition_pass acc a observed report s = (s1, report1, claimed1)"
    "attempt_pass acc a observed (fs_now s) (s1, report1, claimed1) = (s2, report2, claimed2)"
    "reconcile_unexpected acc a observed (fs_now s) claimed2 (bl_partitions observed) (s2, report2) = (s3, report3)"
    "reconcile_present acc a observed report s =
       (record_event EX_ReconciledMatch (bump_state_generation
          (upd_accelerator acc (\<lambda>a. a\<lparr>ac_evidence := refreshed_evidence a observed (fs_now s) s3\<rparr>) s3)), Inr report3)"
proof -
  obtain s1 report1 claimed1 where 1: "partition_pass acc a observed report s = (s1, report1, claimed1)" by (metis prod_cases3)
  obtain s2 report2 claimed2 where 2: "attempt_pass acc a observed (fs_now s) (s1, report1, claimed1) = (s2, report2, claimed2)"
    by (metis prod_cases3)
  obtain s3 report3 where 3: "reconcile_unexpected acc a observed (fs_now s) claimed2 (bl_partitions observed) (s2, report2) = (s3, report3)"
    by fastforce
  show thesis
    by (rule that [OF 1 2 3]) (use 1 2 3 in \<open>simp add: reconcile_present_def partition_pass_def attempt_pass_def Let_def\<close>)
qed

lemma partition_pass_settles: "settles s (fst (partition_pass acc a observed report s))"
  using settles_pass [of "reconcile_partition acc a observed (fs_now s)" "(s, device_findings acc a observed report, [])"]
    reconcile_partition_settles by (simp add: partition_pass_def)

lemma attempt_pass_settles: "settles (fst c) (fst (attempt_pass acc a observed now_ms c))"
  using settles_pass [of "reconcile_attempt acc a observed now_ms" c] reconcile_attempt_settles by (simp add: attempt_pass_def)

lemma reconcile_present_progresses:
  assumes "ids_fresh s"
  shows "progresses s (fst (reconcile_present acc a observed report s))"
proof (rule reconcile_present_passes [of acc a observed report s])
  fix s1 report1 claimed1 s2 report2 claimed2 s3 report3
  assume "partition_pass acc a observed report s = (s1, report1, claimed1)"
    and "attempt_pass acc a observed (fs_now s) (s1, report1, claimed1) = (s2, report2, claimed2)"
    and 3: "reconcile_unexpected acc a observed (fs_now s) claimed2 (bl_partitions observed) (s2, report2) = (s3, report3)"
    and eq: "reconcile_present acc a observed report s =
       (record_event EX_ReconciledMatch (bump_state_generation
          (upd_accelerator acc (\<lambda>a. a\<lparr>ac_evidence := refreshed_evidence a observed (fs_now s) s3\<rparr>) s3)), Inr report3)"
  then have "settles s s1" "settles s1 s2"
    using partition_pass_settles [of s acc a observed report] attempt_pass_settles [of "(s1, report1, claimed1)" acc a observed "fs_now s"] by simp_all
  then have s2: "settles s s2" by (rule settles_trans)
  then have "settles s2 s3"
    using reconcile_unexpected_settles [of "(s2, report2)" acc a observed "fs_now s" claimed2 "bl_partitions observed"] 3
      settles_fresh [OF s2 assms] by simp
  with s2 have "progresses s s3" by (auto intro: settles_progresses settles_trans)
  then show ?thesis by (simp add: eq progresses_closing)
qed

lemma reconcile_absent_progresses: "progresses s (fst (reconcile_absent acc report s))"
proof -
  have "settles s (fst (for_keys (om_keys (fs_partitions s)) (reconcile_gone acc) (s, report)))"
    using settles_pass [of "reconcile_gone acc" "(s, report)"] reconcile_gone_settles by simp
  then show ?thesis
    by (simp add: reconcile_absent_def Let_def case_prod_beta progresses_closing settles_progresses)
qed

text \<open>How a call of \<^const>\<open>reconcile\<close> ends.\<close>

lemma reconcile_cases:
  obtains (refused) e where "reconcile acc observed s = (s, Inl e)"
  | (exhausted) al i e where "allocate (fs_ids s) = (al, Inr i)" "reconcile acc observed s = (s\<lparr>fs_ids := al\<rparr>, Inl e)"
  | (gone) al i a where "find_accelerator acc s = Some a" "allocate (fs_ids s) = (al, Inr i)" "\<not> bl_device_present observed"
      "validate_backend_layout observed (fs_limits s) = success"
      "reconcile acc observed s = reconcile_absent acc (report_init i acc a observed) (s\<lparr>fs_ids := al\<rparr>)"
  | (present) al i a report f where "find_accelerator acc s = Some a" "allocate (fs_ids s) = (al, Inr i)" "bl_device_present observed"
      "validate_backend_layout observed (fs_limits s) = success" "\<And>a. ac_id (f a) = ac_id a"
      "reconcile acc observed s = reconcile_present acc (f a) observed report
         (s\<lparr>fs_ids := al, fs_accelerators := om_modify acc f (fs_accelerators s)\<rparr>)"
proof (cases "find_accelerator acc s")
  case None
  then show thesis by (intro refused [of E_NotFound]) (simp add: reconcile_def)
next
  case a: (Some a)
  show thesis
  proof (cases "validate_backend_layout observed (fs_limits s)")
    case (Inl e)
    then show thesis by (intro refused [of e]) (simp add: reconcile_def a)
  next
    case v: (Inr u)
    obtain al ir where al: "allocate (fs_ids s) = (al, ir)" by fastforce
    show thesis
    proof (cases ir)
      case (Inl e)
      then have "al = fs_ids s" using al by (simp add: allocate_Inl)
      then show thesis using al Inl by (intro refused [of e]) (simp add: reconcile_def a v)
    next
      case i: (Inr i)
      have id: "om_modify acc (\<lambda>a. a) (fs_accelerators s) = fs_accelerators s" by (auto simp: om_modify_def intro: map_idI)
      show thesis
      proof (cases "bl_device_present observed")
        case False
        show thesis by (rule gone [of a al i]) (use a v al i False in \<open>simp_all add: reconcile_def\<close>)
      next
        case p: True
        show thesis
        proof (cases "device_changed a observed")
          case False
          show thesis by (rule present [of a al i "\<lambda>a. a" "report_init i acc a observed"])
            (use a v al i p False id in \<open>simp_all add: reconcile_def\<close>)
        next
          case ch: True
          show thesis
          proof (cases "gen_next (ac_generation a)")
            case (Inl e)
            show thesis by (rule exhausted [of al i e]) (use a v al i p ch Inl in \<open>simp_all add: reconcile_def\<close>)
          next
            case (Inr g)
            show thesis by (rule present [of a al i "renewed_device g (bl_boot_id observed)"])
              (use a v al i p ch Inr in \<open>simp_all add: reconcile_def Let_def renewed_device_def\<close>)
          qed
        qed
      qed
    qed
  qed
qed

lemma reconcile_progresses:
  assumes "ids_fresh s"
  shows "progresses s (fst (reconcile acc observed s))"
proof (cases rule: reconcile_cases [of acc observed s])
  case (gone al i a)
  have "progresses s (s\<lparr>fs_ids := al\<rparr>)" using gone(2) by (rule progresses_ids)
  with gone(5) show ?thesis using progresses_trans [OF _ reconcile_absent_progresses] by simp
next
  case (present al i a report f)
  let ?t = "s\<lparr>fs_ids := al, fs_accelerators := om_modify acc f (fs_accelerators s)\<rparr>"
  have t: "progresses s ?t"
    using progresses_trans [OF progresses_ids [OF present(2)] progresses_accelerators] by simp
  then have "ids_fresh ?t" using assms by (auto simp: progresses_def intro: advances_fresh)
  then show ?thesis using progresses_trans [OF t reconcile_present_progresses] present(6) by simp
qed (auto intro: progresses_ids)

section \<open>What the passes leave alone\<close>

definition surroundings ::
  "fabric_state \<Rightarrow> planning_policy \<times> (u64, partition_profile) omap \<times> (string, accelerator_id) omap \<times> (u64, accelerator_record) omap" where
  "surroundings s = (fs_policy s, fs_profiles s, fs_key_index s, fs_accelerators s)"

lemma surroundings_update [simp]:
  "surroundings (fs_partitions_update f1 s) = surroundings s" "surroundings (fs_ledgers_update f2 s) = surroundings s"
  "surroundings (fs_assignments_update f3 s) = surroundings s" "surroundings (fs_attempts_update f4 s) = surroundings s"
  "surroundings (fs_reservations_update f5 s) = surroundings s" "surroundings (fs_ids_update f6 s) = surroundings s"
  "surroundings (record_event e s) = surroundings s" "surroundings (fst (transition_partition i to s)) = surroundings s"
  "surroundings (supersede_partition_generation i s) = surroundings s" "surroundings (advance_evidence s) = surroundings s"
  by (simp_all add: surroundings_def advance_evidence_def split: sum.split)

lemma transition_surroundings: "transition_partition i to s = (t, st) \<Longrightarrow> surroundings t = surroundings s"
  using surroundings_update(8) [of i to s] by simp

lemmas pass_rules = Let_def case_prod_beta stamp_partition_evidence_def settle_attempt_def set_lifecycle_def
  for_keys_frame [where g = "\<lambda>p. surroundings (fst p)"] for_keys_frame [where g = surroundings]
  for_keys_frame [where g = "\<lambda>p. fs_attempts (fst p)"] for_keys_frame [where g = fs_attempts]

lemma surroundings_moved [simp]:
  "(case transition_partition i to s of (t, Inl e) \<Rightarrow> f t e | (t, Inr u) \<Rightarrow> g t u) =
   (case snd (transition_partition i to s) of Inl e \<Rightarrow> f (fst (transition_partition i to s)) e
    | Inr u \<Rightarrow> g (fst (transition_partition i to s)) u)"
  by (simp add: case_prod_beta)

lemma reconcile_release_around:
  "surroundings (fst (reconcile_release acc i r p)) = surroundings (fst p)"
  "fs_attempts (fst (reconcile_release acc i r p)) = fs_attempts (fst p)"
  by (simp_all add: reconcile_release_def pass_rules split: option.split sum.split)

lemma reconcile_orphan_around:
  "surroundings (fst (reconcile_orphan acc i asg p)) = surroundings (fst p)"
  "fs_attempts (fst (reconcile_orphan acc i asg p)) = fs_attempts (fst p)"
  by (simp_all add: reconcile_orphan_def pass_rules)

lemma reconcile_missing_around:
  "surroundings (fst (reconcile_missing acc now_ms i r c)) = surroundings (fst c)"
  "fs_attempts (fst (reconcile_missing acc now_ms i r c)) = fs_attempts (fst c)"
  by (simp_all add: reconcile_missing_def pass_rules reconcile_release_around reconcile_orphan_around)

lemma reconcile_matched_around:
  "surroundings (fst (reconcile_matched acc a observed now_ms i r n p)) = surroundings (fst p)"
  "fs_attempts (fst (reconcile_matched acc a observed now_ms i r n p)) = fs_attempts (fst p)"
  by (simp_all add: reconcile_matched_def reconcile_adopt_def pass_rules split: sum.split)

lemma reconcile_partition_around:
  "surroundings (fst (reconcile_partition acc a observed now_ms i c)) = surroundings (fst c)"
  "fs_attempts (fst (reconcile_partition acc a observed now_ms i c)) = fs_attempts (fst c)"
  by (simp_all add: reconcile_partition_def reconcile_changed_def reconcile_uncorrelated_def pass_rules
      reconcile_missing_around reconcile_matched_around split: option.split)

lemma resolve_partition_around:
  "surroundings (fst (resolve_partition acc target i p)) = surroundings (fst p)"
  "fs_attempts (fst (resolve_partition acc target i p)) = fs_attempts (fst p)"
  by (simp_all add: resolve_partition_def pass_rules split: option.split sum.split)

lemma resolve_present_around:
  "surroundings (fst (resolve_present acc a observed target is ds c)) = surroundings (fst c)"
  "fs_attempts (fst (resolve_present acc a observed target is ds c)) = fs_attempts (fst c)"
proof (induction "is" arbitrary: ds c)
  case (Cons i "is")
  { case 1 show ?case by (cases c) (simp add: pass_rules Cons.IH resolve_partition_around split: option.split) }
  { case 2 show ?case by (cases c) (simp add: pass_rules Cons.IH resolve_partition_around split: option.split) }
qed simp_all

lemma resolve_absent_around:
  "surroundings (resolve_absent i s) = surroundings s" "fs_attempts (resolve_absent i s) = fs_attempts s"
  by (simp_all add: resolve_absent_def split: option.split sum.split)

lemma resolve_end_around:
  "surroundings (resolve_release acc i s) = surroundings s" "fs_attempts (resolve_release acc i s) = fs_attempts s"
  "surroundings (resolve_reservation i v now_ms s) = surroundings s"
  "fs_attempts (resolve_reservation i v now_ms s) = fs_attempts s"
  "fs_partitions (resolve_release acc i s) = fs_partitions s"
  "fs_partitions (resolve_reservation i v now_ms s) = fs_partitions s"
  by (simp_all add: resolve_release_def resolve_reservation_def set_lifecycle_def split: option.split)

lemma reconcile_attempt_around: "surroundings (fst (reconcile_attempt acc a observed now_ms i c)) = surroundings (fst c)"
  by (simp add: reconcile_attempt_def pass_rules resolve_present_around resolve_absent_around resolve_end_around
      split: option.split)

lemma partition_pass_around:
  "surroundings (fst (partition_pass acc a observed report s)) = surroundings s"
  "fs_attempts (fst (partition_pass acc a observed report s)) = fs_attempts s"
  by (simp_all add: partition_pass_def pass_rules reconcile_partition_around)

lemma attempt_pass_around: "surroundings (fst (attempt_pass acc a observed now_ms c)) = surroundings (fst c)"
  by (simp add: attempt_pass_def pass_rules reconcile_attempt_around)

lemma reconcile_unexpected_around:
  "surroundings (fst (reconcile_unexpected acc a observed now_ms claimed ns p)) = surroundings (fst p)"
  "fs_attempts (fst (reconcile_unexpected acc a observed now_ms claimed ns p)) = fs_attempts (fst p)"
proof (induction ns arbitrary: p)
  case (Cons n ns)
  have r: "surroundings (fst (record_unexplained acc a observed now_ms n i q)) = surroundings (fst q)"
    "fs_attempts (fst (record_unexplained acc a observed now_ms n i q)) = fs_attempts (fst q)" for i q
    by (cases q, rule record_unexplained_shape [of acc a observed now_ms n i "fst q" "snd q"], simp)+
  { case 1 show ?case by (cases p) (simp add: pass_rules Cons.IH r split: sum.split) }
  { case 2 show ?case by (cases p) (simp add: pass_rules Cons.IH r split: sum.split) }
qed simp_all

section \<open>Ambiguous mutations are decided once\<close>

definition decide_attempt :: "accelerator_id \<Rightarrow> u64 \<Rightarrow> partition_attempt \<Rightarrow> partition_attempt" where
  "decide_attempt acc now_ms t =
     (if at_accelerator t = acc \<and> at_state t = AT_OutcomeUnknown
      then t\<lparr>at_state := AT_Reconciled, at_settled_at_ms := now_ms\<rparr> else t)"

lemma decide_attempt_idem [simp]: "decide_attempt acc now_ms (decide_attempt acc now_ms t) = decide_attempt acc now_ms t"
  by (simp add: decide_attempt_def)

lemma reconcile_attempt_find:
  "find_attempt j (fst (reconcile_attempt acc a observed now_ms i c)) =
     (if j = i then map_option (decide_attempt acc now_ms) (find_attempt i (fst c)) else find_attempt j (fst c))"
proof -
  obtain s report claimed where c: "c = (s, report, claimed)" by (cases c)
  show ?thesis
    by (simp add: reconcile_attempt_def c pass_rules resolve_present_around resolve_absent_around resolve_end_around
        decide_attempt_def apf_lookup split: option.split)
qed

lemma decide_loop:
  "find_attempt j (fst (for_keys ks (reconcile_attempt acc a observed now_ms) c)) =
     (if j \<in> set ks then map_option (decide_attempt acc now_ms) (find_attempt j (fst c)) else find_attempt j (fst c))"
  by (induction ks arbitrary: c) (auto simp: reconcile_attempt_find option.map_comp o_def)

lemma attempt_pass_find:
  "find_attempt j (fst (attempt_pass acc a observed now_ms c)) = map_option (decide_attempt acc now_ms) (find_attempt j (fst c))"
proof (cases "find_attempt j (fst c)")
  case (Some t)
  then have "j \<in> set (om_keys (fs_attempts (fst c)))" by (rule om_find_in_keys)
  then show ?thesis by (simp add: attempt_pass_def decide_loop)
qed (simp add: attempt_pass_def decide_loop)

lemma reconcile_present_attempts:
  "find_attempt j (fst (reconcile_present acc a observed report s)) =
     map_option (decide_attempt acc (fs_now s)) (find_attempt j s)"
proof (rule reconcile_present_passes [of acc a observed report s])
  fix s1 report1 claimed1 s2 report2 claimed2 s3 report3
  assume 1: "partition_pass acc a observed report s = (s1, report1, claimed1)"
    and 2: "attempt_pass acc a observed (fs_now s) (s1, report1, claimed1) = (s2, report2, claimed2)"
    and 3: "reconcile_unexpected acc a observed (fs_now s) claimed2 (bl_partitions observed) (s2, report2) = (s3, report3)"
    and eq: "reconcile_present acc a observed report s =
       (record_event EX_ReconciledMatch (bump_state_generation
          (upd_accelerator acc (\<lambda>a. a\<lparr>ac_evidence := refreshed_evidence a observed (fs_now s) s3\<rparr>) s3)), Inr report3)"
  have "fs_attempts s3 = fs_attempts s2" using reconcile_unexpected_around(2) [of acc a observed "fs_now s" claimed2 "bl_partitions observed" "(s2, report2)"] 3 by simp
  moreover have "find_attempt j s2 = map_option (decide_attempt acc (fs_now s)) (find_attempt j s1)"
    using attempt_pass_find [of j acc a observed "fs_now s" "(s1, report1, claimed1)"] 2 by simp
  moreover have "fs_attempts s1 = fs_attempts s" using partition_pass_around(2) [of acc a observed report s] 1 by simp
  ultimately show ?thesis by (simp add: eq)
qed

lemma reconcile_decides:
  assumes "reconcile acc observed s = (t, Inr report)" "bl_device_present observed"
  shows "find_attempt j t = map_option (decide_attempt acc (fs_now s)) (find_attempt j s)"
  using assms
proof (cases rule: reconcile_cases [of acc observed s])
  case (present al i a report0 f)
  let ?s = "s\<lparr>fs_ids := al, fs_accelerators := om_modify acc f (fs_accelerators s)\<rparr>"
  have "t = fst (reconcile_present acc (f a) observed report0 ?s)" using arg_cong [OF present(6), of fst] assms(1) by simp
  then show ?thesis using reconcile_present_attempts [of j acc "f a" observed report0 ?s] by simp
qed (use assms in simp_all)

section \<open>Reconciliation grants no authority by itself\<close>

text \<open>
  How the state of a registered partition may change: it stays, it is withdrawn, or it becomes
  Active because \<open>C\<close> explains it.
\<close>

definition withdrawn :: "partition_state set" where
  "withdrawn = {PS_Offline, PS_RevalidationRequired, PS_Retired, PS_Unpartitioned}"

definition withheld :: "(partition_id \<Rightarrow> bool) \<Rightarrow> fabric_state \<Rightarrow> fabric_state \<Rightarrow> bool" where
  "withheld C s t \<longleftrightarrow>
     (\<forall>i. rel_option (\<lambda>r r'. pr_state r' = pr_state r \<or> pr_state r' \<in> withdrawn \<or> pr_state r' = PS_Active \<and> C i)
        (find_partition i s) (find_partition i t))"

lemma withheld_same: "fs_partitions t = fs_partitions s \<Longrightarrow> withheld C s t"
  by (auto simp: withheld_def intro!: option.rel_refl)

lemma withheld_refl [simp]: "withheld C s s"
  by (rule withheld_same) simp

lemma withheld_trans [trans]:
  assumes "withheld C s t" "withheld C t u"
  shows "withheld C s u"
  unfolding withheld_def
proof
  fix i
  let ?R = "\<lambda>r r'. pr_state r' = pr_state r \<or> pr_state r' \<in> withdrawn \<or> pr_state r' = PS_Active \<and> C i"
  have "rel_option ?R (find_partition i s) (find_partition i t)" "rel_option ?R (find_partition i t) (find_partition i u)"
    using assms by (simp_all add: withheld_def)
  then show "rel_option ?R (find_partition i s) (find_partition i u)"
    by (cases "find_partition i s"; cases "find_partition i t"; cases "find_partition i u") auto
qed

lemma withheld_single:
  assumes "\<And>j. j \<noteq> i \<Longrightarrow> find_partition j t = find_partition j s" "find_partition i s = None \<Longrightarrow> find_partition i t = None"
    "\<And>r. find_partition i s = Some r \<Longrightarrow> \<exists>r'. find_partition i t = Some r' \<and>
        (pr_state r' = pr_state r \<or> pr_state r' \<in> withdrawn \<or> pr_state r' = PS_Active \<and> C i)"
  shows "withheld C s t"
  unfolding withheld_def
proof
  fix j
  let ?R = "\<lambda>r r'. pr_state r' = pr_state r \<or> pr_state r' \<in> withdrawn \<or> pr_state r' = PS_Active \<and> C j"
  show "rel_option ?R (find_partition j s) (find_partition j t)"
  proof (cases "j = i")
    case True
    then show ?thesis using assms(2,3) by (cases "find_partition i s") auto
  next
    case False
    then show ?thesis using assms(1) by (simp add: option.rel_refl)
  qed
qed

lemma withheld_upd:
  "(\<And>r. pr_state (f r) = pr_state r \<or> pr_state (f r) \<in> withdrawn) \<Longrightarrow> withheld C s (upd_partition i f s)"
  by (rule withheld_single [of i]) (auto simp: apf_lookup)

lemma withheld_supersede: "withheld C s (supersede_partition_generation i s)"
  by (rule withheld_single [of i]) (auto simp: apf_lookup supersede_record_def)

lemma withheld_transition:
  assumes "to \<in> withdrawn \<or> to = PS_Active \<and> C i"
  shows "withheld C s (fst (transition_partition i to s))"
proof (rule withheld_single [of i])
  show "find_partition i (fst (transition_partition i to s)) = None" if "find_partition i s = None"
    using that by (simp add: transition_partition_def)
  show "\<exists>r'. find_partition i (fst (transition_partition i to s)) = Some r' \<and>
      (pr_state r' = pr_state r \<or> pr_state r' \<in> withdrawn \<or> pr_state r' = PS_Active \<and> C i)" if "find_partition i s = Some r" for r
    using transition_record [OF that, of to] assms by fastforce
qed simp

lemma withheld_loop:
  assumes "\<And>k p. P p \<Longrightarrow> withheld C (fst p) (fst (body k p)) \<and> P (body k p)" "P p"
  shows "withheld C (fst p) (fst (for_keys ks body p))"
  using assms(2)
proof (induction ks arbitrary: p)
  case (Cons k ks)
  show ?case using withheld_trans assms(1) [OF Cons.prems] Cons.IH by (metis for_keys.simps(2))
qed simp

lemma in_withdrawn [simp]:
  "PS_Offline \<in> withdrawn" "PS_RevalidationRequired \<in> withdrawn" "PS_Retired \<in> withdrawn" "PS_Unpartitioned \<in> withdrawn"
  by (simp_all add: withdrawn_def)

lemma withheld_missing: "withheld C (fst c) (fst (reconcile_missing acc now_ms i r c))"
proof -
  obtain s report claimed where c: "c = (s, report, claimed)" by (cases c)
  obtain s1 report1 where r1: "reconcile_release acc i r (s, report) = (s1, report1)" by fastforce
  have "fs_partitions s1 = fs_partitions (upd_partition i (\<lambda>r. r\<lparr>pr_held_bucket := None\<rparr>) s)"
    using arg_cong [OF r1, of "\<lambda>p. fs_partitions (fst p)"]
    by (auto simp: reconcile_release_def Let_def case_prod_beta split: option.splits sum.splits)
  moreover have "withheld C s (upd_partition i (\<lambda>r. r\<lparr>pr_held_bucket := None\<rparr>) s)" by (rule withheld_upd) simp
  ultimately have "withheld C s s1" by (simp add: withheld_def)
  also have "withheld C s1 (supersede_partition_generation i s1)" by (rule withheld_supersede)
  finally have s2: "withheld C s (upd_partition i f (supersede_partition_generation i s1))" if "\<And>r. pr_state (f r) = PS_Retired" for f
    by (rule withheld_trans) (rule withheld_upd, simp add: that)
  have "fs_partitions (fst (for_keys ks (reconcile_orphan acc i) (u, rep))) = fs_partitions u" for ks u rep
    using for_keys_frame [of "\<lambda>p. fs_partitions (fst p)" "reconcile_orphan acc i" ks "(u, rep)"]
    by (simp add: reconcile_orphan_def Let_def case_prod_beta)
  then have "withheld C s (fst (for_keys ks (reconcile_orphan acc i) (upd_partition i f (supersede_partition_generation i s1), rep)))"
    if "\<And>r. pr_state (f r) = PS_Retired" for f ks rep
    by (rule withheld_trans [OF s2 [OF that] withheld_same])
  then show ?thesis by (simp add: reconcile_missing_def c r1 Let_def case_prod_beta)
qed

lemma withheld_stamp: "withheld C s (stamp_partition_evidence i a t p src s)"
  unfolding stamp_partition_evidence_def Let_def
  by (rule withheld_trans [OF withheld_same withheld_upd]) (simp_all add: stamp_record_def)

lemma withheld_matched:
  assumes "\<not> pp_allow_external_adoption (fs_policy (fst p))"
  shows "withheld C (fst p) (fst (reconcile_matched acc a observed now_ms i r n p))"
proof -
  obtain s report where p: "p = (s, report)" by fastforce
  let ?s1 = "stamp_partition_evidence i a now_ms (es_provenance (bl_evidence observed)) (es_source (bl_evidence observed)) s"
  have pol: "fs_policy ?s1 = fs_policy s"
    by (simp add: stamp_partition_evidence_def Let_def advance_evidence_def split: sum.split)
  have s1: "withheld C s ?s1" by (rule withheld_stamp)
  have "withheld C s (fst (transition_partition i PS_RevalidationRequired ?s1))"
    by (rule withheld_trans [OF s1 withheld_transition]) simp
  with s1 show ?thesis using assms by (simp add: reconcile_matched_def reconcile_adopt_def p pol Let_def)
qed

lemma withheld_partition:
  assumes "\<not> pp_allow_external_adoption (fs_policy (fst c))"
  shows "withheld C (fst c) (fst (reconcile_partition acc a observed now_ms i c))"
proof -
  obtain s report claimed where c: "c = (s, report, claimed)" by (cases c)
  have "withheld C s (fst (reconcile_matched acc a observed now_ms i r n (s, report)))"
    "withheld C s (fst (reconcile_changed acc i r n (s, report)))"
    "withheld C s (fst (reconcile_missing acc now_ms i r (s, report, claimed)))"
    "withheld C s (fst (reconcile_uncorrelated acc a i r (s, report, claimed)))" for r n
    using withheld_matched [of "(s, report)"] withheld_missing [of C "(s, report, claimed)"] assms
    by (simp_all add: c reconcile_changed_def reconcile_uncorrelated_def Let_def withheld_transition)
  then show ?thesis
    by (simp add: reconcile_partition_def c Let_def case_prod_beta split: option.split)
qed

text \<open>A creation or reconfiguration whose outcome was unknown and whose result the layout shows.\<close>

definition creation_confirmed :: "accelerator_id \<Rightarrow> backend_layout \<Rightarrow> fabric_state \<Rightarrow> partition_id \<Rightarrow> bool" where
  "creation_confirmed acc observed s i \<longleftrightarrow>
     (\<exists>t\<in>set (om_values (fs_attempts s)). at_accelerator t = acc \<and> at_state t = AT_OutcomeUnknown \<and>
        at_kind t \<noteq> AK_DestroyPartition \<and> i \<in> set (at_partitions t) \<and>
        layout_satisfies observed (map spec_of (at_desired t)))"

lemma withheld_resolve:
  assumes "target = PS_Retired \<or> target = PS_Active \<and> C i"
  shows "withheld C (fst p) (fst (resolve_partition acc target i p))"
proof -
  obtain s report where p: "p = (s, report)" by fastforce
  have moved: "withheld C s (fst (transition_partition i target s))"
    by (rule withheld_transition) (use assms in auto)
  have "withheld C s (supersede_partition_generation i (fst (transition_partition i target s)))"
    by (rule withheld_trans [OF moved withheld_supersede])
  with moved show ?thesis
    by (auto simp: resolve_partition_def p Let_def split: option.split sum.split)
qed

lemma withheld_present:
  assumes "\<And>i. i \<in> set is \<Longrightarrow> target = PS_Retired \<or> target = PS_Active \<and> C i"
  shows "withheld C (fst c) (fst (resolve_present acc a observed target is ds c))"
  using assms
proof (induction "is" arbitrary: ds c)
  case (Cons i "is")
  obtain s report claimed where c: "c = (s, report, claimed)" by (cases c)
  note IH = Cons.IH [OF Cons.prems]
  show ?case
  proof (cases "find_partition i s")
    case None
    then show ?thesis using IH [of c "tl ds"] by (simp add: c)
  next
    case (Some r)
    obtain claimed1 adopt where ca: "(case ds of [] \<Rightarrow> (claimed, \<lambda>r. r) | d # _ \<Rightarrow> claim_native a (Some observed) d claimed) = (claimed1, adopt)"
      by fastforce
    have "pr_state (adopt r) = pr_state r" for r
      using ca by (auto simp: claim_native_def adopt_native_def split: list.splits option.splits)
    then have "withheld C s (upd_partition i adopt s)" by (intro withheld_upd) simp
    also obtain s1 report1 where s1: "resolve_partition acc target i (upd_partition i adopt s, report) = (s1, report1)" by fastforce
    have "withheld C (upd_partition i adopt s) s1"
      using withheld_resolve [of target C i "(upd_partition i adopt s, report)" acc] s1 Cons.prems [of i] by simp
    also have "withheld C s1 (fst (resolve_present acc a observed target is (tl ds) (s1, report1, claimed1)))"
      using IH [of "(s1, report1, claimed1)" "tl ds"] by simp
    finally show ?thesis using Some ca s1 by (simp add: c)
  qed
qed simp

lemma withheld_absent: "withheld C s (resolve_absent i s)"
proof -
  have moved: "withheld C s (fst (transition_partition i PS_Unpartitioned s))" by (rule withheld_transition) simp
  have "withheld C s (upd_partition i (\<lambda>r. r\<lparr>pr_native_identity := native_none\<rparr>)
      (supersede_partition_generation i (fst (transition_partition i PS_Unpartitioned s))))"
    by (rule withheld_trans [OF withheld_trans [OF moved withheld_supersede] withheld_upd]) simp
  with moved show ?thesis by (simp add: resolve_absent_def split: option.split sum.split)
qed

lemma withheld_attempt:
  assumes "\<And>t i. find_attempt k (fst c) = Some t \<Longrightarrow> at_accelerator t = acc \<Longrightarrow> at_state t = AT_OutcomeUnknown \<Longrightarrow>
      at_kind t \<noteq> AK_DestroyPartition \<Longrightarrow> i \<in> set (at_partitions t) \<Longrightarrow>
      layout_satisfies observed (map spec_of (at_desired t)) \<Longrightarrow> C i"
  shows "withheld C (fst c) (fst (reconcile_attempt acc a observed now_ms k c))"
proof -
  obtain s report claimed where c: "c = (s, report, claimed)" by (cases c)
  have "withheld C s (fst (reconcile_attempt acc a observed now_ms k (s, report, claimed)))"
    if t: "find_attempt k s = Some t" "at_accelerator t = acc" "at_state t = AT_OutcomeUnknown" for t
  proof -
    let ?s1 = "settle_attempt k AT_Reconciled now_ms s"
    have s1: "withheld C s ?s1" by (rule withheld_same) (simp add: settle_attempt_def)
    obtain s2 report2 claimed2 where p: "resolve_present acc a observed (attempt_target t) (at_partitions t) (at_desired t)
        (?s1, report, claimed) = (s2, report2, claimed2)" by (metis prod_cases3)
    show ?thesis
    proof (cases "attempt_satisfied s observed t")
      case True
      have "withheld C (fst (?s1, report, claimed)) (fst (resolve_present acc a observed (attempt_target t) (at_partitions t) (at_desired t)
          (?s1, report, claimed)))"
        by (rule withheld_present) (use True assms t in \<open>auto simp: c attempt_target_def attempt_satisfied_def\<close>)
      then have "withheld C s s2" using s1 p by (auto intro: withheld_trans)
      then show ?thesis
        using t True by (simp add: reconcile_attempt_def p Let_def)
          (erule withheld_trans, rule withheld_same, simp add: resolve_end_around)
    next
      case False
      have "withheld C s (for_keys (at_partitions t) resolve_absent ?s1)"
        using s1 by (rule for_keys_invariant) (auto intro: withheld_trans withheld_absent)
      then show ?thesis
        using t False by (simp add: reconcile_attempt_def Let_def)
          (erule withheld_trans, rule withheld_same, simp add: resolve_end_around)
    qed
  qed
  then show ?thesis by (auto simp: reconcile_attempt_def c split: option.split)
qed

lemma decide_undecided:
  assumes "at_state (decide_attempt acc now_ms t) = AT_OutcomeUnknown"
  shows "decide_attempt acc now_ms t = t"
proof (cases "at_accelerator t = acc \<and> at_state t = AT_OutcomeUnknown")
  case True
  then have "at_state (decide_attempt acc now_ms t) = AT_Reconciled" by (simp add: decide_attempt_def)
  with assms show ?thesis by simp
next
  case False
  then show ?thesis unfolding decide_attempt_def by (rule if_not_P)
qed

lemma undecided_stays:
  assumes "find_attempt j (fst (reconcile_attempt acc a observed now_ms k c)) = Some t" "at_accelerator t = acc"
    "at_state t = AT_OutcomeUnknown"
  shows "find_attempt j (fst c) = Some t"
proof (cases "j = k")
  case True
  then obtain u where u: "find_attempt k (fst c) = Some u" "t = decide_attempt acc now_ms u"
    using assms(1) by (auto simp: reconcile_attempt_find)
  then have "t = u" using assms(3) decide_undecided by simp
  then show ?thesis using u(1) True by simp
qed (use assms(1) in \<open>simp add: reconcile_attempt_find\<close>)

lemma withheld_attempt_pass:
  assumes "fs_attempts (fst c) = fs_attempts s"
  shows "withheld (creation_confirmed acc observed s) (fst c) (fst (attempt_pass acc a observed now_ms c))"
proof -
  let ?P = "\<lambda>c. \<forall>j t. find_attempt j (fst c) = Some t \<longrightarrow> at_accelerator t = acc \<longrightarrow> at_state t = AT_OutcomeUnknown \<longrightarrow>
      find_attempt j s = Some t"
  have step: "withheld (creation_confirmed acc observed s) (fst p) (fst (reconcile_attempt acc a observed now_ms k p)) \<and>
      ?P (reconcile_attempt acc a observed now_ms k p)" if "?P p" for k p
  proof
    show "withheld (creation_confirmed acc observed s) (fst p) (fst (reconcile_attempt acc a observed now_ms k p))"
      by (rule withheld_attempt) (use that in \<open>auto simp: creation_confirmed_def dest: om_find_in_values\<close>)
    show "?P (reconcile_attempt acc a observed now_ms k p)"
      by (intro allI impI, drule (2) undecided_stays) (use that in simp)
  qed
  show ?thesis unfolding attempt_pass_def by (rule withheld_loop [of ?P, OF step]) (simp_all add: assms)
qed

lemma withheld_partition_pass:
  assumes "\<not> pp_allow_external_adoption (fs_policy s)"
  shows "withheld C s (fst (partition_pass acc a observed report s))"
proof -
  let ?P = "\<lambda>c :: claims. surroundings (fst c) = surroundings s"
  have "withheld C (fst c) (fst (reconcile_partition acc a observed (fs_now s) k c)) \<and>
      ?P (reconcile_partition acc a observed (fs_now s) k c)" if "?P c" for k c
  proof
    show "?P (reconcile_partition acc a observed (fs_now s) k c)" using that by (simp add: reconcile_partition_around)
    show "withheld C (fst c) (fst (reconcile_partition acc a observed (fs_now s) k c))"
      by (rule withheld_partition) (use that assms in \<open>simp add: surroundings_def\<close>)
  qed
  then show ?thesis
    using withheld_loop [of ?P C "reconcile_partition acc a observed (fs_now s)" "(s, device_findings acc a observed report, [])"]
    by (simp add: partition_pass_def)
qed

text \<open>The records the last pass stores.\<close>

lemma reconcile_unexpected_records:
  assumes "\<not> pp_allow_external_adoption (fs_policy (fst p))"
    "find_partition i (fst (reconcile_unexpected acc a observed now_ms claimed ns p)) = Some r"
  shows "find_partition i (fst p) = Some r \<or>
    pr_state r = PS_RevalidationRequired \<and> pr_externally_observed r \<and> pr_accelerator r = acc"
  using assms
proof (induction ns arbitrary: p)
  case (Cons n ns)
  obtain s report where p: "p = (s, report)" by fastforce
  obtain al ir where al: "allocate (fs_ids s) = (al, ir)" by fastforce
  consider "bn_native_id n \<in> set claimed" | e where "bn_native_id n \<notin> set claimed" "ir = Inl e"
    | k where "bn_native_id n \<notin> set claimed" "ir = Inr k" by (cases ir) auto
  then show ?case
  proof cases
    case 1
    then show ?thesis using Cons.IH [of p] Cons.prems by (simp add: p)
  next
    case 2
    then show ?thesis using Cons.prems al by (simp add: p Let_def)
  next
    case k: (3 k)
    let ?rep = "report\<lparr>rr_unexpected := rr_unexpected report + 1, rr_layout_changed := True\<rparr>"
    let ?q = "record_unexplained acc a observed now_ms n k (s\<lparr>fs_ids := al\<rparr>, ?rep)"
    have rest: "reconcile_unexpected acc a observed now_ms claimed (n # ns) p = reconcile_unexpected acc a observed now_ms claimed ns ?q"
      using k al by (simp add: p Let_def)
    show ?thesis
    proof (rule record_unexplained_shape [of acc a observed now_ms n k "s\<lparr>fs_ids := al\<rparr>" ?rep])
      fix L r'
      assume q: "fst ?q = (advance_evidence (s\<lparr>fs_ids := al, fs_ledgers := L\<rparr>))\<lparr>fs_partitions := om_set k r' (fs_partitions (s\<lparr>fs_ids := al\<rparr>))\<rparr>"
        and r': "pr_accelerator r' = acc" "pr_externally_observed r'"
          "pr_state r' = PS_RevalidationRequired \<or> pp_allow_external_adoption (fs_policy (s\<lparr>fs_ids := al\<rparr>)) \<and> pr_state r' = PS_Active"
      have "surroundings (fst ?q) = surroundings s" by (simp add: q)
      then have pol: "fs_policy (fst ?q) = fs_policy s" by (simp add: surroundings_def)
      have "find_partition i (fst ?q) = Some r \<or>
          pr_state r = PS_RevalidationRequired \<and> pr_externally_observed r \<and> pr_accelerator r = acc"
        by (rule Cons.IH) (use Cons.prems pol rest in \<open>simp_all add: p\<close>)
      then show ?thesis using r' Cons.prems(1) by (auto simp: q apf_lookup p split: if_splits)
    qed
  qed
qed simp

lemma withheld_gone: "withheld C (fst p) (fst (reconcile_gone acc i p))"
  by (cases p) (simp add: reconcile_gone_def Let_def withheld_transition split: option.split)

lemma withheld_find:
  assumes "withheld C s t" "find_partition i t = Some r"
  obtains r0 where "find_partition i s = Some r0"
    "pr_state r = pr_state r0 \<or> pr_state r \<in> withdrawn \<or> pr_state r = PS_Active \<and> C i"
proof -
  have "rel_option (\<lambda>r r'. pr_state r' = pr_state r \<or> pr_state r' \<in> withdrawn \<or> pr_state r' = PS_Active \<and> C i)
      (find_partition i s) (Some r)"
    using assms(1) [unfolded withheld_def, rule_format, of i] assms(2) by simp
  then show thesis using that by (cases "find_partition i s") auto
qed

lemma reconcile_present_authority:
  assumes "\<not> pp_allow_external_adoption (fs_policy s)"
    "find_partition i (fst (reconcile_present acc a observed report s)) = Some r"
  shows "pr_state r = PS_RevalidationRequired \<and> pr_externally_observed r \<and> pr_accelerator r = acc \<or>
    (\<exists>r0. find_partition i s = Some r0 \<and>
       (pr_state r = pr_state r0 \<or> pr_state r \<in> withdrawn \<or> pr_state r = PS_Active \<and> creation_confirmed acc observed s i))"
proof (rule reconcile_present_passes [of acc a observed report s])
  fix s1 report1 claimed1 s2 report2 claimed2 s3 report3
  assume 1: "partition_pass acc a observed report s = (s1, report1, claimed1)"
    and 2: "attempt_pass acc a observed (fs_now s) (s1, report1, claimed1) = (s2, report2, claimed2)"
    and 3: "reconcile_unexpected acc a observed (fs_now s) claimed2 (bl_partitions observed) (s2, report2) = (s3, report3)"
    and eq: "reconcile_present acc a observed report s =
       (record_event EX_ReconciledMatch (bump_state_generation
          (upd_accelerator acc (\<lambda>a. a\<lparr>ac_evidence := refreshed_evidence a observed (fs_now s) s3\<rparr>) s3)), Inr report3)"
  let ?C = "creation_confirmed acc observed s"
  have s1: "withheld ?C s s1" using withheld_partition_pass [OF assms(1), of ?C acc a observed report] 1 by simp
  have "fs_attempts s1 = fs_attempts s" using partition_pass_around(2) [of acc a observed report s] 1 by simp
  then have "withheld ?C s1 s2"
    using withheld_attempt_pass [of "(s1, report1, claimed1)" s acc observed a "fs_now s"] 2 by simp
  with s1 have s2: "withheld ?C s s2" by (rule withheld_trans)
  have "surroundings s2 = surroundings s"
    using partition_pass_around(1) [of acc a observed report s] attempt_pass_around [of acc a observed "fs_now s" "(s1, report1, claimed1)"] 1 2 by simp
  then have "\<not> pp_allow_external_adoption (fs_policy s2)" using assms(1) by (simp add: surroundings_def)
  moreover have "find_partition i s3 = Some r" using assms(2) by (simp add: eq)
  ultimately have "find_partition i s2 = Some r \<or>
      pr_state r = PS_RevalidationRequired \<and> pr_externally_observed r \<and> pr_accelerator r = acc"
    using reconcile_unexpected_records [of "(s2, report2)" i acc a observed "fs_now s" claimed2 "bl_partitions observed" r] 3 by simp
  then show ?thesis using withheld_find [OF s2] by metis
qed

lemma reconcile_authority:
  assumes "reconcile acc observed s = (t, Inr report)" "\<not> pp_allow_external_adoption (fs_policy s)"
    "find_partition i t = Some r"
  shows "pr_state r = PS_RevalidationRequired \<and> pr_externally_observed r \<and> pr_accelerator r = acc \<or>
    (\<exists>r0. find_partition i s = Some r0 \<and>
       (pr_state r = pr_state r0 \<or> pr_state r \<in> withdrawn \<or> pr_state r = PS_Active \<and> creation_confirmed acc observed s i))"
proof (cases rule: reconcile_cases [of acc observed s])
  case (gone al k a)
  let ?s = "s\<lparr>fs_ids := al\<rparr>" and ?C = "\<lambda>_. False"
  let ?p = "for_keys (om_keys (fs_partitions s)) (reconcile_gone acc) (?s, report_init k acc a observed)"
  have w: "withheld ?C ?s (fst ?p)"
    using withheld_loop [of "\<lambda>_. True" ?C "reconcile_gone acc" "(?s, report_init k acc a observed)"] withheld_gone by simp
  have "t = fst (reconcile_absent acc (report_init k acc a observed) ?s)" using arg_cong [OF gone(5), of fst] assms(1) by simp
  then have "find_partition i (fst ?p) = Some r" using assms(3) by (simp add: reconcile_absent_def Let_def case_prod_beta)
  then show ?thesis using withheld_find [OF w] by auto
next
  case (present al k a report0 f)
  let ?s = "s\<lparr>fs_ids := al, fs_accelerators := om_modify acc f (fs_accelerators s)\<rparr>"
  have "t = fst (reconcile_present acc (f a) observed report0 ?s)" using arg_cong [OF present(6), of fst] assms(1) by simp
  then show ?thesis
    using reconcile_present_authority [of ?s i acc "f a" observed report0 r] assms(2,3) by (simp add: creation_confirmed_def)
qed (use assms(1) in simp_all)

section \<open>Physical partitions are not lost\<close>

lemma other_partition:
  assumes "i \<noteq> k"
  shows "find_partition i (supersede_partition_generation k s) = find_partition i s"
    "find_partition i (upd_partition k f s) = find_partition i s"
    "find_partition i (stamp_partition_evidence k a t p src s) = find_partition i s"
    "find_partition i (fst (transition_partition k to s)) = find_partition i s"
  using assms by (simp_all add: apf_lookup stamp_partition_evidence_def Let_def)

lemma reconcile_orphans_partitions:
  "fs_partitions (fst (for_keys ks (reconcile_orphan acc i) p)) = fs_partitions (fst p)"
  by (rule for_keys_frame) (simp add: reconcile_orphan_def Let_def case_prod_beta)

lemma reconcile_release_partitions:
  "fs_partitions (fst (reconcile_release acc i r p)) = om_modify i (\<lambda>r. r\<lparr>pr_held_bucket := None\<rparr>) (fs_partitions (fst p))"
  by (simp add: reconcile_release_def Let_def case_prod_beta split: option.split sum.split)

lemma reconcile_partition_other:
  assumes "i \<noteq> k"
  shows "find_partition i (fst (reconcile_partition acc a observed now_ms k c)) = find_partition i (fst c)"
proof -
  have "find_partition i (supersede_partition_generation k (fst (reconcile_release acc k r p))) = find_partition i (fst p)" for r p
    using other_partition(1) [OF assms] assms by (simp add: reconcile_release_partitions apf_lookup)
  then show ?thesis
    using assms
    by (simp add: reconcile_partition_def reconcile_missing_def reconcile_uncorrelated_def reconcile_matched_def
        reconcile_adopt_def reconcile_changed_def reconcile_orphans_partitions other_partition apf_lookup Let_def case_prod_beta
        split: option.split sum.split)
qed

text \<open>A record whose physical partition was observed is only withdrawn or adopted.\<close>

definition still_there :: "partition_record \<Rightarrow> partition_record \<Rightarrow> bool" where
  "still_there r r' \<longleftrightarrow> pr_native_identity r' = pr_native_identity r \<and> pr_accelerator r' = pr_accelerator r \<and>
     (pr_state r' = pr_state r \<or> pr_state r' \<in> {PS_RevalidationRequired, PS_Active})"

lemma still_there_transition:
  assumes "find_partition k s = Some r'" "still_there r r'" "to \<in> {PS_RevalidationRequired, PS_Active}"
  shows "\<exists>r''. find_partition k (fst (transition_partition k to s)) = Some r'' \<and> still_there r r''"
  using transition_record [OF assms(1), of to] assms(2,3) by (auto simp: still_there_def)

lemma still_there_matched:
  assumes "find_partition k (fst p) = Some r"
  shows "\<exists>r'. find_partition k (fst (reconcile_matched acc a observed now_ms k r n p)) = Some r' \<and> still_there r r'"
proof -
  obtain s report where p: "p = (s, report)" by fastforce
  let ?s1 = "stamp_partition_evidence k a now_ms (es_provenance (bl_evidence observed)) (es_source (bl_evidence observed)) s"
  obtain r1 where r1: "find_partition k ?s1 = Some r1" "still_there r r1"
    using assms by (auto simp: p stamp_partition_evidence_def Let_def apf_lookup stamp_record_def still_there_def)
  have moved: "\<exists>r'. find_partition k (fst (transition_partition k to ?s1)) = Some r' \<and> still_there r r'"
    if "to \<in> {PS_RevalidationRequired, PS_Active}" for to
    by (rule still_there_transition [OF r1 that])
  moreover have "\<exists>r'. find_partition k (upd_partition k (\<lambda>r. r\<lparr>pr_externally_observed := True\<rparr>) (fst (transition_partition k PS_Active ?s1))) = Some r' \<and>
      still_there r r'"
    using moved [of PS_Active] by (auto simp: apf_lookup still_there_def)
  ultimately show ?thesis
    using r1 by (simp add: reconcile_matched_def reconcile_adopt_def p Let_def split: sum.split)
qed

lemma reconcile_partition_observed:
  assumes "find_partition k (fst c) = Some r" "find_native observed (ni_native_id (pr_native_identity r)) = Some n"
    "layout_relevant acc r"
  shows "(\<exists>r'. find_partition k (fst (reconcile_partition acc a observed now_ms k c)) = Some r' \<and> still_there r r') \<and>
    snd (snd (reconcile_partition acc a observed now_ms k c)) = snd (snd c) @ [bn_native_id n]"
proof -
  obtain s report claimed where c: "c = (s, report, claimed)" by (cases c)
  have ne: "ni_native_id (pr_native_identity r) \<noteq> []" using assms(2) by (auto simp: find_native_def find_Some_iff)
  have rc: "still_there r r" by (simp add: still_there_def)
  have "\<exists>r'. find_partition k (fst (reconcile_changed acc k r n (s, report))) = Some r' \<and> still_there r r'"
    using still_there_transition [of k s r r PS_RevalidationRequired] assms(1) rc by (simp add: c reconcile_changed_def Let_def)
  moreover have "\<exists>r'. find_partition k (fst (reconcile_matched acc a observed now_ms k r n (s, report))) = Some r' \<and> still_there r r'"
    using still_there_matched [of k "(s, report)" r] assms(1) by (simp add: c)
  ultimately show ?thesis
    using assms ne by (simp add: reconcile_partition_def c Let_def case_prod_beta)
qed

lemma relevant_stays: "layout_relevant acc r \<Longrightarrow> still_there r r' \<Longrightarrow> layout_relevant acc r'"
  by (auto simp: layout_relevant_def still_there_def is_terminal_state_def)

lemma reconcile_partition_claims:
  "snd (snd (reconcile_partition acc a observed now_ms k c)) = snd (snd c) \<or>
   (\<exists>r n. find_partition k (fst c) = Some r \<and> layout_relevant acc r \<and>
      find_native observed (ni_native_id (pr_native_identity r)) = Some n \<and>
      snd (snd (reconcile_partition acc a observed now_ms k c)) = snd (snd c) @ [bn_native_id n])"
  by (simp add: reconcile_partition_def reconcile_missing_def reconcile_uncorrelated_def Let_def case_prod_beta split: option.split)

text \<open>Every claimed identity belongs to a live record.\<close>

definition represented :: "accelerator_id \<Rightarrow> backend_layout \<Rightarrow> fabric_state \<Rightarrow> string \<Rightarrow> bool" where
  "represented acc observed s x \<longleftrightarrow>
     (\<exists>i r. find_partition i s = Some r \<and> layout_relevant acc r \<and> ni_native_id (pr_native_identity r) = x \<and>
        find_native observed x \<noteq> None)"

lemma represented_step:
  assumes "represented acc observed (fst c) x"
  shows "represented acc observed (fst (reconcile_partition acc a observed now_ms k c)) x"
proof -
  obtain i r n where r: "find_partition i (fst c) = Some r" "layout_relevant acc r" "ni_native_id (pr_native_identity r) = x"
    "find_native observed x = Some n" using assms by (auto simp: represented_def)
  show ?thesis
  proof (cases "i = k")
    case True
    then obtain r' where "find_partition k (fst (reconcile_partition acc a observed now_ms k c)) = Some r'" "still_there r r'"
      using reconcile_partition_observed [of k c r observed n acc] r by auto
    moreover from this have "layout_relevant acc r'" "ni_native_id (pr_native_identity r') = x"
      using relevant_stays [OF r(2)] r(3) by (simp_all add: still_there_def)
    ultimately show ?thesis unfolding represented_def using r(4) by blast
  next
    case False
    have "find_partition i (fst (reconcile_partition acc a observed now_ms k c)) = Some r"
      using reconcile_partition_other [OF False] r(1) by simp
    then show ?thesis unfolding represented_def using r by blast
  qed
qed

lemma partition_pass_claims:
  assumes "partition_pass acc a observed report s = (t, report', claimed)" "x \<in> set claimed"
  shows "represented acc observed t x"
proof -
  let ?P = "\<lambda>c :: claims. \<forall>x\<in>set (snd (snd c)). represented acc observed (fst c) x"
  have "?P (partition_pass acc a observed report s)"
    unfolding partition_pass_def
  proof (rule for_keys_invariant)
    fix k and c :: claims
    assume P: "?P c"
    let ?c = "reconcile_partition acc a observed (fs_now s) k c"
    show "?P ?c"
      using reconcile_partition_claims [of acc a observed "fs_now s" k c]
    proof
      assume "\<exists>r n. find_partition k (fst c) = Some r \<and> layout_relevant acc r \<and>
          find_native observed (ni_native_id (pr_native_identity r)) = Some n \<and> snd (snd ?c) = snd (snd c) @ [bn_native_id n]"
      then obtain r n where r: "find_partition k (fst c) = Some r" "layout_relevant acc r"
        "find_native observed (ni_native_id (pr_native_identity r)) = Some n" "snd (snd ?c) = snd (snd c) @ [bn_native_id n]" by blast
      then have "bn_native_id n = ni_native_id (pr_native_identity r)" by (auto simp: find_native_def find_Some_iff)
      then have "represented acc observed (fst c) (bn_native_id n)" using r by (auto simp: represented_def)
      then show ?thesis using P represented_step r(4) by auto
    qed (use P represented_step in simp)
  qed simp
  then show ?thesis using assms by simp
qed

lemma attempt_pass_idle:
  assumes "\<And>j t. find_attempt j (fst c) = Some t \<Longrightarrow> at_accelerator t = acc \<Longrightarrow> at_state t \<noteq> AT_OutcomeUnknown"
  shows "attempt_pass acc a observed now_ms c = c"
proof -
  have "reconcile_attempt acc a observed now_ms k c = c" for k
    using assms [of k] by (auto simp: reconcile_attempt_def Let_def case_prod_beta split: option.split)
  then show ?thesis unfolding attempt_pass_def
    by (intro for_keys_invariant [where P = "\<lambda>p. p = c"]) simp_all
qed

lemma record_unexplained_partitions:
  obtains r where "fs_partitions (fst (record_unexplained acc a observed now_ms n i (s, report))) = om_set i r (fs_partitions s)"
    "layout_relevant acc r" "ni_native_id (pr_native_identity r) = bn_native_id n"
  by (rule record_unexplained_shape [of acc a observed now_ms n i s report])
    (rule that, auto simp: layout_relevant_def is_terminal_state_def)

lemma reconcile_unexpected_old:
  assumes "ids_fresh (fst p)" "find_partition i (fst p) = Some r"
  shows "find_partition i (fst (reconcile_unexpected acc a observed now_ms claimed ns p)) = Some r"
  using assms
proof (induction ns arbitrary: p)
  case (Cons n ns)
  obtain s report where p: "p = (s, report)" by fastforce
  obtain al ir where al: "allocate (fs_ids s) = (al, ir)" by fastforce
  consider "bn_native_id n \<in> set claimed" | e where "bn_native_id n \<notin> set claimed" "ir = Inl e"
    | k where "bn_native_id n \<notin> set claimed" "ir = Inr k" by (cases ir) auto
  then show ?case
  proof cases
    case (3 k)
    let ?rep = "report\<lparr>rr_unexpected := rr_unexpected report + 1, rr_layout_changed := True\<rparr>"
    let ?q = "record_unexplained acc a observed now_ms n k (s\<lparr>fs_ids := al\<rparr>, ?rep)"
    have fresh: "ids_fresh (fst ?q)"
      using settles_fresh [OF record_unexplained_settles [of s al k]] al 3 Cons.prems(1) by (simp add: p)
    have "k \<notin> used_ids s" using al 3 Cons.prems(1) by (auto simp: p allocate_Inr ids_fresh_def)
    then have "k \<noteq> i" using Cons.prems(2) by (auto simp: p used_ids_def dest: om_find_in_keys)
    moreover obtain r' where "fs_partitions (fst ?q) = om_set k r' (fs_partitions (s\<lparr>fs_ids := al\<rparr>))"
      by (rule record_unexplained_partitions)
    ultimately have "find_partition i (fst ?q) = Some r" using Cons.prems(2) by (simp add: p apf_lookup)
    then show ?thesis using Cons.IH [OF fresh] 3 al by (simp add: p Let_def)
  qed (use Cons al in \<open>simp_all add: p Let_def\<close>)
qed simp

definition recorded :: "accelerator_id \<Rightarrow> fabric_state \<Rightarrow> string \<Rightarrow> bool" where
  "recorded acc s x \<longleftrightarrow>
     (\<exists>i r. find_partition i s = Some r \<and> layout_relevant acc r \<and> ni_native_id (pr_native_identity r) = x)"

lemma reconcile_unexpected_complete:
  assumes "ids_fresh (fst p)" "n \<in> set ns" "bn_native_id n \<notin> set claimed"
    "ida_next (fs_ids (fst (reconcile_unexpected acc a observed now_ms claimed ns p))) \<noteq> UINT64_MAX"
  shows "recorded acc (fst (reconcile_unexpected acc a observed now_ms claimed ns p)) (bn_native_id n)"
  using assms(1,2,4)
proof (induction ns arbitrary: p)
  case (Cons m ns)
  obtain s report where p: "p = (s, report)" by fastforce
  obtain al ir where al: "allocate (fs_ids s) = (al, ir)" by fastforce
  consider "bn_native_id m \<in> set claimed" | e where "bn_native_id m \<notin> set claimed" "ir = Inl e"
    | k where "bn_native_id m \<notin> set claimed" "ir = Inr k" by (cases ir) auto
  then show ?case
  proof cases
    case 1
    then show ?thesis using Cons assms(3) by (auto simp: p)
  next
    case 2
    then show ?thesis using Cons.prems(3) al by (simp add: p Let_def allocate_Inl)
  next
    case (3 k)
    let ?rep = "report\<lparr>rr_unexpected := rr_unexpected report + 1, rr_layout_changed := True\<rparr>"
    let ?q = "record_unexplained acc a observed now_ms m k (s\<lparr>fs_ids := al\<rparr>, ?rep)"
    have rest: "reconcile_unexpected acc a observed now_ms claimed (m # ns) p = reconcile_unexpected acc a observed now_ms claimed ns ?q"
      using 3 al by (simp add: p Let_def)
    have fresh: "ids_fresh (fst ?q)"
      using settles_fresh [OF record_unexplained_settles [of s al k]] al 3 Cons.prems(1) by (simp add: p)
    show ?thesis
    proof (cases "n = m")
      case True
      obtain r where r: "fs_partitions (fst ?q) = om_set k r (fs_partitions (s\<lparr>fs_ids := al\<rparr>))" "layout_relevant acc r"
        "ni_native_id (pr_native_identity r) = bn_native_id m" by (rule record_unexplained_partitions)
      then have "find_partition k (fst (reconcile_unexpected acc a observed now_ms claimed ns ?q)) = Some r"
        by (intro reconcile_unexpected_old [OF fresh]) (simp add: apf_lookup)
      then show ?thesis unfolding recorded_def rest using r(2,3) True by blast
    next
      case False
      then show ?thesis using Cons.IH [OF fresh] Cons.prems(2,3) by (simp add: rest)
    qed
  qed
qed simp

lemma reconcile_present_complete:
  assumes "ids_fresh s" "n \<in> set (bl_partitions observed)"
    "\<And>j t. find_attempt j s = Some t \<Longrightarrow> at_accelerator t = acc \<Longrightarrow> at_state t \<noteq> AT_OutcomeUnknown"
    "ida_next (fs_ids (fst (reconcile_present acc a observed report s))) \<noteq> UINT64_MAX"
  shows "recorded acc (fst (reconcile_present acc a observed report s)) (bn_native_id n)"
proof (rule reconcile_present_passes [of acc a observed report s])
  fix s1 report1 claimed1 s2 report2 claimed2 s3 report3
  assume 1: "partition_pass acc a observed report s = (s1, report1, claimed1)"
    and 2: "attempt_pass acc a observed (fs_now s) (s1, report1, claimed1) = (s2, report2, claimed2)"
    and 3: "reconcile_unexpected acc a observed (fs_now s) claimed2 (bl_partitions observed) (s2, report2) = (s3, report3)"
    and eq: "reconcile_present acc a observed report s =
       (record_event EX_ReconciledMatch (bump_state_generation
          (upd_accelerator acc (\<lambda>a. a\<lparr>ac_evidence := refreshed_evidence a observed (fs_now s) s3\<rparr>) s3)), Inr report3)"
  have att: "fs_attempts s1 = fs_attempts s" using partition_pass_around(2) [of acc a observed report s] 1 by simp
  then have "attempt_pass acc a observed (fs_now s) (s1, report1, claimed1) = (s1, report1, claimed1)"
    using assms(3) by (intro attempt_pass_idle) simp
  then have s2: "s2 = s1" "claimed2 = claimed1" using 2 by simp_all
  have "settles s s1" using partition_pass_settles [of s acc a observed report] 1 by simp
  then have fresh: "ids_fresh s1" using assms(1) by (rule settles_fresh)
  have "recorded acc s3 (bn_native_id n)"
  proof (cases "bn_native_id n \<in> set claimed1")
    case True
    with 1 have "represented acc observed s1 (bn_native_id n)" by (rule partition_pass_claims)
    then obtain i r where r: "find_partition i s1 = Some r" "layout_relevant acc r" "ni_native_id (pr_native_identity r) = bn_native_id n"
      by (auto simp: represented_def)
    then have "find_partition i s3 = Some r"
      using reconcile_unexpected_old [of "(s2, report2)" i r acc a observed "fs_now s" claimed2 "bl_partitions observed"] fresh 3 s2 by simp
    then show ?thesis unfolding recorded_def using r by blast
  next
    case False
    then show ?thesis
      using reconcile_unexpected_complete [of "(s2, report2)" n "bl_partitions observed" claimed2 acc a observed "fs_now s"]
        3 s2 fresh assms(2,4) by (simp add: eq)
  qed
  then show ?thesis by (simp add: recorded_def eq)
qed

lemma reconcile_complete:
  assumes "reconcile acc observed s = (t, Inr report)" "bl_device_present observed" "ids_fresh s"
    "n \<in> set (bl_partitions observed)" "ida_next (fs_ids t) \<noteq> UINT64_MAX"
    "\<And>j u. find_attempt j s = Some u \<Longrightarrow> at_accelerator u = acc \<Longrightarrow> at_state u \<noteq> AT_OutcomeUnknown"
  shows "recorded acc t (bn_native_id n)"
proof (cases rule: reconcile_cases [of acc observed s])
  case (present al k a report0 f)
  let ?s = "s\<lparr>fs_ids := al, fs_accelerators := om_modify acc f (fs_accelerators s)\<rparr>"
  have t: "t = fst (reconcile_present acc (f a) observed report0 ?s)" using arg_cong [OF present(6), of fst] assms(1) by simp
  have "progresses s ?s" using progresses_trans [OF progresses_ids [OF present(2)] progresses_accelerators] by simp
  then have "ids_fresh ?s" using assms(3) by (auto simp: progresses_def intro: advances_fresh)
  then show ?thesis
    using reconcile_present_complete [of ?s n observed acc "f a" report0] assms(4-6) by (simp add: t)
qed (use assms(1,2) in simp_all)

text \<open>
  A partition whose physical partition was observed is never retired, whatever attempts are
  decided in the same pass. It may be returned to Unpartitioned.
\<close>

definition observed_live :: "backend_layout \<Rightarrow> fabric_state \<Rightarrow> partition_id \<Rightarrow> bool" where
  "observed_live observed s i =
     (case find_partition i s of
        None \<Rightarrow> False
      | Some r \<Rightarrow> pr_state r = PS_Unpartitioned \<or>
                  pr_state r \<noteq> PS_Retired \<and> find_native observed (ni_native_id (pr_native_identity r)) \<noteq> None)"

lemma observed_live_same: "find_partition i t = find_partition i s \<Longrightarrow> observed_live observed t i = observed_live observed s i"
  by (simp add: observed_live_def)

lemma observed_live_partition:
  assumes "observed_live observed (fst c) i"
  shows "observed_live observed (fst (reconcile_partition acc a observed now_ms k c)) i"
proof (cases "i = k")
  case True
  obtain r where r: "find_partition k (fst c) = Some r"
    using assms True by (auto simp: observed_live_def split: option.splits)
  show ?thesis
  proof (cases "layout_relevant acc r")
    case False
    then have "reconcile_partition acc a observed now_ms k c = c"
      using r by (simp add: reconcile_partition_def Let_def case_prod_beta)
    then show ?thesis using assms by simp
  next
    case rel: True
    then obtain n where n: "find_native observed (ni_native_id (pr_native_identity r)) = Some n" "pr_state r \<noteq> PS_Retired"
      using assms r True by (auto simp: observed_live_def layout_relevant_def)
    obtain r' where "find_partition k (fst (reconcile_partition acc a observed now_ms k c)) = Some r'" "still_there r r'"
      using reconcile_partition_observed [OF r n(1) rel] by blast
    then show ?thesis using n True by (auto simp: observed_live_def still_there_def)
  qed
next
  case False
  then show ?thesis using assms observed_live_same [OF reconcile_partition_other [OF False]] by simp
qed

lemma resolve_partition_other:
  "i \<noteq> k \<Longrightarrow> find_partition i (fst (resolve_partition acc target k p)) = find_partition i (fst p)"
  by (simp add: resolve_partition_def other_partition Let_def case_prod_beta split: option.split sum.split)

lemma resolve_partition_unpartitioned:
  assumes "find_partition k (fst p) = Some r" "pr_state r = PS_Unpartitioned"
  shows "resolve_partition acc target k p = p"
  using assms by (cases p) (simp add: resolve_partition_def Let_def)

lemma observed_live_resolve:
  assumes "observed_live observed (fst p) i" "i \<noteq> k \<or> target = PS_Active \<or> map_option pr_state (find_partition i (fst p)) = Some PS_Unpartitioned"
  shows "observed_live observed (fst (resolve_partition acc target k p)) i"
proof (cases "i = k")
  case False
  then show ?thesis using assms(1) observed_live_same [OF resolve_partition_other [OF False]] by simp
next
  case True
  obtain s report where p: "p = (s, report)" by fastforce
  obtain r where r: "find_partition k s = Some r" using assms(1) True by (auto simp: p observed_live_def split: option.splits)
  show ?thesis
  proof (cases "pr_state r = PS_Unpartitioned")
    case u: True
    have "resolve_partition acc target k p = p" by (rule resolve_partition_unpartitioned [of k p r]) (use r u in \<open>simp_all add: p\<close>)
    then show ?thesis using assms(1) by simp
  next
    case False
    then have t: "target = PS_Active" using assms(2) r True by (simp add: p)
    obtain st h tm where "find_partition k (fst (transition_partition k PS_Active s)) =
        Some (r\<lparr>pr_state := st, pr_held_bucket := h, pr_last_transition_at_ms := tm\<rparr>)" "st = pr_state r \<or> st = PS_Active"
      using transition_record [OF r, of PS_Active] by blast
    then have "observed_live observed (fst (transition_partition k PS_Active s)) i"
      using assms(1) r True False by (auto simp: p observed_live_def)
    then show ?thesis using assms(1) r True by (auto simp: resolve_partition_def p t Let_def split: option.split sum.split)
  qed
qed

lemma claim_native_observed:
  assumes "claim_native a (Some observed) d claimed = (claimed', adopt)" "\<And>n. n \<in> set (bl_partitions observed) \<Longrightarrow> bn_native_id n \<noteq> []"
    "find_native observed (ni_native_id (pr_native_identity r)) \<noteq> None"
  shows "find_native observed (ni_native_id (pr_native_identity (adopt r))) \<noteq> None"
proof (cases "find_unclaimed_native_for_spec observed (spec_of d) claimed")
  case (Some n)
  then have "n \<in> set (bl_partitions observed)" by (auto simp: find_unclaimed_native_for_spec_def find_Some_iff)
  then have "find_native observed (bn_native_id n) \<noteq> None" using assms(2) by (auto simp: find_native_def find_None_iff)
  then show ?thesis using assms(1) Some by (auto simp: claim_native_def adopt_native_def)
qed (use assms in \<open>auto simp: claim_native_def\<close>)

lemma observed_live_present:
  assumes "observed_live observed (fst c) i" "\<And>n. n \<in> set (bl_partitions observed) \<Longrightarrow> bn_native_id n \<noteq> []"
    "i \<notin> set is \<or> target = PS_Active \<or> map_option pr_state (find_partition i (fst c)) = Some PS_Unpartitioned"
  shows "observed_live observed (fst (resolve_present acc a observed target is ds c)) i"
  using assms(1,3)
proof (induction "is" arbitrary: ds c)
  case (Cons k "is")
  obtain s report claimed where c: "c = (s, report, claimed)" by (cases c)
  show ?case
  proof (cases "find_partition k s")
    case None
    then show ?thesis using Cons.IH [of c "tl ds"] Cons.prems by (auto simp: c)
  next
    case (Some r)
    obtain claimed1 adopt where ca: "(case ds of [] \<Rightarrow> (claimed, \<lambda>r. r) | d # _ \<Rightarrow> claim_native a (Some observed) d claimed) = (claimed1, adopt)"
      by fastforce
    let ?s1 = "upd_partition k adopt s"
    obtain s2 report2 where s2: "resolve_partition acc target k (?s1, report) = (s2, report2)" by fastforce
    have st: "pr_state (adopt r) = pr_state r" for r
      using ca by (auto simp: claim_native_def adopt_native_def split: list.splits option.splits)
    have "find_native observed (ni_native_id (pr_native_identity (adopt r))) \<noteq> None"
      if "find_native observed (ni_native_id (pr_native_identity r)) \<noteq> None" for r
      using ca claim_native_observed [OF _ assms(2) that] that by (auto split: list.splits)
    then have l1: "observed_live observed ?s1 i"
      using Cons.prems(1) st by (auto simp: c observed_live_def apf_lookup split: option.splits)
    have u1: "map_option pr_state (find_partition i ?s1) = map_option pr_state (find_partition i s)"
      using st by (simp add: apf_lookup option.map_comp o_def)
    have l2: "observed_live observed s2 i"
    proof -
      have "i \<noteq> k \<or> target = PS_Active \<or> map_option pr_state (find_partition i ?s1) = Some PS_Unpartitioned"
        unfolding u1 using Cons.prems(2) by (auto simp: c)
      then show ?thesis using observed_live_resolve [of observed "(?s1, report)" i k target acc] l1 s2 by simp
    qed
    have u2: "map_option pr_state (find_partition i s2) = Some PS_Unpartitioned"
      if "map_option pr_state (find_partition i s) = Some PS_Unpartitioned"
    proof (cases "i = k")
      case True
      have "map_option pr_state (find_partition k ?s1) = Some PS_Unpartitioned" using that u1 True by metis
      then obtain r1 where "find_partition k ?s1 = Some r1" "pr_state r1 = PS_Unpartitioned" by blast
      then have "s2 = ?s1" using resolve_partition_unpartitioned [of k "(?s1, report)" r1 acc target] s2 by simp
      then show ?thesis using that u1 by simp
    next
      case False
      then have "find_partition i s2 = find_partition i ?s1"
        using resolve_partition_other [OF False, of acc target "(?s1, report)"] s2 by simp
      then show ?thesis using that u1 by simp
    qed
    have "observed_live observed (fst (resolve_present acc a observed target is (tl ds) (s2, report2, claimed1))) i"
      by (rule Cons.IH) (use l2 u2 Cons.prems(2) in \<open>auto simp: c\<close>)
    then show ?thesis using Some ca s2 by (simp add: c)
  qed
qed simp

lemma resolve_absent_other: "i \<noteq> k \<Longrightarrow> find_partition i (resolve_absent k s) = find_partition i s"
  by (simp add: resolve_absent_def other_partition apf_lookup split: option.split sum.split)

lemma observed_live_absent:
  assumes "observed_live observed s i"
  shows "observed_live observed (resolve_absent k s) i"
proof (cases "i = k")
  case False
  then show ?thesis using assms observed_live_same [OF resolve_absent_other] by simp
next
  case True
  obtain r where r: "find_partition k s = Some r" using assms True by (auto simp: observed_live_def split: option.splits)
  obtain s1 st where t: "transition_partition k PS_Unpartitioned s = (s1, st)" by fastforce
  obtain st' h tm where r1: "find_partition k s1 = Some (r\<lparr>pr_state := st', pr_held_bucket := h, pr_last_transition_at_ms := tm\<rparr>)"
    "st' = pr_state r \<or> st' = PS_Unpartitioned"
    using transition_record [OF r, of PS_Unpartitioned] t by auto
  have l1: "observed_live observed s1 i" using assms r r1 True by (auto simp: observed_live_def)
  show ?thesis
  proof (cases "pr_state r \<in> {PS_RevalidationRequired, PS_Creating, PS_Destroying}")
    case act: True
    show ?thesis
    proof (cases st)
      case (Inl e)
      then show ?thesis using r t act l1 by (auto simp: resolve_absent_def)
    next
      case (Inr u)
      have "\<exists>r'. find_partition k s1 = Some r' \<and> pr_state r' = PS_Unpartitioned"
        using transition_success [of k PS_Unpartitioned s s1 r] t Inr r act by auto
      then have "observed_live observed (upd_partition k (\<lambda>r. r\<lparr>pr_native_identity := native_none\<rparr>)
          (supersede_partition_generation k s1)) i"
        using True by (auto simp: observed_live_def apf_lookup supersede_record_def)
      then show ?thesis using r t act Inr by (auto simp: resolve_absent_def)
    qed
  qed (use assms r in \<open>simp add: resolve_absent_def\<close>)
qed

lemma gone_unpartitioned:
  "observed_live observed s i \<Longrightarrow> native_gone s observed i \<Longrightarrow> map_option pr_state (find_partition i s) = Some PS_Unpartitioned"
  by (cases "find_partition i s")
    (auto simp: observed_live_def native_gone_def find_native_def find_None_iff find_Some_iff)

lemma observed_live_attempt:
  assumes "observed_live observed (fst c) i" "\<And>n. n \<in> set (bl_partitions observed) \<Longrightarrow> bn_native_id n \<noteq> []"
  shows "observed_live observed (fst (reconcile_attempt acc a observed now_ms k c)) i"
proof -
  obtain s report claimed where c: "c = (s, report, claimed)" by (cases c)
  have "observed_live observed (fst (reconcile_attempt acc a observed now_ms k (s, report, claimed))) i"
    if t: "find_attempt k s = Some t" "at_accelerator t = acc" "at_state t = AT_OutcomeUnknown" for t
  proof -
    let ?s1 = "settle_attempt k AT_Reconciled now_ms s"
    have same: "find_partition i ?s1 = find_partition i s" by (simp add: settle_attempt_def)
    have s1: "observed_live observed ?s1 i" using assms(1) observed_live_same [OF same] by (simp add: c)
    obtain s2 report2 claimed2 where p: "resolve_present acc a observed (attempt_target t) (at_partitions t) (at_desired t)
        (?s1, report, claimed) = (s2, report2, claimed2)" by (metis prod_cases3)
    show ?thesis
    proof (cases "attempt_satisfied s observed t")
      case True
      have "i \<notin> set (at_partitions t) \<or> attempt_target t = PS_Active \<or>
          map_option pr_state (find_partition i ?s1) = Some PS_Unpartitioned"
        unfolding same using True assms(1) gone_unpartitioned [of observed s i] by (auto simp: c attempt_target_def attempt_satisfied_def)
      then have "observed_live observed s2 i"
        using observed_live_present [of observed "(?s1, report, claimed)" i "at_partitions t" "attempt_target t" acc a "at_desired t"] s1 assms(2) p by simp
      then show ?thesis
        using t True by (simp add: reconcile_attempt_def p Let_def observed_live_def resolve_end_around)
    next
      case False
      have "observed_live observed (for_keys (at_partitions t) resolve_absent ?s1) i"
        using s1 by (rule for_keys_invariant) (rule observed_live_absent)
      then show ?thesis using t False by (simp add: reconcile_attempt_def Let_def observed_live_def resolve_end_around)
    qed
  qed
  then show ?thesis using assms(1) by (auto simp: reconcile_attempt_def c split: option.split)
qed

lemma layout_named:
  "layout_partitions_check l seen ns = success \<Longrightarrow> n \<in> set ns \<Longrightarrow> bn_native_id n \<noteq> []"
  by (induction ns arbitrary: seen) (auto split: if_splits sum.splits)

lemma valid_layout_named: "validate_backend_layout y l = success \<Longrightarrow> n \<in> set (bl_partitions y) \<Longrightarrow> bn_native_id n \<noteq> []"
  using layout_named by (auto simp: validate_backend_layout_def split: if_splits sum.splits)

lemma reconcile_observed_live:
  assumes "reconcile acc observed s = (t, Inr report)" "bl_device_present observed" "ids_fresh s" "observed_live observed s i"
  shows "observed_live observed t i"
proof (cases rule: reconcile_cases [of acc observed s])
  case (present al k a report0 f)
  let ?s = "s\<lparr>fs_ids := al, fs_accelerators := om_modify acc f (fs_accelerators s)\<rparr>"
  have t: "t = fst (reconcile_present acc (f a) observed report0 ?s)" using arg_cong [OF present(6), of fst] assms(1) by simp
  have "progresses s ?s" using progresses_trans [OF progresses_ids [OF present(2)] progresses_accelerators] by simp
  then have fresh: "ids_fresh ?s" using assms(3) by (auto simp: progresses_def intro: advances_fresh)
  note named = valid_layout_named [OF present(4)]
  show ?thesis
  proof (rule reconcile_present_passes [of acc "f a" observed report0 ?s])
    fix s1 report1 claimed1 s2 report2 claimed2 s3 report3
    assume 1: "partition_pass acc (f a) observed report0 ?s = (s1, report1, claimed1)"
      and 2: "attempt_pass acc (f a) observed (fs_now ?s) (s1, report1, claimed1) = (s2, report2, claimed2)"
      and 3: "reconcile_unexpected acc (f a) observed (fs_now ?s) claimed2 (bl_partitions observed) (s2, report2) = (s3, report3)"
      and eq: "reconcile_present acc (f a) observed report0 ?s =
         (record_event EX_ReconciledMatch (bump_state_generation
            (upd_accelerator acc (\<lambda>a. a\<lparr>ac_evidence := refreshed_evidence a observed (fs_now ?s) s3\<rparr>) s3)), Inr report3)"
    have "observed_live observed (fst (partition_pass acc (f a) observed report0 ?s)) i" unfolding partition_pass_def
      by (rule for_keys_invariant) (use assms(4) observed_live_partition in \<open>simp_all add: observed_live_def\<close>)
    then have "observed_live observed (fst (s1, report1, claimed1)) i" using 1 by simp
    then have "observed_live observed (fst (attempt_pass acc (f a) observed (fs_now ?s) (s1, report1, claimed1))) i"
      unfolding attempt_pass_def by (rule for_keys_invariant) (rule observed_live_attempt, assumption, rule named)
    then have live: "observed_live observed s2 i" using 2 by simp
    have "settles ?s s1" "settles s1 s2"
      using partition_pass_settles [of ?s acc "f a" observed report0] attempt_pass_settles [of "(s1, report1, claimed1)" acc "f a" observed "fs_now ?s"] 1 2
      by simp_all
    then have "ids_fresh s2" using fresh by (blast intro: settles_fresh)
    moreover obtain r where "find_partition i s2 = Some r" using live by (auto simp: observed_live_def split: option.splits)
    ultimately have "find_partition i s3 = find_partition i s2"
      using reconcile_unexpected_old [of "(s2, report2)" i r acc "f a" observed "fs_now ?s" claimed2 "bl_partitions observed"] 3 by simp
    then have "observed_live observed s3 i" using live by (simp add: observed_live_def)
    then show ?thesis by (simp add: t eq observed_live_def)
  qed
qed (use assms(1,2) in simp_all)

end
