(* ===== verification/APF_System.thy ===== *)
theory APF_System
  imports APF_Reconcile
begin

text \<open>
  A running fabric (\<^verbatim>\<open>src/src/fabric.cpp\<close>): the state the constructor builds, one step per critical
  section of the public interface, and what holds in every state such a run can reach. The calls
  that give the lock up in between (\<^verbatim>\<open>execute\<close>, \<^verbatim>\<open>destroy_partition\<close>, \<^verbatim>\<open>execute_reconfiguration\<close>,
  \<^verbatim>\<open>reserve_for_worker\<close>, \<^verbatim>\<open>discover\<close>, \<^verbatim>\<open>reconcile_with_backend\<close>) are several steps, so that anything
  may happen meanwhile. A step may fail; a backend report in particular may be refused at any of
  its stages. \<^verbatim>\<open>import_durable_state\<close> and \<^verbatim>\<open>load\<close>, which replace the state by a stored one, are not
  steps: they are treated in \<open>APF_Durable\<close>.
\<close>

section \<open>No call but a registration touches the device registry\<close>

definition registered :: "fabric_state \<Rightarrow> (u64 \<times> accelerator_id) list \<times> (string, accelerator_id) omap" where
  "registered s = (device_ids s, fs_key_index s)"

lemma registered_update [simp]:
  "registered (fs_limits_update f0 s) = registered s"
  "registered (fs_now_update f1 s) = registered s"
  "registered (fs_coordinator_epoch_update f2 s) = registered s"
  "registered (fs_state_generation_update f3 s) = registered s"
  "registered (fs_snapshot_generation_update f4 s) = registered s"
  "registered (fs_policy_generation_update f5 s) = registered s"
  "registered (fs_policy_update f6 s) = registered s"
  "registered (fs_ids_update f7 s) = registered s"
  "registered (fs_ledgers_update f8 s) = registered s"
  "registered (fs_stable_keys_update f9 s) = registered s"
  "registered (fs_profiles_update f10 s) = registered s"
  "registered (fs_partitions_update f11 s) = registered s"
  "registered (fs_plans_update f12 s) = registered s"
  "registered (fs_reservations_update f13 s) = registered s"
  "registered (fs_attempts_update f14 s) = registered s"
  "registered (fs_assignments_update f15 s) = registered s"
  "registered (fs_workers_update f16 s) = registered s"
  "registered (fs_accelerator_owner_update f17 s) = registered s"
  "registered (fs_evidence_generation_update f18 s) = registered s"
  "registered (fs_events_update f19 s) = registered s"
  "registered (fs_event_sequence_update f20 s) = registered s"
  "registered (fs_instance_id_update f21 s) = registered s"
  "registered (fs_opened_at_ms_update f22 s) = registered s"
  "registered (fs_closed_update f23 s) = registered s"
  "registered (fs_closed_at_ms_update f24 s) = registered s"
  "(\<And>a. ac_id (g a) = ac_id a) \<Longrightarrow> registered (s\<lparr>fs_accelerators := om_modify i g (fs_accelerators s)\<rparr>) = registered s"
  by (simp_all add: registered_def) (simp_all add: device_ids_def)

lemma registered_base [simp]:
  "registered (record_event c s) = registered s"
  "registered (bump_state_generation s) = registered s"
  "registered (fst (transition_partition i to s)) = registered s"
  by (simp_all add: registered_def device_ids_def)

lemmas registered_rules = Let_def case_prod_beta for_keys_frame [where g = registered] try_keys_frame [where g = registered]

lemma prune_plans_registered [simp]: "registered (prune_plans s) = registered s"
  by (simp add: prune_plans_def registered_rules split: option.split sum.split)

lemma prune_attempts_registered [simp]: "registered (prune_attempts s) = registered s"
  by (simp add: prune_attempts_def registered_rules split: option.split sum.split)

lemma supersede_partition_generation_registered [simp]: "registered (supersede_partition_generation x0 s) = registered s"
  by (simp add: supersede_partition_generation_def registered_rules split: option.split sum.split)

lemma advance_evidence_registered [simp]: "registered (advance_evidence s) = registered s"
  by (simp add: advance_evidence_def registered_rules split: option.split sum.split)

lemma stamp_partition_evidence_registered [simp]: "registered (stamp_partition_evidence x0 x1 x2 x3 x4 s) = registered s"
  by (simp add: stamp_partition_evidence_def registered_rules split: option.split sum.split)

lemma retire_partition_registered [simp]: "registered (retire_partition x0 x1 s) = registered s"
  by (simp add: retire_partition_def registered_rules split: option.split sum.split)

lemma release_retire_registered [simp]: "registered (release_retire x0 x1 s) = registered s"
  by (simp add: release_retire_def registered_rules split: option.split sum.split)

lemma release_reservation_locked_registered [simp]: "registered (fst (release_reservation_locked x0 x1 x2 s)) = registered s"
  by (simp add: release_reservation_locked_def registered_rules split: option.split sum.split)

lemma fence_retire_registered [simp]: "registered (fence_retire x0 x1 s) = registered s"
  by (simp add: fence_retire_def registered_rules split: option.split sum.split)

lemma finish_fence_registered [simp]: "registered (finish_fence x0 x1 s) = registered s"
  by (simp add: finish_fence_def registered_rules split: option.split sum.split)

lemma fence_reservation_locked_registered [simp]: "registered (fst (fence_reservation_locked x0 x1 x2 s)) = registered s"
  by (simp add: fence_reservation_locked_def registered_rules split: option.split sum.split)

lemma release_reservation_registered [simp]: "registered (fst (release_reservation x0 s)) = registered s"
  by (simp add: release_reservation_def registered_rules split: option.split sum.split)

lemma fence_reservation_registered [simp]: "registered (fst (fence_reservation x0 s)) = registered s"
  by (simp add: fence_reservation_def registered_rules split: option.split sum.split)

lemma revalidate_partition_registered [simp]: "registered (revalidate_partition x0 s) = registered s"
  by (simp add: revalidate_partition_def registered_rules split: option.split sum.split)

lemma classify_attempt_registered [simp]: "registered (classify_attempt x0 x1 x2 x3 s) = registered s"
  by (simp add: classify_attempt_def registered_rules split: option.split sum.split)

lemma fence_reservation_if_registered [simp]: "registered (fence_reservation_if x0 x1 x2 s) = registered s"
  by (simp add: fence_reservation_if_def registered_rules split: option.split sum.split)

lemma fence_worker_locked_registered [simp]: "registered (fst (fence_worker_locked x0 x1 x2 s)) = registered s"
  by (simp add: fence_worker_locked_def registered_rules split: option.split sum.split)

lemma fence_worker_registered [simp]: "registered (fst (fence_worker x0 x1 s)) = registered s"
  by (simp add: fence_worker_def registered_rules split: option.split sum.split)

lemma note_worker_registered [simp]: "registered (fst (note_worker x0 s)) = registered s"
  by (simp add: note_worker_def registered_rules split: option.split sum.split)

lemma note_worker_seen_registered [simp]: "registered (fst (note_worker_seen x0 x1 x2 s)) = registered s"
  by (simp add: note_worker_seen_def registered_rules split: option.split sum.split)

lemma allocate_worker_id_registered [simp]: "registered (fst (allocate_worker_id s)) = registered s"
  by (simp add: allocate_worker_id_def registered_rules split: option.split sum.split)

lemma bind_accelerator_worker_registered [simp]: "registered (fst (bind_accelerator_worker x0 x1 x2 s)) = registered s"
  by (simp add: bind_accelerator_worker_def registered_rules split: option.split sum.split)

lemma advance_coordinator_epoch_registered [simp]: "registered (fst (advance_coordinator_epoch s)) = registered s"
  by (simp add: advance_coordinator_epoch_def registered_rules split: option.split sum.split)

lemma install_coordinator_epoch_registered [simp]: "registered (fst (install_coordinator_epoch x0 s)) = registered s"
  by (simp add: install_coordinator_epoch_def registered_rules split: option.split sum.split)

lemma set_policy_registered [simp]: "registered (fst (set_policy x0 s)) = registered s"
  by (simp add: set_policy_def registered_rules split: option.split sum.split)

lemma update_health_registered [simp]: "registered (fst (update_health x0 x1 s)) = registered s"
  by (simp add: update_health_def registered_rules split: option.split sum.split)

lemma mark_evidence_stale_registered [simp]: "registered (fst (mark_evidence_stale x0 s)) = registered s"
  by (simp add: mark_evidence_stale_def registered_rules split: option.split sum.split)

lemma discard_plan_registered [simp]: "registered (fst (discard_plan x0 s)) = registered s"
  by (simp add: discard_plan_def registered_rules split: option.split sum.split)

lemma close_reservation_registered [simp]: "registered (close_reservation x0 x1 s) = registered s"
  by (simp add: close_reservation_def registered_rules split: option.split sum.split)

lemma close_partition_registered [simp]: "registered (close_partition x0 x1 s) = registered s"
  by (simp add: close_partition_def registered_rules split: option.split sum.split)

lemma close_attempt_registered [simp]: "registered (close_attempt x0 x1 s) = registered s"
  by (simp add: close_attempt_def registered_rules split: option.split sum.split)

lemma close_fabric_registered [simp]: "registered (fst (close_fabric s)) = registered s"
  by (simp add: close_fabric_def registered_rules split: option.split sum.split)

lemma reopen_fabric_registered [simp]: "registered (fst (reopen_fabric s)) = registered s"
  by (simp add: reopen_fabric_def registered_rules split: option.split sum.split)

lemma fence_and_classify_registered [simp]: "registered (fence_and_classify x0 x1 x2 x3 s) = registered s"
  by (simp add: fence_and_classify_def registered_rules split: option.split sum.split)

lemma close_loops_registered [simp]: "registered (close_loops s) = registered s"
  by (simp add: close_loops_def registered_rules split: option.split sum.split)

lemma prune_reservations_registered [simp]: "registered (prune_reservations s) = registered s"
  by (simp add: prune_reservations_def registered_rules split: option.split sum.split)

lemma create_reserved_registered [simp]: "registered (fst (create_reserved x0 x1 x2 s)) = registered s"
  by (induction x1 arbitrary: x2 s) (simp_all add: registered_rules split: option.split sum.split)

lemma undo_reserve_registered [simp]: "registered (undo_reserve x0 x1 x2 s) = registered s"
  by (simp add: undo_reserve_def registered_rules split: option.split sum.split)

lemma reserve_commit_registered [simp]: "registered (fst (reserve_commit x0 x1 x2 s)) = registered s"
  by (simp add: reserve_commit_def registered_rules split: option.split sum.split)

lemma reserve_registered [simp]: "registered (fst (reserve x0 s)) = registered s"
  by (simp add: reserve_def registered_rules split: option.split sum.split)

lemma bind_reservation_registered [simp]: "registered (fst (bind_reservation x0 x1 x2 x3 s)) = registered s"
  by (simp add: bind_reservation_def registered_rules split: option.split sum.split)

lemma begin_create_registered [simp]: "registered (fst (begin_create x0 x1 s)) = registered s"
  by (induction x0 arbitrary: x1 s) (simp_all add: registered_rules split: option.split sum.split)

lemma begin_destroy_registered [simp]: "registered (fst (begin_destroy x0 s)) = registered s"
  by (induction x0 arbitrary: s) (simp_all add: registered_rules split: option.split sum.split)

lemma begin_attempt_registered [simp]: "registered (fst (begin_attempt x0 x1 s)) = registered s"
  by (simp add: begin_attempt_def registered_rules split: option.split sum.split)

lemma register_attempt_locked_registered [simp]: "registered (fst (register_attempt_locked x0 x1 x2 x3 x4 x5 s)) = registered s"
proof -
  let ?full = "\<lambda>s. length (fs_attempts s) \<ge> max_attempt_history (fs_limits s)"
  define s1 where "s1 = (if ?full s then prune_attempts s else s)"
  have s1: "registered s1 = registered s" by (simp add: s1_def)
  obtain a ir where al: "allocate (fs_ids s1) = (a, ir)" by fastforce
  obtain s3 st where b: "begin_attempt x2 x1 (s1\<lparr>fs_ids := a\<rparr>) = (s3, st)" by fastforce
  then have s3: "registered s3 = registered s" using begin_attempt_registered [of x2 x1 "s1\<lparr>fs_ids := a\<rparr>"] s1 by simp
  show ?thesis
    using s1 s3 al b [unfolded begin_attempt_def]
    by (cases ir; cases st) (auto simp: register_attempt_locked_def Let_def s1_def [symmetric] split: sum.split)
qed

lemma register_attempt_registered [simp]: "registered (fst (register_attempt x0 x1 x2 x3 s)) = registered s"
  by (simp add: register_attempt_def registered_rules split: option.split sum.split)

lemma settle_attempt_registered [simp]: "registered (settle_attempt x0 x1 x2 s) = registered s"
  by (simp add: settle_attempt_def registered_rules split: option.split sum.split)

lemma set_lifecycle_registered [simp]: "registered (set_lifecycle x0 x1 x2 s) = registered s"
  by (simp add: set_lifecycle_def registered_rules split: option.split sum.split)

lemma try_transition_registered [simp]: "registered (try_transition x0 x1 s) = registered s"
  by (simp add: try_transition_def registered_rules split: option.split sum.split)

lemma supersede_layout_registered [simp]: "registered (supersede_layout x0 x1 s) = registered s"
  by (simp add: supersede_layout_def registered_rules split: option.split sum.split)

lemma drop_orphan_registered [simp]: "registered (drop_orphan x0 s) = registered s"
  by (simp add: drop_orphan_def registered_rules split: option.split sum.split)

lemma create_planned_registered [simp]: "registered (fst (create_planned x0 x1 x2 x3 x4 x5 x6 s)) = registered s"
  by (induction x5 arbitrary: x6 s) (simp_all add: registered_rules split: option.split sum.split)

lemma commit_reconfigure_registered [simp]: "registered (fst (commit_reconfigure x0 x1 x2 x3 x4 x5 x6 x7 x8 s)) = registered s"
  by (simp add: commit_reconfigure_def registered_rules split: option.split sum.split)

lemma commit_one_registered [simp]: "registered (commit_one x0 x1 x2 x3 x4 x5 s) = registered s"
  by (simp add: commit_one_def registered_rules split: option.split sum.split)

lemma commit_created_registered [simp]: "registered (commit_created x0 x1 x2 x3 x4 x5 x6 x7 s) = registered s"
  by (induction x5 arbitrary: x6 x7 s) (simp_all add: registered_rules split: option.split sum.split)

lemma commit_destroyed_registered [simp]: "registered (commit_destroyed x0 s) = registered s"
  by (simp add: commit_destroyed_def registered_rules split: option.split sum.split)

lemma commit_verified_registered [simp]: "registered (fst (commit_verified x0 x1 x2 x3 x4 x5 x6 x7 s)) = registered s"
  by (simp add: commit_verified_def registered_rules split: option.split sum.split)

lemma revalidate_recorded_registered [simp]: "registered (revalidate_recorded x0 s) = registered s"
  by (simp add: revalidate_recorded_def registered_rules split: option.split sum.split)

lemma leave_unknown_registered [simp]: "registered (fst (leave_unknown x0 x1 x2 x3 x4 s)) = registered s"
  by (simp add: leave_unknown_def registered_rules split: option.split sum.split)

lemma fail_attempt_registered [simp]: "registered (fst (fail_attempt x0 x1 x2 x3 x4 s)) = registered s"
  by (simp add: fail_attempt_def registered_rules split: option.split sum.split)

lemma apply_mutation_result_locked_registered [simp]: "registered (fst (apply_mutation_result_locked x0 x1 x2 x3 s)) = registered s"
  by (simp add: apply_mutation_result_locked_def registered_rules split: option.split sum.split)

lemma apply_mutation_result_registered [simp]: "registered (fst (apply_mutation_result x0 x1 x2 s)) = registered s"
  by (simp add: apply_mutation_result_def registered_rules split: option.split sum.split)

lemma execute_guard_registered [simp]: "registered (fst (execute_guard x0 x1 s)) = registered s"
  by (simp add: execute_guard_def registered_rules split: option.split sum.split)

lemma execute_begin_registered [simp]: "registered (fst (execute_begin x0 x1 s)) = registered s"
  by (simp add: execute_begin_def registered_rules split: option.split sum.split)

lemma mark_attempt_outcome_unknown_registered [simp]: "registered (fst (mark_attempt_outcome_unknown x0 s)) = registered s"
  by (simp add: mark_attempt_outcome_unknown_def registered_rules split: option.split sum.split)

lemma committed_partitions_registered [simp]: "registered (committed_partitions x0 x1 x2 x3 x4 x5 s) = registered s"
  by (simp add: committed_partitions_def registered_rules split: option.split sum.split)

lemma bind_admitted_registered [simp]: "registered (bind_admitted x0 x1 s) = registered s"
  by (simp add: bind_admitted_def registered_rules split: option.split sum.split)

lemma admit_registered [simp]: "registered (fst (admit x0 s)) = registered s"
  by (simp add: admit_def registered_rules split: option.split sum.split)

lemma bind_assignment_registered [simp]: "registered (fst (bind_assignment x0 s)) = registered s"
  by (simp add: bind_assignment_def registered_rules split: option.split sum.split)

lemma note_unbound_registered [simp]: "registered (note_unbound x0 s) = registered s"
  by (simp add: note_unbound_def registered_rules split: option.split sum.split)

lemma unbind_assignment_registered [simp]: "registered (fst (unbind_assignment x0 s)) = registered s"
  by (simp add: unbind_assignment_def registered_rules split: option.split sum.split)

lemma begin_drain_registered [simp]: "registered (fst (begin_drain x0 s)) = registered s"
  by (simp add: begin_drain_def registered_rules split: option.split sum.split)

lemma drain_target_registered [simp]: "registered (fst (drain_target x0 s)) = registered s"
  by (simp add: drain_target_def registered_rules split: option.split sum.split)

lemma begin_drain_accelerator_registered [simp]: "registered (fst (begin_drain_accelerator x0 s)) = registered s"
  by (simp add: begin_drain_accelerator_def registered_rules split: option.split sum.split)

lemma complete_drain_registered [simp]: "registered (fst (complete_drain x0 s)) = registered s"
  by (simp add: complete_drain_def registered_rules split: option.split sum.split)

lemma cancel_drain_registered [simp]: "registered (fst (cancel_drain x0 s)) = registered s"
  by (simp add: cancel_drain_def registered_rules split: option.split sum.split)

lemma create_destructive_registered [simp]: "registered (fst (create_destructive_reservation_locked x0 x1 x2 x3 s)) = registered s"
  by (simp add: create_destructive_reservation_locked_def registered_rules split: option.split sum.split)

lemma destruction_guard_registered [simp]: "registered (fst (destruction_guard x0 s)) = registered s"
  by (simp add: destruction_guard_def registered_rules split: option.split sum.split)

lemma create_destruction_reservation_registered [simp]: "registered (fst (create_destruction_reservation x0 s)) = registered s"
  by (simp add: create_destruction_reservation_def registered_rules split: option.split sum.split)

lemma stable_key_slot_registered [simp]: "registered (snd (stable_key_slot x0 s)) = registered s"
  by (simp add: stable_key_slot_def registered_rules split: option.split sum.split)

lemma destroy_begin_registered [simp]: "registered (fst (destroy_begin x0 s)) = registered s"
  by (simp add: destroy_begin_def registered_rules split: option.split sum.split)

lemma reconfiguration_guard_registered [simp]: "registered (fst (reconfiguration_guard x0 s)) = registered s"
  by (simp add: reconfiguration_guard_def registered_rules split: option.split sum.split)

lemma reconfigure_begin_registered [simp]: "registered (fst (reconfigure_begin x0 s)) = registered s"
  by (simp add: reconfigure_begin_def registered_rules split: option.split sum.split)

lemma surroundings_registered: "surroundings t = surroundings s \<Longrightarrow> registered t = registered s"
  by (simp add: surroundings_def registered_def device_ids_def)

lemma reconcile_present_registered: "registered (fst (reconcile_present acc a observed report s)) = registered s"
proof (rule reconcile_present_passes [of acc a observed report s])
  fix s1 report1 claimed1 s2 report2 claimed2 s3 report3
  assume 1: "partition_pass acc a observed report s = (s1, report1, claimed1)"
    and 2: "attempt_pass acc a observed (fs_now s) (s1, report1, claimed1) = (s2, report2, claimed2)"
    and 3: "reconcile_unexpected acc a observed (fs_now s) claimed2 (bl_partitions observed) (s2, report2) = (s3, report3)"
    and eq: "reconcile_present acc a observed report s =
       (record_event EX_ReconciledMatch (bump_state_generation
          (upd_accelerator acc (\<lambda>a. a\<lparr>ac_evidence := refreshed_evidence a observed (fs_now s) s3\<rparr>) s3)), Inr report3)"
  have "surroundings s3 = surroundings s"
    using partition_pass_around(1) [of acc a observed report s] attempt_pass_around [of acc a observed "fs_now s" "(s1, report1, claimed1)"]
      reconcile_unexpected_around(1) [of acc a observed "fs_now s" claimed2 "bl_partitions observed" "(s2, report2)"] 1 2 3 by simp
  from surroundings_registered [OF this] show ?thesis by (simp add: eq)
qed

lemma reconcile_gone_registered: "registered (fst (reconcile_gone acc i p)) = registered (fst p)"
  by (simp add: reconcile_gone_def registered_rules split: option.split)

lemma reconcile_absent_registered: "registered (fst (reconcile_absent acc report s)) = registered s"
  by (simp add: reconcile_absent_def registered_rules for_keys_frame [where g = "\<lambda>p. registered (fst p)"] reconcile_gone_registered)

lemma reconcile_registered [simp]: "registered (fst (reconcile acc observed s)) = registered s"
proof (cases rule: reconcile_cases [of acc observed s])
  case (present al i a report f)
  have "registered (s\<lparr>fs_ids := al, fs_accelerators := om_modify acc f (fs_accelerators s)\<rparr>) = registered s"
    using registered_update(26) [of f acc "s\<lparr>fs_ids := al\<rparr>"] present(5) by simp
  then show ?thesis using present(6) reconcile_present_registered by simp
qed (simp_all add: reconcile_absent_registered)

section \<open>The constructor and the storage of plans\<close>

definition initial_state :: "limits \<Rightarrow> generation \<Rightarrow> string \<Rightarrow> u64 \<Rightarrow> fabric_state" where
  "initial_state l epoch name now_ms =
     \<lparr>fs_limits = l, fs_now = now_ms,
      fs_coordinator_epoch = (if gen_known epoch then epoch else gen_first),
      fs_state_generation = gen_first, fs_snapshot_generation = gen_first, fs_policy_generation = gen_first,
      fs_policy = make_default_policy gen_first, fs_ids = id_allocator_init,
      fs_accelerators = [], fs_ledgers = [], fs_stable_keys = [], fs_key_index = [], fs_profiles = [],
      fs_partitions = [], fs_plans = [], fs_reservations = [], fs_attempts = [], fs_assignments = [],
      fs_workers = [], fs_accelerator_owner = [], fs_evidence_generation = gen_first, fs_events = [],
      fs_event_sequence = 0, fs_instance_id = (if name = [] then ''apf-instance'' else name),
      fs_opened_at_ms = now_ms, fs_closed = False, fs_closed_at_ms = 0\<rparr>"

text \<open>A snapshot copies the state; all it changes is the generation of the snapshots.\<close>

definition take_snapshot :: "fabric_state \<Rightarrow> fabric_state" where
  "take_snapshot s =
     (case gen_next (fs_snapshot_generation s) of Inl _ \<Rightarrow> s | Inr g \<Rightarrow> s\<lparr>fs_snapshot_generation := g\<rparr>)"

section \<open>One call\<close>

text \<open>
  The steps that keep the device registry. The clock moves between calls. \<open>call_refused_report\<close> is
  what \<^verbatim>\<open>discover\<close> notes about a report that was refused.
\<close>

inductive fabric_call :: "fabric_state \<Rightarrow> fabric_state \<Rightarrow> bool" where
  call_clock: "fabric_call s (s\<lparr>fs_now := now_ms\<rparr>)"
| call_plan: "fabric_call s (fst (fabric_plan request s))"
| call_plan_on: "fabric_call s (fst (plan_on accelerator request s))"
| call_plan_reconfiguration: "fabric_call s (fst (plan_reconfiguration accelerator desired request s))"
| call_discard_plan: "fabric_call s (fst (discard_plan plan_id s))"
| call_reserve: "fabric_call s (fst (reserve plan_id s))"
| call_bind_reservation: "fabric_call s (fst (bind_reservation reservation worker boot epoch s))"
| call_release: "fabric_call s (fst (release_reservation reservation s))"
| call_fence: "fabric_call s (fst (fence_reservation reservation s))"
| call_register_attempt: "fabric_call s (fst (register_attempt reservation kind worker boot s))"
| call_execute_begin: "fabric_call s (fst (execute_begin require_worker reservation s))"
| call_apply_mutation: "fabric_call s (fst (apply_mutation_result_locked attempt mutation observed now_ms s))"
| call_mark_unknown: "fabric_call s (fst (mark_attempt_outcome_unknown attempt s))"
| call_note_worker: "fabric_call s (fst (note_worker w s))"
| call_note_worker_seen: "fabric_call s (fst (note_worker_seen worker boot now_ms s))"
| call_allocate_worker: "fabric_call s (fst (allocate_worker_id s))"
| call_bind_worker: "fabric_call s (fst (bind_accelerator_worker accelerator worker boot s))"
| call_fence_worker: "fabric_call s (fst (fence_worker_locked worker boot now_ms s))"
| call_advance_epoch: "fabric_call s (fst (advance_coordinator_epoch s))"
| call_install_epoch: "fabric_call s (fst (install_coordinator_epoch epoch s))"
| call_set_policy: "fabric_call s (fst (set_policy policy s))"
| call_update_health: "fabric_call s (fst (update_health accelerator health s))"
| call_mark_stale: "fabric_call s (fst (mark_evidence_stale accelerator s))"
| call_admit: "fabric_call s (fst (admit request s))"
| call_bind: "fabric_call s (fst (bind_assignment assignment s))"
| call_unbind: "fabric_call s (fst (unbind_assignment assignment_id s))"
| call_begin_drain: "fabric_call s (fst (begin_drain pid s))"
| call_begin_drain_accelerator: "fabric_call s (fst (begin_drain_accelerator accelerator s))"
| call_complete_drain: "fabric_call s (fst (complete_drain pid s))"
| call_cancel_drain: "fabric_call s (fst (cancel_drain pid s))"
| call_create_destruction: "fabric_call s (fst (create_destruction_reservation pid s))"
| call_destroy_begin: "fabric_call s (fst (destroy_begin pid s))"
| call_reconfigure_begin: "fabric_call s (fst (reconfigure_begin plan_id s))"
| call_reconcile: "fabric_call s (fst (reconcile accelerator observed s))"
| call_publish_capability: "fabric_call s (fst (publish_capability capability s))"
| call_register_profile: "fabric_call s (fst (register_profile profile s))"
| call_refused_report: "fabric_call s (record_event EX_CandidateRejected s)"
| call_snapshot: "fabric_call s (take_snapshot s)"
| call_close: "fabric_call s (fst (close_fabric s))"
| call_reopen: "fabric_call s (fst (reopen_fabric s))"

text \<open>
  With the registrations of devices, accepted or refused. The totals a device is registered with
  are an eight-entry array in the code.
\<close>

inductive fabric_step :: "fabric_state \<Rightarrow> fabric_state \<Rightarrow> bool" where
  step_call: "fabric_call s t \<Longrightarrow> fabric_step s t"
| step_register: "rv_wf (ac_physical_totals r) \<Longrightarrow> fabric_step s (fst (register_accelerator r s))"
| step_report: "rv_wf (ba_physical_totals b) \<Longrightarrow> fabric_step s (fst (register_backend_accelerator b s))"

text \<open>The calls of several sections are runs of these steps, whatever runs in between.\<close>

lemma discover_run:
  assumes "\<forall>bs. reported = Inr bs \<longrightarrow> (\<forall>b\<in>set bs. rv_wf (ba_physical_totals b))"
  shows "fabric_step\<^sup>*\<^sup>* s (fst (discover reported s))"
proof -
  have "fabric_step\<^sup>*\<^sup>* s (fst (discover_loop bs found s))" if "\<forall>b\<in>set bs. rv_wf (ba_physical_totals b)" for bs found s
    using that
  proof (induction bs arbitrary: found s)
    case (Cons b bs)
    obtain s1 r where b: "register_backend_accelerator b s = (s1, r)" by fastforce
    have s1: "fabric_step s s1" using step_report [of b s] Cons.prems b by simp
    show ?case
    proof (cases r)
      case (Inl e)
      have "fabric_step s1 (record_event EX_CandidateRejected s1)" by (rule step_call) (rule call_refused_report)
      with s1 Cons show ?thesis by (simp add: b Inl) (meson converse_rtranclp_into_rtranclp)
    next
      case (Inr i)
      with s1 Cons show ?thesis by (simp add: b) (meson converse_rtranclp_into_rtranclp)
    qed
  qed simp
  then show ?thesis using assms by (cases reported) (simp_all add: discover_def case_prod_beta)
qed

lemma reserve_for_worker_run:
  assumes "\<And>u. fabric_step\<^sup>*\<^sup>* u (before u)" "\<And>u. fabric_step\<^sup>*\<^sup>* u (between u)"
  shows "fabric_step\<^sup>*\<^sup>* s (fst (reserve_for_worker plan_id worker boot epoch before between s))"
proof -
  obtain s1 r where r: "reserve plan_id (before s) = (s1, r)" by fastforce
  have "fabric_step (before s) s1" using step_call [OF call_reserve [of "before s" plan_id]] r by simp
  then have s1: "fabric_step\<^sup>*\<^sup>* s s1" using assms(1) rtranclp.rtrancl_into_rtrancl by metis
  have "fabric_step\<^sup>*\<^sup>* s (fst (bind_reservation i worker boot epoch (between s1)))" for i
    using s1 assms(2) [of s1] step_call [OF call_bind_reservation] by (meson rtranclp.rtrancl_into_rtrancl rtranclp_trans)
  then show ?thesis using s1 by (simp add: reserve_for_worker_def r split: sum.split)
qed

definition fabric_init :: "fabric_state \<Rightarrow> bool" where
  "fabric_init s \<longleftrightarrow> (\<exists>l epoch name now_ms. s = initial_state l epoch name now_ms)"

section \<open>What every call keeps\<close>

lemma steady_registered: "steady s t \<Longrightarrow> registered t = registered s"
  by (simp add: steady_def registered_def)

lemma plan_room_registered [simp]: "registered (fst (plan_room s)) = registered s"
  by (simp add: plan_room_def Let_def)

lemma store_plan_registered [simp]: "registered (fst (store_plan p c s)) = registered s"
  by (simp add: store_plan_def Let_def case_prod_beta split: sum.split)

lemma fabric_plan_registered [simp]: "registered (fst (fabric_plan request s)) = registered s"
  by (simp add: fabric_plan_def registered_rules split: option.split sum.split)

lemma plan_on_registered [simp]: "registered (fst (plan_on a request s)) = registered s"
  by (simp add: plan_on_def registered_rules split: option.split sum.split)

lemma plan_reconfiguration_registered [simp]: "registered (fst (plan_reconfiguration a desired request s)) = registered s"
  by (simp add: plan_reconfiguration_def registered_rules split: option.split sum.split)

lemma call_registered: "fabric_call s t \<Longrightarrow> registered t = registered s"
  by (induction rule: fabric_call.induct)
    (simp_all add: steady_registered [OF publish_capability_steady] steady_registered [OF register_profile_steady] take_snapshot_def
      split: sum.split)

lemma plan_room_quiet: "quiet s (fst (plan_room s))"
  by (simp add: plan_room_def Let_def quiet_def prune_plans_def counters_advance_def)

lemma store_plan_quiet: "quiet s (fst (store_plan p c s))"
  using allocate_monotone [of "fs_ids s"]
  by (auto simp: store_plan_def Let_def quiet_def counters_advance_def split: prod.split sum.split)

lemma quiet_refl: "quiet s s"
  by (simp add: quiet_def counters_advance_def)

lemma fabric_plan_quiet: "quiet s (fst (fabric_plan request s))"
proof -
  obtain s1 r where p: "plan_room s = (s1, r)" by fastforce
  have "quiet s s1" using plan_room_quiet [of s] p by simp
  then have "quiet s (fst (store_plan q c s1))" for q c by (rule quiet_trans) (rule store_plan_quiet)
  then show ?thesis
    using \<open>quiet s s1\<close> by (auto simp: fabric_plan_def p Let_def quiet_refl quiet_event split: sum.split option.split)
qed

lemma plan_on_quiet: "quiet s (fst (plan_on a request s))"
  using fabric_plan_quiet by (auto simp: plan_on_def split: prod.split sum.split) (metis fst_conv)+

lemma plan_reconfiguration_quiet: "quiet s (fst (plan_reconfiguration a desired request s))"
proof -
  obtain s1 r where p: "plan_room s = (s1, r)" by fastforce
  have "quiet s s1" using plan_room_quiet [of s] p by simp
  then have "quiet s (fst (store_plan q c s1))" for q c by (rule quiet_trans) (rule store_plan_quiet)
  then show ?thesis using \<open>quiet s s1\<close> by (auto simp: plan_reconfiguration_def p quiet_refl split: sum.split)
qed

lemma clock_quiet: "quiet s (s\<lparr>fs_now := t\<rparr>)"
  by (simp add: quiet_def counters_advance_def)

lemma snapshot_quiet: "quiet s (take_snapshot s)"
  by (simp add: take_snapshot_def quiet_def counters_advance_def split: sum.split)

lemmas call_quiet = fabric_plan_quiet plan_on_quiet plan_reconfiguration_quiet clock_quiet snapshot_quiet quiet_event note_worker_seen_quiet allocate_worker_quiet
  bind_worker_quiet install_epoch_quiet set_policy_quiet update_health_quiet mark_stale_quiet discard_plan_quiet reopen_quiet

text \<open>Each call lets the ledgers grow and the authority advance.\<close>

abbreviation keeps_books :: "fabric_state \<Rightarrow> fabric_state \<Rightarrow> bool" where
  "keeps_books s t \<equiv> ledgers_grow s t \<and> authority_advances s t"

lemma settles_parts: "settles s t \<Longrightarrow> keeps_books s t"
  by (simp add: settles_def evolves_advances evolve_grow)

lemma steady_parts: "steady s t \<Longrightarrow> keeps_books s t"
  by (simp add: steady_def evolves_advances evolve_grow)

lemma quiet_parts: "quiet s t \<Longrightarrow> keeps_books s t"
  by (simp add: quiet_ledgers quiet_authority evolves_advances evolve_grow)

lemma evolves_parts: "ledgers_evolve s t \<Longrightarrow> authority_evolves s t \<Longrightarrow> keeps_books s t"
  by (simp add: evolves_advances evolve_grow)

lemma progresses_parts: "progresses s t \<Longrightarrow> keeps_books s t"
  by (simp add: progresses_def evolve_grow)

lemma call_evolves: "fabric_call s t \<Longrightarrow> registry_inv s \<Longrightarrow> keeps_books s t"
proof (induction rule: fabric_call.induct)
  case (call_reserve s plan_id)
  then show ?case by (simp add: registry_inv_def books_kept_def reserve_grow reserve_advances)
next
  case (call_bind_reservation s reservation worker boot epoch)
  have "fs_ledgers (fst (bind_reservation reservation worker boot epoch s)) = fs_ledgers s"
    by (simp add: bind_reservation_def Let_def split: option.split)
  then show ?case by (simp add: bind_reservation_advances evolve_grow ledgers_evolve_same)
next
  case (call_apply_mutation s attempt mutation observed now_ms)
  then show ?case
    by (simp add: registry_inv_def apply_mutation_ledgers apply_mutation_authority evolves_advances evolve_grow)
next
  case (call_reconcile s accelerator observed)
  then show ?case using reconcile_progresses by (simp add: registry_inv_def progresses_parts)
next
  case (call_register_attempt s reservation kind worker boot)
  then show ?case by (simp add: register_attempt_facts evolve_grow)
next
  case (call_execute_begin s require_worker reservation)
  then show ?case by (simp add: execute_begin_facts evolve_grow)
qed (rule quiet_parts settles_parts steady_parts evolves_parts progresses_parts;
     rule call_quiet create_destruction_progresses destroy_begin_progresses reconfigure_begin_progresses admit_settles bind_assignment_settles unbind_settles begin_drain_settles
       begin_drain_accelerator_settles complete_drain_settles cancel_drain_settles publish_capability_steady
       register_profile_steady release_reservation_ledgers release_reservation_authority fence_reservation_ledgers
       fence_reservation_authority mark_unknown_facts note_worker_ledgers note_worker_authority fence_worker_ledgers
       fence_worker_authority advance_epoch_ledgers advance_epoch_authority close_ledgers close_authority)+

lemma call_registry:
  assumes "fabric_call s t" "registry_inv s"
  shows "registry_inv t"
  using call_evolves [OF assms] call_registered [OF assms(1)] assms(2)
  by (intro registry_evolves [of s t]) (simp_all add: registered_def)

lemma step_registry: "fabric_step s t \<Longrightarrow> registry_inv s \<Longrightarrow> registry_inv t \<and> authority_advances s t"
proof (induction rule: fabric_step.induct)
  case (step_call s t)
  then show ?case using call_registry call_evolves by blast
qed (simp_all add: register_accelerator_registry register_backend_registry evolves_advances)

lemma initial_registry: "registry_inv (initial_state l epoch name now_ms)"
  by (simp add: registry_inv_def devices_keyed_def books_kept_def ledgers_balanced_def devices_booked_def ids_fresh_def used_ids_def
      keys_allocated_def initial_state_def om_sorted_def om_keys_def om_find_def)

interpretation fabric: inductive_invariant fabric_init fabric_step registry_inv
proof
  show "registry_inv s" if "fabric_init s" for s using that initial_registry by (auto simp: fabric_init_def)
  show "registry_inv t" if "registry_inv s" "fabric_step s t" for s t using step_registry [OF that(2,1)] by simp
qed

text \<open>
  The counters that other components compare against only move forwards. The steps of the system
  are restricted to the states its invariant holds in.
\<close>

definition live_step :: "fabric_state \<Rightarrow> fabric_state \<Rightarrow> bool" where
  "live_step s t \<longleftrightarrow> registry_inv s \<and> fabric_step s t"

lemma live_counters: "live_step s t \<Longrightarrow> counters_advance s t"
  using step_registry by (auto simp: live_step_def authority_advances_def)

interpretation epochs: monotone_system live_step fs_coordinator_epoch
  by standard (use live_counters in \<open>auto simp: counters_advance_def\<close>)

interpretation generations: monotone_system live_step fs_state_generation
  by standard (use live_counters in \<open>auto simp: counters_advance_def\<close>)

interpretation policies: monotone_system live_step fs_policy_generation
  by standard (use live_counters in \<open>auto simp: counters_advance_def\<close>)

interpretation identities: monotone_system live_step "\<lambda>s. ida_next (fs_ids s)"
  by standard (use live_counters in \<open>auto simp: counters_advance_def\<close>)

lemma run_live:
  assumes "registry_inv s" "fabric_step\<^sup>*\<^sup>* s t"
  shows "live_step\<^sup>*\<^sup>* s t"
  using assms(2)
proof (induction rule: rtranclp_induct)
  case (step u v)
  have "registry_inv u" using fabric.invar_run [OF assms(1) step(1)] .
  with step show ?case by (auto simp: live_step_def intro: rtranclp.rtrancl_into_rtrancl)
qed simp

lemma run_counters:
  assumes "registry_inv s" "fabric_step\<^sup>*\<^sup>* s t"
  shows "fs_coordinator_epoch s \<le> fs_coordinator_epoch t" "fs_state_generation s \<le> fs_state_generation t"
    "fs_policy_generation s \<le> fs_policy_generation t" "ida_next (fs_ids s) \<le> ida_next (fs_ids t)"
  using run_live [OF assms] epochs.reading_run generations.reading_run policies.reading_run identities.reading_run by blast+

text \<open>A run from a freshly constructed runtime.\<close>

abbreviation reachable :: "fabric_state \<Rightarrow> bool" where
  "reachable \<equiv> reachable_from fabric_init fabric_step"

lemma reachable_ledger:
  assumes "reachable s" "find_ledger k s = Some l"
  shows "ledger_balanced l" "\<not> rv_empty (cl_total l) \<Longrightarrow> ledger_validate l = success"
proof -
  show b: "ledger_balanced l"
    using fabric.invar_reachable [OF assms(1)] assms(2) by (auto simp: registry_inv_def books_kept_def ledgers_balanced_def)
  show "ledger_validate l = success" if "\<not> rv_empty (cl_total l)"
    using b that by (intro ledger_closed_validate) (simp add: ledger_closed_def)
qed

lemma reachable_device:
  assumes "reachable s" "find_accelerator k s = Some a" "id_valid (ac_id a)"
  obtains l where "ac_id a = k" "find_ledger k s = Some l" "ledger_balanced l"
proof -
  have inv: "registry_inv s" using fabric.invar_reachable [OF assms(1)] .
  have "ac_id a = k" using inv om_find_in_set [OF assms(2)] assms(3) by (force simp: registry_inv_def devices_keyed_def)
  moreover obtain l where l: "find_ledger k s = Some l"
    using inv assms(2,3) unfolding registry_inv_def devices_booked_def by blast
  ultimately show thesis using that reachable_ledger(1) [OF assms(1) l] by blast
qed

text \<open>The invariant that the exact effect of \<open>reserve\<close> is stated with, where every device publishes capacity.\<close>

lemma reachable_accounting_inv:
  assumes "reachable s" "\<And>k a. find_accelerator k s = Some a \<Longrightarrow> \<exists>l. find_ledger k s = Some l \<and> \<not> rv_empty (cl_total l)"
  shows "accounting_inv s"
proof -
  have "books_kept s" using fabric.invar_reachable [OF assms(1)] by (simp add: registry_inv_def)
  then show ?thesis
    using assms reachable_ledger(1) [OF assms(1)] by (fastforce simp: accounting_inv_def books_kept_def ledger_closed_def)
qed

lemma reachable_allocate:
  assumes "reachable s" "allocate (fs_ids s) = (al, Inr i)"
  shows "find_partition i s = None" "find_reservation i s = None" "find_attempt i s = None"
proof -
  have "ids_fresh s" using fabric.invar_reachable [OF assms(1)] by (simp add: registry_inv_def)
  then have "i \<notin> used_ids s" using assms(2) by (auto simp: ids_fresh_def allocate_Inr)
  then show "find_partition i s = None" "find_reservation i s = None" "find_attempt i s = None"
    by (simp_all add: used_ids_def om_find_eq_None)
qed

end
