(* ===== verification/APF_Liveness.thy ===== *)
theory APF_Liveness
  imports APF_System
begin

text \<open>
  Composition of the planner with the reservation (\<^verbatim>\<open>src/planner.cpp\<close>, \<^verbatim>\<open>src/fabric.cpp\<close>,
  \<^verbatim>\<open>src/accounting.cpp\<close>): a request that \<^verbatim>\<open>plan\<close> calls feasible now can be reserved, unless a
  registry is full, the identities run out or a dead partition is left on the device.
\<close>

section \<open>The demand of a plan\<close>

lemma needed_loop_uniform:
  assumes "\<forall>p\<in>set ps. pn_resources p = u" "rv_wf u" "rv_wf v" "rv_mask v = rv_mask u" "\<not> rv_empty u"
    "\<forall>i<8. rv_val v i + length ps * rv_val u i \<le> dim_cap i"
  shows "\<exists>w. needed_loop ps v = Inr w \<and> rv_wf w \<and> rv_mask w = rv_mask u \<and> (\<forall>i<8. rv_val w i = rv_val v i + length ps * rv_val u i)"
  using assms
proof (induction ps arbitrary: v)
  case (Cons p ps)
  have u: "pn_resources p = u" using Cons.prems(1) by simp
  have ne: "\<not> rv_empty v" using Cons.prems(4,5) by (simp add: rv_empty_def)
  have "dims_within u v" using Cons.prems(4) by (simp add: dims_within_def)
  moreover have "rv_val v i + rv_val u i \<le> dim_cap i" if "i < 8" for i
    using Cons.prems(6) that by (metis add_leD1 ab_semigroup_add_class.add_ac(1) length_Cons mult_Suc)
  ultimately obtain v' where v': "rv_add_assign v u = (v', success)" "rv_wf v'" "rv_mask v' = rv_mask v"
    "\<forall>i<8. rv_val v' i = rv_val v i + rv_val u i"
    using rv_add_assign_spec [OF Cons.prems(3), of u] by auto
  have le: "\<forall>i<8. rv_val v' i + length ps * rv_val u i \<le> dim_cap i"
    using Cons.prems(6) v'(4) by (simp add: algebra_simps)
  have all: "\<forall>p\<in>set ps. pn_resources p = u" and m: "rv_mask v' = rv_mask u" using Cons.prems(1,4) v'(3) by simp_all
  show ?case
    using Cons.IH [OF all Cons.prems(2) v'(2) m Cons.prems(5) le] v'(1,4) ne u by (simp add: algebra_simps)
qed simp

lemma needed_loop_planned:
  assumes "\<forall>p\<in>set ps. pn_resources p = u" "ps \<noteq> []" "rv_wf u" "\<not> rv_empty u"
    "\<forall>i<8. length ps * rv_val u i \<le> dim_cap i"
  shows "\<exists>w. needed_loop ps rv_zeros = Inr w \<and> rv_wf w \<and> rv_mask w = rv_mask u \<and> (\<forall>i<8. rv_val w i = length ps * rv_val u i)"
proof -
  obtain p qs where ps: "ps = p # qs" using assms(2) by (cases ps) auto
  have "needed_loop ps rv_zeros = needed_loop qs u" using assms(1) ps by (simp add: rv_empty_def rv_zeros_def)
  then show ?thesis
    using needed_loop_uniform [of qs u u] assms ps by simp
qed

section \<open>The records of a reservation\<close>

lemma reserved_record_valid:
  assumes "id_valid i" "id_valid (pb_accelerator (pl_binding plan))" "gen_known (pb_accelerator_generation (pl_binding plan))"
    "id_valid (pn_profile p)" "\<not> rv_empty (pn_resources p)"
  shows "partition_validate (reserved_record plan p i s) = success"
  using assms
  by (simp add: partition_validate_def reserved_record_def partition_default_def held_bucket_check_def drain_check_def
      drain_none_def holds_capacity_def gen_first_def gen_known_def)

lemma create_reserved_succeeds:
  assumes "\<forall>p\<in>set ps. id_valid (pn_profile p) \<and> \<not> rv_empty (pn_resources p)"
    "id_valid (pb_accelerator (pl_binding plan))" "gen_known (pb_accelerator_generation (pl_binding plan))"
    "ida_next (fs_ids s) \<noteq> 0" "unat (ida_next (fs_ids s)) + length ps < 2 ^ 64"
  shows "\<exists>t new. create_reserved plan ps acc s = (t, acc @ new, success) \<and> length new = length ps"
  using assms
proof (induction ps arbitrary: acc s)
  case (Cons p ps)
  let ?n = "ida_next (fs_ids s)" and ?a = "(fs_ids s)\<lparr>ida_next := ida_next (fs_ids s) + 1\<rparr>"
  have lt: "?n \<noteq> UINT64_MAX" using Cons.prems(5) by (auto simp: word_neq_max_iff)
  then have al: "allocate (fs_ids s) = (?a, Inr ?n)" by (simp add: allocate_def)
  have v: "partition_validate (reserved_record plan p ?n (s\<lparr>fs_ids := ?a\<rparr>)) = success"
    by (rule reserved_record_valid) (use Cons.prems in \<open>simp_all add: id_valid_def\<close>)
  let ?s = "s\<lparr>fs_ids := ?a, fs_partitions := om_set ?n (reserved_record plan p ?n (s\<lparr>fs_ids := ?a\<rparr>)) (fs_partitions s)\<rparr>"
  have "\<exists>t new. create_reserved plan ps (acc @ [?n]) ?s = (t, (acc @ [?n]) @ new, success) \<and> length new = length ps"
    by (rule Cons.IH) (use Cons.prems lt succ_u64_nonzero unat_succ_u64 in auto)
  then obtain t new where "create_reserved plan ps (acc @ [?n]) ?s = (t, (acc @ [?n]) @ new, success)" "length new = length ps"
    by blast
  then show ?case using al v by (intro exI [of _ t] exI [of _ "?n # new"]) (simp add: Let_def)
qed simp

lemma reserve_commit_succeeds:
  assumes ps: "\<forall>p\<in>set (pl_planned_partitions plan). id_valid (pn_profile p) \<and> \<not> rv_empty (pn_resources p)"
    and b: "id_valid (pb_accelerator (pl_binding plan))" "gen_known (pb_accelerator_generation (pl_binding plan))"
      "gen_known (pb_capability_generation (pl_binding plan))" "id_valid (pl_id plan)" "gen_known (pl_generation plan)"
    and s: "gen_known (fs_policy_generation s)" "ida_next (fs_ids s) \<noteq> 0"
      "unat (ida_next (fs_ids s)) + length (pl_planned_partitions plan) + 1 < 2 ^ 64"
    and n: "\<not> rv_empty needed"
  shows "\<exists>t r. reserve_commit pid plan needed s = (t, Inr r) \<and> length (rs_partitions r) = length (pl_planned_partitions plan) \<and>
    rs_resources r = needed \<and> rs_accelerator r = pb_accelerator (pl_binding plan)"
proof -
  let ?n = "ida_next (fs_ids s)" and ?a = "(fs_ids s)\<lparr>ida_next := ida_next (fs_ids s) + 1\<rparr>"
  have lt: "?n \<noteq> UINT64_MAX" using s(3) by (auto simp: word_neq_max_iff)
  then have al: "allocate (fs_ids s) = (?a, Inr ?n)" by (simp add: allocate_def)
  obtain t new where c: "create_reserved plan (pl_planned_partitions plan) [] (s\<lparr>fs_ids := ?a\<rparr>) = (t, new, success)"
    "length new = length (pl_planned_partitions plan)"
    using create_reserved_succeeds [OF ps b(1,2), of "s\<lparr>fs_ids := ?a\<rparr>" "[]"] lt succ_u64_nonzero [OF lt] unat_succ_u64 [OF lt] s(3)
    by auto
  have v: "reservation_validate (new_reservation plan needed ?n new s) = success"
    using b s n by (simp add: reservation_validate_def new_reservation_def reservation_default_def id_valid_def)
  show ?thesis
    using al c v by (simp add: reserve_commit_def Let_def new_reservation_def)
qed

section \<open>A plan that is feasible now can be reserved\<close>

text \<open>The registries have room for one more reservation of \<open>n\<close> partitions.\<close>

definition reservation_room :: "nat \<Rightarrow> fabric_state \<Rightarrow> bool" where
  "reservation_room n s \<longleftrightarrow> active_reservations s < max_active_reservations (fs_limits s) \<and>
     length (fs_reservations s) < max_reservations (fs_limits s) \<and> unat (ida_next (fs_ids s)) + n + 1 < 2 ^ 64"

lemma reserve_succeeds:
  assumes inv: "books_kept s" and open': "\<not> fs_closed s" and p: "find_plan pid s = Some plan" "pl_outcome plan = PO_FeasibleNow"
    and valid: "validate_plan_binding s plan (fs_now s) (pp_require_fresh_evidence (fs_policy s)) = success"
    and roomy: "reservation_room (length (pl_planned_partitions plan)) s"
    and u: "\<forall>q\<in>set (pl_planned_partitions plan). pn_resources q = u \<and> id_valid (pn_profile q)" "pl_planned_partitions plan \<noteq> []"
      "rv_wf u" "rv_mask_ok u" "\<not> rv_empty u"
    and l: "find_ledger (pb_accelerator (pl_binding plan)) s = Some l" "dims_within u (cl_total l)"
      "\<forall>i<8. length (pl_planned_partitions plan) * rv_val u i \<le> rv_val (ledger_bucket l Bucket_Free) i"
    and known: "gen_known (pb_accelerator_generation (pl_binding plan))" "gen_known (pb_capability_generation (pl_binding plan))"
      "id_valid (pl_id plan)" "gen_known (pl_generation plan)" "gen_known (fs_policy_generation s)" "ida_next (fs_ids s) \<noteq> 0"
  shows "\<exists>t r. reserve pid s = (t, Inr r) \<and> length (rs_partitions r) = length (pl_planned_partitions plan) \<and>
    rs_accelerator r = pb_accelerator (pl_binding plan)"
proof -
  let ?a = "pb_accelerator (pl_binding plan)" and ?n = "length (pl_planned_partitions plan)"
  have bal: "ledger_balanced l" using inv l(1) by (auto simp: books_kept_def ledgers_balanced_def)
  have len: "length (cl_buckets l) = 6" using bal by (simp add: ledger_balanced_def ledger_wf_def)
  have free: "ledger_bucket l Bucket_Free = cl_buckets l ! bucket_index Bucket_Free" using len by (simp add: ledger_bucket_def)
  have cap: "rv_val (cl_buckets l ! bucket_index Bucket_Free) i \<le> dim_cap i" if "i < 8" for i
    using ledger_balanced_pair_cap [OF bal, of "bucket_index Bucket_Free" "bucket_index Bucket_Active" i] that by simp
  have le: "\<forall>i<8. ?n * rv_val u i \<le> dim_cap i" using l(3) cap unfolding free by (auto intro: order_trans)
  obtain w where w: "needed_loop (pl_planned_partitions plan) rv_zeros = Inr w" "rv_wf w" "rv_mask w = rv_mask u"
    "\<forall>i<8. rv_val w i = ?n * rv_val u i"
    using needed_loop_planned [OF _ u(2,3,5) le] u(1) by auto
  have mask: "rv_mask (cl_buckets l ! bucket_index Bucket_Free) = rv_mask (cl_total l)"
    using bal ledger_wf_bucket [of l "bucket_index Bucket_Free"] by (simp add: ledger_balanced_def)
  have "is_subset_of w (cl_buckets l ! bucket_index Bucket_Free)" "rv_mask_ok w"
    using w(3,4) l(2,3) u(4) mask unfolding free by (auto simp: is_subset_of_iff dims_within_def rv_mask_ok_def)
  then obtain l' where l': "ledger_reserve w l = (l', success)"
    using ledger_move_ok [OF bal, of Bucket_Free Bucket_Reserved w] w(3) u(5)
    by (auto simp: ledger_reserve_def rv_empty_def)
  have ne: "\<not> rv_empty w" using w(3) u(5) by (simp add: rv_empty_def)
  have b: "id_valid ?a" using valid by (simp add: validate_plan_binding_iff)
  have prune: "prune_reservations s = s" using roomy by (simp add: prune_reservations_def reservation_room_def)
  have upd: "om_set ?a l' (fs_ledgers s) = om_modify ?a (\<lambda>_. l') (fs_ledgers s)"
    using om_set_existing [of "fs_ledgers s" ?a l l'] l(1) inv by (simp add: books_kept_def)
  have "reserve pid s = reserve_commit pid plan w (upd_ledger ?a l' s)"
    using open' p valid roomy w(1) l(1) l'
    by (simp add: reserve_def check_open_def plan_feasible_def plan_outcome_feasible_def reservation_room_def prune Let_def upd)
  moreover have "\<exists>t r. reserve_commit pid plan w (upd_ledger ?a l' s) = (t, Inr r) \<and> length (rs_partitions r) = ?n \<and>
      rs_resources r = w \<and> rs_accelerator r = ?a"
    by (rule reserve_commit_succeeds) (use u known b ne roomy in \<open>simp_all add: reservation_room_def\<close>)
  ultimately show ?thesis by auto
qed

lemma reachable_counters:
  assumes "reachable s"
  shows "ida_next (fs_ids s) \<noteq> 0" "gen_known (fs_policy_generation s)"
proof -
  have "1 \<le> ida_next (fs_ids s) \<and> 1 \<le> fs_policy_generation s"
    using assms
  proof (induction rule: reachable_from.induct)
    case (reach_start s)
    then show ?case by (auto simp: fabric_init_def initial_state_def id_allocator_init_def gen_first_def)
  next
    case (reach_next s t)
    have "counters_advance s t"
      using step_registry [OF reach_next(2) fabric.invar_reachable [OF reach_next(1)]] by (simp add: authority_advances_def)
    then show ?case using reach_next(3) by (auto simp: counters_advance_def)
  qed
  then show "ida_next (fs_ids s) \<noteq> 0" "gen_known (fs_policy_generation s)" by (auto simp: gen_known_def)
qed

text \<open>What a planning call that made a new plan did.\<close>

lemma new_plan_parts:
  assumes "fabric_plan request s = (t, Inr p)" "planned_already (request_digest request) (fs_now s) s = None"
  obtains s1 q steps cs where "plan_room s = (s1, success)" "build_plan request (fs_now s) s1 = (q, steps, cs)"
    "p = q\<lparr>pl_id := ida_next (fs_ids s), pl_generation := gen_first\<rparr>" "\<not> fs_closed s"
    "ida_next (fs_ids t) = ida_next (fs_ids s) + 1" "find_plan (pl_id p) t = Some p" "ida_next (fs_ids s) \<noteq> UINT64_MAX"
    "t = record_event (if plan_feasible q then EX_PlanFeasibleNow else EX_PlanNoEligibleAccelerator)
       (s1\<lparr>fs_ids := fs_ids t, fs_plans := om_set (pl_id p) p (fs_plans s1)\<rparr>)"
    "s1 = s\<lparr>fs_plans := fs_plans s1\<rparr>"
proof -
  obtain s1 r where room: "plan_room s = (s1, r)" by fastforce
  have op: "\<not> fs_closed s" using assms(1) by (auto simp: fabric_plan_def check_open_def)
  have r: "r = success" using assms room op by (cases r) (auto simp: fabric_plan_def check_open_def)
  have "\<exists>m. s1 = s\<lparr>fs_plans := m\<rparr>"
  proof (cases "max_pending_plans (fs_limits s) \<le> length (fs_plans s)")
    case True
    then have "s1 = prune_plans s" using room by (simp add: plan_room_def Let_def split: if_splits)
    then show ?thesis unfolding prune_plans_def by blast
  next
    case False
    then show ?thesis using room by (intro exI [of _ "fs_plans s"]) (simp add: plan_room_def)
  qed
  then obtain m where m: "s1 = s\<lparr>fs_plans := m\<rparr>" by blast
  then have frame: "fs_now s1 = fs_now s" "fs_ids s1 = fs_ids s" and s1: "s1 = s\<lparr>fs_plans := fs_plans s1\<rparr>" by simp_all
  obtain q steps cs where b: "build_plan request (fs_now s) s1 = (q, steps, cs)" by (metis prod.exhaust)
  let ?c = "if plan_feasible q then EX_PlanFeasibleNow else EX_PlanNoEligibleAccelerator"
  have st: "store_plan q ?c s1 = (t, Inr p)"
    using assms room r op b frame by (simp add: fabric_plan_def check_open_def Let_def)
  have al: "allocate (fs_ids s) = ((fs_ids s)\<lparr>ida_next := ida_next (fs_ids s) + 1\<rparr>, Inr (ida_next (fs_ids s)))"
    "ida_next (fs_ids s) \<noteq> UINT64_MAX"
    using st frame by (auto simp: store_plan_def allocate_def split: if_splits)
  have p: "p = q\<lparr>pl_id := ida_next (fs_ids s), pl_generation := gen_first\<rparr>"
    "t = record_event ?c (s1\<lparr>fs_ids := (fs_ids s)\<lparr>ida_next := ida_next (fs_ids s) + 1\<rparr>, fs_plans := om_set (ida_next (fs_ids s)) p (fs_plans s1)\<rparr>)"
    using st frame al by (auto simp: store_plan_def Let_def)
  show thesis
    by (rule that [OF room [unfolded r] b p(1) op _ _ al(2) _ s1]) (use p in \<open>simp_all add: apf_lookup\<close>)
qed

lemma profile_validate_parts:
  assumes "profile_validate profile l = success"
  shows "id_valid (pf_id profile)" "\<not> rv_empty (pf_resources profile)" "rv_mask_ok (pf_resources profile)"
  using assms by (auto simp: profile_validate_def validate_dimensions_iff split: if_splits sum.splits)

lemma validate_binding_frame:
  assumes "fs_policy_generation t = fs_policy_generation s" "fs_accelerators t = fs_accelerators s" "fs_partitions t = fs_partitions s"
    "pl_binding p = pl_binding q" "pl_terminal p = pl_terminal q"
  shows "validate_plan_binding t p n f = validate_plan_binding s q n f"
  by (simp only: validate_plan_binding_def assms)

lemma planned_then_reserved:
  assumes reach: "reachable s" and plan: "fabric_plan request s = (t, Inr p)"
    and new: "planned_already (request_digest request) (fs_now s) s = None" and out: "pl_outcome p = PO_FeasibleNow"
    and prof: "find_profile (rq_profile request) s = Some profile" "profile_validate profile (fs_limits s) = success"
      "rv_wf (pf_resources profile)"
    and dims: "\<forall>l. find_ledger (pb_accelerator (pl_binding p)) s = Some l \<longrightarrow> dims_within (pf_resources profile) (cl_total l)"
    and dead: "\<not> (\<exists>r\<in>set (om_values (fs_partitions s)). dead_on (pb_accelerator (pl_binding p)) r)"
    and win: "planning_window request (fs_now s) s = 0 \<or> fs_now s \<le> planning_window request (fs_now s) s"
    and roomy: "reservation_room (unat (rq_count request)) t"
  shows "\<exists>u r. reserve (pl_id p) t = (u, Inr r) \<and> length (rs_partitions r) = unat (rq_count request) \<and>
    rs_accelerator r = pb_accelerator (pl_binding p)"
  using plan new
proof (rule new_plan_parts)
  fix s1 q steps cs
  assume room: "plan_room s = (s1, success)" and b: "build_plan request (fs_now s) s1 = (q, steps, cs)"
    and p: "p = q\<lparr>pl_id := ida_next (fs_ids s), pl_generation := gen_first\<rparr>" and op: "\<not> fs_closed s"
    and ids: "ida_next (fs_ids t) = ida_next (fs_ids s) + 1" and f: "find_plan (pl_id p) t = Some p"
    and lt: "ida_next (fs_ids s) \<noteq> UINT64_MAX"
    and t: "t = record_event (if plan_feasible q then EX_PlanFeasibleNow else EX_PlanNoEligibleAccelerator)
       (s1\<lparr>fs_ids := fs_ids t, fs_plans := om_set (pl_id p) p (fs_plans s1)\<rparr>)"
    and s1: "s1 = s\<lparr>fs_plans := fs_plans s1\<rparr>"
  obtain m where m: "s1 = s\<lparr>fs_plans := m\<rparr>" using s1 by blast
  obtain c m' ids' where t': "t = record_event c (s\<lparr>fs_ids := ids', fs_plans := m'\<rparr>)" using t unfolding m by simp
  have inv: "registry_inv s" using fabric.invar_reachable [OF reach] .
  have keyed: "devices_keyed s1" using inv by (simp add: m registry_inv_def devices_keyed_def)
  have feas: "plan_feasible q" using out by (simp add: p plan_feasible_def plan_outcome_feasible_def)
  note choice = build_plan_choice [OF keyed b feas]
  obtain acc l where acc: "find_accelerator (pb_accelerator (pl_binding q)) s = Some acc" "find_ledger (pb_accelerator (pl_binding q)) s = Some l"
    "device_has_room s1 acc l profile (rq_count request)" "pl_planned_partitions q = map (planned_of profile) [0..<unat (rq_count request)]"
    "candidate_rejection s1 request profile (fs_now s) (planning_fresh request s1) acc = None"
    using choice prof(1) out by (auto simp: m p)
  have window: "planning_window request (fs_now s) s1 = planning_window request (fs_now s) s"
    by (simp only: m planning_window_def) simp
  have valid: "validate_plan_binding s1 q (fs_now s) (pp_require_fresh_evidence (fs_policy s)) = success"
    using fresh_plan_accepted [OF keyed b feas] win dead window by (simp add: m p)
  then have valid': "validate_plan_binding t p (fs_now t) (pp_require_fresh_evidence (fs_policy t)) = success"
    using validate_binding_frame [of t s1 p q] by (simp add: t' m p)
  have cnt: "rq_count request \<noteq> 0"
    using acc(5) keyed b feas by (auto elim!: feasible_plan_chosen simp: request_validate_def split: if_splits)
  have fits: "\<forall>i<8. unat (rq_count request) * rv_val (pf_resources profile) i \<le> rv_val (ledger_bucket l Bucket_Free) i"
    using acc(3) by (simp add: device_has_room_def Let_def)
  have bind: "gen_known (pb_accelerator_generation (pl_binding q))" "gen_known (pb_capability_generation (pl_binding q))"
    using valid acc(1,5) by (auto simp: validate_plan_binding_iff m candidate_rejection_def is_governable_at_def Let_def split: if_splits)
  note counters = reachable_counters [OF reach]
  show ?thesis
  proof -
    have "\<exists>u r. reserve (pl_id p) t = (u, Inr r) \<and> length (rs_partitions r) = length (pl_planned_partitions p) \<and>
        rs_accelerator r = pb_accelerator (pl_binding p)"
    proof (rule reserve_succeeds [OF _ _ f out valid', where u = "pf_resources profile" and l = l])
      show "books_kept t" using inv by (simp add: registry_inv_def books_kept_def ledgers_balanced_def t')
      show "ida_next (fs_ids t) \<noteq> 0" using ids succ_u64_nonzero [OF lt] by simp
      show "dims_within (pf_resources profile) (cl_total l)" using dims acc(2) by (simp add: p)
    qed (use op roomy acc prof profile_validate_parts [OF prof(2)] fits bind counters cnt in
        \<open>auto simp: t' p planned_of_def id_valid_def gen_known_def gen_first_def unat_gt_0\<close>)
    then show ?thesis using acc(4) by (simp add: p)
  qed
qed

text \<open>
  A full registry of plans stays full: the pruning keeps as many plans as the bound allows, and the
  call needs one less, so that even terminal plans are never dropped.
\<close>

lemma full_registry_refused:
  assumes "length (fs_plans s) = max_pending_plans (fs_limits s)" "\<not> fs_closed s"
    "planned_already (request_digest request) (fs_now s) s = None"
  shows "fabric_plan request s = (s, Inl E_LimitExceeded)"
proof -
  have "prune b P m n = m" if "n \<le> b" for b P and m :: "(u64 \<times> partition_plan) list" and n
    using that by (cases m) auto
  then have "prune_plans s = s" using assms(1) by (simp add: prune_plans_def)
  then have "plan_room s = (s, Inl E_LimitExceeded)" using assms(1) by (simp add: plan_room_def Let_def)
  then show ?thesis using assms(2,3) by (simp add: fabric_plan_def check_open_def)
qed

end
