(* ===== verification/APF_Example.thy ===== *)
theory APF_Example
  imports APF_Liveness
begin

text \<open>
  A small instance used to show that the hypotheses of the properties are satisfiable: one
  synthetic device with a compute share and memory, one profile, one feasible plan for one
  partition and one worker. The later states are the results of the modelled operations on it.
\<close>

definition demo_limits :: limits where
  "demo_limits =
     \<lparr>max_accelerators = 4, max_profiles = 4, max_partitions_per_accelerator = 4, max_partitions = 8,
      max_assignments = 8, max_reservations = 8, max_active_reservations = 4, max_pending_plans = 4,
      max_plan_steps = 8, max_pending_attempts = 4, max_attempt_history = 8, max_snapshot_retention = 2,
      max_events = 4, max_explanations = 4, max_reconciliation_findings = 4, max_metadata_bytes = 16,
      max_native_id_bytes = 8, max_name_bytes = 8, max_workers = 2, max_frame_bytes = 64,
      max_message_queue = 4, max_synthetic_devices = 2, max_synthetic_partitions = 4,
      max_persisted_records = 16, max_profile_exclusions = 4, max_retry_state = 2\<rparr>"

definition demo_stamp :: evidence_stamp where
  "demo_stamp =
     \<lparr>es_generation = 1, es_provenance = Provenance_Synthetic, es_observed_at_ms = 1000,
      es_ttl_ms = 30000, es_source = ''synthetic'', es_observed = True\<rparr>"

definition demo_vector :: "u64 \<Rightarrow> u64 \<Rightarrow> resource_vector" where
  "demo_vector share bytes = \<lparr>rv_values = [share, bytes, 0, 0, 0, 0, 0, 0], rv_mask = 3\<rparr>"

definition demo_totals :: resource_vector where
  "demo_totals = demo_vector 1000000 64"

definition demo_slice :: resource_vector where
  "demo_slice = demo_vector 250000 16"

definition demo_capability :: partition_capability where
  "demo_capability = capability_default
     \<lparr>cap_accelerator := 1, cap_device_generation := 1, cap_generation := 1,
      cap_topology_generation := 1, cap_support := Support_Supported,
      cap_mechanism := Mechanism_Synthetic, cap_mechanism_name := ''synthetic'',
      cap_supported_profiles := [5], cap_max_partition_count := 4, cap_isolation := 3,
      cap_backend_name := ''synthetic'', cap_evidence := demo_stamp\<rparr>"

definition demo_accelerator :: accelerator_record where
  "demo_accelerator =
     \<lparr>ac_id = 1, ac_generation = 1, ac_boot_id = 7, ac_backend = ''synthetic'',
      ac_identifiers = \<lparr>di_vendor = ''apf'', di_model = ''synth'', di_uuid = ''u1'', di_pci_bus_id = [],
        di_hardware_id = [], di_firmware_version = [], di_driver_version = [], di_serial = [],
        di_compute_capability = []\<rparr>,
      ac_physical_totals = demo_totals, ac_capability = demo_capability, ac_topology_generation = 1,
      ac_locality = \<lparr>ld_name = [], ld_numa_node = -1\<rparr>,
      ac_health = \<lparr>he_state = Health_Healthy, he_stamp = demo_stamp, he_source = ''synthetic''\<rparr>,
      ac_evidence = demo_stamp, ac_provenance = Provenance_Synthetic, ac_unsupported_reason = [],
      ac_registered_at_ms = 1000, ac_updated_at_ms = 1000\<rparr>"

definition demo_profile :: partition_profile where
  "demo_profile =
     \<lparr>pf_id = 5, pf_generation = 1, pf_name = ''quarter'', pf_vendor_native = ''q1'',
      pf_backend = ''synthetic'', pf_mechanism = Mechanism_Synthetic, pf_resources = demo_slice,
      pf_compute_slice_count = 1, pf_memory_slice_count = 1, pf_engine_grouping = Grouping_Shared,
      pf_max_multiplicity = 4,
      pf_alignment = \<lparr>pa_compute_slice_multiple = 1, pa_memory_slice_multiple = 1,
        pa_requires_contiguous_slices = False, pa_requires_atomic_slice = False\<rparr>,
      pf_mutually_exclusive_with = [], pf_requires_full_device_reconfiguration = False,
      pf_live_repartitioning_supported = True, pf_backend_requirements = [], pf_description = []\<rparr>"

definition demo_request :: partition_request where
  "demo_request =
     \<lparr>rq_profile = 5, rq_count = 1, rq_minimum_resources = rv_zeros,
      rq_isolation = \<lparr>ir_required = 0, ir_policy = 0, ir_policy_generation = 0\<rparr>,
      rq_exclusive = True, rq_allow_drain = False, rq_allow_destructive_reconfiguration = False,
      rq_allow_degraded_device = False, rq_allow_shared_device = True,
      rq_selector = \<lparr>ds_backend = [], ds_vendor = [], ds_device_family = [], ds_locality_domain = [],
        ds_allowed = [], ds_excluded = []\<rparr>,
      rq_policy_class = [], rq_max_evidence_age_ms = 0, rq_requester = ''demo'',
      rq_all_or_nothing = True, rq_request_tag = []\<rparr>"

definition demo_plan :: partition_plan where
  "demo_plan =
     \<lparr>pl_id = 10, pl_generation = 1, pl_request = demo_request, pl_outcome = PO_FeasibleNow,
      pl_binding = \<lparr>pb_accelerator = 1, pb_accelerator_generation = 1, pb_accelerator_boot = 7,
        pb_capability_generation = 1, pb_topology_generation = 1, pb_policy_generation = 1,
        pb_coordinator_epoch = 1, pb_state_generation = 1, pb_evidence_generation = 1,
        pb_planned_at_ms = 1000, pb_valid_until_ms = 0, pb_layout = []\<rparr>,
      pl_planned_partitions = [\<lparr>pn_profile = 5, pn_profile_generation = 1, pn_resources = demo_slice,
        pn_ordinal = 0, pn_vendor_native_profile = ''q1''\<rparr>],
      pl_created_at_ms = 1000, pl_request_digest = 0, pl_terminal = False\<rparr>"

definition demo_worker :: worker_record where
  "demo_worker =
     \<lparr>wk_id = 3, wk_boot = 9, wk_endpoint = ''local'', wk_backend = ''synthetic'', wk_alive = True,
      wk_fenced = False, wk_device_count = 1, wk_registered_at_ms = 1000, wk_last_seen_ms = 1000,
      wk_fenced_at_ms = 0, wk_coordinator_epoch = 1\<rparr>"

definition demo_ledger :: capacity_ledger where
  "demo_ledger = fst (initialize_totals demo_totals ledger_empty)"

definition demo_state :: fabric_state where
  "demo_state =
     \<lparr>fs_limits = demo_limits, fs_now = 2000, fs_coordinator_epoch = 1, fs_state_generation = 1,
      fs_snapshot_generation = 0, fs_policy_generation = 1, fs_policy = make_default_policy 1,
      fs_ids = \<lparr>ida_next = 11\<rparr>, fs_accelerators = [(1, demo_accelerator)],
      fs_ledgers = [(1, demo_ledger)], fs_stable_keys = [(1, ''dev0'')],
      fs_key_index = [(''dev0'', 1)], fs_profiles = [(5, demo_profile)], fs_partitions = [],
      fs_plans = [(10, demo_plan)], fs_reservations = [], fs_attempts = [], fs_assignments = [],
      fs_workers = [(3, demo_worker)], fs_accelerator_owner = [], fs_evidence_generation = 1,
      fs_events = [], fs_event_sequence = 0, fs_instance_id = ''demo'', fs_opened_at_ms = 0,
      fs_closed = False, fs_closed_at_ms = 0\<rparr>"

text \<open>The plan is reserved, dispatched and committed; a workload is admitted; the partition drains.\<close>

definition demo_reserved :: fabric_state where
  "demo_reserved = fst (reserve 10 demo_state)"

definition demo_dispatched :: fabric_state where
  "demo_dispatched = fst (execute_begin False 11 demo_reserved)"

definition demo_native :: backend_native_partition where
  "demo_native =
     \<lparr>bn_native_id = ''n1'', bn_instance_uuid = ''iu1'', bn_vendor_native_profile = ''q1'',
      bn_profile = 5, bn_resources = demo_slice, bn_isolation_domain = ''d1'', bn_isolation = 3,
      bn_live = True\<rparr>"

definition demo_layout :: backend_layout where
  "demo_layout =
     \<lparr>bl_stable_key = ''dev0'', bl_device_present = True, bl_boot_id = 7, bl_physical_totals = demo_totals,
      bl_partitions = [demo_native], bl_evidence = demo_stamp\<rparr>"

definition demo_accepted :: mutation_result where
  "demo_accepted =
     \<lparr>mu_accepted = True, mu_ambiguous = False, mu_created_native_ids = [''n1''],
      mu_observed_layout = demo_layout\<rparr>"

definition demo_committed :: fabric_state where
  "demo_committed = fst (apply_mutation_result 13 demo_accepted (Some demo_layout) demo_dispatched)"

definition demo_workload :: workload_requirement where
  "demo_workload =
     \<lparr>wr_workload_id = ''w'', wr_tenant_id = [], wr_required_profile = 5,
      wr_minimum_resources = rv_zeros,
      wr_isolation = \<lparr>ir_required = 0, ir_policy = 0, ir_policy_generation = 0\<rparr>,
      wr_exclusive = True, wr_allow_reconfiguration = False, wr_allow_drain = False,
      wr_backend = [], wr_device_family = [], wr_locality_domain = [], wr_required_freshness_ms = 0,
      wr_policy_class = [], wr_requested_partition_count = 1\<rparr>"

definition demo_admitted :: fabric_state where
  "demo_admitted = fst (admit demo_workload demo_committed)"

definition demo_draining :: fabric_state where
  "demo_draining = fst (begin_drain 12 demo_admitted)"

text \<open>A freshly constructed runtime, a device registered in it, and a device that reports another boot identity.\<close>

definition demo_new :: fabric_state where
  "demo_new = initial_state demo_limits 1 ''demo'' 1000"

definition demo_bare :: accelerator_record where
  "demo_bare = demo_accelerator\<lparr>ac_capability := capability_default\<rparr>"

definition demo_registered :: fabric_state where
  "demo_registered = fst (register_accelerator demo_bare demo_new)"

definition demo_partition :: partition_record where
  "demo_partition = partition_default
     \<lparr>pr_id := 12, pr_generation := 1, pr_profile := 5, pr_profile_generation := 1, pr_mechanism := Mechanism_Synthetic,
      pr_accelerator := 1, pr_accelerator_generation := 1, pr_accelerator_boot := 7, pr_resources := demo_slice,
      pr_state := PS_Active, pr_held_bucket := Some Bucket_Free, pr_evidence := demo_stamp\<rparr>"

definition demo_report :: backend_accelerator where
  "demo_report =
     \<lparr>ba_stable_key = ''dev0'', ba_backend = ''synthetic'', ba_identifiers = ac_identifiers demo_accelerator,
      ba_physical_totals = demo_totals, ba_capability = demo_capability\<lparr>cap_accelerator := 0, cap_exposed_dimensions := [ComputeShare]\<rparr>,
      ba_profiles = [demo_profile], ba_boot_id = 8, ba_locality = ac_locality demo_accelerator,
      ba_evidence = demo_stamp, ba_provenance = Provenance_Synthetic, ba_unsupported_reason = []\<rparr>"

definition demo_reset :: fabric_state where
  "demo_reset = fst (register_backend_accelerator demo_report demo_reserved)"

text \<open>A device that offers its profile, ready for planning, and a runtime that may rebuild its device.\<close>

definition demo_offer :: partition_capability where
  "demo_offer = demo_capability\<lparr>cap_exposed_dimensions := [ComputeShare]\<rparr>"

definition demo_ready :: fabric_state where
  "demo_ready =
     fst (publish_capability demo_offer (fst (register_accelerator demo_bare (fst (register_profile demo_profile demo_new)))))"

definition demo_oversized :: partition_request where
  "demo_oversized = demo_request\<lparr>rq_count := 4, rq_isolation := \<lparr>ir_required = 4, ir_policy = 0, ir_policy_generation = 0\<rparr>\<rparr>"

definition demo_rebuild :: fabric_state where
  "demo_rebuild =
     fst (plan_reconfiguration 1 [planned_of demo_profile 0] (demo_request\<lparr>rq_allow_destructive_reconfiguration := True\<rparr>)
       (demo_state\<lparr>fs_policy := (make_default_policy 1)\<lparr>pp_allow_destructive_reconfiguration := True\<rparr>\<rparr>))"

section \<open>The states, evaluated\<close>

text \<open>
  What the operations compute on the instance. The equations replace the definitions in later
  evaluations, so that each call is evaluated once.
\<close>

lemma demo_ledger_code [code]:
  "demo_ledger =
     \<lparr>cl_buckets = [demo_vector 0 0, demo_totals, demo_vector 0 0, demo_vector 0 0, demo_vector 0 0,
      demo_vector 0 0], cl_total = demo_totals\<rparr>"
  by code_simp

lemma demo_reserved_code [code]:
  "demo_reserved =
     demo_state\<lparr>fs_state_generation := 2, fs_ids := \<lparr>ida_next = 13\<rparr>, fs_ledgers := [(1,
      \<lparr>cl_buckets = [demo_vector 0 0, demo_vector 750000 48, demo_slice, demo_vector 0 0, demo_vector 0
      0, demo_vector 0 0], cl_total = demo_totals\<rparr>)], fs_partitions := [(12, \<lparr>pr_id = 12,
      pr_generation = 1, pr_profile = 5, pr_profile_generation = 1, pr_mechanism = Mechanism_Synthetic,
      pr_accelerator = 1, pr_accelerator_generation = 1, pr_accelerator_boot = 7, pr_resources = demo_slice,
      pr_state = PS_Reserved, pr_native_identity = \<lparr>ni_backend = [], ni_native_id = [],
      ni_parent_native_id = [], ni_instance_uuid = []\<rparr>, pr_isolation = \<lparr>id_name = [],
      id_guarantees = 0, id_backend_defined = False\<rparr>, pr_held_bucket = Some Bucket_Reserved,
      pr_assignment_state = AS_Unassigned, pr_drain = \<lparr>dp_state = DS_NotDraining,
      dp_outstanding_assignments = 0, dp_total_assignments = 0, dp_started_at_ms = 0, dp_completed_at_ms =
      0\<rparr>, pr_reservation = 0, pr_last_attempt = 0, pr_superseded_generations = [], pr_evidence =
      evidence_unknown, pr_provenance = Provenance_Synthetic, pr_created_at_ms = 2000,
      pr_last_transition_at_ms = 2000, pr_externally_observed = False\<rparr>)], fs_plans := [(10,
      \<lparr>pl_id = 10, pl_generation = 1, pl_request = demo_request, pl_outcome = PO_FeasibleNow,
      pl_binding = \<lparr>pb_accelerator = 1, pb_accelerator_generation = 1, pb_accelerator_boot = 7,
      pb_capability_generation = 1, pb_topology_generation = 1, pb_policy_generation = 1, pb_coordinator_epoch
      = 1, pb_state_generation = 1, pb_evidence_generation = 1, pb_planned_at_ms = 1000, pb_valid_until_ms =
      0, pb_layout = [(12, 1)]\<rparr>, pl_planned_partitions = [\<lparr>pn_profile = 5, pn_profile_generation
      = 1, pn_resources = demo_slice, pn_ordinal = 0, pn_vendor_native_profile = ''q1''\<rparr>],
      pl_created_at_ms = 1000, pl_request_digest = 0, pl_terminal = False\<rparr>)], fs_reservations := [(11,
      \<lparr>rs_id = 11, rs_plan = 10, rs_plan_generation = 1, rs_accelerator = 1, rs_accelerator_generation
      = 1, rs_accelerator_boot = 7, rs_capability_generation = 1, rs_topology_generation = 1,
      rs_policy_generation = 1, rs_coordinator_epoch = 1, rs_worker = 0, rs_worker_boot = 0, rs_lifecycle =
      RL_Active, rs_partitions = [12], rs_partition_generations = [1], rs_resources = demo_slice, rs_attempt =
      0, rs_planned_mutations = 1, rs_destructive = False, rs_created_at_ms = 2000, rs_updated_at_ms = 2000,
      rs_expires_at_ms = 0, rs_rollback_count = 0\<rparr>)], fs_attempts := [], fs_assignments := [],
      fs_events := [\<lparr>ev_code = EX_ReserveAccepted, ev_at_ms = 2000, ev_sequence = 1\<rparr>],
      fs_event_sequence := 1\<rparr>"
  by code_simp

lemma demo_dispatched_code [code]:
  "demo_dispatched =
     demo_state\<lparr>fs_state_generation := 3, fs_ids := \<lparr>ida_next = 14\<rparr>, fs_ledgers := [(1,
      \<lparr>cl_buckets = [demo_vector 0 0, demo_vector 750000 48, demo_slice, demo_vector 0 0, demo_vector 0
      0, demo_vector 0 0], cl_total = demo_totals\<rparr>)], fs_partitions := [(12, \<lparr>pr_id = 12,
      pr_generation = 1, pr_profile = 5, pr_profile_generation = 1, pr_mechanism = Mechanism_Synthetic,
      pr_accelerator = 1, pr_accelerator_generation = 1, pr_accelerator_boot = 7, pr_resources = demo_slice,
      pr_state = PS_Creating, pr_native_identity = \<lparr>ni_backend = [], ni_native_id = [],
      ni_parent_native_id = [], ni_instance_uuid = []\<rparr>, pr_isolation = \<lparr>id_name = [],
      id_guarantees = 0, id_backend_defined = False\<rparr>, pr_held_bucket = Some Bucket_Reserved,
      pr_assignment_state = AS_Unassigned, pr_drain = \<lparr>dp_state = DS_NotDraining,
      dp_outstanding_assignments = 0, dp_total_assignments = 0, dp_started_at_ms = 0, dp_completed_at_ms =
      0\<rparr>, pr_reservation = 0, pr_last_attempt = 0, pr_superseded_generations = [], pr_evidence =
      evidence_unknown, pr_provenance = Provenance_Synthetic, pr_created_at_ms = 2000,
      pr_last_transition_at_ms = 2000, pr_externally_observed = False\<rparr>)], fs_plans := [(10,
      \<lparr>pl_id = 10, pl_generation = 1, pl_request = demo_request, pl_outcome = PO_FeasibleNow,
      pl_binding = \<lparr>pb_accelerator = 1, pb_accelerator_generation = 1, pb_accelerator_boot = 7,
      pb_capability_generation = 1, pb_topology_generation = 1, pb_policy_generation = 1, pb_coordinator_epoch
      = 1, pb_state_generation = 1, pb_evidence_generation = 1, pb_planned_at_ms = 1000, pb_valid_until_ms =
      0, pb_layout = [(12, 1)]\<rparr>, pl_planned_partitions = [\<lparr>pn_profile = 5, pn_profile_generation
      = 1, pn_resources = demo_slice, pn_ordinal = 0, pn_vendor_native_profile = ''q1''\<rparr>],
      pl_created_at_ms = 1000, pl_request_digest = 0, pl_terminal = False\<rparr>)], fs_reservations := [(11,
      \<lparr>rs_id = 11, rs_plan = 10, rs_plan_generation = 1, rs_accelerator = 1, rs_accelerator_generation
      = 1, rs_accelerator_boot = 7, rs_capability_generation = 1, rs_topology_generation = 1,
      rs_policy_generation = 1, rs_coordinator_epoch = 1, rs_worker = 0, rs_worker_boot = 0, rs_lifecycle =
      RL_Active, rs_partitions = [12], rs_partition_generations = [1], rs_resources = demo_slice, rs_attempt =
      13, rs_planned_mutations = 1, rs_destructive = False, rs_created_at_ms = 2000, rs_updated_at_ms = 2000,
      rs_expires_at_ms = 0, rs_rollback_count = 0\<rparr>)], fs_attempts := [(13, \<lparr>at_id = 13, at_kind
      = AK_CreatePartition, at_reservation = 11, at_accelerator = 1, at_accelerator_generation = 1,
      at_accelerator_boot = 7, at_capability_generation = 1, at_coordinator_epoch = 1, at_worker = 0,
      at_worker_boot = 0, at_partitions = [12], at_desired = [\<lparr>pn_profile = 5, pn_profile_generation =
      1, pn_resources = demo_slice, pn_ordinal = 0, pn_vendor_native_profile = ''q1''\<rparr>], at_state =
      AT_Dispatched, at_token = 13, at_registered_at_ms = 2000, at_dispatched_at_ms = 2000, at_settled_at_ms =
      0\<rparr>)], fs_assignments := [], fs_events := [\<lparr>ev_code = EX_ReserveAccepted, ev_at_ms = 2000,
      ev_sequence = 1\<rparr>, \<lparr>ev_code = EX_AttemptRegistered, ev_at_ms = 2000, ev_sequence =
      2\<rparr>], fs_event_sequence := 2\<rparr>"
  by code_simp

lemma demo_committed_code [code]:
  "demo_committed =
     demo_state\<lparr>fs_state_generation := 4, fs_ids := \<lparr>ida_next = 14\<rparr>, fs_ledgers := [(1,
      \<lparr>cl_buckets = [demo_vector 0 0, demo_vector 750000 48, demo_vector 0 0, demo_slice, demo_vector 0
      0, demo_vector 0 0], cl_total = demo_totals\<rparr>)], fs_partitions := [(12, \<lparr>pr_id = 12,
      pr_generation = 1, pr_profile = 5, pr_profile_generation = 1, pr_mechanism = Mechanism_Synthetic,
      pr_accelerator = 1, pr_accelerator_generation = 1, pr_accelerator_boot = 7, pr_resources = demo_slice,
      pr_state = PS_Active, pr_native_identity = \<lparr>ni_backend = ''synthetic'', ni_native_id = ''n1'',
      ni_parent_native_id = ''dev0'', ni_instance_uuid = ''iu1''\<rparr>, pr_isolation = \<lparr>id_name =
      ''d1'', id_guarantees = 3, id_backend_defined = True\<rparr>, pr_held_bucket = Some Bucket_Active,
      pr_assignment_state = AS_Unassigned, pr_drain = \<lparr>dp_state = DS_NotDraining,
      dp_outstanding_assignments = 0, dp_total_assignments = 0, dp_started_at_ms = 0, dp_completed_at_ms =
      0\<rparr>, pr_reservation = 0, pr_last_attempt = 0, pr_superseded_generations = [], pr_evidence =
      \<lparr>es_generation = 2, es_provenance = Provenance_Synthetic, es_observed_at_ms = 2000, es_ttl_ms =
      30000, es_source = ''synthetic'', es_observed = True\<rparr>, pr_provenance = Provenance_Synthetic,
      pr_created_at_ms = 2000, pr_last_transition_at_ms = 2000, pr_externally_observed = False\<rparr>)],
      fs_plans := [(10, \<lparr>pl_id = 10, pl_generation = 1, pl_request = demo_request, pl_outcome =
      PO_FeasibleNow, pl_binding = \<lparr>pb_accelerator = 1, pb_accelerator_generation = 1,
      pb_accelerator_boot = 7, pb_capability_generation = 1, pb_topology_generation = 1, pb_policy_generation
      = 1, pb_coordinator_epoch = 1, pb_state_generation = 1, pb_evidence_generation = 1, pb_planned_at_ms =
      1000, pb_valid_until_ms = 0, pb_layout = [(12, 1)]\<rparr>, pl_planned_partitions = [\<lparr>pn_profile
      = 5, pn_profile_generation = 1, pn_resources = demo_slice, pn_ordinal = 0, pn_vendor_native_profile =
      ''q1''\<rparr>], pl_created_at_ms = 1000, pl_request_digest = 0, pl_terminal = False\<rparr>)],
      fs_reservations := [(11, \<lparr>rs_id = 11, rs_plan = 10, rs_plan_generation = 1, rs_accelerator = 1,
      rs_accelerator_generation = 1, rs_accelerator_boot = 7, rs_capability_generation = 1,
      rs_topology_generation = 1, rs_policy_generation = 1, rs_coordinator_epoch = 1, rs_worker = 0,
      rs_worker_boot = 0, rs_lifecycle = RL_Committed, rs_partitions = [12], rs_partition_generations = [1],
      rs_resources = demo_slice, rs_attempt = 13, rs_planned_mutations = 1, rs_destructive = False,
      rs_created_at_ms = 2000, rs_updated_at_ms = 2000, rs_expires_at_ms = 0, rs_rollback_count = 0\<rparr>)],
      fs_attempts := [(13, \<lparr>at_id = 13, at_kind = AK_CreatePartition, at_reservation = 11,
      at_accelerator = 1, at_accelerator_generation = 1, at_accelerator_boot = 7, at_capability_generation =
      1, at_coordinator_epoch = 1, at_worker = 0, at_worker_boot = 0, at_partitions = [12], at_desired =
      [\<lparr>pn_profile = 5, pn_profile_generation = 1, pn_resources = demo_slice, pn_ordinal = 0,
      pn_vendor_native_profile = ''q1''\<rparr>], at_state = AT_Succeeded, at_token = 13, at_registered_at_ms
      = 2000, at_dispatched_at_ms = 2000, at_settled_at_ms = 2000\<rparr>)], fs_assignments := [],
      fs_evidence_generation := 2, fs_events := [\<lparr>ev_code = EX_ReserveAccepted, ev_at_ms = 2000,
      ev_sequence = 1\<rparr>, \<lparr>ev_code = EX_AttemptRegistered, ev_at_ms = 2000, ev_sequence =
      2\<rparr>, \<lparr>ev_code = EX_CommitAccepted, ev_at_ms = 2000, ev_sequence = 3\<rparr>],
      fs_event_sequence := 3\<rparr>"
  by code_simp

lemma demo_admitted_code [code]:
  "demo_admitted =
     demo_state\<lparr>fs_state_generation := 5, fs_ids := \<lparr>ida_next = 15\<rparr>, fs_ledgers := [(1,
      \<lparr>cl_buckets = [demo_vector 0 0, demo_vector 750000 48, demo_vector 0 0, demo_slice, demo_vector 0
      0, demo_vector 0 0], cl_total = demo_totals\<rparr>)], fs_partitions := [(12, \<lparr>pr_id = 12,
      pr_generation = 1, pr_profile = 5, pr_profile_generation = 1, pr_mechanism = Mechanism_Synthetic,
      pr_accelerator = 1, pr_accelerator_generation = 1, pr_accelerator_boot = 7, pr_resources = demo_slice,
      pr_state = PS_Active, pr_native_identity = \<lparr>ni_backend = ''synthetic'', ni_native_id = ''n1'',
      ni_parent_native_id = ''dev0'', ni_instance_uuid = ''iu1''\<rparr>, pr_isolation = \<lparr>id_name =
      ''d1'', id_guarantees = 3, id_backend_defined = True\<rparr>, pr_held_bucket = Some Bucket_Active,
      pr_assignment_state = AS_Assigned, pr_drain = \<lparr>dp_state = DS_NotDraining,
      dp_outstanding_assignments = 0, dp_total_assignments = 0, dp_started_at_ms = 0, dp_completed_at_ms =
      0\<rparr>, pr_reservation = 0, pr_last_attempt = 0, pr_superseded_generations = [], pr_evidence =
      \<lparr>es_generation = 2, es_provenance = Provenance_Synthetic, es_observed_at_ms = 2000, es_ttl_ms =
      30000, es_source = ''synthetic'', es_observed = True\<rparr>, pr_provenance = Provenance_Synthetic,
      pr_created_at_ms = 2000, pr_last_transition_at_ms = 2000, pr_externally_observed = False\<rparr>)],
      fs_plans := [(10, \<lparr>pl_id = 10, pl_generation = 1, pl_request = demo_request, pl_outcome =
      PO_FeasibleNow, pl_binding = \<lparr>pb_accelerator = 1, pb_accelerator_generation = 1,
      pb_accelerator_boot = 7, pb_capability_generation = 1, pb_topology_generation = 1, pb_policy_generation
      = 1, pb_coordinator_epoch = 1, pb_state_generation = 1, pb_evidence_generation = 1, pb_planned_at_ms =
      1000, pb_valid_until_ms = 0, pb_layout = [(12, 1)]\<rparr>, pl_planned_partitions = [\<lparr>pn_profile
      = 5, pn_profile_generation = 1, pn_resources = demo_slice, pn_ordinal = 0, pn_vendor_native_profile =
      ''q1''\<rparr>], pl_created_at_ms = 1000, pl_request_digest = 0, pl_terminal = False\<rparr>)],
      fs_reservations := [(11, \<lparr>rs_id = 11, rs_plan = 10, rs_plan_generation = 1, rs_accelerator = 1,
      rs_accelerator_generation = 1, rs_accelerator_boot = 7, rs_capability_generation = 1,
      rs_topology_generation = 1, rs_policy_generation = 1, rs_coordinator_epoch = 1, rs_worker = 0,
      rs_worker_boot = 0, rs_lifecycle = RL_Committed, rs_partitions = [12], rs_partition_generations = [1],
      rs_resources = demo_slice, rs_attempt = 13, rs_planned_mutations = 1, rs_destructive = False,
      rs_created_at_ms = 2000, rs_updated_at_ms = 2000, rs_expires_at_ms = 0, rs_rollback_count = 0\<rparr>)],
      fs_attempts := [(13, \<lparr>at_id = 13, at_kind = AK_CreatePartition, at_reservation = 11,
      at_accelerator = 1, at_accelerator_generation = 1, at_accelerator_boot = 7, at_capability_generation =
      1, at_coordinator_epoch = 1, at_worker = 0, at_worker_boot = 0, at_partitions = [12], at_desired =
      [\<lparr>pn_profile = 5, pn_profile_generation = 1, pn_resources = demo_slice, pn_ordinal = 0,
      pn_vendor_native_profile = ''q1''\<rparr>], at_state = AT_Succeeded, at_token = 13, at_registered_at_ms
      = 2000, at_dispatched_at_ms = 2000, at_settled_at_ms = 2000\<rparr>)], fs_assignments := [(14,
      \<lparr>as_id = 14, as_partition = 12, as_partition_generation = 1, as_accelerator = 1,
      as_accelerator_generation = 1, as_workload_id = ''w'', as_tenant_id = [], as_isolation =
      \<lparr>ir_required = 0, ir_policy = 0, ir_policy_generation = 0\<rparr>, as_policy_generation = 1,
      as_coordinator_epoch = 1, as_evidence_generation = 2, as_exclusive = True, as_bound_at_ms = 2000,
      as_last_validated_at_ms = 2000\<rparr>)], fs_evidence_generation := 2, fs_events := [\<lparr>ev_code =
      EX_ReserveAccepted, ev_at_ms = 2000, ev_sequence = 1\<rparr>, \<lparr>ev_code = EX_AttemptRegistered,
      ev_at_ms = 2000, ev_sequence = 2\<rparr>, \<lparr>ev_code = EX_CommitAccepted, ev_at_ms = 2000,
      ev_sequence = 3\<rparr>, \<lparr>ev_code = EX_CommitAccepted, ev_at_ms = 2000, ev_sequence = 4\<rparr>],
      fs_event_sequence := 4\<rparr>"
  by code_simp

lemma demo_draining_code [code]:
  "demo_draining =
     demo_state\<lparr>fs_state_generation := 6, fs_ids := \<lparr>ida_next = 15\<rparr>, fs_ledgers := [(1,
      \<lparr>cl_buckets = [demo_vector 0 0, demo_vector 750000 48, demo_vector 0 0, demo_vector 0 0,
      demo_slice, demo_vector 0 0], cl_total = demo_totals\<rparr>)], fs_partitions := [(12, \<lparr>pr_id =
      12, pr_generation = 1, pr_profile = 5, pr_profile_generation = 1, pr_mechanism = Mechanism_Synthetic,
      pr_accelerator = 1, pr_accelerator_generation = 1, pr_accelerator_boot = 7, pr_resources = demo_slice,
      pr_state = PS_Draining, pr_native_identity = \<lparr>ni_backend = ''synthetic'', ni_native_id = ''n1'',
      ni_parent_native_id = ''dev0'', ni_instance_uuid = ''iu1''\<rparr>, pr_isolation = \<lparr>id_name =
      ''d1'', id_guarantees = 3, id_backend_defined = True\<rparr>, pr_held_bucket = Some Bucket_Draining,
      pr_assignment_state = AS_Assigned, pr_drain = \<lparr>dp_state = DS_Draining, dp_outstanding_assignments
      = 1, dp_total_assignments = 1, dp_started_at_ms = 2000, dp_completed_at_ms = 0\<rparr>, pr_reservation =
      0, pr_last_attempt = 0, pr_superseded_generations = [], pr_evidence = \<lparr>es_generation = 2,
      es_provenance = Provenance_Synthetic, es_observed_at_ms = 2000, es_ttl_ms = 30000, es_source =
      ''synthetic'', es_observed = True\<rparr>, pr_provenance = Provenance_Synthetic, pr_created_at_ms =
      2000, pr_last_transition_at_ms = 2000, pr_externally_observed = False\<rparr>)], fs_plans := [(10,
      \<lparr>pl_id = 10, pl_generation = 1, pl_request = demo_request, pl_outcome = PO_FeasibleNow,
      pl_binding = \<lparr>pb_accelerator = 1, pb_accelerator_generation = 1, pb_accelerator_boot = 7,
      pb_capability_generation = 1, pb_topology_generation = 1, pb_policy_generation = 1, pb_coordinator_epoch
      = 1, pb_state_generation = 1, pb_evidence_generation = 1, pb_planned_at_ms = 1000, pb_valid_until_ms =
      0, pb_layout = [(12, 1)]\<rparr>, pl_planned_partitions = [\<lparr>pn_profile = 5, pn_profile_generation
      = 1, pn_resources = demo_slice, pn_ordinal = 0, pn_vendor_native_profile = ''q1''\<rparr>],
      pl_created_at_ms = 1000, pl_request_digest = 0, pl_terminal = False\<rparr>)], fs_reservations := [(11,
      \<lparr>rs_id = 11, rs_plan = 10, rs_plan_generation = 1, rs_accelerator = 1, rs_accelerator_generation
      = 1, rs_accelerator_boot = 7, rs_capability_generation = 1, rs_topology_generation = 1,
      rs_policy_generation = 1, rs_coordinator_epoch = 1, rs_worker = 0, rs_worker_boot = 0, rs_lifecycle =
      RL_Committed, rs_partitions = [12], rs_partition_generations = [1], rs_resources = demo_slice,
      rs_attempt = 13, rs_planned_mutations = 1, rs_destructive = False, rs_created_at_ms = 2000,
      rs_updated_at_ms = 2000, rs_expires_at_ms = 0, rs_rollback_count = 0\<rparr>)], fs_attempts := [(13,
      \<lparr>at_id = 13, at_kind = AK_CreatePartition, at_reservation = 11, at_accelerator = 1,
      at_accelerator_generation = 1, at_accelerator_boot = 7, at_capability_generation = 1,
      at_coordinator_epoch = 1, at_worker = 0, at_worker_boot = 0, at_partitions = [12], at_desired =
      [\<lparr>pn_profile = 5, pn_profile_generation = 1, pn_resources = demo_slice, pn_ordinal = 0,
      pn_vendor_native_profile = ''q1''\<rparr>], at_state = AT_Succeeded, at_token = 13, at_registered_at_ms
      = 2000, at_dispatched_at_ms = 2000, at_settled_at_ms = 2000\<rparr>)], fs_assignments := [(14,
      \<lparr>as_id = 14, as_partition = 12, as_partition_generation = 1, as_accelerator = 1,
      as_accelerator_generation = 1, as_workload_id = ''w'', as_tenant_id = [], as_isolation =
      \<lparr>ir_required = 0, ir_policy = 0, ir_policy_generation = 0\<rparr>, as_policy_generation = 1,
      as_coordinator_epoch = 1, as_evidence_generation = 2, as_exclusive = True, as_bound_at_ms = 2000,
      as_last_validated_at_ms = 2000\<rparr>)], fs_evidence_generation := 2, fs_events := [\<lparr>ev_code =
      EX_AttemptRegistered, ev_at_ms = 2000, ev_sequence = 2\<rparr>, \<lparr>ev_code = EX_CommitAccepted,
      ev_at_ms = 2000, ev_sequence = 3\<rparr>, \<lparr>ev_code = EX_CommitAccepted, ev_at_ms = 2000,
      ev_sequence = 4\<rparr>, \<lparr>ev_code = EX_DrainStarted, ev_at_ms = 2000, ev_sequence = 5\<rparr>],
      fs_event_sequence := 5\<rparr>"
  by code_simp

section \<open>The instance satisfies the invariants\<close>

lemma demo_totals_wf: "rv_wf demo_totals"
  by (simp add: rv_wf_def demo_totals_def demo_vector_def)

lemma demo_slice_ok: "rv_mask_ok demo_slice"
proof -
  have "validate_dimensions demo_slice = success" by code_simp
  then show ?thesis by (simp add: validate_dimensions_iff)
qed

lemma demo_ledger_closed: "ledger_closed demo_ledger"
proof -
  have "validate_dimensions demo_totals = success" "\<not> rv_empty demo_totals" by (code_simp, code_simp)
  from initialize_totals_closed [OF demo_totals_wf this, of ledger_empty] show ?thesis
    by (auto simp: demo_ledger_def)
qed

lemma demo_ledger_balanced: "ledger_balanced demo_ledger"
  using demo_ledger_closed by (simp add: ledger_closed_def)

lemma demo_accounting: "accounting_inv demo_state"
  using demo_ledger_closed
  by (simp add: accounting_inv_def demo_state_def om_sorted_def ledgers_balanced_def om_find_Cons ledger_closed_def
      split: if_splits)

lemma demo_fresh: "ids_fresh demo_state"
  by (simp add: ids_fresh_def used_ids_def demo_state_def om_keys_def)

lemma demo_plan_wf:
  "\<forall>plan. find_plan 10 demo_state = Some plan \<longrightarrow> (\<forall>p\<in>set (pl_planned_partitions plan). rv_wf (pn_resources p))"
  by (auto simp: demo_state_def om_find_Cons demo_plan_def demo_slice_def demo_vector_def rv_wf_def)

lemma demo_reserved_balanced: "ledgers_balanced demo_reserved"
  using ledgers_evolve_balanced [OF reserve_ledgers [OF demo_accounting]] demo_accounting
  by (simp add: demo_reserved_def accounting_inv_def)

lemma demo_new_reachable: "reachable demo_new"
  by (rule reach_start) (auto simp: fabric_init_def demo_new_def)

lemma demo_registered_reachable: "reachable demo_registered"
  unfolding demo_registered_def
  by (rule reach_next [OF demo_new_reachable step_register])
    (use demo_totals_wf in \<open>simp add: demo_bare_def demo_accelerator_def\<close>)

lemma reachable_call: "reachable s \<Longrightarrow> fabric_call s t \<Longrightarrow> reachable t"
  using reach_next [of fabric_init fabric_step s t] step_call [of s t] by simp

lemma demo_ready_reachable: "reachable demo_ready"
proof -
  let ?s = "fst (register_profile demo_profile demo_new)"
  have "reachable ?s" by (rule reachable_call [OF demo_new_reachable call_register_profile])
  then have "reachable (fst (register_accelerator demo_bare ?s))"
    by (rule reach_next) (rule step_register, simp add: demo_bare_def demo_accelerator_def demo_totals_wf)
  then show ?thesis unfolding demo_ready_def by (rule reachable_call) (rule call_publish_capability)
qed

lemma demo_registered_device: "find_accelerator 1 demo_registered = Some demo_bare"
  by code_simp

lemma demo_texts:
  "is_valid_utf8 ''dev0''" "is_valid_utf8 ''n1''" "is_valid_utf8 ''iu1''" "is_valid_utf8 ''q1''" "is_valid_utf8 ''d1''"
  "is_valid_utf8 ''synthetic''" "is_valid_utf8 []"
  by code_simp+

lemma demo_vectors_ok: "rv_ok demo_totals" "rv_ok demo_slice"
  by code_simp+

lemma demo_codes: "isolation_ok 3" "enum_index provenance_enum Provenance_Synthetic < 4"
  by code_simp+

lemma demo_layout_ok: "layout_ok (demo_layout, [])"
  by (simp add: layout_ok_def demo_layout_def text_ok_def demo_texts demo_vectors_ok native_partition_ok_def demo_native_def
      evidence_ok_def demo_stamp_def demo_codes)

lemma demo_ledger_ok: "ledger_ok demo_ledger"
  by code_simp

lemma demo_partition_codes:
  "enum_index mechanism_enum Mechanism_Synthetic < 6" "enum_index partition_state_enum PS_Active < 14"
  "enum_index assignment_enum (pr_assignment_state partition_default) < 4"
  "enum_index drain_enum DS_NotDraining < 4" "isolation_ok 0" "held_ok (Some Bucket_Free)"
  "enum_index provenance_enum (pr_provenance partition_default) < 4"
  by code_simp+

lemma demo_partition_ok: "partition_ok (demo_partition, ([], []), [])"
  using demo_partition_codes
  by (simp add: partition_ok_def demo_partition_def demo_vectors_ok demo_texts text_ok_def native_identity_ok_def
      isolation_domain_ok_def drain_ok_def evidence_ok_def demo_codes demo_stamp_def partition_default_def drain_none_def native_none_def)

lemma demo_partition_fits: "\<exists>b. bw_ok (encode_partition (demo_partition, ([], []), []) (writer_start (Some b)))"
  by (rule partition_codec.fits [OF demo_partition_ok])

end
