(* ===== verification/APF_Synthetic.thy ===== *)
theory APF_Synthetic
  imports APF_Reconcile
begin

text \<open>
  The synthetic backend (\<^verbatim>\<open>src/src/backend_synthetic.cpp\<close>): a deterministic device model behind the
  backend interface, with slice geometry, idempotency tokens, fault injection and a serialised
  state. The clock reading is an argument; the text of results is not modelled.
\<close>

section \<open>Specifications and state\<close>

record synthetic_profile_spec =
  sp_name :: string
  sp_vendor_native :: string
  sp_resources :: resource_vector
  sp_compute_slices :: u32
  sp_memory_slices :: u32
  sp_engine_grouping :: engine_grouping
  sp_max_multiplicity :: u32
  sp_requires_full_device_reconfiguration :: bool
  sp_live_repartitioning_supported :: bool
  sp_incompatible_with :: "string list"
  sp_requires_contiguous_slices :: bool
  sp_requires_atomic_slice :: bool

record synthetic_device_spec =
  sd_key :: string
  sd_vendor :: string
  sd_model :: string
  sd_backend :: string
  sd_uuid :: string
  sd_driver_version :: string
  sd_firmware_version :: string
  sd_hardware_id :: string
  sd_locality_domain :: string
  sd_numa_node :: int
  sd_physical_totals :: resource_vector
  sd_profiles :: "synthetic_profile_spec list"
  sd_max_partition_count :: u32
  sd_mechanism :: partition_mechanism
  sd_mechanism_name :: string
  sd_partitioning_supported :: bool
  sd_unsupported_reason :: string
  sd_requires_reset_for_reconfiguration :: bool
  sd_live_reconfiguration_supported :: bool
  sd_isolation :: isolation_set
  sd_minimum_allocation :: resource_vector
  sd_slice_granularity :: u32
  sd_provenance :: evidence_provenance
  sd_health :: health_state
  sd_evidence_ttl_ms :: u64
  sd_reconfiguration_downtime_ms :: u64
  sd_drain_estimate_ms :: u64
  sd_total_compute_slices :: u32
  sd_total_memory_slices :: u32
  sd_boot_entropy :: u64
  sd_device_present :: bool

definition profile_spec_default :: synthetic_profile_spec where
  "profile_spec_default =
     \<lparr>sp_name = [], sp_vendor_native = [], sp_resources = rv_zeros, sp_compute_slices = 1,
      sp_memory_slices = 1, sp_engine_grouping = Grouping_Dedicated, sp_max_multiplicity = 0,
      sp_requires_full_device_reconfiguration = False, sp_live_repartitioning_supported = True,
      sp_incompatible_with = [], sp_requires_contiguous_slices = False, sp_requires_atomic_slice = False\<rparr>"

definition device_spec_default :: synthetic_device_spec where
  "device_spec_default =
     \<lparr>sd_key = [], sd_vendor = ''synthetic'', sd_model = ''APF Synthetic Accelerator'',
      sd_backend = ''synthetic'', sd_uuid = [], sd_driver_version = ''synthetic-driver-1.0'',
      sd_firmware_version = ''synthetic-fw-1.0'', sd_hardware_id = [], sd_locality_domain = ''locality-0'',
      sd_numa_node = -1, sd_physical_totals = rv_zeros, sd_profiles = [], sd_max_partition_count = 8,
      sd_mechanism = Mechanism_Synthetic, sd_mechanism_name = ''synthetic-slice'',
      sd_partitioning_supported = True, sd_unsupported_reason = [],
      sd_requires_reset_for_reconfiguration = True, sd_live_reconfiguration_supported = False,
      sd_isolation = 0, sd_minimum_allocation = rv_zeros, sd_slice_granularity = 1,
      sd_provenance = Provenance_Synthetic, sd_health = Health_Healthy, sd_evidence_ttl_ms = 30000,
      sd_reconfiguration_downtime_ms = 2500, sd_drain_estimate_ms = 500, sd_total_compute_slices = 7,
      sd_total_memory_slices = 8, sd_boot_entropy = 0x1000, sd_device_present = True\<rparr>"

record synthetic_faults =
  sf_fail_discovery :: bool
  sf_fail_capability_query :: bool
  sf_fail_create :: bool
  sf_fail_destroy :: bool
  sf_fail_reconfigure :: bool
  sf_error_create :: bool
  sf_error_destroy :: bool
  sf_error_reconfigure :: bool
  sf_ambiguous_create :: bool
  sf_ambiguous_destroy :: bool
  sf_ambiguous_reconfigure :: bool
  sf_mismatch_create_result :: bool
  sf_partition_disappears_after_create :: bool
  sf_device_disappears :: bool
  sf_silent_device_reset :: bool
  sf_external_mutation_pending :: bool
  sf_malformed_metadata :: bool
  sf_duplicate_native_ids :: bool

definition no_faults :: synthetic_faults where
  "no_faults =
     \<lparr>sf_fail_discovery = False, sf_fail_capability_query = False, sf_fail_create = False,
      sf_fail_destroy = False, sf_fail_reconfigure = False, sf_error_create = False,
      sf_error_destroy = False, sf_error_reconfigure = False, sf_ambiguous_create = False,
      sf_ambiguous_destroy = False, sf_ambiguous_reconfigure = False,
      sf_mismatch_create_result = False, sf_partition_disappears_after_create = False,
      sf_device_disappears = False, sf_silent_device_reset = False,
      sf_external_mutation_pending = False, sf_malformed_metadata = False,
      sf_duplicate_native_ids = False\<rparr>"

record synthetic_partition =
  sn_native_id :: string
  sn_instance_uuid :: string
  sn_vendor_native :: string
  sn_profile :: profile_id
  sn_resources :: resource_vector
  sn_compute_slices :: u32
  sn_memory_slices :: u32
  sn_isolation_domain :: string
  sn_isolation :: isolation_set
  sn_live :: bool

record synthetic_device =
  dv_spec :: synthetic_device_spec
  dv_boot :: boot_id
  dv_partitions :: "synthetic_partition list"
  dv_next_partition_index :: u64
  dv_applied_tokens :: "(u64, mutation_result) omap"
  dv_mutation_count :: u64
  dv_present :: bool

record synthetic_backend =
  sy_devices :: "(string, synthetic_device) omap"
  sy_faults :: synthetic_faults

definition derive_profile_id :: "string \<Rightarrow> profile_id" where
  "derive_profile_id name =
     (let hash = mix_bytes (map of_char (''apf-synthetic-profile|synthetic|'' @ name)) 1469598103934665603
      in if hash = 0 then 1 else hash)"

definition make_native_id :: "string \<Rightarrow> u64 \<Rightarrow> string" where
  "make_native_id key index = key @ ''#'' @ id_str index"

section \<open>The default device\<close>

definition rv_put :: "resource_dimension \<Rightarrow> u64 \<Rightarrow> resource_vector \<Rightarrow> resource_vector" where
  "rv_put d v r = fst (rv_set d v r)"

definition default_profile_spec :: "u64 \<Rightarrow> bool \<Rightarrow> string \<times> u32 \<times> u32 \<times> u64 \<times> bool \<Rightarrow> synthetic_profile_spec" where
  "default_profile_spec slice_memory conflicts = (\<lambda>(name, compute, memory, ppm, full_device).
     profile_spec_default
       \<lparr>sp_name := name, sp_vendor_native := name, sp_compute_slices := compute, sp_memory_slices := memory,
        sp_resources := rv_put ExecutionEngineShare ppm (rv_put MemoryBandwidthShare ppm
          (rv_put MemoryBytes (slice_memory * ucast memory) (rv_put ComputeShare ppm rv_zeros))),
        sp_requires_full_device_reconfiguration := full_device,
        sp_live_repartitioning_supported := \<not> full_device,
        sp_engine_grouping := Grouping_Dedicated,
        sp_incompatible_with :=
          (if \<not> conflicts then []
           else if full_device then [''synthetic-1g'', ''synthetic-2g'', ''synthetic-3g'']
           else [''synthetic-7g''])\<rparr>)"

definition make_default_synthetic_device :: "string \<Rightarrow> u64 \<Rightarrow> bool \<Rightarrow> synthetic_device_spec" where
  "make_default_synthetic_device key memory_gib full_profile_conflicts =
     device_spec_default
       \<lparr>sd_key := key, sd_uuid := ''SYN-'' @ key, sd_hardware_id := ''synthetic-hw-1'',
        sd_total_compute_slices := 7, sd_total_memory_slices := 8, sd_max_partition_count := 7,
        sd_physical_totals := rv_put ExecutionEngineShare kShareScale (rv_put MemoryBandwidthShare kShareScale
          (rv_put MemoryBytes (gib memory_gib) (rv_put ComputeShare kShareScale rv_zeros))),
        sd_isolation := isolation_add Isolation_AddressSpaceIsolation (isolation_add Isolation_EngineIsolation
          (isolation_add Isolation_FaultIsolation (isolation_add Isolation_MemoryIsolation
          (isolation_add Isolation_LogicalSeparation 0)))),
        sd_minimum_allocation := rv_put MemoryBytes (gib (memory_gib div 8))
          (rv_put ComputeShare (kShareScale div 7) rv_zeros),
        sd_profiles := map (default_profile_spec (gib (memory_gib div 8)) full_profile_conflicts)
          [(''synthetic-1g'', 1, 1, kShareScale div 7, False),
           (''synthetic-2g'', 2, 2, (kShareScale * 2) div 7, False),
           (''synthetic-3g'', 3, 4, (kShareScale * 3) div 7, False),
           (''synthetic-7g'', 7, 8, kShareScale, True)]\<rparr>"

section \<open>Observed layouts\<close>

abbreviation sy_find :: "string \<Rightarrow> synthetic_backend \<Rightarrow> synthetic_device option" where
  "sy_find key b \<equiv> om_find key (sy_devices b)"

abbreviation upd_device :: "string \<Rightarrow> (synthetic_device \<Rightarrow> synthetic_device) \<Rightarrow> synthetic_backend \<Rightarrow> synthetic_backend" where
  "upd_device key f b \<equiv> b\<lparr>sy_devices := om_modify key f (sy_devices b)\<rparr>"

definition find_profile_spec :: "synthetic_device \<Rightarrow> string \<Rightarrow> synthetic_profile_spec option" where
  "find_profile_spec d vendor_native =
     List.find (\<lambda>p. sp_name p = vendor_native \<or> sp_vendor_native p = vendor_native) (sd_profiles (dv_spec d))"

definition native_of :: "synthetic_partition \<Rightarrow> backend_native_partition" where
  "native_of p =
     \<lparr>bn_native_id = sn_native_id p, bn_instance_uuid = sn_instance_uuid p,
      bn_vendor_native_profile = sn_vendor_native p, bn_profile = sn_profile p,
      bn_resources = sn_resources p, bn_isolation_domain = sn_isolation_domain p,
      bn_isolation = sn_isolation p, bn_live = sn_live p\<rparr>"

text \<open>A pending silent reset takes effect on the next layout that is built.\<close>

definition apply_silent_reset :: "synthetic_faults \<Rightarrow> synthetic_device \<Rightarrow> synthetic_device" where
  "apply_silent_reset f d =
     (if sf_silent_device_reset f
      then d\<lparr>dv_boot := boot_derive (dv_boot d XOR 0xDEADBEEF), dv_partitions := []\<rparr> else d)"

definition layout_natives :: "synthetic_faults \<Rightarrow> synthetic_device \<Rightarrow> backend_native_partition list" where
  "layout_natives f d =
     (let ns = map native_of (filter sn_live (dv_partitions d));
          ns1 = (if sf_malformed_metadata f \<and> ns \<noteq> [] then ns @ [(hd ns)\<lparr>bn_native_id := []\<rparr>] else ns)
      in if sf_duplicate_native_ids f \<and> ns1 \<noteq> [] then ns1 @ [hd ns1] else ns1)"

definition layout_of :: "synthetic_faults \<Rightarrow> u64 \<Rightarrow> synthetic_device \<Rightarrow> backend_layout" where
  "layout_of f now_ms d =
     (let present = (dv_present d \<and> \<not> sf_device_disappears f)
      in \<lparr>bl_stable_key = sd_key (dv_spec d), bl_device_present = present, bl_boot_id = dv_boot d,
          bl_physical_totals = sd_physical_totals (dv_spec d),
          bl_partitions = (if present then layout_natives f d else []),
          bl_evidence = \<lparr>es_generation = gen_first, es_provenance = sd_provenance (dv_spec d),
                         es_observed_at_ms = now_ms, es_ttl_ms = sd_evidence_ttl_ms (dv_spec d),
                         es_source = ''synthetic'', es_observed = True\<rparr>\<rparr>)"

definition build_layout :: "string \<Rightarrow> u64 \<Rightarrow> synthetic_device \<Rightarrow> synthetic_backend \<Rightarrow> synthetic_backend \<times> backend_layout" where
  "build_layout key now_ms d b =
     (let d1 = apply_silent_reset (sy_faults b) d;
          b1 = (upd_device key (\<lambda>_. d1) b)\<lparr>sy_faults := (sy_faults b)\<lparr>sf_silent_device_reset := False\<rparr>\<rparr>
      in (b1, layout_of (sy_faults b1) now_ms d1))"

text \<open>
  The capacity in use. A sum that fails is reported as an empty vector. A vector that is still
  empty is replaced by the next operand.
\<close>

definition accumulate_sum :: "resource_vector \<Rightarrow> resource_vector \<Rightarrow> resource_vector result" where
  "accumulate_sum total_so_far v =
     (if rv_empty total_so_far then Inr v
      else case rv_add_assign total_so_far v of (t, Inr _) \<Rightarrow> Inr t | (_, Inl e) \<Rightarrow> Inl e)"

fun accumulate_all :: "resource_vector list \<Rightarrow> resource_vector \<Rightarrow> resource_vector result" where
  "accumulate_all [] t = Inr t"
| "accumulate_all (v # vs) t = (case accumulate_sum t v of Inl e \<Rightarrow> Inl e | Inr t' \<Rightarrow> accumulate_all vs t')"

definition used_capacity :: "synthetic_device \<Rightarrow> resource_vector" where
  "used_capacity d =
     (case accumulate_all (map sn_resources (dv_partitions d)) rv_zeros of Inr t \<Rightarrow> t | Inl _ \<Rightarrow> rv_zeros)"

section \<open>Devices and faults\<close>

definition add_device :: "synthetic_device_spec \<Rightarrow> synthetic_backend \<Rightarrow> synthetic_backend \<times> status" where
  "add_device spec b =
     (if sd_key spec = [] \<or> length (sd_key spec) > 256 then (b, failure E_InvalidArgument)
      else if length (sy_devices b) \<ge> 64 \<and> sy_find (sd_key spec) b = None then (b, failure E_LimitExceeded)
      else (b\<lparr>sy_devices := om_set (sd_key spec)
                 \<lparr>dv_spec = spec, dv_boot = boot_derive (sd_boot_entropy spec XOR 0xC0FFEE), dv_partitions = [],
                  dv_next_partition_index = 1, dv_applied_tokens = [], dv_mutation_count = 0,
                  dv_present = sd_device_present spec\<rparr> (sy_devices b)\<rparr>, success))"

definition remove_device :: "string \<Rightarrow> synthetic_backend \<Rightarrow> synthetic_backend \<times> status" where
  "remove_device key b =
     (case sy_find key b of
        None \<Rightarrow> (b, failure E_NotFound)
      | Some _ \<Rightarrow> (b\<lparr>sy_devices := om_erase key (sy_devices b)\<rparr>, success))"

definition set_faults :: "synthetic_faults \<Rightarrow> synthetic_backend \<Rightarrow> synthetic_backend" where
  "set_faults f b = b\<lparr>sy_faults := f\<rparr>"

definition set_fault :: "string \<Rightarrow> bool \<Rightarrow> synthetic_backend \<Rightarrow> synthetic_backend" where
  "set_fault name enabled b =
     (let f = sy_faults b in b\<lparr>sy_faults :=
        (if name = ''fail_discovery'' then f\<lparr>sf_fail_discovery := enabled\<rparr>
         else if name = ''fail_capability_query'' then f\<lparr>sf_fail_capability_query := enabled\<rparr>
         else if name = ''fail_create'' then f\<lparr>sf_fail_create := enabled\<rparr>
         else if name = ''error_create'' then f\<lparr>sf_error_create := enabled\<rparr>
         else if name = ''error_destroy'' then f\<lparr>sf_error_destroy := enabled\<rparr>
         else if name = ''error_reconfigure'' then f\<lparr>sf_error_reconfigure := enabled\<rparr>
         else if name = ''fail_destroy'' then f\<lparr>sf_fail_destroy := enabled\<rparr>
         else if name = ''fail_reconfigure'' then f\<lparr>sf_fail_reconfigure := enabled\<rparr>
         else if name = ''ambiguous_create'' then f\<lparr>sf_ambiguous_create := enabled\<rparr>
         else if name = ''ambiguous_destroy'' then f\<lparr>sf_ambiguous_destroy := enabled\<rparr>
         else if name = ''ambiguous_reconfigure'' then f\<lparr>sf_ambiguous_reconfigure := enabled\<rparr>
         else if name = ''mismatch_create_result'' then f\<lparr>sf_mismatch_create_result := enabled\<rparr>
         else if name = ''partition_disappears_after_create''
         then f\<lparr>sf_partition_disappears_after_create := enabled\<rparr>
         else if name = ''device_disappears'' then f\<lparr>sf_device_disappears := enabled\<rparr>
         else if name = ''silent_device_reset'' then f\<lparr>sf_silent_device_reset := enabled\<rparr>
         else if name = ''external_mutation_pending'' then f\<lparr>sf_external_mutation_pending := enabled\<rparr>
         else if name = ''malformed_metadata'' then f\<lparr>sf_malformed_metadata := enabled\<rparr>
         else if name = ''duplicate_native_ids'' then f\<lparr>sf_duplicate_native_ids := enabled\<rparr>
         else f)\<rparr>)"

text \<open>\<^verbatim>\<open>if (device == nullptr) return failure(NotFound); ...; return success();\<close>\<close>

definition on_device ::
  "string \<Rightarrow> (synthetic_device \<Rightarrow> synthetic_device) \<Rightarrow> synthetic_backend \<Rightarrow> synthetic_backend \<times> status" where
  "on_device key f b =
     (case sy_find key b of None \<Rightarrow> (b, failure E_NotFound) | Some _ \<Rightarrow> (upd_device key f b, success))"

definition mutate_capability ::
  "string \<Rightarrow> synthetic_profile_spec list \<Rightarrow> u32 \<Rightarrow> bool \<Rightarrow> string \<Rightarrow> synthetic_backend \<Rightarrow> synthetic_backend \<times> status" where
  "mutate_capability key profiles max_count supported reason =
     on_device key (\<lambda>d. d\<lparr>dv_spec := (dv_spec d)
       \<lparr>sd_profiles := profiles, sd_max_partition_count := max_count,
        sd_partitioning_supported := supported, sd_unsupported_reason := reason\<rparr>\<rparr>)"

definition reset_synthetic :: "string \<Rightarrow> synthetic_backend \<Rightarrow> synthetic_backend \<times> status" where
  "reset_synthetic key =
     on_device key (\<lambda>d. d\<lparr>dv_boot := boot_derive (dv_boot d XOR 0x5A5A5A5A), dv_partitions := [],
                          dv_applied_tokens := []\<rparr>)"

definition set_device_present :: "string \<Rightarrow> bool \<Rightarrow> synthetic_backend \<Rightarrow> synthetic_backend \<times> status" where
  "set_device_present key present = on_device key (\<lambda>d. d\<lparr>dv_present := present\<rparr>)"

text \<open>A new physical partition. Its index is read before the counter moves, its domain after.\<close>

definition new_partition :: "synthetic_device \<Rightarrow> synthetic_profile_spec \<Rightarrow> string \<Rightarrow> synthetic_partition" where
  "new_partition d profile isolation_name =
     (let native = make_native_id (sd_key (dv_spec d)) (dv_next_partition_index d)
      in \<lparr>sn_native_id = native, sn_instance_uuid = native @ ''-uuid'',
          sn_vendor_native = sp_vendor_native profile, sn_profile = derive_profile_id (sp_name profile),
          sn_resources = sp_resources profile, sn_compute_slices = sp_compute_slices profile,
          sn_memory_slices = sp_memory_slices profile, sn_isolation_domain = isolation_name,
          sn_isolation = sd_isolation (dv_spec d), sn_live = True\<rparr>)"

definition place_partition :: "synthetic_partition \<Rightarrow> synthetic_device \<Rightarrow> synthetic_device" where
  "place_partition p d =
     d\<lparr>dv_partitions := dv_partitions d @ [p], dv_next_partition_index := dv_next_partition_index d + 1\<rparr>"

definition external_create :: "string \<Rightarrow> string \<Rightarrow> synthetic_backend \<Rightarrow> synthetic_backend \<times> string result" where
  "external_create key vendor_native b =
     (case sy_find key b of
        None \<Rightarrow> (b, failure E_NotFound)
      | Some d \<Rightarrow>
          (case find_profile_spec d vendor_native of
             None \<Rightarrow> (b, failure E_NotFound)
           | Some profile \<Rightarrow>
               (let p = new_partition d profile (sd_key (dv_spec d) @ ''-external'')
                in (upd_device key (place_partition p) b, Inr (sn_native_id p)))))"

definition external_destroy :: "string \<Rightarrow> string \<Rightarrow> synthetic_backend \<Rightarrow> synthetic_backend \<times> status" where
  "external_destroy key native_id b =
     (case sy_find key b of
        None \<Rightarrow> (b, failure E_NotFound)
      | Some d \<Rightarrow>
          if \<forall>p\<in>set (dv_partitions d). sn_native_id p \<noteq> native_id then (b, failure E_NotFound)
          else (upd_device key (\<lambda>d. d\<lparr>dv_partitions := filter (\<lambda>p. sn_native_id p \<noteq> native_id) (dv_partitions d)\<rparr>) b,
                success))"

section \<open>Discovery\<close>

definition synthetic_profile_record :: "synthetic_device_spec \<Rightarrow> synthetic_profile_spec \<Rightarrow> partition_profile" where
  "synthetic_profile_record spec p =
     \<lparr>pf_id = derive_profile_id (sp_name p), pf_generation = gen_first, pf_name = sp_name p,
      pf_vendor_native = sp_vendor_native p, pf_backend = sd_backend spec, pf_mechanism = sd_mechanism spec,
      pf_resources = sp_resources p, pf_compute_slice_count = sp_compute_slices p,
      pf_memory_slice_count = sp_memory_slices p, pf_engine_grouping = sp_engine_grouping p,
      pf_max_multiplicity = sp_max_multiplicity p,
      pf_alignment = \<lparr>pa_compute_slice_multiple = 1, pa_memory_slice_multiple = 1,
                      pa_requires_contiguous_slices = sp_requires_contiguous_slices p,
                      pa_requires_atomic_slice = sp_requires_atomic_slice p\<rparr>,
      pf_mutually_exclusive_with = map derive_profile_id (sp_incompatible_with p),
      pf_requires_full_device_reconfiguration = sp_requires_full_device_reconfiguration p,
      pf_live_repartitioning_supported = sp_live_repartitioning_supported p,
      pf_backend_requirements = [], pf_description = ''synthetic profile '' @ sp_name p\<rparr>"

definition synthetic_capability :: "synthetic_device_spec \<Rightarrow> u64 \<Rightarrow> partition_capability" where
  "synthetic_capability spec now_ms =
     (let reason = (if sd_partitioning_supported spec then [] else sd_unsupported_reason spec)
      in capability_default
        \<lparr>cap_generation := gen_first,
         cap_support := (if sd_partitioning_supported spec then Support_Supported
                         else if sd_unsupported_reason spec = [] then Support_Unknown else Support_Unsupported),
         cap_mechanism := sd_mechanism spec, cap_mechanism_name := sd_mechanism_name spec,
         cap_max_partition_count := sd_max_partition_count spec,
         cap_requires_reset_for_reconfiguration := sd_requires_reset_for_reconfiguration spec,
         cap_live_reconfiguration_supported := sd_live_reconfiguration_supported spec,
         cap_isolation := sd_isolation spec, cap_minimum_allocation := sd_minimum_allocation spec,
         cap_slice_granularity := sd_slice_granularity spec,
         cap_total_compute_slices := sd_total_compute_slices spec,
         cap_total_memory_slices := sd_total_memory_slices spec,
         cap_drain_estimate_ms := sd_drain_estimate_ms spec,
         cap_reconfiguration_estimate_ms := sd_reconfiguration_downtime_ms spec,
         cap_backend_name := sd_backend spec, cap_backend_version := ''1.0.0'',
         cap_driver_version := sd_driver_version spec, cap_tooling_requirement := ''none'',
         cap_unsupported_reason := reason,
         cap_evidence := \<lparr>es_generation = gen_first, es_provenance = sd_provenance spec,
                          es_observed_at_ms = now_ms, es_ttl_ms = sd_evidence_ttl_ms spec,
                          es_source = ''synthetic'', es_observed = True\<rparr>,
         cap_exposed_dimensions :=
           map dim_of_index (filter (mask_has (rv_mask (sd_physical_totals spec))) [0..<kResourceDimensionCount]),
         cap_supported_profiles := map (\<lambda>p. derive_profile_id (sp_name p)) (sd_profiles spec)\<rparr>)"

definition synthetic_report :: "u64 \<Rightarrow> synthetic_device \<Rightarrow> backend_accelerator" where
  "synthetic_report now_ms d =
     (let spec = dv_spec d; capability = synthetic_capability spec now_ms
      in \<lparr>ba_stable_key = sd_key spec, ba_backend = sd_backend spec,
          ba_identifiers =
            \<lparr>di_vendor = sd_vendor spec, di_model = sd_model spec, di_uuid = sd_uuid spec, di_pci_bus_id = [],
             di_hardware_id = sd_hardware_id spec, di_firmware_version = sd_firmware_version spec,
             di_driver_version = sd_driver_version spec, di_serial = [], di_compute_capability = []\<rparr>,
          ba_physical_totals = sd_physical_totals spec, ba_capability = capability,
          ba_profiles = map (synthetic_profile_record spec) (sd_profiles spec), ba_boot_id = dv_boot d,
          ba_locality = \<lparr>ld_name = sd_locality_domain spec, ld_numa_node = sd_numa_node spec\<rparr>,
          ba_evidence = cap_evidence capability, ba_provenance = sd_provenance spec,
          ba_unsupported_reason = cap_unsupported_reason capability\<rparr>)"

definition synthetic_discover :: "u64 \<Rightarrow> synthetic_backend \<Rightarrow> backend_accelerator list result" where
  "synthetic_discover now_ms b =
     (if sf_fail_discovery (sy_faults b) then failure E_BackendFailure
      else Inr (map (synthetic_report now_ms)
                  (filter (\<lambda>d. dv_present d \<and> \<not> sf_device_disappears (sy_faults b)) (om_values (sy_devices b)))))"

definition synthetic_query_layout ::
  "u64 \<Rightarrow> string \<Rightarrow> synthetic_backend \<Rightarrow> synthetic_backend \<times> backend_layout result" where
  "synthetic_query_layout now_ms key b =
     (case sy_find key b of
        None \<Rightarrow> (b, failure E_NotFound)
      | Some d \<Rightarrow>
          if sf_fail_capability_query (sy_faults b) then (b, failure E_BackendFailure)
          else (case build_layout key now_ms d b of (b1, layout) \<Rightarrow> (b1, Inr layout)))"

section \<open>Mutations\<close>

definition refused_result :: mutation_result where
  "refused_result =
     \<lparr>mu_accepted = False, mu_ambiguous = False, mu_created_native_ids = [],
      mu_observed_layout = \<lparr>bl_stable_key = [], bl_device_present = False, bl_boot_id = 0,
        bl_physical_totals = rv_zeros, bl_partitions = [], bl_evidence = evidence_unknown\<rparr>\<rparr>"

definition replayed :: "mutation_request \<Rightarrow> synthetic_device \<Rightarrow> mutation_result option" where
  "replayed q d =
     (if mr_idempotency_token q = 0 then None else om_find (mr_idempotency_token q) (dv_applied_tokens d))"

definition boot_mismatch :: "mutation_request \<Rightarrow> synthetic_device \<Rightarrow> bool" where
  "boot_mismatch q d \<longleftrightarrow> boot_valid (mr_expected_boot q) \<and> mr_expected_boot q \<noteq> dv_boot d"

text \<open>The profiles of the desired partitions, and their slices on top of those in use.\<close>

fun desired_profiles :: "synthetic_device \<Rightarrow> native_partition_spec list \<Rightarrow> synthetic_profile_spec list result" where
  "desired_profiles d [] = Inr []"
| "desired_profiles d (q # qs) =
     (case find_profile_spec d (ns_vendor_native_profile q) of
        None \<Rightarrow> failure E_UnsupportedCapability
      | Some p \<Rightarrow> (case desired_profiles d qs of Inl e \<Rightarrow> Inl e | Inr ps \<Rightarrow> Inr (p # ps)))"

fun place_all :: "synthetic_profile_spec list \<Rightarrow> synthetic_device \<Rightarrow> synthetic_device \<times> string list" where
  "place_all [] d = (d, [])"
| "place_all (p # ps) d =
     (let n = new_partition d p (sd_key (dv_spec d) @ ''-domain-'' @ id_str (dv_next_partition_index d + 1));
          (d', ids) = place_all ps (place_partition n d)
      in (d', sn_native_id n # ids))"

definition create_guard :: "mutation_request \<Rightarrow> synthetic_device \<Rightarrow> synthetic_profile_spec list result" where
  "create_guard q d =
     (if mr_desired q = [] then failure E_InvalidRequest
      else if length (dv_partitions d) + length (mr_desired q) > unat (sd_max_partition_count (dv_spec d))
      then failure E_InsufficientCapacity
      else
        (case desired_profiles d (mr_desired q) of
           Inl e \<Rightarrow> Inl e
         | Inr profiles \<Rightarrow>
             (let compute = sum_list (map sn_compute_slices (dv_partitions d)) + sum_list (map sp_compute_slices profiles);
                  memory = sum_list (map sn_memory_slices (dv_partitions d)) + sum_list (map sp_memory_slices profiles)
              in if compute > sd_total_compute_slices (dv_spec d) \<or> memory > sd_total_memory_slices (dv_spec d)
                 then failure E_Fragmented
                 else
                   (case accumulate_all (map sp_resources profiles) (used_capacity d) of
                      Inl _ \<Rightarrow> failure E_InsufficientCapacity
                    | Inr used \<Rightarrow>
                        if is_subset_of used (sd_physical_totals (dv_spec d)) then Inr profiles
                        else failure E_InsufficientCapacity))))"

text \<open>The result is published in the layout and remembered under its token.\<close>

definition remember :: "nat option \<Rightarrow> string \<Rightarrow> u64 \<Rightarrow> mutation_result \<Rightarrow> synthetic_backend \<Rightarrow> synthetic_backend" where
  "remember bound key token result b =
     upd_device key (\<lambda>d.
       (let tokens = om_set token result (dv_applied_tokens d)
        in d\<lparr>dv_applied_tokens := (case bound of None \<Rightarrow> tokens | Some n \<Rightarrow> drop (length tokens - n) tokens)\<rparr>)) b"

definition publish ::
  "nat option \<Rightarrow> u64 \<Rightarrow> mutation_request \<Rightarrow> synthetic_device \<Rightarrow> bool \<Rightarrow> string list \<Rightarrow> synthetic_backend \<Rightarrow>
     synthetic_backend \<times> mutation_result result" where
  "publish bound now_ms q d ambiguous created b =
     (let (b1, layout) = build_layout (mr_stable_key q) now_ms d b;
          result = \<lparr>mu_accepted = True, mu_ambiguous = ambiguous, mu_created_native_ids = created,
                    mu_observed_layout = layout\<rparr>
      in (remember bound (mr_stable_key q) (mr_idempotency_token q) result b1, Inr result))"

definition synthetic_create ::
  "u64 \<Rightarrow> mutation_request \<Rightarrow> synthetic_backend \<Rightarrow> synthetic_backend \<times> mutation_result result" where
  "synthetic_create now_ms q b =
     (let f = sy_faults b in
      if sf_fail_create f then (b, Inr refused_result)
      else if sf_error_create f then (b, failure E_BackendFailure)
      else
        (case sy_find (mr_stable_key q) b of
           None \<Rightarrow> (b, failure E_NotFound)
         | Some d \<Rightarrow>
             if \<not> dv_present d \<or> sf_device_disappears f then (b, failure E_DeviceUnavailable)
             else if boot_mismatch q d then (b, failure E_StaleGeneration)
             else
               (case replayed q d of
                  Some result \<Rightarrow> (b, Inr result)
                | None \<Rightarrow>
                    (case create_guard q d of
                       Inl e \<Rightarrow> (b, Inl e)
                     | Inr profiles \<Rightarrow>
                         (let (d1, created) = place_all profiles d;
                              d2 = d1\<lparr>dv_mutation_count := dv_mutation_count d1 + 1,
                                      dv_partitions := (if sf_partition_disappears_after_create f then []
                                                        else dv_partitions d1)\<rparr>
                          in publish (Some 256) now_ms q d2
                               (sf_partition_disappears_after_create f \<or> sf_ambiguous_create f)
                               (if sf_mismatch_create_result f
                                then [''phantom-partition-that-does-not-exist''] else created) b)))))"

definition synthetic_destroy ::
  "u64 \<Rightarrow> mutation_request \<Rightarrow> synthetic_backend \<Rightarrow> synthetic_backend \<times> mutation_result result" where
  "synthetic_destroy now_ms q b =
     (let f = sy_faults b in
      if sf_fail_destroy f then (b, Inr refused_result)
      else if sf_error_destroy f then (b, failure E_BackendFailure)
      else
        (case sy_find (mr_stable_key q) b of
           None \<Rightarrow> (b, failure E_NotFound)
         | Some d \<Rightarrow>
             if boot_mismatch q d then (b, failure E_StaleGeneration)
             else
               (case replayed q d of
                  Some result \<Rightarrow> (b, Inr result)
                | None \<Rightarrow>
                    if mr_remove_native_ids q = [] then (b, failure E_InvalidRequest)
                    else
                      publish None now_ms q
                        (d\<lparr>dv_partitions := filter (\<lambda>p. sn_native_id p \<notin> set (mr_remove_native_ids q)) (dv_partitions d),
                           dv_mutation_count := dv_mutation_count d + 1\<rparr>)
                        (sf_ambiguous_destroy f) [] b)))"

text \<open>One loop checks the profile, adds the slices and the capacity of each desired partition.\<close>

fun reconfigure_target ::
  "synthetic_device \<Rightarrow> native_partition_spec list \<Rightarrow> resource_vector \<Rightarrow>
     (synthetic_profile_spec list \<times> resource_vector) result" where
  "reconfigure_target d [] t = Inr ([], t)"
| "reconfigure_target d (q # qs) t =
     (case find_profile_spec d (ns_vendor_native_profile q) of
        None \<Rightarrow> failure E_UnsupportedCapability
      | Some p \<Rightarrow>
          (case accumulate_sum t (sp_resources p) of
             Inl _ \<Rightarrow> failure E_InsufficientCapacity
           | Inr t' \<Rightarrow>
               (case reconfigure_target d qs t' of Inl e \<Rightarrow> Inl e | Inr (ps, u) \<Rightarrow> Inr (p # ps, u))))"

definition reconfigure_check :: "mutation_request \<Rightarrow> synthetic_device \<Rightarrow> synthetic_profile_spec list result" where
  "reconfigure_check q d =
     (if mr_desired q = [] then failure E_InvalidRequest
      else if length (mr_desired q) > unat (sd_max_partition_count (dv_spec d)) then failure E_InsufficientCapacity
      else
        (case reconfigure_target d (mr_desired q) rv_zeros of
           Inl e \<Rightarrow> Inl e
         | Inr (profiles, target) \<Rightarrow>
             if sum_list (map sp_compute_slices profiles) > sd_total_compute_slices (dv_spec d) \<or>
                sum_list (map sp_memory_slices profiles) > sd_total_memory_slices (dv_spec d)
             then failure E_Fragmented
             else if is_subset_of target (sd_physical_totals (dv_spec d)) then Inr profiles
             else failure E_InsufficientCapacity))"

definition synthetic_reconfigure ::
  "u64 \<Rightarrow> mutation_request \<Rightarrow> synthetic_backend \<Rightarrow> synthetic_backend \<times> mutation_result result" where
  "synthetic_reconfigure now_ms q b =
     (let f = sy_faults b in
      if sf_fail_reconfigure f then (b, Inr refused_result)
      else if sf_error_reconfigure f then (b, failure E_BackendFailure)
      else
        (case sy_find (mr_stable_key q) b of
           None \<Rightarrow> (b, failure E_NotFound)
         | Some d \<Rightarrow>
             if boot_mismatch q d then (b, failure E_StaleGeneration)
             else
               (case replayed q d of
                  Some result \<Rightarrow> (b, Inr result)
                | None \<Rightarrow>
                    (case reconfigure_check q d of
                       Inl e \<Rightarrow> (b, Inl e)
                     | Inr profiles \<Rightarrow>
                         (let (d1, created) = place_all profiles (d\<lparr>dv_partitions := []\<rparr>);
                              d2 = d1\<lparr>dv_mutation_count := dv_mutation_count d1 + 1,
                                      dv_partitions := (if sf_mismatch_create_result f then [] else dv_partitions d1)\<rparr>
                          in publish None now_ms q d2 (sf_ambiguous_reconfigure f) created b)))))"

definition synthetic_validate_partition :: "string \<Rightarrow> string \<Rightarrow> synthetic_backend \<Rightarrow> bool result" where
  "synthetic_validate_partition key native_id b =
     (case sy_find key b of
        None \<Rightarrow> failure E_NotFound
      | Some d \<Rightarrow> Inr (\<exists>p\<in>set (dv_partitions d). sn_native_id p = native_id))"

definition estimate_downtime :: "string \<Rightarrow> synthetic_backend \<Rightarrow> u64" where
  "estimate_downtime key b =
     (case sy_find key b of None \<Rightarrow> 0 | Some d \<Rightarrow> sd_reconfiguration_downtime_ms (dv_spec d))"

section \<open>Serialised state\<close>

definition synthetic_magic :: "u8 list" where
  "synthetic_magic = [65, 80, 70, 83, 89, 78, 49, 0]"

abbreviation synthetic_format_version :: u32 where
  "synthetic_format_version \<equiv> 1"

definition encode_synthetic_partition :: "synthetic_partition \<Rightarrow> byte_writer \<Rightarrow> byte_writer" where
  "encode_synthetic_partition p =
     w_seq [w_text (sn_native_id p) 4096, w_text (sn_instance_uuid p) 4096, w_text (sn_vendor_native p) 4096,
       w_u64 (sn_profile p), encode_rv (sn_resources p), w_u32 (sn_compute_slices p), w_u32 (sn_memory_slices p),
       w_text (sn_isolation_domain p) 4096, w_u32 (sn_isolation p), w_boolean (sn_live p)]"

definition encode_synthetic_device :: "synthetic_device \<Rightarrow> byte_writer \<Rightarrow> byte_writer" where
  "encode_synthetic_device d =
     w_seq [w_text (sd_key (dv_spec d)) 4096, w_u64 (dv_boot d), w_boolean (dv_present d),
       w_u64 (dv_next_partition_index d), w_list encode_synthetic_partition (dv_partitions d)]"

definition export_state :: "synthetic_backend \<Rightarrow> u8 list result" where
  "export_state b =
     (let w = w_seq [w_u32 synthetic_format_version, w_list encode_synthetic_device (om_values (sy_devices b))]
                (writer_start (Some (max_frame_bytes default_limits)))
      in case bw_error w of Some e \<Rightarrow> Inl e | None \<Rightarrow> Inr (synthetic_magic @ bw_buffer w))"

definition decode_synthetic_partition :: "synthetic_partition decoder" where
  "decode_synthetic_partition = do {
     x1 \<leftarrow> r_text 256; x2 \<leftarrow> r_text 256; x3 \<leftarrow> r_text 256; x4 \<leftarrow> r_u64; x5 \<leftarrow> decode_rv; x6 \<leftarrow> r_u32;
     x7 \<leftarrow> r_u32; x8 \<leftarrow> r_text 256; x9 \<leftarrow> r_u32; x10 \<leftarrow> r_boolean;
     State_Monad.return
       \<lparr>sn_native_id = x1, sn_instance_uuid = x2, sn_vendor_native = x3, sn_profile = x4, sn_resources = x5,
        sn_compute_slices = x6, sn_memory_slices = x7, sn_isolation_domain = x8, sn_isolation = x9, sn_live = x10\<rparr> }"

definition decode_device_header :: "(string \<times> boot_id \<times> bool \<times> u64 \<times> u32) decoder" where
  "decode_device_header = do {
     key \<leftarrow> r_text 256; boot \<leftarrow> r_u64; present \<leftarrow> r_boolean; next \<leftarrow> r_u64; count \<leftarrow> r_u32;
     State_Monad.return (key, boot, present, next, count) }"

definition restore_device :: "boot_id \<Rightarrow> bool \<Rightarrow> u64 \<Rightarrow> synthetic_partition list \<Rightarrow> synthetic_device \<Rightarrow> synthetic_device" where
  "restore_device boot present next ps d =
     d\<lparr>dv_boot := boot, dv_present := present, dv_next_partition_index := (if next = 0 then 1 else next),
       dv_partitions := ps\<rparr>"

text \<open>A device that is not configured is read and skipped: modifying an absent key changes nothing.\<close>

fun import_devices :: "nat \<Rightarrow> synthetic_backend \<Rightarrow> byte_reader \<Rightarrow> synthetic_backend \<times> byte_reader \<times> status" where
  "import_devices 0 b r = (b, r, success)"
| "import_devices (Suc n) b r =
     (if \<not> br_ok r then (b, r, success)
      else
        (let ((key, boot, present, next, n_partitions), r1) = run_state decode_device_header r
         in if unat n_partitions > 512 then (b, r1, failure E_LimitExceeded)
            else
              (let (ps, r2) = run_state (r_elements (unat n_partitions) decode_synthetic_partition) r1
               in case sy_find key b of
                    None \<Rightarrow> import_devices n b r2
                  | Some _ \<Rightarrow> import_devices n (upd_device key (restore_device boot present next ps) b) r2)))"

definition import_state :: "u8 list \<Rightarrow> synthetic_backend \<Rightarrow> synthetic_backend \<times> status" where
  "import_state bytes b =
     (if length bytes < length synthetic_magic + 8 then (b, failure E_InvalidArgument)
      else if take (length synthetic_magic) bytes \<noteq> synthetic_magic then (b, failure E_InvalidArgument)
      else
        (let (version, r) = run_state r_u32 (reader_start (drop (length synthetic_magic) bytes))
         in if version \<noteq> synthetic_format_version then (b, failure E_InvalidArgument)
            else
              (let (n_devices, r1) = run_state r_u32 r
               in if unat n_devices > 64 then (b, failure E_LimitExceeded)
                  else
                    (case import_devices (unat n_devices) b r1 of
                       (b1, _, Inl e) \<Rightarrow> (b1, Inl e)
                     | (b1, r2, Inr _) \<Rightarrow>
                         (b1, case reader_finish r2 of Inl _ \<Rightarrow> failure E_InvalidArgument | Inr _ \<Rightarrow> success)))))"

section \<open>Capacity and geometry\<close>

text \<open>
  What a device holds fits it: at most the published number of partitions, and in every
  dimension no more than the physical total. The sum of the code fails on vectors of different
  dimensions, so all profiles of the device share their dimensions.
\<close>

definition dims_uniform :: "u32 \<Rightarrow> resource_vector \<Rightarrow> bool" where
  "dims_uniform m v \<longleftrightarrow> rv_wf v \<and> rv_mask v = m"

definition held_total :: "synthetic_partition list \<Rightarrow> nat \<Rightarrow> nat" where
  "held_total ps i = sum_list (map (\<lambda>p. rv_val (sn_resources p) i) ps)"

definition device_fits :: "u32 \<Rightarrow> synthetic_device \<Rightarrow> bool" where
  "device_fits m d \<longleftrightarrow>
     (\<forall>p\<in>set (sd_profiles (dv_spec d)). dims_uniform m (sp_resources p)) \<and>
     (\<forall>p\<in>set (dv_partitions d). dims_uniform m (sn_resources p)) \<and>
     (\<forall>i<8. rv_val (sd_physical_totals (dv_spec d)) i \<le> dim_cap i) \<and>
     length (dv_partitions d) \<le> unat (sd_max_partition_count (dv_spec d)) \<and>
     (\<forall>i<8. held_total (dv_partitions d) i \<le> rv_val (sd_physical_totals (dv_spec d)) i)"

lemma held_total_append: "held_total (ps @ qs) i = held_total ps i + held_total qs i"
  by (simp add: held_total_def)

lemma held_total_filter: "held_total (filter P ps) i \<le> held_total ps i"
  by (induction ps) (simp_all add: held_total_def)

lemma held_total_Nil [simp]: "held_total [] i = 0"
  by (simp add: held_total_def)

lemma held_total_resources: "held_total ps i = sum_list (map (\<lambda>v. rv_val v i) (map sn_resources ps))"
  by (simp add: held_total_def o_def)

lemma empty_val: "rv_empty v \<Longrightarrow> rv_val v i = 0"
  by (simp add: rv_empty_def rv_val_def)

lemma accumulate_spec:
  assumes "dims_uniform m v" "dims_uniform m t \<or> t = rv_zeros"
  shows "case accumulate_sum t v of
      Inr u \<Rightarrow> dims_uniform m u \<and> (\<forall>i<8. rv_val u i = rv_val t i + rv_val v i)
    | Inl e \<Rightarrow> \<exists>i<8. rv_val t i + rv_val v i > dim_cap i"
proof (cases "rv_empty t")
  case True
  then show ?thesis using assms(1) by (simp add: accumulate_sum_def empty_val)
next
  case False
  then have t: "dims_uniform m t" using assms(2) by (auto simp: rv_empty_def rv_zeros_def)
  then have "rv_wf t" "dims_within v t" using assms(1) by (simp_all add: dims_uniform_def dims_within_def)
  from rv_add_assign_spec [OF this] False t show ?thesis
    by (auto simp: accumulate_sum_def dims_uniform_def not_le split: if_splits)
qed

lemma accumulate_all_spec:
  assumes "\<forall>v\<in>set vs. dims_uniform m v" "dims_uniform m t \<or> t = rv_zeros"
  shows "case accumulate_all vs t of
      Inr u \<Rightarrow> (dims_uniform m u \<or> u = rv_zeros) \<and> (\<forall>i<8. rv_val u i = rv_val t i + sum_list (map (\<lambda>v. rv_val v i) vs))
    | Inl e \<Rightarrow> \<exists>i<8. rv_val t i + sum_list (map (\<lambda>v. rv_val v i) vs) > dim_cap i"
  using assms
proof (induction vs arbitrary: t)
  case (Cons v vs)
  note step = accumulate_spec [of m v t]
  show ?case
  proof (cases "accumulate_sum t v")
    case (Inl e)
    with step Cons.prems obtain i where "i < 8" "rv_val t i + rv_val v i > dim_cap i" by auto
    with Inl show ?thesis by (auto intro!: exI [of _ i])
  next
    case (Inr u)
    with step Cons.prems have u: "dims_uniform m u" "\<forall>i<8. rv_val u i = rv_val t i + rv_val v i" by auto
    show ?thesis using Cons.IH [of u] Cons.prems(1) u Inr
      by (cases "accumulate_all vs u") (auto simp: add.assoc)
  qed
qed simp

text \<open>A device that fits has an exact account of what it uses.\<close>

lemma used_capacity_exact:
  assumes "device_fits m d"
  shows "(dims_uniform m (used_capacity d) \<or> used_capacity d = rv_zeros) \<and>
    (\<forall>i<8. rv_val (used_capacity d) i = held_total (dv_partitions d) i)"
proof -
  have "\<forall>v\<in>set (map sn_resources (dv_partitions d)). dims_uniform m v" using assms by (simp add: device_fits_def)
  note spec = accumulate_all_spec [OF this, of rv_zeros, unfolded held_total_resources [symmetric], simplified]
  have "held_total (dv_partitions d) i \<le> dim_cap i" if "i < 8" for i
    using assms that by (auto simp: device_fits_def intro: order_trans)
  with spec show ?thesis
    by (cases "accumulate_all (map sn_resources (dv_partitions d)) rv_zeros") (auto simp: used_capacity_def not_le [symmetric])
qed

lemma desired_profiles_published:
  "desired_profiles d qs = Inr ps \<Longrightarrow> length ps = length qs \<and> (\<forall>p\<in>set ps. p \<in> set (sd_profiles (dv_spec d)))"
proof (induction qs arbitrary: ps)
  case (Cons q qs)
  then show ?case by (auto simp: find_profile_spec_def find_Some_iff split: option.splits sum.splits)
qed simp

lemma place_all_spec:
  "place_all ps d = (d', ids) \<Longrightarrow>
     dv_spec d' = dv_spec d \<and> dv_boot d' = dv_boot d \<and> dv_applied_tokens d' = dv_applied_tokens d \<and> dv_present d' = dv_present d \<and>
     dv_next_partition_index d' = dv_next_partition_index d + of_nat (length ps) \<and>
     (\<exists>ns. dv_partitions d' = dv_partitions d @ ns \<and> map sn_resources ns = map sp_resources ps \<and>
        map sn_vendor_native ns = map sp_vendor_native ps \<and> map sn_native_id ns = ids \<and> (\<forall>n\<in>set ns. sn_live n) \<and>
        ids = map (\<lambda>k. make_native_id (sd_key (dv_spec d)) (dv_next_partition_index d + of_nat k)) [0..<length ps])"
proof (induction ps arbitrary: d d' ids)
  case Nil
  then show ?case by simp
next
  case (Cons p ps)
  let ?n = "new_partition d p (sd_key (dv_spec d) @ ''-domain-'' @ id_str (dv_next_partition_index d + 1))"
  obtain d1 ids1 where r: "place_all ps (place_partition ?n d) = (d1, ids1)" by fastforce
  then have e: "d' = d1" "ids = sn_native_id ?n # ids1" using Cons.prems by (simp_all add: Let_def)
  obtain ns where ns: "dv_partitions d1 = (dv_partitions d @ [?n]) @ ns" "map sn_resources ns = map sp_resources ps"
    "map sn_vendor_native ns = map sp_vendor_native ps" "map sn_native_id ns = ids1" "\<forall>n\<in>set ns. sn_live n"
    "ids1 = map (\<lambda>k. make_native_id (sd_key (dv_spec d)) (dv_next_partition_index d + 1 + of_nat k)) [0..<length ps]"
    "dv_spec d1 = dv_spec d" "dv_boot d1 = dv_boot d" "dv_applied_tokens d1 = dv_applied_tokens d" "dv_present d1 = dv_present d"
    "dv_next_partition_index d1 = dv_next_partition_index d + 1 + of_nat (length ps)"
    using Cons.IH [OF r] by (auto simp: place_partition_def)
  have up: "[0..<length (p # ps)] = 0 # map Suc [0..<length ps]" by (simp add: map_Suc_upt upt_conv_Cons del: upt_Suc)
  show ?case
    unfolding up
    by (intro conjI exI [of _ "?n # ns"])
      (use ns in \<open>simp_all add: e new_partition_def Let_def o_def add.assoc add.commute [of 1]\<close>)
qed

lemma place_all_total: "map sn_resources ns = map sp_resources ps \<Longrightarrow> held_total ns i = sum_list (map (\<lambda>v. rv_val v i) (map sp_resources ps))"
  by (simp only: held_total_resources)

text \<open>What publishing a result stores.\<close>

lemma publish_find:
  assumes "sy_find (mr_stable_key q) b = Some d0"
  obtains layout where
    "publish bound now_ms q d ambiguous created b =
       (fst (publish bound now_ms q d ambiguous created b),
        Inr \<lparr>mu_accepted = True, mu_ambiguous = ambiguous, mu_created_native_ids = created, mu_observed_layout = layout\<rparr>)"
    "layout = layout_of ((sy_faults b)\<lparr>sf_silent_device_reset := False\<rparr>) now_ms (apply_silent_reset (sy_faults b) d)"
    "sy_faults (fst (publish bound now_ms q d ambiguous created b)) = (sy_faults b)\<lparr>sf_silent_device_reset := False\<rparr>"
    "\<And>j. sy_find j (fst (publish bound now_ms q d ambiguous created b)) =
       (if j = mr_stable_key q
        then Some ((apply_silent_reset (sy_faults b) d)\<lparr>dv_applied_tokens :=
          (let tokens = om_set (mr_idempotency_token q)
                 \<lparr>mu_accepted = True, mu_ambiguous = ambiguous, mu_created_native_ids = created, mu_observed_layout = layout\<rparr>
                 (dv_applied_tokens (apply_silent_reset (sy_faults b) d))
           in case bound of None \<Rightarrow> tokens | Some n \<Rightarrow> drop (length tokens - n) tokens)\<rparr>)
        else sy_find j b)"
proof (rule that [of "layout_of ((sy_faults b)\<lparr>sf_silent_device_reset := False\<rparr>) now_ms (apply_silent_reset (sy_faults b) d)"])
  show "sy_find j (fst (publish bound now_ms q d ambiguous created b)) =
       (if j = mr_stable_key q
        then Some ((apply_silent_reset (sy_faults b) d)\<lparr>dv_applied_tokens :=
          (let tokens = om_set (mr_idempotency_token q)
                 \<lparr>mu_accepted = True, mu_ambiguous = ambiguous, mu_created_native_ids = created,
                  mu_observed_layout = layout_of ((sy_faults b)\<lparr>sf_silent_device_reset := False\<rparr>) now_ms (apply_silent_reset (sy_faults b) d)\<rparr>
                 (dv_applied_tokens (apply_silent_reset (sy_faults b) d))
           in case bound of None \<Rightarrow> tokens | Some n \<Rightarrow> drop (length tokens - n) tokens)\<rparr>)
        else sy_find j b)" for j
    using assms by (simp add: publish_def build_layout_def remember_def Let_def apf_lookup)
qed (simp_all add: publish_def build_layout_def remember_def Let_def)

definition backend_fits :: "(string \<Rightarrow> u32) \<Rightarrow> synthetic_backend \<Rightarrow> bool" where
  "backend_fits m b \<longleftrightarrow> (\<forall>key d. sy_find key b = Some d \<longrightarrow> device_fits (m key) d)"

lemma device_fits_tokens: "device_fits m (d\<lparr>dv_applied_tokens := ts\<rparr>) = device_fits m d"
  by (simp add: device_fits_def)

lemma device_fits_cleared:
  "device_fits m d \<Longrightarrow> length ps \<le> length (dv_partitions d) \<Longrightarrow> set ps \<subseteq> set (dv_partitions d) \<Longrightarrow>
     (\<And>i. held_total ps i \<le> held_total (dv_partitions d) i) \<Longrightarrow> device_fits m (d\<lparr>dv_partitions := ps, dv_mutation_count := n\<rparr>)"
  unfolding device_fits_def by (simp, meson order_trans subsetD)

lemma silent_reset_fits: "device_fits m d \<Longrightarrow> device_fits m (apply_silent_reset f d)"
  by (auto simp: apply_silent_reset_def device_fits_def)

lemma publish_fits:
  assumes "backend_fits m b" "sy_find (mr_stable_key q) b = Some d0" "device_fits (m (mr_stable_key q)) d"
  shows "backend_fits m (fst (publish bound now_ms q d ambiguous created b))"
proof (rule publish_find [OF assms(2), of bound now_ms d ambiguous created])
  fix layout
  assume find: "\<And>j. sy_find j (fst (publish bound now_ms q d ambiguous created b)) =
       (if j = mr_stable_key q
        then Some ((apply_silent_reset (sy_faults b) d)\<lparr>dv_applied_tokens :=
          (let tokens = om_set (mr_idempotency_token q)
                 \<lparr>mu_accepted = True, mu_ambiguous = ambiguous, mu_created_native_ids = created, mu_observed_layout = layout\<rparr>
                 (dv_applied_tokens (apply_silent_reset (sy_faults b) d))
           in case bound of None \<Rightarrow> tokens | Some n \<Rightarrow> drop (length tokens - n) tokens)\<rparr>)
        else sy_find j b)"
  have "device_fits (m (mr_stable_key q)) (apply_silent_reset (sy_faults b) d)" using assms(3) by (rule silent_reset_fits)
  then show ?thesis using assms(1) unfolding backend_fits_def find by (simp add: device_fits_tokens)
qed

lemma uniform_profiles:
  "device_fits m d \<Longrightarrow> \<forall>p\<in>set ps. p \<in> set (sd_profiles (dv_spec d)) \<Longrightarrow> \<forall>v\<in>set (map sp_resources ps). dims_uniform m v"
  by (auto simp: device_fits_def)

lemma mask_val: "dims_uniform m u \<or> u = rv_zeros \<Longrightarrow> is_subset_of u t \<Longrightarrow> i < 8 \<Longrightarrow> rv_val u i \<le> rv_val t i"
  by (cases "bit (rv_mask u) i") (auto simp: is_subset_of_iff rv_val_def)

lemma placed_fits:
  assumes d: "device_fits m d" and place: "place_all ps d = (d1, ids)"
    and ps: "\<forall>p\<in>set ps. p \<in> set (sd_profiles (dv_spec d))"
    and n: "length (dv_partitions d) + length ps \<le> unat (sd_max_partition_count (dv_spec d))"
    and tot: "\<And>i. i < 8 \<Longrightarrow> held_total (dv_partitions d) i + sum_list (map (\<lambda>v. rv_val v i) (map sp_resources ps))
                \<le> rv_val (sd_physical_totals (dv_spec d)) i"
  shows "device_fits m d1"
proof -
  obtain ns where ns: "dv_partitions d1 = dv_partitions d @ ns" "map sn_resources ns = map sp_resources ps" "dv_spec d1 = dv_spec d"
    using place_all_spec [OF place] by auto
  have "length ns = length ps" using arg_cong [OF ns(2), of length] by simp
  moreover have "\<forall>v\<in>set (map sn_resources ns). dims_uniform m v" unfolding ns(2) by (rule uniform_profiles [OF d ps])
  ultimately show ?thesis
    using d n tot place_all_total [OF ns(2)] by (auto simp: device_fits_def ns(1,3) held_total_append)
qed

lemma create_guard_fits:
  assumes "device_fits m d" "create_guard q d = Inr ps" "place_all ps d = (d1, ids)"
  shows "device_fits m d1"
proof -
  obtain used where g: "desired_profiles d (mr_desired q) = Inr ps" "accumulate_all (map sp_resources ps) (used_capacity d) = Inr used"
    "is_subset_of used (sd_physical_totals (dv_spec d))"
    "length (dv_partitions d) + length (mr_desired q) \<le> unat (sd_max_partition_count (dv_spec d))"
    using assms(2) by (auto simp: create_guard_def Let_def split: if_splits sum.splits)
  note pub = desired_profiles_published [OF g(1)]
  note used = used_capacity_exact [OF assms(1)]
  have "\<forall>v\<in>set (map sp_resources ps). dims_uniform m v" using uniform_profiles [OF assms(1)] pub by blast
  from accumulate_all_spec [OF this conjunct1 [OF used]] g(2)
  have u: "dims_uniform m used \<or> used = rv_zeros"
    "\<forall>i<8. rv_val used i = rv_val (used_capacity d) i + sum_list (map (\<lambda>v. rv_val v i) (map sp_resources ps))" by auto
  show ?thesis
  proof (rule placed_fits [OF assms(1,3)])
    show "held_total (dv_partitions d) i + sum_list (map (\<lambda>v. rv_val v i) (map sp_resources ps))
        \<le> rv_val (sd_physical_totals (dv_spec d)) i" if "i < 8" for i
      using mask_val [OF u(1) g(3) that] u(2) used that by simp
  qed (use pub g(4) in auto)
qed

lemma create_cases:
  obtains (same) r where "\<And>t. synthetic_create t q b = (b, r)"
  | (placed) d ps d1 ids where "sy_find (mr_stable_key q) b = Some d" "dv_present d" "\<not> sf_device_disappears (sy_faults b)"
      "\<not> boot_mismatch q d" "replayed q d = None" "create_guard q d = Inr ps" "place_all ps d = (d1, ids)"
      "\<not> sf_fail_create (sy_faults b)" "\<not> sf_error_create (sy_faults b)"
      "synthetic_create now_ms q b =
         publish (Some 256) now_ms q
           (d1\<lparr>dv_mutation_count := dv_mutation_count d1 + 1,
               dv_partitions := (if sf_partition_disappears_after_create (sy_faults b) then [] else dv_partitions d1)\<rparr>)
           (sf_partition_disappears_after_create (sy_faults b) \<or> sf_ambiguous_create (sy_faults b))
           (if sf_mismatch_create_result (sy_faults b) then [''phantom-partition-that-does-not-exist''] else ids) b"
proof (cases "sf_fail_create (sy_faults b) \<or> sf_error_create (sy_faults b) \<or> sy_find (mr_stable_key q) b = None")
  case True
  then have "synthetic_create t q b = (b, snd (synthetic_create now_ms q b))" for t by (auto simp: synthetic_create_def Let_def)
  then show thesis by (rule same)
next
  case False
  then obtain d where d: "sy_find (mr_stable_key q) b = Some d" "\<not> sf_fail_create (sy_faults b)" "\<not> sf_error_create (sy_faults b)" by auto
  show thesis
  proof (cases "\<not> dv_present d \<or> sf_device_disappears (sy_faults b) \<or> boot_mismatch q d \<or> replayed q d \<noteq> None \<or> (\<exists>e. create_guard q d = Inl e)")
    case True
    then have "synthetic_create t q b = (b, snd (synthetic_create now_ms q b))" for t
      using d by (auto simp: synthetic_create_def Let_def split: option.split)
    then show thesis by (rule same)
  next
    case False
    then obtain ps where ps: "create_guard q d = Inr ps" by (cases "create_guard q d") auto
    obtain d1 ids where p: "place_all ps d = (d1, ids)" by fastforce
    show thesis by (rule placed [of d ps d1 ids]) (use d False ps p in \<open>simp_all add: synthetic_create_def Let_def\<close>)
  qed
qed

lemma create_fits:
  assumes "backend_fits m b"
  shows "backend_fits m (fst (synthetic_create now_ms q b))"
proof (cases rule: create_cases [where now_ms = now_ms and q = q and b = b])
  case (placed d ps d1 ids)
  have "device_fits (m (mr_stable_key q)) d1" using create_guard_fits [OF _ placed(6,7)] assms placed(1) by (simp add: backend_fits_def)
  then have "device_fits (m (mr_stable_key q)) (d1\<lparr>dv_mutation_count := n, dv_partitions := (if c then [] else dv_partitions d1)\<rparr>)" for n c
    by (auto simp: device_fits_def)
  with publish_fits [OF assms placed(1)] show ?thesis unfolding placed(10) by blast
qed (use assms in simp)

lemma destroy_fits: "backend_fits m b \<Longrightarrow> backend_fits m (fst (synthetic_destroy now_ms q b))"
proof -
  assume b: "backend_fits m b"
  have "device_fits (m (mr_stable_key q)) (d\<lparr>dv_partitions := filter P (dv_partitions d), dv_mutation_count := n\<rparr>)"
    if "sy_find (mr_stable_key q) b = Some d" for d P n
    using b that by (intro device_fits_cleared) (auto simp: backend_fits_def held_total_filter)
  then show ?thesis
    using b publish_fits [OF b] by (auto simp: synthetic_destroy_def Let_def split: option.split)
qed

lemma reconfigure_target_spec:
  assumes "reconfigure_target d qs t = Inr (ps, u)"
  shows "length ps = length qs \<and> (\<forall>p\<in>set ps. p \<in> set (sd_profiles (dv_spec d))) \<and> accumulate_all (map sp_resources ps) t = Inr u"
  using assms
proof (induction qs arbitrary: t ps u)
  case (Cons q qs)
  then show ?case by (auto simp: find_profile_spec_def find_Some_iff split: option.splits sum.splits)
qed simp

lemma reconfigure_check_fits:
  assumes "device_fits m d" "reconfigure_check q d = Inr ps" "place_all ps (d\<lparr>dv_partitions := []\<rparr>) = (d1, ids)"
  shows "device_fits m d1"
proof -
  obtain target where g: "reconfigure_target d (mr_desired q) rv_zeros = Inr (ps, target)"
    "is_subset_of target (sd_physical_totals (dv_spec d))" "length (mr_desired q) \<le> unat (sd_max_partition_count (dv_spec d))"
    using assms(2) by (auto simp: reconfigure_check_def split: if_splits sum.splits)
  note t = reconfigure_target_spec [OF g(1)]
  have "\<forall>v\<in>set (map sp_resources ps). dims_uniform m v" using uniform_profiles [OF assms(1)] t by blast
  from accumulate_all_spec [OF this, of rv_zeros] t
  have u: "dims_uniform m target \<or> target = rv_zeros"
    "\<forall>i<8. rv_val target i = sum_list (map (\<lambda>v. rv_val v i) (map sp_resources ps))" by auto
  have cleared: "device_fits m (d\<lparr>dv_partitions := []\<rparr>)" using assms(1) by (simp add: device_fits_def)
  show ?thesis
  proof (rule placed_fits [OF cleared assms(3)])
    show "held_total (dv_partitions (d\<lparr>dv_partitions := []\<rparr>)) i + sum_list (map (\<lambda>v. rv_val v i) (map sp_resources ps))
        \<le> rv_val (sd_physical_totals (dv_spec (d\<lparr>dv_partitions := []\<rparr>))) i" if "i < 8" for i
      using mask_val [OF u(1) g(2) that] u(2) that by simp
  qed (use t g(3) in auto)
qed

lemma reconfigure_cases:
  obtains (same) r where "synthetic_reconfigure now_ms q b = (b, r)"
  | (placed) d ps d1 ids where "sy_find (mr_stable_key q) b = Some d" "\<not> boot_mismatch q d" "replayed q d = None"
      "reconfigure_check q d = Inr ps" "place_all ps (d\<lparr>dv_partitions := []\<rparr>) = (d1, ids)"
      "synthetic_reconfigure now_ms q b =
         publish None now_ms q
           (d1\<lparr>dv_mutation_count := dv_mutation_count d1 + 1,
               dv_partitions := (if sf_mismatch_create_result (sy_faults b) then [] else dv_partitions d1)\<rparr>)
           (sf_ambiguous_reconfigure (sy_faults b)) ids b"
proof (cases "sf_fail_reconfigure (sy_faults b) \<or> sf_error_reconfigure (sy_faults b) \<or> sy_find (mr_stable_key q) b = None")
  case True
  then have "fst (synthetic_reconfigure now_ms q b) = b" by (auto simp: synthetic_reconfigure_def Let_def)
  then show thesis by (metis same prod.collapse)
next
  case False
  then obtain d where d: "sy_find (mr_stable_key q) b = Some d" "\<not> sf_fail_reconfigure (sy_faults b)" "\<not> sf_error_reconfigure (sy_faults b)" by auto
  show thesis
  proof (cases "boot_mismatch q d \<or> replayed q d \<noteq> None \<or> (\<exists>e. reconfigure_check q d = Inl e)")
    case True
    then have "fst (synthetic_reconfigure now_ms q b) = b" using d by (auto simp: synthetic_reconfigure_def Let_def split: option.split)
    then show thesis by (metis same prod.collapse)
  next
    case False
    then obtain ps where ps: "reconfigure_check q d = Inr ps" by (cases "reconfigure_check q d") auto
    obtain d1 ids where p: "place_all ps (d\<lparr>dv_partitions := []\<rparr>) = (d1, ids)" by fastforce
    show thesis by (rule placed [of d ps d1 ids]) (use d False ps p in \<open>simp_all add: synthetic_reconfigure_def Let_def\<close>)
  qed
qed

lemma reconfigure_fits:
  assumes "backend_fits m b"
  shows "backend_fits m (fst (synthetic_reconfigure now_ms q b))"
proof (cases rule: reconfigure_cases [of now_ms q b])
  case (placed d ps d1 ids)
  have "device_fits (m (mr_stable_key q)) d1" using reconfigure_check_fits [OF _ placed(4,5)] assms placed(1) by (simp add: backend_fits_def)
  then have "device_fits (m (mr_stable_key q)) (d1\<lparr>dv_mutation_count := n, dv_partitions := (if c then [] else dv_partitions d1)\<rparr>)" for n c
    by (auto simp: device_fits_def)
  with publish_fits [OF assms placed(1)] show ?thesis unfolding placed(6) by blast
qed (use assms in simp)

lemma query_fits: "backend_fits m b \<Longrightarrow> backend_fits m (fst (synthetic_query_layout now_ms key b))"
  by (auto simp: synthetic_query_layout_def build_layout_def backend_fits_def Let_def apf_lookup silent_reset_fits
      split: option.split)

section \<open>Replay of an idempotency token\<close>

text \<open>
  A repeated creation with the same token changes nothing and returns the first result, provided
  the first call did not reset the device and its entry is not evicted.
\<close>

lemma create_replay:
  assumes "synthetic_create now_ms q b = (b1, Inr result)" "mr_idempotency_token q \<noteq> 0"
    "\<not> sf_silent_device_reset (sy_faults b)"
    "\<And>d. sy_find (mr_stable_key q) b = Some d \<Longrightarrow> length (dv_applied_tokens d) < 256"
  shows "synthetic_create later q b1 = (b1, Inr result)"
proof (cases rule: create_cases [where now_ms = now_ms and q = q and b = b])
  case (same r)
  then show ?thesis using assms(1) by simp
next
  case (placed d ps d1 ids)
  let ?d2 = "d1\<lparr>dv_mutation_count := dv_mutation_count d1 + 1,
      dv_partitions := (if sf_partition_disappears_after_create (sy_faults b) then [] else dv_partitions d1)\<rparr>"
  have d2: "apply_silent_reset (sy_faults b) ?d2 = ?d2" using assms(3) by (simp add: apply_silent_reset_def)
  have f: "(sy_faults b)\<lparr>sf_silent_device_reset := False\<rparr> = sy_faults b" using assms(3) by (cases "sy_faults b") simp
  note place = place_all_spec [OF placed(7)]
  let ?amb = "sf_partition_disappears_after_create (sy_faults b) \<or> sf_ambiguous_create (sy_faults b)"
  let ?ids = "if sf_mismatch_create_result (sy_faults b) then [''phantom-partition-that-does-not-exist''] else ids"
  show ?thesis
  proof (rule publish_find [OF placed(1), of "Some 256" now_ms ?d2 ?amb ?ids])
    fix layout
    let ?res = "\<lparr>mu_accepted = True, mu_ambiguous = ?amb, mu_created_native_ids = ?ids, mu_observed_layout = layout\<rparr>"
    assume p: "publish (Some 256) now_ms q ?d2 ?amb ?ids b = (fst (publish (Some 256) now_ms q ?d2 ?amb ?ids b), Inr ?res)"
      and pf: "sy_faults (fst (publish (Some 256) now_ms q ?d2 ?amb ?ids b)) = (sy_faults b)\<lparr>sf_silent_device_reset := False\<rparr>"
      and find: "\<And>j. sy_find j (fst (publish (Some 256) now_ms q ?d2 ?amb ?ids b)) =
       (if j = mr_stable_key q
        then Some ((apply_silent_reset (sy_faults b) ?d2)\<lparr>dv_applied_tokens :=
          (let tokens = om_set (mr_idempotency_token q) ?res (dv_applied_tokens (apply_silent_reset (sy_faults b) ?d2))
           in case Some 256 of None \<Rightarrow> tokens | Some n \<Rightarrow> drop (length tokens - n) tokens)\<rparr>)
        else sy_find j b)"
    have b1: "b1 = fst (publish (Some 256) now_ms q ?d2 ?amb ?ids b)" and res: "result = ?res"
      using assms(1) placed(10) p by (metis prod.inject sum.inject(2))+
    have fresh: "om_find (mr_idempotency_token q) (dv_applied_tokens d) = None"
      using placed(5) assms(2) by (simp add: replayed_def)
    have "length (om_set (mr_idempotency_token q) ?res (dv_applied_tokens d)) \<le> 256"
      using length_om_set [OF fresh, of ?res] assms(4) [OF placed(1)] by simp
    then have dev: "sy_find (mr_stable_key q) b1 = Some (?d2\<lparr>dv_applied_tokens := om_set (mr_idempotency_token q) ?res (dv_applied_tokens d)\<rparr>)"
      unfolding b1 find using place by (simp add: d2 Let_def)
    have "sy_faults b1 = sy_faults b" unfolding b1 pf by (rule f)
    then show ?thesis
      using dev placed place assms(2) res
      by (simp add: synthetic_create_def Let_def boot_mismatch_def replayed_def apf_lookup)
  qed
qed

section \<open>An accepted creation can be verified\<close>

text \<open>
  The request names the vendor profile and carries the resources the device publishes for it.
\<close>

definition names_published :: "synthetic_device \<Rightarrow> native_partition_spec \<Rightarrow> bool" where
  "names_published d s =
     (case find_profile_spec d (ns_vendor_native_profile s) of
        None \<Rightarrow> False
      | Some p \<Rightarrow> sp_vendor_native p = ns_vendor_native_profile s \<and> rv_eq (sp_resources p) (ns_resources s))"

lemma desired_profiles_nth:
  "desired_profiles d qs = Inr ps \<Longrightarrow> k < length qs \<Longrightarrow> find_profile_spec d (ns_vendor_native_profile (qs ! k)) = Some (ps ! k)"
proof (induction qs arbitrary: ps k)
  case (Cons q qs)
  then show ?case by (cases k) (auto split: option.splits sum.splits)
qed simp

lemma make_native_id_named [simp]: "make_native_id key k \<noteq> []"
  by (simp add: make_native_id_def)

lemma no_faults_simps [simp]:
  "\<not> sf_fail_create no_faults" "\<not> sf_error_create no_faults" "\<not> sf_device_disappears no_faults"
  "\<not> sf_partition_disappears_after_create no_faults" "\<not> sf_ambiguous_create no_faults"
  "\<not> sf_mismatch_create_result no_faults" "\<not> sf_silent_device_reset no_faults"
  "\<not> sf_malformed_metadata no_faults" "\<not> sf_duplicate_native_ids no_faults" "\<not> sf_fail_capability_query no_faults"
  "no_faults\<lparr>sf_silent_device_reset := False\<rparr> = no_faults"
  by (simp_all add: no_faults_def)

lemma layout_partitions_clean: "dv_present d \<Longrightarrow> bl_partitions (layout_of no_faults now_ms d) = map native_of (filter sn_live (dv_partitions d))"
  by (simp add: layout_of_def layout_natives_def Let_def)

text \<open>What a fault-free creation leaves on the device and reports.\<close>

lemma create_accepted:
  assumes "synthetic_create now_ms q b = (b1, Inr result)" "sy_faults b = no_faults"
    "sy_find (mr_stable_key q) b = Some d" "replayed q d = None"
  obtains ps ns d1 where "desired_profiles d (mr_desired q) = Inr ps" "dv_present d"
    "sy_find (mr_stable_key q) b1 = Some d1" "sy_faults b1 = no_faults" "dv_present d1" "dv_partitions d1 = dv_partitions d @ ns"
    "map sn_resources ns = map sp_resources ps" "map sn_vendor_native ns = map sp_vendor_native ps" "\<forall>n\<in>set ns. sn_live n"
    "mu_accepted result" "\<not> mu_ambiguous result" "mu_created_native_ids result = map sn_native_id ns"
    "\<forall>n\<in>set ns. sn_native_id n \<noteq> []" "mu_observed_layout result = layout_of no_faults now_ms d1"
proof -
  have pr: "dv_present d" and bm: "\<not> boot_mismatch q d"
    using assms by (auto simp: synthetic_create_def Let_def split: if_splits)
  obtain ps where g: "create_guard q d = Inr ps"
    using assms pr bm by (cases "create_guard q d") (auto simp: synthetic_create_def Let_def)
  have dp: "desired_profiles d (mr_desired q) = Inr ps"
    using g by (auto simp: create_guard_def Let_def split: if_splits sum.splits)
  obtain d1 ids where p: "place_all ps d = (d1, ids)" by fastforce
  let ?d2 = "d1\<lparr>dv_mutation_count := dv_mutation_count d1 + 1\<rparr>"
  have eq: "synthetic_create now_ms q b = publish (Some 256) now_ms q ?d2 False ids b"
    using assms(2-4) pr bm g p by (simp add: synthetic_create_def Let_def)
  obtain ns where place: "dv_spec d1 = dv_spec d" "dv_present d1 = dv_present d" "dv_partitions d1 = dv_partitions d @ ns"
    "map sn_resources ns = map sp_resources ps" "map sn_vendor_native ns = map sp_vendor_native ps" "map sn_native_id ns = ids"
    "\<forall>n\<in>set ns. sn_live n" "ids = map (\<lambda>k. make_native_id (sd_key (dv_spec d)) (dv_next_partition_index d + of_nat k)) [0..<length ps]"
    using place_all_spec [OF p] by auto
  have "sn_native_id n \<noteq> []" if "n \<in> set ns" for n
  proof -
    have "sn_native_id n \<in> set ids" using that place(6) by force
    then obtain k where "sn_native_id n = make_native_id (sd_key (dv_spec d)) k" using place(8) by auto
    then show ?thesis by simp
  qed
  note named = this
  have reset: "apply_silent_reset no_faults ?d2 = ?d2" by (simp add: apply_silent_reset_def)
  show thesis
  proof (rule publish_find [OF assms(3), of "Some 256" now_ms ?d2 False ids])
    fix layout
    let ?res = "\<lparr>mu_accepted = True, mu_ambiguous = False, mu_created_native_ids = ids, mu_observed_layout = layout\<rparr>"
    assume pu: "publish (Some 256) now_ms q ?d2 False ids b = (fst (publish (Some 256) now_ms q ?d2 False ids b), Inr ?res)"
      and lay: "layout = layout_of ((sy_faults b)\<lparr>sf_silent_device_reset := False\<rparr>) now_ms (apply_silent_reset (sy_faults b) ?d2)"
      and pf: "sy_faults (fst (publish (Some 256) now_ms q ?d2 False ids b)) = (sy_faults b)\<lparr>sf_silent_device_reset := False\<rparr>"
      and find: "\<And>j. sy_find j (fst (publish (Some 256) now_ms q ?d2 False ids b)) =
       (if j = mr_stable_key q
        then Some ((apply_silent_reset (sy_faults b) ?d2)\<lparr>dv_applied_tokens :=
          (let tokens = om_set (mr_idempotency_token q) ?res (dv_applied_tokens (apply_silent_reset (sy_faults b) ?d2))
           in case Some 256 of None \<Rightarrow> tokens | Some n \<Rightarrow> drop (length tokens - n) tokens)\<rparr>)
        else sy_find j b)"
    have b1: "b1 = fst (publish (Some 256) now_ms q ?d2 False ids b)" and res: "result = ?res"
      using assms(1) eq pu by (metis prod.inject sum.inject(2))+
    have "layout = layout_of no_faults now_ms (?d2\<lparr>dv_applied_tokens := ts\<rparr>)" for ts
      by (simp add: lay assms(2) reset layout_of_def layout_natives_def Let_def)
    moreover obtain ts where "sy_find (mr_stable_key q) b1 = Some (?d2\<lparr>dv_applied_tokens := ts\<rparr>)"
      using find [of "mr_stable_key q"] unfolding b1 assms(2) reset by auto
    ultimately show thesis
      using pf place named pr assms(2)
      by (intro that [OF dp pr, of "?d2\<lparr>dv_applied_tokens := ts\<rparr>" ns]) (simp_all add: b1 res)
  qed
qed

lemma create_verified:
  assumes "synthetic_create now_ms q b = (b1, Inr result)" "sy_faults b = no_faults"
    "sy_find (mr_stable_key q) b = Some d" "replayed q d = None" "list_all (names_published d) (mr_desired q)"
    "synthetic_query_layout later (mr_stable_key q) b1 = (b2, Inr layout)"
  shows "bl_device_present layout" "i \<in> set (mu_created_native_ids result) \<Longrightarrow> find_native layout i \<noteq> None"
    "s \<in> set (mr_desired q) \<Longrightarrow> find_native_for_spec layout s \<noteq> None"
proof -
  obtain ps ns d1 where dp: "desired_profiles d (mr_desired q) = Inr ps"
    and d1: "sy_find (mr_stable_key q) b1 = Some d1" "sy_faults b1 = no_faults" "dv_present d1" "dv_partitions d1 = dv_partitions d @ ns"
    and ns: "map sn_resources ns = map sp_resources ps" "map sn_vendor_native ns = map sp_vendor_native ps" "\<forall>n\<in>set ns. sn_live n"
    and res: "mu_created_native_ids result = map sn_native_id ns" "\<forall>n\<in>set ns. sn_native_id n \<noteq> []"
    using create_accepted [OF assms(1-4)] by metis
  have lay: "layout = layout_of no_faults later d1"
    using assms(6) d1(1,2) by (auto simp: synthetic_query_layout_def build_layout_def Let_def apply_silent_reset_def)
  show "bl_device_present layout" using d1(3) by (simp add: lay layout_of_def)
  have sub: "native_of n \<in> set (bl_partitions layout)" if "n \<in> set ns" for n
    using that ns(3) d1 by (auto simp: lay layout_partitions_clean)
  show "find_native layout i \<noteq> None" if i: "i \<in> set (mu_created_native_ids result)"
  proof -
    obtain n where "n \<in> set ns" "sn_native_id n = i" using i res(1) by auto
    then show ?thesis using sub [of n] res(2) by (auto simp: find_native_def find_None_iff native_of_def)
  qed
  show "find_native_for_spec layout s \<noteq> None" if s: "s \<in> set (mr_desired q)"
  proof -
    obtain k where k: "k < length (mr_desired q)" "s = mr_desired q ! k" using s by (auto simp: in_set_conv_nth)
    have len: "length ps = length (mr_desired q)" "length ns = length ps"
      using desired_profiles_published [OF dp] arg_cong [OF ns(1), of length] by simp_all
    have "find_profile_spec d (ns_vendor_native_profile s) = Some (ps ! k)" using desired_profiles_nth [OF dp k(1)] k(2) by simp
    moreover have "names_published d s" using assms(5) that by (simp add: list_all_iff)
    ultimately have "sp_vendor_native (ps ! k) = ns_vendor_native_profile s" "rv_eq (sp_resources (ps ! k)) (ns_resources s)"
      by (simp_all add: names_published_def)
    moreover have "sn_resources (ns ! k) = sp_resources (ps ! k)" "sn_vendor_native (ns ! k) = sp_vendor_native (ps ! k)"
      using arg_cong [OF ns(1), of "\<lambda>xs. xs ! k"] arg_cong [OF ns(2), of "\<lambda>xs. xs ! k"] k len by simp_all
    ultimately have "spec_matches s (native_of (ns ! k))" by (simp add: spec_matches_def native_of_def)
    then show ?thesis using sub [of "ns ! k"] k len by (auto simp: find_native_for_spec_def find_None_iff)
  qed
qed

text \<open>The runtime verifies such a creation and commits it.\<close>

lemma create_verifies:
  assumes "synthetic_create now_ms q b = (b1, Inr result)" "sy_faults b = no_faults"
    "sy_find (mr_stable_key q) b = Some d" "replayed q d = None" "list_all (names_published d) (mr_desired q)"
    "synthetic_query_layout later (mr_stable_key q) b1 = (b2, Inr layout)"
    "at_kind a = AK_CreatePartition" "\<And>p. p \<in> set (at_desired a) \<Longrightarrow> \<exists>s\<in>set (mr_desired q).
        ns_vendor_native_profile s = pn_vendor_native_profile p \<and> ns_resources s = pn_resources p"
  shows "verify_mutation st a r (Inr result) (Some layout) = (True, False)"
proof -
  have acc: "mu_accepted result" "\<not> mu_ambiguous result" using create_accepted [OF assms(1-4)] by metis+
  have "find_native_for_spec layout (spec_of p) \<noteq> None" if p: "p \<in> set (at_desired a)" for p
  proof -
    obtain s where s: "s \<in> set (mr_desired q)" "ns_vendor_native_profile s = pn_vendor_native_profile p" "ns_resources s = pn_resources p"
      using assms(8) [OF p] by blast
    have "spec_matches (spec_of p) = spec_matches s" using s by (auto simp: spec_matches_def spec_of_def)
    then show ?thesis using create_verified(3) [OF assms(1-6) s(1)] by (simp add: find_native_for_spec_def)
  qed
  then show ?thesis
    using acc create_verified(1,2) [OF assms(1-6)] assms(7) by (simp add: verify_mutation_def verify_create_def Let_def)
qed

section \<open>Round trip of the serialised state\<close>

text \<open>
  The exporter writes texts of up to 4096 bytes and the importer reads at most 256, so a state can
  be read back when its texts keep to the smaller bound.
\<close>

definition synthetic_partition_ok :: "synthetic_partition \<Rightarrow> bool" where
  "synthetic_partition_ok p \<longleftrightarrow>
     text_ok 256 (sn_native_id p) \<and> text_ok 256 (sn_instance_uuid p) \<and> text_ok 256 (sn_vendor_native p) \<and>
     rv_ok (sn_resources p) \<and> text_ok 256 (sn_isolation_domain p)"

definition synthetic_device_ok :: "synthetic_device \<Rightarrow> bool" where
  "synthetic_device_ok d \<longleftrightarrow>
     text_ok 256 (sd_key (dv_spec d)) \<and> length (dv_partitions d) \<le> 512 \<and> list_all synthetic_partition_ok (dv_partitions d)"

definition synthetic_backend_ok :: "synthetic_backend \<Rightarrow> bool" where
  "synthetic_backend_ok b \<longleftrightarrow>
     om_sorted (sy_devices b) \<and> length (sy_devices b) \<le> 64 \<and> list_all synthetic_device_ok (om_values (sy_devices b)) \<and>
     list_all (\<lambda>(key, d). sd_key (dv_spec d) = key) (sy_devices b)"

lemma synthetic_partition_trip:
  assumes "synthetic_partition_ok p"
  shows "trip 0 (encode_synthetic_partition p) decode_synthetic_partition p"
  by (rule trip_weaken, unfold encode_synthetic_partition_def decode_synthetic_partition_def)
     ((rule codec_trip trip_text_within | use assms in \<open>simp add: synthetic_partition_ok_def\<close>)+)

lemma trip_elements:
  assumes "\<And>x. x \<in> set xs \<Longrightarrow> trip 0 (enc x) dec x"
  shows "trip 0 (w_seq (map enc xs)) (r_elements (length xs) dec) xs"
proof -
  have "\<forall>x\<in>set xs. \<exists>bs. encodes (enc x) True bs \<and> reads dec x bs" using assms by (meson tripE)
  then obtain f where f: "\<forall>x\<in>set xs. encodes (enc x) True (f x) \<and> reads dec x (f x)" by metis
  then have "encodes (w_seq (map enc xs)) True (concat (map f xs))"
  proof (induction xs)
    case (Cons x xs)
    then have "encodes (w_seq (map enc xs)) True (concat (map f xs))" by simp
    then show ?case using encodes_Cons [of "enc x" True "f x" "map enc xs" True] Cons.prems by (simp del: w_seq.simps)
  qed (use encodes_Nil in simp)
  moreover have "reads (r_elements (length xs) dec) xs (concat (map f xs))"
    using f by (intro reads_elements) (simp add: list_all2_map2 list_all2_same)
  ultimately show ?thesis by (auto intro: tripI)
qed

text \<open>The device record is a header, with the number of partitions, and the partitions.\<close>

lemma synthetic_device_bytes:
  assumes "synthetic_device_ok d"
  obtains hb pb where "encodes (encode_synthetic_device d) True (hb @ pb)"
    "reads decode_device_header
       (sd_key (dv_spec d), dv_boot d, dv_present d, dv_next_partition_index d, word_of_nat (length (dv_partitions d))) hb"
    "reads (r_elements (length (dv_partitions d)) decode_synthetic_partition) (dv_partitions d) pb"
proof -
  let ?hs = "[w_text (sd_key (dv_spec d)) 4096, w_u64 (dv_boot d), w_boolean (dv_present d),
       w_u64 (dv_next_partition_index d), w_u32 (word_of_nat (length (dv_partitions d)))]"
  have "trip 0 (w_seq ?hs) decode_device_header
      (sd_key (dv_spec d), dv_boot d, dv_present d, dv_next_partition_index d, word_of_nat (length (dv_partitions d)))"
    by (rule trip_weaken, unfold decode_device_header_def)
       ((rule codec_trip trip_text_within | use assms in \<open>simp add: synthetic_device_ok_def\<close>)+)
  then obtain hb where h: "encodes (w_seq ?hs) True hb" "reads decode_device_header
      (sd_key (dv_spec d), dv_boot d, dv_present d, dv_next_partition_index d, word_of_nat (length (dv_partitions d))) hb"
    by (rule tripE)
  have "trip 0 (w_seq (map encode_synthetic_partition (dv_partitions d)))
      (r_elements (length (dv_partitions d)) decode_synthetic_partition) (dv_partitions d)"
    using assms by (intro trip_elements synthetic_partition_trip) (simp add: synthetic_device_ok_def list_all_iff)
  then obtain pb where p: "encodes (w_seq (map encode_synthetic_partition (dv_partitions d))) True pb"
      "reads (r_elements (length (dv_partitions d)) decode_synthetic_partition) (dv_partitions d) pb"
    by (rule tripE)
  have "encode_synthetic_device d = (\<lambda>w. w_seq (map encode_synthetic_partition (dv_partitions d)) (w_seq ?hs w))"
    by (simp add: encode_synthetic_device_def w_list_def fun_eq_iff)
  then have "encodes (encode_synthetic_device d) True (hb @ pb)" using encodes_comp [OF h(1) p(1)] by simp
  then show thesis using h(2) p(2) by (rule that)
qed

text \<open>What the importer does to the backend for one exported device.\<close>

definition restored :: "synthetic_device \<Rightarrow> synthetic_backend \<Rightarrow> synthetic_backend" where
  "restored d = upd_device (sd_key (dv_spec d))
     (restore_device (dv_boot d) (dv_present d) (dv_next_partition_index d) (dv_partitions d))"

lemma om_modify_absent: "om_find k m = None \<Longrightarrow> om_modify k f m = m"
  by (induction m) (auto simp: om_find_Cons om_modify_def split: if_splits)

lemma import_one:
  assumes "reads decode_device_header
      (sd_key (dv_spec d), dv_boot d, dv_present d, dv_next_partition_index d, word_of_nat (length (dv_partitions d))) hb"
    "reads (r_elements (length (dv_partitions d)) decode_synthetic_partition) (dv_partitions d) pb"
    "length (dv_partitions d) \<le> 512" "br_ok r" "upcoming (hb @ pb) r"
  shows "import_devices (Suc n) b r = import_devices n (restored d b) (r\<lparr>br_offset := br_offset r + length (hb @ pb)\<rparr>)"
proof -
  have n: "unat (word_of_nat (length (dv_partitions d)) :: u32) = length (dv_partitions d)"
    using assms(3) by (simp add: unat_of_nat take_bit_nat_eq_self)
  have u: "upcoming hb r" "upcoming pb (r\<lparr>br_offset := br_offset r + length hb\<rparr>)"
    using assms(5) by (simp_all add: upcoming_append)
  have h: "run_state decode_device_header r = ((sd_key (dv_spec d), dv_boot d, dv_present d, dv_next_partition_index d,
      word_of_nat (length (dv_partitions d))), r\<lparr>br_offset := br_offset r + length hb\<rparr>)"
    using assms(1,4) u(1) by (simp add: reads_def)
  have p: "run_state (r_elements (length (dv_partitions d)) decode_synthetic_partition) (r\<lparr>br_offset := br_offset r + length hb\<rparr>) =
      (dv_partitions d, r\<lparr>br_offset := br_offset r + length (hb @ pb)\<rparr>)"
    using assms(2,4) u(2) by (simp add: reads_def add.assoc)
  show ?thesis
    using assms(3,4) by (cases "sy_find (sd_key (dv_spec d)) b") (simp_all add: h n p restored_def om_modify_absent del: length_append)
qed

lemma import_all:
  assumes "list_all synthetic_device_ok ds"
  obtains bs where "encodes (w_seq (map encode_synthetic_device ds)) True bs"
    "\<And>b r. br_ok r \<Longrightarrow> upcoming bs r \<Longrightarrow>
       import_devices (length ds) b r = (fold restored ds b, r\<lparr>br_offset := br_offset r + length bs\<rparr>, success)"
  using assms
proof (induction ds arbitrary: thesis)
  case Nil
  show ?case by (rule Nil.prems(1) [of "[]"]) (simp_all add: encodes_Nil del: w_seq.simps)
next
  case (Cons d ds)
  obtain bs where bs: "encodes (w_seq (map encode_synthetic_device ds)) True bs"
    "\<And>b r. br_ok r \<Longrightarrow> upcoming bs r \<Longrightarrow>
       import_devices (length ds) b r = (fold restored ds b, r\<lparr>br_offset := br_offset r + length bs\<rparr>, success)"
    using Cons by auto
  have d: "synthetic_device_ok d" "length (dv_partitions d) \<le> 512"
    using Cons.prems(2) by (simp_all add: synthetic_device_ok_def)
  obtain hb pb where 1: "encodes (encode_synthetic_device d) True (hb @ pb)"
    and 2: "reads decode_device_header
       (sd_key (dv_spec d), dv_boot d, dv_present d, dv_next_partition_index d, word_of_nat (length (dv_partitions d))) hb"
       "reads (r_elements (length (dv_partitions d)) decode_synthetic_partition) (dv_partitions d) pb"
    using synthetic_device_bytes [OF d(1)] .
  show ?case
  proof (rule Cons.prems(1))
    show "encodes (w_seq (map encode_synthetic_device (d # ds))) True ((hb @ pb) @ bs)"
      using encodes_Cons [OF 1 bs(1)] by (simp del: w_seq.simps)
    fix b r assume r: "br_ok r" "upcoming ((hb @ pb) @ bs) r"
    then have "upcoming (hb @ pb) r" "upcoming bs (r\<lparr>br_offset := br_offset r + length (hb @ pb)\<rparr>)"
      by (simp_all only: upcoming_append [of "hb @ pb"])
    then show "import_devices (length (d # ds)) b r =
        (fold restored (d # ds) b, r\<lparr>br_offset := br_offset r + length ((hb @ pb) @ bs)\<rparr>, success)"
      using import_one [OF 2 d(2) r(1)] bs(2) [of "r\<lparr>br_offset := br_offset r + length (hb @ pb)\<rparr>"] r(1)
      by (simp add: add.assoc del: import_devices.simps)
  qed
qed

lemma fold_restored:
  assumes "distinct (map (sd_key \<circ> dv_spec) ds)"
  shows "sy_faults (fold restored ds b) = sy_faults b \<and>
    sy_find key (fold restored ds b) =
      map_option (\<lambda>d'. case find (\<lambda>d. sd_key (dv_spec d) = key) ds of
          None \<Rightarrow> d'
        | Some d \<Rightarrow> restore_device (dv_boot d) (dv_present d) (dv_next_partition_index d) (dv_partitions d) d') (sy_find key b)"
  using assms
proof (induction ds arbitrary: b)
  case (Cons d ds)
  have "find (\<lambda>e. sd_key (dv_spec e) = key) ds = None" if "key = sd_key (dv_spec d)"
    using Cons.prems that unfolding find_None_iff by (auto simp: image_iff)
  then show ?case using Cons by (auto simp: restored_def apf_lookup option.map_comp o_def)
qed (simp add: option.map_ident)

lemma u32_bytes:
  obtains bs where "length bs = 4" "encodes (w_u32 v) True bs" "reads r_u32 v bs"
  by (rule that [of "le_bytes 4 0 v"]) (simp_all add: w_u32_def r_u32_def encodes_le reads_word)

lemma find_exported:
  assumes "synthetic_backend_ok b"
  shows "find (\<lambda>d. sd_key (dv_spec d) = key) (om_values (sy_devices b)) = sy_find key b"
    "distinct (map (sd_key \<circ> dv_spec) (om_values (sy_devices b)))"
proof -
  have k: "sd_key (dv_spec d) = key" if "(key, d) \<in> set (sy_devices b)" for key d
    using assms that by (auto simp: synthetic_backend_ok_def list_all_iff)
  have "map (sd_key \<circ> dv_spec) (om_values m) = om_keys m"
    if "\<And>k d. (k, d) \<in> set m \<Longrightarrow> sd_key (dv_spec d) = k" for m :: "(string, synthetic_device) omap"
    using that by (simp add: om_values_def om_keys_def split_paired_all)
  then have keys: "map (sd_key \<circ> dv_spec) (om_values (sy_devices b)) = om_keys (sy_devices b)" using k by blast
  then show "distinct (map (sd_key \<circ> dv_spec) (om_values (sy_devices b)))"
    using assms by (auto simp: synthetic_backend_ok_def om_sorted_distinct)
  have "find (\<lambda>d. sd_key (dv_spec d) = key) (om_values m) = om_find key m"
    if "\<And>k d. (k, d) \<in> set m \<Longrightarrow> sd_key (dv_spec d) = k" for m :: "(string, synthetic_device) omap"
    using that
  proof (induction m)
    case (Cons e m)
    have "sd_key (dv_spec (snd e)) = fst e" by (rule Cons.prems) simp
    moreover have "find (\<lambda>d. sd_key (dv_spec d) = key) (om_values m) = om_find key m"
      by (rule Cons.IH, rule Cons.prems) simp
    ultimately show ?case by (cases e) (simp add: om_values_def om_find_Cons)
  qed (simp add: om_values_def om_find_def)
  then show "find (\<lambda>d. sd_key (dv_spec d) = key) (om_values (sy_devices b)) = sy_find key b" using k by blast
qed

text \<open>
  Importing an exported state into a backend restores boot identity, presence, counter and
  partitions of every device that both know, and leaves the other devices alone.
\<close>

lemma import_export:
  assumes "export_state b = Inr bytes" "synthetic_backend_ok b"
  obtains c1 where "import_state bytes c = (c1, success)" "sy_faults c1 = sy_faults c"
    "\<And>key. sy_find key c1 = map_option (\<lambda>d'. case sy_find key b of
          None \<Rightarrow> d'
        | Some d \<Rightarrow> restore_device (dv_boot d) (dv_present d) (dv_next_partition_index d) (dv_partitions d) d') (sy_find key c)"
proof -
  let ?ds = "om_values (sy_devices b)" and ?n = "word_of_nat (length (sy_devices b)) :: u32"
  have len: "length ?ds = length (sy_devices b)" by (simp add: om_values_def)
  have n: "unat ?n = length (sy_devices b)" "length (sy_devices b) \<le> 64"
    using assms(2) by (simp_all add: synthetic_backend_ok_def unat_of_nat take_bit_nat_eq_self)
  obtain bs where bs: "encodes (w_seq (map encode_synthetic_device ?ds)) True bs"
    "\<And>b r. br_ok r \<Longrightarrow> upcoming bs r \<Longrightarrow>
       import_devices (length ?ds) b r = (fold restored ?ds b, r\<lparr>br_offset := br_offset r + length bs\<rparr>, success)"
    using import_all [of ?ds] assms(2) by (auto simp: synthetic_backend_ok_def)
  define f where "f = (\<lambda>w. w_seq (map encode_synthetic_device ?ds) (w_seq [w_u32 synthetic_format_version, w_u32 ?n] w))"
  obtain vb where vb: "length vb = 4" "encodes (w_u32 synthetic_format_version) True vb" "reads r_u32 synthetic_format_version vb"
    by (rule u32_bytes)
  obtain nb where nb: "length nb = 4" "encodes (w_u32 ?n) True nb" "reads r_u32 ?n nb" by (rule u32_bytes)
  have enc: "encodes f True ((vb @ nb) @ bs)"
    using encodes_comp [OF encodes_comp [OF vb(2) nb(2)] bs(1)] by (simp add: f_def)
  let ?w = "writer_start (Some (max_frame_bytes default_limits))"
  have "w_seq [w_u32 synthetic_format_version, w_list encode_synthetic_device ?ds] ?w = f ?w"
    by (simp add: f_def w_list_def len)
  then have ok: "bw_ok (f ?w)" and by1: "bytes = synthetic_magic @ bw_buffer (f ?w)"
    using assms(1) by (auto simp: export_state_def Let_def bw_ok_def split: option.splits)
  have "bw_wf ?w" "bw_ok ?w" "bw_buffer ?w = []" by (simp_all add: bw_wf_def bw_ok_def writer_start_def)
  with enc ok have "bw_buffer (f ?w) = (vb @ nb) @ bs" unfolding encodes_def by (metis append_Nil byte_writer.select_convs(2) byte_writer.surjective byte_writer.update_convs(2))
  then have by2: "bytes = synthetic_magic @ vb @ nb @ bs" using by1 by simp
  have r: "run_state r_u32 (reader_start (vb @ nb @ bs)) = (synthetic_format_version, (reader_start (vb @ nb @ bs))\<lparr>br_offset := 4\<rparr>)"
    "run_state r_u32 ((reader_start (vb @ nb @ bs))\<lparr>br_offset := 4\<rparr>) = (?n, (reader_start (vb @ nb @ bs))\<lparr>br_offset := 8\<rparr>)"
    using vb(1,3) nb(1,3) by (simp_all add: reads_def upcoming_def br_ok_def reader_start_def)
  have i: "import_devices (length ?ds) c ((reader_start (vb @ nb @ bs))\<lparr>br_offset := 8\<rparr>) =
      (fold restored ?ds c, (reader_start (vb @ nb @ bs))\<lparr>br_offset := 8 + length bs\<rparr>, success)"
    using bs(2) vb(1) nb(1) by (simp add: upcoming_def br_ok_def reader_start_def)
  have m: "length synthetic_magic = 8" by (simp add: synthetic_magic_def)
  have "import_state bytes c = (fold restored ?ds c, success)"
    using vb(1) nb(1) i n by (simp add: import_state_def by2 m r len reader_finish_def) (simp add: reader_start_def)
  then show thesis
    by (rule that) (use fold_restored [OF find_exported(2) [OF assms(2)]] find_exported(1) [OF assms(2)] in simp_all)
qed

section \<open>Sequences of backend calls\<close>

text \<open>
  The calls of the backend interface and the switches of the test harness, in any order. External
  creations and changed profile lists are left out: they model interference that the capacity
  check of the backend does not see.
\<close>

datatype synthetic_call =
    Call_create u64 mutation_request
  | Call_destroy u64 mutation_request
  | Call_reconfigure u64 mutation_request
  | Call_query u64 string
  | Call_faults synthetic_faults
  | Call_reset string
  | Call_present string bool
  | Call_external_destroy string string

fun synthetic_step :: "synthetic_call \<Rightarrow> synthetic_backend \<Rightarrow> synthetic_backend" where
  "synthetic_step (Call_create now_ms q) b = fst (synthetic_create now_ms q b)"
| "synthetic_step (Call_destroy now_ms q) b = fst (synthetic_destroy now_ms q b)"
| "synthetic_step (Call_reconfigure now_ms q) b = fst (synthetic_reconfigure now_ms q b)"
| "synthetic_step (Call_query now_ms key) b = fst (synthetic_query_layout now_ms key b)"
| "synthetic_step (Call_faults f) b = set_faults f b"
| "synthetic_step (Call_reset key) b = fst (reset_synthetic key b)"
| "synthetic_step (Call_present key present) b = fst (set_device_present key present b)"
| "synthetic_step (Call_external_destroy key native_id) b = fst (external_destroy key native_id b)"

lemma on_device_fits:
  "backend_fits m b \<Longrightarrow> (\<And>d n. device_fits n d \<Longrightarrow> device_fits n (f d)) \<Longrightarrow> backend_fits m (fst (on_device key f b))"
  by (auto simp: on_device_def backend_fits_def apf_lookup split: option.split)

lemma external_destroy_fits:
  assumes "backend_fits m b"
  shows "backend_fits m (fst (external_destroy key native_id b))"
proof -
  have "device_fits n (d\<lparr>dv_partitions := filter P (dv_partitions d)\<rparr>)" if "device_fits n d" for n d P
  proof -
    have "device_fits n (d\<lparr>dv_partitions := filter P (dv_partitions d), dv_mutation_count := 0\<rparr>)"
      using that by (intro device_fits_cleared) (auto simp: held_total_filter)
    then show ?thesis by (simp add: device_fits_def)
  qed
  then show ?thesis using assms by (auto simp: external_destroy_def backend_fits_def apf_lookup split: option.split)
qed

lemma synthetic_step_fits:
  assumes "backend_fits m b"
  shows "backend_fits m (synthetic_step c b)"
proof (cases c)
  case (Call_reset key)
  have "device_fits n (d\<lparr>dv_boot := x, dv_partitions := [], dv_applied_tokens := []\<rparr>)" if "device_fits n d" for n d x
    using that by (simp add: device_fits_def)
  then show ?thesis using on_device_fits [OF assms] by (simp add: Call_reset reset_synthetic_def)
next
  case (Call_present key present)
  have "device_fits n (d\<lparr>dv_present := present\<rparr>)" if "device_fits n d" for n d using that by (simp add: device_fits_def)
  then show ?thesis using on_device_fits [OF assms] by (simp add: Call_present set_device_present_def)
qed (use assms in \<open>simp_all add: create_fits destroy_fits reconfigure_fits query_fits external_destroy_fits,
     simp add: backend_fits_def set_faults_def\<close>)

lemma synthetic_run_fits: "backend_fits m b \<Longrightarrow> backend_fits m (fold synthetic_step calls b)"
  by (induction calls arbitrary: b) (simp_all add: synthetic_step_fits)

lemma synthetic_run_device:
  assumes "backend_fits m b" "sy_find key (fold synthetic_step calls b) = Some d"
  shows "length (dv_partitions d) \<le> unat (sd_max_partition_count (dv_spec d))"
    "i < 8 \<Longrightarrow> held_total (dv_partitions d) i \<le> rv_val (sd_physical_totals (dv_spec d)) i"
    "i < 8 \<Longrightarrow> rv_val (used_capacity d) i = held_total (dv_partitions d) i"
proof -
  have d: "device_fits (m key) d" using synthetic_run_fits [OF assms(1), of calls] assms(2) by (simp add: backend_fits_def)
  then show "length (dv_partitions d) \<le> unat (sd_max_partition_count (dv_spec d))"
    "i < 8 \<Longrightarrow> held_total (dv_partitions d) i \<le> rv_val (sd_physical_totals (dv_spec d)) i" by (simp_all add: device_fits_def)
  show "i < 8 \<Longrightarrow> rv_val (used_capacity d) i = held_total (dv_partitions d) i" using used_capacity_exact [OF d] by simp
qed

end
