(* ===== verification/APF_Counters.thy ===== *)
theory APF_Counters
  imports APF_Accounting
begin

text \<open>
  The capacity ledger as an implementation of plain counters. The abstract ledger is a natural
  number per bucket and dimension, without masks, machine words or overflow; a move subtracts on
  one side and adds on the other when the source has enough. The vectors of the code, with their
  presence masks and checked 64-bit arithmetic, refine it along every sequence of moves.
\<close>

type_synonym counters = "capacity_bucket \<Rightarrow> nat \<Rightarrow> nat"

definition amounts_of :: "resource_vector \<Rightarrow> nat \<Rightarrow> nat" where
  "amounts_of v i = (if i < 8 then rv_val v i else 0)"

definition counters_of :: "capacity_ledger \<Rightarrow> counters" where
  "counters_of l b = amounts_of (ledger_bucket l b)"

definition move_counters :: "capacity_bucket \<Rightarrow> capacity_bucket \<Rightarrow> (nat \<Rightarrow> nat) \<Rightarrow> counters \<Rightarrow> counters option" where
  "move_counters source dest amount c =
     (if source = dest then Some c
      else if \<forall>i<8. amount i \<le> c source i
      then Some (c(source := \<lambda>i. c source i - amount i, dest := \<lambda>i. c dest i + amount i))
      else None)"

text \<open>A sequence of requested moves, with the answers; a refused move changes nothing.\<close>

type_synonym capacity_moves = "(capacity_bucket \<times> capacity_bucket \<times> resource_vector) list"

fun run_ledger :: "capacity_moves \<Rightarrow> capacity_ledger \<Rightarrow> capacity_ledger \<times> status list" where
  "run_ledger [] l = (l, [])"
| "run_ledger ((source, dest, amount) # ms) l =
     (let (l1, st) = move_between source dest amount l; (l2, sts) = run_ledger ms l1 in (l2, st # sts))"

fun run_counters :: "capacity_moves \<Rightarrow> counters \<Rightarrow> counters \<times> status list" where
  "run_counters [] c = (c, [])"
| "run_counters ((source, dest, amount) # ms) c =
     (case move_counters source dest (amounts_of amount) c of
        None \<Rightarrow> (let (c2, sts) = run_counters ms c in (c2, failure E_InsufficientCapacity # sts))
      | Some c1 \<Rightarrow> (let (c2, sts) = run_counters ms c1 in (c2, success # sts)))"

text \<open>A request between real buckets over dimensions the device has.\<close>

definition request_fits :: "resource_vector \<Rightarrow> capacity_bucket \<times> capacity_bucket \<times> resource_vector \<Rightarrow> bool" where
  "request_fits totals m \<longleftrightarrow>
     (case m of (source, dest, amount) \<Rightarrow>
        source \<noteq> Bucket_Count \<and> dest \<noteq> Bucket_Count \<and> rv_mask_ok amount \<and> dims_within amount totals)"

lemma subset_iff_enough:
  assumes "ledger_balanced l" "b \<noteq> Bucket_Count" "dims_within amount (cl_total l)"
  shows "is_subset_of amount (cl_buckets l ! bucket_index b) \<longleftrightarrow> (\<forall>i<8. amounts_of amount i \<le> counters_of l b i)"
proof -
  have b: "bucket_index b < 6" using assms(2) by (simp add: bucket_index_less)
  then have "rv_mask (cl_buckets l ! bucket_index b) = rv_mask (cl_total l)"
    using assms(1) ledger_wf_bucket by (simp add: ledger_balanced_def)
  then show ?thesis
    using assms(3) b by (auto simp: is_subset_of_iff dims_within_def counters_of_def amounts_of_def ledger_bucket_def rv_val_def)
qed

lemma ledger_move_counters:
  assumes "ledger_balanced l" "request_fits (cl_total l) (source, dest, amount)"
  shows "case move_counters source dest (amounts_of amount) (counters_of l) of
      None \<Rightarrow> move_between source dest amount l = (l, failure E_InsufficientCapacity)
    | Some c \<Rightarrow> \<exists>l'. move_between source dest amount l = (l', success) \<and> counters_of l' = c"
proof -
  have r: "bucket_index source < 6" "bucket_index dest < 6" "source \<noteq> Bucket_Count" "dest \<noteq> Bucket_Count"
    "rv_mask_ok amount" "dims_within amount (cl_total l)"
    using assms(2) by (simp_all add: request_fits_def bucket_index_less)
  have m: "move_between source dest amount l = (if source = dest then (l, success) else ledger_move source dest amount l)"
    using r(1,2) by (simp add: move_between_def bucket_index_inj)
  note enough = subset_iff_enough [OF assms(1) r(3,6)]
  consider (same) "source = dest" | (short) "source \<noteq> dest" "\<not> (\<forall>i<8. amounts_of amount i \<le> counters_of l source i)"
    | (moves) "source \<noteq> dest" "\<forall>i<8. amounts_of amount i \<le> counters_of l source i"
    by blast
  then show ?thesis
  proof cases
    case same
    then show ?thesis using m by (simp add: move_counters_def)
  next
    case short
    then have "\<not> is_subset_of amount (cl_buckets l ! bucket_index source)" using enough by simp
    then have "ledger_move source dest amount l = (l, failure E_InsufficientCapacity)" by (rule ledger_move_short)
    then show ?thesis using short m by (simp only: move_counters_def if_False option.case)
  next
    case moves
    then have "is_subset_of amount (cl_buckets l ! bucket_index source)" using enough by simp
    from ledger_move_ok [OF assms(1) r(1,2) moves(1) this r(5)] obtain l' where
      l': "ledger_move source dest amount l = (l', success)"
      "\<forall>i<8. \<forall>c<6. rv_val (cl_buckets l' ! c) i =
         (if c = bucket_index source then rv_val (cl_buckets l ! c) i - rv_val amount i
          else if c = bucket_index dest then rv_val (cl_buckets l ! c) i + rv_val amount i
          else rv_val (cl_buckets l ! c) i)"
      by blast
    have "counters_of l' b i = ((counters_of l)(source := \<lambda>i. counters_of l source i - amounts_of amount i,
        dest := \<lambda>i. counters_of l dest i + amounts_of amount i)) b i" for b i
      using l'(2) moves(1) r bucket_index_less [of b]
      by (cases "b = Bucket_Count") (auto simp: counters_of_def amounts_of_def ledger_bucket_def bucket_index_inj)
    then show ?thesis using moves m l'(1) by (simp add: move_counters_def fun_eq_iff)
  qed
qed

lemma run_ledger_refines:
  assumes "ledger_balanced l" "list_all (request_fits (cl_total l)) ms"
  shows "run_counters ms (counters_of l) = (counters_of (fst (run_ledger ms l)), snd (run_ledger ms l)) \<and>
    ledger_balanced (fst (run_ledger ms l))"
  using assms
proof (induction ms arbitrary: l)
  case (Cons m ms)
  obtain source dest amount where m: "m = (source, dest, amount)" by (cases m)
  obtain l1 st where l1: "move_between source dest amount l = (l1, st)" by fastforce
  have "cl_total l1 = cl_total l" "ledger_balanced l1"
    using move_between_total [of source dest amount l] move_between_balanced [OF Cons.prems(1), of source dest amount] l1 by simp_all
  with Cons.IH [of l1] Cons.prems(2) ledger_move_counters [OF Cons.prems(1), of source dest amount] show ?case
    by (auto simp: m l1 Let_def split: option.splits prod.splits)
qed simp

end
