(* ===== verification/APF_Durable.thy ===== *)
theory APF_Durable
  imports APF_Reconcile
begin

text \<open>
  Durable state: what a runtime exports, the container it is stored in, and what a new process
  does with it. Holds \<^verbatim>\<open>DurableState\<close>, the validation and the container format of
  \<^verbatim>\<open>persistence.cpp\<close>, \<^verbatim>\<open>export_durable_state\<close>, \<^verbatim>\<open>import_durable_state\<close> and \<^verbatim>\<open>load\<close> of
  \<^verbatim>\<open>fabric.cpp\<close>. The contents of the file are an argument.
\<close>

section \<open>The state\<close>

text \<open>
  Four kinds of records carry diagnostic text that the container stores and the runtime does not
  read. The record is polymorphic in them: \<open>durable_state\<close> is the view of the runtime,
  \<open>durable_file\<close> the contents of the container.
\<close>

record ('p, 'r, 'a, 'w) durable =
  du_format_version :: u32
  du_instance_id :: string
  du_state_generation :: generation
  du_coordinator_epoch :: generation
  du_policy_generation :: generation
  du_next_identity :: u64
  du_saved_at_ms :: u64
  du_policy :: planning_policy
  du_profiles :: "partition_profile list"
  du_accelerators :: "accelerator_record list"
  du_accelerator_keys :: "(accelerator_id \<times> string) list"
  du_ledgers :: "(accelerator_id \<times> capacity_ledger) list"
  du_partitions :: "'p list"
  du_reservations :: "'r list"
  du_attempts :: "'a list"
  du_assignments :: "partition_assignment list"
  du_workers :: "'w list"

type_synonym durable_state =
  "(partition_record, partition_reservation, partition_attempt, worker_record) durable"

type_synonym durable_file =
  "(partition_record \<times> (string \<times> string) \<times> string, partition_reservation \<times> string,
    partition_attempt \<times> string \<times> string, worker_record \<times> string) durable"

abbreviation persistence_format_version :: u32 where
  "persistence_format_version \<equiv> 1"

definition without_text :: "durable_file \<Rightarrow> durable_state" where
  "without_text d =
     \<lparr>du_format_version = du_format_version d, du_instance_id = du_instance_id d,
      du_state_generation = du_state_generation d, du_coordinator_epoch = du_coordinator_epoch d,
      du_policy_generation = du_policy_generation d, du_next_identity = du_next_identity d,
      du_saved_at_ms = du_saved_at_ms d, du_policy = du_policy d, du_profiles = du_profiles d,
      du_accelerators = du_accelerators d, du_accelerator_keys = du_accelerator_keys d, du_ledgers = du_ledgers d,
      du_partitions = map fst (du_partitions d), du_reservations = map fst (du_reservations d),
      du_attempts = map fst (du_attempts d), du_assignments = du_assignments d,
      du_workers = map fst (du_workers d)\<rparr>"

section \<open>Structural validation of a container\<close>

text \<open>The loops insert each identity into a set and stop at the first error.\<close>

definition corrupt :: "status \<Rightarrow> status" where
  "corrupt st = (case st of Inl _ \<Rightarrow> failure E_PersistenceCorruption | Inr _ \<Rightarrow> success)"

fun check_each :: "('v \<Rightarrow> u64) \<Rightarrow> ('v \<Rightarrow> status) \<Rightarrow> u64 list \<Rightarrow> 'v list \<Rightarrow> u64 list result" where
  "check_each key check seen [] = Inr seen"
| "check_each key check seen (v # vs) =
     (case corrupt (check v) of
        Inl e \<Rightarrow> Inl e
      | Inr _ \<Rightarrow> if key v \<in> set seen then failure E_PersistenceCorruption
                 else check_each key check (key v # seen) vs)"

definition ledger_entry_check :: "u64 list \<Rightarrow> accelerator_id \<times> capacity_ledger \<Rightarrow> status" where
  "ledger_entry_check accelerators e =
     (if fst e \<notin> set accelerators then failure E_PersistenceCorruption else ledger_validate (snd e))"

text \<open>
  The partition loop validates, looks for a duplicate and then for the device, its ledger and an
  agreeing total, each with the same error; the checks are independent of the identities seen.
\<close>

definition partition_entry_check :: "durable_state \<Rightarrow> u64 list \<Rightarrow> partition_record \<Rightarrow> status" where
  "partition_entry_check d accelerators r =
     (case partition_validate r of
        Inl e \<Rightarrow> Inl e
      | Inr _ \<Rightarrow>
          if pr_accelerator r \<notin> set accelerators then failure E_PersistenceCorruption
          else case find (\<lambda>e. fst e = pr_accelerator r) (du_ledgers d) of
                 None \<Rightarrow> failure E_PersistenceCorruption
               | Some e \<Rightarrow>
                   (case find (\<lambda>a. ac_id a = pr_accelerator r) (du_accelerators d) of
                      None \<Rightarrow> success
                    | Some a \<Rightarrow> if rv_eq (cl_total (snd e)) (ac_physical_totals a) then success
                                else failure E_PersistenceCorruption))"

definition assignment_entry_check :: "u64 list \<Rightarrow> partition_assignment \<Rightarrow> status" where
  "assignment_entry_check partitions a =
     (case assignment_validate a of
        Inl e \<Rightarrow> Inl e
      | Inr _ \<Rightarrow> if as_partition a \<notin> set partitions then failure E_PersistenceCorruption else success)"

definition worker_entry_check :: "worker_record \<Rightarrow> status" where
  "worker_entry_check w =
     (if \<not> id_valid (wk_id w) \<or> \<not> boot_valid (wk_boot w) then failure E_PersistenceCorruption else success)"

definition validate_decoded :: "durable_state \<Rightarrow> limits \<Rightarrow> status" where
  "validate_decoded d l =
     (if du_format_version d \<noteq> persistence_format_version then failure E_PersistenceCorruption
      else if length (du_profiles d) > max_persisted_records l \<or> length (du_accelerators d) > max_accelerators l \<or>
              length (du_partitions d) > max_partitions l \<or> length (du_reservations d) > max_reservations l \<or>
              length (du_attempts d) > max_attempt_history l \<or> length (du_assignments d) > max_assignments l \<or>
              length (du_workers d) > max_workers l
      then failure E_LimitExceeded
      else
        (case check_each pf_id (\<lambda>p. profile_validate p l) [] (du_profiles d) of
           Inl e \<Rightarrow> Inl e
         | Inr _ \<Rightarrow>
        (case check_each ac_id (\<lambda>a. accelerator_validate a l) [] (du_accelerators d) of
           Inl e \<Rightarrow> Inl e
         | Inr accelerators \<Rightarrow>
        (case check_each fst (ledger_entry_check accelerators) [] (du_ledgers d) of
           Inl e \<Rightarrow> Inl e
         | Inr ledgers \<Rightarrow>
             if \<exists>a\<in>set (du_accelerators d). ac_id a \<notin> set ledgers then failure E_PersistenceCorruption
             else
        (case check_each pr_id (partition_entry_check d accelerators) [] (du_partitions d) of
           Inl e \<Rightarrow> Inl e
         | Inr partitions \<Rightarrow>
        (case check_each rs_id reservation_validate [] (du_reservations d) of
           Inl e \<Rightarrow> Inl e
         | Inr _ \<Rightarrow>
        (case check_each at_id attempt_validate [] (du_attempts d) of
           Inl e \<Rightarrow> Inl e
         | Inr _ \<Rightarrow>
        (case check_each as_id (assignment_entry_check partitions) [] (du_assignments d) of
           Inl e \<Rightarrow> Inl e
         | Inr _ \<Rightarrow>
        (case check_each wk_id worker_entry_check [] (du_workers d) of
           Inl e \<Rightarrow> Inl e
         | Inr _ \<Rightarrow>
             (case policy_validate (du_policy d) of
                Inl _ \<Rightarrow> failure E_PersistenceCorruption
              | Inr _ \<Rightarrow> if du_next_identity d = 0 then failure E_PersistenceCorruption else success))))))))))"

section \<open>The container\<close>

text \<open>
  \<^verbatim>\<open>integrity_hash\<close> is FNV-1a over the bytes. \<open>write_le\<close> overwrites \<open>n\<close> bytes of a buffer at an
  offset with the little-endian bytes of a value, \<open>read_le\<close> is the inverse.
\<close>

definition integrity_hash :: "u8 list \<Rightarrow> u64" where
  "integrity_hash bs = mix_bytes bs 1469598103934665603"

fun write_le :: "nat \<Rightarrow> nat \<Rightarrow> nat \<Rightarrow> 'a::len word \<Rightarrow> u8 list \<Rightarrow> u8 list" where
  "write_le 0 shift offset v buffer = buffer"
| "write_le (Suc n) shift offset v buffer =
     write_le n (shift + 8) (offset + 1) v (buffer[offset := ucast (drop_bit shift v AND 0xFF)])"

fun read_le :: "nat \<Rightarrow> nat \<Rightarrow> nat \<Rightarrow> u8 list \<Rightarrow> 'a::len word \<Rightarrow> 'a word" where
  "read_le 0 shift offset bs v = v"
| "read_le (Suc n) shift offset bs v = read_le n (shift + 8) (offset + 1) bs (v OR push_bit shift (ucast (bs ! offset)))"

abbreviation write_u32 :: "nat \<Rightarrow> u32 \<Rightarrow> u8 list \<Rightarrow> u8 list" where "write_u32 \<equiv> write_le 4 0"
abbreviation write_u64 :: "nat \<Rightarrow> u64 \<Rightarrow> u8 list \<Rightarrow> u8 list" where "write_u64 \<equiv> write_le 8 0"
abbreviation read_u32 :: "u8 list \<Rightarrow> nat \<Rightarrow> u32" where "read_u32 bs offset \<equiv> read_le 4 0 offset bs 0"
abbreviation read_u64 :: "u8 list \<Rightarrow> nat \<Rightarrow> u64" where "read_u64 bs offset \<equiv> read_le 8 0 offset bs 0"

definition durable_magic :: "u8 list" where
  "durable_magic = [65, 80, 70, 83, 84, 65, 84, 69]"

abbreviation endian_marker :: u32 where "endian_marker \<equiv> 0x01020304"
abbreviation header_size :: nat where "header_size \<equiv> 40"
abbreviation max_payload_bytes :: nat where "max_payload_bytes \<equiv> 67108864"

definition encode_key :: "accelerator_id \<times> string \<Rightarrow> nat \<Rightarrow> byte_writer \<Rightarrow> byte_writer" where
  "encode_key e max_len = w_seq [w_u64 (fst e), w_text (snd e) max_len]"

definition decode_key :: "(accelerator_id \<times> string) decoder" where
  "decode_key = do { i \<leftarrow> r_u64; key \<leftarrow> r_text 256; State_Monad.return (i, key) }"

definition encode_ledger_entry :: "accelerator_id \<times> capacity_ledger \<Rightarrow> byte_writer \<Rightarrow> byte_writer" where
  "encode_ledger_entry e = w_seq [w_u64 (fst e), encode_ledger (snd e)]"

definition decode_ledger_entry :: "(accelerator_id \<times> capacity_ledger) decoder" where
  "decode_ledger_entry = do { i \<leftarrow> r_u64; l \<leftarrow> decode_ledger; State_Monad.return (i, l) }"

definition encode_durable :: "durable_file \<Rightarrow> limits \<Rightarrow> byte_writer \<Rightarrow> byte_writer" where
  "encode_durable d l =
     w_seq [w_u32 (du_format_version d), w_u64 (du_state_generation d), w_u64 (du_coordinator_epoch d),
       w_u64 (du_policy_generation d), w_u64 (du_next_identity d), w_u64 (du_saved_at_ms d),
       w_text (du_instance_id d) (max_metadata_bytes l), encode_policy (du_policy d),
       w_list encode_profile (du_profiles d), w_list encode_accelerator (du_accelerators d),
       w_list (\<lambda>e. encode_key e (max_metadata_bytes l)) (du_accelerator_keys d),
       w_list encode_ledger_entry (du_ledgers d), w_list encode_partition (du_partitions d),
       w_list encode_reservation (du_reservations d), w_list encode_attempt (du_attempts d),
       w_list encode_assignment (du_assignments d), w_list encode_worker (du_workers d)]"

definition decode_durable :: "limits \<Rightarrow> durable_file decoder" where
  "decode_durable l = do {
     x1 \<leftarrow> r_u32; x2 \<leftarrow> r_u64; x3 \<leftarrow> r_u64; x4 \<leftarrow> r_u64; x5 \<leftarrow> r_u64; x6 \<leftarrow> r_u64;
     x7 \<leftarrow> r_text (max_name_bytes l); x8 \<leftarrow> decode_policy;
     x9 \<leftarrow> r_list (max_persisted_records l) 8 decode_profile;
     x10 \<leftarrow> r_list (max_persisted_records l) 8 decode_accelerator;
     x11 \<leftarrow> r_list (max_persisted_records l) 8 decode_key;
     x12 \<leftarrow> r_list (max_persisted_records l) 8 decode_ledger_entry;
     x13 \<leftarrow> r_list (max_persisted_records l) 8 decode_partition;
     x14 \<leftarrow> r_list (max_persisted_records l) 8 decode_reservation;
     x15 \<leftarrow> r_list (max_persisted_records l) 8 decode_attempt;
     x16 \<leftarrow> r_list (max_persisted_records l) 8 decode_assignment;
     x17 \<leftarrow> r_list (max_persisted_records l) 8 decode_worker;
     State_Monad.return
       \<lparr>du_format_version = x1, du_instance_id = x7, du_state_generation = x2, du_coordinator_epoch = x3,
        du_policy_generation = x4, du_next_identity = x5, du_saved_at_ms = x6, du_policy = x8, du_profiles = x9,
        du_accelerators = x10, du_accelerator_keys = x11, du_ledgers = x12, du_partitions = x13,
        du_reservations = x14, du_attempts = x15, du_assignments = x16, du_workers = x17\<rparr> }"

definition seal :: "u32 \<Rightarrow> u8 list \<Rightarrow> u8 list" where
  "seal version payload =
     (let out = durable_magic @ replicate 32 0;
          out = write_u32 8 version out;
          out = write_u32 12 endian_marker out;
          out = write_u64 16 (word_of_nat (length payload)) out;
          out = write_u64 24 (integrity_hash payload) out;
          out = write_u64 32 (integrity_hash (take 32 out)) out
      in out @ payload)"

definition store_encode :: "durable_file \<Rightarrow> limits \<Rightarrow> u8 list result" where
  "store_encode d l =
     (case validate_decoded (without_text d) l of
        Inl e \<Rightarrow> Inl e
      | Inr _ \<Rightarrow>
          (let w = encode_durable d l (writer_start (Some (max_frame_bytes l)))
           in case bw_error w of
                Some e \<Rightarrow> Inl e
              | None \<Rightarrow> if length (bw_buffer w) > max_payload_bytes then failure E_LimitExceeded
                        else Inr (seal (du_format_version d) (bw_buffer w))))"

definition unseal :: "u8 list \<Rightarrow> u8 list result" where
  "unseal bytes =
     (if length bytes < header_size then failure E_PersistenceCorruption
      else if take 8 bytes \<noteq> durable_magic then failure E_PersistenceCorruption
      else if read_u32 bytes 8 \<noteq> persistence_format_version then failure E_PersistenceCorruption
      else if read_u32 bytes 12 \<noteq> endian_marker then failure E_PersistenceCorruption
      else
        (let payload_length = unat (read_u64 bytes 16) in
         if payload_length > max_payload_bytes \<or> payload_length > length bytes - header_size
         then failure E_PersistenceCorruption
         else if length bytes \<noteq> header_size + payload_length then failure E_PersistenceCorruption
         else if read_u64 bytes 32 \<noteq> integrity_hash (take 32 bytes) then failure E_PersistenceCorruption
         else if read_u64 bytes 24 \<noteq> integrity_hash (take payload_length (drop header_size bytes))
         then failure E_PersistenceCorruption
         else Inr (take payload_length (drop header_size bytes))))"

definition store_decode :: "u8 list \<Rightarrow> limits \<Rightarrow> durable_file result" where
  "store_decode bytes l =
     (case unseal bytes of
        Inl e \<Rightarrow> Inl e
      | Inr payload \<Rightarrow>
          (case run_state (decode_durable l) (reader_start payload) of (d, r) \<Rightarrow>
             (case reader_finish r of
                Inl _ \<Rightarrow> failure E_PersistenceCorruption
              | Inr _ \<Rightarrow>
                  (case validate_decoded (without_text d) l of
                     Inl _ \<Rightarrow> failure E_PersistenceCorruption
                   | Inr _ \<Rightarrow> Inr d))))"

section \<open>The container is exact\<close>

lemma write_le_bytes:
  "offset + n \<le> length buffer \<Longrightarrow>
     write_le n shift offset v buffer = take offset buffer @ le_bytes n shift v @ drop (offset + n) buffer"
proof (induction n arbitrary: shift offset buffer)
  case (Suc n)
  then show ?case by (simp add: le_bytes_Suc take_Suc_conv_app_nth)
qed simp

text \<open>\<open>read_le\<close> is the loop of the byte reader, so its laws carry over.\<close>

lemma read_le_run:
  "offset + n \<le> length bs \<Longrightarrow>
     run_state (r_le n shift v) \<lparr>br_data = bs, br_offset = offset, br_error = None\<rparr> =
       (read_le n shift offset bs v, \<lparr>br_data = bs, br_offset = offset + n, br_error = None\<rparr>)"
  by (induction n arbitrary: shift offset v) (simp_all add: r_u8_def br_ok_def)

lemma read_le_exact:
  fixes v :: "'a::len word"
  assumes "8 * n = LENGTH('a)" "offset + n \<le> length bs"
  shows "read_le n 0 offset bs 0 = v \<longleftrightarrow> take n (drop offset bs) = le_bytes n 0 v"
proof
  let ?r = "\<lparr>br_data = bs, br_offset = offset, br_error = None\<rparr>"
  note run = read_le_run [OF assms(2), of 0 "0 :: 'a word"]
  have "take n (drop offset bs) = le_bytes n 0 (read_le n 0 offset bs 0 :: 'a word)"
    using accepts_word [OF assms(1)] run assms(2) by (fastforce simp: accepts_only_def consumed_def br_ok_def)
  then show "take n (drop offset bs) = le_bytes n 0 v" if "read_le n 0 offset bs 0 = v" using that by simp
  show "read_le n 0 offset bs 0 = v" if "take n (drop offset bs) = le_bytes n 0 v"
    using reads_word [OF assms(1), of v] run that assms(2) by (simp add: reads_def br_ok_def upcoming_def)
qed

lemma le_bytes_inj:
  fixes v w :: "'a::len word"
  assumes "8 * n = LENGTH('a)"
  shows "le_bytes n 0 v = le_bytes n 0 w \<longleftrightarrow> v = w"
  using read_le_exact [OF assms, of 0 "le_bytes n 0 v" v] read_le_exact [OF assms, of 0 "le_bytes n 0 v" w] by auto

definition sealed_header :: "u32 \<Rightarrow> u8 list \<Rightarrow> u8 list" where
  "sealed_header version payload =
     durable_magic @ le_bytes 4 0 version @ le_bytes 4 0 endian_marker @
     le_bytes 8 0 (word_of_nat (length payload) :: u64) @ le_bytes 8 0 (integrity_hash payload)"

lemma length_durable_magic [simp]: "length durable_magic = 8"
  by (simp add: durable_magic_def)

lemma length_sealed_header [simp]: "length (sealed_header version payload) = 32"
  by (simp add: sealed_header_def)

lemma seal_bytes:
  "seal version payload =
     sealed_header version payload @ le_bytes 8 0 (integrity_hash (sealed_header version payload)) @ payload"
proof -
  have 1: "write_u64 24 (integrity_hash payload) (write_u64 16 (word_of_nat (length payload))
      (write_u32 12 endian_marker (write_u32 8 version (durable_magic @ replicate 32 0)))) =
    sealed_header version payload @ replicate 8 0"
    by (simp add: write_le_bytes sealed_header_def del: write_le.simps)
  show ?thesis by (simp add: seal_def 1 Let_def) (simp add: write_le_bytes)
qed

text \<open>The reader of the container accepts exactly what the writer produces.\<close>

lemma unseal_iff: "unseal bytes = Inr payload \<longleftrightarrow> length payload \<le> max_payload_bytes \<and> bytes = seal persistence_format_version payload"
proof
  let ?v = persistence_format_version
  assume u: "unseal bytes = Inr payload"
  define n where "n = unat (read_u64 bytes 16)"
  have h: "header_size \<le> length bytes" "take 8 bytes = durable_magic" "read_u32 bytes 8 = ?v" "read_u32 bytes 12 = endian_marker"
    "n \<le> max_payload_bytes" "length bytes = header_size + n" "read_u64 bytes 32 = integrity_hash (take 32 bytes)"
    "payload = drop header_size bytes" "read_u64 bytes 24 = integrity_hash payload"
    using u by (auto simp: unseal_def Let_def n_def [symmetric] simp del: read_le.simps split: if_splits)
  have len: "length payload = n" using h(6,8) by simp
  have n: "read_u64 bytes 16 = word_of_nat (length payload)" by (simp add: len n_def)
  note exact = read_le_exact [THEN iffD1, rotated 2]
  have "take 4 (drop 8 bytes) = le_bytes 4 0 ?v" "take 4 (drop 12 bytes) = le_bytes 4 0 endian_marker"
    "take 8 (drop 16 bytes) = le_bytes 8 0 (word_of_nat (length payload) :: u64)"
    "take 8 (drop 24 bytes) = le_bytes 8 0 (integrity_hash payload)"
    "take 8 (drop 32 bytes) = le_bytes 8 0 (integrity_hash (take 32 bytes))"
    using h(1) by (auto intro!: exact h(3,4,7,9) n)
  moreover have "take 32 bytes = take 8 bytes @ take 4 (drop 8 bytes) @ take 4 (drop 12 bytes) @ take 8 (drop 16 bytes) @ take 8 (drop 24 bytes)"
    using take_add [of 8 24 bytes] take_add [of 4 20 "drop 8 bytes"] take_add [of 4 16 "drop 12 bytes"] take_add [of 8 8 "drop 16 bytes"]
    by simp
  moreover have "bytes = take 32 bytes @ take 8 (drop 32 bytes) @ drop 40 bytes"
    using append_take_drop_id [of 32 bytes] append_take_drop_id [of 8 "drop 32 bytes"] by simp
  ultimately show "length payload \<le> max_payload_bytes \<and> bytes = seal ?v payload"
    using h(2,5,8) len by (simp add: seal_bytes sealed_header_def)
next
  let ?v = persistence_format_version
  assume "length payload \<le> max_payload_bytes \<and> bytes = seal ?v payload"
  then have len: "length payload \<le> max_payload_bytes" and bytes: "bytes = seal ?v payload" by simp_all
  have size: "length bytes = header_size + length payload" by (simp add: bytes seal_bytes)
  have n: "unat (word_of_nat (length payload) :: u64) = length payload"
    using len by (simp add: unat_of_nat take_bit_nat_eq_self)
  have "take 4 (drop 8 bytes) = le_bytes 4 0 ?v" "take 4 (drop 12 bytes) = le_bytes 4 0 endian_marker"
    "take 8 (drop 16 bytes) = le_bytes 8 0 (word_of_nat (length payload) :: u64)"
    "take 8 (drop 24 bytes) = le_bytes 8 0 (integrity_hash payload)"
    "take 8 (drop 32 bytes) = le_bytes 8 0 (integrity_hash (take 32 bytes))"
    by (simp_all add: bytes seal_bytes) (simp_all add: sealed_header_def)
  then have "read_u32 bytes 8 = ?v" "read_u32 bytes 12 = endian_marker" "read_u64 bytes 16 = word_of_nat (length payload)"
    "read_u64 bytes 24 = integrity_hash payload" "read_u64 bytes 32 = integrity_hash (take 32 bytes)"
    using size by (simp_all add: read_le_exact del: read_le.simps)
  moreover have "take 8 bytes = durable_magic" "drop header_size bytes = payload"
    by (simp_all add: bytes seal_bytes) (simp_all add: sealed_header_def)
  ultimately show "unseal bytes = Inr payload" using len size n by (simp add: unseal_def del: read_le.simps)
qed

section \<open>Corruption is detected\<close>

text \<open>
  The multiplier of the hash is odd, so each round is injective in the hash before it, and the
  byte enters by exclusive or. Two byte strings that differ in one place have different hashes.
\<close>

lemma prime_inverse: "(1099511628211 :: u64) * 14886173955864302971 = 1"
  by code_simp

lemma prime_cancel: "(x :: u64) * 1099511628211 = y * 1099511628211 \<longleftrightarrow> x = y"
proof
  assume "x * 1099511628211 = y * 1099511628211"
  then have "x * 1099511628211 * 14886173955864302971 = y * 1099511628211 * 14886173955864302971" by simp
  then show "x = y" by (simp only: mult.assoc prime_inverse mult_1_right)
qed simp

lemma ucast_byte_inj: "(ucast (a::u8) :: u64) = ucast b \<longleftrightarrow> a = b"
proof -
  have "n < 8 \<and> n < 64" if "bit (c::u8) n" for c n using bit_imp_le_length [OF that] by simp
  then show ?thesis by (auto simp: bit_eq_iff bit_simps)
qed

lemma mix_byte_inj: "mix_byte b h = mix_byte b h' \<longleftrightarrow> h = h'" "mix_byte b h = mix_byte b' h \<longleftrightarrow> b = b'"
  unfolding mix_byte_def prime_cancel using ucast_byte_inj [of b b'] by (auto simp: bit_eq_iff bit_simps)

lemma mix_bytes_inj: "mix_bytes bs h = mix_bytes bs h' \<longleftrightarrow> h = h'"
  by (induction bs arbitrary: h h') (simp_all add: mix_bytes_def mix_byte_inj)

lemma hash_single_byte:
  assumes "i < length bs" "b \<noteq> bs ! i"
  shows "integrity_hash (bs[i := b]) \<noteq> integrity_hash bs"
proof -
  have split: "mix_bytes (as @ cs) h = mix_bytes cs (mix_bytes as h)" for as cs h by (simp add: mix_bytes_def)
  have "bs[i := b] = take i bs @ [b] @ drop (Suc i) bs" "bs = take i bs @ [bs ! i] @ drop (Suc i) bs"
    using assms(1) by (simp_all add: upd_conv_take_nth_drop id_take_nth_drop [symmetric])
  then show ?thesis using assms(2)
    by (smt (verit) split integrity_hash_def mix_bytes_inj mix_byte_inj(2) mix_bytes_def fold_simps)
qed

lemma seal_inj: "seal v p = seal v p' \<longleftrightarrow> p = p'"
  by (auto simp: seal_bytes)

lemma unseal_error: "unseal bytes = failure E_PersistenceCorruption \<or> (\<exists>p. unseal bytes = Inr p)"
  by (simp add: unseal_def Let_def del: read_le.simps)

text \<open>Every change of a single byte and every truncation of a container is noticed.\<close>

lemma unseal_single_byte:
  assumes "unseal bytes = Inr payload" "i < length bytes" "b \<noteq> bytes ! i"
  shows "unseal (bytes[i := b]) = failure E_PersistenceCorruption"
proof -
  have "unseal (bytes[i := b]) \<noteq> Inr p'" for p'
  proof
    assume "unseal (bytes[i := b]) = Inr p'"
    then have new: "bytes[i := b] = seal persistence_format_version p'" and old: "bytes = seal persistence_format_version payload"
      using assms(1) by (simp_all add: unseal_iff)
    have other: "bytes[i := b] \<noteq> bytes" using assms(2,3) by (metis nth_list_update_eq)
    have drop: "drop 40 bytes = payload" "drop 40 (bytes[i := b]) = p'" by (subst old new; simp add: seal_bytes)+
    show False
    proof (cases "i < 40")
      case True
      then have "p' = payload" using drop by (simp add: drop_update_cancel)
      then show False using other old new by simp
    next
      case False
      then have p': "p' = payload[i - 40 := b]" using drop by (simp add: drop_update_swap)
      have "take 32 (bytes[i := b]) = take 32 bytes" using False by simp
      moreover have "take 32 bytes = sealed_header persistence_format_version payload"
        "take 32 (bytes[i := b]) = sealed_header persistence_format_version p'"
        by (subst old new; simp add: seal_bytes)+
      ultimately have "le_bytes 8 0 (integrity_hash p') = le_bytes 8 0 (integrity_hash payload)"
        by (simp add: sealed_header_def p')
      then have "integrity_hash p' = integrity_hash payload" by (simp add: le_bytes_inj)
      moreover have "i - 40 < length payload" "b \<noteq> payload ! (i - 40)"
        using False assms(2,3) drop(1) by (auto simp: nth_append seal_bytes simp flip: drop(1))
      ultimately show False using hash_single_byte p' by blast
    qed
  qed
  then show ?thesis using unseal_error by blast
qed

lemma unseal_truncated:
  assumes "unseal bytes = Inr payload" "n < length bytes"
  shows "unseal (take n bytes) = failure E_PersistenceCorruption"
proof -
  have "unseal (take n bytes) \<noteq> Inr p'" for p'
  proof
    assume p': "unseal (take n bytes) = Inr p'"
    then have "length p' \<le> max_payload_bytes" "take n bytes = seal persistence_format_version p'"
      "length payload \<le> max_payload_bytes" "bytes = seal persistence_format_version payload"
      using assms(1) by (simp_all add: unseal_iff)
    note old = this(3,4) and new = this(1,2)
    have n: "n = header_size + length p'" using arg_cong [OF new(2), of length] assms(2) by (simp add: seal_bytes)
    have "take 8 (drop 16 (take n bytes)) = take 8 (drop 16 bytes)" using n by (simp add: drop_take)
    moreover have "take 8 (drop 16 bytes) = le_bytes 8 0 (word_of_nat (length payload) :: u64)"
      "take 8 (drop 16 (take n bytes)) = le_bytes 8 0 (word_of_nat (length p') :: u64)"
      by (subst old(2) new(2); simp add: seal_bytes; simp add: sealed_header_def)+
    ultimately have "(word_of_nat (length p') :: u64) = word_of_nat (length payload)" by (simp add: le_bytes_inj)
    then have "length p' = length payload" using new(1) old(1) by (simp add: word_unat_eq_iff unat_of_nat take_bit_nat_eq_self)
    then show False using n assms(2) old(2) by (simp add: seal_bytes)
  qed
  then show ?thesis using unseal_error by blast
qed

lemma store_decode_corrupt: "unseal bytes = failure E_PersistenceCorruption \<Longrightarrow> store_decode bytes l = failure E_PersistenceCorruption"
  by (simp add: store_decode_def)

lemma store_decode_unseals: "store_decode bytes l = Inr d \<Longrightarrow> \<exists>payload. unseal bytes = Inr payload"
  by (auto simp: store_decode_def split: sum.splits)

section \<open>Round trip of the container\<close>

definition durable_ok :: "limits \<Rightarrow> durable_file \<Rightarrow> bool" where
  "durable_ok l d \<longleftrightarrow>
     text_ok (max_name_bytes l) (du_instance_id d) \<and> policy_ok (du_policy d) \<and>
     list_all profile_ok (du_profiles d) \<and> list_all accelerator_ok (du_accelerators d) \<and>
     list_all (\<lambda>e. text_ok 256 (snd e)) (du_accelerator_keys d) \<and>
     list_all (\<lambda>e. ledger_ok (snd e)) (du_ledgers d) \<and> list_all partition_ok (du_partitions d) \<and>
     list_all reservation_ok (du_reservations d) \<and> list_all attempt_ok (du_attempts d) \<and>
     list_all assignment_ok (du_assignments d) \<and> list_all worker_ok (du_workers d) \<and>
     length (du_profiles d) \<le> max_persisted_records l \<and> length (du_accelerators d) \<le> max_persisted_records l \<and>
     length (du_accelerator_keys d) \<le> max_persisted_records l \<and> length (du_ledgers d) \<le> max_persisted_records l \<and>
     length (du_partitions d) \<le> max_persisted_records l \<and> length (du_reservations d) \<le> max_persisted_records l \<and>
     length (du_attempts d) \<le> max_persisted_records l \<and> length (du_assignments d) \<le> max_persisted_records l \<and>
     length (du_workers d) \<le> max_persisted_records l"

definition limits_fit :: "limits \<Rightarrow> bool" where
  "limits_fit l \<longleftrightarrow> 256 \<le> max_metadata_bytes l \<and> max_name_bytes l \<le> max_metadata_bytes l \<and> max_persisted_records l < 2 ^ 32"

lemma key_trip: "text_ok 256 (snd e) \<Longrightarrow> 256 \<le> n \<Longrightarrow> trip 8 (encode_key e n) decode_key e"
  by (rule trip_weaken, unfold encode_key_def decode_key_def)
     ((rule codec_trip trip_text_within | simp add: prod_eq_iff)+)

lemma ledger_entry_trip: "ledger_ok (snd e) \<Longrightarrow> trip 8 (encode_ledger_entry e) decode_ledger_entry e"
  by (rule trip_weaken, unfold encode_ledger_entry_def decode_ledger_entry_def)
     ((rule codec_trip ledger_trip | simp add: prod_eq_iff)+)

lemma record_list_trip:
  assumes "list_all ok xs" "length xs \<le> m" "m < 2 ^ 32" "\<And>x. ok x \<Longrightarrow> trip n (enc x) dec x" "8 \<le> n"
  shows "trip 4 (w_list enc xs) (r_list m 8 dec) xs"
  using assms by (intro trip_list) (auto simp: list_all_iff intro: trip_weaken)

lemma durable_trip:
  assumes "durable_ok l d" "limits_fit l"
  shows "trip 0 (encode_durable d l) (decode_durable l) d"
proof -
  note ok = assms [unfolded durable_ok_def limits_fit_def]
  have lists: "trip 4 (w_list encode_profile (du_profiles d)) (r_list (max_persisted_records l) 8 decode_profile) (du_profiles d)"
    "trip 4 (w_list encode_accelerator (du_accelerators d)) (r_list (max_persisted_records l) 8 decode_accelerator) (du_accelerators d)"
    "trip 4 (w_list (\<lambda>e. encode_key e (max_metadata_bytes l)) (du_accelerator_keys d)) (r_list (max_persisted_records l) 8 decode_key) (du_accelerator_keys d)"
    "trip 4 (w_list encode_ledger_entry (du_ledgers d)) (r_list (max_persisted_records l) 8 decode_ledger_entry) (du_ledgers d)"
    "trip 4 (w_list encode_partition (du_partitions d)) (r_list (max_persisted_records l) 8 decode_partition) (du_partitions d)"
    "trip 4 (w_list encode_reservation (du_reservations d)) (r_list (max_persisted_records l) 8 decode_reservation) (du_reservations d)"
    "trip 4 (w_list encode_attempt (du_attempts d)) (r_list (max_persisted_records l) 8 decode_attempt) (du_attempts d)"
    "trip 4 (w_list encode_assignment (du_assignments d)) (r_list (max_persisted_records l) 8 decode_assignment) (du_assignments d)"
    "trip 4 (w_list encode_worker (du_workers d)) (r_list (max_persisted_records l) 8 decode_worker) (du_workers d)"
    using ok by (auto intro!: record_list_trip [OF _ _ _ profile_trip] record_list_trip [OF _ _ _ accelerator_trip]
      record_list_trip [OF _ _ _ key_trip] record_list_trip [OF _ _ _ ledger_entry_trip] record_list_trip [OF _ _ _ partition_trip]
      record_list_trip [OF _ _ _ reservation_trip] record_list_trip [OF _ _ _ attempt_trip] record_list_trip [OF _ _ _ assignment_trip]
      record_list_trip [OF _ _ _ worker_trip])
  show ?thesis
    by (rule trip_weaken, unfold encode_durable_def decode_durable_def)
       ((rule trip_bind trip_return lists trip_u32 trip_u64 policy_trip trip_text_within | use ok in simp)+)
qed

lemma store_roundtrip:
  assumes "store_encode d l = Inr bytes" "durable_ok l d" "limits_fit l"
  shows "store_decode bytes l = Inr d"
proof -
  obtain bs where bs: "encodes (encode_durable d l) True bs" "reads (decode_durable l) d bs"
    using durable_trip [OF assms(2,3)] by (rule tripE)
  let ?w = "encode_durable d l (writer_start (Some (max_frame_bytes l)))"
  have valid: "validate_decoded (without_text d) l = success" and ok: "bw_ok ?w" and len: "length (bw_buffer ?w) \<le> max_payload_bytes"
    and bytes: "bytes = seal (du_format_version d) (bw_buffer ?w)"
    using assms(1) by (auto simp: store_encode_def Let_def bw_ok_def split: sum.splits option.splits if_splits)
  have "du_format_version d = persistence_format_version"
    using valid by (auto simp: validate_decoded_def without_text_def split: if_splits)
  then have u: "unseal bytes = Inr (bw_buffer ?w)" using len bytes by (simp add: unseal_iff)
  have "bw_wf (writer_start (Some (max_frame_bytes l)))" "bw_ok (writer_start (Some (max_frame_bytes l)))"
    "bw_buffer (writer_start (Some (max_frame_bytes l))) = []"
    by (simp_all add: bw_wf_def bw_ok_def writer_start_def)
  with bs(1) ok have "bw_buffer ?w = bs" unfolding encodes_def by (metis append_Nil byte_writer.select_convs(2) byte_writer.surjective byte_writer.update_convs(2))
  then show ?thesis
    using u bs(2) valid by (simp add: store_decode_def reads_def reader_start_def br_ok_def upcoming_def reader_finish_def)
qed

section \<open>Export\<close>

definition export_durable_state :: "fabric_state \<Rightarrow> durable_state result" where
  "export_durable_state s =
     Inr \<lparr>du_format_version = persistence_format_version, du_instance_id = fs_instance_id s,
      du_state_generation = fs_state_generation s, du_coordinator_epoch = fs_coordinator_epoch s,
      du_policy_generation = fs_policy_generation s, du_next_identity = ida_next (fs_ids s),
      du_saved_at_ms = fs_now s, du_policy = fs_policy s, du_profiles = om_values (fs_profiles s),
      du_accelerators = om_values (fs_accelerators s),
      du_accelerator_keys = concat (map (\<lambda>(k, a).
        case om_find k (fs_stable_keys s) of None \<Rightarrow> [] | Some key \<Rightarrow> [(ac_id a, key)]) (fs_accelerators s)),
      du_ledgers = concat (map (\<lambda>(k, a).
        case find_ledger k s of None \<Rightarrow> [] | Some l \<Rightarrow> [(ac_id a, l)]) (fs_accelerators s)),
      du_partitions = om_values (fs_partitions s), du_reservations = om_values (fs_reservations s),
      du_attempts = om_values (fs_attempts s), du_assignments = om_values (fs_assignments s),
      du_workers = om_values (fs_workers s)\<rparr>"

section \<open>Import\<close>

text \<open>The checks before anything is applied.\<close>

definition import_identity_check :: "u64 \<Rightarrow> status" where
  "import_identity_check i = (if \<not> id_valid i then failure E_PersistenceCorruption else success)"

definition import_partition_check :: "u64 list \<Rightarrow> partition_record \<Rightarrow> status" where
  "import_partition_check accelerators r =
     (if \<not> id_valid (pr_id r) then failure E_PersistenceCorruption
      else if pr_accelerator r \<notin> set accelerators then failure E_PersistenceCorruption
      else partition_validate r)"

fun import_ledgers_check :: "u64 list \<Rightarrow> (accelerator_id \<times> capacity_ledger) list \<Rightarrow> status" where
  "import_ledgers_check accelerators [] = success"
| "import_ledgers_check accelerators (e # es) =
     (case corrupt (ledger_entry_check accelerators e) of
        Inl x \<Rightarrow> Inl x
      | Inr _ \<Rightarrow> import_ledgers_check accelerators es)"

definition import_check :: "durable_state \<Rightarrow> fabric_state \<Rightarrow> status" where
  "import_check d s =
     (case check_each ac_id (\<lambda>a. import_identity_check (ac_id a)) [] (du_accelerators d) of
        Inl e \<Rightarrow> Inl e
      | Inr accelerators \<Rightarrow>
     (case check_each pr_id (import_partition_check accelerators) [] (du_partitions d) of
        Inl e \<Rightarrow> Inl e
      | Inr _ \<Rightarrow>
     (case import_ledgers_check accelerators (du_ledgers d) of
        Inl e \<Rightarrow> Inl e
      | Inr _ \<Rightarrow> if du_state_generation d < fs_state_generation s then failure E_GenerationRegression else success)))"

text \<open>The structural part: devices come back without current evidence.\<close>

definition restored_accelerator :: "accelerator_record \<Rightarrow> accelerator_record" where
  "restored_accelerator a =
     a\<lparr>ac_evidence := (ac_evidence a)\<lparr>es_observed := False, es_ttl_ms := 0\<rparr>,
       ac_health := (ac_health a)\<lparr>he_stamp := (he_stamp (ac_health a))\<lparr>es_observed := False\<rparr>\<rparr>,
       ac_capability := (ac_capability a)\<lparr>cap_evidence := (cap_evidence (ac_capability a))
         \<lparr>es_observed := False, es_ttl_ms := 0\<rparr>\<rparr>\<rparr>"

definition fill :: "('v \<Rightarrow> 'k::linorder) \<Rightarrow> ('v \<Rightarrow> 'w) \<Rightarrow> 'v list \<Rightarrow> ('k, 'w) omap" where
  "fill key value vs = for_keys vs (\<lambda>v. om_set (key v) (value v)) []"

definition import_structure :: "durable_state \<Rightarrow> fabric_state \<Rightarrow> fabric_state" where
  "import_structure d s =
     (let g = (if gen_known (du_policy_generation d) then du_policy_generation d else gen_first)
      in s\<lparr>fs_policy := (du_policy d)\<lparr>pp_generation := g\<rparr>, fs_policy_generation := g,
           fs_profiles := fill pf_id (\<lambda>p. p) (du_profiles d),
           fs_accelerators := fill ac_id restored_accelerator (du_accelerators d),
           fs_stable_keys := fill fst snd (du_accelerator_keys d), fs_key_index := fill snd fst (du_accelerator_keys d),
           fs_ledgers := fill fst snd (du_ledgers d), fs_partitions := [], fs_reservations := [],
           fs_attempts := [], fs_assignments := [], fs_workers := []\<rparr>)"

text \<open>The dynamic part, one record at a time.\<close>

definition needs_revalidation :: "partition_record \<Rightarrow> bool" where
  "needs_revalidation r \<longleftrightarrow>
     requires_revalidation_after_restart (pr_state r) \<and> pr_state r \<noteq> PS_Unpartitioned \<and>
     pr_state r \<noteq> PS_RevalidationRequired"

definition import_partition :: "u64 \<Rightarrow> partition_record \<Rightarrow> pass \<Rightarrow> pass" where
  "import_partition now_ms r p =
     (let (s, report) = p in
      if needs_revalidation r
      then (let r1 = r\<lparr>pr_state := PS_RevalidationRequired, pr_last_transition_at_ms := now_ms\<rparr>
            in (s\<lparr>fs_partitions := om_set (pr_id r1) r1 (fs_partitions s)\<rparr>,
                add_finding RF_GenerationUncorrelatable SV_Attention (pr_accelerator r1) (pr_id r1) (pr_generation r1)
                  (pr_state r1) (ni_native_id (pr_native_identity r1)) (report\<lparr>rr_revalidation_required := True\<rparr>)))
      else (s\<lparr>fs_partitions := om_set (pr_id r) r (fs_partitions s)\<rparr>, report))"

definition still_holds :: "fabric_state \<Rightarrow> partition_id \<Rightarrow> bool" where
  "still_holds s i =
     (case find_partition i s of
        None \<Rightarrow> False
      | Some r \<Rightarrow> pr_held_bucket r \<noteq> None \<and> pr_state r \<noteq> PS_Reserved \<and> pr_state r \<noteq> PS_Creating)"

definition retire_unbacked :: "u64 \<Rightarrow> partition_id \<Rightarrow> fabric_state \<Rightarrow> fabric_state" where
  "retire_unbacked now_ms i s =
     (case find_partition i s of
        None \<Rightarrow> s
      | Some r \<Rightarrow>
          if pr_held_bucket r = None then s
          else upd_partition i (\<lambda>r. r\<lparr>pr_held_bucket := None, pr_state := PS_Retired,
                                       pr_last_transition_at_ms := now_ms\<rparr>) s)"

definition import_release :: "u64 \<Rightarrow> partition_reservation \<Rightarrow> fabric_state \<Rightarrow> fabric_state \<times> status" where
  "import_release now_ms r s =
     (if rs_lifecycle r \<noteq> RL_Active \<and> rs_lifecycle r \<noteq> RL_Pending then (s, success)
      else
        (case find_ledger (rs_accelerator r) s of
           None \<Rightarrow> (s, success)
         | Some l \<Rightarrow>
             if \<exists>i\<in>set (rs_partitions r). still_holds s i then (s, success)
             else
               (case ledger_release_reserved (rs_resources r) l of
                  (_, Inl _) \<Rightarrow> (s, failure E_PersistenceCorruption)
                | (l1, Inr _) \<Rightarrow>
                    (for_keys (rs_partitions r) (retire_unbacked now_ms) (upd_ledger (rs_accelerator r) l1 s), success))))"

definition import_reservation :: "u64 \<Rightarrow> partition_reservation \<Rightarrow> pass \<Rightarrow> pass \<times> status" where
  "import_reservation now_ms r p =
     (let (s, report) = p in
      if reservation_is_terminal (rs_lifecycle r)
      then ((s\<lparr>fs_reservations := om_set (rs_id r) r (fs_reservations s)\<rparr>, report), success)
      else
        (case import_release now_ms r s of
           (s1, Inl e) \<Rightarrow> ((s1, report), Inl e)
         | (s1, Inr _) \<Rightarrow>
             ((s1\<lparr>fs_reservations := om_set (rs_id r) (r\<lparr>rs_lifecycle := RL_Fenced, rs_updated_at_ms := now_ms\<rparr>)
                   (fs_reservations s1)\<rparr>, report\<lparr>rr_reconciliation_required := True\<rparr>), success)))"

definition import_attempt :: "u64 \<Rightarrow> partition_attempt \<Rightarrow> pass \<Rightarrow> pass" where
  "import_attempt now_ms a p =
     (let (s, report) = p in
      if attempt_settled (at_state a)
      then (s\<lparr>fs_attempts := om_set (at_id a) a (fs_attempts s)\<rparr>, report)
      else (s\<lparr>fs_attempts := om_set (at_id a) (a\<lparr>at_state := AT_OutcomeUnknown, at_settled_at_ms := now_ms\<rparr>) (fs_attempts s)\<rparr>,
            add_finding RF_GenerationUncorrelatable SV_Critical (at_accelerator a) 0 gen_unknown
              PS_RevalidationRequired [] (report\<lparr>rr_reconciliation_required := True\<rparr>)))"

definition import_assignment :: "partition_assignment \<Rightarrow> pass \<Rightarrow> pass" where
  "import_assignment a p =
     (let (s, report) = p in
      if (case find_partition (as_partition a) s of None \<Rightarrow> True | Some r \<Rightarrow> pr_state r \<noteq> PS_Active)
      then (s, add_finding RF_AssignmentOrphaned SV_Critical (as_accelerator a) (as_partition a)
                 (as_partition_generation a) PS_RevalidationRequired [] (report\<lparr>rr_reconciliation_required := True\<rparr>))
      else (s\<lparr>fs_assignments := om_set (as_id a) a (fs_assignments s)\<rparr>, report))"

definition import_worker :: "u64 \<Rightarrow> worker_record \<Rightarrow> fabric_state \<Rightarrow> fabric_state" where
  "import_worker now_ms w s =
     s\<lparr>fs_workers := om_set (wk_id w) (w\<lparr>wk_alive := False, wk_fenced := True, wk_fenced_at_ms := now_ms\<rparr>) (fs_workers s)\<rparr>"

definition empty_report :: "strong_id \<Rightarrow> reconciliation_report" where
  "empty_report i =
     \<lparr>rr_id = i, rr_accelerator = 0, rr_accelerator_generation = gen_unknown, rr_capability_generation = gen_unknown,
      rr_device_present = False, rr_device_generation_changed = False, rr_capability_changed = False,
      rr_layout_changed = False, rr_revalidation_required = False, rr_reconciliation_required = False,
      rr_matched = 0, rr_missing = 0, rr_unexpected = 0, rr_adopted = 0, rr_fenced = 0, rr_findings = []\<rparr>"

definition import_records :: "durable_state \<Rightarrow> u64 \<Rightarrow> pass \<Rightarrow> fabric_state \<times> reconciliation_report result" where
  "import_records d now_ms p =
     (case try_keys (du_reservations d) (import_reservation now_ms)
             (for_keys (du_partitions d) (import_partition now_ms) p) of
        ((s, _), Inl e) \<Rightarrow> (s, Inl e)
      | (p1, Inr _) \<Rightarrow>
          (let (s, report) = for_keys (du_assignments d) import_assignment
                               (for_keys (du_attempts d) (import_attempt now_ms) p1);
               s1 = for_keys (du_workers d) (import_worker now_ms) s
           in (record_event EX_RevalidationRequired (bump_state_generation s1), Inr report)))"

definition import_durable_state :: "durable_state \<Rightarrow> fabric_state \<Rightarrow> fabric_state \<times> reconciliation_report result" where
  "import_durable_state d s =
     (case import_check d s of
        Inl e \<Rightarrow> (s, Inl e)
      | Inr _ \<Rightarrow>
          (let s1 = import_structure d s in
           case restore_floor (du_next_identity d) (fs_ids s1) of
             (_, Inl e) \<Rightarrow> (s1, Inl e)
           | (ids, Inr _) \<Rightarrow>
               (let s2 = s1\<lparr>fs_ids := ids, fs_coordinator_epoch :=
                             (if du_coordinator_epoch d > fs_coordinator_epoch s1 then du_coordinator_epoch d
                              else fs_coordinator_epoch s1)\<rparr>
                in case gen_next (du_state_generation d) of
                     Inl e \<Rightarrow> (s2, Inl e)
                   | Inr g \<Rightarrow>
                       (let s3 = s2\<lparr>fs_state_generation := g\<rparr>;
                            (ids1, allocated) = allocate (fs_ids s3);
                            i = (case allocated of Inl _ \<Rightarrow> 0 | Inr i \<Rightarrow> i)
                        in import_records d (fs_now s) (s3\<lparr>fs_ids := ids1\<rparr>, empty_report i)))))"

section \<open>Load\<close>

text \<open>The contents of the file are an argument; \<open>None\<close> is a file that does not exist.\<close>

definition fabric_load :: "u8 list option \<Rightarrow> fabric_state \<Rightarrow> fabric_state \<times> status" where
  "fabric_load contents s =
     (case contents of
        None \<Rightarrow> (s, success)
      | Some bytes \<Rightarrow>
          (case store_decode bytes (fs_limits s) of
             Inl E_NotFound \<Rightarrow> (s, success)
           | Inl e \<Rightarrow> (s, Inl e)
           | Inr d \<Rightarrow>
               (case import_durable_state (without_text d) s of
                  (t, Inl e) \<Rightarrow> (t, Inl e)
                | (t, Inr _) \<Rightarrow> (t, success))))"

section \<open>A restart keeps no authority\<close>

text \<open>
  What holds of the records of a runtime that has imported a durable state, and what the loops
  over the records leave alone.
\<close>

definition calm :: "partition_state \<Rightarrow> bool" where
  "calm st \<longleftrightarrow> \<not> requires_revalidation_after_restart st \<or> st = PS_RevalidationRequired \<or> st = PS_Unpartitioned"

definition restarted :: "fabric_state \<Rightarrow> bool" where
  "restarted s \<longleftrightarrow>
     (\<forall>i r. find_partition i s = Some r \<longrightarrow> calm (pr_state r)) \<and>
     (\<forall>i r. find_reservation i s = Some r \<longrightarrow> reservation_is_terminal (rs_lifecycle r)) \<and>
     (\<forall>i a. find_attempt i s = Some a \<longrightarrow> attempt_settled (at_state a) \<or> at_state a = AT_OutcomeUnknown) \<and>
     fs_assignments s = [] \<and>
     (\<forall>i w. om_find i (fs_workers s) = Some w \<longrightarrow> wk_fenced w \<and> \<not> wk_alive w)"

definition anchored :: "fabric_state \<Rightarrow> fabric_state \<Rightarrow> bool" where
  "anchored s t \<longleftrightarrow>
     fs_accelerators t = fs_accelerators s \<and> fs_key_index t = fs_key_index s \<and> fs_ids t = fs_ids s \<and>
     fs_coordinator_epoch t = fs_coordinator_epoch s \<and> fs_policy_generation t = fs_policy_generation s \<and>
     fs_state_generation t = fs_state_generation s \<and> ledgers_evolve s t"

lemma anchored_refl [simp]: "anchored s s"
  by (simp add: anchored_def)

lemma anchored_trans [trans]: "anchored s t \<Longrightarrow> anchored t u \<Longrightarrow> anchored s u"
  using ledgers_evolve_trans unfolding anchored_def by auto

lemma anchored_same:
  "fs_accelerators t = fs_accelerators s \<Longrightarrow> fs_key_index t = fs_key_index s \<Longrightarrow> fs_ids t = fs_ids s \<Longrightarrow>
   fs_coordinator_epoch t = fs_coordinator_epoch s \<Longrightarrow> fs_policy_generation t = fs_policy_generation s \<Longrightarrow>
   fs_state_generation t = fs_state_generation s \<Longrightarrow> fs_ledgers t = fs_ledgers s \<Longrightarrow> anchored s t"
  by (simp add: anchored_def ledgers_evolve_same)

lemma not_calm_active: "calm st \<Longrightarrow> st \<noteq> PS_Active"
  by (auto simp: calm_def requires_revalidation_after_restart_def holds_capacity_def is_live_state_def)

lemma calm_retired: "calm PS_Retired"
  by (simp add: calm_def requires_revalidation_after_restart_def holds_capacity_def is_live_state_def)

lemma calm_needs: "\<not> needs_revalidation r \<Longrightarrow> calm (pr_state r)" "calm PS_RevalidationRequired"
  by (auto simp: needs_revalidation_def calm_def)

lemma import_partition_kept:
  "restarted s \<Longrightarrow> restarted (fst (import_partition now_ms r (s, report)))" "anchored s (fst (import_partition now_ms r (s, report)))"
  by (auto simp: import_partition_def Let_def restarted_def apf_lookup calm_needs intro: anchored_same split: if_splits)

lemma import_attempt_kept:
  "restarted s \<Longrightarrow> restarted (fst (import_attempt now_ms a (s, report)))" "anchored s (fst (import_attempt now_ms a (s, report)))"
  by (auto simp: import_attempt_def restarted_def apf_lookup intro: anchored_same split: if_splits)

lemma import_assignment_kept:
  "restarted s \<Longrightarrow> fst (import_assignment a (s, report)) = s"
  using not_calm_active by (fastforce simp: import_assignment_def restarted_def split: option.splits if_splits)

lemma import_worker_kept:
  "restarted s \<Longrightarrow> restarted (import_worker now_ms w s)" "anchored s (import_worker now_ms w s)"
  by (auto simp: import_worker_def restarted_def apf_lookup intro: anchored_same split: if_splits)

lemma retire_unbacked_kept:
  "restarted s \<Longrightarrow> restarted (retire_unbacked now_ms i s)" "anchored s (retire_unbacked now_ms i s)"
  by (auto simp: retire_unbacked_def restarted_def apf_lookup calm_retired intro: anchored_same split: option.splits if_splits)

lemma import_release_cases:
  obtains (same) "fst (import_release now_ms r s) = s"
  | (released) l l1 where "find_ledger (rs_accelerator r) s = Some l" "ledger_release_reserved (rs_resources r) l = (l1, success)"
      "fst (import_release now_ms r s) = for_keys (rs_partitions r) (retire_unbacked now_ms) (upd_ledger (rs_accelerator r) l1 s)"
proof -
  consider (skip) "rs_lifecycle r \<noteq> RL_Active \<and> rs_lifecycle r \<noteq> RL_Pending \<or> find_ledger (rs_accelerator r) s = None \<or>
      (\<exists>i\<in>set (rs_partitions r). still_holds s i)"
    | (ledger) l where "rs_lifecycle r = RL_Active \<or> rs_lifecycle r = RL_Pending" "find_ledger (rs_accelerator r) s = Some l"
      "\<not> (\<exists>i\<in>set (rs_partitions r). still_holds s i)"
    by (cases "find_ledger (rs_accelerator r) s") auto
  then show thesis
  proof cases
    case skip
    then show thesis by (intro same) (auto simp: import_release_def split: option.split)
  next
    case (ledger l)
    obtain l1 st where l1: "ledger_release_reserved (rs_resources r) l = (l1, st)" by fastforce
    show thesis
    proof (cases st)
      case (Inl e)
      then show thesis using ledger by (intro same) (simp add: import_release_def l1)
    next
      case (Inr u)
      then show thesis using ledger l1 by (intro released [of l l1]) (auto simp: import_release_def)
    qed
  qed
qed

lemma import_release_kept:
  "restarted s \<Longrightarrow> restarted (fst (import_release now_ms r s))" "anchored s (fst (import_release now_ms r s))"
proof -
  have u: "restarted (upd_ledger k l s) = restarted s" for k l by (simp add: restarted_def)
  have loop: "anchored t (for_keys is (retire_unbacked now_ms) t)" "restarted t \<Longrightarrow> restarted (for_keys is (retire_unbacked now_ms) t)" for "is" t
    by (rule for_keys_invariant; auto intro: anchored_trans retire_unbacked_kept)+
  show "restarted s \<Longrightarrow> restarted (fst (import_release now_ms r s))"
    by (cases rule: import_release_cases [of now_ms r s]) (simp_all add: loop(2) u)
  show "anchored s (fst (import_release now_ms r s))"
  proof (cases rule: import_release_cases [of now_ms r s])
    case (released l l1)
    have "ledger_step l l1"
      using released(2) release_op.op_balanced [of l "rs_resources r"] release_op.op_total [of "rs_resources r" l]
      by (simp add: ledger_step_def)
    then have "anchored s (upd_ledger (rs_accelerator r) l1 s)" using released(1) by (simp add: anchored_def ledgers_evolve_upd)
    then show ?thesis using anchored_trans [OF _ loop(1)] released(3) by simp
  qed simp
qed

lemma import_reservation_kept:
  "restarted s \<Longrightarrow> restarted (fst (fst (import_reservation now_ms r (s, report))))" "anchored s (fst (fst (import_reservation now_ms r (s, report))))"
proof -
  have f: "anchored u (u\<lparr>fs_reservations := m\<rparr>)" for u m by (rule anchored_same) simp_all
  have add: "restarted u \<Longrightarrow> reservation_is_terminal (rs_lifecycle v) \<Longrightarrow> restarted (u\<lparr>fs_reservations := om_set i v (fs_reservations u)\<rparr>)"
    for u i v by (simp add: restarted_def apf_lookup)
  obtain s1 st where s1: "import_release now_ms r s = (s1, st)" by fastforce
  show "restarted s \<Longrightarrow> restarted (fst (fst (import_reservation now_ms r (s, report))))"
    using import_release_kept(1) [of s now_ms r]
    by (cases st) (simp_all add: import_reservation_def s1 add reservation_is_terminal_def)
  show "anchored s (fst (fst (import_reservation now_ms r (s, report))))"
    using import_release_kept(2) [of s now_ms r] anchored_trans [OF _ f]
    by (cases st) (simp_all add: import_reservation_def s1 f)
qed

text \<open>The loops over the records of a durable state.\<close>

lemma pass_loop_kept:
  assumes "\<And>v s report. restarted s \<Longrightarrow> restarted (fst (body v (s, report)))" "\<And>v s report. anchored s (fst (body v (s, report)))" "restarted s"
  shows "restarted (fst (for_keys vs body (s, report))) \<and> anchored s (fst (for_keys vs body (s, report)))"
  by (rule for_keys_invariant [where P = "\<lambda>p. restarted (fst p) \<and> anchored s (fst p)"])
     (use assms in \<open>auto intro: anchored_trans\<close>)

lemma import_records_kept:
  assumes "import_records d now_ms (s, report0) = (t, Inr report)" "restarted s"
  obtains u where "restarted u" "anchored s u" "t = record_event EX_RevalidationRequired (bump_state_generation u)"
proof -
  define p0 where "p0 = for_keys (du_partitions d) (import_partition now_ms) (s, report0)"
  have 0: "restarted (fst p0)" "anchored s (fst p0)"
    using pass_loop_kept [of "import_partition now_ms" s "du_partitions d" report0] import_partition_kept assms(2) by (simp_all add: p0_def)
  obtain p1 st where p1: "try_keys (du_reservations d) (import_reservation now_ms) p0 = (p1, st)" by fastforce
  have st: "st = success" using assms(1) p1 by (cases st) (auto simp: import_records_def p0_def split: prod.splits)
  have "restarted (fst (fst (try_keys (du_reservations d) (import_reservation now_ms) p0))) \<and>
      anchored s (fst (fst (try_keys (du_reservations d) (import_reservation now_ms) p0)))"
    by (rule try_keys_invariant [where P = "\<lambda>p. restarted (fst p) \<and> anchored s (fst p)"])
       (use 0 import_reservation_kept in \<open>auto intro: anchored_trans\<close>)
  then have 1: "restarted (fst p1)" "anchored s (fst p1)" by (simp_all add: p1)
  define p2 where "p2 = for_keys (du_attempts d) (import_attempt now_ms) p1"
  have "restarted (fst p2) \<and> anchored (fst p1) (fst p2)"
    using pass_loop_kept [of "import_attempt now_ms" "fst p1" "du_attempts d" "snd p1"] import_attempt_kept 1(1) by (simp add: p2_def)
  then have 2: "restarted (fst p2)" "anchored s (fst p2)" using 1(2) anchored_trans by blast+
  define p3 where "p3 = for_keys (du_assignments d) import_assignment p2"
  have "fst p3 = fst p2 \<and> restarted (fst p3)" unfolding p3_def
    by (rule for_keys_invariant [where P = "\<lambda>p. fst p = fst p2 \<and> restarted (fst p)"])
       (use 2(1) import_assignment_kept in \<open>auto simp: split_paired_all\<close>)
  then have 3: "restarted (fst p3)" "anchored s (fst p3)" using 2(2) by metis+
  define u where "u = for_keys (du_workers d) (import_worker now_ms) (fst p3)"
  have "restarted u \<and> anchored s u" unfolding u_def
    by (rule for_keys_invariant) (use 3 import_worker_kept in \<open>auto intro: anchored_trans\<close>)
  moreover have "t = record_event EX_RevalidationRequired (bump_state_generation u)"
    using assms(1) p1 st by (auto simp: import_records_def p0_def [symmetric] p2_def [symmetric] p3_def [symmetric] u_def split: prod.splits)
  ultimately show thesis using that by blast
qed

lemma restarted_bump: "restarted u \<Longrightarrow> restarted (record_event c (bump_state_generation u))"
  by (simp add: restarted_def record_event_def bump_state_generation_def Let_def split: sum.split)

lemma import_shape:
  assumes "import_durable_state d s = (t, Inr report)"
  obtains u ids g where "import_check d s = success" "restore_floor (du_next_identity d) (fs_ids s) = (ids, success)"
    "gen_next (du_state_generation d) = Inr g" "restarted u" "t = record_event EX_RevalidationRequired (bump_state_generation u)"
    "anchored ((import_structure d s)\<lparr>fs_coordinator_epoch :=
       (if du_coordinator_epoch d > fs_coordinator_epoch s then du_coordinator_epoch d else fs_coordinator_epoch s),
       fs_state_generation := g, fs_ids := fst (allocate ids)\<rparr>) u"
proof -
  have check: "import_check d s = success" using assms by (auto simp: import_durable_state_def split: sum.splits)
  have same: "fs_ids (import_structure d s) = fs_ids s" "fs_coordinator_epoch (import_structure d s) = fs_coordinator_epoch s"
    by (simp_all add: import_structure_def Let_def)
  obtain ids st where ids: "restore_floor (du_next_identity d) (fs_ids s) = (ids, st)" by fastforce
  have st: "st = success" using assms check ids same(1) by (cases st) (auto simp: import_durable_state_def Let_def)
  obtain g where g: "gen_next (du_state_generation d) = Inr g"
    using assms check ids st same(1) by (cases "gen_next (du_state_generation d)") (auto simp: import_durable_state_def Let_def)
  let ?s = "(import_structure d s)\<lparr>fs_coordinator_epoch :=
       (if du_coordinator_epoch d > fs_coordinator_epoch s then du_coordinator_epoch d else fs_coordinator_epoch s),
       fs_state_generation := g, fs_ids := fst (allocate ids)\<rparr>"
  obtain ids1 al where al: "allocate ids = (ids1, al)" by fastforce
  have "import_records d (fs_now s) (?s, empty_report (case al of Inl _ \<Rightarrow> 0 | Inr i \<Rightarrow> i)) = (t, Inr report)"
    using assms check ids st g al same by (simp add: import_durable_state_def Let_def cong: if_cong)
  moreover have "restarted ?s" by (simp add: restarted_def import_structure_def Let_def)
  ultimately obtain u where "restarted u" "anchored ?s u" "t = record_event EX_RevalidationRequired (bump_state_generation u)"
    by (rule import_records_kept)
  then show thesis using that check ids st g by blast
qed

lemma bumped [simp]:
  "fs_accelerators (record_event c (bump_state_generation u)) = fs_accelerators u"
  "fs_ledgers (record_event c (bump_state_generation u)) = fs_ledgers u"
  "fs_key_index (record_event c (bump_state_generation u)) = fs_key_index u"
  "fs_ids (record_event c (bump_state_generation u)) = fs_ids u"
  "fs_coordinator_epoch (record_event c (bump_state_generation u)) = fs_coordinator_epoch u"
  "fs_state_generation (record_event c (bump_state_generation u)) = fs_state_generation (bump_state_generation u)"
  by (simp_all add: record_event_def bump_state_generation_def Let_def split: sum.split)

lemma fill_sorted: "om_sorted (fill key value vs)"
  unfolding fill_def by (rule for_keys_invariant) (auto simp: om_sorted_set, simp add: om_sorted_def)

lemma fill_Some:
  assumes "om_find k (fill key value vs) = Some w"
  shows "\<exists>v\<in>set vs. key v = k \<and> value v = w"
proof -
  have "\<forall>k w. om_find k (fill key value vs) = Some w \<longrightarrow> (\<exists>v\<in>set vs. key v = k \<and> value v = w)"
    unfolding fill_def by (rule for_keys_invariant) (auto simp: apf_lookup split: if_splits)
  then show ?thesis using assms by blast
qed

lemma fill_known:
  assumes "v \<in> set vs"
  shows "om_find (key v) (fill key value vs) \<noteq> None"
  unfolding fill_def
  by (rule for_keys_establish [OF assms, where I = "\<lambda>_. True"]) (auto simp: apf_lookup)

lemma import_advances:
  assumes "import_durable_state d s = (t, Inr report)"
  shows "restarted t"
    "find_accelerator k t = Some a \<Longrightarrow> \<not> es_observed (ac_evidence a) \<and> \<not> es_observed (cap_evidence (ac_capability a)) \<and>
       \<not> es_observed (he_stamp (ac_health a))"
    "du_state_generation d < fs_state_generation t" "fs_state_generation s < fs_state_generation t"
    "fs_coordinator_epoch s \<le> fs_coordinator_epoch t" "du_coordinator_epoch d \<le> fs_coordinator_epoch t"
    "ida_next (fs_ids s) \<le> ida_next (fs_ids t)" "du_next_identity d \<le> ida_next (fs_ids t)"
proof -
  obtain u ids g where u: "import_check d s = success" "restore_floor (du_next_identity d) (fs_ids s) = (ids, success)"
    "gen_next (du_state_generation d) = Inr g" "restarted u" "t = record_event EX_RevalidationRequired (bump_state_generation u)"
    "anchored ((import_structure d s)\<lparr>fs_coordinator_epoch :=
       (if du_coordinator_epoch d > fs_coordinator_epoch s then du_coordinator_epoch d else fs_coordinator_epoch s),
       fs_state_generation := g, fs_ids := fst (allocate ids)\<rparr>) u"
    using assms by (rule import_shape)
  show "restarted t" unfolding u(5) by (rule restarted_bump [OF u(4)])
  have g: "du_state_generation d < g" "g \<le> fs_state_generation (bump_state_generation u)"
    using u(3,6) gen_next_greater bump_generation by (auto simp: anchored_def)
  show "du_state_generation d < fs_state_generation t" using g by (simp add: u(5))
  moreover have "fs_state_generation s \<le> du_state_generation d"
    using u(1) by (auto simp: import_check_def not_less split: sum.splits if_splits)
  ultimately show "fs_state_generation s < fs_state_generation t" by simp
  show "fs_coordinator_epoch s \<le> fs_coordinator_epoch t" "du_coordinator_epoch d \<le> fs_coordinator_epoch t"
    using u(6) by (auto simp: u(5) anchored_def)
  have "ida_next (fs_ids s) \<le> ida_next ids" "du_next_identity d \<le> ida_next ids"
    using u(2) by (auto simp: restore_floor_def split: if_splits)
  moreover have "ida_next ids \<le> ida_next (fst (allocate ids))" by (rule allocate_monotone)
  ultimately show "ida_next (fs_ids s) \<le> ida_next (fs_ids t)" "du_next_identity d \<le> ida_next (fs_ids t)"
    using u(6) by (simp_all add: u(5) anchored_def)
  show "\<not> es_observed (ac_evidence a) \<and> \<not> es_observed (cap_evidence (ac_capability a)) \<and> \<not> es_observed (he_stamp (ac_health a))"
    if "find_accelerator k t = Some a"
  proof -
    have "om_find k (fill ac_id restored_accelerator (du_accelerators d)) = Some a"
      using that u(6) by (simp add: u(5) anchored_def import_structure_def Let_def)
    from fill_Some [OF this] show ?thesis by (auto simp: restored_accelerator_def)
  qed
qed

section \<open>A restart keeps the books\<close>

text \<open>
  A runtime that imports what another one exported has for every device the exported ledger, up to
  what the release of dead reservations moved, and the registry of devices is the exported one.
\<close>

lemma exported_pair:
  "(x, y) \<in> set (concat (map (\<lambda>(k, a). case f k of None \<Rightarrow> [] | Some v \<Rightarrow> [(g a, v)]) m)) \<longleftrightarrow>
     (\<exists>k a. (k, a) \<in> set m \<and> f k = Some y \<and> g a = x)"
proof (induction m)
  case (Cons e m)
  then show ?case by (cases e; cases "f (fst e)") auto
qed simp

text \<open>An import only succeeds when every device has an identity and every ledger adds up.\<close>

lemma check_each_ok: "check_each key check seen vs = Inr ids \<Longrightarrow> v \<in> set vs \<Longrightarrow> check v = success"
  by (induction vs arbitrary: seen) (auto simp: corrupt_def split: sum.splits if_splits)

lemma import_ledgers_ok: "import_ledgers_check ids es = success \<Longrightarrow> e \<in> set es \<Longrightarrow> ledger_validate (snd e) = success"
  by (induction es) (auto simp: corrupt_def ledger_entry_check_def split: sum.splits if_splits)

lemma import_checked:
  assumes "import_check d s = success"
  shows "a \<in> set (du_accelerators d) \<Longrightarrow> id_valid (ac_id a)" "e \<in> set (du_ledgers d) \<Longrightarrow> ledger_validate (snd e) = success"
  using assms
  by (auto simp: import_check_def import_identity_check_def split: sum.splits if_splits dest!: check_each_ok dest: import_ledgers_ok)

lemma exported_ledger:
  assumes "devices_keyed s" "export_durable_state s = Inr d" "\<And>a. a \<in> set (du_accelerators d) \<Longrightarrow> id_valid (ac_id a)"
  shows "(k, l) \<in> set (du_ledgers d) \<longleftrightarrow> find_accelerator k s \<noteq> None \<and> find_ledger k s = Some l"
    "(k, key) \<in> set (du_accelerator_keys d) \<Longrightarrow> find_accelerator k s \<noteq> None"
    "a \<in> set (du_accelerators d) \<longleftrightarrow> find_accelerator (ac_id a) s = Some a"
proof -
  have k1: "(i, b) \<in> set (fs_accelerators s) \<longleftrightarrow> find_accelerator i s = Some b" for i b
    using assms(1) om_sorted_find_iff by (fastforce simp: devices_keyed_def)
  have d: "du_ledgers d = concat (map (\<lambda>(k, a). case find_ledger k s of None \<Rightarrow> [] | Some l \<Rightarrow> [(ac_id a, l)]) (fs_accelerators s))"
    "du_accelerator_keys d = concat (map (\<lambda>(k, a).
        case om_find k (fs_stable_keys s) of None \<Rightarrow> [] | Some key \<Rightarrow> [(ac_id a, key)]) (fs_accelerators s))"
    "du_accelerators d = om_values (fs_accelerators s)"
    using assms(2) by (auto simp: export_durable_state_def)
  have "ac_id b = i" if "find_accelerator i s = Some b" for i b
    using assms(1) om_find_in_set [OF that] assms(3) [of b] om_find_in_values [OF that] by (auto simp: devices_keyed_def d(3))
  note k = k1 this
  have "(k, l) \<in> set (du_ledgers d) \<longleftrightarrow> (\<exists>i b. (i, b) \<in> set (fs_accelerators s) \<and> find_ledger i s = Some l \<and> ac_id b = k)"
    unfolding d exported_pair ..
  then show "(k, l) \<in> set (du_ledgers d) \<longleftrightarrow> find_accelerator k s \<noteq> None \<and> find_ledger k s = Some l"
    unfolding k(1) using k(2) by auto
  have "\<exists>i b. (i, b) \<in> set (fs_accelerators s) \<and> ac_id b = k" if "(k, key) \<in> set (du_accelerator_keys d)"
    using that unfolding d exported_pair by blast
  then show "find_accelerator k s \<noteq> None" if "(k, key) \<in> set (du_accelerator_keys d)"
    using that unfolding k(1) using k(2) by auto
  have "a \<in> set (du_accelerators d) \<longleftrightarrow> (\<exists>i. (i, a) \<in> set (fs_accelerators s))" by (force simp: d om_values_def)
  then show "a \<in> set (du_accelerators d) \<longleftrightarrow> find_accelerator (ac_id a) s = Some a" unfolding k(1) using k(2) by auto
qed

lemma import_exported:
  assumes "registry_inv s" "export_durable_state s = Inr d" "import_durable_state d n = (t, Inr report)"
  shows "accounting_inv t" "devices_keyed t" "om_find key (fs_key_index t) = Some k \<Longrightarrow> find_accelerator k t \<noteq> None"
    "find_accelerator k t = map_option restored_accelerator (find_accelerator k s)"
    "find_accelerator k s \<noteq> None \<Longrightarrow> \<exists>l l'. find_ledger k s = Some l \<and> find_ledger k t = Some l' \<and> cl_total l' = cl_total l \<and> ledger_closed l'"
proof -
  have keyed: "devices_keyed s" and books: "books_kept s" "devices_booked s" using assms(1) by (simp_all add: registry_inv_def)
  have "import_check d n = success" by (rule import_shape [OF assms(3)]) simp
  note checked = import_checked [OF this]
  note ex = exported_ledger [OF keyed assms(2) checked(1)]
  have ids: "id_valid (ac_id a) \<and> ac_id a = k" if "find_accelerator k s = Some a" for k a
  proof -
    have "a \<in> set (du_accelerators d)" using assms(2) om_find_in_values [OF that] by (auto simp: export_durable_state_def)
    then have "id_valid (ac_id a)" by (rule checked(1))
    then show ?thesis using keyed om_find_in_set [OF that] by (auto simp: devices_keyed_def)
  qed
  have acc: "\<exists>l. find_ledger k s = Some l \<and> ledger_closed l" if known: "find_accelerator k s \<noteq> None" for k
  proof -
    obtain l where l: "find_ledger k s = Some l" using books(2) known ids unfolding devices_booked_def by blast
    then have "ledger_validate l = success" using checked(2) [of "(k, l)"] ex(1) [of k l] known by simp
    then have "\<not> rv_empty (cl_total l)" by (auto simp: ledger_validate_def split: if_splits)
    with l books(1) show ?thesis by (auto simp: ledger_closed_def books_kept_def ledgers_balanced_def)
  qed
  obtain u n1 where u: "t = record_event EX_RevalidationRequired (bump_state_generation u)" "anchored n1 u"
    "fs_accelerators n1 = fs_accelerators (import_structure d n)" "fs_ledgers n1 = fs_ledgers (import_structure d n)"
    "fs_key_index n1 = fs_key_index (import_structure d n)"
    by (rule import_shape [OF assms(3)]) simp
  have t: "fs_accelerators t = fill ac_id restored_accelerator (du_accelerators d)" "fs_key_index t = fill snd fst (du_accelerator_keys d)"
    "ledgers_evolve n1 t" "fs_ledgers n1 = fill fst snd (du_ledgers d)"
    using u ledgers_evolve_cong [of u t n1] by (simp_all add: anchored_def import_structure_def Let_def)
  have id: "ac_id (restored_accelerator a) = ac_id a" for a by (simp add: restored_accelerator_def)
  show accs: "find_accelerator k t = map_option restored_accelerator (find_accelerator k s)" for k
  proof (cases "find_accelerator k s")
    case None
    have "om_find k (fill ac_id restored_accelerator (du_accelerators d)) = None"
    proof (rule ccontr)
      assume "\<not> ?thesis"
      then obtain b where "om_find k (fill ac_id restored_accelerator (du_accelerators d)) = Some b" by blast
      from fill_Some [OF this] show False using ex(3) None by auto
    qed
    then show ?thesis using None by (simp add: t(1))
  next
    case (Some a)
    then have a: "ac_id a = k" using ids by simp
    then have "om_find k (fill ac_id restored_accelerator (du_accelerators d)) \<noteq> None"
      using fill_known [of a "du_accelerators d" ac_id restored_accelerator] ex(3) Some by simp
    then obtain b where "find_accelerator k t = Some b" by (auto simp: t(1))
    then show ?thesis using fill_Some [of k ac_id restored_accelerator "du_accelerators d" b] ex(3) Some by (auto simp: t(1))
  qed
  have led: "find_ledger k n1 = (if find_accelerator k s = None then None else find_ledger k s)" for k
  proof (cases "find_ledger k n1")
    case None
    then show ?thesis using fill_known [of "(k, l)" "du_ledgers d" fst snd for l] ex(1) by (fastforce simp: t(4))
  next
    case (Some l)
    then show ?thesis using fill_Some [of k fst snd "du_ledgers d" l] ex(1) [of k l] by (auto simp: t(4))
  qed
  show closed: "\<exists>l l'. find_ledger k s = Some l \<and> find_ledger k t = Some l' \<and> cl_total l' = cl_total l \<and> ledger_closed l'"
    if known: "find_accelerator k s \<noteq> None" for k
  proof -
    obtain l where l: "find_ledger k s = Some l" "ledger_closed l" using known acc by blast
    then obtain l' where "find_ledger k t = Some l'" "ledger_step l l'"
      using ledgers_evolve_find(1) [OF t(3), of k l] led [of k] known by auto
    then show ?thesis using l ledger_step_closed by (auto simp: ledger_step_def)
  qed
  have "om_sorted (fs_ledgers t)"
    using t(3) fill_sorted [of fst snd "du_ledgers d"] by (simp add: ledgers_evolve_def t(4) om_sorted_def om_keys_def)
  moreover have "ledgers_balanced n1"
    using books(1) by (auto simp: ledgers_balanced_def books_kept_def led split: if_splits)
  ultimately show "accounting_inv t"
    using ledgers_evolve_balanced [OF t(3)] closed accs by (fastforce simp: accounting_inv_def)
  show "devices_keyed t"
    using fill_sorted [of ac_id restored_accelerator "du_accelerators d"] fill_Some [of _ ac_id restored_accelerator "du_accelerators d"] id
    by (fastforce simp: devices_keyed_def t(1) om_sorted_find_iff [symmetric])
  show "find_accelerator k t \<noteq> None" if "om_find key (fs_key_index t) = Some k"
    using that fill_Some [of key snd fst "du_accelerator_keys d" k] ex(2) accs by (fastforce simp: t(2))
qed

end
