(* ===== verification/APF_Scenario.thy ===== *)
theory APF_Scenario
  imports APF_Example APF_Synthetic APF_Counters APF_Durable
begin

text \<open>
  Concrete scenarios for reconciliation, for the synthetic backend and for stored states, evaluated
  step by step.
\<close>

section \<open>Outcomes that are not known\<close>

text \<open>A creation whose backend call failed without an answer.\<close>

definition demo_unknown :: fabric_state where
  "demo_unknown = fst (apply_mutation_result_locked 13 (Inl E_BackendFailure) None 2000 demo_dispatched)"

section \<open>A synthetic device\<close>

definition demo_profile_spec :: synthetic_profile_spec where
  "demo_profile_spec = profile_spec_default\<lparr>sp_name := ''q'', sp_vendor_native := ''q1'', sp_resources := demo_slice\<rparr>"

definition demo_device_spec :: synthetic_device_spec where
  "demo_device_spec = device_spec_default\<lparr>sd_key := ''dev0'', sd_physical_totals := demo_totals, sd_profiles := [demo_profile_spec]\<rparr>"

definition demo_device :: synthetic_device where
  "demo_device =
     \<lparr>dv_spec = demo_device_spec, dv_boot = 7, dv_partitions = [], dv_next_partition_index = 1, dv_applied_tokens = [],
      dv_mutation_count = 0, dv_present = True\<rparr>"

definition demo_backend :: synthetic_backend where
  "demo_backend = \<lparr>sy_devices = [(''dev0'', demo_device)], sy_faults = no_faults\<rparr>"

text \<open>The request the runtime sends for its reservation, and the same again after a lost answer.\<close>

definition demo_creation :: mutation_request where
  "demo_creation =
     \<lparr>mr_stable_key = ''dev0'', mr_expected_boot = 7, mr_expected_accelerator_generation = 1,
      mr_expected_capability_generation = 1, mr_coordinator_epoch = 1, mr_worker = 0, mr_worker_boot = 0,
      mr_attempt = 13, mr_idempotency_token = 13, mr_destructive = False, mr_full_device_reconfiguration = False,
      mr_desired = [\<lparr>ns_vendor_native_profile = ''q1'', ns_profile = 5, ns_resources = demo_slice,
        ns_existing_native_id = [], ns_logical_partition = 12\<rparr>],
      mr_remove_native_ids = []\<rparr>"

lemma demo_creation_sent: "snd (execute_begin False 11 demo_reserved) = Inr demo_creation"
  by code_simp

lemma demo_backend_fits: "backend_fits (\<lambda>_. 3) demo_backend"
proof -
  have "rv_val demo_totals i \<le> dim_cap i" if "i < 8" for i
  proof -
    have "i \<in> {0, 1, 2, 3, 4, 5, 6, 7}" using that by auto
    then show ?thesis by (auto simp: rv_val_def dim_cap_def demo_totals_def demo_vector_def is_share_index_def)
  qed
  then have "device_fits 3 demo_device"
    by (simp add: device_fits_def demo_device_def demo_device_spec_def demo_profile_spec_def dims_uniform_def rv_wf_def
        demo_slice_def demo_vector_def held_total_def device_spec_default_def profile_spec_default_def)
  then show ?thesis by (auto simp: backend_fits_def demo_backend_def om_find_def split: if_splits)
qed

lemma demo_totals_ok: "rv_mask_ok demo_totals"
proof -
  have "validate_dimensions demo_totals = success" by code_simp
  then show ?thesis by (simp add: validate_dimensions_iff)
qed

lemma demo_moves_fit:
  "list_all (request_fits (cl_total demo_ledger)) [(Bucket_Free, Bucket_Reserved, demo_slice), (Bucket_Reserved, Bucket_Active, demo_totals)]"
  using demo_slice_ok demo_totals_ok
  by (simp add: request_fits_def demo_ledger_code dims_within_def) (simp add: demo_slice_def demo_totals_def demo_vector_def)

lemma demo_backend_ok: "synthetic_backend_ok demo_backend"
  by (simp add: synthetic_backend_ok_def demo_backend_def synthetic_device_ok_def demo_device_def demo_device_spec_def
      device_spec_default_def om_sorted_def om_values_def text_ok_def)

lemma encodes_u64: "encodes (w_u64 v) True (le_bytes 8 0 v)"
  by (simp add: w_u64_def encodes_le)

lemma encodes_u32: "encodes (w_u32 v) True (le_bytes 4 0 v)"
  by (simp add: w_u32_def encodes_le)

lemma encodes_fits:
  assumes "encodes f P bs" "P" "length bs \<le> n"
  shows "f (writer_start (Some n)) = \<lparr>bw_bound = n, bw_buffer = bs, bw_error = None\<rparr>"
  using assms unfolding encodes_def by (auto simp: writer_start_def bw_wf_def bw_ok_def)

lemma demo_backend_exports: "\<exists>bytes. export_state demo_backend = Inr bytes"
proof -
  have "encodes (w_text ''dev0'' 4096) True (le_bytes 4 0 (word_of_nat (length ''dev0'') :: u32) @ map byte_of ''dev0'')"
    using encodes_text [of "''dev0''" 4096] by simp
  note device = encodes_Cons [OF this encodes_Cons [OF encodes_u64 encodes_Cons [OF encodes_u8 encodes_Cons [OF encodes_u64
    encodes_Cons [OF encodes_u32 encodes_Nil]]]]]
  note all = encodes_Cons [OF encodes_u32 [of synthetic_format_version] encodes_Cons [OF encodes_u32 [of 1] device]]
  have "w_seq [w_u32 synthetic_format_version, w_list encode_synthetic_device (om_values (sy_devices demo_backend))] w =
      w_seq [w_u32 synthetic_format_version, w_u32 1, w_text ''dev0'' 4096, w_u64 7, w_u8 1, w_u64 1, w_u32 0] w" for w
    by (simp add: demo_backend_def om_values_def w_list_def encode_synthetic_device_def demo_device_def demo_device_spec_def
        device_spec_default_def w_boolean_def)
  then show ?thesis
    using encodes_fits [OF all [of 7 1 1 0] _, of "max_frame_bytes default_limits"]
    by (simp add: export_state_def Let_def default_limits_def del: w_seq.simps)
qed

section \<open>A stored state\<close>

text \<open>The number of bytes a record takes, for writers that succeed whatever has been written before.\<close>

definition takes :: "(byte_writer \<Rightarrow> byte_writer) \<Rightarrow> nat \<Rightarrow> bool" where
  "takes f n \<longleftrightarrow> (\<exists>bs. length bs = n \<and> encodes f True bs)"

lemma takes_rules:
  "takes (w_seq []) 0" "takes f m \<Longrightarrow> takes (w_seq fs) n \<Longrightarrow> takes (w_seq (f # fs)) (m + n)"
  "takes (w_u32 a) 4" "takes (w_u64 b) 8" "takes (w_i64 c) 8" "takes (w_boolean e) 1"
  "text_ok m v \<Longrightarrow> takes (w_text v m) (4 + length v)" "takes (w_list enc []) 4"
proof -
  show "takes (w_seq []) 0" using encodes_Nil unfolding takes_def by (intro exI [of _ "[]"]) simp
  show "takes (w_seq (f # fs)) (m + n)" if "takes f m" "takes (w_seq fs) n"
  proof -
    obtain as bs where "length as = m" "encodes f True as" "length bs = n" "encodes (w_seq fs) True bs"
      using \<open>takes f m\<close> \<open>takes (w_seq fs) n\<close> unfolding takes_def by blast
    then show ?thesis using encodes_Cons [of f True as fs True bs] unfolding takes_def by (intro exI [of _ "as @ bs"]) simp
  qed
  show "takes (w_u32 a) 4" using encodes_u32 unfolding takes_def by (intro exI [of _ "le_bytes 4 0 a"]) simp
  show u64: "takes (w_u64 b) 8" for b using encodes_u64 unfolding takes_def by (intro exI [of _ "le_bytes 8 0 b"]) simp
  show "takes (w_i64 c) 8" unfolding w_i64_def by (rule u64)
  show "takes (w_boolean e) 1" using encodes_u8 unfolding takes_def w_boolean_def by (intro exI [of _ "[if e then 1 else 0]"]) simp
  show "takes (w_text v m) (4 + length v)" if "text_ok m v"
    using that encodes_text [of v m] unfolding takes_def
    by (intro exI [of _ "text_bytes v"]) (simp add: text_ok_def text_bytes_def)
  show "takes (w_list enc []) 4"
    using encodes_list [of "[]" enc "\<lambda>_. True" "\<lambda>_. []"] unfolding takes_def
    by (intro exI [of _ "le_bytes 4 0 (0 :: u32)"]) simp
qed

lemma takes_buffer:
  assumes "takes f n" "n \<le> b"
  shows "bw_ok (f (writer_start (Some b)))" "length (bw_buffer (f (writer_start (Some b)))) = n"
  using assms encodes_fits [of f True _ b] by (auto simp: takes_def bw_ok_def)

definition demo_stored :: durable_file where
  "demo_stored =
     \<lparr>du_format_version = 1, du_instance_id = ''demo'', du_state_generation = 3, du_coordinator_epoch = 2,
      du_policy_generation = 1, du_next_identity = 7, du_saved_at_ms = 5000, du_policy = make_default_policy 1,
      du_profiles = [], du_accelerators = [], du_accelerator_keys = [], du_ledgers = [], du_partitions = [],
      du_reservations = [], du_attempts = [], du_assignments = [], du_workers = []\<rparr>"

lemma demo_policy_ok: "policy_ok (make_default_policy 1)"
  by (simp add: policy_ok_def make_default_policy_def default_weights_def weights_ok_def i64_ok_def text_ok_def
      isolation_requirement_ok_def isolation_ok_def)

lemma default_limits_fit: "limits_fit default_limits"
  by (simp add: limits_fit_def default_limits_def)

lemma demo_stored_ok: "durable_ok default_limits demo_stored"
  by (simp add: durable_ok_def demo_stored_def demo_policy_ok default_limits_def text_ok_def)

lemma demo_stored_valid: "validate_decoded (without_text demo_stored) default_limits = success"
proof -
  have "policy_validate (make_default_policy 1) = success" by code_simp
  then show ?thesis by (simp add: validate_decoded_def without_text_def demo_stored_def)
qed

lemma takes_eq: "takes f m \<Longrightarrow> m = n \<Longrightarrow> takes f n"
  by simp

lemma takes_weights: "takes (encode_weights w) 88"
  unfolding encode_weights_def by (rule takes_eq, (rule takes_rules)+, simp)

lemma takes_requirement: "takes (encode_isolation_requirement r) 20"
  unfolding encode_isolation_requirement_def encode_isolation_def by (rule takes_eq, (rule takes_rules)+, simp)

lemma takes_policy: "takes (encode_policy (make_default_policy 1)) 163"
  unfolding encode_policy_def make_default_policy_def planning_policy.select_convs
  by (rule takes_eq, (rule takes_rules takes_weights takes_requirement | simp add: text_ok_def)+)

lemma demo_stored_takes: "takes (encode_durable demo_stored default_limits) 251"
  unfolding encode_durable_def demo_stored_def durable.select_convs
  by (rule takes_eq, (rule takes_rules takes_policy | simp add: text_ok_def default_limits_def)+)

lemma demo_stored_written: "\<exists>bytes. store_encode demo_stored default_limits = Inr bytes"
proof -
  let ?w = "encode_durable demo_stored default_limits (writer_start (Some (max_frame_bytes default_limits)))"
  have "251 \<le> max_frame_bytes default_limits" by (simp add: default_limits_def)
  from takes_buffer [OF demo_stored_takes this] have "bw_error ?w = None" "length (bw_buffer ?w) \<le> max_payload_bytes"
    by (simp_all add: bw_ok_def)
  then show ?thesis by (simp add: store_encode_def demo_stored_valid Let_def)
qed

lemma demo_stored_read: "\<exists>bytes. store_decode bytes default_limits = Inr demo_stored"
  using demo_stored_written store_roundtrip [OF _ demo_stored_ok default_limits_fit] by blast

end
