(* ===== verification/Spec2Isabelle.thy ===== *)
theory Spec2Isabelle
  imports APF_Scenario
begin

text \<open>
  A verification development for the Accelerator Partition Fabric, a C++ runtime that divides
  physical accelerators into partitions, reserves their capacity, executes partition creation and
  reconfiguration through a backend, and admits workloads to the partitions it has verified.

  \<^bold>\<open>The program.\<close> \<^verbatim>\<open>src/src/fabric.cpp\<close> holds the runtime: a registry of devices, one
  capacity ledger per device, partitions, plans, reservations, attempts, assignments and workers,
  behind one mutex. Every public operation is a handler on that registry. A request becomes a plan;
  a plan is reserved (capacity moves from the free to the reserved bucket and reserved partitions
  appear); a reservation is executed (an attempt is registered, the backend is called without the
  lock, and the result is applied after an observed layout has been compared with what was asked
  for); committed partitions receive assignments and are drained before they are destroyed.
  Generations, boot identities and coordinator epochs fence whatever is out of date.

  \<^bold>\<open>The theories.\<close>

  \<^item> \<open>APF_Prelude\<close>: error codes, results, machine integers, the ordered map, loops over maps, and the
    locales for keyed stores, inductive invariants and monotone readings.
  \<^item> \<open>APF_Ids\<close> (\<^verbatim>\<open>id.hpp\<close>): identities, generations, boot identities, the allocator, their text forms.
  \<^item> \<open>APF_Resource\<close> (\<^verbatim>\<open>resource.cpp\<close>): vectors of eight optional 64-bit quantities with checked arithmetic.
  \<^item> \<open>APF_Accounting\<close> (\<^verbatim>\<open>accounting.cpp\<close>): the ledger of six buckets and its closure.
  \<^item> \<open>APF_Lifecycle\<close> (\<^verbatim>\<open>lifecycle.cpp\<close>): partition states and the table of transitions.
  \<^item> \<open>APF_Text\<close> (\<^verbatim>\<open>codec.cpp\<close>, \<^verbatim>\<open>limits.cpp\<close>): UTF-8 validation, identifiers, digests.
  \<^item> \<open>APF_Model\<close>, \<open>APF_Partition\<close> (the headers of the value types): records, enumerations, validators.
  \<^item> \<open>APF_State\<close> (\<^verbatim>\<open>fabric_internal.hpp\<close>, \<^verbatim>\<open>fabric.cpp\<close>): the registry \<open>fabric_state\<close>, the capacity effect
    of transitions, plan binding, and the two relations every handler is proved to respect:
    \<open>ledgers_evolve\<close> (no ledger appears, disappears or loses its balance) and \<open>authority_evolves\<close>
    (generations, epochs and identities only move forward, terminal records stay terminal).
  \<^item> \<open>APF_Authority\<close> (\<^verbatim>\<open>fabric.cpp\<close>): release, fencing, workers, epochs, policy, closing.
  \<^item> \<open>APF_Reserve\<close> (\<^verbatim>\<open>fabric.cpp\<close>): reservation, also for a worker; \<open>ledgers_grow\<close>, which holds even when
    the planned device has no ledger yet.
  \<^item> \<open>APF_Mutation\<close> (\<^verbatim>\<open>fabric.cpp\<close>): attempts, verification of observed layouts, commit, execute.
  \<^item> \<open>APF_Admission\<close> (\<^verbatim>\<open>admission.cpp\<close>, \<^verbatim>\<open>fabric.cpp\<close>): admission, assignments, drains.
  \<^item> \<open>APF_Codec\<close>, \<open>APF_Records\<close> (\<^verbatim>\<open>codec.hpp\<close>, \<^verbatim>\<open>codec.cpp\<close>): the byte writer and reader and the
    encoder and decoder of each record, with the locales \<open>wire_codec\<close> (round trip, bounds, sticky
    errors) and \<open>canonical_codec\<close> (whatever is accepted is the encoding of what is returned).
  \<^item> \<open>APF_Registry\<close> (\<^verbatim>\<open>fabric.cpp\<close>, \<^verbatim>\<open>backend.cpp\<close>, \<^verbatim>\<open>capability.cpp\<close>): registration of profiles and
    devices, capability publication, discovery, device resets, and the invariant of the registry.
  \<^item> \<open>APF_Destruction\<close> (\<^verbatim>\<open>fabric.cpp\<close>): destruction of a partition and destructive reconfiguration.
  \<^item> \<open>APF_Planner\<close>, \<open>APF_Choice\<close> (\<^verbatim>\<open>planner.cpp\<close>, \<^verbatim>\<open>reconfiguration.cpp\<close>, \<^verbatim>\<open>fabric.cpp\<close>): fragmentation
    analysis, evaluation and scoring of the devices, the plans and the planning calls; what the planner
    guarantees of the device it chooses. Scores are exact integers, with a bound for the default weights.
  \<^item> \<open>APF_Reconcile\<close> (\<^verbatim>\<open>fabric.cpp\<close>, \<^verbatim>\<open>reconciliation.hpp\<close>): the comparison of the registry with an observed
    layout; what it decides, what it may change, and that every observed partition is recorded.
  \<^item> \<open>APF_Synthetic\<close> (\<^verbatim>\<open>backend_synthetic.cpp\<close>): the deterministic backend, its capacity invariant, replay of
    idempotency tokens, its exported state, and that what it creates passes the verification of the runtime.
  \<^item> \<open>APF_Counters\<close>: the ledger as a refinement of natural-number counters.
  \<^item> \<open>APF_System\<close> (\<^verbatim>\<open>fabric.cpp\<close>): the constructor, one step per critical section of a call, and what holds in every
    reachable state. A step is one critical section; reports that are refused are steps, the import of
    a durable state is not.
  \<^item> \<open>APF_Durable\<close> (\<^verbatim>\<open>persistence.cpp\<close>, \<^verbatim>\<open>fabric.cpp\<close>): the durable state, its container and the import after
    a restart; round trip, detection of damaged files, and that a restart keeps the books but no authority.
  \<^item> \<open>APF_Liveness\<close>: the planner composed with the reservation.
  \<^item> \<open>APF_Scenario\<close>: concrete runs of reconciliation and of the synthetic backend, and a stored state.
  \<^item> \<open>APF_Example\<close>: a concrete registry on which the operations are evaluated; the witnesses use it.

  \<^bold>\<open>Conventions.\<close> A handler is a function from the state to the new state and a result; an error is
  its \<^verbatim>\<open>ErrorCode\<close>, with the diagnostic text left out. Identities, generations, counters and
  quantities keep their 64-bit width. \<^verbatim>\<open>std::map\<close> is an association list sorted by key, and a loop
  over it visits the keys in order. The clock reading of an operation is the field \<open>fs_now\<close>. Calls to
  the backend are arguments of the model, so the theorems hold for every backend behaviour,
  including lost, repeated and contradictory answers; what other threads do while a backend call
  runs without the lock, or between the critical sections of \<open>reserve_for_worker\<close>, is a further
  argument. All recursions are structural or over a
  finite list of keys, so every modelled operation is total and no fuel is needed.

  \<^bold>\<open>What the properties show.\<close> Physical mutations take effect at most once and are committed only on
  observed evidence; an unknown outcome keeps its capacity; execution and admission are authorised
  against the live generations; reservation and release move exactly the stated amounts; fencing,
  epoch changes and closing leave nothing in flight; the optimised routines (transition table,
  greedy layout match, UTF-8 scanner, ledger closure loop) agree with their declarative
  specifications; text forms round trip; records round trip through the wire format, decoders stay within their input; in every reachable state of
  the runtime, refused reports included and imports excluded, each ledger adds up, identities are fresh and
  the counters never move back; a restart from durable state keeps the ledgers and drops all authority;
  the planner picks the best eligible device, and what it calls feasible now can be reserved; reconciliation decides every
  unknown outcome, grants no authority on its own and records what it observes.

  \<^bold>\<open>Not modelled.\<close> Diagnostic text and explanations; the steps and candidate lists of a stored plan, which no decision reads
back (the planner returns them); sockets, threads, files and processes (what other threads
do between the critical sections of a call is an argument or a step, the contents of a file an argument); the vendor library behind the NVML
backend; the protocol messages and the coordinator.
\<close>

section \<open>Further facts\<close>

text \<open>
  A reservation for a worker is only granted when, at the time of the check, the worker was registered with exactly that boot incarnation, was not fenced and presented the current coordinator epoch; the stored reservation is the one reserve granted afterwards, bound to that incarnation and epoch. What other threads do between the check, the reservation and the binding is arbitrary, so that the worker or the epoch may no longer be current when the call returns.
\<close>

theorem worker_reservation_checked:
  assumes "reserve_for_worker pid worker boot epoch before between s = (t, Inr r)"
  shows "\<exists>w q s1. find_worker worker s = Some w \<and> wk_boot w = boot \<and> \<not> wk_fenced w \<and> epoch = fs_coordinator_epoch s \<and>
    reserve pid (before s) = (s1, Inr q) \<and> find_reservation (rs_id q) t = Some r \<and>
    rs_worker r = worker \<and> rs_worker_boot r = boot \<and> rs_coordinator_epoch r = epoch"
  using assms by (rule reserve_worker_checked)

text \<open>
  Fencing a worker incarnation leaves no attempt of that incarnation in flight: each of its unsettled attempts becomes an explicit unknown outcome, and the worker is marked fenced and not alive.
\<close>

theorem fence_worker_settles:
  assumes "find_worker worker s = Some w" "wk_boot w = boot"
  shows "attempt_classified (\<lambda>a. at_worker a = worker \<and> at_worker_boot a = boot)
           (fst (fence_worker_locked worker boot now s)) i \<and>
         find_worker worker (fst (fence_worker_locked worker boot now s)) =
           Some (w\<lparr>wk_fenced := True, wk_alive := False, wk_fenced_at_ms := now\<rparr>)"
  using fence_worker_classifies [OF assms] fence_worker_marks [OF assms] by blast

text \<open>
  In a balanced ledger a move between two different buckets succeeds whenever the source bucket covers the amount; it takes exactly the amount from the source and adds it to the destination in every dimension, changes no other bucket and no total, and keeps the ledger balanced.
\<close>

theorem capacity_move_exact:
  assumes "ledger_balanced l" "bucket_index b < 6" "bucket_index c < 6" "b \<noteq> c"
    "is_subset_of amount (cl_buckets l ! bucket_index b)" "rv_mask_ok amount"
  shows "\<exists>l'. ledger_move b c amount l = (l', success) \<and> ledger_balanced l' \<and> cl_total l' = cl_total l \<and>
    (\<forall>i<8. \<forall>k<6. rv_val (cl_buckets l' ! k) i =
       (if k = bucket_index b then rv_val (cl_buckets l ! k) i - rv_val amount i
        else if k = bucket_index c then rv_val (cl_buckets l ! k) i + rv_val amount i
        else rv_val (cl_buckets l ! k) i))"
  using assms by (rule ledger_move_ok)

text \<open>
  Initialising a ledger with a well-formed, valid and non-empty vector of totals succeeds, yields a closed ledger with those totals, and puts the whole capacity into the free bucket.
\<close>

theorem totals_initialise_closed:
  assumes "rv_wf totals" "validate_dimensions totals = success" "\<not> rv_empty totals"
  shows "\<exists>l'. initialize_totals totals l = (l', success) \<and> ledger_closed l' \<and> cl_total l' = totals \<and>
              rv_eq (ledger_bucket l' Bucket_Free) totals"
  using assms by (rule APF_Accounting.initialize_totals_closed)

text \<open>
  The bit-table check of a lifecycle transition accepts exactly the pairs of the declared list between different states, and staying in a state exactly when that state is not transient.
\<close>

theorem transition_table_exact:
  "validate_transition b c = success \<longleftrightarrow>
     b \<noteq> PS_Count \<and> c \<noteq> PS_Count \<and>
     (if b = c then \<not> is_transient_state b else (b, c) \<in> set allowed_transitions)"
  by (rule APF_Lifecycle.validate_transition_iff)

text \<open>
  No sequence of legal lifecycle steps leaves the retired state.
\<close>

theorem retired_is_terminal:
  assumes "lifecycle_step\<^sup>*\<^sup>* PS_Retired t"
  shows "t = PS_Retired"
  using assms by (rule retired_terminal)

text \<open>
  A refused admission changes nothing but, at most, the identity allocator, which only moves forward.
\<close>

theorem admission_refusal_harmless:
  assumes "admit q s = (s', d)" "ad_outcome d \<noteq> Admitted"
  shows "\<exists>al. s' = s\<lparr>fs_ids := al\<rparr> \<and> ida_next (fs_ids s) \<le> ida_next al"
  using assms by (rule admit_refused)

text \<open>
  An exclusive admission (by request or by policy) finds no assignment on its partition and leaves exactly one.
\<close>

theorem exclusive_admission_alone:
  assumes "admit q s = (s', d)" "ad_outcome d = Admitted"
    and "wr_exclusive q \<or> pp_exclusive_by_default (fs_policy s)"
    and "om_sorted (fs_assignments s)" "om_find (ida_next (fs_ids s)) (fs_assignments s) = None"
  shows "assignments_on (ad_partition d) s = 0 \<and> assignments_on (ad_partition d) s' = 1"
  using assms by (rule admit_exclusive)

text \<open>
  Superseding a partition generation moves it strictly forward by one, fences the old generation, and keeps every fenced generation below the current one, as long as the counter is not exhausted.
\<close>

theorem generation_superseded:
  assumes "find_partition i s = Some r" "generations_fenced r" "pr_generation r \<noteq> UINT64_MAX"
  shows "\<exists>r'. find_partition i (supersede_partition_generation i s) = Some r' \<and> generations_fenced r' \<and>
           supersedes r' (pr_generation r) \<and> unat (pr_generation r') = Suc (unat (pr_generation r))"
  using supersede_fences [OF assms(2,3)] assms(1) by (simp add: supersede_find)

text \<open>
  Printing a boot identity as sixteen hexadecimal digits and parsing the text gives back the identity.
\<close>

theorem boot_identity_roundtrip: "parse_hex (boot_hex v) = Inr v"
  by (rule parse_hex_boot_hex)

text \<open>
  Printing an identity in decimal and parsing the text gives back the identity, for every 64-bit value.
\<close>

theorem identity_text_roundtrip: "id_parse (id_str v) = Inr v"
  by (rule id_parse_id_str)

text \<open>
  After a policy change no plan made under an older policy generation is usable: each is terminal or bound to the new generation, and the policy generation strictly increases.
\<close>

theorem policy_change_invalidates_plans:
  assumes "set_policy p s = (s', success)"
  shows "fs_policy_generation s < fs_policy_generation s' \<and>
    (\<forall>i q. find_plan i s' = Some q \<longrightarrow>
       pl_terminal q \<or> pb_policy_generation (pl_binding q) = fs_policy_generation s')"
  using assms
  by (auto simp: set_policy_def Let_def apf_lookup gen_next_greater split: sum.splits)

text \<open>
  In every reachable state the identity the allocator would hand out next is not in use by any partition, reservation or attempt.
\<close>

theorem reachable_identity_fresh:
  assumes "reachable s" "allocate (fs_ids s) = (al, Inr i)"
  shows "find_partition i s = None \<and> find_reservation i s = None \<and> find_attempt i s = None"
  using reachable_allocate [OF assms] by simp

text \<open>
  A ledger that a decoder accepts from arbitrary bytes is closed: its buckets add up to its totals in every dimension and it passes the accounting check.
\<close>

theorem ledger_decoded_closed:
  assumes "run_state decode_ledger (reader_start bs) = (l, r)" "br_ok r"
  shows "ledger_closed l \<and> ledger_validate l = success"
proof -
  have "ledger_ok l"
    using ledger_codec.accepts assms by (simp add: canon_def accepts_only_def reader_start_def)
  then show ?thesis using ledger_ok_closed ledger_closed_validate by simp
qed

text \<open>
  Decoding a mutation result from arbitrary bytes never moves the read position past the end of the input.
\<close>

theorem result_decoder_in_bounds:
  "br_offset (snd (run_state decode_mutation_result (reader_start bs))) \<le> length bs"
  using mutation_result_codec.within_bounds [OF prod.collapse [symmetric]] by simp

text \<open>
  A plan that is not feasible carries no device, no layout, no partitions and no steps; no device was eligible, and when devices were evaluated its outcome is that of one of them and the most specific by the severity order.
\<close>

theorem rejected_plan_unusable:
  assumes "reachable s" "build_plan request now_ms s = (p, steps, cs)" "\<not> plan_feasible p"
  shows "steps = [] \<and> pl_planned_partitions p = [] \<and> pb_accelerator (pl_binding p) = 0 \<and> pb_layout (pl_binding p) = [] \<and>
    (\<forall>c\<in>set cs. \<not> ce_eligible c) \<and>
    (cs \<noteq> [] \<longrightarrow> pl_outcome p \<in> ce_outcome ` set cs \<and>
       (\<forall>c\<in>set cs. failure_severity (pl_outcome p) \<le> failure_severity (ce_outcome c)))"
  using rejected_plan_shape [OF _ assms(2,3)] fabric.invar_reachable [OF assms(1)] by (simp add: registry_inv_def)

text \<open>
  For a profile that needs some amount above zero, the computed number of instances is the greatest number below 2^32 whose total demand is covered by the pool in every dimension. A dimension the profile names with the value zero demands nothing here, even if the pool does not have it.
\<close>

theorem instances_greatest:
  assumes "\<exists>i<8. rv_val per i > 0" "n < 2 ^ 32"
  shows "n \<le> unat (instances_fitting pool per) \<longleftrightarrow> (\<forall>i<8. n * rv_val per i \<le> rv_val pool i)"
  by (rule instances_fitting_iff [OF assms(2,1)])

text \<open>
  With the default planning weights every partial sum of the score of a candidate stays within the 64-bit signed range, so that the score is computed without overflow.
\<close>

theorem default_scores_in_range:
  assumes "pp_weights (fs_policy s) = default_weights"
  shows "\<bar>sum_list (take n (map st_contribution (map score_term (score_inputs s request profile acc report outcome))))\<bar> < 2 ^ 63"
  by (rule default_score_range [OF assms])

text \<open>
  The registry of every reachable state is well formed: each device record carries the identity it is stored under or none at all, each ledger has six buckets of eight entries over the dimensions of its total, each stable key names an identity the allocator has passed and no two keys the same one, and every partition, reservation and attempt has an identity the allocator has passed.
\<close>

theorem reachable_registry_typed:
  assumes "reachable s"
  shows "(\<forall>k a. find_accelerator k s = Some a \<longrightarrow> ac_id a = k \<or> \<not> id_valid (ac_id a)) \<and>
    (\<forall>k l. find_ledger k s = Some l \<longrightarrow> length (cl_buckets l) = 6 \<and>
       (\<forall>v\<in>set (cl_buckets l). length (rv_values v) = 8 \<and> rv_mask v = rv_mask (cl_total l))) \<and>
    (\<forall>key k. om_find key (fs_key_index s) = Some k \<longrightarrow> k < ida_next (fs_ids s)) \<and>
    (\<forall>key key' k. om_find key (fs_key_index s) = Some k \<longrightarrow> om_find key' (fs_key_index s) = Some k \<longrightarrow> key = key') \<and>
    (\<forall>k. find_partition k s \<noteq> None \<or> find_reservation k s \<noteq> None \<or> find_attempt k s \<noteq> None \<longrightarrow> k < ida_next (fs_ids s))"
proof -
  have inv: "registry_inv s" using fabric.invar_reachable [OF assms] .
  have "ac_id a = k \<or> \<not> id_valid (ac_id a)" if "find_accelerator k s = Some a" for k a
    using reachable_device [OF assms that] by blast
  moreover have "length (cl_buckets l) = 6 \<and>
      (\<forall>v\<in>set (cl_buckets l). length (rv_values v) = 8 \<and> rv_mask v = rv_mask (cl_total l))" if "find_ledger k s = Some l" for k l
    using reachable_ledger(1) [OF assms that] by (simp add: ledger_balanced_def ledger_wf_def rv_wf_def)
  moreover have "k < ida_next (fs_ids s)"
    if "find_partition k s \<noteq> None \<or> find_reservation k s \<noteq> None \<or> find_attempt k s \<noteq> None" for k
  proof -
    have "k \<in> used_ids s" using that by (auto simp: used_ids_def om_find_eq_None)
    then show ?thesis using inv by (simp add: registry_inv_def ids_fresh_def)
  qed
  moreover have "keys_allocated s" using inv by (simp add: registry_inv_def)
  ultimately show ?thesis unfolding keys_allocated_def by blast
qed

section \<open>The properties\<close>

text \<open>
  C1. However often a physical mutation result is delivered for an attempt, only the first delivery changes the registry: applying any further result, with any layout and at any time, leaves the state exactly as the first one left it.
\<close>

theorem mutation_applied_once:
  "fst (apply_mutation_result_locked i m' observed' t' (fst (apply_mutation_result_locked i m observed t s))) =
     fst (apply_mutation_result_locked i m observed t s)"
  by (rule apply_mutation_twice)

text \<open>
  C2. A mutation is only reported as committed when the attempt had already succeeded, or when the backend accepted the request and an observed layout shows the effect: for a creation the device is present and contains the native partitions, for a reconfiguration the layout is a permutation of native partitions realising the plan, for a destruction no destroyed native partition is left.
\<close>

theorem commit_needs_evidence:
  assumes "mo_committed (snd (apply_mutation_result_locked i m observed t s))"
  shows "\<exists>a r. find_attempt i s = Some a \<and> find_reservation (at_reservation a) s = Some r \<and>
    (at_state a = AT_Succeeded \<or>
     (\<exists>res layout. m = Inr res \<and> observed = Some layout \<and> physically_evident s a r res layout))"
  using assms by (rule commit_evidence)

theorem commit_needs_evidence_witness:
  "\<exists>a r. find_attempt 13 demo_dispatched = Some a \<and> find_reservation (at_reservation a) demo_dispatched = Some r \<and>
    (at_state a = AT_Succeeded \<or>
     (\<exists>res layout. (Inr demo_accepted :: mutation_result result) = Inr res \<and> Some demo_layout = Some layout \<and>
        physically_evident demo_dispatched a r res layout))"
proof -
  have "mo_committed (snd (apply_mutation_result_locked 13 (Inr demo_accepted) (Some demo_layout) 2000 demo_dispatched))"
    by code_simp
  then show ?thesis by (rule commit_needs_evidence)
qed

text \<open>
  C3. When the backend call of a dispatched attempt fails, so that its effect is unknown, the attempt is classified as outcome unknown, its reservation is no longer active, nothing is committed, and no ledger gives any capacity back.
\<close>

theorem unknown_outcome_keeps_capacity:
  assumes "find_attempt i s = Some a" "find_reservation (at_reservation a) s = Some r"
    "find_accelerator (at_accelerator a) s = Some acc" "\<not> attempt_settled (at_state a)" "at_state a \<noteq> AT_OutcomeUnknown"
    "apply_mutation_result_locked i (Inl e) observed t s = (s', out)"
  shows "mo_outcome_unknown out \<and> \<not> mo_committed out \<and> (\<forall>k. find_ledger k s' = find_ledger k s) \<and>
    (\<exists>a'. find_attempt i s' = Some a' \<and> at_state a' = AT_OutcomeUnknown) \<and>
    (\<exists>r'. find_reservation (at_reservation a) s' = Some r' \<and> reservation_is_terminal (rs_lifecycle r'))"
  using assms by (rule lost_call_outcome)

theorem unknown_outcome_keeps_capacity_witness:
  "\<exists>a s' out. find_attempt 13 demo_dispatched = Some a \<and>
     apply_mutation_result_locked 13 (Inl E_BackendFailure) None 2000 demo_dispatched = (s', out) \<and>
     mo_outcome_unknown out \<and> \<not> mo_committed out \<and> (\<forall>k. find_ledger k s' = find_ledger k demo_dispatched) \<and>
     (\<exists>a'. find_attempt 13 s' = Some a' \<and> at_state a' = AT_OutcomeUnknown) \<and>
     (\<exists>r'. find_reservation (at_reservation a) s' = Some r' \<and> reservation_is_terminal (rs_lifecycle r'))"
proof -
  have "case find_attempt 13 demo_dispatched of None \<Rightarrow> False
        | Some a \<Rightarrow> \<not> attempt_settled (at_state a) \<and> at_state a \<noteq> AT_OutcomeUnknown \<and>
            (case find_reservation (at_reservation a) demo_dispatched of None \<Rightarrow> False | Some _ \<Rightarrow> True) \<and>
            (case find_accelerator (at_accelerator a) demo_dispatched of None \<Rightarrow> False | Some _ \<Rightarrow> True)"
    by code_simp
  then obtain a r acc where h: "find_attempt 13 demo_dispatched = Some a"
    "find_reservation (at_reservation a) demo_dispatched = Some r"
    "find_accelerator (at_accelerator a) demo_dispatched = Some acc"
    "\<not> attempt_settled (at_state a)" "at_state a \<noteq> AT_OutcomeUnknown"
    by (auto split: option.splits)
  obtain s' out where o: "apply_mutation_result_locked 13 (Inl E_BackendFailure) None 2000 demo_dispatched = (s', out)"
    by force
  from unknown_outcome_keeps_capacity [OF h o] h(1) o show ?thesis by blast
qed

text \<open>
  C4. A successful reconciliation of a device that is present settles every attempt of that device whose outcome was unknown, exactly once and with the time of the reconciliation, and leaves every other attempt as it was.
\<close>

theorem unknown_outcome_decided:
  assumes "reconcile acc observed s = (t, Inr report)" "bl_device_present observed"
  shows "find_attempt j t = map_option (\<lambda>a.
      if at_accelerator a = acc \<and> at_state a = AT_OutcomeUnknown
      then a\<lparr>at_state := AT_Reconciled, at_settled_at_ms := fs_now s\<rparr> else a) (find_attempt j s)"
  using reconcile_decides [OF assms, of j] by (simp add: decide_attempt_def [abs_def])

theorem unknown_outcome_decided_witness:
  "\<exists>t report a. reconcile 1 demo_layout demo_unknown = (t, Inr report) \<and>
     find_attempt 13 t = Some a \<and> at_state a = AT_Reconciled \<and> at_settled_at_ms a = fs_now demo_unknown"
proof -
  have "case snd (reconcile 1 demo_layout demo_unknown) of Inl _ \<Rightarrow> False | Inr _ \<Rightarrow> True" by code_simp
  then obtain t report where r: "reconcile 1 demo_layout demo_unknown = (t, Inr report)"
    by (cases "reconcile 1 demo_layout demo_unknown") (auto split: sum.splits)
  have "case find_attempt 13 demo_unknown of None \<Rightarrow> False | Some a \<Rightarrow> at_accelerator a = 1 \<and> at_state a = AT_OutcomeUnknown"
    by code_simp
  moreover have "bl_device_present demo_layout" by code_simp
  ultimately show ?thesis using unknown_outcome_decided [OF r, of 13] r by (auto split: option.splits)
qed

text \<open>
  C5. Whenever execute registers an attempt and produces a request for the backend, the runtime was open, the reservation was active, the plan binding still described the live state, the device generation, boot identity, capability and policy generation were the reserved ones, the reservation had not expired, and every reserved partition carried the recorded generation; the registered attempt is recorded before the request leaves.
\<close>

theorem execute_authorised:
  assumes "execute_begin rw ri s = (s1, Inr req)"
  shows "\<exists>r plan acc. find_reservation ri s = Some r \<and> rs_lifecycle r = RL_Active \<and> \<not> fs_closed s \<and>
      (rw \<longrightarrow> id_valid (rs_worker r)) \<and>
      find_plan (rs_plan r) s = Some plan \<and> find_accelerator (rs_accelerator r) s = Some acc \<and>
      validate_plan_binding s plan (fs_now s) (pp_require_fresh_evidence (fs_policy s)) = success \<and>
      ac_generation acc = rs_accelerator_generation r \<and> ac_boot_id acc = rs_accelerator_boot r \<and>
      cap_generation (ac_capability acc) = rs_capability_generation r \<and>
      rs_policy_generation r = fs_policy_generation s \<and>
      (rs_expires_at_ms r = 0 \<or> fs_now s \<le> rs_expires_at_ms r) \<and>
      (\<forall>k<length (rs_partitions r). \<exists>p. find_partition (rs_partitions r ! k) s = Some p \<and>
         pr_generation p = (if k < length (rs_partition_generations r) then rs_partition_generations r ! k else gen_unknown)) \<and>
      (\<exists>a. find_attempt (mr_attempt req) s1 = Some a \<and> at_kind a = AK_CreatePartition \<and>
         at_partitions a = rs_partitions r \<and> at_state a = AT_Dispatched)"
  using assms by (rule execute_begin_authorised)

theorem execute_authorised_witness:
  "\<exists>req r. snd (execute_begin False 11 demo_reserved) = Inr req \<and>
     find_reservation 11 demo_reserved = Some r \<and> rs_lifecycle r = RL_Active \<and> \<not> fs_closed demo_reserved \<and>
     (\<exists>a. find_attempt (mr_attempt req) demo_dispatched = Some a \<and> at_partitions a = rs_partitions r)"
proof -
  have "case snd (execute_begin False 11 demo_reserved) of Inl _ \<Rightarrow> False | Inr _ \<Rightarrow> True" by code_simp
  then obtain req where "snd (execute_begin False 11 demo_reserved) = Inr req" by (auto split: sum.splits)
  then have "execute_begin False 11 demo_reserved = (demo_dispatched, Inr req)"
    by (simp add: demo_dispatched_def prod_eq_iff)
  from execute_authorised [OF this] \<open>snd _ = Inr req\<close> show ?thesis by blast
qed

text \<open>
  C6. Unless policy allows adoption, reconciling a device makes no partition usable that was not so before: every partition afterwards is a newly observed one that still needs revalidation, or keeps its state, or has lost its authority (offline, to be revalidated, retired or unpartitioned), or is active because an attempt of unknown outcome asked for it and everything that attempt asked for is in the observed layout.
\<close>

theorem reconcile_grants_no_authority:
  assumes "reconcile acc observed s = (t, Inr report)" "\<not> pp_allow_external_adoption (fs_policy s)"
    "find_partition i t = Some r"
  shows "pr_state r = PS_RevalidationRequired \<and> pr_externally_observed r \<and> pr_accelerator r = acc \<or>
    (\<exists>r0. find_partition i s = Some r0 \<and>
       (pr_state r = pr_state r0 \<or>
        pr_state r \<in> {PS_Offline, PS_RevalidationRequired, PS_Retired, PS_Unpartitioned} \<or>
        pr_state r = PS_Active \<and>
        (\<exists>a\<in>set (om_values (fs_attempts s)). at_accelerator a = acc \<and> at_state a = AT_OutcomeUnknown \<and>
           at_kind a \<noteq> AK_DestroyPartition \<and> i \<in> set (at_partitions a) \<and>
           layout_satisfies observed (map spec_of (at_desired a)))))"
  using reconcile_authority [OF assms] by (simp add: withdrawn_def creation_confirmed_def)

theorem reconcile_grants_no_authority_witness:
  "\<exists>t report r. reconcile 1 demo_layout demo_ready = (t, Inr report) \<and> find_partition 2 t = Some r \<and>
     pr_state r = PS_RevalidationRequired \<and> pr_externally_observed r"
proof -
  have "case reconcile 1 demo_layout demo_ready of
      (_, Inl _) \<Rightarrow> False | (t, Inr _) \<Rightarrow> (case find_partition 2 t of None \<Rightarrow> False | Some _ \<Rightarrow> True)" by code_simp
  then obtain t report r where r: "reconcile 1 demo_layout demo_ready = (t, Inr report)" "find_partition 2 t = Some r"
    by (cases "reconcile 1 demo_layout demo_ready") (auto split: sum.splits option.splits)
  have "\<not> pp_allow_external_adoption (fs_policy demo_ready)" by code_simp
  moreover have "case find_partition 2 demo_ready of None \<Rightarrow> True | Some _ \<Rightarrow> False" by code_simp
  ultimately show ?thesis
    using reconcile_grants_no_authority [OF r(1) _ r(2)] r by (auto split: option.splits)
qed

text \<open>
  C7. In every state a run can reach from the constructor by any interleaving of the modelled critical sections, backend reports that are refused at any stage included and imports of a durable state excluded, every ledger adds up: its six buckets sum to its total in each of the eight dimensions, and it passes the accounting check unless it is still blank, with a total of no dimension; every device record that carries an identity is stored under that identity and has a ledger. (A record without an identity is the placeholder that repeated refused reports of a device leave behind.)
\<close>

theorem reachable_accounting:
  assumes "reachable s"
  shows "(\<forall>k l. find_ledger k s = Some l \<longrightarrow> (\<forall>i<8. bucket_total l i = rv_val (cl_total l) i) \<and>
       (rv_empty (cl_total l) \<or> ledger_validate l = success)) \<and>
    (\<forall>k a. find_accelerator k s = Some a \<longrightarrow> id_valid (ac_id a) \<longrightarrow> ac_id a = k \<and> find_ledger k s \<noteq> None)"
proof (intro conjI allI impI)
  fix k
  { fix l i assume l: "find_ledger k s = Some l"
    then show "i < 8 \<Longrightarrow> bucket_total l i = rv_val (cl_total l) i"
      using reachable_ledger(1) [OF assms] by (simp add: ledger_balanced_def)
    from l show "rv_empty (cl_total l) \<or> ledger_validate l = success" using reachable_ledger(2) [OF assms] by blast }
  fix a assume "find_accelerator k s = Some a" "id_valid (ac_id a)"
  then obtain l where "ac_id a = k" "find_ledger k s = Some l" using reachable_device [OF assms] by metis
  then show "ac_id a = k" "find_ledger k s \<noteq> None" by simp_all
qed

theorem reachable_accounting_witness:
  "\<exists>l. find_ledger 1 demo_registered = Some l \<and> ledger_validate l = success \<and> bucket_total l 1 = rv_val (cl_total l) 1"
proof -
  have "id_valid (ac_id demo_bare)" by code_simp
  then obtain l where l: "find_ledger 1 demo_registered = Some l"
    using reachable_accounting [OF demo_registered_reachable] demo_registered_device by blast
  have "case find_ledger 1 demo_registered of None \<Rightarrow> False | Some l \<Rightarrow> \<not> rv_empty (cl_total l)" by code_simp
  with l reachable_accounting [OF demo_registered_reachable] show ?thesis by auto
qed

text \<open>
  C8. A feasible plan of the planner, in any reachable state, is bound to a registered device that passed every hard constraint and has a ledger; when it is feasible now that device has the free capacity, partition slots, multiplicity and slices for all instances and no resident profile excludes it; drain or reconfiguration is only planned when policy and request allow it; and no eligible device has a lower score, or the same score and a lower identity.
\<close>

theorem planner_choice:
  assumes "reachable s" "build_plan request now_ms s = (p, steps, cs)" "plan_feasible p"
  shows "\<exists>acc profile l. find_accelerator (pb_accelerator (pl_binding p)) s = Some acc \<and>
    find_profile (rq_profile request) s = Some profile \<and> find_ledger (pb_accelerator (pl_binding p)) s = Some l \<and>
    candidate_rejection s request profile now_ms (planning_fresh request s) acc = None \<and>
    (pl_outcome p = PO_FeasibleNow \<longrightarrow> device_has_room s acc l profile (rq_count request)) \<and>
    (pl_outcome p = PO_FeasibleAfterDrain \<longrightarrow> pp_allow_drain (fs_policy s) \<and> rq_allow_drain request) \<and>
    (pl_outcome p = PO_FeasibleAfterReconfiguration \<longrightarrow>
       pp_allow_destructive_reconfiguration (fs_policy s) \<and> rq_allow_destructive_reconfiguration request) \<and>
    (\<forall>other\<in>set (om_values (fs_accelerators s)).
       let mine = evaluate_candidate s request profile now_ms (planning_fresh request s) acc;
           theirs = evaluate_candidate s request profile now_ms (planning_fresh request s) other
       in ce_eligible theirs \<longrightarrow> ce_score_total mine < ce_score_total theirs \<or>
            ce_score_total mine = ce_score_total theirs \<and> ac_id acc \<le> ac_id other) \<and>
    pl_planned_partitions p = map (planned_of profile) [0..<unat (rq_count request)]"
  using build_plan_choice [OF _ assms(2,3)] fabric.invar_reachable [OF assms(1)] by (simp add: registry_inv_def)

theorem planner_choice_witness:
  "\<exists>acc profile l. find_accelerator 1 demo_ready = Some acc \<and> find_profile 5 demo_ready = Some profile \<and>
     find_ledger 1 demo_ready = Some l \<and> device_has_room demo_ready acc l profile 1"
proof -
  obtain p steps cs where b: "build_plan demo_request 1000 demo_ready = (p, steps, cs)" by (metis prod.exhaust)
  have "case build_plan demo_request 1000 demo_ready of (p, _, _) \<Rightarrow>
      pl_outcome p = PO_FeasibleNow \<and> pb_accelerator (pl_binding p) = 1" by code_simp
  then have p: "pl_outcome p = PO_FeasibleNow" "pb_accelerator (pl_binding p) = 1" by (simp_all add: b)
  then have f: "plan_feasible p" by (simp add: plan_feasible_def plan_outcome_feasible_def)
  have r: "rq_profile demo_request = 5" "rq_count demo_request = 1" by (simp_all add: demo_request_def)
  show ?thesis using planner_choice [OF demo_ready_reachable b f] p unfolding r by auto
qed

text \<open>
  C9. After a durable state has been imported successfully, into any runtime, no authority of the earlier process is left: every partition that holds capacity must be revalidated, every reservation is settled, every attempt is settled or of unknown outcome, no workload is assigned, every worker is fenced and not alive, no evidence of a device counts as observed, and the state generation has moved past both the stored and the live one.
\<close>

theorem restart_keeps_no_authority:
  assumes "import_durable_state d s = (t, Inr report)"
  shows "(\<forall>i r. find_partition i t = Some r \<longrightarrow> holds_capacity (pr_state r) \<longrightarrow> pr_state r = PS_RevalidationRequired) \<and>
    (\<forall>i r. find_reservation i t = Some r \<longrightarrow> reservation_is_terminal (rs_lifecycle r)) \<and>
    (\<forall>i a. find_attempt i t = Some a \<longrightarrow> attempt_settled (at_state a) \<or> at_state a = AT_OutcomeUnknown) \<and>
    fs_assignments t = [] \<and>
    (\<forall>i w. om_find i (fs_workers t) = Some w \<longrightarrow> wk_fenced w \<and> \<not> wk_alive w) \<and>
    (\<forall>k a. find_accelerator k t = Some a \<longrightarrow> \<not> es_observed (ac_evidence a) \<and>
       \<not> es_observed (cap_evidence (ac_capability a)) \<and> \<not> es_observed (he_stamp (ac_health a))) \<and>
    du_state_generation d < fs_state_generation t \<and> fs_state_generation s < fs_state_generation t"
proof -
  have "restarted t" by (rule import_advances(1) [OF assms])
  moreover have "pr_state r = PS_RevalidationRequired" if "calm (pr_state r)" "holds_capacity (pr_state r)" for r :: partition_record
    using that by (auto simp: calm_def revalidation_is_capacity holds_capacity_def)
  ultimately show ?thesis using import_advances(2-4) [OF assms] unfolding restarted_def by blast
qed

theorem restart_keeps_no_authority_witness:
  "\<exists>d t report r. export_durable_state demo_committed = Inr d \<and> import_durable_state d demo_new = (t, Inr report) \<and>
     find_partition 12 t = Some r \<and> pr_state r = PS_RevalidationRequired \<and> fs_assignments t = []"
proof -
  have "case export_durable_state demo_committed of Inl _ \<Rightarrow> False
    | Inr d \<Rightarrow> (case import_durable_state d demo_new of (t, st) \<Rightarrow> (case st of Inl _ \<Rightarrow> False
        | Inr _ \<Rightarrow> (case find_partition 12 t of None \<Rightarrow> False | Some r \<Rightarrow> holds_capacity (pr_state r))))" by code_simp
  moreover obtain d where d: "export_durable_state demo_committed = Inr d" by (simp add: export_durable_state_def)
  moreover obtain t st where i: "import_durable_state d demo_new = (t, st)" by fastforce
  ultimately obtain report r where r: "export_durable_state demo_committed = Inr d" "import_durable_state d demo_new = (t, Inr report)"
    "find_partition 12 t = Some r" "holds_capacity (pr_state r)" by (cases st) (auto split: option.splits)
  with restart_keeps_no_authority [OF r(2)] show ?thesis by blast
qed

text \<open>
  C10. On a synthetic backend whose devices start out within their limits and publish profiles over the same dimensions, no sequence of creations, destructions, reconfigurations, queries, fault settings, resets, presence changes and external destructions makes a device hold more partitions than it may or more of any resource than it physically has, and the capacity it computes as used is exactly the sum of what its partitions hold.
\<close>

theorem synthetic_capacity_kept:
  assumes "backend_fits m b" "sy_find key (fold synthetic_step calls b) = Some d"
  shows "length (dv_partitions d) \<le> unat (sd_max_partition_count (dv_spec d)) \<and>
    (\<forall>i<8. rv_val (used_capacity d) i = (\<Sum>p\<leftarrow>dv_partitions d. rv_val (sn_resources p) i) \<and>
       (\<Sum>p\<leftarrow>dv_partitions d. rv_val (sn_resources p) i) \<le> rv_val (sd_physical_totals (dv_spec d)) i)"
  using synthetic_run_device [OF assms] by (simp add: held_total_def)

theorem synthetic_capacity_kept_witness:
  "\<exists>d. sy_find ''dev0'' (fold synthetic_step [Call_create 2000 demo_creation] demo_backend) = Some d \<and>
     length (dv_partitions d) = 1 \<and> (\<forall>i<8. rv_val (used_capacity d) i \<le> rv_val (sd_physical_totals (dv_spec d)) i)"
proof -
  have "case sy_find ''dev0'' (fold synthetic_step [Call_create 2000 demo_creation] demo_backend) of
      None \<Rightarrow> False | Some d \<Rightarrow> length (dv_partitions d) = 1" by code_simp
  then obtain d where "sy_find ''dev0'' (fold synthetic_step [Call_create 2000 demo_creation] demo_backend) = Some d"
    "length (dv_partitions d) = 1" by (auto split: option.splits)
  with synthetic_capacity_kept [OF demo_backend_fits this(1)] show ?thesis by auto
qed

text \<open>
  C11. In every reachable state, once a present device without attempts of unknown outcome has been reconciled and identities are left, each physical partition the layout shows is represented by a live partition record of that device with its native identity.
\<close>

theorem observed_partition_recorded:
  assumes "reachable s" "reconcile acc observed s = (t, Inr report)" "bl_device_present observed"
    "n \<in> set (bl_partitions observed)" "ida_next (fs_ids t) \<noteq> UINT64_MAX"
    "\<forall>a\<in>set (om_values (fs_attempts s)). at_accelerator a = acc \<longrightarrow> at_state a \<noteq> AT_OutcomeUnknown"
  shows "\<exists>i r. find_partition i t = Some r \<and> layout_relevant acc r \<and> ni_native_id (pr_native_identity r) = bn_native_id n"
proof -
  have "ids_fresh s" using fabric.invar_reachable [OF assms(1)] by (simp add: registry_inv_def)
  moreover have "at_state u \<noteq> AT_OutcomeUnknown" if "find_attempt j s = Some u" "at_accelerator u = acc" for j u
    using assms(6) om_find_in_values [OF that(1)] that(2) by blast
  ultimately have "recorded acc t (bn_native_id n)" using reconcile_complete [OF assms(2,3)] assms(4,5) by blast
  then show ?thesis by (simp add: recorded_def)
qed

theorem observed_partition_recorded_witness:
  "\<exists>t report i r. reconcile 1 demo_layout demo_ready = (t, Inr report) \<and> find_partition i t = Some r \<and>
     layout_relevant 1 r \<and> ni_native_id (pr_native_identity r) = ''n1''"
proof -
  have "case reconcile 1 demo_layout demo_ready of
      (_, Inl _) \<Rightarrow> False | (t, Inr _) \<Rightarrow> ida_next (fs_ids t) \<noteq> UINT64_MAX" by code_simp
  then obtain t report where r: "reconcile 1 demo_layout demo_ready = (t, Inr report)" "ida_next (fs_ids t) \<noteq> UINT64_MAX"
    by (cases "reconcile 1 demo_layout demo_ready") (auto split: sum.splits)
  have "om_values (fs_attempts demo_ready) = []" "bl_device_present demo_layout"
    "bl_partitions demo_layout = [demo_native]" "bn_native_id demo_native = ''n1''" by code_simp+
  with observed_partition_recorded [OF demo_ready_reachable r(1), of demo_native] r show ?thesis by auto
qed

text \<open>
  C12. For specifications that name a vendor profile and a resource vector, the greedy layout comparison accepts an observed layout exactly when its native partitions, in some order, realise the desired specifications one for one.
\<close>

theorem layout_match_exact:
  assumes "\<forall>b\<in>set desired. spec_concrete b"
  shows "layout_matches_exactly layout desired \<longleftrightarrow>
           (\<exists>ns. mset ns = mset (bl_partitions layout) \<and> list_all2 spec_matches desired ns)"
  using assms by (rule layout_match_iff)

theorem layout_match_exact_witness:
  "layout_matches_exactly demo_layout (desired_specs_of demo_plan) \<and>
   (\<exists>ns. mset ns = mset (bl_partitions demo_layout) \<and> list_all2 spec_matches (desired_specs_of demo_plan) ns)"
proof -
  have c: "\<forall>b\<in>set (desired_specs_of demo_plan). spec_concrete b" by code_simp
  have "layout_matches_exactly demo_layout (desired_specs_of demo_plan)" by code_simp
  with layout_match_exact [OF c, of demo_layout] show ?thesis by blast
qed

text \<open>
  C13. In every reachable state, a request that the planning call answers with a new plan (not an earlier one of the same digest) that is feasible now can then be reserved, with the requested number of partitions on the planned device, provided that: the requested profile passes its validation and has eight-entry resources; the ledger of the planned device has every dimension the profile names, also those of value zero, which the planner skips; no retired, failed or unpartitioned record is left on the device; the validity window, the clock plus the evidence age, has not wrapped around; and the registries have room for one more reservation with identities left for it and its partitions.
\<close>

theorem feasible_plan_reserved:
  assumes "reachable s" "fabric_plan request s = (t, Inr p)"
    "planned_already (request_digest request) (fs_now s) s = None" "pl_outcome p = PO_FeasibleNow"
    "find_profile (rq_profile request) s = Some profile" "profile_validate profile (fs_limits s) = success"
    "rv_wf (pf_resources profile)"
    "\<forall>l. find_ledger (pb_accelerator (pl_binding p)) s = Some l \<longrightarrow> dims_within (pf_resources profile) (cl_total l)"
    "\<not> (\<exists>r\<in>set (om_values (fs_partitions s)). dead_on (pb_accelerator (pl_binding p)) r)"
    "planning_window request (fs_now s) s = 0 \<or> fs_now s \<le> planning_window request (fs_now s) s"
    "reservation_room (unat (rq_count request)) t"
  shows "\<exists>u r. reserve (pl_id p) t = (u, Inr r) \<and> length (rs_partitions r) = unat (rq_count request) \<and>
    rs_accelerator r = pb_accelerator (pl_binding p)"
  by (rule planned_then_reserved [OF assms])

theorem feasible_plan_reserved_witness:
  "\<exists>u r. reserve 1 (fst (fabric_plan demo_request demo_ready)) = (u, Inr r) \<and> length (rs_partitions r) = 1 \<and> rs_accelerator r = 1"
proof -
  let ?t = "fst (fabric_plan demo_request demo_ready)"
  have "case fabric_plan demo_request demo_ready of (_, Inl _) \<Rightarrow> False
      | (t, Inr p) \<Rightarrow> (pl_id p = 1 \<and> pl_outcome p = PO_FeasibleNow \<and> pb_accelerator (pl_binding p) = 1) \<and>
          fs_reservations t = [] \<and> ida_next (fs_ids t) = 2 \<and> max_active_reservations (fs_limits t) = 4 \<and>
          max_reservations (fs_limits t) = 8" by code_simp
  then obtain p where p: "fabric_plan demo_request demo_ready = (?t, Inr p)" "pl_id p = 1" "pl_outcome p = PO_FeasibleNow"
    "pb_accelerator (pl_binding p) = 1" and t: "fs_reservations ?t = []" "ida_next (fs_ids ?t) = 2"
    "max_active_reservations (fs_limits ?t) = 4" "max_reservations (fs_limits ?t) = 8"
    by (auto simp: prod_eq_iff split: prod.splits sum.splits)
  have plans: "fs_plans demo_ready = []" by code_simp
  then have new: "planned_already (request_digest demo_request) (fs_now demo_ready) demo_ready = None"
    by (simp add: planned_already_def om_values_def)
  have r: "rq_profile demo_request = 5" "rq_count demo_request = 1" "rq_max_evidence_age_ms demo_request = 0"
    by (simp_all add: demo_request_def)
  have prof: "find_profile 5 demo_ready = Some demo_profile" by code_simp
  have ok: "profile_validate demo_profile (fs_limits demo_ready) = success" by code_simp
  have wf: "rv_wf (pf_resources demo_profile)" by (simp add: demo_profile_def demo_slice_def demo_vector_def rv_wf_def)
  have "map_option (\<lambda>l. rv_mask (cl_total l)) (find_ledger 1 demo_ready) = Some 3" by code_simp
  then have dims: "\<forall>l. find_ledger 1 demo_ready = Some l \<longrightarrow> dims_within (pf_resources demo_profile) (cl_total l)"
    by (auto simp: dims_within_def demo_profile_def demo_slice_def demo_vector_def)
  have none: "fs_partitions demo_ready = []" and now: "fs_now demo_ready = 1000"
    and age: "pp_max_evidence_age_ms (fs_policy demo_ready) = 30000" by code_simp+
  have win: "planning_window demo_request 1000 demo_ready = 31000" by (simp add: planning_window_def r age)
  have roomy: "reservation_room 1 ?t"
    by (simp add: reservation_room_def active_reservations_def om_values_def t)
  show ?thesis
    using feasible_plan_reserved [OF demo_ready_reachable p(1) new p(3)] prof ok wf dims none roomy
    by (simp add: r p(2-4) now win om_values_def)
qed

text \<open>
  C14. The capacity ledger, with its presence masks and checked 64-bit vectors, refines plain natural-number counters: along any sequence of requested moves between its buckets, over dimensions the device has, it gives the same answers as the counters and its buckets hold exactly the numbers the counters show.
\<close>

theorem ledger_refines_counters:
  assumes "ledger_balanced l" "list_all (request_fits (cl_total l)) moves" "run_ledger moves l = (l', answers)"
  shows "run_counters moves (counters_of l) = (counters_of l', answers) \<and> ledger_balanced l'"
  using run_ledger_refines [OF assms(1,2)] assms(3) by simp

theorem ledger_refines_counters_witness:
  "\<exists>l' answers. run_ledger [(Bucket_Free, Bucket_Reserved, demo_slice), (Bucket_Reserved, Bucket_Active, demo_totals)] demo_ledger = (l', answers) \<and>
     answers = [success, failure E_InsufficientCapacity] \<and>
     run_counters [(Bucket_Free, Bucket_Reserved, demo_slice), (Bucket_Reserved, Bucket_Active, demo_totals)] (counters_of demo_ledger) =
       (counters_of l', answers)"
proof -
  let ?ms = "[(Bucket_Free, Bucket_Reserved, demo_slice), (Bucket_Reserved, Bucket_Active, demo_totals)]"
  obtain l' answers where r: "run_ledger ?ms demo_ledger = (l', answers)" by fastforce
  have "snd (run_ledger ?ms demo_ledger) = [success, failure E_InsufficientCapacity]" by code_simp
  moreover have "list_all (request_fits (cl_total demo_ledger)) ?ms" by (rule demo_moves_fit)
  ultimately show ?thesis using ledger_refines_counters [OF demo_ledger_balanced _ r] r by auto
qed

text \<open>
  C15. A whole-device reconfiguration is only dispatched from an open runtime for a plan of that kind whose binding is valid now, with policy and request permitting it, when every live partition of the device is safe to destroy; the registered attempt names exactly those partitions, and the plan can never be executed again.
\<close>

theorem reconfigure_authorised:
  assumes "reconfigure_begin plan_id s = (t, Inr req)"
  shows "\<exists>plan acc a. \<not> fs_closed s \<and> find_plan plan_id s = Some plan \<and>
    pl_outcome plan = PO_FeasibleAfterReconfiguration \<and>
    validate_plan_binding s plan (fs_now s) (pp_require_fresh_evidence (fs_policy s)) = success \<and>
    find_accelerator (pb_accelerator (pl_binding plan)) s = Some acc \<and>
    pp_allow_destructive_reconfiguration (fs_policy s) \<and> rq_allow_destructive_reconfiguration (pl_request plan) \<and>
    (\<forall>r\<in>set (om_values (fs_partitions s)). replaced_by_reconfiguration (ac_id acc) r \<longrightarrow> destruction_safe s r) \<and>
    mr_destructive req \<and> mr_full_device_reconfiguration req \<and> mr_desired req = map spec_of (pl_planned_partitions plan) \<and>
    mr_expected_boot req = ac_boot_id acc \<and>
    find_attempt (mr_attempt req) t = Some a \<and> at_kind a = AK_ReconfigureLayout \<and> at_state a = AT_Dispatched \<and>
    at_partitions a = map pr_id (filter (replaced_by_reconfiguration (ac_id acc)) (om_values (fs_partitions s))) \<and>
    (\<forall>u. find_plan plan_id u = find_plan plan_id t \<longrightarrow> (\<exists>e. snd (reconfigure_begin plan_id u) = Inl e))"
proof -
  have "\<exists>e. snd (reconfigure_begin plan_id u) = Inl e"
    if "find_plan plan_id u = find_plan plan_id t" "find_plan plan_id t = Some p" "pl_terminal p" for u p
    using terminal_plan_refused [of plan_id u p] that by simp
  then show ?thesis using reconfigure_begin_authorised [OF assms] by blast
qed

theorem reconfigure_authorised_witness:
  "\<exists>plan. find_plan 11 demo_rebuild = Some plan \<and> pl_outcome plan = PO_FeasibleAfterReconfiguration \<and>
     (\<exists>e. snd (reconfigure_begin 11 (fst (reconfigure_begin 11 demo_rebuild))) = Inl e)"
proof -
  have "case snd (reconfigure_begin 11 demo_rebuild) of Inl _ \<Rightarrow> False | Inr _ \<Rightarrow> True" by code_simp
  then obtain req where d: "reconfigure_begin 11 demo_rebuild = (fst (reconfigure_begin 11 demo_rebuild), Inr req)"
    by (cases "snd (reconfigure_begin 11 demo_rebuild)") (auto simp: prod_eq_iff)
  then show ?thesis using reconfigure_authorised [OF d] by blast
qed

text \<open>
  C16. A destruction is only dispatched from an open runtime for a live partition of the current device generation that has a native identity and is safe to destroy; the request removes exactly that native partition under the current boot identity, and the attempt and the partition are recorded as in progress.
\<close>

theorem destroy_authorised:
  assumes "destroy_begin pid s = (t, Inr req)"
  shows "\<exists>r acc a q. \<not> fs_closed s \<and> find_partition pid s = Some r \<and> \<not> is_terminal_state (pr_state r) \<and>
    destruction_safe s r \<and> find_accelerator (pr_accelerator r) s = Some acc \<and>
    ac_generation acc = pr_accelerator_generation r \<and>
    mr_destructive req \<and> \<not> mr_full_device_reconfiguration req \<and> mr_desired req = [] \<and>
    mr_remove_native_ids req = [ni_native_id (pr_native_identity r)] \<and> ni_native_id (pr_native_identity r) \<noteq> [] \<and>
    mr_expected_boot req = ac_boot_id acc \<and> mr_expected_accelerator_generation req = ac_generation acc \<and>
    find_attempt (mr_attempt req) t = Some a \<and> at_kind a = AK_DestroyPartition \<and> at_partitions a = [pr_id r] \<and>
    at_state a = AT_Dispatched \<and> find_partition (pr_id r) t = Some q \<and> pr_state q = PS_Destroying"
  by (rule destroy_begin_authorised [OF assms])

theorem destroy_authorised_witness:
  "\<exists>r req. find_partition 12 demo_committed = Some r \<and> destruction_safe demo_committed r \<and>
     snd (destroy_begin 12 demo_committed) = Inr req \<and> mr_remove_native_ids req = [ni_native_id (pr_native_identity r)]"
proof -
  have "case snd (destroy_begin 12 demo_committed) of Inl _ \<Rightarrow> False | Inr _ \<Rightarrow> True" by code_simp
  then obtain req where d: "destroy_begin 12 demo_committed = (fst (destroy_begin 12 demo_committed), Inr req)"
    by (cases "snd (destroy_begin 12 demo_committed)") (auto simp: prod_eq_iff)
  then show ?thesis using destroy_authorised [OF d] by (metis snd_conv)
qed

text \<open>
  C17. A stored state that could be loaded can no longer be loaded after any single byte of the file has been changed, or after the file has been cut short anywhere: the load fails as corrupt and leaves the runtime exactly as it was.
\<close>

theorem corrupted_file_rejected:
  assumes "store_decode bytes (fs_limits s) = Inr d" "i < length bytes"
  shows "(b \<noteq> bytes ! i \<longrightarrow> fabric_load (Some (bytes[i := b])) s = (s, failure E_PersistenceCorruption)) \<and>
    fabric_load (Some (take i bytes)) s = (s, failure E_PersistenceCorruption)"
proof -
  obtain payload where "unseal bytes = Inr payload" using store_decode_unseals [OF assms(1)] by blast
  note bad = unseal_single_byte [OF this assms(2), THEN store_decode_corrupt] unseal_truncated [OF this assms(2), THEN store_decode_corrupt]
  show ?thesis by (simp add: fabric_load_def bad)
qed

theorem corrupted_file_rejected_witness:
  "\<exists>bytes b. store_decode bytes default_limits = Inr demo_stored \<and>
     fabric_load (Some (bytes[0 := b])) (demo_new\<lparr>fs_limits := default_limits\<rparr>) =
       (demo_new\<lparr>fs_limits := default_limits\<rparr>, failure E_PersistenceCorruption)"
proof -
  obtain bytes where d: "store_decode bytes default_limits = Inr demo_stored" using demo_stored_read by blast
  then have "0 < length bytes" by (auto simp: store_decode_def unseal_def split: sum.splits if_splits)
  with d corrupted_file_rejected [of bytes "demo_new\<lparr>fs_limits := default_limits\<rparr>" demo_stored 0 "bytes ! 0 + 1"] show ?thesis
    by auto
qed

text \<open>
  C18. A runtime that successfully imports what a runtime in a reachable state exported knows exactly the devices of that state, has for each of them a ledger with the exported total that adds up and passes the accounting check, and its stable keys name registered devices. (The import fails when a device without an identity was exported.)
\<close>

theorem restart_keeps_books:
  assumes "reachable s" "export_durable_state s = Inr d" "import_durable_state d n = (t, Inr report)"
  shows "find_accelerator k t = map_option restored_accelerator (find_accelerator k s) \<and>
    (find_accelerator k s \<noteq> None \<longrightarrow> (\<exists>l l'. find_ledger k s = Some l \<and> find_ledger k t = Some l' \<and>
       cl_total l' = cl_total l \<and> ledger_validate l' = success \<and> (\<forall>i<8. bucket_total l' i = rv_val (cl_total l') i))) \<and>
    (\<forall>key. om_find key (fs_key_index t) = Some k \<longrightarrow> find_accelerator k t \<noteq> None)"
proof -
  have "registry_inv s" using fabric.invar_reachable [OF assms(1)] .
  note books = import_exported [OF this assms(2,3)]
  have "ledger_validate l = success \<and> (\<forall>i<8. bucket_total l i = rv_val (cl_total l) i)" if "ledger_closed l" for l
    using that ledger_closed_validate by (simp add: ledger_closed_def ledger_balanced_def)
  then show ?thesis using books(3-5) by blast
qed

theorem restart_keeps_books_witness:
  "\<exists>d t report l'. export_durable_state demo_ready = Inr d \<and> import_durable_state d demo_new = (t, Inr report) \<and>
     find_ledger 1 t = Some l' \<and> ledger_validate l' = success"
proof -
  have "find_accelerator 1 demo_ready \<noteq> None" by code_simp
  moreover have eval: "case export_durable_state demo_ready of Inl _ \<Rightarrow> False
    | Inr d \<Rightarrow> (case import_durable_state d demo_new of (_, st) \<Rightarrow> (case st of Inl _ \<Rightarrow> False | Inr _ \<Rightarrow> True))" by code_simp
  obtain d where d: "export_durable_state demo_ready = Inr d" by (simp add: export_durable_state_def)
  obtain t st where i: "import_durable_state d demo_new = (t, st)" by fastforce
  obtain report where r: "export_durable_state demo_ready = Inr d" "import_durable_state d demo_new = (t, Inr report)"
    using eval d i by (cases st) auto
  ultimately show ?thesis using restart_keeps_books [OF demo_ready_reachable r, of 1] r by blast
qed

text \<open>
  C19. A granted reservation was made against a plan that is valid now; it moves exactly the planned resources, dimension by dimension, from the free to the reserved bucket of that device and from no other bucket, registers an active reservation in the current epoch, and creates one reserved partition per planned partition.
\<close>

theorem reserve_exact:
  assumes "accounting_inv s" "reserve pid s = (s', Inr r)"
    and "\<forall>plan. find_plan pid s = Some plan \<longrightarrow> (\<forall>p\<in>set (pl_planned_partitions plan). rv_wf (pn_resources p))"
  shows "\<exists>plan l l'. find_plan pid s = Some plan \<and>
     validate_plan_binding s plan (fs_now s) (pp_require_fresh_evidence (fs_policy s)) = success \<and>
     find_ledger (pb_accelerator (pl_binding plan)) s = Some l \<and>
     find_ledger (pb_accelerator (pl_binding plan)) s' = Some l' \<and>
     (\<forall>i<8. \<forall>b<6. rv_val (cl_buckets l' ! b) i =
        (let n = (\<Sum>p\<leftarrow>pl_planned_partitions plan. rv_val (pn_resources p) i) in
         if b = 1 then rv_val (cl_buckets l ! b) i - n
         else if b = 2 then rv_val (cl_buckets l ! b) i + n
         else rv_val (cl_buckets l ! b) i)) \<and>
     find_reservation (rs_id r) s' = Some r \<and> rs_lifecycle r = RL_Active \<and>
     rs_coordinator_epoch r = fs_coordinator_epoch s \<and>
     list_all2 (\<lambda>i p. \<exists>q. find_partition i s' = Some q \<and> reserved_ok plan p i q)
       (rs_partitions r) (pl_planned_partitions plan)"
  using assms(3) by (intro reserve_granted [OF assms(1,2)]) blast

theorem reserve_exact_witness:
  "\<exists>r plan. reserve 10 demo_state = (demo_reserved, Inr r) \<and> find_plan 10 demo_state = Some plan \<and>
     find_reservation (rs_id r) demo_reserved = Some r \<and> rs_lifecycle r = RL_Active \<and>
     list_all2 (\<lambda>i p. \<exists>q. find_partition i demo_reserved = Some q \<and> reserved_ok plan p i q)
       (rs_partitions r) (pl_planned_partitions plan)"
proof -
  have "case snd (reserve 10 demo_state) of Inl _ \<Rightarrow> False | Inr _ \<Rightarrow> True" by code_simp
  then obtain r where "snd (reserve 10 demo_state) = Inr r" by (auto split: sum.splits)
  then have "reserve 10 demo_state = (demo_reserved, Inr r)" by (simp add: demo_reserved_def prod_eq_iff)
  from reserve_exact [OF demo_accounting this demo_plan_wf] this show ?thesis
    by (elim exE conjE) (intro exI conjI; assumption)
qed

text \<open>
  C20. A refused reservation leaves no partition and no reservation behind, and every ledger holds in every bucket and dimension exactly what it held before.
\<close>

theorem reserve_all_or_nothing:
  assumes "accounting_inv s" "ids_fresh s" "reserve pid s = (s', Inl e)"
  shows "fs_partitions s' = fs_partitions s \<and> set (fs_reservations s') \<subseteq> set (fs_reservations s) \<and>
         (\<forall>k. rel_option same_buckets (find_ledger k s) (find_ledger k s'))"
  using assms by (rule reserve_refused)

theorem reserve_all_or_nothing_witness:
  "\<exists>s' e. reserve 99 demo_state = (s', Inl e) \<and> fs_partitions s' = fs_partitions demo_state \<and>
     (\<forall>k. rel_option same_buckets (find_ledger k demo_state) (find_ledger k s'))"
proof -
  have "case snd (reserve 99 demo_state) of Inl _ \<Rightarrow> True | Inr _ \<Rightarrow> False" by code_simp
  then obtain s' e where r: "reserve 99 demo_state = (s', Inl e)"
    by (cases "reserve 99 demo_state") (auto split: sum.splits)
  from reserve_all_or_nothing [OF demo_accounting demo_fresh r] r show ?thesis by blast
qed

text \<open>
  C21. A successful release gives back exactly the reserved resources, from the reserved to the free bucket; it is refused while a partition of the reservation may exist physically, and a second release of the same reservation is refused as stale and changes nothing.
\<close>

theorem release_once:
  assumes "ledgers_balanced s" "release_reservation i s = (s', success)"
  shows "\<exists>r l l'. find_reservation i s = Some r \<and> find_ledger (rs_accelerator r) s = Some l \<and>
           find_ledger (rs_accelerator r) s' = Some l' \<and>
           \<not> (\<exists>p\<in>set (rs_partitions r). beyond_reserved s p) \<and>
           (\<forall>d<8. rv_val (ledger_bucket l' Bucket_Reserved) d =
                    rv_val (ledger_bucket l Bucket_Reserved) d - rv_val (rs_resources r) d \<and>
                  rv_val (ledger_bucket l' Bucket_Free) d =
                    rv_val (ledger_bucket l Bucket_Free) d + rv_val (rs_resources r) d) \<and>
           release_reservation i s' = (s', Inl E_StaleReservation)"
proof -
  from release_success_eq [OF assms(2)] obtain r l l' where r: "find_reservation i s = Some r"
    "find_ledger (rs_accelerator r) s = Some l" "\<not> (\<exists>p\<in>set (rs_partitions r). beyond_reserved s p)"
    "ledger_release_reserved (rs_resources r) l = (l', success)" "find_ledger (rs_accelerator r) s' = Some l'"
    "find_reservation i s' = Some (r\<lparr>rs_lifecycle := RL_Released, rs_updated_at_ms := fs_now s\<rparr>)" by blast
  have "ledger_balanced l" using assms(1) r(2) by (simp add: ledgers_balanced_def)
  from ledger_release_exact [OF this r(4)] r show ?thesis
    by (simp add: release_reservation_def release_reservation_locked_def)
qed

theorem release_once_witness:
  "\<exists>s'. release_reservation 11 demo_reserved = (s', success) \<and>
     release_reservation 11 s' = (s', Inl E_StaleReservation)"
proof -
  have "case snd (release_reservation 11 demo_reserved) of Inl _ \<Rightarrow> False | Inr _ \<Rightarrow> True" by code_simp
  then obtain s' where r: "release_reservation 11 demo_reserved = (s', success)"
    by (cases "release_reservation 11 demo_reserved") (auto split: sum.splits)
  from release_once [OF demo_reserved_balanced r] r show ?thesis by blast
qed

text \<open>
  C22. When a report that shows a known device with another valid boot identity is accepted, that is when the call returns its identity, the device keeps its identity, its device generation has moved forward by one, the new boot identity is recorded, and no reservation on the device is left active. Nothing is claimed for a report that fails: if publishing the capability fails the new boot identity is already recorded and the old reservations stay active.
\<close>

theorem reset_fences_incarnation:
  assumes "register_backend_accelerator b s = (t, Inr i)"
    "om_find (ba_stable_key b) (fs_key_index s) = Some j" "find_accelerator j s = Some p"
    "boot_valid (ac_boot_id p)" "boot_valid (ba_boot_id b)" "ac_boot_id p \<noteq> ba_boot_id b"
  shows "i = j \<and>
    (\<exists>r. find_accelerator i t = Some r \<and> gen_next (ac_generation p) = Inr (ac_generation r) \<and> ac_boot_id r = ba_boot_id b) \<and>
    (\<forall>k r. find_reservation k t = Some r \<and> rs_accelerator r = i \<longrightarrow> reservation_is_terminal (rs_lifecycle r))"
  using device_reset_fences [OF assms] by blast

theorem reset_fences_incarnation_witness:
  "(\<exists>r. find_accelerator 1 demo_reset = Some r \<and> ac_generation r = 2 \<and> ac_boot_id r = 8) \<and>
   (\<exists>r. find_reservation 11 demo_reset = Some r \<and> reservation_is_terminal (rs_lifecycle r))"
proof -
  have ok: "snd (register_backend_accelerator demo_report demo_reserved) = Inr 1" by code_simp
  then have reg: "register_backend_accelerator demo_report demo_reserved = (demo_reset, Inr 1)"
    by (simp add: demo_reset_def prod_eq_iff)
  have key: "om_find (ba_stable_key demo_report) (fs_key_index demo_reserved) = Some 1" by code_simp
  have dev: "find_accelerator 1 demo_reserved = Some demo_accelerator" by code_simp
  have boots: "boot_valid (ac_boot_id demo_accelerator)" "boot_valid (ba_boot_id demo_report)"
    "ac_boot_id demo_accelerator \<noteq> ba_boot_id demo_report" by code_simp+
  have "map_option rs_accelerator (find_reservation 11 demo_reset) = Some 1" by code_simp
  then have res: "\<exists>r. find_reservation 11 demo_reset = Some r \<and> rs_accelerator r = 1" by auto
  have g: "gen_next (ac_generation demo_accelerator) = Inr 2" by code_simp
  show ?thesis
    using reset_fences_incarnation [OF reg key dev boots] res g by (auto simp: demo_report_def)
qed

text \<open>
  C23. A feasible plan that was just built, in any reachable state, is accepted by the binding check at once exactly when its validity window is open (there is none, or the clock plus the evidence age, added in 64 bits without an overflow check, is not below the clock) and no retired, failed or unpartitioned partition record is left on its device.
\<close>

theorem new_plan_accepted:
  assumes "reachable s" "build_plan request now_ms s = (p, steps, cs)" "plan_feasible p"
  shows "validate_plan_binding s p now_ms (pp_require_fresh_evidence (fs_policy s)) = success \<longleftrightarrow>
    (planning_window request now_ms s = 0 \<or> now_ms \<le> planning_window request now_ms s) \<and>
    \<not> (\<exists>r\<in>set (om_values (fs_partitions s)). pr_accelerator r = pb_accelerator (pl_binding p) \<and>
         (is_terminal_state (pr_state r) \<or> pr_state r = PS_Unpartitioned))"
  using fresh_plan_accepted [OF _ assms(2,3)] fabric.invar_reachable [OF assms(1)]
  by (simp add: registry_inv_def dead_on_def)

theorem new_plan_accepted_witness:
  "validate_plan_binding demo_ready (fst (build_plan demo_request 1000 demo_ready)) 1000
     (pp_require_fresh_evidence (fs_policy demo_ready)) = success"
proof -
  obtain p steps cs where b: "build_plan demo_request 1000 demo_ready = (p, steps, cs)" by (metis prod.exhaust)
  have "case build_plan demo_request 1000 demo_ready of (p, _, _) \<Rightarrow> pl_outcome p = PO_FeasibleNow" by code_simp
  then have f: "plan_feasible p" by (simp add: b plan_feasible_def plan_outcome_feasible_def)
  have r: "rq_max_evidence_age_ms demo_request = 0" by (simp add: demo_request_def)
  have none: "fs_partitions demo_ready = []" and age: "pp_max_evidence_age_ms (fs_policy demo_ready) = 30000" by code_simp+
  have win: "planning_window demo_request 1000 demo_ready = 31000" by (simp add: planning_window_def r age)
  show ?thesis
    using new_plan_accepted [OF demo_ready_reachable b f] by (simp add: b none win om_values_def)
qed

text \<open>
  C24. Advancing the coordinator epoch strictly increases it, installs the new epoch, and leaves no unsettled attempt of an older epoch in flight.
\<close>

theorem epoch_advance_fences:
  assumes "advance_coordinator_epoch s = (s', Inr epoch)"
  shows "fs_coordinator_epoch s < epoch \<and> fs_coordinator_epoch s' = epoch \<and>
         attempt_classified (\<lambda>a. at_coordinator_epoch a \<noteq> epoch) s' i"
  using assms by (rule advance_epoch_spec)

theorem epoch_advance_fences_witness:
  "\<exists>s' epoch. advance_coordinator_epoch demo_dispatched = (s', Inr epoch) \<and> fs_coordinator_epoch s' = epoch \<and>
     attempt_classified (\<lambda>a. at_coordinator_epoch a \<noteq> epoch) s' 13"
proof -
  have "case snd (advance_coordinator_epoch demo_dispatched) of Inl _ \<Rightarrow> False | Inr _ \<Rightarrow> True" by code_simp
  then obtain s' epoch where r: "advance_coordinator_epoch demo_dispatched = (s', Inr epoch)"
    by (cases "advance_coordinator_epoch demo_dispatched") (auto split: sum.splits)
  from epoch_advance_fences [OF r, of 13] r show ?thesis by blast
qed

text \<open>
  C25. Closing the runtime leaves it closed with no reservation holding capacity, no partition still reserved or being created, and no attempt registered or dispatched.
\<close>

theorem close_settles_everything:
  assumes "\<not> fs_closed s" "close_fabric s = (s', st)"
  shows "fs_closed s' \<and>
    (\<forall>i r. find_reservation i s' = Some r \<longrightarrow> \<not> reservation_holds_capacity (rs_lifecycle r)) \<and>
    (\<forall>i q. find_partition i s' = Some q \<longrightarrow> pr_state q \<notin> {PS_Reserved, PS_Creating, PS_PlanPending}) \<and>
    (\<forall>i a. find_attempt i s' = Some a \<longrightarrow> at_state a \<noteq> AT_Registered \<and> at_state a \<noteq> AT_Dispatched)"
  using assms close_loops_settled [of _ s] by (auto simp: close_fabric_eq)

theorem close_settles_everything_witness:
  "fs_closed (fst (close_fabric demo_dispatched)) \<and>
   (\<exists>r. find_reservation 11 (fst (close_fabric demo_dispatched)) = Some r \<and>
      \<not> reservation_holds_capacity (rs_lifecycle r))"
proof -
  have o: "\<not> fs_closed demo_dispatched" by code_simp
  have "case find_reservation 11 (fst (close_fabric demo_dispatched)) of None \<Rightarrow> False | Some _ \<Rightarrow> True" by code_simp
  then obtain r where "find_reservation 11 (fst (close_fabric demo_dispatched)) = Some r" by (auto split: option.splits)
  with close_settles_everything [OF o prod.collapse [symmetric]] show ?thesis by blast
qed

text \<open>
  C26. The ledger check succeeds exactly when the device publishes some capacity and, for each of the eight dimensions that any bucket uses, the total is defined and equals the sum of the six buckets.
\<close>

theorem ledger_closure:
  "ledger_validate l = success \<longleftrightarrow> \<not> rv_empty (cl_total l) \<and> (\<forall>i<8. dimension_closes l i)"
  by (rule APF_Accounting.ledger_validate_iff)

theorem ledger_closure_witness:
  "\<not> rv_empty (cl_total demo_ledger) \<and> dimension_closes demo_ledger 0 \<and> dimension_closes demo_ledger 7"
proof -
  have "ledger_validate demo_ledger = success" by code_simp
  from ledger_closure [THEN iffD1, OF this] show ?thesis by simp
qed

text \<open>
  C27. A durable state that the store encoded, with its header, lengths and hashes, is decoded again to exactly the same state, provided that every record is within the bounds of its codec, the instance name within max_name_bytes and the stable keys within 256 bytes, no list is longer than max_persisted_records, and the limits allow texts of 256 bytes and of max_name_bytes to be written.
\<close>

theorem durable_roundtrip:
  assumes "store_encode d l = Inr bytes" "durable_ok l d" "limits_fit l"
  shows "store_decode bytes l = Inr d"
  using assms by (rule store_roundtrip)

theorem durable_roundtrip_witness:
  "\<exists>bytes. store_encode demo_stored default_limits = Inr bytes \<and> store_decode bytes default_limits = Inr demo_stored"
proof -
  obtain bytes where "store_encode demo_stored default_limits = Inr bytes" using demo_stored_written by blast
  with durable_roundtrip [OF this demo_stored_ok default_limits_fit] show ?thesis by blast
qed

text \<open>
  C28. A successful lifecycle transition of a partition follows the transition table, leaves a record that passes its own validation in the target state and in the capacity bucket the target state prescribes, and leaves the ledger of its device closed.
\<close>

theorem transition_result_valid:
  assumes "transition_partition i to s = (s', success)" "find_partition i s = Some r" "pr_state r \<noteq> to"
  shows "\<exists>r' l'. find_partition i s' = Some r' \<and> pr_state r' = to \<and> partition_validate r' = success \<and>
           pr_held_bucket r' = (if state_keeps_current_bucket to then pr_held_bucket r else bucket_for_state to) \<and>
           find_ledger (pr_accelerator r) s' = Some l' \<and> ledger_validate l' = success \<and>
           validate_transition (pr_state r) to = success"
  using assms by (rule transition_success)

theorem transition_result_valid_witness:
  "\<exists>s' r'. transition_partition 12 PS_Creating demo_reserved = (s', success) \<and> find_partition 12 s' = Some r' \<and>
     pr_state r' = PS_Creating \<and> partition_validate r' = success"
proof -
  have "case find_partition 12 demo_reserved of None \<Rightarrow> False | Some r \<Rightarrow> pr_state r \<noteq> PS_Creating" by code_simp
  then obtain r where r: "find_partition 12 demo_reserved = Some r" "pr_state r \<noteq> PS_Creating" by (auto split: option.splits)
  have "case snd (transition_partition 12 PS_Creating demo_reserved) of Inl _ \<Rightarrow> False | Inr _ \<Rightarrow> True" by code_simp
  then obtain s' where t: "transition_partition 12 PS_Creating demo_reserved = (s', success)"
    by (cases "transition_partition 12 PS_Creating demo_reserved") (auto split: sum.splits)
  from transition_result_valid [OF t r] t show ?thesis by blast
qed

text \<open>
  C29. A plan binding is accepted exactly when the policy generation is current, the plan is neither terminal nor expired, the device exists with the bound generation, boot identity and capability generation (and fresh evidence where required), and the bound layout lists every live partition of the device with its generation and nothing more.
\<close>

theorem plan_binding_exact:
  "validate_plan_binding s p now fresh = success \<longleftrightarrow>
     pb_policy_generation (pl_binding p) = fs_policy_generation s \<and> \<not> pl_terminal p \<and>
     \<not> expired_at (pl_binding p) now \<and> id_valid (pb_accelerator (pl_binding p)) \<and>
     (\<exists>a. find_accelerator (pb_accelerator (pl_binding p)) s = Some a \<and>
          ac_generation a = pb_accelerator_generation (pl_binding p) \<and>
          ac_boot_id a = pb_accelerator_boot (pl_binding p) \<and>
          cap_generation (ac_capability a) = pb_capability_generation (pl_binding p) \<and>
          (fresh \<longrightarrow> is_fresh_at (ac_evidence a) now)) \<and>
     (\<forall>r\<in>set (om_values (fs_partitions s)). layout_relevant (pb_accelerator (pl_binding p)) r \<longrightarrow>
        (pr_id r, pr_generation r) \<in> set (pb_layout (pl_binding p))) \<and>
     length (filter (layout_relevant (pb_accelerator (pl_binding p))) (om_values (fs_partitions s))) =
       length (pb_layout (pl_binding p))"
  by (rule APF_State.validate_plan_binding_iff)

theorem plan_binding_exact_witness:
  "pb_policy_generation (pl_binding demo_plan) = fs_policy_generation demo_state \<and> \<not> pl_terminal demo_plan"
proof -
  have "validate_plan_binding demo_state demo_plan 2000 True = success" by code_simp
  then show ?thesis unfolding plan_binding_exact by blast
qed

text \<open>
  C30. A workload is only admitted while the runtime is open, to an active partition of a registered device whose capability supports the profile, whose isolation covers the requirement and whose resources cover the minimum; the assignment it records names the current partition generation, policy generation and coordinator epoch, and the registry was below its bound.
\<close>

theorem admission_authority:
  assumes "admit q s = (s', d)" "ad_outcome d = Admitted"
  shows "\<exists>i r a. find_partition i s = Some r \<and> ad_partition d = pr_id r \<and> \<not> fs_closed s \<and>
    pr_state r = PS_Active \<and> find_accelerator (pr_accelerator r) s = Some a \<and>
    supports_profile (ac_capability a) (pr_profile r) \<and>
    isolation_subset (ir_required (wr_isolation q)) (id_guarantees (pr_isolation r)) \<and>
    (rv_empty (wr_minimum_resources q) \<or> is_subset_of (wr_minimum_resources q) (pr_resources r)) \<and>
    om_find (ad_assignment d) (fs_assignments s') = Some (new_assignment (ad_assignment d) r a q s) \<and>
    length (fs_assignments s) < max_assignments (fs_limits s)"
  using assms by (rule admit_granted)

theorem admission_authority_witness:
  "\<exists>d r. snd (admit demo_workload demo_committed) = d \<and> ad_outcome d = Admitted \<and>
     find_partition 12 demo_committed = Some r \<and>
     (\<exists>i r. find_partition i demo_committed = Some r \<and> ad_partition d = pr_id r \<and> pr_state r = PS_Active)"
proof -
  have "case find_partition 12 demo_committed of None \<Rightarrow> False | Some _ \<Rightarrow> True" by code_simp
  then obtain r where "find_partition 12 demo_committed = Some r" by (auto split: option.splits)
  moreover have o: "ad_outcome (snd (admit demo_workload demo_committed)) = Admitted" by code_simp
  ultimately show ?thesis using admission_authority [OF prod.collapse [symmetric] o] by blast
qed

text \<open>
  C31. While a partition drains, completing the drain succeeds exactly when no assignment is outstanding, and exactly then its record says that destruction is safe.
\<close>

theorem drain_completion_sound:
  assumes "find_partition i s = Some r" "pr_state r = PS_Draining" "assignments_on i s < 2 ^ 32"
  shows "(snd (complete_drain i s) = success \<longleftrightarrow> assignments_on i s = 0) \<and>
         (\<exists>r'. find_partition i (fst (complete_drain i s)) = Some r' \<and>
           (destructive_safe (pr_drain r') \<longleftrightarrow> assignments_on i s = 0))"
  using complete_drain_spec [OF assms] by blast

theorem drain_completion_sound_witness: "snd (complete_drain 12 demo_draining) \<noteq> success"
proof -
  have "case find_partition 12 demo_draining of None \<Rightarrow> False | Some r \<Rightarrow> pr_state r = PS_Draining" by code_simp
  then obtain r where r: "find_partition 12 demo_draining = Some r" "pr_state r = PS_Draining" by (auto split: option.splits)
  have n: "assignments_on 12 demo_draining = 1" by code_simp
  with drain_completion_sound [OF r] show ?thesis by simp
qed

text \<open>
  C32. Releasing the last assignment of a partition whose drain is in the draining state completes the drain: destruction becomes safe, the partition is unassigned and the completion time is recorded. A drain that is blocked is not covered: the release leaves it blocked.
\<close>

theorem last_release_completes_drain:
  assumes "om_find k (fs_assignments s) = Some asg" "om_sorted (fs_assignments s)"
    "find_partition (as_partition asg) s = Some r" "dp_state (pr_drain r) = DS_Draining"
    "assignments_on (as_partition asg) s = 1"
  shows "\<exists>r'. find_partition (as_partition asg) (fst (unbind_assignment k s)) = Some r' \<and>
           destructive_safe (pr_drain r') \<and> pr_assignment_state r' = AS_Unassigned \<and>
           dp_completed_at_ms (pr_drain r') = fs_now s"
  using assms by (rule unbind_last_completes)

theorem last_release_completes_drain_witness:
  "\<exists>k asg r'. om_find k (fs_assignments demo_draining) = Some asg \<and>
     find_partition (as_partition asg) (fst (unbind_assignment k demo_draining)) = Some r' \<and>
     destructive_safe (pr_drain r')"
proof -
  have "map (\<lambda>e. (fst e, as_partition (snd e))) (fs_assignments demo_draining) = [(14, 12)]" by code_simp
  then obtain asg where m: "fs_assignments demo_draining = [(14, asg)]" "as_partition asg = 12" by auto
  have "case find_partition 12 demo_draining of None \<Rightarrow> False | Some r \<Rightarrow> dp_state (pr_drain r) = DS_Draining"
    by code_simp
  then obtain r where r: "find_partition 12 demo_draining = Some r" "dp_state (pr_drain r) = DS_Draining"
    by (auto split: option.splits)
  have n: "assignments_on 12 demo_draining = 1" by code_simp
  have f: "om_find 14 (fs_assignments demo_draining) = Some asg" "om_sorted (fs_assignments demo_draining)"
    by (simp_all add: m om_find_Cons om_sorted_def)
  have "find_partition (as_partition asg) demo_draining = Some r" "assignments_on (as_partition asg) demo_draining = 1"
    using m(2) r(1) n by simp_all
  from last_release_completes_drain [OF f this(1) r(2) this(2)] f(1) show ?thesis by blast
qed

text \<open>
  C33. The hand-written UTF-8 scanner accepts exactly the byte strings that are concatenations of encodings of Unicode scalar values: no overlong form, no surrogate, nothing above U+10FFFF, nothing truncated.
\<close>

theorem utf8_validator_exact:
  "is_valid_utf8 b \<longleftrightarrow> (\<exists>ns. (\<forall>n\<in>set ns. unicode_scalar n) \<and> b = concat (map utf8_encode ns))"
  by (rule APF_Text.is_valid_utf8_sound_complete)

theorem utf8_validator_exact_witness:
  "\<exists>ns. list_all unicode_scalar ns \<and> ''apf'' = concat (map utf8_encode ns)"
proof -
  have "is_valid_utf8 ''apf''" by code_simp
  then show ?thesis by (simp only: utf8_validator_exact list_all_iff)
qed

text \<open>
  C34. Adding a resource vector whose dimensions are defined in the target succeeds exactly when no dimension exceeds its cap (one million parts for shares, 64 bits for bytes), and then adds every dimension without wrap-around; otherwise it reports an overflow.
\<close>

theorem vector_addition_exact:
  assumes "rv_wf v" "dims_within w v"
  shows "if \<forall>i<8. bit (rv_mask w) i \<longrightarrow> rv_val v i + rv_val w i \<le> dim_cap i
         then \<exists>v'. rv_add_assign v w = (v', success) \<and> rv_wf v' \<and> rv_mask v' = rv_mask v \<and>
                   (\<forall>i<8. rv_val v' i = rv_val v i + rv_val w i)
         else \<exists>v'. rv_add_assign v w = (v', Inl E_Overflow)"
  using assms by (rule rv_add_assign_spec)

theorem vector_addition_exact_witness:
  "\<exists>v'. rv_add_assign demo_totals demo_slice = (v', Inl E_Overflow)"
proof -
  have "dims_within demo_slice demo_totals"
    by (simp add: dims_within_def demo_slice_def demo_totals_def demo_vector_def)
  moreover have "bit (rv_mask demo_slice) 0 \<and> \<not> rv_val demo_totals 0 + rv_val demo_slice 0 \<le> dim_cap 0"
    by (simp add: demo_slice_def demo_totals_def demo_vector_def rv_val_def dim_cap_def is_share_index_def)
  ultimately show ?thesis
    using vector_addition_exact [OF demo_totals_wf, of demo_slice] by (auto split: if_splits)
qed

text \<open>
  C35. Along every run of the modelled critical sections from a reachable state, refused backend reports included, the coordinator epoch, the state generation, the policy generation and the identity allocator never move backwards. import_durable_state is not one of these steps: it takes over the stored policy generation, which may be older.
\<close>

theorem counters_never_regress:
  assumes "reachable s" "fabric_step\<^sup>*\<^sup>* s t"
  shows "fs_coordinator_epoch s \<le> fs_coordinator_epoch t \<and> fs_state_generation s \<le> fs_state_generation t \<and>
    fs_policy_generation s \<le> fs_policy_generation t \<and> ida_next (fs_ids s) \<le> ida_next (fs_ids t)"
  using run_counters [OF fabric.invar_reachable [OF assms(1)] assms(2)] by simp

theorem counters_never_regress_witness:
  "fs_coordinator_epoch demo_new \<le> fs_coordinator_epoch demo_registered \<and>
   fs_state_generation demo_new \<le> fs_state_generation demo_registered \<and>
   fs_policy_generation demo_new \<le> fs_policy_generation demo_registered \<and>
   ida_next (fs_ids demo_new) \<le> ida_next (fs_ids demo_registered)"
proof -
  have "fabric_step demo_new demo_registered"
    unfolding demo_registered_def
    by (rule step_register) (use demo_totals_wf in \<open>simp add: demo_bare_def demo_accelerator_def\<close>)
  then show ?thesis by (intro counters_never_regress demo_new_reachable r_into_rtranclp)
qed

text \<open>
  C36. A partition record within the wire limits that was encoded without an error is decoded again to exactly the same record, and the decoder then has consumed the whole message.
\<close>

theorem partition_roundtrip:
  assumes "partition_ok v" "bw_ok (encode_partition v (writer_start (Some b)))"
  shows "\<exists>r. run_state decode_partition (reader_start (bw_buffer (encode_partition v (writer_start (Some b))))) = (v, r) \<and>
     reader_finish r = success"
  using assms by (rule partition_codec.roundtrip)

theorem partition_roundtrip_witness:
  "\<exists>b r. run_state decode_partition (reader_start (bw_buffer (encode_partition (demo_partition, ([], []), [])
     (writer_start (Some b))))) = ((demo_partition, ([], []), []), r) \<and> reader_finish r = success"
proof -
  obtain b where "bw_ok (encode_partition (demo_partition, ([], []), []) (writer_start (Some b)))"
    using demo_partition_fits by blast
  from partition_roundtrip [OF demo_partition_ok this] show ?thesis by blast
qed

text \<open>
  C37. The decoder of device layouts is the exact inverse of the encoder: whenever it accepts a whole message, the decoded layout is within the wire limits and encoding it again gives exactly the bytes of the message.
\<close>

theorem layout_reencodes:
  assumes "run_state decode_layout (reader_start bs) = (x, r)" "reader_finish r = success" "length bs \<le> b"
  shows "layout_ok x \<and> encode_layout x (writer_start (Some b)) = \<lparr>bw_bound = b, bw_buffer = bs, bw_error = None\<rparr>"
  using assms by (rule layout_codec.reencode)

theorem layout_reencodes_witness:
  "\<exists>bs. encode_layout (demo_layout, []) (writer_start (Some (length bs))) =
     \<lparr>bw_bound = length bs, bw_buffer = bs, bw_error = None\<rparr>"
proof -
  obtain bs where "\<And>rest. run_state decode_layout (reader_start (bs @ rest)) =
      ((demo_layout, []), \<lparr>br_data = bs @ rest, br_offset = length bs, br_error = None\<rparr>)"
    using layout_codec.enc_outcome [OF demo_layout_ok] by metis
  from this [of "[]"] have "run_state decode_layout (reader_start bs) =
      ((demo_layout, []), \<lparr>br_data = bs, br_offset = length bs, br_error = None\<rparr>)" by simp
  from layout_reencodes [OF this, of "length bs"] show ?thesis by (auto simp: reader_finish_def)
qed

text \<open>
  C38. A creation that the synthetic backend has answered and that is sent again with its idempotency token is answered with the same result and creates nothing, provided the device was not reset by the call and fewer than 256 tokens are remembered.
\<close>

theorem synthetic_create_replayed:
  assumes "synthetic_create now_ms q b = (b1, Inr result)" "mr_idempotency_token q \<noteq> 0"
    "\<not> sf_silent_device_reset (sy_faults b)"
    "\<And>d. sy_find (mr_stable_key q) b = Some d \<Longrightarrow> length (dv_applied_tokens d) < 256"
  shows "synthetic_create later q b1 = (b1, Inr result)"
  using assms by (rule create_replay)

theorem synthetic_create_replayed_witness:
  "\<exists>b1 result. synthetic_create 2000 demo_creation demo_backend = (b1, Inr result) \<and> b1 \<noteq> demo_backend \<and>
     synthetic_create 3000 demo_creation b1 = (b1, Inr result)"
proof -
  have "case synthetic_create 2000 demo_creation demo_backend of
      (_, Inl _) \<Rightarrow> False | (b1, Inr _) \<Rightarrow> map (length \<circ> dv_partitions) (om_values (sy_devices b1)) = [1]" by code_simp
  then obtain b1 result where r: "synthetic_create 2000 demo_creation demo_backend = (b1, Inr result)"
    "map (length \<circ> dv_partitions) (om_values (sy_devices b1)) = [1]"
    by (cases "synthetic_create 2000 demo_creation demo_backend") (auto split: sum.splits)
  have "map (length \<circ> dv_partitions) (om_values (sy_devices demo_backend)) = [0]" by code_simp
  with r(2) have "b1 \<noteq> demo_backend" by auto
  moreover have "synthetic_create 3000 demo_creation b1 = (b1, Inr result)"
  proof (rule synthetic_create_replayed [OF r(1)])
    fix d assume "sy_find (mr_stable_key demo_creation) demo_backend = Some d"
    then have "d = demo_device" by (auto simp: demo_backend_def om_find_def split: if_splits)
    then show "length (dv_applied_tokens d) < 256" by (simp add: demo_device_def)
  qed (simp_all add: demo_creation_def demo_backend_def)
  ultimately show ?thesis using r(1) by blast
qed

text \<open>
  C39. A creation request that names the published profiles and that a synthetic backend without injected faults executes passes the verification of the runtime: the layout queried afterwards shows a present device, every reported native identity and a partition for every planned one, so that the attempt is confirmed and not ambiguous.
\<close>

theorem synthetic_creation_verified:
  assumes "synthetic_create now_ms q b = (b1, Inr result)" "sy_faults b = no_faults"
    "sy_find (mr_stable_key q) b = Some d" "replayed q d = None" "list_all (names_published d) (mr_desired q)"
    "synthetic_query_layout later (mr_stable_key q) b1 = (b2, Inr layout)"
    "at_kind a = AK_CreatePartition"
    "\<forall>p\<in>set (at_desired a). \<exists>s\<in>set (mr_desired q).
        ns_vendor_native_profile s = pn_vendor_native_profile p \<and> ns_resources s = pn_resources p"
  shows "bl_device_present layout \<and> (\<forall>i\<in>set (mu_created_native_ids result). find_native layout i \<noteq> None) \<and>
    verify_mutation st a r (Inr result) (Some layout) = (True, False)"
  using create_verified(1,2) [OF assms(1-6)] create_verifies [OF assms(1-7)] assms(8) by blast

theorem synthetic_creation_verified_witness:
  "\<exists>a r b1 result b2 layout. find_attempt 13 demo_dispatched = Some a \<and> find_reservation 11 demo_dispatched = Some r \<and>
     synthetic_create 2000 demo_creation demo_backend = (b1, Inr result) \<and>
     synthetic_query_layout 2000 ''dev0'' b1 = (b2, Inr layout) \<and>
     verify_mutation demo_dispatched a r (Inr result) (Some layout) = (True, False)"
proof -
  have "case find_attempt 13 demo_dispatched of None \<Rightarrow> False | Some a \<Rightarrow> at_kind a = AK_CreatePartition \<and>
      list_all (\<lambda>p. list_ex (\<lambda>s. ns_vendor_native_profile s = pn_vendor_native_profile p \<and> ns_resources s = pn_resources p)
        (mr_desired demo_creation)) (at_desired a)" by code_simp
  then obtain a where a: "find_attempt 13 demo_dispatched = Some a" "at_kind a = AK_CreatePartition"
    "\<forall>p\<in>set (at_desired a). \<exists>s\<in>set (mr_desired demo_creation).
        ns_vendor_native_profile s = pn_vendor_native_profile p \<and> ns_resources s = pn_resources p"
    by (auto simp: list_all_iff list_ex_iff split: option.splits)
  have "case find_reservation 11 demo_dispatched of None \<Rightarrow> False | Some _ \<Rightarrow> True" by code_simp
  then obtain r where r: "find_reservation 11 demo_dispatched = Some r" by (auto split: option.splits)
  have "case synthetic_create 2000 demo_creation demo_backend of (_, Inl _) \<Rightarrow> False
    | (b1, Inr _) \<Rightarrow> (case synthetic_query_layout 2000 ''dev0'' b1 of (_, Inl _) \<Rightarrow> False | (_, Inr _) \<Rightarrow> True)" by code_simp
  then obtain b1 result b2 layout where b: "synthetic_create 2000 demo_creation demo_backend = (b1, Inr result)"
    "synthetic_query_layout 2000 ''dev0'' b1 = (b2, Inr layout)" by (auto split: prod.splits sum.splits)
  have f: "sy_faults demo_backend = no_faults" "mr_stable_key demo_creation = ''dev0''"
    "sy_find (mr_stable_key demo_creation) demo_backend = Some demo_device" "replayed demo_creation demo_device = None"
    by (simp_all add: demo_backend_def demo_creation_def demo_device_def replayed_def om_find_def)
  have "list_all (names_published demo_device) (mr_desired demo_creation)" by code_simp
  from synthetic_creation_verified [OF b(1) f(1,3,4) this b(2) [folded f(2)] a(2,3)] a(1) r b show ?thesis by blast
qed

text \<open>
  C40. Importing what a synthetic backend exported, into any backend, succeeds when the exporting backend is within what the importer reads (at most 64 devices, each stored under the key of its specification, at most 512 partitions per device, texts of at most 256 bytes and well-formed resource vectors): every device both backends configure gets back its boot identity, presence and partitions and its partition counter (a counter of zero becomes one), and its remaining fields, every other device and the faults are left as they were.
\<close>

theorem synthetic_state_restored:
  assumes "export_state b = Inr bytes" "synthetic_backend_ok b"
  shows "\<exists>c1. import_state bytes c = (c1, success) \<and> sy_faults c1 = sy_faults c \<and>
    (\<forall>key. sy_find key c1 = map_option (\<lambda>d'. case sy_find key b of
        None \<Rightarrow> d'
      | Some d \<Rightarrow> d'\<lparr>dv_boot := dv_boot d, dv_present := dv_present d,
          dv_next_partition_index := (if dv_next_partition_index d = 0 then 1 else dv_next_partition_index d),
          dv_partitions := dv_partitions d\<rparr>) (sy_find key c))"
proof (rule import_export [OF assms, of c])
  fix c1 assume "import_state bytes c = (c1, success)" "sy_faults c1 = sy_faults c"
    "\<And>key. sy_find key c1 = map_option (\<lambda>d'. case sy_find key b of
        None \<Rightarrow> d'
      | Some d \<Rightarrow> restore_device (dv_boot d) (dv_present d) (dv_next_partition_index d) (dv_partitions d) d') (sy_find key c)"
  then show ?thesis unfolding restore_device_def by blast
qed

theorem synthetic_state_restored_witness:
  "\<exists>bytes c1 d. export_state demo_backend = Inr bytes \<and> import_state bytes (fst (set_device_present ''dev0'' False demo_backend)) = (c1, success) \<and>
     sy_find ''dev0'' c1 = Some d \<and> dv_present d"
proof -
  obtain bytes where e: "export_state demo_backend = Inr bytes" using demo_backend_exports by blast
  let ?c = "fst (set_device_present ''dev0'' False demo_backend)"
  have c: "sy_find ''dev0'' ?c = Some (demo_device\<lparr>dv_present := False\<rparr>)" "sy_find ''dev0'' demo_backend = Some demo_device"
    by (simp_all add: set_device_present_def on_device_def demo_backend_def om_find_def om_modify_def)
  from synthetic_state_restored [OF e demo_backend_ok, of ?c] obtain c1 where
    "import_state bytes ?c = (c1, success)" "sy_find ''dev0'' c1 = Some (demo_device\<lparr>dv_present := dv_present demo_device,
       dv_boot := dv_boot demo_device, dv_next_partition_index := (if dv_next_partition_index demo_device = 0 then 1 else dv_next_partition_index demo_device),
       dv_partitions := dv_partitions demo_device\<rparr>)" by (auto simp: c)
  with e show ?thesis by (auto simp: demo_device_def)
qed

end
